(* ===== verification/Prelude.thy ===== *)
theory Prelude
  imports Main "HOL-Library.List_Lexorder" "HOL-Library.Char_ord" "HOL-Library.Product_Lexorder"
begin

text \<open>
  Shared vocabulary of the development: results, Python strings, JSON values, SQL tables and
  pages.  A Python string is the list of the bytes of its UTF-8 encoding, the form in which
  SQLite stores and compares it; \<open>py_len\<close> counts code points as Python's \<open>len\<close> does.
  A table is the list of its rows; a statement that SQLite runs over it is a list function.
\<close>

named_theorems wf_rules \<open>rules that preserve a well-formedness invariant\<close>
named_theorems frame_rules \<open>rules saying what an operation leaves unchanged\<close>
named_theorems eval_defs \<open>definitions a concrete run unfolds\<close>

section \<open>Results\<close>

text \<open>A call that may raise is a value of a sum: \<open>Inl\<close> the exception, \<open>Inr\<close> the result.\<close>

definition bindR :: "'e + 'a \<Rightarrow> ('a \<Rightarrow> 'e + 'b) \<Rightarrow> 'e + 'b" where
  "bindR m f = (case m of Inl e \<Rightarrow> Inl e | Inr x \<Rightarrow> f x)"

definition guardR :: "bool \<Rightarrow> 'e \<Rightarrow> 'e + unit" where
  "guardR b e = (if b then Inr () else Inl e)"

definition succeeds :: "'e + 'a \<Rightarrow> bool" where
  "succeeds m = (case m of Inl _ \<Rightarrow> False | Inr _ \<Rightarrow> True)"

lemma bindR_simps [simp]: "bindR (Inl e) f = Inl e" "bindR (Inr x) f = f x"
  by (simp_all add: bindR_def)

lemma bindR_Inr_iff: "bindR m f = Inr y \<longleftrightarrow> (\<exists>x. m = Inr x \<and> f x = Inr y)"
  by (cases m) auto

lemma guardR_simps [simp]:
  "guardR True e = Inr ()" "guardR False e = Inl e"
  "guardR b e = Inr u \<longleftrightarrow> b" "guardR b e = Inl d \<longleftrightarrow> \<not> b \<and> d = e"
  by (auto simp: guardR_def)

lemma bindR_guardR_Inr [simp]: "bindR (guardR b e) f = Inr y \<longleftrightarrow> b \<and> f () = Inr y"
  by (simp add: guardR_def)

lemma bindR_guardR: "bindR (guardR b e) f = (if b then f () else Inl e)"
  by (simp add: guardR_def)

lemma succeeds_simps [simp]: "succeeds (Inl e) = False" "succeeds (Inr x) = True"
  by (simp_all add: succeeds_def)

lemma succeeds_iff: "succeeds m \<longleftrightarrow> (\<exists>x. m = Inr x)"
  by (cases m) auto

text \<open>Calls that also change a state.  A call keeps a predicate when it does so however it ends.\<close>

definition bindS :: "('s \<Rightarrow> ('e + 'a) \<times> 's) \<Rightarrow> ('a \<Rightarrow> 's \<Rightarrow> ('e + 'b) \<times> 's) \<Rightarrow> 's \<Rightarrow> ('e + 'b) \<times> 's" where
  "bindS m f s = (case m s of (r, s') \<Rightarrow> (case r of Inl e \<Rightarrow> (Inl e, s') | Inr x \<Rightarrow> f x s'))"

definition retS :: "'a \<Rightarrow> 's \<Rightarrow> ('e + 'a) \<times> 's" where
  "retS x s = (Inr x, s)"

definition failS :: "'e \<Rightarrow> 's \<Rightarrow> ('e + 'a) \<times> 's" where
  "failS e s = (Inl e, s)"

definition keepsS :: "('s \<Rightarrow> bool) \<Rightarrow> ('s \<Rightarrow> ('e + 'a) \<times> 's) \<Rightarrow> bool" where
  "keepsS P m = (\<forall>s. P s \<longrightarrow> P (snd (m s)))"

text \<open>\<open>try: m except Exception as exc: h(exc)\<close>\<close>

definition catchS :: "('s \<Rightarrow> ('e + 'a) \<times> 's) \<Rightarrow> ('e \<Rightarrow> 's \<Rightarrow> ('f + 'a) \<times> 's) \<Rightarrow> 's \<Rightarrow> ('f + 'a) \<times> 's" where
  "catchS m h s = (case m s of (r, s') \<Rightarrow> (case r of Inl e \<Rightarrow> h e s' | Inr x \<Rightarrow> (Inr x, s')))"

text \<open>The failure of \<open>m\<close> together with what the handler needs of the point where it was raised.\<close>

definition tagS :: "'t \<Rightarrow> ('s \<Rightarrow> ('e + 'a) \<times> 's) \<Rightarrow> 's \<Rightarrow> (('e \<times> 't) + 'a) \<times> 's" where
  "tagS t m = catchS m (\<lambda>e. failS (e, t))"

text \<open>\<open>try: m finally: c\<close>\<close>

definition finallyS :: "('s \<Rightarrow> ('e + 'a) \<times> 's) \<Rightarrow> ('s \<Rightarrow> ('e + unit) \<times> 's) \<Rightarrow> 's \<Rightarrow> ('e + 'a) \<times> 's" where
  "finallyS m c s = (case m s of (r, s') \<Rightarrow> (case c s' of (q, t) \<Rightarrow> ((case q of Inl e \<Rightarrow> Inl e | Inr u \<Rightarrow> r), t)))"

lemma bindS_lazy: "bindS m f = bindS m f"
  by (rule refl)

lemma bindS_run: "bindS m f s =
    (case m s of (r, s') \<Rightarrow> (case r of Inl e \<Rightarrow> (Inl e, s') | Inr x \<Rightarrow> f x s'))"
  by (simp add: bindS_def)

lemma bindS_Inr: "bindS m f s = (Inr y, t) \<longleftrightarrow> (\<exists>x s'. m s = (Inr x, s') \<and> f x s' = (Inr y, t))"
  by (simp add: bindS_def split: prod.split sum.split)

lemma catchS_Inr:
  "catchS m h s = (Inr y, t) \<longleftrightarrow> m s = (Inr y, t) \<or> (\<exists>e s'. m s = (Inl e, s') \<and> h e s' = (Inr y, t))"
  by (auto simp: catchS_def split: prod.split sum.split)

lemma keepsS_catch [wf_rules]: "keepsS P m \<Longrightarrow> (\<And>e. keepsS P (h e)) \<Longrightarrow> keepsS P (catchS m h)"
  by (fastforce simp: keepsS_def catchS_def split: prod.split sum.split dest: spec)

lemma keepsS_bind [wf_rules]: "keepsS P m \<Longrightarrow> (\<And>x. keepsS P (f x)) \<Longrightarrow> keepsS P (bindS m f)"
  by (fastforce simp: keepsS_def bindS_def split: prod.split sum.split dest: spec)

lemma keepsS_finally [wf_rules]: "keepsS P m \<Longrightarrow> keepsS P c \<Longrightarrow> keepsS P (finallyS m c)"
  by (fastforce simp: keepsS_def finallyS_def split: prod.split dest: spec)

lemma keepsS_ret [wf_rules]: "keepsS P (retS x)" "keepsS P (failS e)"
  by (simp_all add: keepsS_def retS_def failS_def)

lemma keepsS_if [wf_rules]: "keepsS P m \<Longrightarrow> keepsS P n \<Longrightarrow> keepsS P (if b then m else n)"
  by simp

lemma keepsS_option [wf_rules]:
  "keepsS P m \<Longrightarrow> (\<And>x. keepsS P (f x)) \<Longrightarrow> keepsS P (case v of None \<Rightarrow> m | Some x \<Rightarrow> f x)"
  by (cases v) simp_all

lemma keepsS_sum [wf_rules]:
  "(\<And>e. keepsS P (g e)) \<Longrightarrow> (\<And>x. keepsS P (f x)) \<Longrightarrow> keepsS P (case v of Inl e \<Rightarrow> g e | Inr x \<Rightarrow> f x)"
  by (cases v) simp_all

lemma keepsSD: "keepsS P m \<Longrightarrow> P s \<Longrightarrow> m s = (r, s') \<Longrightarrow> P s'"
  unfolding keepsS_def by (metis snd_conv)

section \<open>Python strings\<close>

definition starts_with :: "string \<Rightarrow> string \<Rightarrow> bool" where
  "starts_with p s = (take (length p) s = p)"

text \<open>
  \<open>len(s)\<close>: the first byte starts a code point, and so does every later byte that is not a
  UTF-8 continuation byte (\<open>10xxxxxx\<close>).
\<close>

definition continuation_byte :: "char \<Rightarrow> bool" where
  "continuation_byte c = (case c of Char b0 b1 b2 b3 b4 b5 b6 b7 \<Rightarrow> b7 \<and> \<not> b6)"

fun py_len :: "string \<Rightarrow> nat" where
  "py_len [] = 0"
| "py_len (c # s) = Suc (length (filter (\<lambda>c. \<not> continuation_byte c) s))"

text \<open>The characters of a UTF-8 text.\<close>

function py_chars :: "string \<Rightarrow> string list" where
  "py_chars [] = []"
| "py_chars (c # s) = (c # takeWhile continuation_byte s) # py_chars (dropWhile continuation_byte s)"
  by pat_completeness auto
termination by (relation "measure length") (simp_all add: le_imp_less_Suc length_dropWhile_le)

lemma py_len_pos [simp]: "Suc 0 \<le> py_len s \<longleftrightarrow> s \<noteq> []"
  by (cases s) auto

lemma filter_take_le: "length (filter P (take k s)) \<le> length (filter P s)"
  by (metis append_take_drop_id filter_append le_add1 length_append)

lemma filter_drop_le: "length (filter P (drop k s)) \<le> length (filter P s)"
  by (metis append_take_drop_id filter_append le_add2 length_append)

lemma py_len_take: "py_len (take k s) \<le> py_len s"
  by (cases k; cases s) (auto intro: filter_take_le)

lemma py_len_drop: "py_len (drop k s) \<le> py_len s"
proof (cases k)
  case (Suc j)
  show ?thesis
  proof (cases s)
    case (Cons c t)
    have "py_len u \<le> Suc (length (filter (\<lambda>c. \<not> continuation_byte c) u))" for u
      by (cases u) auto
    with Suc Cons show ?thesis
      by (metis Suc_le_mono drop_Suc_Cons filter_drop_le order_trans py_len.simps(2))
  qed simp
qed simp

text \<open>The characters that \<open>str.strip()\<close> removes, each as its UTF-8 bytes.\<close>

definition py_spaces :: "string list" where
  "py_spaces =
     [[CHR 0x09], [CHR 0x0A], [CHR 0x0B], [CHR 0x0C], [CHR 0x0D],
      [CHR 0x1C], [CHR 0x1D], [CHR 0x1E], [CHR 0x1F], [CHR 0x20],
      [CHR 0xC2, CHR 0x85], [CHR 0xC2, CHR 0xA0], [CHR 0xE1, CHR 0x9A, CHR 0x80],
      [CHR 0xE2, CHR 0x80, CHR 0x80], [CHR 0xE2, CHR 0x80, CHR 0x81],
      [CHR 0xE2, CHR 0x80, CHR 0x82], [CHR 0xE2, CHR 0x80, CHR 0x83],
      [CHR 0xE2, CHR 0x80, CHR 0x84], [CHR 0xE2, CHR 0x80, CHR 0x85],
      [CHR 0xE2, CHR 0x80, CHR 0x86], [CHR 0xE2, CHR 0x80, CHR 0x87],
      [CHR 0xE2, CHR 0x80, CHR 0x88], [CHR 0xE2, CHR 0x80, CHR 0x89],
      [CHR 0xE2, CHR 0x80, CHR 0x8A], [CHR 0xE2, CHR 0x80, CHR 0xA8],
      [CHR 0xE2, CHR 0x80, CHR 0xA9], [CHR 0xE2, CHR 0x80, CHR 0xAF],
      [CHR 0xE2, CHR 0x81, CHR 0x9F], [CHR 0xE3, CHR 0x80, CHR 0x80]]"

text \<open>Drop the words of \<open>ws\<close> from the front, as long as one of them stands there.\<close>

function chop :: "string list \<Rightarrow> string \<Rightarrow> string" where
  "chop ws s = (case find (\<lambda>w. w \<noteq> [] \<and> starts_with w s) ws of
                  None \<Rightarrow> s
                | Some w \<Rightarrow> chop ws (drop (length w) s))"
  by pat_completeness auto
termination
proof (relation "measure (\<lambda>(ws, s). length s)")
  fix ws s w
  assume "find (\<lambda>w. w \<noteq> [] \<and> starts_with w s) ws = Some w"
  then have "w \<noteq> []" and "take (length w) s = w"
    by (auto simp: find_Some_iff starts_with_def)
  then have "s \<noteq> []" and "length w > 0" by auto
  then show "((ws, drop (length w) s), ws, s) \<in> measure (\<lambda>(ws, s). length s)"
    by simp
qed simp

declare chop.simps [simp del]

definition py_lstrip :: "string \<Rightarrow> string" where
  "py_lstrip s = chop py_spaces s"

definition py_rstrip :: "string \<Rightarrow> string" where
  "py_rstrip s = rev (chop (map rev py_spaces) (rev s))"

definition py_strip :: "string \<Rightarrow> string" where
  "py_strip s = py_rstrip (py_lstrip s)"

lemma chop_suffix: "\<exists>k. chop ws s = drop k s"
proof (induction ws s rule: chop.induct)
  case (1 ws s)
  show ?case
  proof (cases "find (\<lambda>w. w \<noteq> [] \<and> starts_with w s) ws")
    case None
    then have "chop ws s = drop 0 s"
      by (simp add: chop.simps [of ws s])
    then show ?thesis by blast
  next
    case (Some w)
    with "1.IH" obtain k where "chop ws (drop (length w) s) = drop k (drop (length w) s)"
      by blast
    with Some show ?thesis
      by (auto simp: chop.simps [of ws s] drop_drop)
  qed
qed

lemma chop_none: "find (\<lambda>w. w \<noteq> [] \<and> starts_with w (chop ws s)) ws = None"
proof (induction ws s rule: chop.induct)
  case (1 ws s)
  then show ?case
    by (cases "find (\<lambda>w. w \<noteq> [] \<and> starts_with w s) ws")
      (simp_all add: chop.simps [of ws s])
qed

lemma chop_id: "find (\<lambda>w. w \<noteq> [] \<and> starts_with w s) ws = None \<Longrightarrow> chop ws s = s"
  by (simp add: chop.simps [of ws s])

lemma chop_idem [simp]: "chop ws (chop ws s) = chop ws s"
  by (rule chop_id) (rule chop_none)

lemma starts_with_take: "starts_with w (take k s) \<Longrightarrow> starts_with w s"
  unfolding starts_with_def by (metis append_take_drop_id take_take take_all_iff nat_le_linear
      length_take min.absorb_iff2 min.commute)

lemma py_rstrip_take: "\<exists>k. py_rstrip s = take k s"
proof -
  obtain k where "chop (map rev py_spaces) (rev s) = drop k (rev s)"
    using chop_suffix by blast
  then have "py_rstrip s = take (length s - k) s"
    by (simp add: py_rstrip_def rev_drop)
  then show ?thesis by blast
qed

lemma py_strip_idem [simp]: "py_strip (py_strip s) = py_strip s"
proof -
  let ?t = "chop py_spaces s"
  obtain k where k: "py_rstrip ?t = take k ?t"
    using py_rstrip_take by blast
  have "\<not> (w \<noteq> [] \<and> starts_with w ?t)" if "w \<in> set py_spaces" for w
    using chop_none [of py_spaces s] that by (simp add: find_None_iff)
  then have "find (\<lambda>w. w \<noteq> [] \<and> starts_with w (take k ?t)) py_spaces = None"
    by (auto simp: find_None_iff dest: starts_with_take)
  then have "chop py_spaces (py_rstrip ?t) = py_rstrip ?t"
    by (simp add: k chop_id)
  then show ?thesis
    by (simp add: py_strip_def py_lstrip_def) (simp add: py_rstrip_def)
qed

lemma py_strip_Nil [simp]: "py_strip [] = []"
proof -
  have "chop ws [] = []" for ws
    using chop_suffix [of ws "[]"] by auto
  then show ?thesis
    by (simp add: py_strip_def py_lstrip_def py_rstrip_def)
qed

text \<open>
  \<open>str.lower()\<close> where only the ASCII outcome matters: besides A to Z, the one character
  whose lower case is ASCII is the Kelvin sign (U+212A), which becomes k.
\<close>

definition lower_byte :: "char \<Rightarrow> char" where
  "lower_byte c = (case c of Char b0 b1 b2 b3 b4 b5 b6 b7 \<Rightarrow>
     if \<not> b7 \<and> b6 \<and> \<not> b5 \<and> (b0 \<or> b1 \<or> b2 \<or> b3 \<or> b4) \<and> \<not> (b4 \<and> b3 \<and> (b2 \<or> (b1 \<and> b0)))
     then Char b0 b1 b2 b3 b4 True b6 b7 else c)"

fun py_lower :: "string \<Rightarrow> string" where
  "py_lower (a # b # c # s) =
     (if a = CHR 0xE2 \<and> b = CHR 0x84 \<and> c = CHR 0xAA then CHR ''k'' # py_lower s
      else lower_byte a # py_lower (b # c # s))"
| "py_lower (a # s) = lower_byte a # py_lower s"
| "py_lower [] = []"

definition replace_char :: "char \<Rightarrow> char \<Rightarrow> string \<Rightarrow> string" where
  "replace_char a b s = map (\<lambda>c. if c = a then b else c) s"

text \<open>\<open>x or y\<close> on strings: the first one unless it is empty.\<close>

definition str_or :: "string \<Rightarrow> string \<Rightarrow> string" where
  "str_or a b = (if a = [] then b else a)"

lemma str_or_simps [simp]: "str_or [] b = b" "a \<noteq> [] \<Longrightarrow> str_or a b = a"
  by (simp_all add: str_or_def)

lemma str_or_eq_Nil [simp]: "str_or a b = [] \<longleftrightarrow> a = [] \<and> b = []"
  by (simp add: str_or_def)

section \<open>JSON values\<close>

text \<open>
  The values a metadata dictionary may hold.  A tuple is a \<open>JArr\<close>; a floating-point number
  is kept as its text; \<open>JOpaque s\<close> is any other Python object, with \<open>s\<close> its \<open>str()\<close>, which
  \<open>json.dumps\<close> refuses.
\<close>

datatype json =
    JNull
  | JBool bool
  | JInt int
  | JReal string
  | JStr string
  | JArr "json list"
  | JObj "(string \<times> json) list"
  | JOpaque string

type_synonym dict = "(string \<times> json) list"

text \<open>\<open>bool(v)\<close>\<close>

fun truthy :: "json \<Rightarrow> bool" where
  "truthy JNull = False"
| "truthy (JBool b) = b"
| "truthy (JInt n) = (n \<noteq> 0)"
| "truthy (JReal r) = (r \<noteq> ''0.0'' \<and> r \<noteq> ''-0.0'')"
| "truthy (JStr s) = (s \<noteq> [])"
| "truthy (JArr xs) = (xs \<noteq> [])"
| "truthy (JObj d) = (d \<noteq> [])"
| "truthy (JOpaque s) = True"

fun dumpable :: "json \<Rightarrow> bool"
  and dumpable_list :: "json list \<Rightarrow> bool"
  and dumpable_dict :: "dict \<Rightarrow> bool" where
  "dumpable (JOpaque s) = False"
| "dumpable (JArr xs) = dumpable_list xs"
| "dumpable (JObj kvs) = dumpable_dict kvs"
| "dumpable _ = True"
| "dumpable_list [] = True"
| "dumpable_list (x # xs) = (dumpable x \<and> dumpable_list xs)"
| "dumpable_dict [] = True"
| "dumpable_dict ((k, v) # kvs) = (dumpable v \<and> dumpable_dict kvs)"

text \<open>\<open>d[k] = v\<close> on a dictionary: a new key is appended, an old one keeps its place.\<close>

fun dict_set :: "string \<Rightarrow> json \<Rightarrow> dict \<Rightarrow> dict" where
  "dict_set k v [] = [(k, v)]"
| "dict_set k v ((k', v') # d) = (if k = k' then (k, v) # d else (k', v') # dict_set k v d)"

lemma map_of_dict_set [simp]: "map_of (dict_set k v d) = (map_of d)(k \<mapsto> v)"
  by (induction d) (auto simp: fun_eq_iff)

lemma dumpable_dict_set: "dumpable v \<Longrightarrow> dumpable_dict d \<Longrightarrow> dumpable_dict (dict_set k v d)"
  by (induction d) auto

text \<open>The same for a dictionary with values of any type; \<open>pop\<close> removes a key.\<close>

fun put :: "string \<Rightarrow> 'v \<Rightarrow> (string \<times> 'v) list \<Rightarrow> (string \<times> 'v) list" where
  "put k v [] = [(k, v)]"
| "put k v ((k', v') # d) = (if k = k' then (k, v) # d else (k', v') # put k v d)"

lemma map_of_put [simp]: "map_of (put k v d) = (map_of d)(k \<mapsto> v)"
  by (induction d) (auto simp: fun_eq_iff)

definition pop :: "string \<Rightarrow> (string \<times> 'v) list \<Rightarrow> (string \<times> 'v) list" where
  "pop k d = filter (\<lambda>(k', v). k' \<noteq> k) d"

lemma map_of_pop [simp]: "map_of (pop k d) = (map_of d)(k := None)"
  by (induction d) (auto simp: pop_def fun_eq_iff)

lemma put_keys: "fst ` set (put k v d) = insert k (fst ` set d)"
  unfolding dom_map_of_conv_image_fst [symmetric] by simp

lemma put_distinct: "distinct (map fst d) \<Longrightarrow> distinct (map fst (put k v d))"
proof (induction d)
  case (Cons x d)
  have "fst x \<notin> fst ` set (put k v d)" if "k \<noteq> fst x"
    using Cons.prems that by (simp add: put_keys)
  with Cons show ?case by (cases x) auto
qed simp

section \<open>Tables\<close>

text \<open>
  \<open>find\<close> is a SELECT by a key, \<open>update_where\<close> an UPDATE, \<open>rowcount\<close> the number of rows it
  touched; \<open>keyed\<close> says that a column is a primary key.
\<close>

definition row_of :: "('r \<Rightarrow> 'k) \<Rightarrow> 'k \<Rightarrow> 'r list \<Rightarrow> 'r option" where
  "row_of key k rows = find (\<lambda>r. key r = k) rows"

definition update_where :: "('r \<Rightarrow> bool) \<Rightarrow> ('r \<Rightarrow> 'r) \<Rightarrow> 'r list \<Rightarrow> 'r list" where
  "update_where p f rows = map (\<lambda>r. if p r then f r else r) rows"

definition rowcount :: "('r \<Rightarrow> bool) \<Rightarrow> 'r list \<Rightarrow> nat" where
  "rowcount p rows = length (filter p rows)"

definition keyed :: "('r \<Rightarrow> 'k) \<Rightarrow> 'r list \<Rightarrow> bool" where
  "keyed key rows = distinct (map key rows)"

lemma row_of_Nil [simp]: "row_of key k [] = None"
  by (simp add: row_of_def)

lemma row_of_Cons [simp]:
  "row_of key k (r # rows) = (if key r = k then Some r else row_of key k rows)"
  by (simp add: row_of_def)

lemma row_of_append [simp]:
  "row_of key k (xs @ ys) = (case row_of key k xs of None \<Rightarrow> row_of key k ys | Some r \<Rightarrow> Some r)"
  by (induction xs) auto

lemma row_of_Some: "row_of key k rows = Some r \<Longrightarrow> r \<in> set rows \<and> key r = k"
  by (auto simp: row_of_def find_Some_iff)

lemma row_of_None: "row_of key k rows = None \<longleftrightarrow> k \<notin> key ` set rows"
  by (auto simp: row_of_def find_None_iff)

lemma keyed_Nil [simp]: "keyed key []"
  by (simp add: keyed_def)

lemma row_of_member: "keyed key rows \<Longrightarrow> r \<in> set rows \<Longrightarrow> row_of key (key r) rows = Some r"
proof (induction rows)
  case (Cons r' rows)
  show ?case
  proof (cases "r = r'")
    case False
    with Cons.prems have mem: "r \<in> set rows" and keyed: "keyed key rows"
      and fresh: "key r' \<notin> key ` set rows"
      by (simp_all add: keyed_def)
    from mem fresh have "key r' \<noteq> key r" by (metis imageI)
    with Cons.IH [OF keyed mem] show ?thesis by simp
  qed simp
qed simp

lemma keyed_unique:
  assumes "keyed key rows" "r \<in> set rows" "r' \<in> set rows" "key r = key r'"
  shows "r = r'"
  by (metis assms option.inject row_of_member)

lemma keyed_append [simp]:
  "keyed key (rows @ [r]) \<longleftrightarrow> keyed key rows \<and> row_of key (key r) rows = None"
  by (simp add: keyed_def row_of_None)

lemma set_update_where: "set (update_where p f rows) = (\<lambda>r. if p r then f r else r) ` set rows"
  by (simp add: update_where_def)

lemma map_update_where [simp]:
  "(\<And>r. p r \<Longrightarrow> key (f r) = key r) \<Longrightarrow> map key (update_where p f rows) = map key rows"
  by (auto simp: update_where_def)

lemma keyed_update_where:
  "(\<And>r. p r \<Longrightarrow> key (f r) = key r) \<Longrightarrow> keyed key rows \<Longrightarrow> keyed key (update_where p f rows)"
  by (simp add: keyed_def)

lemma row_of_update_where:
  "(\<And>r. p r \<Longrightarrow> key (f r) = key r) \<Longrightarrow>
   row_of key k (update_where p f rows) =
     map_option (\<lambda>r. if p r then f r else r) (row_of key k rows)"
  by (induction rows) (auto simp: update_where_def)

text \<open>A row replaced under its own key.\<close>

lemma row_of_replace:
  assumes "key v = k"
  shows "row_of key i (update_where (\<lambda>r. key r = k) (\<lambda>_. v) rows) =
    (if i = k then (if row_of key k rows = None then None else Some v) else row_of key i rows)"
  using assms by (induction rows) (auto simp: update_where_def)

lemma update_where_id: "(\<And>r. r \<in> set rows \<Longrightarrow> \<not> p r) \<Longrightarrow> update_where p f rows = rows"
  by (simp add: update_where_def map_idI)

lemma filter_update_where:
  "(\<And>r. r \<in> set rows \<Longrightarrow> p r \<Longrightarrow> \<not> q r \<and> \<not> q (f r)) \<Longrightarrow>
   filter q (update_where p f rows) = filter q rows"
  by (induction rows) (auto simp: update_where_def)

lemma rowcount_0: "rowcount p rows = 0 \<longleftrightarrow> (\<forall>r \<in> set rows. \<not> p r)"
  by (auto simp: rowcount_def filter_empty_conv)

text \<open>A condition that fixes the primary key selects at most one row.\<close>

lemma rowcount_keyed:
  assumes "keyed key rows" and "\<And>r. p r \<Longrightarrow> key r = k"
  shows "rowcount p rows = (case row_of key k rows of None \<Rightarrow> 0 | Some r \<Rightarrow> if p r then 1 else 0)"
  using assms(1)
proof (induction rows)
  case Nil
  then show ?case by (simp add: rowcount_def)
next
  case (Cons r rows)
  have keyed: "keyed key rows"
    using Cons.prems by (simp add: keyed_def)
  show ?case
  proof (cases "key r = k")
    case True
    with Cons.prems have "row_of key k rows = None"
      by (simp add: keyed_def row_of_None)
    with Cons.IH [OF keyed] True show ?thesis
      by (simp add: rowcount_def)
  next
    case False
    with assms(2) have "\<not> p r" by blast
    with Cons.IH [OF keyed] False show ?thesis
      by (simp add: rowcount_def)
  qed
qed

text \<open>A SELECT and an UPDATE whose condition fixes the primary key.\<close>

lemma find_keyed:
  assumes "keyed key rows"
  shows "find (\<lambda>r. key r = k \<and> q r) rows =
    (case row_of key k rows of None \<Rightarrow> None | Some r \<Rightarrow> if q r then Some r else None)"
  using assms
proof (induction rows)
  case (Cons r rows)
  show ?case
  proof (cases "key r = k")
    case True
    with Cons.prems have "row_of key k rows = None"
      by (simp add: keyed_def row_of_None)
    with Cons True show ?thesis by (auto simp: keyed_def)
  qed (use Cons in \<open>auto simp: keyed_def\<close>)
qed simp

lemma update_where_row:
  assumes "keyed key rows" "row_of key k rows = Some r" "p r" "\<And>x. p x \<Longrightarrow> key x = k"
  shows "update_where p f rows = update_where (\<lambda>x. key x = k) (\<lambda>_. f r) rows"
    and "rowcount p rows = 1"
proof -
  have "x = r" if "x \<in> set rows" "key x = k" for x
    using row_of_member [OF assms(1) that(1)] that(2) assms(2) by simp
  with assms(3,4) show "update_where p f rows = update_where (\<lambda>x. key x = k) (\<lambda>_. f r) rows"
    by (auto simp: update_where_def)
  show "rowcount p rows = 1"
    using rowcount_keyed [OF assms(1,4)] assms(2,3) by simp
qed

section \<open>Pages\<close>

text \<open>\<open>LIMIT n OFFSET k\<close>; the repositories ask for one row more than a page holds.\<close>

definition sql_page :: "nat \<Rightarrow> nat \<Rightarrow> 'r list \<Rightarrow> 'r list" where
  "sql_page limit offset rows = take limit (drop offset rows)"

lemma sql_page_length: "length (sql_page n k rows) = min n (length rows - k)"
  by (simp add: sql_page_def)

lemma sql_page_probe: "take n (sql_page (Suc n) k rows) = sql_page n k rows"
  by (simp add: sql_page_def min_def)

lemma sql_page_more: "length (sql_page (Suc n) k rows) > n \<longleftrightarrow> k + n < length rows"
  by (auto simp: sql_page_length)

lemma set_sql_page: "x \<in> set (sql_page n k rows) \<Longrightarrow> x \<in> set rows"
  by (auto simp: sql_page_def dest: in_set_takeD in_set_dropD)

lemma pages_concat: "concat (map (\<lambda>j. sql_page n (j * n) rows) [0..<k]) = take (k * n) rows"
proof (induction k)
  case (Suc k)
  have "take (k * n) rows @ take n (drop (k * n) rows) = take (k * n + n) rows"
    by (simp add: take_add)
  with Suc show ?case by (simp add: sql_page_def add.commute)
qed simp

lemma sorted_sql_page: "sorted (map f rows) \<Longrightarrow> sorted (map f (sql_page n k rows))"
  by (simp add: sql_page_def sorted_wrt_take sorted_wrt_drop flip: take_map drop_map)

section \<open>Decoding rows\<close>

text \<open>A comprehension over rows, e.g. \<open>tuple(self._item(row) for row in rows)\<close>: the first row that
  fails ends it.\<close>

fun decode_rows :: "('r \<Rightarrow> 'e + 'm) \<Rightarrow> 'r list \<Rightarrow> 'e + 'm list" where
  "decode_rows f [] = Inr []"
| "decode_rows f (r # rs) = bindR (f r) (\<lambda>m. bindR (decode_rows f rs) (\<lambda>ms. Inr (m # ms)))"

lemma decode_rows_Inr: "decode_rows f rs = Inr ms \<longleftrightarrow> map f rs = map Inr ms"
proof (induction rs arbitrary: ms)
  case (Cons r rs)
  have "decode_rows f (r # rs) = Inr ms \<longleftrightarrow>
      (\<exists>m ns. f r = Inr m \<and> decode_rows f rs = Inr ns \<and> ms = m # ns)"
    by (cases "f r"; cases "decode_rows f rs") (auto simp: bindR_def)
  also have "\<dots> \<longleftrightarrow> map f (r # rs) = map Inr ms"
    unfolding Cons.IH by (cases ms) auto
  finally show ?case .
qed auto

end
