(* ===== verification/Timestamps.thy ===== *)
theory Timestamps
  imports Prelude
begin

text \<open>
  Instants and their text.  An instant is an \<open>int\<close>: microseconds since 0001-01-01T00:00 UTC,
  the resolution and origin of Python's \<open>datetime\<close>.  The repositories keep instants as TEXT
  columns and compare the text, so the theory defines \<open>datetime.isoformat()\<close> on UTC instants
  and proves that comparing two such texts compares the instants.  It also settles what
  happens when one side was written with the suffix Z instead of +00:00.
\<close>

section \<open>The proleptic Gregorian calendar\<close>

text \<open>Days before January 1st of year \<open>y\<close>, counted from 0001-01-01.\<close>

definition days_before_year :: "nat \<Rightarrow> nat" where
  "days_before_year y = 365 * (y - 1) + (y - 1) div 4 - (y - 1) div 100 + (y - 1) div 400"

definition leap_year :: "nat \<Rightarrow> bool" where
  "leap_year y = (4 dvd y \<and> (\<not> 100 dvd y \<or> 400 dvd y))"

definition month_lengths :: "nat \<Rightarrow> nat list" where
  "month_lengths y =
     [31, if leap_year y then 29 else 28, 31, 30, 31, 30, 31, 31, 30, 31, 30, 31]"

lemma days_before_year_le: "days_before_year (Suc y) \<le> 366 * y"
  by (simp add: days_before_year_def)

lemma days_before_year_ge: "y \<le> days_before_year (Suc y)"
  by (simp add: days_before_year_def)

lemma days_before_year_Suc:
  assumes "0 < y"
  shows "days_before_year (Suc y) = days_before_year y + (if leap_year y then 366 else 365)"
proof -
  obtain k where y: "y = Suc k" using assms by (cases y) auto
  have d: "Suc k div m = k div m + (if m dvd Suc k then 1 else 0)" if "0 < m" for m
    using that by (simp add: div_Suc dvd_eq_mod_eq_0)
  have "4 dvd Suc k" if "100 dvd Suc k"
    using that by (rule dvd_trans [rotated]) simp
  moreover have "100 dvd Suc k" if "400 dvd Suc k"
    using that by (rule dvd_trans [rotated]) simp
  moreover have "k div 100 \<le> k div 4" by (simp add: div_le_mono2)
  moreover have "365 * Suc k + (a + (if p then 1 else 0)) - (b + (if q then 1 else 0)) +
      (c + (if r then 1 else 0)) =
      365 * k + a - b + c + (if p \<and> (\<not> q \<or> r) then 366 else 365)"
    if "b \<le> a" "q \<Longrightarrow> p" "r \<Longrightarrow> q" for a b c :: nat and p q r
    using that by (cases p; cases q; cases r) simp_all
  ultimately show ?thesis
    unfolding y days_before_year_def leap_year_def diff_Suc_1
    by (simp only: d zero_less_numeral)
qed

text \<open>The year of a day: start below it and climb.\<close>

function climb :: "nat \<Rightarrow> nat \<Rightarrow> nat" where
  "climb y n = (if days_before_year (Suc y) \<le> n then climb (Suc y) n else y)"
  by pat_completeness auto
termination
proof (relation "measure (\<lambda>(y, n). Suc n - y)")
  fix y n assume "days_before_year (Suc y) \<le> n"
  then show "((Suc y, n), y, n) \<in> measure (\<lambda>(y, n). Suc n - y)"
    using days_before_year_ge [of y] by simp
qed simp

declare climb.simps [simp del]

definition year_of_day :: "nat \<Rightarrow> nat" where
  "year_of_day n = climb (Suc (n div 366)) n"

fun month_day :: "nat \<Rightarrow> nat list \<Rightarrow> nat \<Rightarrow> nat \<times> nat" where
  "month_day m [] d = (m, d)"
| "month_day m (l # ls) d = (if d < l then (m, d) else month_day (Suc m) ls (d - l))"

text \<open>Year, month (from 1) and day of the month (from 0) of a day number.\<close>

definition date_of_day :: "nat \<Rightarrow> nat \<times> nat \<times> nat" where
  "date_of_day n =
     (let y = year_of_day n in (y, month_day 1 (month_lengths y) (n - days_before_year y)))"

lemma climb_bounds:
  "days_before_year y \<le> n \<Longrightarrow>
   days_before_year (climb y n) \<le> n \<and> n < days_before_year (Suc (climb y n)) \<and> y \<le> climb y n"
proof (induction y n rule: climb.induct)
  case (1 y n)
  then show ?case
    by (cases "days_before_year (Suc y) \<le> n") (auto simp: climb.simps [of y n])
qed

lemma year_of_day_bounds:
  "days_before_year (year_of_day n) \<le> n" "n < days_before_year (Suc (year_of_day n))"
  "0 < year_of_day n"
proof -
  have "days_before_year (Suc (n div 366)) \<le> n"
    using days_before_year_le [of "n div 366"] times_div_less_eq_dividend [of 366 n] by linarith
  from climb_bounds [OF this]
  show "days_before_year (year_of_day n) \<le> n" "n < days_before_year (Suc (year_of_day n))"
    "0 < year_of_day n"
    by (auto simp: year_of_day_def)
qed

lemma days_before_year_mono: "0 < y \<Longrightarrow> y \<le> z \<Longrightarrow> days_before_year y \<le> days_before_year z"
proof (induction z)
  case (Suc z)
  then show ?case
    by (cases "y = Suc z") (auto simp: days_before_year_Suc)
qed simp

lemma year_of_day_mono: "m \<le> n \<Longrightarrow> year_of_day m \<le> year_of_day n"
proof (rule ccontr)
  assume "m \<le> n" and "\<not> year_of_day m \<le> year_of_day n"
  then have "days_before_year (Suc (year_of_day n)) \<le> days_before_year (year_of_day m)"
    by (intro days_before_year_mono) auto
  with year_of_day_bounds [of m] year_of_day_bounds [of n] \<open>m \<le> n\<close> show False by linarith
qed

lemma month_day_ge: "m \<le> fst (month_day m ls d)"
  by (induction m ls d rule: month_day.induct) auto

lemma month_day_bound:
  "d < sum_list ls \<Longrightarrow> \<forall>l \<in> set ls. l \<le> b \<Longrightarrow>
   fst (month_day m ls d) < m + length ls \<and> snd (month_day m ls d) < b"
proof (induction m ls d rule: month_day.induct)
  case (2 m l ls d)
  then show ?case by (cases "d < l") auto
qed simp

lemma month_day_strict_mono: "d < e \<Longrightarrow> e < sum_list ls \<Longrightarrow> month_day m ls d < month_day m ls e"
proof (induction ls arbitrary: m d e)
  case (Cons l ls)
  show ?case
  proof (cases "d < l")
    case True
    show ?thesis
    proof (cases "e < l")
      case False
      with True have "fst (month_day m (l # ls) d) < fst (month_day m (l # ls) e)"
        using month_day_ge [of "Suc m" ls "e - l"] by simp
      then show ?thesis by (simp add: less_prod_def)
    qed (use True Cons.prems in simp)
  next
    case False
    with Cons.prems have "month_day (Suc m) ls (d - l) < month_day (Suc m) ls (e - l)"
      by (intro Cons.IH) auto
    with False Cons.prems show ?thesis by simp
  qed
qed simp

lemma sum_month_lengths: "sum_list (month_lengths y) = (if leap_year y then 366 else 365)"
  by (simp add: month_lengths_def)

lemma day_in_year: "n - days_before_year (year_of_day n) < sum_list (month_lengths (year_of_day n))"
  using year_of_day_bounds [of n] days_before_year_Suc [of "year_of_day n"]
  by (auto simp: sum_month_lengths split: if_splits)

lemma date_of_day_strict_mono: "m < n \<Longrightarrow> date_of_day m < date_of_day n"
proof (cases "year_of_day m = year_of_day n")
  case True
  assume "m < n"
  with True show ?thesis
    using year_of_day_bounds [of m] day_in_year [of n]
    by (simp add: date_of_day_def Let_def month_day_strict_mono)
next
  case False
  assume "m < n"
  with False have "year_of_day m < year_of_day n"
    using year_of_day_mono [of m n] by linarith
  then show ?thesis by (simp add: date_of_day_def Let_def)
qed

text \<open>The last day Python's calendar has is 9999-12-31.\<close>

definition max_day :: nat where
  "max_day = 3652058"

lemma days_before_10000: "days_before_year 10000 = Suc max_day"
  by (simp add: days_before_year_def max_day_def)

lemma year_bound: "n \<le> max_day \<Longrightarrow> year_of_day n < 10000"
proof (rule ccontr)
  assume "n \<le> max_day" and "\<not> year_of_day n < 10000"
  then have "days_before_year 10000 \<le> days_before_year (year_of_day n)"
    by (intro days_before_year_mono) auto
  with year_of_day_bounds(1) [of n] \<open>n \<le> max_day\<close> days_before_10000 show False by linarith
qed

lemma month_bounds:
  assumes "date_of_day n = (y, m, d)"
  shows "m < 100" "d < 31"
proof -
  let ?ls = "month_lengths (year_of_day n)" and ?d = "n - days_before_year (year_of_day n)"
  have len: "length ?ls = 12" and le: "\<forall>l \<in> set ?ls. l \<le> 31"
    by (simp_all add: month_lengths_def)
  from assms have "month_day 1 ?ls ?d = (m, d)"
    by (auto simp: date_of_day_def Let_def)
  with month_day_bound [OF day_in_year le, of 1] len show "m < 100" "d < 31"
    by simp_all
qed

section \<open>Digits\<close>

definition digit :: "nat \<Rightarrow> char" where
  "digit d = char_of (48 + d)"

fun nat_text :: "nat \<Rightarrow> string" where
  "nat_text n = (if n < 10 then [digit n] else nat_text (n div 10) @ [digit (n mod 10)])"

declare nat_text.simps [simp del]

definition int_text :: "int \<Rightarrow> string" where
  "int_text i = (if i < 0 then CHR ''-'' # nat_text (nat (- i)) else nat_text (nat i))"

fun pad :: "nat \<Rightarrow> nat \<Rightarrow> string" where
  "pad 0 n = []"
| "pad (Suc k) n = pad k (n div 10) @ [digit (n mod 10)]"

lemma length_pad [simp]: "length (pad k n) = k"
  by (induction k arbitrary: n) auto

lemma digit_less: "a < 10 \<Longrightarrow> b < 10 \<Longrightarrow> digit a < digit b \<longleftrightarrow> a < b"
  by (simp add: digit_def less_char_def)

lemma less_by_digits:
  "(x::nat) < y \<longleftrightarrow> x div 10 < y div 10 \<or> (x div 10 = y div 10 \<and> x mod 10 < y mod 10)"
proof -
  have "10 * a + b < 10 * c + d \<longleftrightarrow> a < c \<or> (a = c \<and> b < d)" if "b < 10" "d < 10"
    for a b c d :: nat
    using that by arith
  from this [of "x mod 10" "y mod 10" "x div 10" "y div 10"] show ?thesis by simp
qed

lemma eq_by_digits: "(x::nat) = y \<longleftrightarrow> x div 10 = y div 10 \<and> x mod 10 = y mod 10"
  by (metis mult_div_mod_eq)

lemma digit_inj: "a < 10 \<Longrightarrow> b < 10 \<Longrightarrow> digit a = digit b \<longleftrightarrow> a = b"
  using digit_less [of a b] digit_less [of b a] by (metis less_irrefl nat_neq_iff)

text \<open>Zero-padded numbers of equal width compare as numbers, whatever follows them.\<close>

lemma pad_append_less:
  "x < 10 ^ k \<Longrightarrow> y < 10 ^ k \<Longrightarrow> pad k x @ u < pad k y @ v \<longleftrightarrow> x < y \<or> (x = y \<and> u < v)"
proof (induction k arbitrary: x y u v)
  case (Suc k)
  have "x div 10 < 10 ^ k" "y div 10 < 10 ^ k"
    using Suc.prems by auto
  from Suc.IH [OF this, of "digit (x mod 10) # u" "digit (y mod 10) # v"]
  have "pad (Suc k) x @ u < pad (Suc k) y @ v \<longleftrightarrow>
      x div 10 < y div 10 \<or> (x div 10 = y div 10 \<and>
        (x mod 10 < y mod 10 \<or> (x mod 10 = y mod 10 \<and> u < v)))"
    by (simp add: digit_less digit_inj)
  then show ?case
    using less_by_digits [of x y] eq_by_digits [of x y] by blast
qed simp

section \<open>Instants and their text\<close>

type_synonym instant = int

definition us_per_second :: int where
  "us_per_second = 1000000"

definition max_instant :: instant where
  "max_instant = (int max_day + 1) * 86400 * us_per_second"

definition in_calendar :: "instant \<Rightarrow> bool" where
  "in_calendar t = (0 \<le> t \<and> t < max_instant)"

definition second_of :: "instant \<Rightarrow> nat" where
  "second_of t = nat (t div us_per_second)"

definition micro_of :: "instant \<Rightarrow> nat" where
  "micro_of t = nat (t mod us_per_second)"

definition date_text :: "nat \<Rightarrow> string" where
  "date_text n = (case date_of_day n of (y, m, d) \<Rightarrow>
     pad 4 y @ ''-'' @ pad 2 m @ ''-'' @ pad 2 (Suc d))"

definition clock_text :: "nat \<Rightarrow> string" where
  "clock_text s = pad 2 (s div 3600) @ '':'' @ pad 2 (s div 60 mod 60) @ '':'' @ pad 2 (s mod 60)"

definition fraction_text :: "nat \<Rightarrow> string" where
  "fraction_text us = (if us = 0 then [] else ''.'' @ pad 6 us)"

text \<open>
  \<open>iso_base\<close> is the text of the wall clock; \<open>isoformat\<close> adds the offset a UTC datetime has.
\<close>

definition second_text :: "nat \<Rightarrow> string" where
  "second_text s = date_text (s div 86400) @ ''T'' @ clock_text (s mod 86400)"

definition iso_base :: "instant \<Rightarrow> string" where
  "iso_base t = second_text (second_of t) @ fraction_text (micro_of t)"

definition isoformat :: "instant \<Rightarrow> string" where
  "isoformat t = iso_base t @ ''+00:00''"

lemma clock_append_less:
  assumes "s < 86400" "s' < 86400"
  shows "clock_text s @ u < clock_text s' @ v \<longleftrightarrow> s < s' \<or> (s = s' \<and> u < v)"
proof -
  have arith: "a * 3600 + b * 60 + c < a' * 3600 + b' * 60 + c' \<longleftrightarrow>
      a < a' \<or> (a = a' \<and> (b < b' \<or> (b = b' \<and> c < c')))"
    if "b < 60" "b' < 60" "c < 60" "c' < 60" for a a' b b' c c' :: nat
    using that by arith
  have split: "s = s div 3600 * 3600 + s div 60 mod 60 * 60 + s mod 60" for s :: nat
  proof -
    have "s div 3600 = s div 60 div 60" by (simp add: div_mult2_eq [symmetric])
    with div_mult_mod_eq [of s 60] div_mult_mod_eq [of "s div 60" 60] show ?thesis by linarith
  qed
  from assms have "s div 3600 < 10 ^ 2" "s' div 3600 < 10 ^ 2"
    by (simp_all add: less_mult_imp_div_less)
  then have "clock_text s @ u < clock_text s' @ v \<longleftrightarrow>
      s div 3600 < s' div 3600 \<or> (s div 3600 = s' div 3600 \<and>
       (s div 60 mod 60 < s' div 60 mod 60 \<or> (s div 60 mod 60 = s' div 60 mod 60 \<and>
        (s mod 60 < s' mod 60 \<or> (s mod 60 = s' mod 60 \<and> u < v)))))"
    by (simp add: clock_text_def pad_append_less del: pad.simps)
  also have "\<dots> \<longleftrightarrow> s < s' \<or> (s = s' \<and> u < v)"
    using arith [of "s div 60 mod 60" "s' div 60 mod 60" "s mod 60" "s' mod 60" "s div 3600" "s' div 3600"]
      split [of s] split [of s'] by (metis mod_less_divisor zero_less_numeral nat_neq_iff)
  finally show ?thesis .
qed

lemma date_append_less:
  assumes "n \<le> max_day" "n' \<le> max_day"
  shows "date_text n @ u < date_text n' @ v \<longleftrightarrow> n < n' \<or> (n = n' \<and> u < v)"
proof -
  obtain y m d where a: "date_of_day n = (y, m, d)" by (cases "date_of_day n")
  obtain y' m' d' where b: "date_of_day n' = (y', m', d')" by (cases "date_of_day n'")
  have y: "y < 10 ^ 4" "y' < 10 ^ 4"
    using a b year_bound [OF assms(1)] year_bound [OF assms(2)]
    by (auto simp: date_of_day_def Let_def)
  have "date_text n @ u < date_text n' @ v \<longleftrightarrow>
      date_of_day n < date_of_day n' \<or> (date_of_day n = date_of_day n' \<and> u < v)"
    using month_bounds [OF a] month_bounds [OF b] y
    by (auto simp: a b date_text_def pad_append_less simp del: pad.simps)
  then show ?thesis
    by (metis date_of_day_strict_mono linorder_neqE_nat order_less_asym order_less_irrefl)
qed

lemma second_append_less:
  assumes "s div 86400 \<le> max_day" "s' div 86400 \<le> max_day"
  shows "second_text s @ u < second_text s' @ v \<longleftrightarrow> s < s' \<or> (s = s' \<and> u < v)"
proof -
  have "a * 86400 + b < a' * 86400 + b' \<longleftrightarrow> a < a' \<or> (a = a' \<and> b < b')"
    if "b < 86400" "b' < 86400" for a a' b b' :: nat
    using that by arith
  from this [of "s mod 86400" "s' mod 86400" "s div 86400" "s' div 86400"]
  have "s < s' \<longleftrightarrow> s div 86400 < s' div 86400 \<or>
      (s div 86400 = s' div 86400 \<and> s mod 86400 < s' mod 86400)"
    by simp
  moreover have "s = s' \<longleftrightarrow> s div 86400 = s' div 86400 \<and> s mod 86400 = s' mod 86400"
    by (metis mult_div_mod_eq)
  ultimately show ?thesis
    by (auto simp: second_text_def date_append_less [OF assms] clock_append_less)
qed

text \<open>
  Two instants compare as their seconds, then their microseconds; a suffix after the
  microseconds decides only between equal ones.
\<close>

lemma us_per_second_pos [simp]: "0 < us_per_second" "us_per_second \<noteq> 0"
  by (simp_all add: us_per_second_def)

lemma second_of_day: "in_calendar t \<Longrightarrow> second_of t div 86400 \<le> max_day"
proof -
  assume t: "in_calendar t"
  then have "t div us_per_second < (int max_day + 1) * 86400"
    by (simp add: in_calendar_def max_instant_def us_per_second_def) linarith
  then have "second_of t < (max_day + 1) * 86400"
    by (simp add: second_of_def nat_less_iff)
  then show ?thesis by (simp add: less_mult_imp_div_less flip: less_Suc_eq_le)
qed

lemma instant_split:
  assumes "in_calendar t"
  shows "t = int (second_of t) * us_per_second + int (micro_of t)" "micro_of t < 1000000"
  using assms by (auto simp: in_calendar_def second_of_def micro_of_def us_per_second_def
      pos_imp_zdiv_nonneg_iff nat_less_iff)

lemma instant_less:
  assumes "in_calendar s" "in_calendar t"
  shows "s < t \<longleftrightarrow> second_of s < second_of t \<or>
    (second_of s = second_of t \<and> micro_of s < micro_of t)"
proof -
  have "int a * 1000000 + int b < int a' * 1000000 + int b' \<longleftrightarrow> a < a' \<or> (a = a' \<and> b < b')"
    if "b < 1000000" "b' < 1000000" for a a' b b' :: nat
    using that by arith
  from this [OF instant_split(2) [OF assms(1)] instant_split(2) [OF assms(2)]]
  show ?thesis
    by (metis assms instant_split(1) us_per_second_def)
qed

lemma fraction_append_less:
  assumes "a < 1000000" "b < 1000000"
  shows "fraction_text a @ CHR ''+'' # u < fraction_text b @ CHR ''+'' # u \<longleftrightarrow> a < b"
    "fraction_text a @ CHR ''Z'' # v < fraction_text b @ CHR ''+'' # u \<longleftrightarrow> a \<noteq> 0 \<and> a < b"
    "fraction_text a @ ''Z'' < fraction_text b @ ''Z'' \<longleftrightarrow> (a \<noteq> 0 \<and> b = 0) \<or> (a \<noteq> 0 \<and> b \<noteq> 0 \<and> a < b)"
  using assms
  by (auto simp: fraction_text_def pad_append_less less_char_def simp del: pad.simps)

theorem isoformat_less:
  assumes "in_calendar s" "in_calendar t"
  shows "isoformat s < isoformat t \<longleftrightarrow> s < t"
  using assms
  by (simp add: isoformat_def iso_base_def second_append_less second_of_day instant_less
      fraction_append_less instant_split)

corollary isoformat_le:
  assumes "in_calendar s" "in_calendar t"
  shows "isoformat s \<le> isoformat t \<longleftrightarrow> s \<le> t"
  using isoformat_less [OF assms(2,1)] by (simp add: linorder_not_less [symmetric])

text \<open>
  A column written with the suffix Z against a parameter written with +00:00: within one
  second the text of a whole second is greater than every text of the other form.
\<close>

lemma zulu_less_iso:
  assumes "in_calendar s" "in_calendar t"
  shows "iso_base s @ ''Z'' < isoformat t \<longleftrightarrow>
    s < t \<and> (second_of s < second_of t \<or> micro_of s \<noteq> 0)"
  using assms
  by (auto simp: isoformat_def iso_base_def second_append_less second_of_day instant_less
      fraction_append_less instant_split)

lemma zulu_neq_iso: "iso_base s @ ''Z'' \<noteq> isoformat t"
proof
  assume "iso_base s @ ''Z'' = isoformat t"
  then have "last (iso_base s @ ''Z'') = last (isoformat t)" by (rule arg_cong)
  then show False by (simp add: isoformat_def)
qed

lemma zulu_le_iso:
  assumes "in_calendar s" "in_calendar t"
  shows "iso_base s @ ''Z'' \<le> isoformat t \<longleftrightarrow>
    s < t \<and> (second_of s < second_of t \<or> micro_of s \<noteq> 0)"
  using zulu_less_iso [OF assms] zulu_neq_iso [of s t] by (simp add: order_le_less)

section \<open>Datetimes\<close>

text \<open>
  A Python \<open>datetime\<close>: naive (a wall clock, in microseconds) or aware (the UTC instant it
  denotes and its offset in minutes).
\<close>

datatype datetime = Naive int | Aware instant int

text \<open>\<open>value.tzinfo is None or value.utcoffset() is None\<close>\<close>

fun is_naive :: "datetime \<Rightarrow> bool" where
  "is_naive (Naive w) = True"
| "is_naive (Aware u off) = False"

text \<open>\<open>value.astimezone(UTC)\<close> of an aware datetime, as an instant.\<close>

fun utc_instant :: "datetime \<Rightarrow> instant" where
  "utc_instant (Naive w) = w"
| "utc_instant (Aware u off) = u"

definition offset_text :: "int \<Rightarrow> string" where
  "offset_text off = (if off < 0 then ''-'' else ''+'') @
     pad 2 (nat (\<bar>off\<bar> div 60)) @ '':'' @ pad 2 (nat (\<bar>off\<bar> mod 60))"

fun datetime_text :: "datetime \<Rightarrow> string" where
  "datetime_text (Naive w) = iso_base w"
| "datetime_text (Aware u off) = iso_base (u + off * 60 * us_per_second) @ offset_text off"

lemma offset_text_UTC: "offset_text 0 = ''+00:00''"
  by (simp add: offset_text_def numeral_2_eq_2 digit_def) code_simp

lemma datetime_text_UTC [simp]: "datetime_text (Aware t 0) = isoformat t"
  by (simp add: isoformat_def offset_text_UTC)

end
