(* ===== verification/Failures.thy ===== *)
theory Failures
  imports Timestamps
begin

text \<open>
  \<open>core/errors\<close>: the failure contract every service raises, the classification of arbitrary
  exceptions and the HTTP status of a failure.  A raised exception is \<open>Raise c m\<close> (class and
  message) or \<open>Failed f\<close>, a \<open>FailureException\<close> that carries a \<open>FailureInfo\<close>
  (whose severity, always the default in the modelled code, is not kept).
\<close>

section \<open>Categories and failures (codes.py, models.py)\<close>

datatype error_category =
    VALIDATION | NOT_FOUND | ALREADY_EXISTS | NOT_CONFIGURED | DISABLED | UNAVAILABLE | TIMEOUT
  | CANCELLED | CONFLICT | DEPENDENCY_FAILURE | EXECUTION_FAILURE | PERSISTENCE_FAILURE
  | PERMISSION_DENIED | UNAUTHENTICATED | RATE_LIMITED | INTERNAL

fun category_value :: "error_category \<Rightarrow> string" where
  "category_value VALIDATION = ''validation''"
| "category_value NOT_FOUND = ''not_found''"
| "category_value ALREADY_EXISTS = ''already_exists''"
| "category_value NOT_CONFIGURED = ''not_configured''"
| "category_value DISABLED = ''disabled''"
| "category_value UNAVAILABLE = ''unavailable''"
| "category_value TIMEOUT = ''timeout''"
| "category_value CANCELLED = ''cancelled''"
| "category_value CONFLICT = ''conflict''"
| "category_value DEPENDENCY_FAILURE = ''dependency_failure''"
| "category_value EXECUTION_FAILURE = ''execution_failure''"
| "category_value PERSISTENCE_FAILURE = ''persistence_failure''"
| "category_value PERMISSION_DENIED = ''permission_denied''"
| "category_value UNAUTHENTICATED = ''unauthenticated''"
| "category_value RATE_LIMITED = ''rate_limited''"
| "category_value INTERNAL = ''internal''"

datatype runtime_status =
    OK | DEGRADED | STATUS_FAILED | STATUS_DISABLED | STATUS_NOT_CONFIGURED | NOT_INITIALIZED
  | STARTING | STOPPING | STOPPED

record failure_info =
  fi_code :: string
  fi_category :: error_category
  fi_message :: string
  fi_component :: string
  fi_operation :: string
  fi_retryable :: bool
  fi_trace_id :: string
  fi_cause_type :: string
  fi_details :: dict

text \<open>
  The exception classes the modelled code raises or distinguishes.  \<open>OtherError n\<close> is any
  other subclass of \<open>Exception\<close>, by its name.
\<close>

datatype exn_class =
    ValueError | TypeError | KeyError | RuntimeError | TimeoutError | CancelledError
  | PermissionError | FileNotFoundError | FileExistsError | ConnectionError | OSError
  | OverflowError | ValidationError | SqliteError | SqliteIntegrityError
  | WaitingForPersistenceError | WaitingForNotFoundError | WaitingForWorkspaceMismatchError
  | WaitingForConflictError
  | UserTaskNotFoundError | UserTaskConflictError | UserTaskPersistenceError
  | SchedulerError | JobNotFoundError | JobAlreadyExistsError | TriggerError | JobStateError
  | SchedulerPersistenceError | JobClaimLostError
  | TenantNotFoundError | WorkspaceNotFoundError | NamespaceNotFoundError | CrossWorkspaceError
  | WorkspacePermissionError
  | InboxRepositoryError | InboxItemNotFoundError | InboxWorkspaceMismatchError
  | InboxRevisionConflictError | InboxResolutionClaimNotFoundError
  | InboxResolutionClaimConflictError
  | OtherError string

datatype exn = Raise exn_class string | Failed failure_info

fun class_name :: "exn_class \<Rightarrow> string" where
  "class_name ValueError = ''ValueError''"
| "class_name TypeError = ''TypeError''"
| "class_name KeyError = ''KeyError''"
| "class_name RuntimeError = ''RuntimeError''"
| "class_name TimeoutError = ''TimeoutError''"
| "class_name CancelledError = ''CancelledError''"
| "class_name PermissionError = ''PermissionError''"
| "class_name FileNotFoundError = ''FileNotFoundError''"
| "class_name FileExistsError = ''FileExistsError''"
| "class_name ConnectionError = ''ConnectionError''"
| "class_name OSError = ''OSError''"
| "class_name OverflowError = ''OverflowError''"
| "class_name ValidationError = ''ValidationError''"
| "class_name SqliteError = ''OperationalError''"
| "class_name SqliteIntegrityError = ''IntegrityError''"
| "class_name WaitingForPersistenceError = ''WaitingForPersistenceError''"
| "class_name WaitingForNotFoundError = ''WaitingForNotFoundError''"
| "class_name WaitingForWorkspaceMismatchError = ''WaitingForWorkspaceMismatchError''"
| "class_name WaitingForConflictError = ''WaitingForConflictError''"
| "class_name UserTaskNotFoundError = ''UserTaskNotFoundError''"
| "class_name UserTaskConflictError = ''UserTaskConflictError''"
| "class_name UserTaskPersistenceError = ''UserTaskPersistenceError''"
| "class_name SchedulerError = ''SchedulerError''"
| "class_name JobNotFoundError = ''JobNotFoundError''"
| "class_name JobAlreadyExistsError = ''JobAlreadyExistsError''"
| "class_name TriggerError = ''TriggerError''"
| "class_name JobStateError = ''JobStateError''"
| "class_name SchedulerPersistenceError = ''SchedulerPersistenceError''"
| "class_name JobClaimLostError = ''JobClaimLostError''"
| "class_name TenantNotFoundError = ''TenantNotFoundError''"
| "class_name WorkspaceNotFoundError = ''WorkspaceNotFoundError''"
| "class_name NamespaceNotFoundError = ''NamespaceNotFoundError''"
| "class_name CrossWorkspaceError = ''CrossWorkspaceError''"
| "class_name WorkspacePermissionError = ''WorkspacePermissionError''"
| "class_name InboxRepositoryError = ''InboxRepositoryError''"
| "class_name InboxItemNotFoundError = ''InboxItemNotFoundError''"
| "class_name InboxWorkspaceMismatchError = ''InboxWorkspaceMismatchError''"
| "class_name InboxRevisionConflictError = ''InboxRevisionConflictError''"
| "class_name InboxResolutionClaimNotFoundError = ''InboxResolutionClaimNotFoundError''"
| "class_name InboxResolutionClaimConflictError = ''InboxResolutionClaimConflictError''"
| "class_name (OtherError n) = n"

fun exn_name :: "exn \<Rightarrow> string" where
  "exn_name (Raise c m) = class_name c"
| "exn_name (Failed f) = ''FailureException''"

text \<open>\<open>str(exc)\<close>\<close>

fun exn_text :: "exn \<Rightarrow> string" where
  "exn_text (Raise c m) = m"
| "exn_text (Failed f) = fi_message f"

text \<open>\<open>isinstance(exc, ValueError)\<close>: pydantic's ValidationError is a ValueError.\<close>

definition is_value_error :: "exn \<Rightarrow> bool" where
  "is_value_error e = (case e of Raise c m \<Rightarrow> c = ValueError \<or> c = ValidationError | Failed f \<Rightarrow> False)"

definition has_class :: "exn_class list \<Rightarrow> exn \<Rightarrow> bool" where
  "has_class cs e = (case e of Raise c m \<Rightarrow> c \<in> set cs | Failed f \<Rightarrow> False)"

lemma is_value_error_simps [simp]:
  "is_value_error (Raise c m) = (c = ValueError \<or> c = ValidationError)"
  "is_value_error (Failed f) = False"
  by (simp_all add: is_value_error_def)

lemma has_class_simps [simp]:
  "has_class cs (Raise c m) = (c \<in> set cs)" "has_class cs (Failed f) = False"
  by (simp_all add: has_class_def)

text \<open>What the event bus does when a component publishes: it is off, it accepts, or it raises.\<close>

datatype bus_mode = Bus_Off | Bus_Accepts | Bus_Raises exn

section \<open>Classification (mapping.py)\<close>

fun has_substring :: "string \<Rightarrow> string \<Rightarrow> bool" where
  "has_substring w [] = (w = [])"
| "has_substring w (c # s) = (starts_with w (c # s) \<or> has_substring w s)"

text \<open>The tests on the lower-cased class name and message, in the order of the code.\<close>

definition classify_by_text :: "string \<Rightarrow> string \<Rightarrow> error_category \<times> bool" where
  "classify_by_text name message =
    (if has_substring ''notconfigured'' name \<or> has_substring ''not configured'' message
       then (NOT_CONFIGURED, False)
     else if has_substring ''disabled'' name \<or> has_substring '' disabled'' message
       then (DISABLED, False)
     else if has_substring ''unavailable'' name \<or> has_substring ''unavailable'' message
       then (UNAVAILABLE, True)
     else if has_substring ''notfound'' name \<or> has_substring ''not found'' message
       then (NOT_FOUND, False)
     else if has_substring ''alreadyexists'' name \<or> has_substring ''already exists'' message
       then (ALREADY_EXISTS, False)
     else if has_substring ''permission'' name \<or> has_substring ''forbidden'' name
       then (PERMISSION_DENIED, False)
     else if has_substring ''ratelimit'' name \<or> has_substring ''rate limit'' message
       then (RATE_LIMITED, True)
     else if has_substring ''validation'' name \<or> has_substring ''invalid'' message
       then (VALIDATION, False)
     else if has_substring ''state'' name \<or> has_substring ''conflict'' name
       then (CONFLICT, False)
     else if has_substring ''timeout'' name \<or> has_substring ''timed out'' message
       then (TIMEOUT, True)
     else if has_substring ''persistence'' name \<or> has_substring ''database'' name
          \<or> has_substring ''sqlite'' name
       then (PERSISTENCE_FAILURE, True)
     else (INTERNAL, False))"

fun classify :: "exn \<Rightarrow> error_category \<times> bool" where
  "classify (Failed f) = (fi_category f, fi_retryable f)"
| "classify (Raise c m) =
    (if c = TimeoutError then (TIMEOUT, True)
     else if c = CancelledError then (CANCELLED, False)
     else if c = PermissionError then (PERMISSION_DENIED, False)
     else if c = FileNotFoundError then (NOT_FOUND, False)
     else if c = FileExistsError then (ALREADY_EXISTS, False)
     else if c = ValueError \<or> c = ValidationError then (VALIDATION, False)
     else if c = ConnectionError \<or> c = OSError then (UNAVAILABLE, True)
     else classify_by_text (py_lower (class_name c)) (py_lower m))"

text \<open>
  \<open>sanitize_details\<close>; the argument \<open>san\<close> is \<open>sanitize_text\<close>, whose two regular expressions
  are not modelled.
\<close>

definition secret_key :: "string \<Rightarrow> bool" where
  "secret_key k = list_ex (\<lambda>w. has_substring w (py_lower k))
     [''api_key'', ''apikey'', ''authorization'', ''bearer'', ''password'', ''secret'', ''token'']"

fun sanitize_value :: "(string \<Rightarrow> string) \<Rightarrow> json \<Rightarrow> json"
  and sanitize_list :: "(string \<Rightarrow> string) \<Rightarrow> json list \<Rightarrow> json list"
  and sanitize_dict :: "(string \<Rightarrow> string) \<Rightarrow> dict \<Rightarrow> dict" where
  "sanitize_value san (JObj d) = JObj (sanitize_dict san d)"
| "sanitize_value san (JArr xs) = JArr (sanitize_list san xs)"
| "sanitize_value san (JStr s) = JStr (san s)"
| "sanitize_value san (JOpaque s) = JStr (san s)"
| "sanitize_value san v = v"
| "sanitize_list san [] = []"
| "sanitize_list san (x # xs) = sanitize_value san x # sanitize_list san xs"
| "sanitize_dict san [] = []"
| "sanitize_dict san ((k, v) # d) =
     (k, if secret_key k then JStr ''<REDACTED>'' else sanitize_value san v) # sanitize_dict san d"

text \<open>\<open>failure_from_exception\<close> with the keyword arguments its callers pass.\<close>

definition failure_from_exception ::
  "(string \<Rightarrow> string) \<Rightarrow> exn \<Rightarrow> string \<Rightarrow> string \<Rightarrow> string \<Rightarrow> string option \<Rightarrow>
   error_category option \<Rightarrow> bool option \<Rightarrow> dict \<Rightarrow> failure_info" where
  "failure_from_exception san e component operation trace_id code category retryable details =
    (case e of
       Failed f \<Rightarrow>
         if trace_id = [] \<or> fi_trace_id f \<noteq> [] then f else f\<lparr>fi_trace_id := trace_id\<rparr>
     | Raise c m \<Rightarrow>
         (let (inferred, inferred_retry) = classify e;
              final = (case category of None \<Rightarrow> inferred | Some k \<Rightarrow> k);
              retry = (case retryable of None \<Rightarrow> inferred_retry | Some b \<Rightarrow> b);
              message = (if final = INTERNAL then ''Unexpected internal error''
                         else str_or m (class_name c));
              default_code = component @ ''.'' @ operation @ ''.'' @ category_value final
          in \<lparr>fi_code = (case code of None \<Rightarrow> default_code | Some k \<Rightarrow> str_or k default_code),
              fi_category = final, fi_message = san message, fi_component = component,
              fi_operation = operation, fi_retryable = retry, fi_trace_id = trace_id,
              fi_cause_type = class_name c, fi_details = sanitize_dict san details\<rparr>))"

fun http_status_of :: "error_category \<Rightarrow> nat" where
  "http_status_of VALIDATION = 400"
| "http_status_of NOT_FOUND = 404"
| "http_status_of ALREADY_EXISTS = 409"
| "http_status_of CONFLICT = 409"
| "http_status_of PERMISSION_DENIED = 403"
| "http_status_of UNAUTHENTICATED = 401"
| "http_status_of NOT_CONFIGURED = 503"
| "http_status_of DISABLED = 503"
| "http_status_of UNAVAILABLE = 503"
| "http_status_of DEPENDENCY_FAILURE = 503"
| "http_status_of TIMEOUT = 504"
| "http_status_of RATE_LIMITED = 429"
| "http_status_of _ = 500"

definition http_status_for_failure :: "failure_info \<Rightarrow> nat" where
  "http_status_for_failure f = http_status_of (fi_category f)"

text \<open>Converting a failure again, anywhere up the call chain, keeps its classification.\<close>

lemma failure_from_exception_stable:
  "fi_code (failure_from_exception san (Failed f) c op tr code cat ret det) = fi_code f"
  "fi_category (failure_from_exception san (Failed f) c op tr code cat ret det) = fi_category f"
  "fi_retryable (failure_from_exception san (Failed f) c op tr code cat ret det) = fi_retryable f"
  by (simp_all add: failure_from_exception_def)

lemma sanitize_dict_redacts:
  "map_of d k = Some v \<Longrightarrow> secret_key k \<Longrightarrow>
   map_of (sanitize_dict san d) k = Some (JStr ''<REDACTED>'')"
  by (induction d) auto

end
