(* ===== verification/Workspaces.thy ===== *)
theory Workspaces
  imports Failures
begin

text \<open>
  \<open>core/workspace\<close>: the key that says which tenant, workspace and namespace owns a record,
  the registry of workspaces, and the two normalisations of a key the services use
  (\<open>core/waiting_for/models.py\<close> and \<open>core/user_tasks/workspace.py\<close>).
\<close>

record workspace_key =
  tenant_id :: string
  workspace_id :: string
  namespace :: string
  user_id :: string
  session_id :: string
  agent_id :: string
  trace_id :: string

type_synonym identity = "string \<times> string \<times> string"

definition identity_of :: "workspace_key \<Rightarrow> identity" where
  "identity_of k = (tenant_id k, workspace_id k, namespace k)"

text \<open>
  \<open>canonical_workspace\<close> builds a new key: the agent is not passed on and stays empty.
\<close>

definition canonical_workspace :: "workspace_key \<Rightarrow> workspace_key" where
  "canonical_workspace k =
     \<lparr>tenant_id = str_or (tenant_id k) ''default'',
      workspace_id = str_or (workspace_id k) ''default'',
      namespace = str_or (namespace k) ''default'',
      user_id = user_id k, session_id = session_id k, agent_id = [], trace_id = trace_id k\<rparr>"

definition key_identity :: "workspace_key \<Rightarrow> identity" where
  "key_identity k = identity_of (canonical_workspace k)"

text \<open>\<open>normalize_workspace_key\<close> strips first, and keeps the other fields.\<close>

definition normalize_workspace_key :: "workspace_key \<Rightarrow> workspace_key" where
  "normalize_workspace_key k = k
     \<lparr>tenant_id := str_or (py_strip (tenant_id k)) ''default'',
      workspace_id := str_or (py_strip (workspace_id k)) ''default'',
      namespace := str_or (py_strip (namespace k)) ''default''\<rparr>"

definition workspace_identity :: "workspace_key \<Rightarrow> identity" where
  "workspace_identity k = identity_of (normalize_workspace_key k)"

definition default_identity :: identity where
  "default_identity = (''default'', ''default'', ''default'')"

definition canonical_workspace_metadata :: "workspace_key \<Rightarrow> dict" where
  "canonical_workspace_metadata k = (case workspace_identity k of (t, w, n) \<Rightarrow>
     [(''tenant_id'', JStr t), (''workspace_id'', JStr w), (''namespace'', JStr n)])"

text \<open>The text of a metadata value that is a non-blank string.\<close>

fun nonblank_text :: "json option \<Rightarrow> string option" where
  "nonblank_text (Some (JStr s)) = (if py_strip s = [] then None else Some s)"
| "nonblank_text _ = None"

definition plain_key :: "string \<Rightarrow> string \<Rightarrow> string \<Rightarrow> string \<Rightarrow> workspace_key" where
  "plain_key t w n tr =
     \<lparr>tenant_id = t, workspace_id = w, namespace = n, user_id = [], session_id = [],
      agent_id = [], trace_id = tr\<rparr>"

definition workspace_key_from_evidence :: "json option \<Rightarrow> string \<Rightarrow> workspace_key" where
  "workspace_key_from_evidence value tr =
    (case value of
       Some (JObj d) \<Rightarrow>
         (case (nonblank_text (map_of d ''tenant_id''), nonblank_text (map_of d ''workspace_id''),
                nonblank_text (map_of d ''namespace'')) of
            (Some t, Some w, Some n) \<Rightarrow> plain_key t w n tr
          | _ \<Rightarrow> plain_key ''default'' ''default'' ''default'' tr)
     | _ \<Rightarrow> plain_key ''default'' ''default'' ''default'' tr)"

lemma canonical_workspace_idem:
  "agent_id k = [] \<Longrightarrow> canonical_workspace (canonical_workspace k) = canonical_workspace k"
  by (simp add: canonical_workspace_def str_or_def)

lemma identity_canonical_canonical [simp]:
  "identity_of (canonical_workspace (canonical_workspace k)) = identity_of (canonical_workspace k)"
  by (simp add: canonical_workspace_def identity_of_def str_or_def)

lemma normalize_workspace_key_idem [simp]:
  "normalize_workspace_key (normalize_workspace_key k) = normalize_workspace_key k"
proof -
  have "py_strip ''default'' = ''default''" by code_simp
  then show ?thesis by (simp add: normalize_workspace_key_def str_or_def)
qed

lemma workspace_identity_normalize [simp]:
  "workspace_identity (normalize_workspace_key k) = workspace_identity k"
  by (simp add: workspace_identity_def)

section \<open>The registry (registry.py)\<close>

datatype workspace_status = WS_ACTIVE | WS_ARCHIVED | WS_DELETED

record tenant =
  tn_id :: string
  tn_name :: string

record workspace =
  ws_id :: string
  ws_tenant :: string
  ws_name :: string
  ws_namespace :: string
  ws_status :: workspace_status

record namespace_entry =
  ns_id :: string
  ns_workspace :: string
  ns_name :: string

text \<open>Dictionaries in insertion order.\<close>

record registry =
  reg_tenants :: "(string \<times> tenant) list"
  reg_workspaces :: "(string \<times> workspace) list"
  reg_namespaces :: "(string \<times> namespace_entry) list"

definition empty_registry :: registry where
  "empty_registry = \<lparr>reg_tenants = [], reg_workspaces = [], reg_namespaces = []\<rparr>"

definition register_tenant :: "tenant \<Rightarrow> registry \<Rightarrow> registry" where
  "register_tenant t r = r\<lparr>reg_tenants := put (tn_id t) t (reg_tenants r)\<rparr>"

definition get_tenant :: "string \<Rightarrow> registry \<Rightarrow> exn + tenant" where
  "get_tenant i r = (case map_of (reg_tenants r) i of
     None \<Rightarrow> Inl (Raise TenantNotFoundError (''Tenant '' @ [CHR 0x27] @ i @ [CHR 0x27] @ '' not found''))
   | Some t \<Rightarrow> Inr t)"

definition register_workspace :: "workspace \<Rightarrow> registry \<Rightarrow> registry" where
  "register_workspace w r = r\<lparr>reg_workspaces := put (ws_id w) w (reg_workspaces r)\<rparr>"

definition get_workspace :: "string \<Rightarrow> registry \<Rightarrow> exn + workspace" where
  "get_workspace i r = (case map_of (reg_workspaces r) i of
     None \<Rightarrow> Inl (Raise WorkspaceNotFoundError (''Workspace '' @ [CHR 0x27] @ i @ [CHR 0x27] @ '' not found''))
   | Some w \<Rightarrow> Inr w)"

definition list_workspaces :: "string \<Rightarrow> registry \<Rightarrow> workspace list" where
  "list_workspaces t r =
     (if t \<noteq> [] then filter (\<lambda>w. ws_tenant w = t) (map snd (reg_workspaces r))
      else map snd (reg_workspaces r))"

text \<open>The registered object is mutated in place.\<close>

definition archive_workspace :: "string \<Rightarrow> registry \<Rightarrow> (exn + unit) \<times> registry" where
  "archive_workspace i r = (case get_workspace i r of
     Inl e \<Rightarrow> (Inl e, r)
   | Inr w \<Rightarrow> (Inr (), r\<lparr>reg_workspaces := put i (w\<lparr>ws_status := WS_ARCHIVED\<rparr>) (reg_workspaces r)\<rparr>))"

definition register_namespace :: "namespace_entry \<Rightarrow> registry \<Rightarrow> registry" where
  "register_namespace n r =
     r\<lparr>reg_namespaces := put (ns_workspace n @ '':'' @ ns_name n) n (reg_namespaces r)\<rparr>"

definition get_namespace :: "string \<Rightarrow> string \<Rightarrow> registry \<Rightarrow> exn + namespace_entry" where
  "get_namespace w nm r = (case map_of (reg_namespaces r) (w @ '':'' @ nm) of
     None \<Rightarrow> Inl (Raise NamespaceNotFoundError (''Namespace '' @ [CHR 0x27] @ nm @ [CHR 0x27] @
              '' not found in workspace '' @ [CHR 0x27] @ w @ [CHR 0x27]))
   | Some n \<Rightarrow> Inr n)"

definition validate_key :: "workspace_key \<Rightarrow> registry \<Rightarrow> exn + unit" where
  "validate_key k r =
     bindR (if tenant_id k = [] then Inr () else bindR (get_tenant (tenant_id k) r) (\<lambda>_. Inr ()))
       (\<lambda>_. if workspace_id k = [] then Inr ()
             else bindR (get_workspace (workspace_id k) r) (\<lambda>_. Inr ()))"

definition ensure_same_workspace :: "workspace_key \<Rightarrow> workspace_key \<Rightarrow> exn + unit" where
  "ensure_same_workspace a b =
     (if workspace_id a \<noteq> workspace_id b
      then Inl (Raise CrossWorkspaceError (''Cross-workspace access denied: '' @ [CHR 0x27] @
             workspace_id a @ [CHR 0x27] @ '' -> '' @ [CHR 0x27] @ workspace_id b @ [CHR 0x27]))
      else Inr ())"

datatype permission = READ | WRITE | EXECUTE | ADMIN | NONE_PERMISSION

definition has_permission :: "permission list \<Rightarrow> permission \<Rightarrow> bool" where
  "has_permission ps p = (p \<in> set ps \<or> ADMIN \<in> set ps)"

lemma validate_key_iff:
  "validate_key k r = Inr () \<longleftrightarrow>
     (tenant_id k \<noteq> [] \<longrightarrow> tenant_id k \<in> dom (map_of (reg_tenants r))) \<and>
     (workspace_id k \<noteq> [] \<longrightarrow> workspace_id k \<in> dom (map_of (reg_workspaces r)))"
  by (auto simp: validate_key_def get_tenant_def get_workspace_def split: option.splits)

end
