(* ===== verification/Domain_Base.thy ===== *)
theory Domain_Base
  imports Failures
begin

text \<open>
  What the domain models and their tables share: the test for sensitive metadata keys, the checks
  of text lengths and of time zones on datetimes, and the comparisons of timestamp columns.  A
  timestamp column is TEXT; \<open>enc\<close> is the text pydantic's \<open>model_dump(mode="json")\<close> gives an
  instant, and SQLite compares texts.
\<close>

section \<open>Metadata\<close>

definition sensitive_keys :: "string list" where
  "sensitive_keys =
     [''api_key'', ''apikey'', ''token'', ''secret'', ''password'', ''authorization'']"

definition normal_key :: "string \<Rightarrow> string" where
  "normal_key k = replace_char CHR ''-'' CHR ''_'' (py_lower (py_strip k))"

fun contains_sensitive_key :: "json \<Rightarrow> bool"
  and sensitive_list :: "json list \<Rightarrow> bool"
  and sensitive_dict :: "dict \<Rightarrow> bool" where
  "contains_sensitive_key (JObj d) = sensitive_dict d"
| "contains_sensitive_key (JArr xs) = sensitive_list xs"
| "contains_sensitive_key _ = False"
| "sensitive_list [] = False"
| "sensitive_list (x # xs) = (contains_sensitive_key x \<or> sensitive_list xs)"
| "sensitive_dict [] = False"
| "sensitive_dict ((k, v) # d) =
     (normal_key k \<in> set sensitive_keys \<or> contains_sensitive_key v \<or> sensitive_dict d)"

section \<open>Checks of fields\<close>

text \<open>\<open>Field(min_length=lo, max_length=hi)\<close> is checked on the text as given, before a strip.\<close>

definition len_between :: "nat \<Rightarrow> nat \<Rightarrow> string \<Rightarrow> bool" where
  "len_between lo hi s = (lo \<le> py_len s \<and> py_len s \<le> hi)"

definition opt_len :: "nat \<Rightarrow> string option \<Rightarrow> bool" where
  "opt_len hi v = (case v of None \<Rightarrow> True | Some s \<Rightarrow> py_len s \<le> hi)"

definition opt_aware :: "datetime option \<Rightarrow> bool" where
  "opt_aware v = (case v of None \<Rightarrow> True | Some d \<Rightarrow> \<not> is_naive d)"

lemma py_len_strip: "py_len (py_strip s) \<le> py_len s"
proof -
  obtain k where k: "py_lstrip s = drop k s"
    using chop_suffix by (auto simp: py_lstrip_def)
  obtain j where j: "py_rstrip (py_lstrip s) = take j (py_lstrip s)"
    using py_rstrip_take by blast
  have "py_len (py_strip s) \<le> py_len (py_lstrip s)"
    by (simp add: py_strip_def j py_len_take)
  also have "\<dots> \<le> py_len s"
    by (simp add: k py_len_drop)
  finally show ?thesis .
qed

lemma map_utc_Aware [simp]: "map_option (utc_instant \<circ> (\<lambda>t. Aware t 0)) v = v"
  by (cases v) auto

lemma opt_aware_Aware [simp]: "opt_aware (map_option (\<lambda>t. Aware t 0) v)"
  by (cases v) (auto simp: opt_aware_def)

lemma len_between_strip:
  "len_between lo hi s \<Longrightarrow> lo \<le> 1 \<Longrightarrow> py_strip s \<noteq> [] \<Longrightarrow> len_between lo hi (py_strip s)"
  using py_len_strip [of s]
  by (cases "py_strip s") (auto simp: len_between_def)

section \<open>Pages\<close>

text \<open>A page of a list; the further fields of the page models repeat arguments of the call.\<close>

record 'i page =
  pg_items :: "'i list"
  pg_limit :: nat
  pg_offset :: nat
  pg_has_more :: bool

section \<open>Timestamp columns\<close>

text \<open>The parameter of a comparison is passed as its \<open>isoformat()\<close>; NULL satisfies none.\<close>

definition col_le :: "(instant \<Rightarrow> string) \<Rightarrow> instant option \<Rightarrow> instant \<Rightarrow> bool" where
  "col_le enc c now = (case c of None \<Rightarrow> False | Some t \<Rightarrow> enc t \<le> isoformat now)"

definition col_less :: "(instant \<Rightarrow> string) \<Rightarrow> instant option \<Rightarrow> instant \<Rightarrow> bool" where
  "col_less enc c now = (case c of None \<Rightarrow> False | Some t \<Rightarrow> enc t < isoformat now)"

definition col_ge :: "(instant \<Rightarrow> string) \<Rightarrow> instant option \<Rightarrow> instant \<Rightarrow> bool" where
  "col_ge enc c now = (case c of None \<Rightarrow> False | Some t \<Rightarrow> enc t \<ge> isoformat now)"

text \<open>A clause that is added only when its filter is given.\<close>

definition opt_clause :: "('v \<Rightarrow> bool) \<Rightarrow> 'v option \<Rightarrow> bool" where
  "opt_clause p v = (case v of None \<Rightarrow> True | Some x \<Rightarrow> p x)"

text \<open>An \<open>int\<close> that \<open>sqlite3\<close> can bind to a statement.\<close>

definition sql_int :: "int \<Rightarrow> bool" where
  "sql_int n = (- (2 ^ 63) \<le> n \<and> n < 2 ^ 63)"

definition sql_overflow :: exn where
  "sql_overflow = Raise OverflowError ''Python int too large to convert to SQLite INTEGER''"

text \<open>\<open>CASE WHEN c IS NULL THEN 1 ELSE 0 END, c\<close>\<close>

definition nulls_last :: "(instant \<Rightarrow> string) \<Rightarrow> instant option \<Rightarrow> bool \<times> string" where
  "nulls_last enc c = (case c of None \<Rightarrow> (True, []) | Some t \<Rightarrow> (False, enc t))"

text \<open>\<open>json_type(...) = 'text' AND length(trim(...)) > 0\<close>: SQLite's \<open>trim\<close> removes spaces only.\<close>

fun complete_text :: "json option \<Rightarrow> string option" where
  "complete_text (Some (JStr s)) = (if list_all (\<lambda>c. c = CHR 0x20) s then None else Some s)"
| "complete_text _ = None"

text \<open>
  pydantic writes an instant in UTC with the suffix Z, with six digits of a fraction that is not
  zero, as \<open>isoformat\<close> does before its +00:00.
\<close>

definition zulu_text :: "instant \<Rightarrow> string" where
  "zulu_text t = iso_base t @ ''Z''"

definition zulu_encoding :: "(instant \<Rightarrow> string) \<Rightarrow> bool" where
  "zulu_encoding enc = (\<forall>t. in_calendar t \<longrightarrow> enc t = zulu_text t)"

text \<open>Texts of the two forms compare as instants, except that a whole second is too late.\<close>

definition text_before :: "instant \<Rightarrow> instant \<Rightarrow> bool" where
  "text_before s t = (s < t \<and> (second_of s < second_of t \<or> micro_of s \<noteq> 0))"

lemma col_tests:
  assumes "zulu_encoding enc" "in_calendar t" "in_calendar now"
  shows "col_le enc (Some t) now = text_before t now" and "col_less enc (Some t) now = text_before t now"
    and "col_ge enc (Some t) now = (\<not> text_before t now)"
proof -
  have "enc t = zulu_text t" using assms by (simp add: zulu_encoding_def)
  then show "col_le enc (Some t) now = text_before t now" and "col_less enc (Some t) now = text_before t now"
    and "col_ge enc (Some t) now = (\<not> text_before t now)"
    using zulu_le_iso [OF assms(2,3)] zulu_less_iso [OF assms(2,3)]
    by (simp_all add: col_le_def col_less_def col_ge_def zulu_text_def text_before_def flip: linorder_not_less)
qed

lemma text_before_less: "text_before s t \<Longrightarrow> s < t"
  by (simp add: text_before_def)

lemma text_before_next_second:
  assumes "in_calendar s" "in_calendar t" "s + us_per_second \<le> t"
  shows "text_before s t"
proof -
  have "s div us_per_second + 1 = (s + us_per_second) div us_per_second"
    using div_add_self2 [of us_per_second s] by simp
  also have "\<dots> \<le> t div us_per_second"
    by (rule zdiv_mono1 [OF assms(3)]) simp
  finally have "s div us_per_second < t div us_per_second" by simp
  moreover have "0 \<le> s div us_per_second"
    using assms(1) by (simp add: in_calendar_def pos_imp_zdiv_nonneg_iff)
  ultimately have "second_of s < second_of t" by (simp add: second_of_def nat_less_eq_zless)
  with assms(3) show ?thesis by (simp add: text_before_def us_per_second_def)
qed

end
