(* ===== verification/WaitingFor_Model.thy ===== *)
theory WaitingFor_Model
  imports Workspaces Domain_Base
begin

text \<open>
  \<open>core/waiting_for/models.py\<close>: the snapshot of one external dependency, its history entries
  and the validation both pass.  \<open>zone_ok\<close> stands for the lookup of an IANA time zone name in
  the host's database (\<open>ZoneInfo\<close>), which is an argument of the definitions that need it.
\<close>

section \<open>Metadata\<close>

definition validate_metadata :: "dict \<Rightarrow> exn + dict" where
  "validate_metadata d =
     (if sensitive_dict d
        then Inl (Raise ValueError ''waiting-for metadata contains a sensitive key'')
      else if \<not> dumpable_dict d
        then Inl (Raise ValueError ''waiting-for metadata must be JSON serializable'')
      else Inr d)"

section \<open>States and events\<close>

datatype wf_status = WF_OPEN | WF_RESOLVED | WF_CANCELLED

datatype wf_event_type = CREATED | FOLLOWED_UP | SNOOZED | RESOLVED | CANCELLED_EVENT | REOPENED

datatype wf_view = V_OPEN | V_ATTENTION | V_DUE | V_OVERDUE | V_RESOLVED | V_CANCELLED | V_ALL

fun wf_status_value :: "wf_status \<Rightarrow> string" where
  "wf_status_value WF_OPEN = ''open''"
| "wf_status_value WF_RESOLVED = ''resolved''"
| "wf_status_value WF_CANCELLED = ''cancelled''"

fun wf_event_value :: "wf_event_type \<Rightarrow> string" where
  "wf_event_value CREATED = ''created''"
| "wf_event_value FOLLOWED_UP = ''followed_up''"
| "wf_event_value SNOOZED = ''snoozed''"
| "wf_event_value RESOLVED = ''resolved''"
| "wf_event_value CANCELLED_EVENT = ''cancelled''"
| "wf_event_value REOPENED = ''reopened''"

text \<open>\<open>WaitingForView(view)\<close> on a string.\<close>

definition parse_view :: "string \<Rightarrow> wf_view option" where
  "parse_view s = map_of
     [(''open'', V_OPEN), (''attention'', V_ATTENTION), (''due'', V_DUE), (''overdue'', V_OVERDUE),
      (''resolved'', V_RESOLVED), (''cancelled'', V_CANCELLED), (''all'', V_ALL)] s"

record waiting_for =
  wf_id :: string
  wf_key :: workspace_key
  wf_subject :: string
  wf_waiting_on :: string
  wf_context :: string
  wf_status :: wf_status
  wf_expected_by :: "instant option"
  wf_next_review_at :: "instant option"
  wf_timezone :: string
  wf_linked_task :: "string option"
  wf_linked_reminder :: "string option"
  wf_source :: string
  wf_created_at :: instant
  wf_updated_at :: instant
  wf_resolved_at :: "instant option"
  wf_cancelled_at :: "instant option"
  wf_resolution_note :: string
  wf_metadata :: dict
  wf_revision :: int

record wf_event =
  wfe_id :: string
  wfe_item :: string
  wfe_key :: workspace_key
  wfe_sequence :: int
  wfe_type :: wf_event_type
  wfe_occurred_at :: instant
  wfe_note :: string
  wfe_source :: string
  wfe_trace_id :: string
  wfe_metadata :: dict

text \<open>The keyword arguments of the constructors, before validation.\<close>

record wf_values =
  wv_id :: string
  wv_key :: workspace_key
  wv_subject :: string
  wv_waiting_on :: string
  wv_context :: string
  wv_status :: wf_status
  wv_expected_by :: "datetime option"
  wv_next_review_at :: "datetime option"
  wv_timezone :: string
  wv_linked_task :: "string option"
  wv_linked_reminder :: "string option"
  wv_source :: string
  wv_created_at :: datetime
  wv_updated_at :: datetime
  wv_resolved_at :: "datetime option"
  wv_cancelled_at :: "datetime option"
  wv_resolution_note :: string
  wv_metadata :: dict
  wv_revision :: int

section \<open>Validation\<close>

definition aware_utc :: "datetime \<Rightarrow> exn + instant" where
  "aware_utc d = (if is_naive d then Inl (Raise ValueError ''datetime must be timezone-aware'')
                  else Inr (utc_instant d))"

definition fields_ok :: "(string \<Rightarrow> bool) \<Rightarrow> wf_values \<Rightarrow> bool" where
  "fields_ok zone_ok v =
    (len_between 4 80 (wv_id v) \<and> starts_with ''wf_'' (wv_id v) \<and>
     len_between 1 500 (wv_subject v) \<and> py_strip (wv_subject v) \<noteq> [] \<and>
     len_between 1 200 (wv_waiting_on v) \<and> py_strip (wv_waiting_on v) \<noteq> [] \<and>
     py_len (wv_context v) \<le> 4000 \<and>
     zone_ok (wv_timezone v) \<and>
     opt_len 160 (wv_linked_task v) \<and> opt_len 160 (wv_linked_reminder v) \<and>
     len_between 1 64 (wv_source v) \<and> py_strip (wv_source v) \<noteq> [] \<and>
     opt_aware (wv_expected_by v) \<and> opt_aware (wv_next_review_at v) \<and>
     \<not> is_naive (wv_created_at v) \<and> \<not> is_naive (wv_updated_at v) \<and>
     opt_aware (wv_resolved_at v) \<and> opt_aware (wv_cancelled_at v) \<and>
     py_len (wv_resolution_note v) \<le> 4000 \<and>
     succeeds (validate_metadata (wv_metadata v)) \<and>
     1 \<le> wv_revision v)"

definition normalised :: "wf_values \<Rightarrow> waiting_for" where
  "normalised v =
    \<lparr>wf_id = wv_id v, wf_key = wv_key v,
     wf_subject = py_strip (wv_subject v), wf_waiting_on = py_strip (wv_waiting_on v),
     wf_context = py_strip (wv_context v), wf_status = wv_status v,
     wf_expected_by = map_option utc_instant (wv_expected_by v),
     wf_next_review_at = map_option utc_instant (wv_next_review_at v),
     wf_timezone = wv_timezone v,
     wf_linked_task = wv_linked_task v, wf_linked_reminder = wv_linked_reminder v,
     wf_source = py_strip (wv_source v),
     wf_created_at = utc_instant (wv_created_at v), wf_updated_at = utc_instant (wv_updated_at v),
     wf_resolved_at = map_option utc_instant (wv_resolved_at v),
     wf_cancelled_at = map_option utc_instant (wv_cancelled_at v),
     wf_resolution_note = py_strip (wv_resolution_note v),
     wf_metadata = wv_metadata v, wf_revision = wv_revision v\<rparr>"

text \<open>\<open>_validate_state\<close>, the validator that sees the whole model.\<close>

definition state_ok :: "waiting_for \<Rightarrow> bool" where
  "state_ok w =
    (\<not> wf_updated_at w < wf_created_at w \<and>
     \<not> (wf_resolved_at w \<noteq> None \<and> wf_cancelled_at w \<noteq> None) \<and>
     (case wf_status w of
        WF_OPEN \<Rightarrow>
          \<not> (wf_resolved_at w \<noteq> None \<or> wf_cancelled_at w \<noteq> None) \<and> wf_resolution_note w = []
      | WF_RESOLVED \<Rightarrow> \<not> (wf_resolved_at w = None \<or> wf_cancelled_at w \<noteq> None)
      | WF_CANCELLED \<Rightarrow>
          \<not> (wf_cancelled_at w = None \<or> wf_resolved_at w \<noteq> None) \<and> wf_resolution_note w = []))"

text \<open>\<open>WaitingFor(**values)\<close>: pydantic gathers every violation into one \<open>ValidationError\<close>.\<close>

definition validate_waiting_for :: "(string \<Rightarrow> bool) \<Rightarrow> wf_values \<Rightarrow> exn + waiting_for" where
  "validate_waiting_for zone_ok v =
     (if fields_ok zone_ok v \<and> state_ok (normalised v) then Inr (normalised v)
      else Inl (Raise ValidationError ''WaitingFor''))"

text \<open>\<open>model_dump()\<close>\<close>

definition dump_waiting_for :: "waiting_for \<Rightarrow> wf_values" where
  "dump_waiting_for w =
    \<lparr>wv_id = wf_id w, wv_key = wf_key w, wv_subject = wf_subject w,
     wv_waiting_on = wf_waiting_on w, wv_context = wf_context w, wv_status = wf_status w,
     wv_expected_by = map_option (\<lambda>t. Aware t 0) (wf_expected_by w),
     wv_next_review_at = map_option (\<lambda>t. Aware t 0) (wf_next_review_at w),
     wv_timezone = wf_timezone w, wv_linked_task = wf_linked_task w,
     wv_linked_reminder = wf_linked_reminder w, wv_source = wf_source w,
     wv_created_at = Aware (wf_created_at w) 0, wv_updated_at = Aware (wf_updated_at w) 0,
     wv_resolved_at = map_option (\<lambda>t. Aware t 0) (wf_resolved_at w),
     wv_cancelled_at = map_option (\<lambda>t. Aware t 0) (wf_cancelled_at w),
     wv_resolution_note = wf_resolution_note w, wv_metadata = wf_metadata w,
     wv_revision = wf_revision w\<rparr>"

text \<open>\<open>WaitingForEvent(...)\<close>: the checks of the fields and the strips.\<close>

definition validate_event :: "wf_event \<Rightarrow> exn + wf_event" where
  "validate_event e =
    (if len_between 5 80 (wfe_id e) \<and> starts_with ''wfe_'' (wfe_id e) \<and>
        len_between 4 80 (wfe_item e) \<and> starts_with ''wf_'' (wfe_item e) \<and>
        1 \<le> wfe_sequence e \<and> py_len (wfe_note e) \<le> 4000 \<and>
        len_between 1 64 (wfe_source e) \<and> py_strip (wfe_source e) \<noteq> [] \<and>
        py_len (wfe_trace_id e) \<le> 160 \<and> succeeds (validate_metadata (wfe_metadata e))
     then Inr (e\<lparr>wfe_note := py_strip (wfe_note e), wfe_source := py_strip (wfe_source e)\<rparr>)
     else Inl (Raise ValidationError ''WaitingForEvent''))"

section \<open>Follow-up tests\<close>

definition review_due :: "waiting_for \<Rightarrow> datetime \<Rightarrow> exn + bool" where
  "review_due w d = bindR (aware_utc d) (\<lambda>now.
     Inr (wf_status w = WF_OPEN \<and>
          (case wf_next_review_at w of None \<Rightarrow> False | Some t \<Rightarrow> t \<le> now)))"

definition expected_overdue :: "waiting_for \<Rightarrow> datetime \<Rightarrow> exn + bool" where
  "expected_overdue w d = bindR (aware_utc d) (\<lambda>now.
     Inr (wf_status w = WF_OPEN \<and>
          (case wf_expected_by w of None \<Rightarrow> False | Some t \<Rightarrow> t < now)))"

definition attention_due :: "waiting_for \<Rightarrow> datetime \<Rightarrow> exn + bool" where
  "attention_due w d =
     bindR (review_due w d) (\<lambda>b. if b then Inr True else expected_overdue w d)"

section \<open>Validity is kept by a dump and a reload\<close>

text \<open>\<open>valid_waiting_for\<close> is the type invariant: what every constructed model satisfies.\<close>

definition valid_waiting_for :: "(string \<Rightarrow> bool) \<Rightarrow> waiting_for \<Rightarrow> bool" where
  "valid_waiting_for zone_ok w = (validate_waiting_for zone_ok (dump_waiting_for w) = Inr w)"

lemma validate_waiting_for_Inr:
  "validate_waiting_for zone_ok v = Inr w \<longleftrightarrow>
     fields_ok zone_ok v \<and> w = normalised v \<and> state_ok w"
  by (auto simp: validate_waiting_for_def)

lemma normalised_dump:
  "normalised (dump_waiting_for w) = w
     \<lparr>wf_subject := py_strip (wf_subject w), wf_waiting_on := py_strip (wf_waiting_on w),
      wf_context := py_strip (wf_context w), wf_source := py_strip (wf_source w),
      wf_resolution_note := py_strip (wf_resolution_note w)\<rparr>"
  by (simp add: normalised_def dump_waiting_for_def option.map_comp)

text \<open>Whatever the constructor accepts is a fixed point of dumping and validating again.\<close>

theorem validated_is_valid:
  assumes "validate_waiting_for zone_ok v = Inr w"
  shows "valid_waiting_for zone_ok w"
proof -
  have ok: "fields_ok zone_ok v" and w: "w = normalised v" and st: "state_ok w"
    using assms by (auto simp: validate_waiting_for_Inr)
  have "normalised (dump_waiting_for w) = w"
    by (simp add: normalised_dump w) (simp add: normalised_def)
  moreover have "fields_ok zone_ok (dump_waiting_for w)"
    using ok py_len_strip [of "wv_context v"] py_len_strip [of "wv_resolution_note v"]
    by (auto simp: fields_ok_def w normalised_def dump_waiting_for_def len_between_strip
        option.map_comp comp_def opt_aware_def split: option.splits)
  ultimately show ?thesis
    using st by (simp add: valid_waiting_for_def validate_waiting_for_Inr)
qed

lemma valid_state: "valid_waiting_for zone_ok w \<Longrightarrow> state_ok w \<and> 1 \<le> wf_revision w"
  by (auto simp: valid_waiting_for_def validate_waiting_for_Inr fields_ok_def dump_waiting_for_def)

lemma state_ok_rekey [simp]: "state_ok (w\<lparr>wf_key := k\<rparr>) = state_ok w"
  by (simp add: state_ok_def split: wf_status.split)

lemma fields_ok_rekey [simp]:
  "fields_ok zone_ok (dump_waiting_for (w\<lparr>wf_key := k\<rparr>)) = fields_ok zone_ok (dump_waiting_for w)"
  by (simp add: fields_ok_def dump_waiting_for_def)

lemma valid_iff:
  "valid_waiting_for zone_ok w \<longleftrightarrow>
     fields_ok zone_ok (dump_waiting_for w) \<and> normalised (dump_waiting_for w) = w \<and> state_ok w"
  by (auto simp: valid_waiting_for_def validate_waiting_for_Inr)

lemma valid_rekey:
  assumes "valid_waiting_for zone_ok w"
  shows "valid_waiting_for zone_ok (w\<lparr>wf_key := k\<rparr>)"
proof -
  have "normalised (dump_waiting_for (w\<lparr>wf_key := k\<rparr>)) =
      (normalised (dump_waiting_for w))\<lparr>wf_key := k\<rparr>"
    by (simp add: normalised_def dump_waiting_for_def)
  with assms show ?thesis by (simp add: valid_iff)
qed

end
