(* ===== verification/Store_Contracts.thy ===== *)
theory Store_Contracts
  imports Prelude
begin

text \<open>
  The interface that every repository of the system offers its service: records under an
  identifier, each with a revision that a writer must name.  The laws say what a successful
  write does; the lemmas are what a client may rely on, proved once for all repositories.
\<close>

section \<open>Optimistic concurrency\<close>

text \<open>
  \<open>peek s k\<close> is the record stored under \<open>k\<close>, \<open>attempt r x s\<close> the attempt to store \<open>x\<close> over
  revision \<open>r\<close>, which leaves the record \<open>stored r x\<close>; \<open>inv\<close> the representation invariant of the store.
\<close>

locale versioned_store =
  fixes peek :: "'s \<Rightarrow> 'k \<Rightarrow> 'i option"
    and ident :: "'w \<Rightarrow> 'k"
    and stored :: "int \<Rightarrow> 'w \<Rightarrow> 'i"
    and revision :: "'i \<Rightarrow> int"
    and attempt :: "int \<Rightarrow> 'w \<Rightarrow> 's \<Rightarrow> ('e + 'r) \<times> 's"
    and inv :: "'s \<Rightarrow> bool"
  assumes write_checks:
      "inv s \<Longrightarrow> attempt r x s = (Inr y, s') \<Longrightarrow> \<exists>i. peek s (ident x) = Some i \<and> revision i = r"
    and write_stores:
      "inv s \<Longrightarrow> attempt r x s = (Inr y, s') \<Longrightarrow> peek s' (ident x) = Some (stored r x)"
    and write_bumps:
      "inv s \<Longrightarrow> attempt r x s = (Inr y, s') \<Longrightarrow> revision (stored r x) = r + 1"
    and write_frame:
      "inv s \<Longrightarrow> attempt r x s = (res, s') \<Longrightarrow> k \<noteq> ident x \<Longrightarrow> peek s' k = peek s k"
    and write_fails:
      "inv s \<Longrightarrow> attempt r x s = (Inl e, s') \<Longrightarrow> peek s' k = peek s k"
    and write_inv: "inv s \<Longrightarrow> attempt r x s = (res, s') \<Longrightarrow> inv s'"
begin

text \<open>A writer that saw another revision is refused, and the store shows no change.\<close>

lemma stale_write_fails:
  assumes "inv s" and "peek s (ident x) = Some i" and "revision i \<noteq> r"
  shows "\<exists>e s'. attempt r x s = (Inl e, s') \<and> peek s' = peek s"
proof (cases "attempt r x s")
  case (Pair res s')
  show ?thesis
  proof (cases res)
    case (Inl e)
    with Pair write_fails [OF assms(1)] show ?thesis by (auto simp: fun_eq_iff)
  next
    case (Inr y)
    with Pair write_checks [OF assms(1), of r x y s'] assms(2,3) show ?thesis by auto
  qed
qed

text \<open>No lost update: of two writers that read the same revision, the second one is refused.\<close>

lemma no_lost_update:
  assumes "inv s" and "attempt r x s = (Inr y, s')" and "ident x' = ident x"
  shows "\<exists>e t. attempt r x' s' = (Inl e, t) \<and> peek t = peek s'"
proof (rule stale_write_fails)
  show "inv s'" using write_inv [OF assms(1,2)] .
  show "peek s' (ident x') = Some (stored r x)"
    using write_stores [OF assms(1,2)] assms(3) by simp
  show "revision (stored r x) \<noteq> r" using write_bumps [OF assms(1,2)] by simp
qed

text \<open>Whatever writers run in whatever order, a record's revision never falls.\<close>

fun run_writes :: "(int \<times> 'w) list \<Rightarrow> 's \<Rightarrow> 's" where
  "run_writes [] s = s"
| "run_writes ((r, x) # ws) s = run_writes ws (snd (attempt r x s))"

lemma write_revision:
  assumes "inv s" and "attempt r x s = (res, s')" and "peek s k = Some i"
  shows "\<exists>j. peek s' k = Some j \<and> revision i \<le> revision j"
proof (cases res)
  case (Inl e)
  with assms write_fails [OF assms(1), of r x e s' k] show ?thesis by simp
next
  case (Inr y)
  show ?thesis
  proof (cases "k = ident x")
    case True
    with assms Inr write_checks [of s r x y s'] write_stores [of s r x y s'] write_bumps [of s r x y s']
    show ?thesis by auto
  next
    case False
    with write_frame [OF assms(1,2)] assms(3) show ?thesis by simp
  qed
qed

lemma run_writes_revision:
  "inv s \<Longrightarrow> peek s k = Some i \<Longrightarrow>
   \<exists>j. peek (run_writes ws s) k = Some j \<and> revision i \<le> revision j"
proof (induction ws arbitrary: s i)
  case (Cons w ws)
  obtain r x where w: "w = (r, x)" by (cases w)
  obtain res s' where step: "attempt r x s = (res, s')" by (cases "attempt r x s")
  obtain i' where "peek s' k = Some i'" and le: "revision i \<le> revision i'"
    using write_revision [OF Cons.prems(1) step Cons.prems(2)] by blast
  from Cons.IH [OF write_inv [OF Cons.prems(1) step] this(1)] le show ?case
    by (force simp: w step)
qed simp

end

section \<open>Step systems\<close>

text \<open>
  A component whose operations are run in any order: what one operation keeps, every run keeps.
\<close>

locale step_system =
  fixes step :: "'o \<Rightarrow> 's \<Rightarrow> 's"
    and good :: "'s \<Rightarrow> bool"
  assumes step_good: "good s \<Longrightarrow> good (step a s)"
begin

lemma run_good: "good s \<Longrightarrow> good (fold step ops s)"
  by (induction ops arbitrary: s) (auto intro: step_good)

lemma run_keeps:
  assumes "\<And>s a. good s \<Longrightarrow> f (step a s) = f s" and "good s"
  shows "f (fold step ops s) = f s"
  using assms(2)
proof (induction ops arbitrary: s)
  case (Cons a ops)
  from Cons.IH [OF step_good [OF Cons.prems]] assms(1) [OF Cons.prems] show ?case by simp
qed simp

end

end
