(* ===== verification/WaitingFor_Store.thy ===== *)
theory WaitingFor_Store
  imports WaitingFor_Model Store_Contracts
begin

text \<open>
  \<open>core/waiting_for/repository.py\<close>: the two SQLite tables, and the statements the repository
  runs over them.  A row is what the table keeps of a model: the workspace key is reduced to its
  identity.  Timestamp columns are TEXT; \<open>enc\<close> is the text pydantic's \<open>model_dump(mode="json")\<close>
  gives an instant, and the comparisons of the queries compare these texts.  The metadata column
  is kept as the value of its JSON text.  \<open>io\<close> says whether SQLite fails (disk, lock, missing
  table): \<open>Some e\<close> is the exception, and the transaction is rolled back.
\<close>

section \<open>Rows\<close>

record wf_row =
  wr_id :: string
  wr_identity :: identity
  wr_subject :: string
  wr_waiting_on :: string
  wr_context :: string
  wr_status :: wf_status
  wr_expected_by :: "instant option"
  wr_next_review_at :: "instant option"
  wr_timezone :: string
  wr_linked_task :: "string option"
  wr_linked_reminder :: "string option"
  wr_source :: string
  wr_created_at :: instant
  wr_updated_at :: instant
  wr_resolved_at :: "instant option"
  wr_cancelled_at :: "instant option"
  wr_resolution_note :: string
  wr_metadata :: dict
  wr_revision :: int

record wf_event_row =
  er_id :: string
  er_item :: string
  er_identity :: identity
  er_sequence :: int
  er_type :: wf_event_type
  er_occurred_at :: instant
  er_note :: string
  er_source :: string
  er_trace_id :: string
  er_metadata :: dict

record wf_store =
  st_items :: "wf_row list"
  st_events :: "wf_event_row list"
  st_initialized :: bool
  st_last_error :: "string option"

definition item_values :: "waiting_for \<Rightarrow> wf_row" where
  "item_values w =
    \<lparr>wr_id = wf_id w, wr_identity = key_identity (wf_key w), wr_subject = wf_subject w,
     wr_waiting_on = wf_waiting_on w, wr_context = wf_context w, wr_status = wf_status w,
     wr_expected_by = wf_expected_by w, wr_next_review_at = wf_next_review_at w,
     wr_timezone = wf_timezone w, wr_linked_task = wf_linked_task w,
     wr_linked_reminder = wf_linked_reminder w, wr_source = wf_source w,
     wr_created_at = wf_created_at w, wr_updated_at = wf_updated_at w,
     wr_resolved_at = wf_resolved_at w, wr_cancelled_at = wf_cancelled_at w,
     wr_resolution_note = wf_resolution_note w, wr_metadata = wf_metadata w,
     wr_revision = wf_revision w\<rparr>"

definition event_values :: "wf_event \<Rightarrow> wf_event_row" where
  "event_values e =
    \<lparr>er_id = wfe_id e, er_item = wfe_item e, er_identity = key_identity (wfe_key e),
     er_sequence = wfe_sequence e, er_type = wfe_type e, er_occurred_at = wfe_occurred_at e,
     er_note = wfe_note e, er_source = wfe_source e, er_trace_id = wfe_trace_id e,
     er_metadata = wfe_metadata e\<rparr>"

definition identity_key :: "identity \<Rightarrow> string \<Rightarrow> workspace_key" where
  "identity_key i tr = (case i of (t, w, n) \<Rightarrow> plain_key t w n tr)"

text \<open>
  \<open>_item(row)\<close>: the row's columns as a model, validated again.  The rebuilt key draws a fresh
  trace id \<open>tr\<close>.
\<close>

definition row_item :: "string \<Rightarrow> wf_row \<Rightarrow> waiting_for" where
  "row_item tr r =
    \<lparr>wf_id = wr_id r, wf_key = identity_key (wr_identity r) tr, wf_subject = wr_subject r,
     wf_waiting_on = wr_waiting_on r, wf_context = wr_context r, wf_status = wr_status r,
     wf_expected_by = wr_expected_by r, wf_next_review_at = wr_next_review_at r,
     wf_timezone = wr_timezone r, wf_linked_task = wr_linked_task r,
     wf_linked_reminder = wr_linked_reminder r, wf_source = wr_source r,
     wf_created_at = wr_created_at r, wf_updated_at = wr_updated_at r,
     wf_resolved_at = wr_resolved_at r, wf_cancelled_at = wr_cancelled_at r,
     wf_resolution_note = wr_resolution_note r, wf_metadata = wr_metadata r,
     wf_revision = wr_revision r\<rparr>"

definition item_of_row :: "(string \<Rightarrow> bool) \<Rightarrow> string \<Rightarrow> wf_row \<Rightarrow> exn + waiting_for" where
  "item_of_row zone_ok tr r = validate_waiting_for zone_ok (dump_waiting_for (row_item tr r))"

definition event_of_row :: "string \<Rightarrow> wf_event_row \<Rightarrow> exn + wf_event" where
  "event_of_row tr r = validate_event
    \<lparr>wfe_id = er_id r, wfe_item = er_item r, wfe_key = identity_key (er_identity r) tr,
     wfe_sequence = er_sequence r, wfe_type = er_type r, wfe_occurred_at = er_occurred_at r,
     wfe_note = er_note r, wfe_source = er_source r, wfe_trace_id = er_trace_id r,
     wfe_metadata = er_metadata r\<rparr>"

section \<open>Statements\<close>

definition persistence_error :: "exn \<Rightarrow> string \<Rightarrow> wf_store \<Rightarrow> (exn + 'a) \<times> wf_store" where
  "persistence_error e m s =
     (Inl (Raise WaitingForPersistenceError m), s\<lparr>st_last_error := Some (exn_name e)\<rparr>)"

definition clear_error :: "wf_store \<Rightarrow> wf_store" where
  "clear_error s = s\<lparr>st_last_error := None\<rparr>"

text \<open>\<open>_scoped_row\<close>: a row of another workspace is reported as a mismatch.\<close>

definition scoped_row :: "wf_store \<Rightarrow> identity \<Rightarrow> string \<Rightarrow> exn + wf_row" where
  "scoped_row s ident i =
    (case find (\<lambda>r. wr_id r = i \<and> wr_identity r = ident) (st_items s) of
       Some r \<Rightarrow> Inr r
     | None \<Rightarrow>
         (case row_of wr_id i (st_items s) of
            Some _ \<Rightarrow> Inl (Raise WaitingForWorkspaceMismatchError
                        ''Waiting-For item belongs to another workspace'')
          | None \<Rightarrow> Inl (Raise WaitingForNotFoundError ''Waiting-For item not found'')))"

text \<open>The primary key and the UNIQUE constraint of the event table.\<close>

definition event_collides :: "wf_event_row \<Rightarrow> wf_event_row list \<Rightarrow> bool" where
  "event_collides e es =
     list_ex (\<lambda>x. er_id x = er_id e \<or> (er_item x = er_item e \<and> er_sequence x = er_sequence e)) es"

definition repo_create ::
  "exn option \<Rightarrow> waiting_for \<Rightarrow> wf_event \<Rightarrow> wf_store \<Rightarrow> (exn + waiting_for \<times> wf_event) \<times> wf_store" where
  "repo_create io w e s =
    (if key_identity (wf_key w) \<noteq> key_identity (wfe_key e) \<or> wfe_item e \<noteq> wf_id w \<or>
        wf_revision w \<noteq> 1 \<or> wfe_sequence e \<noteq> wf_revision w \<or> wfe_type e \<noteq> CREATED
     then (Inl (Raise WaitingForConflictError ''Created event does not match snapshot''), s)
     else case io of
       Some x \<Rightarrow> persistence_error x ''Waiting-For create failed'' s
     | None \<Rightarrow>
         if row_of wr_id (wf_id w) (st_items s) \<noteq> None \<or>
            event_collides (event_values e) (st_events s)
         then (Inl (Raise WaitingForConflictError ''Waiting-For item already exists''), s)
         else (Inr (w, e), clear_error (s\<lparr>st_items := st_items s @ [item_values w],
                                           st_events := st_events s @ [event_values e]\<rparr>)))"

definition repo_get ::
  "(string \<Rightarrow> bool) \<Rightarrow> exn option \<Rightarrow> string \<Rightarrow> workspace_key \<Rightarrow> string \<Rightarrow> wf_store \<Rightarrow>
   (exn + waiting_for) \<times> wf_store" where
  "repo_get zone_ok io tr key i s =
    (case io of
       Some x \<Rightarrow> persistence_error x ''Waiting-For query failed'' s
     | None \<Rightarrow>
         (case scoped_row s (key_identity key) i of
            Inl e \<Rightarrow> (Inl e, s)
          | Inr r \<Rightarrow>
              (case item_of_row zone_ok tr r of
                 Inl e \<Rightarrow> persistence_error e ''Waiting-For query failed'' s
               | Inr w \<Rightarrow> (Inr w, clear_error s))))"

text \<open>The WHERE clauses of a view; \<open>now\<close> is passed as its \<open>isoformat()\<close>.\<close>

fun view_clause :: "(instant \<Rightarrow> string) \<Rightarrow> instant \<Rightarrow> wf_view \<Rightarrow> wf_row \<Rightarrow> bool" where
  "view_clause enc now V_OPEN r = (wr_status r = WF_OPEN)"
| "view_clause enc now V_DUE r = (wr_status r = WF_OPEN \<and> col_le enc (wr_next_review_at r) now)"
| "view_clause enc now V_OVERDUE r = (wr_status r = WF_OPEN \<and> col_less enc (wr_expected_by r) now)"
| "view_clause enc now V_ATTENTION r =
     (wr_status r = WF_OPEN \<and>
      (col_le enc (wr_next_review_at r) now \<or> col_less enc (wr_expected_by r) now))"
| "view_clause enc now V_RESOLVED r = (wr_status r = WF_RESOLVED)"
| "view_clause enc now V_CANCELLED r = (wr_status r = WF_CANCELLED)"
| "view_clause enc now V_ALL r = True"

definition order_key ::
  "(instant \<Rightarrow> string) \<Rightarrow> wf_row \<Rightarrow> (bool \<times> string) \<times> (bool \<times> string) \<times> string \<times> string" where
  "order_key enc r = (nulls_last enc (wr_next_review_at r), nulls_last enc (wr_expected_by r),
                      enc (wr_created_at r), wr_id r)"

definition selected_rows ::
  "(instant \<Rightarrow> string) \<Rightarrow> wf_store \<Rightarrow> identity \<Rightarrow> wf_view \<Rightarrow> instant \<Rightarrow> wf_row list" where
  "selected_rows enc s ident view now =
     sort_key (order_key enc)
       (filter (\<lambda>r. wr_identity r = ident \<and> view_clause enc now view r) (st_items s))"

text \<open>Each row read draws its own trace id, \<open>tr\<close> of the row's identifier.\<close>

definition repo_list ::
  "(instant \<Rightarrow> string) \<Rightarrow> (string \<Rightarrow> bool) \<Rightarrow> exn option \<Rightarrow> (string \<Rightarrow> string) \<Rightarrow> workspace_key \<Rightarrow> wf_view \<Rightarrow>
   instant \<Rightarrow> nat \<Rightarrow> nat \<Rightarrow> wf_store \<Rightarrow> (exn + waiting_for page) \<times> wf_store" where
  "repo_list enc zone_ok io tr key view now limit offset s =
    (case io of
       Some x \<Rightarrow> persistence_error x ''Waiting-For list failed'' s
     | None \<Rightarrow>
         if \<not> sql_int (int limit + 1) \<or> \<not> sql_int (int offset)
         then persistence_error sql_overflow ''Waiting-For list failed'' s
         else
         (let rows = sql_page (Suc limit) offset (selected_rows enc s (key_identity key) view now)
          in case decode_rows (\<lambda>r. item_of_row zone_ok (tr (wr_id r)) r) (take limit rows) of
               Inl e \<Rightarrow> persistence_error e ''Waiting-For list failed'' s
             | Inr ws \<Rightarrow>
                 if limit < 1 then persistence_error (Raise ValidationError []) ''Waiting-For list failed'' s
                 else (Inr \<lparr>pg_items = ws, pg_limit = limit, pg_offset = offset,
                            pg_has_more = length rows > limit\<rparr>, clear_error s)))"

definition repo_list_events ::
  "exn option \<Rightarrow> (string \<Rightarrow> string) \<Rightarrow> workspace_key \<Rightarrow> string \<Rightarrow> nat \<Rightarrow> nat \<Rightarrow> wf_store \<Rightarrow>
   (exn + wf_event page) \<times> wf_store" where
  "repo_list_events io tr key i limit offset s =
    (case io of
       Some x \<Rightarrow> persistence_error x ''Waiting-For event list failed'' s
     | None \<Rightarrow>
         (case scoped_row s (key_identity key) i of
            Inl e \<Rightarrow> (Inl e, s)
          | Inr _ \<Rightarrow>
              if \<not> sql_int (int limit + 1) \<or> \<not> sql_int (int offset)
              then persistence_error sql_overflow ''Waiting-For event list failed'' s
              else
              (let rows = sql_page (Suc limit) offset (sort_key er_sequence
                     (filter (\<lambda>e. er_item e = i \<and> er_identity e = key_identity key) (st_events s)))
               in case decode_rows (\<lambda>e. event_of_row (tr (er_id e)) e) (take limit rows) of
                    Inl e \<Rightarrow> persistence_error e ''Waiting-For event list failed'' s
                  | Inr es \<Rightarrow>
                      if limit < 1
                      then persistence_error (Raise ValidationError []) ''Waiting-For event list failed'' s
                      else (Inr \<lparr>pg_items = es, pg_limit = limit, pg_offset = offset,
                                 pg_has_more = length rows > limit\<rparr>, clear_error s))))"

text \<open>
  \<open>mutate\<close>: the checks before the transaction, the row read inside it, and the UPDATE that
  names the expected revision once more.  (The trace id drawn for the row read is not used.)
\<close>

definition update_hits :: "wf_row \<Rightarrow> identity \<Rightarrow> int \<Rightarrow> wf_row \<Rightarrow> bool" where
  "update_hits v ident n r = (wr_id r = wr_id v \<and> wr_identity r = ident \<and> wr_revision r = n)"

definition repo_mutate ::
  "(string \<Rightarrow> bool) \<Rightarrow> exn option \<Rightarrow> workspace_key \<Rightarrow> waiting_for \<Rightarrow> wf_event \<Rightarrow> int \<Rightarrow> wf_store \<Rightarrow>
   (exn + waiting_for \<times> wf_event) \<times> wf_store" where
  "repo_mutate zone_ok io key w e expected s =
    (let request = key_identity key in
     if request \<noteq> key_identity (wf_key w) \<or> request \<noteq> key_identity (wfe_key e)
     then (Inl (Raise WaitingForConflictError ''Mutation workspace does not match request''), s)
     else if wf_revision w \<noteq> expected + 1
     then (Inl (Raise WaitingForConflictError ''Snapshot revision is invalid''), s)
     else if wfe_item e \<noteq> wf_id w \<or> wfe_sequence e \<noteq> wf_revision w
     then (Inl (Raise WaitingForConflictError ''Mutation event does not match snapshot''), s)
     else case io of
       Some x \<Rightarrow> persistence_error x ''Waiting-For mutation failed'' s
     | None \<Rightarrow>
         (case scoped_row s request (wf_id w) of
            Inl x \<Rightarrow> (Inl x, s)
          | Inr r \<Rightarrow>
              (case item_of_row zone_ok [] r of
                 Inl x \<Rightarrow> persistence_error x ''Waiting-For mutation failed'' s
               | Inr current \<Rightarrow>
                   if key_identity (wf_key current) \<noteq> request
                   then (Inl (Raise WaitingForConflictError ''Stored workspace does not match request''), s)
                   else if wf_revision current \<noteq> expected
                   then (Inl (Raise WaitingForConflictError ''Waiting-For revision conflict''), s)
                   else
                     let hits = update_hits (item_values w) (wr_identity (item_values w)) expected in
                     if rowcount hits (st_items s) \<noteq> 1
                     then (Inl (Raise WaitingForConflictError ''Waiting-For revision conflict''), s)
                     else if event_collides (event_values e) (st_events s)
                     then (Inl (Raise WaitingForConflictError ''Waiting-For event conflict''), s)
                     else (Inr (w, e), clear_error
                       (s\<lparr>st_items := update_where hits (\<lambda>_. item_values w) (st_items s),
                          st_events := st_events s @ [event_values e]\<rparr>)))))"

definition repo_health :: "bool \<Rightarrow> wf_store \<Rightarrow> runtime_status \<times> string option" where
  "repo_health connection_ok s =
    (if \<not> st_initialized s then (NOT_INITIALIZED, None)
     else if connection_ok then (OK, None)
     else (STATUS_FAILED,
           Some (case st_last_error s of None \<Rightarrow> ''connection_unavailable''
                 | Some m \<Rightarrow> str_or m ''connection_unavailable'')))"

definition repo_initialize :: "exn option \<Rightarrow> wf_store \<Rightarrow> (exn + unit) \<times> wf_store" where
  "repo_initialize io s =
    (case io of
       Some x \<Rightarrow> persistence_error x ''Waiting-For repository initialization failed'' s
     | None \<Rightarrow> (Inr (), s\<lparr>st_initialized := True, st_last_error := None\<rparr>))"

definition repo_close :: "wf_store \<Rightarrow> wf_store" where
  "repo_close s = s\<lparr>st_initialized := False\<rparr>"

section \<open>What a successful write does\<close>

lemma find_scoped:
  assumes "keyed wr_id rows"
  shows "find (\<lambda>r. wr_id r = i \<and> wr_identity r = ident) rows =
    (case row_of wr_id i rows of None \<Rightarrow> None | Some r \<Rightarrow> if wr_identity r = ident then Some r else None)"
  using assms by (rule find_keyed)

lemma scoped_row_Inr:
  "keyed wr_id (st_items s) \<Longrightarrow>
   scoped_row s ident i = Inr r \<longleftrightarrow> row_of wr_id i (st_items s) = Some r \<and> wr_identity r = ident"
  by (auto simp: scoped_row_def find_scoped split: option.splits if_splits)

lemma item_of_row_Inr: "item_of_row zone_ok tr r = Inr w \<Longrightarrow>
    wf_id w = wr_id r \<and> wf_key w = identity_key (wr_identity r) tr \<and> wf_status w = wr_status r \<and>
    wf_revision w = wr_revision r \<and> wf_next_review_at w = wr_next_review_at r \<and>
    wf_expected_by w = wr_expected_by r \<and> valid_waiting_for zone_ok w"
  using validated_is_valid [of zone_ok "dump_waiting_for (row_item tr r)" w]
  by (auto simp: item_of_row_def validate_waiting_for_Inr normalised_dump row_item_def)

text \<open>The store after the commit of a mutation.\<close>

definition mutated :: "waiting_for \<Rightarrow> wf_event \<Rightarrow> wf_store \<Rightarrow> wf_store" where
  "mutated w e s = clear_error
     (s\<lparr>st_items := update_where (\<lambda>r. wr_id r = wf_id w) (\<lambda>_. item_values w) (st_items s),
        st_events := st_events s @ [event_values e]\<rparr>)"

lemma item_values_simps [simp]:
  "wr_id (item_values w) = wf_id w" "wr_identity (item_values w) = key_identity (wf_key w)"
  "wr_revision (item_values w) = wf_revision w" "wr_status (item_values w) = wf_status w"
  by (simp_all add: item_values_def)

lemma event_values_simps [simp]:
  "er_id (event_values e) = wfe_id e" "er_item (event_values e) = wfe_item e"
  "er_identity (event_values e) = key_identity (wfe_key e)"
  "er_sequence (event_values e) = wfe_sequence e" "er_type (event_values e) = wfe_type e"
  by (simp_all add: event_values_def)

lemma clear_error_simps [simp]:
  "st_items (clear_error s) = st_items s" "st_events (clear_error s) = st_events s"
  "st_initialized (clear_error s) = st_initialized s"
  by (simp_all add: clear_error_def)

lemma update_hits_alone:
  assumes "keyed wr_id rows" and "row_of wr_id i rows = Some r"
    and "wr_identity r = ident" and "wr_revision r = n" and "wr_id v = i"
  shows "update_where (update_hits v ident n) f rows = update_where (\<lambda>r. wr_id r = i) f rows"
    and "rowcount (update_hits v ident n) rows = 1"
proof -
  have "update_hits v ident n x \<longleftrightarrow> wr_id x = i" if "x \<in> set rows" for x
    using that assms row_of_member [OF assms(1) that]
    by (auto simp: update_hits_def)
  then show "update_where (update_hits v ident n) f rows = update_where (\<lambda>r. wr_id r = i) f rows"
    by (simp add: update_where_def)
  show "rowcount (update_hits v ident n) rows = 1"
    using rowcount_keyed [OF assms(1), of "update_hits v ident n" i] row_of_Some [OF assms(2)] assms
    by (auto simp: update_hits_def)
qed

lemma repo_mutate_success:
  assumes "keyed wr_id (st_items s)"
    and "repo_mutate zone_ok io key w e expected s = (Inr y, s')"
  obtains r current where
    "io = None" "y = (w, e)" "row_of wr_id (wf_id w) (st_items s) = Some r"
    "item_of_row zone_ok [] r = Inr current" "wr_identity r = key_identity key"
    "wr_revision r = expected" "wf_revision w = expected + 1"
    "key_identity (wf_key w) = key_identity key" "key_identity (wfe_key e) = key_identity key"
    "wfe_item e = wf_id w" "wfe_sequence e = wf_revision w"
    "\<not> event_collides (event_values e) (st_events s)" "s' = mutated w e s"
proof -
  from assms(2) have io: "io = None" and w: "wf_revision w = expected + 1"
    and k: "key_identity (wf_key w) = key_identity key" "key_identity (wfe_key e) = key_identity key"
    and e: "wfe_item e = wf_id w" "wfe_sequence e = wf_revision w"
    by (auto simp: repo_mutate_def Let_def persistence_error_def split: if_splits option.splits)
  from assms(2) io w k e obtain r where r: "scoped_row s (key_identity key) (wf_id w) = Inr r"
    by (cases "scoped_row s (key_identity key) (wf_id w)") (auto simp: repo_mutate_def)
  from assms(2) io w k e r obtain c where c: "item_of_row zone_ok [] r = Inr c"
    by (cases "item_of_row zone_ok [] r") (auto simp: repo_mutate_def persistence_error_def)
  from r assms(1) have row: "row_of wr_id (wf_id w) (st_items s) = Some r" "wr_identity r = key_identity key"
    by (simp_all add: scoped_row_Inr)
  from assms(2) io w k e r c have rv: "wf_revision c = expected"
    and nc: "\<not> event_collides (event_values e) (st_events s)" and y: "y = (w, e)"
    and s': "s' = clear_error
      (s\<lparr>st_items := update_where (update_hits (item_values w) (key_identity key) expected)
             (\<lambda>_. item_values w) (st_items s),
         st_events := st_events s @ [event_values e]\<rparr>)"
    by (auto simp: repo_mutate_def Let_def split: if_splits)
  from rv item_of_row_Inr [OF c] have "wr_revision r = expected" by simp
  moreover from this s' row update_hits_alone [OF assms(1) row(1,2)]
  have "s' = mutated w e s" by (simp add: mutated_def)
  ultimately show ?thesis
    using io y row c w k e nc by (intro that)
qed

lemma repo_mutate_failure:
  "repo_mutate zone_ok io key w e expected s = (Inl x, s') \<Longrightarrow>
   st_items s' = st_items s \<and> st_events s' = st_events s \<and> st_initialized s' = st_initialized s"
  by (auto simp: repo_mutate_def Let_def persistence_error_def
      split: if_splits option.splits sum.splits)

section \<open>The representation invariant\<close>

text \<open>
  Primary keys are unique, every row is a valid snapshot, an item's events are numbered 1, 2, up
  to its revision, and every event belongs to a stored item of the same workspace.
\<close>

definition history :: "wf_store \<Rightarrow> string \<Rightarrow> wf_event_row list" where
  "history s i = filter (\<lambda>e. er_item e = i) (st_events s)"

definition store_ok :: "(string \<Rightarrow> bool) \<Rightarrow> wf_store \<Rightarrow> bool" where
  "store_ok zone_ok s =
    (keyed wr_id (st_items s) \<and> keyed er_id (st_events s) \<and>
     (\<forall>r \<in> set (st_items s). valid_waiting_for zone_ok (row_item [] r) \<and>
        map er_sequence (history s (wr_id r)) = [1..wr_revision r]) \<and>
     (\<forall>e \<in> set (st_events s). \<exists>r \<in> set (st_items s).
        wr_id r = er_item e \<and> wr_identity r = er_identity e))"

definition empty_store :: wf_store where
  "empty_store = \<lparr>st_items = [], st_events = [], st_initialized = False, st_last_error = None\<rparr>"

lemma store_ok_empty [wf_rules]: "store_ok zone_ok empty_store"
  by (simp add: store_ok_def empty_store_def)

lemma store_ok_frame [frame_rules]:
  "st_items s' = st_items s \<Longrightarrow> st_events s' = st_events s \<Longrightarrow> store_ok zone_ok s' = store_ok zone_ok s"
  by (simp add: store_ok_def history_def)

lemma store_ok_keyed: "store_ok zone_ok s \<Longrightarrow> keyed wr_id (st_items s)"
  by (simp add: store_ok_def)

lemma store_okI [wf_rules]:
  assumes "keyed wr_id (st_items s)" and "keyed er_id (st_events s)"
    and "\<And>r. r \<in> set (st_items s) \<Longrightarrow> valid_waiting_for zone_ok (row_item [] r) \<and>
        map er_sequence (history s (wr_id r)) = [1..wr_revision r]"
    and "\<And>e. e \<in> set (st_events s) \<Longrightarrow>
        \<exists>r \<in> set (st_items s). wr_id r = er_item e \<and> wr_identity r = er_identity e"
  shows "store_ok zone_ok s"
  using assms by (simp add: store_ok_def)

lemma store_ok_owner:
  assumes "store_ok zone_ok s" and "e \<in> set (st_events s)"
  obtains r where "r \<in> set (st_items s)" "wr_id r = er_item e" "wr_identity r = er_identity e"
  using assms by (auto simp: store_ok_def)

lemma event_collides_iff: "event_collides e es \<longleftrightarrow>
    (\<exists>x \<in> set es. er_id x = er_id e \<or> (er_item x = er_item e \<and> er_sequence x = er_sequence e))"
  by (simp add: event_collides_def list_ex_iff)

lemma not_collides_fresh: "\<not> event_collides e es \<Longrightarrow> row_of er_id (er_id e) es = None"
  by (force simp: event_collides_iff row_of_None)

lemma canonical_identity: "identity_of (canonical_workspace (identity_key (key_identity k) tr)) = key_identity k"
  by (simp add: key_identity_def identity_key_def plain_key_def canonical_workspace_def identity_of_def
      str_or_def)

lemma key_identity_identity_key [simp]: "key_identity (identity_key (key_identity k) tr) = key_identity k"
  by (simp add: key_identity_def [of "identity_key _ _"] canonical_identity)

text \<open>A row read back is the model that was stored, under the canonical key.\<close>

lemma row_item_values: "row_item tr (item_values w) = w\<lparr>wf_key := identity_key (key_identity (wf_key w)) tr\<rparr>"
  by (simp add: row_item_def item_values_def)

lemma item_of_row_values:
  "valid_waiting_for zone_ok w \<Longrightarrow>
   item_of_row zone_ok tr (item_values w) = Inr (w\<lparr>wf_key := identity_key (key_identity (wf_key w)) tr\<rparr>)"
  using valid_rekey [of zone_ok w "identity_key (key_identity (wf_key w)) tr"]
  by (simp add: item_of_row_def row_item_values valid_waiting_for_def)

lemma row_item_trace: "row_item tr r = (row_item [] r)\<lparr>wf_key := identity_key (wr_identity r) tr\<rparr>"
  by (simp add: row_item_def)

lemma store_ok_row:
  assumes "store_ok zone_ok s" and "r \<in> set (st_items s)"
  shows "item_of_row zone_ok tr r = Inr (row_item tr r)"
    and "map er_sequence (history s (wr_id r)) = [1..wr_revision r]"
proof -
  from assms have "valid_waiting_for zone_ok (row_item [] r)" by (simp add: store_ok_def)
  then have "valid_waiting_for zone_ok (row_item tr r)"
    by (subst row_item_trace) (rule valid_rekey)
  then show "item_of_row zone_ok tr r = Inr (row_item tr r)"
    by (simp add: item_of_row_def valid_waiting_for_def)
  from assms show "map er_sequence (history s (wr_id r)) = [1..wr_revision r]"
    by (simp add: store_ok_def)
qed

lemma repo_create_success:
  assumes "repo_create io w e s = (Inr y, s')"
  shows "io = None \<and> y = (w, e) \<and> row_of wr_id (wf_id w) (st_items s) = None \<and>
    \<not> event_collides (event_values e) (st_events s) \<and>
    key_identity (wfe_key e) = key_identity (wf_key w) \<and> wfe_item e = wf_id w \<and>
    wf_revision w = 1 \<and> wfe_sequence e = 1 \<and> wfe_type e = CREATED \<and>
    s' = clear_error (s\<lparr>st_items := st_items s @ [item_values w],
                        st_events := st_events s @ [event_values e]\<rparr>)"
  using assms by (auto simp: repo_create_def persistence_error_def split: if_splits option.splits)

lemma repo_create_failure:
  "repo_create io w e s = (Inl x, s') \<Longrightarrow>
   st_items s' = st_items s \<and> st_events s' = st_events s \<and> st_initialized s' = st_initialized s"
  by (auto simp: repo_create_def persistence_error_def split: if_splits option.splits)

lemma history_append [simp]:
  "history (clear_error (s\<lparr>st_items := rows, st_events := st_events s @ [e]\<rparr>)) i =
    history s i @ (if er_item e = i then [e] else [])"
  by (simp add: history_def)

lemma history_of_unknown:
  assumes "store_ok zone_ok s" and "row_of wr_id i (st_items s) = None"
  shows "history s i = []"
proof -
  have "er_item e \<noteq> i" if e: "e \<in> set (st_events s)" for e
  proof
    assume "er_item e = i"
    with store_ok_owner [OF assms(1) e] obtain r where "r \<in> set (st_items s)" "wr_id r = i" by metis
    with assms(2) show False by (force simp: row_of_None)
  qed
  then show ?thesis by (auto simp: history_def filter_empty_conv)
qed

lemma repo_create_ok:
  assumes ok: "store_ok zone_ok s" and valid: "valid_waiting_for zone_ok w"
    and run: "repo_create io w e s = (res, s')"
  shows "store_ok zone_ok s'"
proof (cases res)
  case (Inl x)
  with run repo_create_failure ok show ?thesis by (metis store_ok_frame)
next
  case (Inr y)
  from repo_create_success [OF run [unfolded Inr]]
  have new: "row_of wr_id (wf_id w) (st_items s) = None" "\<not> event_collides (event_values e) (st_events s)"
    "key_identity (wfe_key e) = key_identity (wf_key w)" "wfe_item e = wf_id w"
    "wf_revision w = 1" "wfe_sequence e = 1"
    and s': "s' = clear_error (s\<lparr>st_items := st_items s @ [item_values w],
                                 st_events := st_events s @ [event_values e]\<rparr>)"
    by simp_all
  have none: "history s (wf_id w) = []" by (rule history_of_unknown [OF ok new(1)])
  from new(1) have "wf_id w \<notin> wr_id ` set (st_items s)" by (simp add: row_of_None)
  then have other: "wf_id w \<noteq> wr_id r" if "r \<in> set (st_items s)" for r using that by force
  have valid_row: "valid_waiting_for zone_ok (row_item [] (item_values w))"
    by (simp add: row_item_values valid_rekey valid)
  have rows: "valid_waiting_for zone_ok (row_item [] x) \<and>
      map er_sequence (history s' (wr_id x)) = [1..wr_revision x]"
    if "x \<in> set (st_items s) \<or> x = item_values w" for x
    using that
  proof
    assume x: "x \<in> set (st_items s)"
    with ok other [OF x] new(4) show ?thesis by (simp add: store_ok_def s')
  next
    assume "x = item_values w"
    with valid_row none new show ?thesis by (simp add: s')
  qed
  have owned: "\<exists>x \<in> set (st_items s'). wr_id x = er_item y \<and> wr_identity x = er_identity y"
    if "y \<in> set (st_events s) \<or> y = event_values e" for y
    using that
  proof
    assume "y \<in> set (st_events s)"
    with ok show ?thesis by (force simp: store_ok_def s')
  next
    assume "y = event_values e"
    with new show ?thesis by (force simp: s')
  qed
  have "keyed wr_id (st_items s')" and "keyed er_id (st_events s')"
    using ok new not_collides_fresh [OF new(2)] by (simp_all add: s' store_ok_def)
  then show ?thesis
  proof (rule store_okI)
    fix x assume "x \<in> set (st_items s')"
    then show "valid_waiting_for zone_ok (row_item [] x) \<and>
        map er_sequence (history s' (wr_id x)) = [1..wr_revision x]"
      by (intro rows) (auto simp: s')
  next
    fix y assume "y \<in> set (st_events s')"
    then show "\<exists>x \<in> set (st_items s'). wr_id x = er_item y \<and> wr_identity x = er_identity y"
      by (intro owned) (auto simp: s')
  qed
qed

lemma store_ok_mutated:
  assumes ok: "store_ok zone_ok s" and row: "row_of wr_id (wf_id w) (st_items s) = Some r"
    and ids: "key_identity (wf_key w) = wr_identity r" "key_identity (wfe_key e) = wr_identity r"
    and rv: "wf_revision w = wr_revision r + 1" and valid: "valid_waiting_for zone_ok w"
    and ev: "wfe_item e = wf_id w" "wfe_sequence e = wf_revision w"
      "\<not> event_collides (event_values e) (st_events s)"
  shows "store_ok zone_ok (mutated w e s)"
proof -
  define s' where "s' = mutated w e s"
  note keyed = store_ok_keyed [OF ok]
  let ?hit = "\<lambda>r. wr_id r = wf_id w"
  let ?rows = "update_where ?hit (\<lambda>_. item_values w) (st_items s)"
  from row have r: "r \<in> set (st_items s)" "wr_id r = wf_id w" using row_of_Some by fastforce+
  have keep: "wr_id r = wf_id w \<Longrightarrow> r' = r" if "r' \<in> set (st_items s)" "wr_id r' = wf_id w" for r'
    using keyed_unique [OF keyed that(1) r(1)] that r by simp
  have n: "1 \<le> wr_revision r + 1" "map er_sequence (history s (wf_id w)) = [1..wr_revision r]"
    using store_ok_row(2) [OF ok r(1)] valid_state [OF valid] r rv by simp_all
  have keyed': "keyed wr_id ?rows" by (rule keyed_update_where [OF _ keyed]) simp
  have rows: "valid_waiting_for zone_ok (row_item [] x) \<and>
      map er_sequence (history s' (wr_id x)) = [1..wr_revision x]" if "x \<in> set ?rows" for x
  proof (cases "wr_id x = wf_id w")
    case True
    with that have "x = item_values w" by (auto simp: set_update_where split: if_splits)
    moreover have "[1..wr_revision r + 1] = [1..wr_revision r] @ [wr_revision r + 1]"
      using upto_rec2 [of 1 "wr_revision r + 1"] n(1) by simp
    ultimately show ?thesis
      using n rv ev by (simp add: row_item_values valid_rekey valid s'_def mutated_def)
  next
    case False
    with that have "x \<in> set (st_items s)" by (auto simp: set_update_where split: if_splits)
    with ok False ev show ?thesis by (simp add: store_ok_def s'_def mutated_def)
  qed
  have owned: "\<exists>x \<in> set ?rows. wr_id x = er_item y \<and> wr_identity x = er_identity y"
    if "y \<in> set (st_events s) \<or> y = event_values e" for y
  proof (cases "er_item y = wf_id w")
    case True
    have "item_values w \<in> set ?rows" using r by (force simp: set_update_where)
    moreover from that have "er_identity y = wr_identity r"
    proof
      assume "y \<in> set (st_events s)"
      then obtain x where "x \<in> set (st_items s)" "wr_id x = er_item y" "wr_identity x = er_identity y"
        by (rule store_ok_owner [OF ok])
      with keep [of x] True ids(1) r show ?thesis by simp
    qed (simp add: ids)
    ultimately show ?thesis using True ids by (intro bexI [of _ "item_values w"]) simp_all
  next
    case False
    with that ev have "y \<in> set (st_events s)" by auto
    then obtain x where "x \<in> set (st_items s)" "wr_id x = er_item y" "wr_identity x = er_identity y"
      by (rule store_ok_owner [OF ok])
    with False show ?thesis by (intro bexI [of _ x]) (auto simp: set_update_where image_iff)
  qed
  have "keyed wr_id (st_items s')" and "keyed er_id (st_events s')"
    using keyed' ok not_collides_fresh [OF ev(3)] by (simp_all add: s'_def mutated_def store_ok_def)
  then have "store_ok zone_ok s'"
  proof (rule store_okI)
    fix x assume "x \<in> set (st_items s')"
    then show "valid_waiting_for zone_ok (row_item [] x) \<and>
        map er_sequence (history s' (wr_id x)) = [1..wr_revision x]"
      by (intro rows) (simp add: s'_def mutated_def)
  next
    fix y assume "y \<in> set (st_events s')"
    then have "y \<in> set (st_events s) \<or> y = event_values e" by (auto simp: s'_def mutated_def)
    from owned [OF this] show "\<exists>x \<in> set (st_items s'). wr_id x = er_item y \<and> wr_identity x = er_identity y"
      by (simp add: s'_def mutated_def)
  qed
  then show ?thesis by (simp add: s'_def)
qed

lemma repo_mutate_ok:
  assumes ok: "store_ok zone_ok s" and valid: "valid_waiting_for zone_ok w"
    and run: "repo_mutate zone_ok io key w e n s = (res, s')"
  shows "store_ok zone_ok s'"
proof (cases res)
  case (Inl x)
  with run repo_mutate_failure ok show ?thesis by (metis store_ok_frame)
next
  case (Inr y)
  from store_ok_keyed [OF ok] run [unfolded Inr] show ?thesis
    by (rule repo_mutate_success) (auto intro!: store_ok_mutated ok valid)
qed

text \<open>A fresh identifier is all an event with the next number needs.\<close>

lemma next_event_is_fresh:
  assumes "store_ok zone_ok s" and "row_of wr_id i (st_items s) = Some r"
    and "wfe_item e = i" "wfe_sequence e = wr_revision r + 1" "row_of er_id (wfe_id e) (st_events s) = None"
  shows "\<not> event_collides (event_values e) (st_events s)"
proof -
  from row_of_Some [OF assms(2)] have r: "r \<in> set (st_items s)" "wr_id r = i" by simp_all
  have "er_sequence x \<le> wr_revision r" if "x \<in> set (st_events s)" "er_item x = i" for x
  proof -
    from that have "er_sequence x \<in> set (map er_sequence (history s i))" by (auto simp: history_def)
    with store_ok_row(2) [OF assms(1) r(1)] r(2) have "er_sequence x \<in> set [1..wr_revision r]" by simp
    then show ?thesis by simp
  qed
  with assms(3-5) show ?thesis by (force simp: event_collides_iff row_of_None)
qed

lemma repo_mutate_total:
  assumes ok: "store_ok zone_ok s" and row: "row_of wr_id (wf_id w) (st_items s) = Some r"
    and ids: "wr_identity r = key_identity key" "key_identity (wf_key w) = key_identity key"
      "key_identity (wfe_key e) = key_identity key"
    and n: "wr_revision r = n" "wf_revision w = n + 1"
    and e: "wfe_item e = wf_id w" "wfe_sequence e = n + 1" "row_of er_id (wfe_id e) (st_events s) = None"
  shows "repo_mutate zone_ok None key w e n s = (Inr (w, e), mutated w e s)"
proof -
  note keyed = store_ok_keyed [OF ok]
  have "scoped_row s (key_identity key) (wf_id w) = Inr r"
    using row ids by (simp add: scoped_row_Inr [OF keyed])
  moreover have "item_of_row zone_ok [] r = Inr (row_item [] r)"
    by (rule store_ok_row(1) [OF ok]) (simp add: row_of_Some [OF row])
  moreover have "key_identity (wf_key (row_item [] r)) = key_identity key" "wf_revision (row_item [] r) = n"
    using ids n by (simp_all add: row_item_def)
  moreover have "\<not> event_collides (event_values e) (st_events s)"
    by (rule next_event_is_fresh [OF ok row]) (use e n in simp_all)
  ultimately show ?thesis
    using ids n e update_hits_alone [OF keyed row ids(1) n(1), of "item_values w"]
    by (simp add: repo_mutate_def mutated_def Let_def)
qed

section \<open>The repository as a versioned store\<close>

definition stored_row :: "wf_store \<Rightarrow> string \<Rightarrow> wf_row option" where
  "stored_row s i = row_of wr_id i (st_items s)"

type_synonym wf_write = "exn option \<times> workspace_key \<times> waiting_for \<times> wf_event"

definition write_target :: "wf_write \<Rightarrow> string" where
  "write_target x = (case x of (io, key, w, e) \<Rightarrow> wf_id w)"

definition write_row :: "wf_write \<Rightarrow> wf_row" where
  "write_row x = (case x of (io, key, w, e) \<Rightarrow> item_values w)"

definition attempt_write ::
  "(string \<Rightarrow> bool) \<Rightarrow> int \<Rightarrow> wf_write \<Rightarrow> wf_store \<Rightarrow> (exn + waiting_for \<times> wf_event) \<times> wf_store" where
  "attempt_write zone_ok n x s = (case x of (io, key, w, e) \<Rightarrow> repo_mutate zone_ok io key w e n s)"

definition keyed_store :: "wf_store \<Rightarrow> bool" where
  "keyed_store s = keyed wr_id (st_items s)"

lemmas write_defs = stored_row_def write_target_def write_row_def attempt_write_def keyed_store_def

lemma stored_row_mutated:
  "stored_row (mutated w e s) i =
    (if i = wf_id w \<and> stored_row s i \<noteq> None then Some (item_values w) else stored_row s i)"
  using row_of_Some [of wr_id i "st_items s"]
  by (cases "row_of wr_id i (st_items s)")
    (auto simp: stored_row_def mutated_def row_of_update_where)

interpretation wf: versioned_store stored_row write_target "\<lambda>_. write_row" wr_revision
    "attempt_write zone_ok" keyed_store for zone_ok
proof unfold_locales
  fix s :: wf_store and r x y s'
  assume inv: "keyed_store s" and run: "attempt_write zone_ok r x s = (Inr y, s')"
  obtain io key w e where x: "x = (io, key, w, e)" by (cases x)
  from inv run repo_mutate_success [of s zone_ok io key w e r y s'] obtain row where
    *: "stored_row s (wf_id w) = Some row" "wr_revision row = r" "wf_revision w = r + 1" "s' = mutated w e s"
    by (auto simp: write_defs x)
  then show "\<exists>i. stored_row s (write_target x) = Some i \<and> wr_revision i = r"
    and "stored_row s' (write_target x) = Some (write_row x)"
    and "wr_revision (write_row x) = r + 1"
    by (auto simp: x write_target_def write_row_def stored_row_mutated)
next
  fix s :: wf_store and r x e s' k
  assume "keyed_store s" and "attempt_write zone_ok r x s = (Inl e, s')"
  then show "stored_row s' k = stored_row s k"
    using repo_mutate_failure by (cases x) (simp add: write_defs)
next
  fix s :: wf_store and r x res s' k
  assume inv: "keyed_store s" and run: "attempt_write zone_ok r x s = (res, s')"
  obtain io key w e where x: "x = (io, key, w, e)" by (cases x)
  have "stored_row s' i = stored_row s i \<and> keyed_store s'" if "i \<noteq> wf_id w" for i
  proof (cases res)
    case (Inl err)
    with inv run repo_mutate_failure show ?thesis by (simp add: write_defs x)
  next
    case (Inr y)
    with inv run repo_mutate_success [of s zone_ok io key w e r y s'] have "s' = mutated w e s"
      by (auto simp: write_defs x)
    with inv that show ?thesis
      by (simp add: stored_row_mutated keyed_store_def) (simp add: mutated_def keyed_update_where)
  qed
  then show "k \<noteq> write_target x \<Longrightarrow> stored_row s' k = stored_row s k" and "keyed_store s'"
    using not_Cons_self [of "wf_id w"] by (auto simp: x write_target_def)
qed

section \<open>What the views list\<close>

lemma repo_list_success:
  assumes "repo_list enc zone_ok io tr key view now limit offset s = (Inr p, s')"
  shows "io = None \<and> 1 \<le> limit \<and> s' = clear_error s \<and> pg_limit p = limit \<and> pg_offset p = offset \<and>
    decode_rows (\<lambda>r. item_of_row zone_ok (tr (wr_id r)) r)
      (sql_page limit offset (selected_rows enc s (key_identity key) view now)) = Inr (pg_items p) \<and>
    pg_has_more p = (offset + limit < length (selected_rows enc s (key_identity key) view now))"
proof (cases "io = None \<and> sql_int (int limit + 1) \<and> sql_int (int offset)")
  case True
  let ?rows = "selected_rows enc s (key_identity key) view now"
  show ?thesis
  proof (cases "decode_rows (\<lambda>r. item_of_row zone_ok (tr (wr_id r)) r) (sql_page limit offset ?rows)")
    case (Inl e)
    with assms True show ?thesis
      by (simp add: repo_list_def Let_def sql_page_probe persistence_error_def)
  next
    case (Inr ws)
    with assms True show ?thesis
      by (cases "limit < 1") (auto simp: repo_list_def Let_def sql_page_probe sql_page_more persistence_error_def)
  qed
qed (use assms in \<open>auto simp: repo_list_def persistence_error_def split: option.splits\<close>)

lemma repo_list_total:
  assumes "store_ok zone_ok s" and "1 \<le> limit" and "sql_int (int limit + 1)" "sql_int (int offset)"
  shows "repo_list enc zone_ok None tr key view now limit offset s =
    (Inr \<lparr>pg_items = map (\<lambda>r. row_item (tr (wr_id r)) r)
             (sql_page limit offset (selected_rows enc s (key_identity key) view now)),
          pg_limit = limit, pg_offset = offset,
          pg_has_more = offset + limit < length (selected_rows enc s (key_identity key) view now)\<rparr>,
     clear_error s)"
proof -
  let ?rows = "selected_rows enc s (key_identity key) view now"
  have "set ?rows \<subseteq> set (st_items s)" by (auto simp: selected_rows_def)
  then have "set (sql_page limit offset ?rows) \<subseteq> set (st_items s)" by (auto dest: set_sql_page)
  then have "decode_rows (\<lambda>r. item_of_row zone_ok (tr (wr_id r)) r) (sql_page limit offset ?rows) =
      Inr (map (\<lambda>r. row_item (tr (wr_id r)) r) (sql_page limit offset ?rows))"
    by (auto simp: decode_rows_Inr store_ok_row(1) [OF assms(1)])
  with assms(2-4) show ?thesis
    by (simp add: repo_list_def Let_def sql_page_probe sql_page_more)
qed

end
