(* ===== verification/WaitingFor_Service.thy ===== *)
theory WaitingFor_Service
  imports WaitingFor_Store
begin

text \<open>
  \<open>core/waiting_for/service.py\<close>: the operations of the service over the repository, the failure
  each exception becomes, and the event published after a commit.  What the surroundings supply
  to one call is a record: the clock readings, the failures of SQLite in the read and in the
  write, what the bus does, the UUIDs drawn for identifiers and the trace id drawn by a read.
\<close>

section \<open>Surroundings and state\<close>

record wf_env =
  env_now :: instant
  env_later :: instant
  env_read_io :: "exn option"
  env_write_io :: "exn option"
  env_bus :: bus_mode
  env_item_uuid :: string
  env_event_uuid :: string
  env_read_trace :: string

record bus_message =
  bm_topic :: string
  bm_time :: instant
  bm_source :: string
  bm_payload :: dict
  bm_metadata :: dict

record wf_service =
  sv_store :: wf_store
  sv_bus_failure :: "failure_info option"
  sv_published :: "bus_message list"

type_synonym 'a wf_call = "wf_service \<Rightarrow> (exn + 'a) \<times> wf_service"

definition initial_service :: wf_service where
  "initial_service = \<lparr>sv_store = empty_store, sv_bus_failure = None, sv_published = []\<rparr>"

section \<open>Failures\<close>

definition raise_failure ::
  "string \<Rightarrow> error_category \<Rightarrow> string \<Rightarrow> string \<Rightarrow> exn \<Rightarrow> string \<Rightarrow> bool \<Rightarrow> exn" where
  "raise_failure code category operation message x tr retryable = Failed
     \<lparr>fi_code = code, fi_category = category, fi_message = message, fi_component = ''waiting_for'',
      fi_operation = operation, fi_retryable = retryable, fi_trace_id = tr,
      fi_cause_type = exn_name x, fi_details = []\<rparr>"

definition raise_validation :: "string \<Rightarrow> exn \<Rightarrow> string \<Rightarrow> exn" where
  "raise_validation operation x tr =
     raise_failure (''waiting_for.'' @ operation @ ''.validation'') VALIDATION operation
       ''Waiting-For request is invalid'' x tr False"

definition raise_conflict :: "string \<Rightarrow> exn \<Rightarrow> string \<Rightarrow> exn" where
  "raise_conflict operation x tr =
     raise_failure (''waiting_for.'' @ operation @ ''.conflict'') CONFLICT operation
       ''Waiting-For state or revision conflict'' x tr False"

definition raise_not_found :: "string \<Rightarrow> exn \<Rightarrow> string \<Rightarrow> exn" where
  "raise_not_found operation x tr =
     raise_failure (''waiting_for.'' @ operation @ ''.not_found'') NOT_FOUND operation
       ''Waiting-For item was not found'' x tr False"

definition raise_persistence :: "string \<Rightarrow> exn \<Rightarrow> string \<Rightarrow> exn" where
  "raise_persistence operation x tr =
     raise_failure (''waiting_for.'' @ operation @ ''.persistence_failure'') PERSISTENCE_FAILURE operation
       ''Waiting-For persistence failed'' x tr True"

text \<open>The \<open>except\<close> clauses of the operations, in their order.\<close>

definition not_found_classes :: "exn_class list" where
  "not_found_classes = [WaitingForNotFoundError, WaitingForWorkspaceMismatchError]"

definition create_failure :: "string \<Rightarrow> exn \<Rightarrow> exn" where
  "create_failure tr x =
    (if is_value_error x then raise_validation ''create'' x tr
     else if has_class [WaitingForConflictError] x then raise_conflict ''create'' x tr
     else raise_persistence ''create'' x tr)"

definition query_failure :: "string \<Rightarrow> string \<Rightarrow> exn \<Rightarrow> exn" where
  "query_failure operation tr x =
    (if has_class not_found_classes x then raise_not_found operation x tr
     else raise_persistence operation x tr)"

definition list_failure :: "string \<Rightarrow> exn \<Rightarrow> exn" where
  "list_failure tr x =
    (if is_value_error x then raise_validation ''list'' x tr else raise_persistence ''list'' x tr)"

definition mutate_failure :: "string \<Rightarrow> string \<Rightarrow> exn \<Rightarrow> exn" where
  "mutate_failure operation tr x =
    (if is_value_error x then raise_validation operation x tr
     else if has_class [WaitingForConflictError] x then raise_conflict operation x tr
     else if has_class not_found_classes x then raise_not_found operation x tr
     else raise_persistence operation x tr)"

section \<open>Publication and health\<close>

definition wf_message :: "waiting_for \<Rightarrow> wf_event \<Rightarrow> bus_message" where
  "wf_message w e =
    \<lparr>bm_topic = ''waiting_for.'' @ wf_event_value (wfe_type e), bm_time = wfe_occurred_at e,
     bm_source = ''waiting_for'',
     bm_payload = [(''waiting_for_id'', JStr (wf_id w)), (''event_id'', JStr (wfe_id e)),
       (''event_type'', JStr (wf_event_value (wfe_type e))), (''status'', JStr (wf_status_value (wf_status w))),
       (''revision'', JInt (wf_revision w))],
     bm_metadata = [(''trace_id'', JStr (wfe_trace_id e)), (''component'', JStr ''waiting_for'')]\<rparr>"

definition publish_failure :: "exn \<Rightarrow> wf_event \<Rightarrow> failure_info" where
  "publish_failure x e =
    \<lparr>fi_code = ''waiting_for.event_bus.publish_failed'', fi_category = DEPENDENCY_FAILURE,
     fi_message = ''Waiting-For event publication failed'', fi_component = ''waiting_for'',
     fi_operation = ''publish'', fi_retryable = True, fi_trace_id = wfe_trace_id e,
     fi_cause_type = exn_name x, fi_details = []\<rparr>"

definition wf_publish :: "bus_mode \<Rightarrow> waiting_for \<Rightarrow> wf_event \<Rightarrow> wf_service \<Rightarrow> wf_service" where
  "wf_publish b w e s =
    (case b of
       Bus_Off \<Rightarrow> s
     | Bus_Accepts \<Rightarrow> s\<lparr>sv_published := sv_published s @ [wf_message w e], sv_bus_failure := None\<rparr>
     | Bus_Raises x \<Rightarrow> s\<lparr>sv_bus_failure := Some (publish_failure x e)\<rparr>)"

datatype health_detail = No_Detail | Store_Detail string | Bus_Detail failure_info

definition wf_health :: "bool \<Rightarrow> wf_service \<Rightarrow> runtime_status \<times> health_detail" where
  "wf_health connection_ok s =
    (case repo_health connection_ok (sv_store s) of
       (OK, _) \<Rightarrow>
         (case sv_bus_failure s of
            Some f \<Rightarrow> (DEGRADED, Bus_Detail f)
          | None \<Rightarrow> (OK, No_Detail))
     | (st, d) \<Rightarrow> (st, case d of None \<Rightarrow> No_Detail | Some m \<Rightarrow> Store_Detail m))"

definition wf_initialize :: "exn option \<Rightarrow> unit wf_call" where
  "wf_initialize io s =
    (case repo_initialize io (sv_store s) of
       (Inl x, st) \<Rightarrow> (Inl (raise_persistence ''initialize'' x []), s\<lparr>sv_store := st\<rparr>)
     | (Inr u, st) \<Rightarrow> (Inr u, s\<lparr>sv_store := st\<rparr>))"

definition wf_close :: "wf_service \<Rightarrow> wf_service" where
  "wf_close s = s\<lparr>sv_store := repo_close (sv_store s)\<rparr>"

section \<open>Operations\<close>

record create_request =
  cr_key :: workspace_key
  cr_subject :: string
  cr_waiting_on :: string
  cr_context :: string
  cr_expected_by :: "datetime option"
  cr_next_review_at :: "datetime option"
  cr_timezone :: string
  cr_linked_task :: "string option"
  cr_linked_reminder :: "string option"
  cr_source :: string
  cr_trace_id :: string
  cr_metadata :: dict
  cr_id :: "string option"

definition create_values :: "wf_env \<Rightarrow> create_request \<Rightarrow> wf_values" where
  "create_values env q =
    \<lparr>wv_id = (case cr_id q of None \<Rightarrow> ''wf_'' @ env_item_uuid env | Some i \<Rightarrow> i),
     wv_key = canonical_workspace (cr_key q), wv_subject = cr_subject q,
     wv_waiting_on = cr_waiting_on q, wv_context = cr_context q, wv_status = WF_OPEN,
     wv_expected_by = cr_expected_by q, wv_next_review_at = cr_next_review_at q,
     wv_timezone = cr_timezone q, wv_linked_task = cr_linked_task q,
     wv_linked_reminder = cr_linked_reminder q, wv_source = cr_source q,
     wv_created_at = Aware (env_now env) 0, wv_updated_at = Aware (env_now env) 0,
     wv_resolved_at = None, wv_cancelled_at = None, wv_resolution_note = [],
     wv_metadata = cr_metadata q, wv_revision = 1\<rparr>"

definition request_trace :: "string \<Rightarrow> workspace_key \<Rightarrow> string" where
  "request_trace tr key = str_or tr (trace_id key)"

text \<open>The body of the \<open>try\<close>: two models, then the insert of both rows.\<close>

definition create_body ::
  "(string \<Rightarrow> bool) \<Rightarrow> wf_env \<Rightarrow> create_request \<Rightarrow> wf_store \<Rightarrow> (exn + waiting_for \<times> wf_event) \<times> wf_store" where
  "create_body zone_ok env q st =
    (case validate_waiting_for zone_ok (create_values env q) of
       Inl x \<Rightarrow> (Inl x, st)
     | Inr w \<Rightarrow>
         (case validate_event
             \<lparr>wfe_id = ''wfe_'' @ env_event_uuid env, wfe_item = wf_id w, wfe_key = wf_key w,
              wfe_sequence = 1, wfe_type = CREATED, wfe_occurred_at = env_now env, wfe_note = [],
              wfe_source = cr_source q, wfe_trace_id = request_trace (cr_trace_id q) (cr_key q),
              wfe_metadata = []\<rparr> of
            Inl x \<Rightarrow> (Inl x, st)
          | Inr e \<Rightarrow> repo_create (env_write_io env) w e st))"

definition wf_create ::
  "(string \<Rightarrow> bool) \<Rightarrow> wf_env \<Rightarrow> create_request \<Rightarrow> (waiting_for \<times> wf_event) wf_call" where
  "wf_create zone_ok env q s =
    (case create_body zone_ok env q (sv_store s) of
       (Inl x, st) \<Rightarrow> (Inl (create_failure (request_trace (cr_trace_id q) (cr_key q)) x), s\<lparr>sv_store := st\<rparr>)
     | (Inr (w, e), st) \<Rightarrow> (Inr (w, e), wf_publish (env_bus env) w e (s\<lparr>sv_store := st\<rparr>)))"

definition wf_get :: "(string \<Rightarrow> bool) \<Rightarrow> wf_env \<Rightarrow> workspace_key \<Rightarrow> string \<Rightarrow> waiting_for wf_call" where
  "wf_get zone_ok env key i s =
    (case repo_get zone_ok (env_read_io env) (env_read_trace env) key i (sv_store s) of
       (Inl x, st) \<Rightarrow> (Inl (query_failure ''get'' (trace_id key) x), s\<lparr>sv_store := st\<rparr>)
     | (Inr w, st) \<Rightarrow> (Inr w, s\<lparr>sv_store := st\<rparr>))"

text \<open>A view is given by its name, as the API passes it; limit and offset are Python ints.\<close>

definition wf_list ::
  "(instant \<Rightarrow> string) \<Rightarrow> (string \<Rightarrow> bool) \<Rightarrow> wf_env \<Rightarrow> (string \<Rightarrow> string) \<Rightarrow> workspace_key \<Rightarrow> string \<Rightarrow>
   int \<Rightarrow> int \<Rightarrow> datetime option \<Rightarrow> waiting_for page wf_call" where
  "wf_list enc zone_ok env tr key view limit offset as_of s =
    (let fail = (\<lambda>x st. (Inl (list_failure (trace_id key) x), s\<lparr>sv_store := st\<rparr>)) in
     case parse_view view of
       None \<Rightarrow> fail (Raise ValueError ''invalid view'') (sv_store s)
     | Some v \<Rightarrow>
         if limit < 1 \<or> limit > 200 \<or> offset < 0
         then fail (Raise ValueError ''invalid pagination'') (sv_store s)
         else
           let at = (case as_of of None \<Rightarrow> Aware (env_now env) 0 | Some d \<Rightarrow> d) in
           if is_naive at
           then fail (Raise ValueError ''as_of must include timezone information'') (sv_store s)
           else (case repo_list enc zone_ok (env_read_io env) tr key v (utc_instant at)
                        (nat limit) (nat offset) (sv_store s) of
                   (Inl x, st) \<Rightarrow> fail x st
                 | (Inr p, st) \<Rightarrow> (Inr p, s\<lparr>sv_store := st\<rparr>)))"

definition wf_list_events ::
  "wf_env \<Rightarrow> (string \<Rightarrow> string) \<Rightarrow> workspace_key \<Rightarrow> string \<Rightarrow> int \<Rightarrow> int \<Rightarrow> wf_event page wf_call" where
  "wf_list_events env tr key i limit offset s =
    (if limit < 1 \<or> limit > 200 \<or> offset < 0
     then (Inl (raise_validation ''events'' (Raise ValueError ''invalid pagination'') (trace_id key)), s)
     else case repo_list_events (env_read_io env) tr key i (nat limit) (nat offset) (sv_store s) of
            (Inl x, st) \<Rightarrow> (Inl (query_failure ''events'' (trace_id key) x), s\<lparr>sv_store := st\<rparr>)
          | (Inr p, st) \<Rightarrow> (Inr p, s\<lparr>sv_store := st\<rparr>))"

definition required_note :: "string \<Rightarrow> string \<Rightarrow> string \<Rightarrow> exn + string" where
  "required_note note operation tr =
    (let n = py_strip note in
     if n = [] then Inl (raise_validation operation (Raise ValueError ''note is required'') tr)
     else if py_len n > 4000
     then Inl (raise_validation operation (Raise ValueError ''note is too long'') tr)
     else Inr n)"

definition require_open :: "waiting_for \<Rightarrow> string \<Rightarrow> string \<Rightarrow> exn + unit" where
  "require_open w operation tr =
    (if wf_status w \<noteq> WF_OPEN
     then Inl (raise_conflict operation (Raise ValueError ''terminal item cannot be mutated'') tr)
     else Inr ())"

text \<open>The arguments the operations share.\<close>

record mutation =
  mu_key :: workspace_key
  mu_id :: string
  mu_expected :: int
  mu_note :: string
  mu_source :: string
  mu_trace :: string

definition mutation_trace :: "mutation \<Rightarrow> string" where
  "mutation_trace m = request_trace (mu_trace m) (mu_key m)"

text \<open>
  \<open>_mutate\<close>: \<open>upd\<close> is the dictionary update the caller passes, \<open>now\<close> the clock reading taken
  here.
\<close>

definition mutate_values :: "instant \<Rightarrow> (wf_values \<Rightarrow> wf_values) \<Rightarrow> waiting_for \<Rightarrow> wf_values" where
  "mutate_values now upd current = (upd (dump_waiting_for current))
     \<lparr>wv_updated_at := Aware now 0, wv_revision := wf_revision current + 1\<rparr>"

definition mutate_body ::
  "(string \<Rightarrow> bool) \<Rightarrow> wf_env \<Rightarrow> instant \<Rightarrow> mutation \<Rightarrow> waiting_for \<Rightarrow> wf_event_type \<Rightarrow> string \<Rightarrow>
   (wf_values \<Rightarrow> wf_values) \<Rightarrow> dict \<Rightarrow> wf_store \<Rightarrow> (exn + waiting_for \<times> wf_event) \<times> wf_store" where
  "mutate_body zone_ok env now m current ty note upd meta st =
    (case validate_waiting_for zone_ok (mutate_values now upd current) of
       Inl x \<Rightarrow> (Inl x, st)
     | Inr w \<Rightarrow>
         (case validate_event
             \<lparr>wfe_id = ''wfe_'' @ env_event_uuid env, wfe_item = wf_id current,
              wfe_key = wf_key current, wfe_sequence = wf_revision w, wfe_type = ty,
              wfe_occurred_at = now, wfe_note = note, wfe_source = mu_source m,
              wfe_trace_id = mutation_trace m, wfe_metadata = meta\<rparr> of
            Inl x \<Rightarrow> (Inl x, st)
          | Inr e \<Rightarrow> repo_mutate zone_ok (env_write_io env) (mu_key m) w e (mu_expected m) st))"

definition wf_mutate ::
  "(string \<Rightarrow> bool) \<Rightarrow> wf_env \<Rightarrow> instant \<Rightarrow> mutation \<Rightarrow> waiting_for \<Rightarrow> string \<Rightarrow> wf_event_type \<Rightarrow> string \<Rightarrow>
   (wf_values \<Rightarrow> wf_values) \<Rightarrow> dict \<Rightarrow> (waiting_for \<times> wf_event) wf_call" where
  "wf_mutate zone_ok env now m current operation ty note upd meta s =
    (if mu_expected m \<noteq> wf_revision current
     then (Inl (raise_conflict operation (Raise ValueError ''revision conflict'') (mutation_trace m)), s)
     else case mutate_body zone_ok env now m current ty note upd meta (sv_store s) of
       (Inl x, st) \<Rightarrow> (Inl (mutate_failure operation (mutation_trace m) x), s\<lparr>sv_store := st\<rparr>)
     | (Inr (w, e), st) \<Rightarrow> (Inr (w, e), wf_publish (env_bus env) w e (s\<lparr>sv_store := st\<rparr>)))"

definition instant_json :: "instant option \<Rightarrow> json" where
  "instant_json t = (case t of None \<Rightarrow> JNull | Some u \<Rightarrow> JStr (isoformat u))"

definition review_metadata :: "waiting_for \<Rightarrow> datetime \<Rightarrow> dict" where
  "review_metadata current d =
     [(''previous_next_review_at'', instant_json (wf_next_review_at current)),
      (''next_review_at'', JStr (datetime_text d))]"

text \<open>What each operation changes in the dumped model.\<close>

definition follow_up_updates :: "datetime option \<Rightarrow> wf_values \<Rightarrow> wf_values" where
  "follow_up_updates review v =
     v\<lparr>wv_next_review_at := (case review of None \<Rightarrow> wv_next_review_at v | Some d \<Rightarrow> Some d)\<rparr>"

definition snooze_updates :: "datetime \<Rightarrow> wf_values \<Rightarrow> wf_values" where
  "snooze_updates d v = v\<lparr>wv_next_review_at := Some d\<rparr>"

definition resolve_updates :: "instant \<Rightarrow> string \<Rightarrow> wf_values \<Rightarrow> wf_values" where
  "resolve_updates now note v = v
     \<lparr>wv_status := WF_RESOLVED, wv_resolved_at := Some (Aware now 0), wv_cancelled_at := None,
      wv_resolution_note := note, wv_next_review_at := None\<rparr>"

definition cancel_updates :: "instant \<Rightarrow> wf_values \<Rightarrow> wf_values" where
  "cancel_updates now v = v
     \<lparr>wv_status := WF_CANCELLED, wv_cancelled_at := Some (Aware now 0), wv_resolved_at := None,
      wv_resolution_note := [], wv_next_review_at := None\<rparr>"

definition reopen_updates :: "datetime option \<Rightarrow> wf_values \<Rightarrow> wf_values" where
  "reopen_updates review v = v
     \<lparr>wv_status := WF_OPEN, wv_resolved_at := None, wv_cancelled_at := None,
      wv_resolution_note := [], wv_next_review_at := review\<rparr>"

text \<open>\<open>await self.get(...)\<close> and what follows it.\<close>

definition with_current ::
  "(string \<Rightarrow> bool) \<Rightarrow> wf_env \<Rightarrow> mutation \<Rightarrow> (waiting_for \<Rightarrow> (waiting_for \<times> wf_event) wf_call) \<Rightarrow>
   (waiting_for \<times> wf_event) wf_call" where
  "with_current zone_ok env m k s =
    (case wf_get zone_ok env (mu_key m) (mu_id m) s of
       (Inl x, s') \<Rightarrow> (Inl x, s')
     | (Inr current, s') \<Rightarrow> k current s')"

definition record_follow_up ::
  "(string \<Rightarrow> bool) \<Rightarrow> wf_env \<Rightarrow> mutation \<Rightarrow> datetime option \<Rightarrow> (waiting_for \<times> wf_event) wf_call" where
  "record_follow_up zone_ok env m review s =
    (case required_note (mu_note m) ''follow_up'' (mutation_trace m) of
       Inl x \<Rightarrow> (Inl x, s)
     | Inr note \<Rightarrow> with_current zone_ok env m (\<lambda>current s.
         case require_open current ''follow_up'' (mutation_trace m) of
           Inl x \<Rightarrow> (Inl x, s)
         | Inr _ \<Rightarrow> wf_mutate zone_ok env (env_now env) m current ''follow_up'' FOLLOWED_UP note
             (follow_up_updates review)
             (case review of None \<Rightarrow> [] | Some d \<Rightarrow> review_metadata current d) s) s)"

definition snooze ::
  "(string \<Rightarrow> bool) \<Rightarrow> wf_env \<Rightarrow> mutation \<Rightarrow> datetime \<Rightarrow> (waiting_for \<times> wf_event) wf_call" where
  "snooze zone_ok env m d s =
    with_current zone_ok env m (\<lambda>current s.
      case require_open current ''snooze'' (mutation_trace m) of
        Inl x \<Rightarrow> (Inl x, s)
      | Inr _ \<Rightarrow> wf_mutate zone_ok env (env_now env) m current ''snooze'' SNOOZED (mu_note m)
          (snooze_updates d) (review_metadata current d) s) s"

definition resolve :: "(string \<Rightarrow> bool) \<Rightarrow> wf_env \<Rightarrow> mutation \<Rightarrow> (waiting_for \<times> wf_event) wf_call" where
  "resolve zone_ok env m s =
    (case required_note (mu_note m) ''resolve'' (mutation_trace m) of
       Inl x \<Rightarrow> (Inl x, s)
     | Inr note \<Rightarrow> with_current zone_ok env m (\<lambda>current s.
         case require_open current ''resolve'' (mutation_trace m) of
           Inl x \<Rightarrow> (Inl x, s)
         | Inr _ \<Rightarrow> wf_mutate zone_ok env (env_later env) m current ''resolve'' RESOLVED note
             (resolve_updates (env_now env) note) [] s) s)"

definition cancel :: "(string \<Rightarrow> bool) \<Rightarrow> wf_env \<Rightarrow> mutation \<Rightarrow> (waiting_for \<times> wf_event) wf_call" where
  "cancel zone_ok env m s =
    (case required_note (mu_note m) ''cancel'' (mutation_trace m) of
       Inl x \<Rightarrow> (Inl x, s)
     | Inr note \<Rightarrow> with_current zone_ok env m (\<lambda>current s.
         case require_open current ''cancel'' (mutation_trace m) of
           Inl x \<Rightarrow> (Inl x, s)
         | Inr _ \<Rightarrow> wf_mutate zone_ok env (env_later env) m current ''cancel'' CANCELLED_EVENT note
             (cancel_updates (env_now env)) [] s) s)"

definition reopen ::
  "(string \<Rightarrow> bool) \<Rightarrow> wf_env \<Rightarrow> mutation \<Rightarrow> datetime option \<Rightarrow> (waiting_for \<times> wf_event) wf_call" where
  "reopen zone_ok env m review s =
    (case required_note (mu_note m) ''reopen'' (mutation_trace m) of
       Inl x \<Rightarrow> (Inl x, s)
     | Inr note \<Rightarrow> with_current zone_ok env m (\<lambda>current s.
         if wf_status current = WF_OPEN
         then (Inl (raise_conflict ''reopen'' (Raise ValueError ''item is already open'')
                 (mutation_trace m)), s)
         else wf_mutate zone_ok env (env_now env) m current ''reopen'' REOPENED note
                (reopen_updates review) [] s) s)"

section \<open>A failed call changes nothing\<close>

text \<open>What the service has committed and announced; the error texts of health are not part of it.\<close>

definition wf_data :: "wf_service \<Rightarrow> wf_row list \<times> wf_event_row list \<times> bus_message list \<times> failure_info option" where
  "wf_data s = (st_items (sv_store s), st_events (sv_store s), sv_published s, sv_bus_failure s)"

lemma repo_get_data:
  "repo_get zone_ok io tr key i st = (res, st') \<Longrightarrow> st_items st' = st_items st \<and> st_events st' = st_events st"
  by (auto simp: repo_get_def persistence_error_def split: option.splits sum.splits)

lemma wf_get_data: "wf_get zone_ok env key i s = (res, s') \<Longrightarrow> wf_data s' = wf_data s"
  using repo_get_data by (fastforce simp: wf_get_def wf_data_def split: prod.splits sum.splits)

lemma mutate_body_failure:
  "mutate_body zone_ok env now m current ty note upd meta st = (Inl x, st') \<Longrightarrow>
   st_items st' = st_items st \<and> st_events st' = st_events st"
  using repo_mutate_failure by (fastforce simp: mutate_body_def split: sum.splits)

lemma create_body_failure:
  "create_body zone_ok env q st = (Inl x, st') \<Longrightarrow> st_items st' = st_items st \<and> st_events st' = st_events st"
  using repo_create_failure by (fastforce simp: create_body_def split: sum.splits)

lemma wf_mutate_failure:
  "wf_mutate zone_ok env now m current operation ty note upd meta s = (Inl x, s') \<Longrightarrow> wf_data s' = wf_data s"
  using mutate_body_failure
  by (fastforce simp: wf_mutate_def wf_data_def split: if_splits prod.splits sum.splits)

lemma with_current_failure:
  assumes "with_current zone_ok env m k s = (Inl x, s')"
    and "\<And>current t. k current t = (Inl x, s') \<Longrightarrow> wf_data s' = wf_data t"
  shows "wf_data s' = wf_data s"
proof -
  obtain res t where get: "wf_get zone_ok env (mu_key m) (mu_id m) s = (res, t)" by fastforce
  with assms wf_get_data [OF get] show ?thesis
    by (cases res) (auto simp: with_current_def)
qed

lemmas operation_defs = record_follow_up_def snooze_def resolve_def cancel_def reopen_def

lemma wf_create_failure: "wf_create zone_ok env q s = (Inl x, s') \<Longrightarrow> wf_data s' = wf_data s"
  using create_body_failure by (fastforce simp: wf_create_def wf_data_def split: prod.splits sum.splits)

lemma snooze_failure: "snooze zone_ok env m d s = (Inl x, s') \<Longrightarrow> wf_data s' = wf_data s"
  unfolding snooze_def
  by (erule with_current_failure) (auto simp: require_open_def dest: wf_mutate_failure split: if_splits)

lemma record_follow_up_failure: "record_follow_up zone_ok env m review s = (Inl x, s') \<Longrightarrow> wf_data s' = wf_data s"
  unfolding record_follow_up_def
  by (cases "required_note (mu_note m) ''follow_up'' (mutation_trace m)")
    (auto elim!: with_current_failure simp: require_open_def dest: wf_mutate_failure split: if_splits)

lemma resolve_failure: "resolve zone_ok env m s = (Inl x, s') \<Longrightarrow> wf_data s' = wf_data s"
  unfolding resolve_def
  by (cases "required_note (mu_note m) ''resolve'' (mutation_trace m)")
    (auto elim!: with_current_failure simp: require_open_def dest: wf_mutate_failure split: if_splits)

lemma cancel_failure: "cancel zone_ok env m s = (Inl x, s') \<Longrightarrow> wf_data s' = wf_data s"
  unfolding cancel_def
  by (cases "required_note (mu_note m) ''cancel'' (mutation_trace m)")
    (auto elim!: with_current_failure simp: require_open_def dest: wf_mutate_failure split: if_splits)

lemma reopen_failure: "reopen zone_ok env m review s = (Inl x, s') \<Longrightarrow> wf_data s' = wf_data s"
  unfolding reopen_def
  by (cases "required_note (mu_note m) ''reopen'' (mutation_trace m)")
    (auto elim!: with_current_failure dest: wf_mutate_failure split: if_splits)

lemmas call_failures = wf_create_failure snooze_failure record_follow_up_failure resolve_failure
  cancel_failure reopen_failure

section \<open>What a successful call commits\<close>

lemma sv_store_publish [simp]: "sv_store (wf_publish b w e s) = sv_store s"
  by (simp add: wf_publish_def split: bus_mode.split)

lemma item_of_row_row_item: "item_of_row zone_ok tr r = Inr w \<Longrightarrow> store_ok zone_ok s \<Longrightarrow> r \<in> set (st_items s) \<Longrightarrow>
   w = row_item tr r"
  using store_ok_row(1) [of zone_ok s r tr] by simp

lemma repo_get_row:
  assumes "store_ok zone_ok st" and "scoped_row st (key_identity key) i = Inr r"
  shows "repo_get zone_ok None tr key i st = (Inr (row_item tr r), clear_error st)"
proof -
  from assms have "r \<in> set (st_items st)"
    using scoped_row_Inr [OF store_ok_keyed] row_of_Some by metis
  note item = store_ok_row(1) [OF assms(1) this, of tr]
  show ?thesis
    unfolding repo_get_def option.case assms(2) sum.case item by (rule refl)
qed

lemma wf_get_success:
  assumes ok: "store_ok zone_ok (sv_store s)" and run: "wf_get zone_ok env key i s = (Inr w, s')"
  shows "\<exists>r. row_of wr_id i (st_items (sv_store s)) = Some r \<and> wr_identity r = key_identity key \<and>
    w = row_item (env_read_trace env) r \<and> s' = s\<lparr>sv_store := clear_error (sv_store s)\<rparr>"
proof -
  let ?st = "sv_store s"
  from run obtain st where get: "repo_get zone_ok (env_read_io env) (env_read_trace env) key i ?st = (Inr w, st)"
    and s': "s' = s\<lparr>sv_store := st\<rparr>"
    by (auto simp: wf_get_def split: prod.splits sum.splits)
  from get have io: "env_read_io env = None"
    by (auto simp: repo_get_def persistence_error_def split: option.splits)
  from get io obtain r where r: "scoped_row ?st (key_identity key) i = Inr r"
    by (auto simp: repo_get_def persistence_error_def split: sum.splits)
  then have "row_of wr_id i (st_items ?st) = Some r" "wr_identity r = key_identity key"
    using scoped_row_Inr [OF store_ok_keyed [OF ok]] by simp_all
  moreover from get io repo_get_row [OF ok r] have "w = row_item (env_read_trace env) r" "st = clear_error ?st"
    by simp_all
  ultimately show ?thesis using s' by blast
qed

lemma wf_get_total:
  assumes ok: "store_ok zone_ok (sv_store s)" and io: "env_read_io env = None"
  shows "wf_get zone_ok env key i s =
    (case row_of wr_id i (st_items (sv_store s)) of
       None \<Rightarrow> (Inl (raise_not_found ''get'' (Raise WaitingForNotFoundError ''Waiting-For item not found'')
                (trace_id key)), s)
     | Some r \<Rightarrow>
         if wr_identity r = key_identity key
         then (Inr (row_item (env_read_trace env) r), s\<lparr>sv_store := clear_error (sv_store s)\<rparr>)
         else (Inl (raise_not_found ''get'' (Raise WaitingForWorkspaceMismatchError
                 ''Waiting-For item belongs to another workspace'') (trace_id key)), s))"
proof (cases "row_of wr_id i (st_items (sv_store s))")
  case None
  then show ?thesis
    by (simp add: wf_get_def repo_get_def io scoped_row_def find_scoped [OF store_ok_keyed [OF ok]]
        query_failure_def not_found_classes_def)
next
  case (Some r)
  show ?thesis
  proof (cases "wr_identity r = key_identity key")
    case True
    with Some have "scoped_row (sv_store s) (key_identity key) i = Inr r"
      by (simp add: scoped_row_Inr [OF store_ok_keyed [OF ok]])
    from repo_get_row [OF ok this] Some True io show ?thesis by (simp add: wf_get_def)
  next
    case False
    with Some show ?thesis
      by (simp add: wf_get_def repo_get_def io scoped_row_def find_scoped [OF store_ok_keyed [OF ok]]
          query_failure_def not_found_classes_def)
  qed
qed

lemma with_current_success:
  assumes "store_ok zone_ok (sv_store s)" and "with_current zone_ok env m k s = (Inr y, s')"
  obtains r where "row_of wr_id (mu_id m) (st_items (sv_store s)) = Some r"
    "wr_identity r = key_identity (mu_key m)"
    "k (row_item (env_read_trace env) r) (s\<lparr>sv_store := clear_error (sv_store s)\<rparr>) = (Inr y, s')"
proof -
  obtain res t where get: "wf_get zone_ok env (mu_key m) (mu_id m) s = (res, t)" by fastforce
  with assms(2) obtain w where w: "res = Inr w" and k: "k w t = (Inr y, s')"
    by (cases res) (auto simp: with_current_def)
  from wf_get_success [OF assms(1) get [unfolded w]] k show ?thesis by (auto intro: that)
qed

text \<open>
  A commit: the row of one item of the caller's workspace is replaced by a valid successor, one
  event of the given type is appended, and nothing else in the tables changes.
\<close>

definition commits ::
  "(string \<Rightarrow> bool) \<Rightarrow> mutation \<Rightarrow> wf_event_type \<Rightarrow> wf_row \<Rightarrow> waiting_for \<Rightarrow> wf_event \<Rightarrow> wf_store \<Rightarrow> wf_store \<Rightarrow> bool"
  where
  "commits zone_ok m ty r w e st st' =
    (row_of wr_id (mu_id m) (st_items st) = Some r \<and> wr_identity r = key_identity (mu_key m) \<and>
     mu_expected m = wr_revision r \<and> wf_id w = mu_id m \<and> key_identity (wf_key w) = key_identity (mu_key m) \<and>
     wf_revision w = wr_revision r + 1 \<and> valid_waiting_for zone_ok w \<and> wfe_type e = ty \<and>
     wfe_item e = mu_id m \<and> key_identity (wfe_key e) = key_identity (mu_key m) \<and>
     wfe_sequence e = wf_revision w \<and> \<not> event_collides (event_values e) (st_events st) \<and>
     st' = mutated w e st)"

lemma validate_event_Inr: "validate_event e = Inr e' \<Longrightarrow>
   e' = e\<lparr>wfe_note := py_strip (wfe_note e), wfe_source := py_strip (wfe_source e)\<rparr>"
  by (auto simp: validate_event_def split: if_splits)

lemma mutated_clear_error [simp]: "mutated w e (clear_error s) = mutated w e s"
  by (simp add: mutated_def clear_error_def)

text \<open>None of the five updates touches the identifier or the workspace.\<close>

definition keeps_identity :: "(wf_values \<Rightarrow> wf_values) \<Rightarrow> bool" where
  "keeps_identity upd = (\<forall>v. wv_id (upd v) = wv_id v \<and> wv_key (upd v) = wv_key v)"

lemma updates_keep_identity [simp]:
  "keeps_identity (follow_up_updates review)" "keeps_identity (snooze_updates d)"
  "keeps_identity (resolve_updates now note)" "keeps_identity (cancel_updates now)"
  "keeps_identity (reopen_updates review)"
  by (simp_all add: keeps_identity_def follow_up_updates_def snooze_updates_def resolve_updates_def
      cancel_updates_def reopen_updates_def)

lemma wf_mutate_success:
  assumes ok: "store_ok zone_ok (sv_store s)" and upd: "keeps_identity upd"
    and row: "row_of wr_id (mu_id m) (st_items (sv_store s)) = Some r" "wr_identity r = key_identity (mu_key m)"
    and run: "wf_mutate zone_ok env now m (row_item tr r) operation ty note upd meta
        (s\<lparr>sv_store := clear_error (sv_store s)\<rparr>) = (Inr (w, e), s')"
  shows "commits zone_ok m ty r w e (sv_store s) (sv_store s')"
    and "w = normalised (mutate_values now upd (row_item tr r))"
    and "wfe_note e = py_strip note \<and> wfe_occurred_at e = now \<and> wfe_trace_id e = mutation_trace m"
    and "s' = wf_publish (env_bus env) w e (s\<lparr>sv_store := mutated w e (sv_store s)\<rparr>)"
proof -
  let ?c = "row_item tr r" and ?st = "clear_error (sv_store s)"
  from run obtain st where n: "mu_expected m = wr_revision r"
    and body: "mutate_body zone_ok env now m ?c ty note upd meta ?st = (Inr (w, e), st)"
    and s': "s' = wf_publish (env_bus env) w e (s\<lparr>sv_store := st\<rparr>)"
    by (auto simp: wf_mutate_def row_item_def split: if_splits prod.splits sum.splits)
  from body obtain w' e' where w': "validate_waiting_for zone_ok (mutate_values now upd ?c) = Inr w'"
    and e': "validate_event \<lparr>wfe_id = ''wfe_'' @ env_event_uuid env, wfe_item = wf_id ?c,
              wfe_key = wf_key ?c, wfe_sequence = wf_revision w', wfe_type = ty,
              wfe_occurred_at = now, wfe_note = note, wfe_source = mu_source m,
              wfe_trace_id = mutation_trace m, wfe_metadata = meta\<rparr> = Inr e'"
    and put: "repo_mutate zone_ok (env_write_io env) (mu_key m) w' e' (mu_expected m) ?st = (Inr (w, e), st)"
    by (auto simp: mutate_body_def split: sum.splits)
  have "keyed wr_id (st_items ?st)" using store_ok_keyed [OF ok] by simp
  from this put obtain
    *: "w = w'" "e = e'" "wf_revision w = mu_expected m + 1" "key_identity (wf_key w) = key_identity (mu_key m)"
      "key_identity (wfe_key e) = key_identity (mu_key m)" "wfe_item e = wf_id w" "wfe_sequence e = wf_revision w"
      "\<not> event_collides (event_values e) (st_events ?st)" "st = mutated w e ?st"
    by (rule repo_mutate_success) simp
  from w' * have norm: "w = normalised (mutate_values now upd ?c)" and valid: "valid_waiting_for zone_ok w"
    using validated_is_valid by (auto simp: validate_waiting_for_Inr)
  have id: "wf_id w = mu_id m"
    using row_of_Some [OF row(1)] upd
    by (simp add: norm normalised_def mutate_values_def keeps_identity_def dump_waiting_for_def row_item_def)
  from validate_event_Inr [OF e'] * have ev: "wfe_type e = ty" "wfe_note e = py_strip note"
      "wfe_occurred_at e = now" "wfe_trace_id e = mutation_trace m"
    by simp_all
  show "commits zone_ok m ty r w e (sv_store s) (sv_store s')"
    unfolding commits_def using row n * valid id ev s' by simp
  show "w = normalised (mutate_values now upd ?c)" by (rule norm)
  show "wfe_note e = py_strip note \<and> wfe_occurred_at e = now \<and> wfe_trace_id e = mutation_trace m"
    using ev by simp
  show "s' = wf_publish (env_bus env) w e (s\<lparr>sv_store := mutated w e (sv_store s)\<rparr>)"
    using s' * by simp
qed

section \<open>The lifecycle\<close>

text \<open>The states of an item and the events between them; a history is a run from nothing.\<close>

inductive life_step :: "wf_status \<Rightarrow> wf_event_type \<Rightarrow> wf_status \<Rightarrow> bool" where
  follow_up: "life_step WF_OPEN FOLLOWED_UP WF_OPEN"
| snooze: "life_step WF_OPEN SNOOZED WF_OPEN"
| resolve: "life_step WF_OPEN RESOLVED WF_RESOLVED"
| cancel: "life_step WF_OPEN CANCELLED_EVENT WF_CANCELLED"
| reopen: "st \<noteq> WF_OPEN \<Longrightarrow> life_step st REOPENED WF_OPEN"

inductive_simps life_step_open [simp]: "life_step WF_OPEN ty st"
inductive_simps life_step_reopened [simp]: "life_step st REOPENED st'"
inductive_cases life_stepE: "life_step st ty st'"

inductive lifecycle :: "wf_event_type list \<Rightarrow> wf_status \<Rightarrow> bool" where
  created: "lifecycle [CREATED] WF_OPEN"
| moved: "lifecycle tys st \<Longrightarrow> life_step st ty st' \<Longrightarrow> lifecycle (tys @ [ty]) st'"

text \<open>A history determines the state it leads to.\<close>

lemma life_step_deterministic: "life_step st ty a \<Longrightarrow> life_step st ty b \<Longrightarrow> a = b"
  by (auto elim!: life_stepE)

lemma lifecycle_nonempty: "lifecycle tys st \<Longrightarrow> tys \<noteq> []"
  by (induction rule: lifecycle.induct) auto

lemma lifecycle_deterministic: "lifecycle tys a \<Longrightarrow> lifecycle tys b \<Longrightarrow> a = b"
proof (induction arbitrary: b rule: lifecycle.induct)
  case created
  then show ?case
    by (cases rule: lifecycle.cases) (auto dest: lifecycle_nonempty)
next
  case (moved tys st ty st')
  from moved.prems moved.hyps lifecycle_nonempty obtain c where "lifecycle tys c" "life_step c ty b"
    by (auto elim: lifecycle.cases)
  with moved.IH [of c] moved.hyps(2) show ?case by (auto intro: life_step_deterministic)
qed

definition commits_step ::
  "(string \<Rightarrow> bool) \<Rightarrow> wf_env \<Rightarrow> mutation \<Rightarrow> wf_event_type \<Rightarrow> waiting_for \<Rightarrow> wf_event \<Rightarrow> wf_service \<Rightarrow> wf_service \<Rightarrow> bool"
  where
  "commits_step zone_ok env m ty w e s s' =
    ((\<exists>r. commits zone_ok m ty r w e (sv_store s) (sv_store s') \<and> life_step (wr_status r) ty (wf_status w)) \<and>
     s' = wf_publish (env_bus env) w e (s\<lparr>sv_store := mutated w e (sv_store s)\<rparr>))"

lemma row_item_status [simp]: "wf_status (row_item tr r) = wr_status r"
  by (simp add: row_item_def)

lemma dump_status [simp]: "wv_status (dump_waiting_for w) = wf_status w"
  by (simp add: dump_waiting_for_def)

lemma commits_stepI:
  assumes "store_ok zone_ok (sv_store s)" "keeps_identity upd"
    "row_of wr_id (mu_id m) (st_items (sv_store s)) = Some r" "wr_identity r = key_identity (mu_key m)"
    "wf_mutate zone_ok env now m (row_item tr r) operation ty note upd meta
        (s\<lparr>sv_store := clear_error (sv_store s)\<rparr>) = (Inr (w, e), s')"
    and life: "life_step (wr_status r) ty (wv_status (upd (dump_waiting_for (row_item tr r))))"
  shows "commits_step zone_ok env m ty w e s s'"
proof -
  have "w = normalised (mutate_values now upd (row_item tr r))"
    by (rule wf_mutate_success(2) [OF assms(1-5)])
  then have "wf_status w = wv_status (upd (dump_waiting_for (row_item tr r)))"
    by (simp add: normalised_def mutate_values_def)
  with wf_mutate_success(1,4) [OF assms(1-5)] life show ?thesis
    unfolding commits_step_def by auto
qed

lemmas update_defs = follow_up_updates_def snooze_updates_def resolve_updates_def cancel_updates_def
  reopen_updates_def

text \<open>
  The shape of an operation: read the item, check a guard, mutate; and the shape of the four that
  first ask for a note.
\<close>

lemma guarded_success:
  assumes ok: "store_ok zone_ok (sv_store s)" and upd: "keeps_identity upd"
    and run: "with_current zone_ok env m k s = (Inr (w, e), s')"
    and guard: "\<And>current t y t'. k current t = (Inr y, t') \<Longrightarrow> guard current \<and>
        wf_mutate zone_ok env now m current operation ty note upd (meta current) t = (Inr y, t')"
    and life: "\<And>current. guard current \<Longrightarrow> life_step (wf_status current) ty (wv_status (upd (dump_waiting_for current)))"
  shows "commits_step zone_ok env m ty w e s s'"
  using run
proof (rule with_current_success [OF ok])
  fix r
  assume row: "row_of wr_id (mu_id m) (st_items (sv_store s)) = Some r" "wr_identity r = key_identity (mu_key m)"
    and k: "k (row_item (env_read_trace env) r) (s\<lparr>sv_store := clear_error (sv_store s)\<rparr>) = (Inr (w, e), s')"
  from guard [OF k] life [of "row_item (env_read_trace env) r"] show ?thesis
    by (auto intro!: commits_stepI [OF ok upd row])
qed

lemma require_open_case: "(case require_open current op tr of Inl x \<Rightarrow> (Inl x, t) | Inr _ \<Rightarrow> z) = (Inr y, t') \<Longrightarrow>
   wf_status current = WF_OPEN \<and> z = (Inr y, t')"
  by (auto simp: require_open_def split: if_splits)

lemma required_note_case: "(case required_note s op tr of Inl x \<Rightarrow> (Inl x, t) | Inr n \<Rightarrow> f n) = (Inr y, t') \<Longrightarrow>
   f (py_strip s) = (Inr y, t') \<and> py_strip s \<noteq> [] \<and> py_len (py_strip s) \<le> 4000"
  by (auto simp: required_note_def Let_def split: if_splits)

lemma snooze_success:
  assumes ok: "store_ok zone_ok (sv_store s)" and run: "snooze zone_ok env m d s = (Inr (w, e), s')"
  shows "commits_step zone_ok env m SNOOZED w e s s'"
  by (rule guarded_success [OF ok updates_keep_identity(2) run [unfolded snooze_def],
        where guard = "\<lambda>c. wf_status c = WF_OPEN"])
    (erule require_open_case, simp add: update_defs)

lemma record_follow_up_success:
  assumes ok: "store_ok zone_ok (sv_store s)" and run: "record_follow_up zone_ok env m review s = (Inr (w, e), s')"
  shows "commits_step zone_ok env m FOLLOWED_UP w e s s'"
  by (rule guarded_success [OF ok updates_keep_identity(1)
        conjunct1 [OF required_note_case [OF run [unfolded record_follow_up_def]]],
        where guard = "\<lambda>c. wf_status c = WF_OPEN"])
    (erule require_open_case, simp add: update_defs)

lemma resolve_success:
  assumes ok: "store_ok zone_ok (sv_store s)" and run: "resolve zone_ok env m s = (Inr (w, e), s')"
  shows "commits_step zone_ok env m RESOLVED w e s s'"
  by (rule guarded_success [OF ok updates_keep_identity(3)
        conjunct1 [OF required_note_case [OF run [unfolded resolve_def]]],
        where guard = "\<lambda>c. wf_status c = WF_OPEN"])
    (erule require_open_case, simp add: update_defs)

lemma cancel_success:
  assumes ok: "store_ok zone_ok (sv_store s)" and run: "cancel zone_ok env m s = (Inr (w, e), s')"
  shows "commits_step zone_ok env m CANCELLED_EVENT w e s s'"
  by (rule guarded_success [OF ok updates_keep_identity(4)
        conjunct1 [OF required_note_case [OF run [unfolded cancel_def]]],
        where guard = "\<lambda>c. wf_status c = WF_OPEN"])
    (erule require_open_case, simp add: update_defs)

lemma reopen_success:
  assumes ok: "store_ok zone_ok (sv_store s)" and run: "reopen zone_ok env m review s = (Inr (w, e), s')"
  shows "commits_step zone_ok env m REOPENED w e s s'"
  by (rule guarded_success [OF ok updates_keep_identity(5)
        conjunct1 [OF required_note_case [OF run [unfolded reopen_def]]],
        where guard = "\<lambda>c. wf_status c \<noteq> WF_OPEN"])
    (simp split: if_splits, simp add: update_defs)

text \<open>What a resolution makes of a valid open item.\<close>

lemma validate_resolved:
  assumes "valid_waiting_for zone_ok w" and "wf_created_at w \<le> later" and "py_len text \<le> 4000"
    and "py_strip text = text"
  shows "validate_waiting_for zone_ok (mutate_values later (resolve_updates now text) w) =
    Inr (w\<lparr>wf_status := WF_RESOLVED, wf_resolved_at := Some now, wf_cancelled_at := None,
           wf_resolution_note := text, wf_next_review_at := None,
           wf_updated_at := later, wf_revision := wf_revision w + 1\<rparr>)"
proof -
  let ?v = "mutate_values later (resolve_updates now text) w"
  let ?w = "w\<lparr>wf_status := WF_RESOLVED, wf_resolved_at := Some now, wf_cancelled_at := None,
           wf_resolution_note := text, wf_next_review_at := None,
           wf_updated_at := later, wf_revision := wf_revision w + 1\<rparr>"
  from assms(1) have f: "fields_ok zone_ok (dump_waiting_for w)" and n: "normalised (dump_waiting_for w) = w"
    by (simp_all add: valid_iff)
  have "fields_ok zone_ok ?v"
    using f assms(3) by (simp add: fields_ok_def mutate_values_def resolve_updates_def dump_waiting_for_def opt_aware_def)
  moreover have "normalised ?v = (normalised (dump_waiting_for w))\<lparr>wf_status := WF_RESOLVED,
      wf_resolved_at := Some now, wf_cancelled_at := None, wf_resolution_note := text,
      wf_next_review_at := None, wf_updated_at := later, wf_revision := wf_revision w + 1\<rparr>"
    using assms(4) by (simp add: normalised_def mutate_values_def resolve_updates_def dump_waiting_for_def)
  moreover have "state_ok ?w" using assms(2) by (simp add: state_ok_def)
  ultimately show ?thesis by (simp add: validate_waiting_for_Inr n)
qed

lemma valid_row_item:
  assumes "store_ok zone_ok st" and "r \<in> set (st_items st)"
  shows "valid_waiting_for zone_ok (row_item tr r)"
  using store_ok_row(1) [OF assms, of tr] validated_is_valid by (simp add: item_of_row_def)

section \<open>The invariant of the service\<close>

definition event_types :: "wf_store \<Rightarrow> string \<Rightarrow> wf_event_type list" where
  "event_types st i = map er_type (history st i)"

definition wf_service_ok :: "(string \<Rightarrow> bool) \<Rightarrow> wf_service \<Rightarrow> bool" where
  "wf_service_ok zone_ok s =
    (store_ok zone_ok (sv_store s) \<and>
     (\<forall>r \<in> set (st_items (sv_store s)). lifecycle (event_types (sv_store s) (wr_id r)) (wr_status r)))"

lemma wf_service_ok_initial [wf_rules]: "wf_service_ok zone_ok initial_service"
  using store_ok_empty by (simp add: wf_service_ok_def initial_service_def) (simp add: empty_store_def)

lemma wf_service_ok_frame:
  assumes "st_items (sv_store s') = st_items (sv_store s)" "st_events (sv_store s') = st_events (sv_store s)"
  shows "wf_service_ok zone_ok s' = wf_service_ok zone_ok s"
  unfolding wf_service_ok_def event_types_def history_def store_ok_frame [OF assms] assms by (rule refl)

lemma wf_data_ok: "wf_data s' = wf_data s \<Longrightarrow> wf_service_ok zone_ok s' = wf_service_ok zone_ok s"
  by (rule wf_service_ok_frame) (simp_all add: wf_data_def)

text \<open>A commit keeps the store's invariant.\<close>

lemma event_types_mutated: "event_types (mutated w e st) i =
    event_types st i @ (if wfe_item e = i then [wfe_type e] else [])"
  by (simp add: event_types_def mutated_def)

lemma commits_step_ok:
  assumes ok: "wf_service_ok zone_ok s" and step: "commits_step zone_ok env m ty w e s s'"
  shows "wf_service_ok zone_ok s'"
proof -
  let ?st = "sv_store s"
  from step obtain r where c: "commits zone_ok m ty r w e ?st (sv_store s')"
    and life: "life_step (wr_status r) ty (wf_status w)"
    by (auto simp: commits_step_def)
  from c have row: "row_of wr_id (mu_id m) (st_items ?st) = Some r" and id: "wf_id w = mu_id m"
    "wfe_item e = mu_id m" "wfe_type e = ty"
    and fresh: "\<not> event_collides (event_values e) (st_events ?st)" and st': "sv_store s' = mutated w e ?st"
    and valid: "valid_waiting_for zone_ok w"
    by (simp_all add: commits_def)
  have store: "store_ok zone_ok ?st" using ok by (simp add: wf_service_ok_def)
  have "store_ok zone_ok (sv_store s')"
    unfolding st' using store c
    by (intro store_ok_mutated) (auto simp: commits_def)
  moreover have "lifecycle (event_types (sv_store s') (wr_id x)) (wr_status x)"
    if "x \<in> set (st_items (sv_store s'))" for x
  proof (cases "wr_id x = mu_id m")
    case True
    with that id have "x = item_values w"
      by (auto simp: st' mutated_def set_update_where split: if_splits)
    moreover have "lifecycle (event_types ?st (mu_id m)) (wr_status r)"
      using ok row_of_Some [OF row] by (auto simp: wf_service_ok_def)
    ultimately show ?thesis
      using id life by (auto simp: st' event_types_mutated intro: lifecycle.moved)
  next
    case False
    with that id have "x \<in> set (st_items ?st)"
      by (auto simp: st' mutated_def set_update_where split: if_splits)
    with ok False id show ?thesis by (simp add: wf_service_ok_def st' event_types_mutated)
  qed
  ultimately show ?thesis by (simp add: wf_service_ok_def)
qed

lemma wf_create_success:
  assumes "wf_create zone_ok env q s = (Inr (w, e), s')"
  shows "validate_waiting_for zone_ok (create_values env q) = Inr w"
    and "wfe_type e = CREATED \<and> wfe_item e = wf_id w \<and> wfe_sequence e = 1 \<and> key_identity (wfe_key e) = key_identity (wf_key w)"
    and "repo_create (env_write_io env) w e (sv_store s) = (Inr (w, e), sv_store s')"
    and "s' = wf_publish (env_bus env) w e (s\<lparr>sv_store := sv_store s'\<rparr>)"
proof -
  from assms obtain st where body: "create_body zone_ok env q (sv_store s) = (Inr (w, e), st)"
    and s': "s' = wf_publish (env_bus env) w e (s\<lparr>sv_store := st\<rparr>)"
    by (auto simp: wf_create_def split: prod.splits sum.splits)
  from body obtain w' e' where w': "validate_waiting_for zone_ok (create_values env q) = Inr w'"
    and put: "repo_create (env_write_io env) w' e' (sv_store s) = (Inr (w, e), st)"
    by (auto simp: create_body_def split: sum.splits)
  from repo_create_success [OF put] have "w = w'" "e = e'"
    "wfe_type e = CREATED \<and> wfe_item e = wf_id w \<and> wfe_sequence e = 1 \<and>
     key_identity (wfe_key e) = key_identity (wf_key w)"
    by simp_all
  with w' put s' show "validate_waiting_for zone_ok (create_values env q) = Inr w"
    and "wfe_type e = CREATED \<and> wfe_item e = wf_id w \<and> wfe_sequence e = 1 \<and> key_identity (wfe_key e) = key_identity (wf_key w)"
    and "repo_create (env_write_io env) w e (sv_store s) = (Inr (w, e), sv_store s')"
    and "s' = wf_publish (env_bus env) w e (s\<lparr>sv_store := sv_store s'\<rparr>)"
    by simp_all
qed

lemma wf_create_ok:
  assumes ok: "wf_service_ok zone_ok s" and run: "wf_create zone_ok env q s = (Inr (w, e), s')"
  shows "wf_service_ok zone_ok s'"
proof -
  let ?st = "sv_store s" and ?st' = "sv_store s'"
  note facts = wf_create_success [OF run]
  have valid: "valid_waiting_for zone_ok w" by (rule validated_is_valid [OF facts(1)])
  from facts(1) have status: "wf_status w = WF_OPEN"
    by (simp add: validate_waiting_for_Inr normalised_def create_values_def)
  have store: "store_ok zone_ok ?st" using ok by (simp add: wf_service_ok_def)
  have store': "store_ok zone_ok ?st'" by (rule repo_create_ok [OF store valid facts(3)])
  from repo_create_success [OF facts(3)] have new: "row_of wr_id (wf_id w) (st_items ?st) = None"
    and st': "?st' = clear_error (?st\<lparr>st_items := st_items ?st @ [item_values w],
        st_events := st_events ?st @ [event_values e]\<rparr>)"
    by simp_all
  have none: "history ?st (wf_id w) = []" by (rule history_of_unknown [OF store new])
  have "lifecycle (event_types ?st' (wr_id x)) (wr_status x)" if "x \<in> set (st_items ?st')" for x
  proof (cases "x = item_values w")
    case True
    with facts(2) none status show ?thesis
      by (simp add: st' event_types_def lifecycle.created)
  next
    case False
    with that have x: "x \<in> set (st_items ?st)" by (auto simp: st')
    with new have "wr_id x \<noteq> wf_id w" by (force simp: row_of_None)
    with ok x facts(2) show ?thesis by (simp add: wf_service_ok_def st' event_types_def)
  qed
  with store' show ?thesis by (simp add: wf_service_ok_def)
qed

section \<open>Runs of the service\<close>

datatype wf_request =
    Initialize_Call "exn option"
  | Close_Call
  | Create_Call wf_env create_request
  | Get_Call wf_env workspace_key string
  | List_Call wf_env "string \<Rightarrow> string" workspace_key string int int "datetime option"
  | Events_Call wf_env "string \<Rightarrow> string" workspace_key string int int
  | Follow_Up_Call wf_env mutation "datetime option"
  | Snooze_Call wf_env mutation datetime
  | Resolve_Call wf_env mutation
  | Cancel_Call wf_env mutation
  | Reopen_Call wf_env mutation "datetime option"

fun wf_run :: "(instant \<Rightarrow> string) \<Rightarrow> (string \<Rightarrow> bool) \<Rightarrow> wf_request \<Rightarrow> wf_service \<Rightarrow> wf_service" where
  "wf_run enc zone_ok (Initialize_Call io) s = snd (wf_initialize io s)"
| "wf_run enc zone_ok Close_Call s = wf_close s"
| "wf_run enc zone_ok (Create_Call env q) s = snd (wf_create zone_ok env q s)"
| "wf_run enc zone_ok (Get_Call env key i) s = snd (wf_get zone_ok env key i s)"
| "wf_run enc zone_ok (List_Call env tr key v l k at) s = snd (wf_list enc zone_ok env tr key v l k at s)"
| "wf_run enc zone_ok (Events_Call env tr key i l k) s = snd (wf_list_events env tr key i l k s)"
| "wf_run enc zone_ok (Follow_Up_Call env m review) s = snd (record_follow_up zone_ok env m review s)"
| "wf_run enc zone_ok (Snooze_Call env m d) s = snd (snooze zone_ok env m d s)"
| "wf_run enc zone_ok (Resolve_Call env m) s = snd (resolve zone_ok env m s)"
| "wf_run enc zone_ok (Cancel_Call env m) s = snd (cancel zone_ok env m s)"
| "wf_run enc zone_ok (Reopen_Call env m review) s = snd (reopen zone_ok env m review s)"

fun request_key :: "wf_request \<Rightarrow> workspace_key option" where
  "request_key (Create_Call env q) = Some (cr_key q)"
| "request_key (Get_Call env key i) = Some key"
| "request_key (List_Call env tr key v l k at) = Some key"
| "request_key (Events_Call env tr key i l k) = Some key"
| "request_key (Follow_Up_Call env m review) = Some (mu_key m)"
| "request_key (Snooze_Call env m d) = Some (mu_key m)"
| "request_key (Resolve_Call env m) = Some (mu_key m)"
| "request_key (Cancel_Call env m) = Some (mu_key m)"
| "request_key (Reopen_Call env m review) = Some (mu_key m)"
| "request_key r = None"

text \<open>A request either leaves the data alone, creates an item, or commits to one.\<close>

lemma repo_list_data:
  "repo_list enc zone_ok io tr key v now l k st = (res, st') \<Longrightarrow> st_items st' = st_items st \<and> st_events st' = st_events st"
  by (auto simp: repo_list_def Let_def persistence_error_def split: option.splits sum.splits if_splits)

lemma repo_list_events_data:
  "repo_list_events io tr key i l k st = (res, st') \<Longrightarrow> st_items st' = st_items st \<and> st_events st' = st_events st"
  by (auto simp: repo_list_events_def Let_def persistence_error_def split: option.splits sum.splits if_splits)

lemma wf_list_data: "wf_data (snd (wf_list enc zone_ok env tr key v l k at s)) = wf_data s"
  using repo_list_data
  by (fastforce simp: wf_list_def Let_def wf_data_def split: option.splits prod.splits sum.splits if_splits)

lemma wf_list_events_data: "wf_data (snd (wf_list_events env tr key i l k s)) = wf_data s"
  using repo_list_events_data
  by (fastforce simp: wf_list_events_def wf_data_def split: prod.splits sum.splits if_splits)

lemma wf_initialize_data: "wf_data (snd (wf_initialize io s)) = wf_data s"
  by (auto simp: wf_initialize_def repo_initialize_def persistence_error_def wf_data_def split: option.splits)

lemma wf_close_data: "wf_data (wf_close s) = wf_data s"
  by (simp add: wf_close_def repo_close_def wf_data_def)

lemma wf_run_cases:
  assumes ok: "store_ok zone_ok (sv_store s)"
  obtains (same) "wf_data (wf_run enc zone_ok req s) = wf_data s"
    | (created) env q w e where "req = Create_Call env q"
        "wf_create zone_ok env q s = (Inr (w, e), wf_run enc zone_ok req s)"
    | (committed) env m ty w e where "request_key req = Some (mu_key m)"
        "commits_step zone_ok env m ty w e s (wf_run enc zone_ok req s)"
proof (cases req)
  case (Initialize_Call io)
  with same show ?thesis by (simp add: wf_initialize_data)
next
  case Close_Call
  with same show ?thesis by (simp add: wf_close_data)
next
  case (Create_Call env q)
  obtain res s' where run: "wf_create zone_ok env q s = (res, s')" by fastforce
  show ?thesis
  proof (cases res)
    case (Inl x)
    with run wf_create_failure Create_Call same show ?thesis by simp
  next
    case (Inr y)
    with run created [of env q "fst y" "snd y"] Create_Call show ?thesis by simp
  qed
next
  case (Get_Call env key i)
  obtain res s' where run: "wf_get zone_ok env key i s = (res, s')" by fastforce
  from wf_get_data [OF run] same run Get_Call show ?thesis by simp
next
  case (List_Call env tr key v l k at)
  with same show ?thesis by (simp add: wf_list_data)
next
  case (Events_Call env tr key i l k)
  with same show ?thesis by (simp add: wf_list_events_data)
next
  case (Follow_Up_Call env m review)
  obtain res s' where run: "record_follow_up zone_ok env m review s = (res, s')" by fastforce
  with Follow_Up_Call same committed [of m env] record_follow_up_failure record_follow_up_success [OF ok]
  show ?thesis by (cases res) fastforce+
next
  case (Snooze_Call env m d)
  obtain res s' where run: "snooze zone_ok env m d s = (res, s')" by fastforce
  with Snooze_Call same committed [of m env] snooze_failure snooze_success [OF ok]
  show ?thesis by (cases res) fastforce+
next
  case (Resolve_Call env m)
  obtain res s' where run: "resolve zone_ok env m s = (res, s')" by fastforce
  with Resolve_Call same committed [of m env] resolve_failure resolve_success [OF ok]
  show ?thesis by (cases res) fastforce+
next
  case (Cancel_Call env m)
  obtain res s' where run: "cancel zone_ok env m s = (res, s')" by fastforce
  with Cancel_Call same committed [of m env] cancel_failure cancel_success [OF ok]
  show ?thesis by (cases res) fastforce+
next
  case (Reopen_Call env m review)
  obtain res s' where run: "reopen zone_ok env m review s = (res, s')" by fastforce
  with Reopen_Call same committed [of m env] reopen_failure reopen_success [OF ok]
  show ?thesis by (cases res) fastforce+
qed

lemma wf_run_ok:
  assumes ok: "wf_service_ok zone_ok s"
  shows "wf_service_ok zone_ok (wf_run enc zone_ok req s)"
proof -
  have "store_ok zone_ok (sv_store s)" using ok by (simp add: wf_service_ok_def)
  then show ?thesis
  proof (rule wf_run_cases [of zone_ok s enc req])
    assume "wf_data (wf_run enc zone_ok req s) = wf_data s"
    from wf_data_ok [OF this] ok show ?thesis by (rule iffD2)
  next
    fix env q w e
    assume "wf_create zone_ok env q s = (Inr (w, e), wf_run enc zone_ok req s)"
    then show ?thesis by (rule wf_create_ok [OF ok])
  next
    fix env m ty w e
    assume "commits_step zone_ok env m ty w e s (wf_run enc zone_ok req s)"
    then show ?thesis by (rule commits_step_ok [OF ok])
  qed
qed

interpretation wf_calls: step_system "wf_run enc zone_ok" "wf_service_ok zone_ok" for enc zone_ok
  by unfold_locales (rule wf_run_ok)

end
