(* ===== verification/WaitingFor_Properties.thy ===== *)
theory WaitingFor_Properties
  imports WaitingFor_Service "HOL-Library.Code_Target_Nat"
begin

text \<open>
  What the Waiting-For component promises its callers, each property with an instance that
  evaluates the model.
\<close>

section \<open>Sample data of the instances\<close>

definition utc_only :: "string \<Rightarrow> bool" where
  "utc_only z = (z = ''UTC'')"

definition sample_key :: workspace_key where
  "sample_key = plain_key ''acme'' ''ops'' ''main'' ''trace-1''"

definition other_key :: workspace_key where
  "other_key = plain_key ''acme'' ''lab'' ''main'' ''trace-2''"

definition sample_env :: wf_env where
  "sample_env = \<lparr>env_now = 1000000, env_later = 2000000, env_read_io = None, env_write_io = None,
     env_bus = Bus_Accepts, env_item_uuid = ''a1'', env_event_uuid = ''b1'', env_read_trace = ''r1''\<rparr>"

definition later_env :: wf_env where
  "later_env = sample_env\<lparr>env_now := 3000000, env_later := 4000000, env_event_uuid := ''b2''\<rparr>"

definition sample_create :: create_request where
  "sample_create = \<lparr>cr_key = sample_key, cr_subject = '' quote '', cr_waiting_on = ''Bob'',
     cr_context = [], cr_expected_by = None, cr_next_review_at = Some (Aware 5000000 60),
     cr_timezone = ''UTC'', cr_linked_task = None, cr_linked_reminder = None, cr_source = ''api'',
     cr_trace_id = [], cr_metadata = [(''ref'', JInt 7)], cr_id = None\<rparr>"

definition sample_mutation :: mutation where
  "sample_mutation = \<lparr>mu_key = sample_key, mu_id = ''wf_a1'', mu_expected = 1, mu_note = '' done '',
     mu_source = ''api'', mu_trace = []\<rparr>"

definition sample_row :: wf_row where
  "sample_row = item_values (normalised (create_values sample_env sample_create))"

definition sample_event :: wf_event_row where
  "sample_event = \<lparr>er_id = ''wfe_b1'', er_item = ''wf_a1'', er_identity = key_identity sample_key,
     er_sequence = 1, er_type = CREATED, er_occurred_at = 1000000, er_note = [], er_source = ''api'',
     er_trace_id = ''trace-1'', er_metadata = []\<rparr>"

text \<open>The service after one item was created.\<close>

definition sample_service :: wf_service where
  "sample_service = snd (wf_create utc_only sample_env sample_create initial_service)"

lemma sample_tables:
  "st_items (sv_store sample_service) = [sample_row] \<and> st_events (sv_store sample_service) = [sample_event]"
  unfolding sample_service_def by code_simp

lemma sample_service_ok: "wf_service_ok utc_only sample_service"
proof -
  have "sample_service = wf_run isoformat utc_only (Create_Call sample_env sample_create) initial_service"
    by (simp add: sample_service_def)
  then show ?thesis using wf_service_ok_initial wf_run_ok by metis
qed

lemma sample_store_ok: "store_ok utc_only (sv_store sample_service)"
  using sample_service_ok by (simp add: wf_service_ok_def)

section \<open>The history of an item\<close>

text \<open>C1: after any sequence of requests, an item's events are numbered 1 to its revision without
  a gap, they belong to the item's workspace, and they are a run of the lifecycle that starts with
  CREATED and ends in the item's status.\<close>

theorem wf_history_invariant:
  assumes "s = sv_store (fold (wf_run enc zone_ok) requests initial_service)"
    and "row_of wr_id i (st_items s) = Some r"
  shows "map er_sequence (history s i) = [1..wr_revision r] \<and>
    lifecycle (map er_type (history s i)) (wr_status r) \<and>
    er_identity ` set (history s i) = {wr_identity r}"
proof -
  have ok: "wf_service_ok zone_ok (fold (wf_run enc zone_ok) requests initial_service)"
    by (rule wf_calls.run_good) (rule wf_service_ok_initial)
  then have store: "store_ok zone_ok s" by (simp add: wf_service_ok_def assms(1))
  from assms(2) have r: "r \<in> set (st_items s)" "wr_id r = i" using row_of_Some by fastforce+
  have life: "lifecycle (map er_type (history s i)) (wr_status r)"
    using ok r by (auto simp: wf_service_ok_def event_types_def assms(1))
  have "er_identity e = wr_identity r" if "e \<in> set (history s i)" for e
  proof -
    from that have e: "e \<in> set (st_events s)" "er_item e = i" by (auto simp: history_def)
    from store_ok_owner [OF store e(1)] obtain x where "x \<in> set (st_items s)" "wr_id x = i"
        "wr_identity x = er_identity e"
      using e(2) by metis
    with keyed_unique [OF store_ok_keyed [OF store] _ r(1)] r(2) show ?thesis by metis
  qed
  moreover have "history s i \<noteq> []" using lifecycle_nonempty [OF life] by auto
  ultimately have "er_identity ` set (history s i) = {wr_identity r}"
    by (auto simp: image_iff) (metis list.set_intros(1) neq_Nil_conv)
  with life store_ok_row(2) [OF store r(1)] r(2) show ?thesis by simp
qed

definition sample_requests :: "wf_request list" where
  "sample_requests = [Create_Call sample_env sample_create, Resolve_Call later_env sample_mutation]"

lemma sample_resolved:
  "row_of wr_id ''wf_a1'' (st_items (sv_store (fold (wf_run isoformat utc_only) sample_requests initial_service))) =
     Some (sample_row\<lparr>wr_status := WF_RESOLVED, wr_resolved_at := Some 3000000, wr_updated_at := 4000000,
        wr_next_review_at := None, wr_resolution_note := ''done'', wr_revision := 2\<rparr>)"
  by code_simp

theorem wf_history_invariant_witness:
  "map er_sequence (history (sv_store (fold (wf_run isoformat utc_only) sample_requests initial_service)) ''wf_a1'')
     = [1, 2]"
  using wf_history_invariant [OF refl sample_resolved] by (simp add: upto.simps)

section \<open>Concurrent writers\<close>

text \<open>C2: of two writers that read the same revision of an item, only the first stores its
  snapshot; the second is refused, and every stored row stays as the first one left it.\<close>

theorem wf_no_lost_update:
  assumes "keyed wr_id (st_items s)"
    and "repo_mutate zone_ok io key w e n s = (Inr y, s')"
    and "wf_id w' = wf_id w"
  shows "\<exists>x t. repo_mutate zone_ok io' key' w' e' n s' = (Inl x, t) \<and>
    row_of wr_id i (st_items t) = row_of wr_id i (st_items s')"
  using wf.no_lost_update [where x = "(io, key, w, e)" and x' = "(io', key', w', e')" and
      zone_ok = zone_ok and s = s and s' = s' and r = n and y = y] assms
  by (auto simp: write_defs fun_eq_iff)

definition sample_next :: waiting_for where
  "sample_next = normalised (mutate_values 3000000 (snooze_updates (Aware 9000000 0)) (row_item [] sample_row))"

definition sample_next_event :: wf_event where
  "sample_next_event = \<lparr>wfe_id = ''wfe_b2'', wfe_item = ''wf_a1'', wfe_key = sample_key, wfe_sequence = 2,
     wfe_type = SNOOZED, wfe_occurred_at = 3000000, wfe_note = [], wfe_source = ''api'',
     wfe_trace_id = [], wfe_metadata = []\<rparr>"

lemma sample_first_write: "\<exists>y s'. repo_mutate utc_only None sample_key sample_next sample_next_event 1
    (sv_store sample_service) = (Inr y, s')"
proof -
  have "succeeds (fst (repo_mutate utc_only None sample_key sample_next sample_next_event 1 (sv_store sample_service)))"
    unfolding sample_service_def by code_simp
  then show ?thesis by (metis prod.collapse succeeds_iff)
qed

theorem wf_no_lost_update_witness:
  "\<exists>y s' x t. repo_mutate utc_only None sample_key sample_next sample_next_event 1 (sv_store sample_service) = (Inr y, s') \<and>
    repo_mutate utc_only None sample_key sample_next sample_next_event 1 s' = (Inl x, t)"
proof -
  obtain y s' where run: "repo_mutate utc_only None sample_key sample_next sample_next_event 1
      (sv_store sample_service) = (Inr y, s')"
    using sample_first_write by blast
  with wf_no_lost_update [OF store_ok_keyed [OF sample_store_ok] run refl] show ?thesis by blast
qed

section \<open>Failures\<close>

text \<open>C4: a call that fails, for whatever reason, leaves both tables, the announced messages and the
  recorded bus failure exactly as they were.\<close>

theorem wf_failed_call_changes_nothing:
  "(wf_create zone_ok env q s = (Inl x, s') \<or> record_follow_up zone_ok env m review s = (Inl x, s') \<or>
    snooze zone_ok env m d s = (Inl x, s') \<or> resolve zone_ok env m s = (Inl x, s') \<or>
    cancel zone_ok env m s = (Inl x, s') \<or> reopen zone_ok env m review s = (Inl x, s')) \<Longrightarrow>
   st_items (sv_store s') = st_items (sv_store s) \<and> st_events (sv_store s') = st_events (sv_store s) \<and>
   sv_published s' = sv_published s \<and> sv_bus_failure s' = sv_bus_failure s"
  using call_failures by (auto simp: wf_data_def)

theorem wf_failed_call_changes_nothing_witness:
  "sv_published (snd (resolve utc_only (later_env\<lparr>env_write_io := Some (Raise SqliteError ''disk I/O error'')\<rparr>)
       sample_mutation sample_service)) = sv_published sample_service"
proof -
  let ?run = "resolve utc_only (later_env\<lparr>env_write_io := Some (Raise SqliteError ''disk I/O error'')\<rparr>)
       sample_mutation sample_service"
  have "\<not> succeeds (fst ?run)" unfolding sample_service_def by code_simp
  then obtain x where "fst ?run = Inl x" by (cases "fst ?run") auto
  then have "?run = (Inl x, snd ?run)" by (metis prod.collapse)
  with wf_failed_call_changes_nothing show ?thesis by blast
qed

section \<open>Workspaces\<close>

text \<open>C3: a request made for one workspace leaves the items and the events of every other workspace
  as they were, whatever identifiers it names.\<close>

theorem wf_isolation:
  assumes "wf_service_ok zone_ok s" and "request_key req = Some key"
  shows "filter (\<lambda>r. wr_identity r \<noteq> key_identity key) (st_items (sv_store (wf_run enc zone_ok req s))) =
      filter (\<lambda>r. wr_identity r \<noteq> key_identity key) (st_items (sv_store s)) \<and>
    filter (\<lambda>e. er_identity e \<noteq> key_identity key) (st_events (sv_store (wf_run enc zone_ok req s))) =
      filter (\<lambda>e. er_identity e \<noteq> key_identity key) (st_events (sv_store s))"
proof -
  have store: "store_ok zone_ok (sv_store s)" using assms(1) by (simp add: wf_service_ok_def)
  then show ?thesis
  proof (cases rule: wf_run_cases [of zone_ok s enc req])
    case same
    then show ?thesis by (simp add: wf_data_def)
  next
    case (created env q w e)
    note facts = wf_create_success [OF created(2)]
    from facts(1) have "key_identity (wf_key w) = key_identity (cr_key q)"
      by (simp add: validate_waiting_for_Inr normalised_def create_values_def key_identity_def)
    with created assms(2) facts(2) repo_create_success [OF facts(3)] show ?thesis by simp
  next
    case (committed env m ty w e)
    then obtain r where c: "commits zone_ok m ty r w e (sv_store s) (sv_store (wf_run enc zone_ok req s))"
      by (auto simp: commits_step_def)
    have key: "key_identity key = key_identity (mu_key m)" using committed(1) assms(2) by simp
    have foreign: "wr_identity x = key_identity key" if "x \<in> set (st_items (sv_store s))" "wr_id x = mu_id m" for x
      using keyed_unique [OF store_ok_keyed [OF store] that(1)] row_of_Some [of wr_id "mu_id m" "st_items (sv_store s)" r]
        c that(2) key by (auto simp: commits_def)
    then have "filter (\<lambda>r. wr_identity r \<noteq> key_identity key)
          (update_where (\<lambda>x. wr_id x = mu_id m) (\<lambda>_. item_values w) (st_items (sv_store s))) =
        filter (\<lambda>r. wr_identity r \<noteq> key_identity key) (st_items (sv_store s))"
      using c key by (intro filter_update_where) (auto simp: commits_def)
    with c key show ?thesis by (simp add: commits_def mutated_def)
  qed
qed

theorem wf_isolation_witness:
  "filter (\<lambda>r. wr_identity r \<noteq> key_identity other_key)
     (st_items (sv_store (wf_run isoformat utc_only
        (Resolve_Call later_env (sample_mutation\<lparr>mu_key := other_key\<rparr>)) sample_service))) = [sample_row]"
proof -
  have "wr_identity sample_row \<noteq> key_identity other_key" by code_simp
  then show ?thesis
    using wf_isolation [OF sample_service_ok, of "Resolve_Call later_env (sample_mutation\<lparr>mu_key := other_key\<rparr>)"
        other_key isoformat] sample_tables
    by simp
qed

text \<open>Asking for an item of another workspace fails like asking for an item that does not exist:
  the same code, category, message and HTTP status 404, and the store is untouched.\<close>

theorem wf_get_foreign_is_not_found:
  assumes "store_ok zone_ok (sv_store s)" and "env_read_io env = None"
    and "\<And>r. row_of wr_id i (st_items (sv_store s)) = Some r \<Longrightarrow> wr_identity r \<noteq> key_identity key"
  shows "\<exists>f. wf_get zone_ok env key i s = (Inl (Failed f), s) \<and>
    fi_code f = ''waiting_for.get.not_found'' \<and> fi_category f = NOT_FOUND \<and>
    fi_message f = ''Waiting-For item was not found'' \<and> \<not> fi_retryable f \<and> http_status_for_failure f = 404"
proof (cases "row_of wr_id i (st_items (sv_store s))")
  case None
  then show ?thesis
    by (simp add: wf_get_total [OF assms(1,2)] raise_not_found_def raise_failure_def http_status_for_failure_def)
next
  case (Some r)
  with assms(3) show ?thesis
    by (simp add: wf_get_total [OF assms(1,2)] raise_not_found_def raise_failure_def http_status_for_failure_def)
qed

theorem wf_get_foreign_is_not_found_witness:
  "\<exists>f. wf_get utc_only sample_env other_key ''wf_a1'' sample_service = (Inl (Failed f), sample_service) \<and>
     http_status_for_failure f = 404"
proof -
  have "wr_identity r \<noteq> key_identity other_key"
    if "row_of wr_id ''wf_a1'' (st_items (sv_store sample_service)) = Some r" for r
  proof -
    have "wr_identity sample_row \<noteq> key_identity other_key" by code_simp
    with that show ?thesis using sample_tables by (auto split: if_splits)
  qed
  from wf_get_foreign_is_not_found [OF sample_store_ok _ this, of sample_env]
  show ?thesis by (auto simp: sample_env_def)
qed

section \<open>Closing and reopening\<close>

definition refused :: "string \<Rightarrow> (exn + 'a) \<times> wf_service \<Rightarrow> wf_service \<Rightarrow> bool" where
  "refused operation run s =
    (\<exists>f. fst run = Inl (Failed f) \<and> fi_category f = CONFLICT \<and>
         fi_code f = ''waiting_for.'' @ operation @ ''.conflict'' \<and> wf_data (snd run) = wf_data s)"

text \<open>C6: an item that is resolved or cancelled can only be reopened: every other change is refused
  as a CONFLICT and commits nothing, at any expected revision; and an open item cannot be reopened.\<close>

theorem wf_closed_item_only_reopens:
  assumes "store_ok zone_ok (sv_store s)" and "env_read_io env = None"
    and "row_of wr_id (mu_id m) (st_items (sv_store s)) = Some r" and "wr_identity r = key_identity (mu_key m)"
    and "py_strip (mu_note m) \<noteq> []" and "py_len (py_strip (mu_note m)) \<le> 4000"
  shows "if wr_status r = WF_OPEN then refused ''reopen'' (reopen zone_ok env m review s) s
    else refused ''follow_up'' (record_follow_up zone_ok env m review s) s \<and>
      refused ''snooze'' (snooze zone_ok env m d s) s \<and>
      refused ''resolve'' (resolve zone_ok env m s) s \<and> refused ''cancel'' (cancel zone_ok env m s) s"
proof -
  have get: "wf_get zone_ok env (mu_key m) (mu_id m) s =
      (Inr (row_item (env_read_trace env) r), s\<lparr>sv_store := clear_error (sv_store s)\<rparr>)"
    using assms(3,4) by (simp add: wf_get_total [OF assms(1,2)])
  have note_ok: "required_note (mu_note m) op tr = Inr (py_strip (mu_note m))" for op tr
    using assms(5,6) by (simp add: required_note_def Let_def)
  show ?thesis
    using assms(3,4)
    by (auto simp: refused_def operation_defs note_ok with_current_def get require_open_def
        raise_conflict_def raise_failure_def wf_data_def clear_error_def)
qed

theorem wf_closed_item_only_reopens_witness:
  "refused ''reopen'' (reopen utc_only sample_env sample_mutation None sample_service) sample_service"
proof -
  have row: "row_of wr_id (mu_id sample_mutation) (st_items (sv_store sample_service)) = Some sample_row"
    unfolding sample_service_def by code_simp
  have facts: "wr_status sample_row = WF_OPEN" "env_read_io sample_env = None"
    "wr_identity sample_row = key_identity (mu_key sample_mutation)"
    "py_strip (mu_note sample_mutation) \<noteq> []" "py_len (py_strip (mu_note sample_mutation)) \<le> 4000"
    by code_simp+
  show ?thesis
    using wf_closed_item_only_reopens [OF sample_store_ok facts(2) row facts(3,4,5)] facts(1) by simp
qed

definition resolved_item :: "wf_env \<Rightarrow> mutation \<Rightarrow> wf_row \<Rightarrow> waiting_for" where
  "resolved_item env m r = (row_item (env_read_trace env) r)
     \<lparr>wf_status := WF_RESOLVED, wf_resolved_at := Some (env_now env), wf_cancelled_at := None,
      wf_resolution_note := py_strip (mu_note m), wf_next_review_at := None,
      wf_updated_at := env_later env, wf_revision := wr_revision r + 1\<rparr>"

definition resolved_event :: "wf_env \<Rightarrow> mutation \<Rightarrow> wf_row \<Rightarrow> wf_event" where
  "resolved_event env m r =
     \<lparr>wfe_id = ''wfe_'' @ env_event_uuid env, wfe_item = mu_id m,
      wfe_key = identity_key (wr_identity r) (env_read_trace env), wfe_sequence = wr_revision r + 1,
      wfe_type = RESOLVED, wfe_occurred_at = env_later env, wfe_note = py_strip (mu_note m),
      wfe_source = py_strip (mu_source m), wfe_trace_id = mutation_trace m, wfe_metadata = []\<rparr>"

text \<open>C5: resolving an open item at its current revision succeeds, and stores exactly this snapshot:
  the state and the note set, the review cleared, the revision one higher, everything else kept; the
  event with the next number is appended and the message of the commit is published.\<close>

theorem wf_resolve_succeeds:
  assumes ok: "store_ok zone_ok (sv_store s)" and io: "env_read_io env = None" "env_write_io env = None"
    and row: "row_of wr_id (mu_id m) (st_items (sv_store s)) = Some r" "wr_identity r = key_identity (mu_key m)"
    and st: "wr_status r = WF_OPEN" "mu_expected m = wr_revision r" "wr_created_at r \<le> env_later env"
    and inputs: "py_strip (mu_note m) \<noteq> []" "py_len (py_strip (mu_note m)) \<le> 4000"
      "py_strip (mu_source m) \<noteq> []" "py_len (mu_source m) \<le> 64" "py_len (mutation_trace m) \<le> 160"
      "len_between 5 80 (''wfe_'' @ env_event_uuid env)"
    and fresh: "row_of er_id (''wfe_'' @ env_event_uuid env) (st_events (sv_store s)) = None"
  shows "resolve zone_ok env m s =
    (Inr (resolved_item env m r, resolved_event env m r),
     wf_publish (env_bus env) (resolved_item env m r) (resolved_event env m r)
       (s\<lparr>sv_store := mutated (resolved_item env m r) (resolved_event env m r) (sv_store s)\<rparr>))"
proof -
  let ?c = "row_item (env_read_trace env) r" and ?st = "sv_store s" and ?w = "resolved_item env m r"
  let ?st1 = "clear_error ?st" and ?e = "resolved_event env m r" and ?n = "py_strip (mu_note m)"
  have r: "r \<in> set (st_items ?st)" "wr_id r = mu_id m" using row_of_Some [OF row(1)] by simp_all
  have ok1: "store_ok zone_ok ?st1" using ok by (simp add: store_ok_frame [of "?st1" ?st])
  have valid: "valid_waiting_for zone_ok ?c" by (rule valid_row_item [OF ok r(1)])
  have get: "wf_get zone_ok env (mu_key m) (mu_id m) s = (Inr ?c, s\<lparr>sv_store := ?st1\<rparr>)"
    using row by (simp add: wf_get_total [OF ok io(1)])
  have w: "validate_waiting_for zone_ok
      (mutate_values (env_later env) (resolve_updates (env_now env) ?n) ?c) = Inr ?w"
    using validate_resolved [OF valid, of "env_later env" ?n "env_now env"] st inputs
    by (simp add: resolved_item_def row_item_def)
  have id: "len_between 4 80 (mu_id m)" "starts_with ''wf_'' (mu_id m)" "1 \<le> wr_revision r"
    using valid r by (simp_all add: valid_iff fields_ok_def dump_waiting_for_def row_item_def)
  have "starts_with ''wfe_'' (''wfe_'' @ u)" for u by (simp add: starts_with_def)
  moreover have "1 \<le> py_len (mu_source m)" using inputs(3) by auto
  ultimately have e: "validate_event \<lparr>wfe_id = ''wfe_'' @ env_event_uuid env, wfe_item = wf_id ?c,
        wfe_key = wf_key ?c, wfe_sequence = wf_revision ?w, wfe_type = RESOLVED,
        wfe_occurred_at = env_later env, wfe_note = ?n, wfe_source = mu_source m,
        wfe_trace_id = mutation_trace m, wfe_metadata = []\<rparr> = Inr ?e"
    using inputs id r(2)
    by (simp add: validate_event_def resolved_event_def resolved_item_def row_item_def len_between_def
        validate_metadata_def)
  have put: "repo_mutate zone_ok None (mu_key m) ?w ?e (mu_expected m) ?st1 = (Inr (?w, ?e), mutated ?w ?e ?st1)"
    using row st fresh r
    by (intro repo_mutate_total [OF ok1]) (simp_all add: resolved_item_def resolved_event_def row_item_def)
  have body: "mutate_body zone_ok env (env_later env) m ?c RESOLVED ?n (resolve_updates (env_now env) ?n) [] ?st1 =
      (Inr (?w, ?e), mutated ?w ?e ?st1)"
    unfolding mutate_body_def w sum.case e io(2) by (rule put)
  have run: "wf_mutate zone_ok env (env_later env) m ?c ''resolve'' RESOLVED ?n (resolve_updates (env_now env) ?n) []
      (s\<lparr>sv_store := ?st1\<rparr>) =
      (Inr (?w, ?e), wf_publish (env_bus env) ?w ?e (s\<lparr>sv_store := mutated ?w ?e ?st\<rparr>))"
    using st(2) by (simp add: wf_mutate_def body) (simp add: row_item_def)
  show ?thesis
    using inputs st(1)
    by (simp add: resolve_def required_note_def Let_def with_current_def get require_open_def run)
qed

theorem wf_resolve_succeeds_witness:
  "fst (resolve utc_only later_env sample_mutation sample_service) =
     Inr (resolved_item later_env sample_mutation sample_row, resolved_event later_env sample_mutation sample_row)"
proof -
  have row: "row_of wr_id (mu_id sample_mutation) (st_items (sv_store sample_service)) = Some sample_row"
    and fresh: "row_of er_id (''wfe_'' @ env_event_uuid later_env) (st_events (sv_store sample_service)) = None"
    unfolding sample_service_def by code_simp+
  have facts: "env_read_io later_env = None" "env_write_io later_env = None"
    "wr_identity sample_row = key_identity (mu_key sample_mutation)"
    "wr_status sample_row = WF_OPEN" "mu_expected sample_mutation = wr_revision sample_row"
    "wr_created_at sample_row \<le> env_later later_env"
    "py_strip (mu_note sample_mutation) \<noteq> []" "py_len (py_strip (mu_note sample_mutation)) \<le> 4000"
    "py_strip (mu_source sample_mutation) \<noteq> []" "py_len (mu_source sample_mutation) \<le> 64"
    "py_len (mutation_trace sample_mutation) \<le> 160" "len_between 5 80 (''wfe_'' @ env_event_uuid later_env)"
    by code_simp+
  from wf_resolve_succeeds [OF sample_store_ok facts(1,2) row facts(3-12) fresh] show ?thesis by simp
qed

section \<open>Reading back and listing\<close>

text \<open>An item that was created is read back, in its workspace, as the very model the call returned:
  validated and stripped, with the workspace key reduced to its identity.\<close>

theorem wf_create_then_get:
  assumes "store_ok zone_ok (sv_store s)" and "wf_create zone_ok env q s = (Inr (w, e), s')"
    and "key_identity key = key_identity (cr_key q)" and "env_read_io env' = None"
  shows "\<exists>t. wf_get zone_ok env' key (wf_id w) s' =
    (Inr (w\<lparr>wf_key := identity_key (key_identity (cr_key q)) (env_read_trace env')\<rparr>), t) \<and>
    w = normalised (create_values env q)"
proof -
  note facts = wf_create_success [OF assms(2)]
  have valid: "valid_waiting_for zone_ok w" by (rule validated_is_valid [OF facts(1)])
  have w: "w = normalised (create_values env q)" and id: "key_identity (wf_key w) = key_identity (cr_key q)"
    using facts(1) by (simp_all add: validate_waiting_for_Inr normalised_def create_values_def key_identity_def)
  have ok': "store_ok zone_ok (sv_store s')" by (rule repo_create_ok [OF assms(1) valid facts(3)])
  have "row_of wr_id (wf_id w) (st_items (sv_store s')) = Some (item_values w)"
    using repo_create_success [OF facts(3)] by simp
  with w id assms(3) show ?thesis
    by (simp add: wf_get_total [OF ok' assms(4)] row_item_values)
qed

theorem wf_create_then_get_witness:
  "\<exists>w t. wf_get utc_only later_env sample_key ''wf_a1'' sample_service = (Inr w, t) \<and> wf_subject w = ''quote''"
proof -
  let ?run = "wf_create utc_only sample_env sample_create initial_service"
  have "succeeds (fst ?run)" by code_simp
  then obtain w e where run: "?run = (Inr (w, e), sample_service)"
    unfolding sample_service_def by (metis prod.collapse succeeds_iff)
  have keys: "key_identity sample_key = key_identity (cr_key sample_create)" "env_read_io later_env = None"
    by code_simp+
  have "store_ok utc_only (sv_store initial_service)"
    using wf_service_ok_initial by (simp add: wf_service_ok_def)
  from wf_create_then_get [OF this run keys] obtain t where
    "wf_get utc_only later_env sample_key (wf_id w) sample_service =
       (Inr (w\<lparr>wf_key := identity_key (key_identity (cr_key sample_create)) (env_read_trace later_env)\<rparr>), t)"
    and "w = normalised (create_values sample_env sample_create)"
    by blast
  moreover have "wf_id (normalised (create_values sample_env sample_create)) = ''wf_a1''"
    "wf_subject (normalised (create_values sample_env sample_create)) = ''quote''"
    by code_simp+
  ultimately show ?thesis by simp
qed

definition view_page :: "(instant \<Rightarrow> string) \<Rightarrow> (string \<Rightarrow> bool) \<Rightarrow> workspace_key \<Rightarrow> wf_view \<Rightarrow> instant \<Rightarrow> nat \<Rightarrow>
    wf_store \<Rightarrow> nat \<Rightarrow> waiting_for page option" where
  "view_page enc zone_ok key v now limit s j =
    (case fst (repo_list enc zone_ok None (\<lambda>i. []) key v now limit (j * limit) s) of
       Inl x \<Rightarrow> None | Inr p \<Rightarrow> Some p)"

lemma sql_int_below: "a \<le> m \<Longrightarrow> sql_int (int m + 1) \<Longrightarrow> sql_int (int a + 1) \<and> sql_int (int a)"
  by (auto simp: sql_int_def)

text \<open>The pages of a view, taken one after another at a fixed limit, together give every row of
  the view exactly once and in the view's order, and a page says there is more exactly when there is.\<close>

theorem wf_pages_cover_view:
  assumes "store_ok zone_ok s" and "1 \<le> limit" and "sql_int (int ((n + 1) * limit) + 1)"
  shows "concat (map (\<lambda>j. pg_items (the (view_page enc zone_ok key v now limit s j))) [0..<n]) =
      map (row_item []) (take (n * limit) (selected_rows enc s (key_identity key) v now)) \<and>
    pg_has_more (the (view_page enc zone_ok key v now limit s n)) =
      ((n + 1) * limit < length (selected_rows enc s (key_identity key) v now))"
proof -
  let ?rows = "selected_rows enc s (key_identity key) v now"
  have page: "the (view_page enc zone_ok key v now limit s j) =
      \<lparr>pg_items = map (row_item []) (sql_page limit (j * limit) ?rows), pg_limit = limit,
       pg_offset = j * limit, pg_has_more = j * limit + limit < length ?rows\<rparr>" if "j \<le> n" for j
  proof -
    have "j * limit \<le> (n + 1) * limit" using that by (intro mult_le_mono1) simp
    moreover have "limit \<le> (n + 1) * limit" by simp
    ultimately have "sql_int (int limit + 1)" "sql_int (int (j * limit))"
      using sql_int_below [OF _ assms(3)] by blast+
    then show ?thesis by (simp add: view_page_def repo_list_total [OF assms(1,2)])
  qed
  have "concat (map (\<lambda>j. sql_page limit (j * limit) ?rows) [0..<n]) = take (n * limit) ?rows"
    by (rule pages_concat)
  then have "concat (map (\<lambda>j. map (row_item []) (sql_page limit (j * limit) ?rows)) [0..<n]) =
      map (row_item []) (take (n * limit) ?rows)"
    using map_concat [of "row_item []" "map (\<lambda>j. sql_page limit (j * limit) ?rows) [0..<n]"]
    by (simp add: comp_def)
  moreover have items: "map (\<lambda>j. pg_items (the (view_page enc zone_ok key v now limit s j))) [0..<n] =
      map (\<lambda>j. map (row_item []) (sql_page limit (j * limit) ?rows)) [0..<n]"
    by (simp add: page)
  ultimately show ?thesis
    unfolding items by (simp add: page [of n] add.commute)
qed

theorem wf_pages_cover_view_witness:
  "concat (map (\<lambda>j. pg_items (the (view_page zulu_text utc_only sample_key V_OPEN 0 1 (sv_store sample_service) j))) [0..<3])
     = [row_item [] sample_row]"
proof -
  have "selected_rows zulu_text (sv_store sample_service) (key_identity sample_key) V_OPEN 0 = [sample_row]"
    unfolding sample_service_def by code_simp
  then show ?thesis
    using wf_pages_cover_view [OF sample_store_ok, of 1 3 zulu_text sample_key V_OPEN 0] by (simp add: sql_int_def)
qed

text \<open>What the DUE view lists.  The column holds the text pydantic writes, which ends in Z, and is
  compared with a text that ends in +00:00.  An open item whose review lies at least one second back
  is listed; one in the future is not; and of the reviews within the current second those at a
  whole second are missing, the review due at this very instant included, which the model's own
  \<open>review_due\<close> reports as due.\<close>

theorem wf_due_view:
  assumes "zulu_encoding enc" and "in_calendar t" and "in_calendar now"
    and "wr_status r = WF_OPEN" and "wr_next_review_at r = Some t"
  shows "(view_clause enc now V_DUE r \<longleftrightarrow> t < now \<and> (second_of t < second_of now \<or> micro_of t \<noteq> 0)) \<and>
    (t + us_per_second \<le> now \<longrightarrow> view_clause enc now V_DUE r) \<and>
    (view_clause enc now V_DUE r \<longrightarrow> review_due (row_item tr r) (Aware now 0) = Inr True) \<and>
    (t = now \<longrightarrow> \<not> view_clause enc now V_DUE r \<and> review_due (row_item tr r) (Aware now 0) = Inr True)"
proof -
  have clause: "view_clause enc now V_DUE r = text_before t now"
    by (simp add: assms(4,5) col_tests [OF assms(1-3)])
  have due: "review_due (row_item tr r) (Aware now 0) = Inr (t \<le> now)"
    by (simp add: review_due_def aware_utc_def bindR_def row_item_def assms(4,5))
  show ?thesis
    unfolding clause due using text_before_next_second [OF assms(2,3)]
    by (auto simp: text_before_def)
qed

theorem wf_due_view_witness:
  "\<not> view_clause zulu_text 5000000 V_DUE (sample_row\<lparr>wr_next_review_at := Some 5000000\<rparr>) \<and>
   review_due (row_item [] (sample_row\<lparr>wr_next_review_at := Some 5000000\<rparr>)) (Aware 5000000 0) = Inr True"
proof -
  have "zulu_encoding zulu_text" by (simp add: zulu_encoding_def)
  moreover have "in_calendar 5000000" by (simp add: in_calendar_def max_instant_def us_per_second_def max_day_def)
  moreover have "wr_status (sample_row\<lparr>wr_next_review_at := Some 5000000\<rparr>) = WF_OPEN" by code_simp
  moreover have "wr_next_review_at (sample_row\<lparr>wr_next_review_at := Some 5000000\<rparr>) = Some 5000000" by simp
  ultimately show ?thesis using wf_due_view by blast
qed

section \<open>The bus\<close>

text \<open>A bus that refuses the message does not undo the commit: the call succeeds with the same
  result and the same tables as with a working bus, and only health reports DEGRADED, until a later
  publication goes through.\<close>

theorem wf_bus_failure_only_degrades:
  assumes "wf_create zone_ok (env\<lparr>env_bus := Bus_Accepts\<rparr>) q s = (Inr y, s')"
  shows "\<exists>t. wf_create zone_ok (env\<lparr>env_bus := Bus_Raises x\<rparr>) q s = (Inr y, t) \<and> sv_store t = sv_store s' \<and>
    sv_published t = sv_published s \<and> length (sv_published s') = length (sv_published s) + 1 \<and>
    (st_initialized (sv_store t) \<longrightarrow> fst (wf_health True t) = DEGRADED \<and> fst (wf_health True s') = OK)"
proof -
  have env: "env_now (env\<lparr>env_bus := b\<rparr>) = env_now env"
    "env_item_uuid (env\<lparr>env_bus := b\<rparr>) = env_item_uuid env"
    "env_event_uuid (env\<lparr>env_bus := b\<rparr>) = env_event_uuid env"
    "env_write_io (env\<lparr>env_bus := b\<rparr>) = env_write_io env" for b
    by simp_all
  have body: "create_body zone_ok (env\<lparr>env_bus := b\<rparr>) q st = create_body zone_ok env q st" for b st
    unfolding create_body_def create_values_def env by (rule refl)
  from assms obtain w e st where "create_body zone_ok env q (sv_store s) = (Inr (w, e), st)"
      "y = (w, e)" "s' = wf_publish Bus_Accepts w e (s\<lparr>sv_store := st\<rparr>)"
    by (auto simp: wf_create_def body split: prod.splits sum.splits)
  then show ?thesis
    by (simp add: wf_create_def body wf_publish_def wf_health_def repo_health_def)
qed

theorem wf_bus_failure_only_degrades_witness:
  "\<exists>t. sv_store t = sv_store sample_service \<and> sv_published t = [] \<and>
     snd (wf_create utc_only (sample_env\<lparr>env_bus := Bus_Raises (Raise RuntimeError ''Bus is not running'')\<rparr>)
       sample_create initial_service) = t"
proof -
  let ?run = "wf_create utc_only (sample_env\<lparr>env_bus := Bus_Accepts\<rparr>) sample_create initial_service"
  have "succeeds (fst ?run)" by code_simp
  then obtain y where y: "?run = (Inr y, snd ?run)" by (metis prod.collapse succeeds_iff)
  have "sample_env\<lparr>env_bus := Bus_Accepts\<rparr> = sample_env" by (simp add: sample_env_def)
  then have "snd ?run = sample_service" by (simp add: sample_service_def)
  with wf_bus_failure_only_degrades [OF y, of "Raise RuntimeError ''Bus is not running''"] show ?thesis
    by (force simp: initial_service_def)
qed

end
