(* ===== verification/Scheduler_Trigger.thy ===== *)
theory Scheduler_Trigger
  imports Failures
begin

text \<open>
  \<open>core/scheduler/triggers.py\<close> and the trigger of \<open>core/scheduler/models.py\<close>: when a job is due,
  when it is due next, which triggers are accepted.  Instants are microseconds in UTC; an
  arithmetic result outside the calendar of \<open>datetime\<close> is Python's \<open>OverflowError\<close>.
\<close>

section \<open>Triggers\<close>

datatype trigger_type = CRON | INTERVAL | ONE_SHOT | MANUAL | EVENT

fun trigger_type_value :: "trigger_type \<Rightarrow> string" where
  "trigger_type_value CRON = ''cron''"
| "trigger_type_value INTERVAL = ''interval''"
| "trigger_type_value ONE_SHOT = ''one_shot''"
| "trigger_type_value MANUAL = ''manual''"
| "trigger_type_value EVENT = ''event''"

record trigger =
  tg_type :: trigger_type
  tg_cron :: string
  tg_interval :: int
  tg_run_at :: "instant option"
  tg_event :: string
  tg_timezone :: string
  tg_next :: "instant option"

definition should_fire :: "trigger \<Rightarrow> instant \<Rightarrow> bool" where
  "should_fire t now = (case tg_next t of None \<Rightarrow> False | Some n \<Rightarrow> now \<ge> n)"

section \<open>Step expressions\<close>

text \<open>\<open>str.split()\<close>: the maximal runs between white space.\<close>

definition space_at :: "string \<Rightarrow> bool" where
  "space_at s = (find (\<lambda>w. w \<noteq> [] \<and> starts_with w s) py_spaces \<noteq> None)"

fun first_word :: "string \<Rightarrow> string" where
  "first_word [] = []"
| "first_word (c # s) = (if space_at (c # s) then [] else c # first_word s)"

function py_split :: "string \<Rightarrow> string list" where
  "py_split s = (let t = py_lstrip s in
     if t = [] then [] else first_word t # py_split (drop (length (first_word t)) t))"
  by pat_completeness auto
termination
proof (relation "measure length")
  fix s t
  assume t: "t = py_lstrip s" "t \<noteq> []"
  obtain k where k: "t = drop k s" using chop_suffix t(1) by (auto simp: py_lstrip_def)
  have "\<not> space_at t" using chop_none [of py_spaces s] by (simp add: space_at_def t(1) py_lstrip_def)
  with t(2) have "0 < length (first_word t)" by (cases t) auto
  with t(2) have "length (drop (length (first_word t)) t) < length t" by (cases t) simp_all
  moreover have "length t \<le> length s" by (simp add: k)
  ultimately show "(drop (length (first_word t)) t, s) \<in> measure length" by simp
qed simp

declare py_split.simps [simp del]

definition digit_value :: "char \<Rightarrow> nat" where
  "digit_value c = of_char c - 48"

definition is_digit :: "char \<Rightarrow> bool" where
  "is_digit c = (48 \<le> (of_char c :: nat) \<and> (of_char c :: nat) \<le> 57)"

text \<open>\<open>re.fullmatch(r"\*/([1-9][0-9]?)", field)\<close> with the group as a number.\<close>

fun step_field :: "string \<Rightarrow> nat option" where
  "step_field [a, b, c] =
     (if a = CHR ''*'' \<and> b = CHR ''/'' \<and> is_digit c \<and> 1 \<le> digit_value c then Some (digit_value c) else None)"
| "step_field [a, b, c, d] =
     (if a = CHR ''*'' \<and> b = CHR ''/'' \<and> is_digit c \<and> 1 \<le> digit_value c \<and> is_digit d
      then Some (10 * digit_value c + digit_value d) else None)"
| "step_field _ = None"

definition cron_field :: "nat \<Rightarrow> string \<Rightarrow> nat option" where
  "cron_field maximum field =
    (if field = ''*'' then Some 1
     else case step_field field of
       None \<Rightarrow> None
     | Some n \<Rightarrow> if n > maximum then None else Some n)"

definition cron_steps :: "string \<Rightarrow> (nat \<times> nat) option" where
  "cron_steps expression =
    (case py_split expression of
       [minute, hour, a, b, c] \<Rightarrow>
         if [a, b, c] \<noteq> [''*'', ''*'', ''*''] then None
         else (case cron_field 60 minute of
                 None \<Rightarrow> None
               | Some m \<Rightarrow> (case cron_field 24 hour of None \<Rightarrow> None | Some h \<Rightarrow> Some (m, h)))
     | _ \<Rightarrow> None)"

lemma step_field_pos: "step_field f = Some n \<Longrightarrow> 0 < n"
  by (induction f rule: step_field.induct)
    (auto split: if_splits)

lemma cron_field_bounds: "cron_field maximum f = Some n \<Longrightarrow> 1 \<le> maximum \<Longrightarrow> 0 < n \<and> n \<le> maximum"
  using step_field_pos by (fastforce simp: cron_field_def split: if_splits option.splits)

lemma cron_steps_bounds: "cron_steps e = Some (m, h) \<Longrightarrow> 0 < m \<and> m \<le> 60 \<and> 0 < h \<and> h \<le> 24"
  by (auto simp: cron_steps_def split: list.splits if_splits option.splits dest!: cron_field_bounds)

section \<open>The next match\<close>

text \<open>\<open>range(a, n, k)\<close>\<close>

function py_range :: "nat \<Rightarrow> nat \<Rightarrow> nat \<Rightarrow> nat list" where
  "py_range a n k = (if a < n \<and> 0 < k then a # py_range (a + k) n k else [])"
  by pat_completeness auto
termination by (relation "measure (\<lambda>(a, n, k). n - a)") auto

declare py_range.simps [simp del]

lemma set_py_range: "0 < k \<Longrightarrow> set (py_range a n k) = {i. a \<le> i \<and> i < n \<and> k dvd i - a}"
proof (induction a n k rule: py_range.induct)
  case (1 a n k)
  show ?case
  proof (cases "a < n")
    case True
    have "a \<le> i \<and> i < n \<and> k dvd i - a \<longleftrightarrow> i = a \<or> (a + k \<le> i \<and> i < n \<and> k dvd i - (a + k))" for i
    proof (cases "a + k \<le> i")
      case True
      then have "i - a = (i - (a + k)) + k" by simp
      then have "k dvd i - a \<longleftrightarrow> k dvd i - (a + k)" by (metis dvd_add_triv_right_iff)
      with True \<open>0 < k\<close> show ?thesis by auto
    next
      case False
      with True \<open>0 < k\<close> show ?thesis by (auto dest: dvd_imp_le)
    qed
    with 1 True show ?thesis by (auto simp: py_range.simps [of a n k])
  qed (auto simp: py_range.simps [of a n k])
qed

lemma sorted_py_range: "sorted_wrt (<) (py_range a n k)"
proof (induction a n k rule: py_range.induct)
  case (1 a n k)
  show ?case
  proof (cases "a < n \<and> 0 < k")
    case True
    then have "\<forall>i \<in> set (py_range (a + k) n k). a < i" by (auto simp: set_py_range)
    with 1 True show ?thesis by (simp add: py_range.simps [of a n k])
  qed (auto simp: py_range.simps [of a n k])
qed

definition us_per_minute :: int where
  "us_per_minute = 60 * us_per_second"

definition us_per_hour :: int where
  "us_per_hour = 3600 * us_per_second"

definition us_per_day :: int where
  "us_per_day = 86400 * us_per_second"

definition midnight_of :: "instant \<Rightarrow> instant" where
  "midnight_of t = t - t mod us_per_day"

definition hour_of :: "instant \<Rightarrow> nat" where
  "hour_of t = nat (t mod us_per_day div us_per_hour)"

text \<open>The candidates of one day, in the order of the two inner loops, from the hour \<open>first\<close> on.\<close>

definition day_candidates :: "nat \<Rightarrow> nat \<Rightarrow> nat \<Rightarrow> instant \<Rightarrow> instant list" where
  "day_candidates m h first date =
     concat (map (\<lambda>hour. if hour < first then []
                         else map (\<lambda>minute. date + int hour * us_per_hour + int minute * us_per_minute)
                                (py_range 0 60 m))
                 (py_range 0 24 h))"

definition next_cron :: "string \<Rightarrow> datetime \<Rightarrow> instant option" where
  "next_cron expression at =
    (case cron_steps expression of
       None \<Rightarrow> None
     | Some (m, h) \<Rightarrow>
         if is_naive at then None
         else
           let now = utc_instant at; midnight = midnight_of now in
           case find (\<lambda>c. c > now) (day_candidates m h (hour_of now) midnight) of
             Some c \<Rightarrow> Some c
           | None \<Rightarrow>
               if midnight + us_per_day \<ge> max_instant then None
               else find (\<lambda>c. c > now) (day_candidates m h 0 (midnight + us_per_day)))"

definition compute_next :: "trigger \<Rightarrow> instant \<Rightarrow> exn + instant option" where
  "compute_next t now =
    (case tg_type t of
       ONE_SHOT \<Rightarrow> Inr (tg_run_at t)
     | INTERVAL \<Rightarrow>
         if tg_interval t \<le> 0 then Inr None
         else if now + tg_interval t * us_per_second \<ge> max_instant
         then Inl (Raise OverflowError ''date value out of range'')
         else Inr (Some (now + tg_interval t * us_per_second))
     | CRON \<Rightarrow> Inr (next_cron (tg_cron t) (Aware now 0))
     | MANUAL \<Rightarrow> Inr None
     | EVENT \<Rightarrow> Inr None)"

definition validate_trigger :: "trigger \<Rightarrow> bool" where
  "validate_trigger t =
    (case tg_type t of
       CRON \<Rightarrow> cron_steps (tg_cron t) \<noteq> None
     | INTERVAL \<Rightarrow> tg_interval t > 0
     | ONE_SHOT \<Rightarrow> tg_run_at t \<noteq> None
     | _ \<Rightarrow> True)"

section \<open>The next match is the least one\<close>

text \<open>What a step expression means: a full minute whose hour and minute are multiples of the steps.\<close>

definition cron_match :: "nat \<Rightarrow> nat \<Rightarrow> instant \<Rightarrow> bool" where
  "cron_match m h t =
    (t mod us_per_minute = 0 \<and> int h dvd t mod us_per_day div us_per_hour \<and>
     int m dvd t mod us_per_hour div us_per_minute)"

lemmas us_units = us_per_minute_def us_per_hour_def us_per_day_def us_per_second_def

lemma unit_ratios: "us_per_day = 24 * us_per_hour" "us_per_hour = 60 * us_per_minute"
  and unit_pos [simp]: "0 < us_per_day" "0 < us_per_hour" "0 < us_per_minute"
  by (simp_all add: us_units)

text \<open>\<open>q\<close> units of size \<open>b\<close> and a rest.\<close>

lemma unit_parts:
  fixes b :: int
  assumes "0 \<le> r" "r < b"
  shows "(q * b + r) div b = q" "(q * b + r) mod b = r"
  using assms by simp_all

lemma unit_bound: "0 \<le> q \<Longrightarrow> q < n \<Longrightarrow> 0 \<le> r \<Longrightarrow> r < b \<Longrightarrow> 0 \<le> q * b + r \<and> q * b + r < n * b"
  for q n r b :: int
proof -
  assume "0 \<le> q" "q < n" "0 \<le> r" "r < b"
  then have "(q + 1) * b \<le> n * b" by (intro mult_right_mono) simp_all
  moreover have "q * b + r < (q + 1) * b" using \<open>r < b\<close> by (simp add: distrib_right)
  moreover have "0 \<le> q * b" using \<open>0 \<le> q\<close> \<open>0 \<le> r\<close> \<open>r < b\<close> by simp
  ultimately show ?thesis using \<open>0 \<le> r\<close> by simp
qed

text \<open>An instant of the day that starts at \<open>date\<close> is its hour and its minute.\<close>

lemma clock_parts:
  assumes "date mod us_per_day = 0" and "hour < 24" "minute < 60"
  defines "t \<equiv> date + int hour * us_per_hour + int minute * us_per_minute"
  shows "t mod us_per_day div us_per_hour = int hour"
    and "t mod us_per_hour div us_per_minute = int minute" and "t mod us_per_minute = 0"
    and "midnight_of t = date"
proof -
  from assms(1) obtain d where d: "date = d * us_per_day" by (metis dvd_def mod_eq_0_iff_dvd mult.commute)
  have minute: "0 \<le> int minute * us_per_minute" "int minute * us_per_minute < us_per_hour"
    using unit_bound [of "int minute" 60 0 us_per_minute] assms(3) unit_pos(3)
    unfolding unit_ratios(2) by (simp_all only: add_0_right)
  have clock: "0 \<le> int hour * us_per_hour + int minute * us_per_minute"
      "int hour * us_per_hour + int minute * us_per_minute < us_per_day"
    using unit_bound [OF _ _ minute, of "int hour" 24] assms(2) unfolding unit_ratios(1) by simp_all
  have day: "t mod us_per_day = int hour * us_per_hour + int minute * us_per_minute"
    using unit_parts(2) [OF clock, of d] by (simp add: t_def d add.assoc)
  have "t = (d * 24 + int hour) * us_per_hour + int minute * us_per_minute"
    by (simp add: t_def d unit_ratios(1) algebra_simps)
  with unit_parts(2) [OF minute] have hour: "t mod us_per_hour = int minute * us_per_minute" by simp
  show "t mod us_per_day div us_per_hour = int hour"
    using unit_parts(1) [OF minute] by (simp add: day)
  show "t mod us_per_hour div us_per_minute = int minute"
    using unit_pos(3) by (simp add: hour del: unit_pos)
  have "t mod us_per_minute = t mod us_per_hour mod us_per_minute"
    by (simp add: mod_mod_cancel unit_ratios(2))
  then show "t mod us_per_minute = 0" by (simp add: hour)
  show "midnight_of t = date" by (simp add: midnight_of_def day) (simp add: t_def)
qed

lemma midnight_bounds: "midnight_of t \<le> t" "t < midnight_of t + us_per_day" "midnight_of t mod us_per_day = 0"
  using pos_mod_bound [of us_per_day t] pos_mod_sign [of us_per_day t]
  by (auto simp: midnight_of_def mod_diff_left_eq)

lemma clock_bounds:
  "0 \<le> t mod us_per_day div us_per_hour \<and> t mod us_per_day div us_per_hour < 24 \<and>
   0 \<le> t mod us_per_hour div us_per_minute \<and> t mod us_per_hour div us_per_minute < 60"
proof -
  have "0 \<le> t mod (a * b) div b \<and> t mod (a * b) div b < a" if "0 < a" "0 < b" for a b :: int
  proof -
    have "0 \<le> t mod (a * b)" "t mod (a * b) < a * b" using that by simp_all
    moreover have "t mod (a * b) div b < a"
    proof (rule ccontr)
      assume "\<not> t mod (a * b) div b < a"
      then have "a * b \<le> t mod (a * b) div b * b" using that(2) by (intro mult_right_mono) simp_all
      also have "\<dots> \<le> t mod (a * b)"
        using pos_mod_sign [OF that(2), of "t mod (a * b)"] by (simp add: minus_mod_eq_div_mult [symmetric])
      finally show False using \<open>t mod (a * b) < a * b\<close> by simp
    qed
    ultimately show ?thesis using that by (simp add: pos_imp_zdiv_nonneg_iff)
  qed
  from this [of 24 us_per_hour] this [of 60 us_per_minute] show ?thesis
    by (simp add: unit_ratios [symmetric])
qed

lemma clock_compose:
  assumes "t mod us_per_minute = 0"
  shows "midnight_of t + t mod us_per_day div us_per_hour * us_per_hour +
    t mod us_per_hour div us_per_minute * us_per_minute = t"
proof -
  have "t mod us_per_day mod us_per_hour = t mod us_per_hour"
    and "t mod us_per_hour mod us_per_minute = t mod us_per_minute"
    by (simp_all add: mod_mod_cancel unit_ratios)
  with assms div_mult_mod_eq [of "t mod us_per_day" us_per_hour]
    div_mult_mod_eq [of "t mod us_per_hour" us_per_minute]
  show ?thesis by (simp add: midnight_of_def)
qed

lemma day_candidates_match:
  assumes "date mod us_per_day = 0" and "0 < m" "0 < h"
  shows "c \<in> set (day_candidates m h first date) \<longleftrightarrow>
    cron_match m h c \<and> midnight_of c = date \<and> first \<le> hour_of c"
    (is "?l \<longleftrightarrow> ?r")
proof
  assume ?l
  then obtain hour minute where hm: "hour \<in> set (py_range 0 24 h)" "minute \<in> set (py_range 0 60 m)"
      "first \<le> hour" and c: "c = date + int hour * us_per_hour + int minute * us_per_minute"
    by (auto simp: day_candidates_def split: if_splits)
  from hm assms(2,3) have bounds: "hour < 24" "h dvd hour" "minute < 60" "m dvd minute"
    by (simp_all add: set_py_range)
  show ?r
    unfolding c using clock_parts [OF assms(1) bounds(1,3)] bounds hm(3)
    by (simp add: cron_match_def hour_of_def)
next
  assume r: ?r
  let ?x = "c mod us_per_day div us_per_hour" and ?y = "c mod us_per_hour div us_per_minute"
  have "c = date + ?x * us_per_hour + ?y * us_per_minute"
    using clock_compose [of c] r by (simp add: cron_match_def)
  moreover have "nat ?x \<in> set (py_range 0 24 h)" "nat ?y \<in> set (py_range 0 60 m)"
    using r clock_bounds [of c] assms(2,3) int_dvd_int_iff [of h "nat ?x"] int_dvd_int_iff [of m "nat ?y"]
    by (simp_all add: set_py_range cron_match_def nat_less_iff)
  moreover have "first \<le> nat ?x" using r by (simp add: hour_of_def)
  ultimately have "\<exists>hour \<in> set (py_range 0 24 h). first \<le> hour \<and>
      (\<exists>minute \<in> set (py_range 0 60 m). c = date + int hour * us_per_hour + int minute * us_per_minute)"
    using clock_bounds [of c] by (intro bexI [of _ "nat ?x"] conjI bexI [of _ "nat ?y"]) simp_all
  then show ?l by (auto simp: day_candidates_def)
qed

lemma sorted_concat_map:
  assumes "sorted_wrt (<) xs" and "\<And>x. x \<in> set xs \<Longrightarrow> sorted_wrt (<) (f x)"
    and "\<And>x y a b. x < y \<Longrightarrow> x \<in> set xs \<Longrightarrow> y \<in> set xs \<Longrightarrow> a \<in> set (f x) \<Longrightarrow> b \<in> set (f y) \<Longrightarrow> a < b"
  shows "sorted_wrt (<) (concat (map f xs))"
  using assms by (induction xs) (fastforce simp: sorted_wrt_append)+

lemma sorted_day_candidates:
  assumes "0 < m" "0 < h"
  shows "sorted_wrt (<) (day_candidates m h first date)"
  unfolding day_candidates_def
proof (rule sorted_concat_map [OF sorted_py_range])
  fix hour
  have "sorted_wrt (<) (map (\<lambda>minute. date + int hour * us_per_hour + int minute * us_per_minute) (py_range 0 60 m))"
    using sorted_py_range [of 0 60 m]
    by (simp add: sorted_wrt_map us_per_minute_def us_per_second_def)
  then show "sorted_wrt (<) (if hour < first then []
      else map (\<lambda>minute. date + int hour * us_per_hour + int minute * us_per_minute) (py_range 0 60 m))"
    by simp
next
  fix x y :: nat and a b
  assume "x < y"
    and a: "a \<in> set (if x < first then []
      else map (\<lambda>minute. date + int x * us_per_hour + int minute * us_per_minute) (py_range 0 60 m))"
    and b: "b \<in> set (if y < first then []
      else map (\<lambda>minute. date + int y * us_per_hour + int minute * us_per_minute) (py_range 0 60 m))"
  from a assms obtain i where "i < 60" "a = date + int x * us_per_hour + int i * us_per_minute"
    by (auto simp: set_py_range split: if_splits)
  moreover from b obtain j where "b = date + int y * us_per_hour + int j * us_per_minute"
    by (auto split: if_splits)
  ultimately show "a < b" using \<open>x < y\<close> by (simp add: us_units)
qed

lemma find_least:
  assumes "sorted_wrt (<) (xs :: instant list)"
  shows "find p xs = Some c \<longleftrightarrow> c \<in> set xs \<and> p c \<and> (\<forall>y \<in> set xs. y < c \<longrightarrow> \<not> p y)"
  using assms by (induction xs) (auto split: if_splits dest: order_less_asym)

lemma midnight_mono: "s \<le> t \<Longrightarrow> midnight_of s \<le> midnight_of t"
  by (simp add: midnight_of_def minus_mod_eq_mult_div zdiv_mono1 us_per_day_def us_per_second_def)

lemma hour_mono: "midnight_of s = midnight_of t \<Longrightarrow> s \<le> t \<Longrightarrow> hour_of s \<le> hour_of t"
proof -
  assume "midnight_of s = midnight_of t" "s \<le> t"
  then have "s mod us_per_day \<le> t mod us_per_day" by (simp add: midnight_of_def)
  then show ?thesis by (auto simp: hour_of_def us_units intro!: nat_mono zdiv_mono1)
qed

text \<open>Midnight matches every expression, so the search over two days finds the least match.\<close>

lemma midnight_matches: "cron_match m h (midnight_of t)"
proof -
  obtain d where "midnight_of t = us_per_day * d" using midnight_bounds(3) by (metis dvd_def mod_eq_0_iff_dvd)
  then show ?thesis by (simp add: cron_match_def us_units mod_mult_mult1)
qed

lemma today_candidate:
  assumes "0 < m" "0 < h" "cron_match m h y" "now < y" "midnight_of y = midnight_of now"
  shows "y \<in> set (day_candidates m h (hour_of now) (midnight_of now))"
  using assms hour_mono [of now y] by (simp add: day_candidates_match [OF midnight_bounds(3)])

text \<open>The day of a later instant: this one, or a later one that starts no earlier than tomorrow.\<close>

lemma later_day: "now < y \<Longrightarrow> midnight_of y = midnight_of now \<or> midnight_of now + us_per_day \<le> midnight_of y"
proof -
  assume "now < y"
  obtain a b where ab: "midnight_of now = a * us_per_day" "midnight_of y = b * us_per_day"
    using midnight_bounds(3) by (metis dvd_def mod_eq_0_iff_dvd mult.commute)
  have "midnight_of now \<le> midnight_of y" using \<open>now < y\<close> by (simp add: midnight_mono)
  with ab have "a \<le> b" by simp
  then consider "a = b" | "a + 1 \<le> b" by linarith
  then show ?thesis
  proof cases
    case 2
    then have "(a + 1) * us_per_day \<le> b * us_per_day"
      by (intro mult_right_mono order_less_imp_le [OF unit_pos(1)])
    with ab show ?thesis by (simp add: distrib_right)
  qed (simp add: ab)
qed

lemma midnight_of_midnight [simp]: "midnight_of (midnight_of t + us_per_day) = midnight_of t + us_per_day"
  "midnight_of (midnight_of t) = midnight_of t"
  using midnight_bounds(3) [of t] by (simp_all add: midnight_of_def [of "_ + _"] midnight_of_def [of "midnight_of t"])

lemma next_cron_Some:
  assumes steps: "cron_steps e = Some (m, h)" and next_at: "next_cron e (Aware now off) = Some c"
  shows "now < c \<and> cron_match m h c \<and> (\<forall>y. now < y \<and> y < c \<longrightarrow> \<not> cron_match m h y)"
proof -
  from cron_steps_bounds [OF steps] have pos: "0 < m" "0 < h" by simp_all
  let ?d = "midnight_of now"
  let ?today = "day_candidates m h (hour_of now) ?d" and ?next = "day_candidates m h 0 (?d + us_per_day)"
  have next_mod: "(?d + us_per_day) mod us_per_day = 0" using midnight_bounds(3) [of now] by simp
  note least = find_least [OF sorted_day_candidates [OF pos], where p = "\<lambda>c. c > now"]
  show ?thesis
  proof (cases "find (\<lambda>c. c > now) ?today")
    case (Some c')
    with next_at steps have "c' = c" by (simp add: next_cron_def Let_def)
    with Some least have c: "c \<in> set ?today" "now < c" "\<forall>y \<in> set ?today. y < c \<longrightarrow> \<not> now < y" by auto
    from c(1) have m: "cron_match m h c" "midnight_of c = ?d"
      by (simp_all add: day_candidates_match [OF midnight_bounds(3) pos])
    have "\<not> cron_match m h y" if y: "now < y" "y < c" for y
    proof
      assume match: "cron_match m h y"
      have "midnight_of y = ?d" using midnight_mono [of now y] midnight_mono [of y c] y m(2) by simp
      from today_candidate [OF pos match y(1) this] c(3) y show False by blast
    qed
    with c m show ?thesis by blast
  next
    case None
    with next_at steps have "find (\<lambda>c. c > now) ?next = Some c"
      by (auto simp: next_cron_def Let_def split: if_splits)
    with least have c: "c \<in> set ?next" "now < c" "\<forall>y \<in> set ?next. y < c \<longrightarrow> \<not> now < y" by auto
    from c(1) have m: "cron_match m h c" "midnight_of c = ?d + us_per_day"
      by (simp_all add: day_candidates_match [OF next_mod pos])
    have "\<not> cron_match m h y" if y: "now < y" "y < c" for y
    proof
      assume match: "cron_match m h y"
      have "midnight_of y \<noteq> ?d"
        using None today_candidate [OF pos match y(1)] y(1) by (auto simp: find_None_iff)
      with later_day [OF y(1)] midnight_mono [of y c] y(2) m(2) have "midnight_of y = ?d + us_per_day" by simp
      with match have "y \<in> set ?next" by (simp add: day_candidates_match [OF next_mod pos])
      with c(3) y show False by blast
    qed
    with c m show ?thesis by blast
  qed
qed

lemma next_cron_None:
  assumes steps: "cron_steps e = Some (m, h)" and next_at: "next_cron e (Aware now off) = None"
    and y: "now < y" "y < max_instant"
  shows "\<not> cron_match m h y"
proof
  assume match: "cron_match m h y"
  from cron_steps_bounds [OF steps] have pos: "0 < m" "0 < h" by simp_all
  let ?d = "midnight_of now"
  let ?today = "day_candidates m h (hour_of now) ?d" and ?next = "day_candidates m h 0 (?d + us_per_day)"
  have next_mod: "(?d + us_per_day) mod us_per_day = 0" using midnight_bounds(3) [of now] by simp
  from next_at steps have none: "find (\<lambda>c. c > now) ?today = None"
    by (auto simp: next_cron_def Let_def split: option.splits)
  with today_candidate [OF pos match y(1)] y(1) have "midnight_of y \<noteq> ?d" by (auto simp: find_None_iff)
  with later_day [OF y(1)] midnight_bounds(1) [of y] y(2) have "\<not> ?d + us_per_day \<ge> max_instant" by linarith
  with next_at steps none have "find (\<lambda>c. c > now) ?next = None" by (simp add: next_cron_def Let_def)
  moreover have "?d + us_per_day \<in> set ?next"
    using midnight_matches [of m h "?d + us_per_day"] by (simp add: day_candidates_match [OF next_mod pos])
  moreover have "now < ?d + us_per_day" by (rule midnight_bounds(2))
  ultimately show False by (auto simp: find_None_iff)
qed

end
