(* ===== verification/Scheduler_Store.thy ===== *)
theory Scheduler_Store
  imports Scheduler_Trigger
begin

text \<open>
  \<open>core/scheduler/models.py\<close> and \<open>persistence.py\<close>: jobs, the records of their runs, and the
  statements over the two SQLite tables that every runtime process shares.  A job is claimed by
  one worker, which holds a token; whoever finishes the job must still hold it.  Each operation is
  one transaction; \<open>io\<close> is a failure of SQLite.  Timestamp columns hold \<open>isoformat()\<close> texts and
  the statements compare texts; JSON columns are kept as their values.
\<close>

section \<open>Jobs and runs\<close>

datatype job_status = J_ACTIVE | J_RETRYING | J_PAUSED | J_RUNNING | J_COMPLETED | J_FAILED | J_CANCELLED

datatype run_status = R_RUNNING | R_SUCCESS | R_FAILED | R_TIMEOUT | R_CANCELLED

fun run_status_value :: "run_status \<Rightarrow> string" where
  "run_status_value R_RUNNING = ''running''"
| "run_status_value R_SUCCESS = ''success''"
| "run_status_value R_FAILED = ''failed''"
| "run_status_value R_TIMEOUT = ''timeout''"
| "run_status_value R_CANCELLED = ''cancelled''"

record job =
  jb_id :: string
  jb_name :: string
  jb_description :: string
  jb_version :: string
  jb_tags :: "string list"
  jb_metadata :: dict
  jb_created :: instant
  jb_trigger :: trigger
  jb_workflow :: string
  jb_variables :: dict
  jb_action :: string
  jb_payload :: dict
  jb_trace :: string
  jb_status :: job_status
  jb_max_retries :: int
  jb_timeout :: int
  jb_max_concurrent :: int
  jb_retry_count :: int
  jb_run_count :: int
  jb_last_run :: "instant option"
  jb_last_result :: string
  jb_last_error :: "failure_info option"
  jb_claim :: "string option"
  jb_expires :: "instant option"
  jb_updated :: instant
  jb_revision :: int

record job_run =
  jr_id :: string
  jr_job :: string
  jr_name :: string
  jr_status :: run_status
  jr_started :: instant
  jr_finished :: "instant option"
  jr_result :: json
  jr_error :: "string option"
  jr_trace :: string
  jr_failure :: "failure_info option"
  jr_attempt :: int
  jr_token :: string

text \<open>A row of \<open>job_runs\<close>; a row of \<open>jobs\<close> has the fields of a job.\<close>

record run_row =
  rr_id :: string
  rr_job :: string
  rr_attempt :: int
  rr_started :: instant
  rr_finished :: "instant option"
  rr_status :: run_status
  rr_token :: string
  rr_failure :: "failure_info option"
  rr_trace :: string

record sched_store =
  ss_open :: bool
  ss_jobs :: "job list"
  ss_runs :: "run_row list"

type_synonym 'a store_call = "sched_store \<Rightarrow> (exn + 'a) \<times> sched_store"

section \<open>Columns\<close>

definition failure_detail_keys :: "string list" where
  "failure_detail_keys =
     [''action_type'', ''attempt'', ''consecutive_failures'', ''job_id'', ''recovery_state'',
      ''reminder_id'', ''timeout_seconds'']"

text \<open>What the JSON of a failure keeps: not its message, not its cause, and only known details.\<close>

definition failure_column :: "failure_info \<Rightarrow> failure_info" where
  "failure_column f = f\<lparr>fi_message := [], fi_cause_type := [],
     fi_details := filter (\<lambda>(k, v). k \<in> set failure_detail_keys) (fi_details f)\<rparr>"

definition failure_of_column :: "(string \<Rightarrow> string) \<Rightarrow> failure_info \<Rightarrow> failure_info" where
  "failure_of_column san c = c\<lparr>fi_message := ''Scheduler operation failed'',
     fi_details := sanitize_dict san (fi_details c)\<rparr>"

text \<open>\<open>_job_values\<close>: \<open>json.dumps\<close> raises on a value it cannot write.\<close>

definition job_values :: "job \<Rightarrow> exn + job" where
  "job_values j =
    (if dumpable_dict (jb_metadata j) \<and> dumpable_dict (jb_variables j) \<and> dumpable_dict (jb_payload j)
     then Inr (j\<lparr>jb_last_error := map_option failure_column (jb_last_error j)\<rparr>)
     else Inl (Raise TypeError ''Object is not JSON serializable''))"

text \<open>\<open>_row_to_job\<close>: empty columns get their defaults, and the models validate again.\<close>

definition row_to_job :: "(string \<Rightarrow> string) \<Rightarrow> (string \<Rightarrow> bool) \<Rightarrow> job \<Rightarrow> exn + job" where
  "row_to_job san zone_ok r =
    (let tz = str_or (tg_timezone (jb_trigger r)) ''Asia/Shanghai'';
         rev = (if jb_revision r = 0 then 1 else jb_revision r)
     in if zone_ok tz \<and> jb_max_concurrent r = 1 \<and> 1 \<le> rev
        then Inr (r\<lparr>jb_version := str_or (jb_version r) ''1.0.0'',
                    jb_trigger := (jb_trigger r)\<lparr>tg_timezone := tz\<rparr>,
                    jb_action := str_or (jb_action r) ''workflow'',
                    jb_last_error := map_option (failure_of_column san) (jb_last_error r),
                    jb_revision := rev\<rparr>)
        else Inl (Raise ValidationError ''Job''))"

definition row_to_run :: "(string \<Rightarrow> string) \<Rightarrow> run_row \<Rightarrow> exn + job_run" where
  "row_to_run san r =
    (if 1 \<le> rr_attempt r
     then Inr \<lparr>jr_id = rr_id r, jr_job = rr_job r, jr_name = [], jr_status = rr_status r,
               jr_started = rr_started r, jr_finished = rr_finished r, jr_result = JNull,
               jr_error = None, jr_trace = rr_trace r,
               jr_failure = map_option (failure_of_column san) (rr_failure r),
               jr_attempt = rr_attempt r, jr_token = rr_token r\<rparr>
     else Inl (Raise ValidationError ''JobRun''))"

text \<open>\<open>c<=?\<close> and \<open>c<?\<close> on a timestamp column; a comparison with NULL is not true.\<close>

definition sql_le :: "instant option \<Rightarrow> instant \<Rightarrow> bool" where
  "sql_le c t = (case c of None \<Rightarrow> False | Some u \<Rightarrow> isoformat u \<le> isoformat t)"

definition sql_less :: "instant option \<Rightarrow> instant \<Rightarrow> bool" where
  "sql_less c t = (case c of None \<Rightarrow> False | Some u \<Rightarrow> isoformat u < isoformat t)"

lemma sql_le_iff: "in_calendar t \<Longrightarrow> (\<And>u. c = Some u \<Longrightarrow> in_calendar u) \<Longrightarrow>
   sql_le c t \<longleftrightarrow> (\<exists>u. c = Some u \<and> u \<le> t)"
  by (auto simp: sql_le_def isoformat_le split: option.splits)

lemma sql_less_iff: "in_calendar t \<Longrightarrow> (\<And>u. c = Some u \<Longrightarrow> in_calendar u) \<Longrightarrow>
   sql_less c t \<longleftrightarrow> (\<exists>u. c = Some u \<and> u < t)"
  by (auto simp: sql_less_def isoformat_less split: option.splits)

section \<open>Statements\<close>

definition perr :: "string \<Rightarrow> exn" where
  "perr m = Raise SchedulerPersistenceError m"

text \<open>An operation on an open connection; \<open>m\<close> is the text of the error any failure becomes.\<close>

definition on_open :: "'a store_call \<Rightarrow> 'a store_call" where
  "on_open body s =
     (if ss_open s then body s else (Inl (perr ''Scheduler persistence is not initialized''), s))"

definition run_sql :: "exn option \<Rightarrow> string \<Rightarrow> 'a store_call \<Rightarrow> 'a store_call" where
  "run_sql io m body s = (case io of Some e \<Rightarrow> (Inl (perr m), s) | None \<Rightarrow> body s)"

definition store_save :: "exn option \<Rightarrow> job \<Rightarrow> unit store_call" where
  "store_save io j s =
    (case job_values j of
       Inl e \<Rightarrow> (Inl e, s)
     | Inr row \<Rightarrow> on_open (run_sql io ''Scheduler job save failed'' (\<lambda>s.
         if row_of jb_id (jb_id row) (ss_jobs s) \<noteq> None
         then (Inl (perr ''Scheduler job save failed''), s)
         else (Inr (), s\<lparr>ss_jobs := ss_jobs s @ [row]\<rparr>))) s)"

definition claimable :: "instant \<Rightarrow> job \<Rightarrow> bool" where
  "claimable now r =
    (jb_status r \<in> {J_ACTIVE, J_RETRYING} \<and> sql_le (tg_next (jb_trigger r)) now \<and>
     (jb_claim r = None \<or> sql_less (jb_expires r) now))"

definition claimed_row :: "instant \<Rightarrow> string \<Rightarrow> instant \<Rightarrow> job \<Rightarrow> job" where
  "claimed_row now token expires r = r
     \<lparr>jb_status := J_RUNNING, jb_claim := Some token, jb_expires := Some expires,
      jb_updated := now, jb_revision := jb_revision r + 1\<rparr>"

definition claimed_run :: "instant \<Rightarrow> string \<Rightarrow> string \<Rightarrow> job \<Rightarrow> run_row" where
  "claimed_run now token run_id r =
    \<lparr>rr_id = run_id, rr_job = jb_id r, rr_attempt = jb_run_count r + 1, rr_started = now,
     rr_finished = None, rr_status = R_RUNNING, rr_token = token, rr_failure = None,
     rr_trace = str_or (jb_trace r) run_id\<rparr>"

text \<open>
  The row is decoded after the commit: a row that does not decode leaves the claim in the table.
\<close>

definition store_claim ::
  "(string \<Rightarrow> string) \<Rightarrow> (string \<Rightarrow> bool) \<Rightarrow> exn option \<Rightarrow> string \<Rightarrow> instant \<Rightarrow> string \<Rightarrow> instant \<Rightarrow>
   string \<Rightarrow> job option store_call" where
  "store_claim san zone_ok io i now token expires run_id =
    on_open (run_sql io ''Scheduler job claim failed'' (\<lambda>s.
      let hit = (\<lambda>r. jb_id r = i \<and> claimable now r);
          rows = update_where hit (claimed_row now token expires) (ss_jobs s)
      in if rowcount hit (ss_jobs s) \<noteq> 1 then (Inr None, s)
         else case row_of jb_id i rows of
                None \<Rightarrow> (Inl (perr ''Scheduler job claim failed''), s)
              | Some r \<Rightarrow>
                  if row_of rr_id run_id (ss_runs s) \<noteq> None
                  then (Inl (perr ''Scheduler job claim failed''), s)
                  else
                    let s' = s\<lparr>ss_jobs := rows, ss_runs := ss_runs s @ [claimed_run now token run_id r]\<rparr>
                    in (case row_to_job san zone_ok r of
                          Inl e \<Rightarrow> (Inl (perr ''Scheduler job claim failed''), s')
                        | Inr j \<Rightarrow> (Inr (Some j), s'))))"

definition finalized_row :: "job \<Rightarrow> job \<Rightarrow> job" where
  "finalized_row v r = r
     \<lparr>jb_status := jb_status v, jb_trigger := (jb_trigger r)\<lparr>tg_next := tg_next (jb_trigger v)\<rparr>,
      jb_retry_count := jb_retry_count v, jb_run_count := jb_run_count v,
      jb_last_run := jb_last_run v, jb_last_result := jb_last_result v,
      jb_last_error := jb_last_error v, jb_claim := None, jb_expires := None,
      jb_updated := jb_updated v, jb_revision := jb_revision r + 1\<rparr>"

definition finalized_run :: "job_run \<Rightarrow> run_row \<Rightarrow> run_row" where
  "finalized_run run r = r
     \<lparr>rr_finished := jr_finished run, rr_status := jr_status run,
      rr_failure := map_option failure_column (jr_failure run), rr_trace := jr_trace run\<rparr>"

definition store_finalize :: "exn option \<Rightarrow> job \<Rightarrow> job_run \<Rightarrow> string \<Rightarrow> unit store_call" where
  "store_finalize io j run token s =
    (case job_values j of
       Inl e \<Rightarrow> (Inl e, s)
     | Inr v \<Rightarrow> on_open (run_sql io ''Scheduler claim finalization failed'' (\<lambda>s.
         let hit = (\<lambda>r. jb_id r = jb_id v \<and> jb_claim r = Some token);
             run_hit = (\<lambda>r. rr_id r = jr_id run \<and> rr_token r = token)
         in if rowcount hit (ss_jobs s) \<noteq> 1
            then (Inl (Raise JobClaimLostError ''Scheduler job claim is no longer owned''), s)
            else if rowcount run_hit (ss_runs s) \<noteq> 1
            then (Inl (Raise JobClaimLostError ''Scheduler JobRun claim is no longer owned''), s)
            else (Inr (), s\<lparr>ss_jobs := update_where hit (finalized_row v) (ss_jobs s),
                            ss_runs := update_where run_hit (finalized_run run) (ss_runs s)\<rparr>))) s)"

text \<open>\<open>renew_claim\<close> has no \<open>except\<close>: an exception of SQLite reaches the caller as it is.\<close>

definition renewable :: "string \<Rightarrow> string \<Rightarrow> instant \<Rightarrow> job \<Rightarrow> bool" where
  "renewable i token now r =
    (jb_id r = i \<and> jb_status r = J_RUNNING \<and> jb_claim r = Some token \<and>
     (case jb_expires r of None \<Rightarrow> False | Some u \<Rightarrow> isoformat u > isoformat now))"

definition store_renew :: "exn option \<Rightarrow> string \<Rightarrow> string \<Rightarrow> instant \<Rightarrow> instant \<Rightarrow> bool store_call" where
  "store_renew io i token expires now =
    on_open (\<lambda>s. case io of
       Some e \<Rightarrow> (Inl e, s)
     | None \<Rightarrow> (Inr (rowcount (renewable i token now) (ss_jobs s) = 1),
         s\<lparr>ss_jobs := update_where (renewable i token now)
              (\<lambda>r. r\<lparr>jb_expires := Some expires, jb_updated := now, jb_revision := jb_revision r + 1\<rparr>)
              (ss_jobs s)\<rparr>))"

definition expired_failure :: failure_info where
  "expired_failure =
    \<lparr>fi_code = ''scheduler.job.claim_expired'', fi_category = EXECUTION_FAILURE,
     fi_message = ''Scheduler claim expired'', fi_component = ''scheduler.persistence'',
     fi_operation = ''recover_claim'', fi_retryable = True, fi_trace_id = [], fi_cause_type = [],
     fi_details = []\<rparr>"

definition expired :: "instant \<Rightarrow> job \<Rightarrow> bool" where
  "expired now r = (jb_status r = J_RUNNING \<and> sql_le (jb_expires r) now)"

definition released_row :: "instant \<Rightarrow> int \<Rightarrow> job \<Rightarrow> job" where
  "released_row now delay r =
    (let final = (jb_retry_count r + 1 \<ge> jb_max_retries r) in r
     \<lparr>jb_status := if final then J_FAILED else J_RETRYING,
      jb_retry_count := jb_retry_count r + 1, jb_run_count := jb_run_count r + 1,
      jb_trigger := (jb_trigger r)\<lparr>tg_next := if final then None else Some (now + delay)\<rparr>,
      jb_last_result := ''failed'', jb_last_error := Some (failure_column expired_failure),
      jb_claim := None, jb_expires := None, jb_updated := now, jb_revision := jb_revision r + 1\<rparr>)"

definition released_run :: "instant \<Rightarrow> run_row \<Rightarrow> run_row" where
  "released_run now r = r
     \<lparr>rr_status := R_FAILED, rr_finished := Some now, rr_failure := Some (failure_column expired_failure)\<rparr>"

definition orphaned :: "job list \<Rightarrow> instant \<Rightarrow> run_row \<Rightarrow> bool" where
  "orphaned jobs now r =
    (rr_status r = R_RUNNING \<and> Some (rr_token r) \<in> jb_claim ` set (filter (expired now) jobs))"

definition store_release :: "exn option \<Rightarrow> instant \<Rightarrow> int \<Rightarrow> nat store_call" where
  "store_release io now delay =
    on_open (run_sql io ''Expired Scheduler claim recovery failed'' (\<lambda>s.
      (Inr (rowcount (expired now) (ss_jobs s)),
       s\<lparr>ss_runs := update_where (orphaned (ss_jobs s) now) (released_run now) (ss_runs s),
         ss_jobs := update_where (expired now) (released_row now delay) (ss_jobs s)\<rparr>)))"

definition store_load ::
  "(string \<Rightarrow> string) \<Rightarrow> (string \<Rightarrow> bool) \<Rightarrow> exn option \<Rightarrow> sched_store \<Rightarrow> exn + job list" where
  "store_load san zone_ok io s =
    (if io \<noteq> None \<or> \<not> ss_open s then Inl (perr ''Scheduler jobs load failed'')
     else case decode_rows (row_to_job san zone_ok)
                 (sort_key (\<lambda>r. (isoformat (jb_created r), jb_id r)) (ss_jobs s)) of
            Inl e \<Rightarrow> Inl (perr ''Scheduler jobs load failed'')
          | Inr js \<Rightarrow> Inr js)"

definition store_get ::
  "(string \<Rightarrow> string) \<Rightarrow> (string \<Rightarrow> bool) \<Rightarrow> exn option \<Rightarrow> string \<Rightarrow> sched_store \<Rightarrow> exn + job option" where
  "store_get san zone_ok io i s =
    (if io \<noteq> None \<or> \<not> ss_open s then Inl (perr ''Scheduler job query failed'')
     else case row_of jb_id i (ss_jobs s) of
            None \<Rightarrow> Inr None
          | Some r \<Rightarrow> (case row_to_job san zone_ok r of
                        Inl e \<Rightarrow> Inl (perr ''Scheduler job query failed'')
                      | Inr j \<Rightarrow> Inr (Some j)))"

definition store_runs ::
  "(string \<Rightarrow> string) \<Rightarrow> exn option \<Rightarrow> string \<Rightarrow> sched_store \<Rightarrow> exn + job_run list" where
  "store_runs san io i s =
    (if io \<noteq> None \<or> \<not> ss_open s then Inl (perr ''Scheduler JobRun query failed'')
     else case decode_rows (row_to_run san)
                 (sort_key (\<lambda>r. (rr_attempt r, isoformat (rr_started r)))
                   (filter (\<lambda>r. rr_job r = i) (ss_runs s))) of
            Inl e \<Rightarrow> Inl (perr ''Scheduler JobRun query failed'')
          | Inr rs \<Rightarrow> Inr rs)"

text \<open>An UPDATE of one job followed by reading it back; again the commit comes first.\<close>

definition update_and_read ::
  "(string \<Rightarrow> string) \<Rightarrow> (string \<Rightarrow> bool) \<Rightarrow> string \<Rightarrow> string \<Rightarrow> (job \<Rightarrow> bool) \<Rightarrow> (job \<Rightarrow> job) \<Rightarrow>
   job option store_call" where
  "update_and_read san zone_ok m i hit f s =
    (if rowcount hit (ss_jobs s) \<noteq> 1 then (Inr None, s)
     else let s' = s\<lparr>ss_jobs := update_where hit f (ss_jobs s)\<rparr>
          in case row_of jb_id i (ss_jobs s') of
               None \<Rightarrow> (Inl (perr m), s')
             | Some r \<Rightarrow> (case row_to_job san zone_ok r of
                           Inl e \<Rightarrow> (Inl (perr m), s')
                         | Inr j \<Rightarrow> (Inr (Some j), s')))"

definition pausable :: "string \<Rightarrow> int \<Rightarrow> job \<Rightarrow> bool" where
  "pausable i n r =
    (jb_id r = i \<and> jb_revision r = n \<and> jb_status r \<in> {J_ACTIVE, J_RETRYING} \<and> jb_claim r = None)"

definition paused_row :: "instant \<Rightarrow> job \<Rightarrow> job" where
  "paused_row now r = r\<lparr>jb_status := J_PAUSED, jb_updated := now, jb_revision := jb_revision r + 1\<rparr>"

definition store_pause ::
  "(string \<Rightarrow> string) \<Rightarrow> (string \<Rightarrow> bool) \<Rightarrow> exn option \<Rightarrow> string \<Rightarrow> int \<Rightarrow> instant \<Rightarrow> job option store_call" where
  "store_pause san zone_ok io i n now =
    on_open (run_sql io ''Scheduler job pause failed''
      (update_and_read san zone_ok ''Scheduler job pause failed'' i (pausable i n) (paused_row now)))"

definition resumable :: "string \<Rightarrow> int \<Rightarrow> job \<Rightarrow> bool" where
  "resumable i n r = (jb_id r = i \<and> jb_revision r = n \<and> jb_status r = J_PAUSED \<and> jb_claim r = None)"

definition resumed_row :: "instant option \<Rightarrow> instant \<Rightarrow> job \<Rightarrow> job" where
  "resumed_row next_at now r = r
     \<lparr>jb_status := J_ACTIVE, jb_trigger := (jb_trigger r)\<lparr>tg_next := next_at\<rparr>,
      jb_updated := now, jb_revision := jb_revision r + 1\<rparr>"

definition store_resume ::
  "(string \<Rightarrow> string) \<Rightarrow> (string \<Rightarrow> bool) \<Rightarrow> exn option \<Rightarrow> string \<Rightarrow> int \<Rightarrow> instant option \<Rightarrow> instant \<Rightarrow>
   job option store_call" where
  "store_resume san zone_ok io i n next_at now =
    on_open (run_sql io ''Scheduler job resume failed''
      (update_and_read san zone_ok ''Scheduler job resume failed'' i (resumable i n) (resumed_row next_at now)))"

definition deletable :: "string \<Rightarrow> int \<Rightarrow> job \<Rightarrow> bool" where
  "deletable i n r = (jb_id r = i \<and> jb_revision r = n \<and> jb_status r \<noteq> J_RUNNING \<and> jb_claim r = None)"

definition store_delete :: "exn option \<Rightarrow> string \<Rightarrow> int option \<Rightarrow> bool store_call" where
  "store_delete io i expected =
    on_open (run_sql io ''Scheduler job delete failed'' (\<lambda>s.
      case (case expected of Some n \<Rightarrow> Some n
            | None \<Rightarrow> map_option jb_revision (row_of jb_id i (ss_jobs s))) of
        None \<Rightarrow> (Inr False, s)
      | Some n \<Rightarrow>
          if rowcount (deletable i n) (ss_jobs s) = 1
          then (Inr True, s\<lparr>ss_jobs := filter (\<lambda>r. \<not> deletable i n r) (ss_jobs s),
                            ss_runs := filter (\<lambda>r. rr_job r \<noteq> i) (ss_runs s)\<rparr>)
          else (Inr False, s\<lparr>ss_jobs := filter (\<lambda>r. \<not> deletable i n r) (ss_jobs s)\<rparr>)))"

definition cancellable :: "string \<Rightarrow> job \<Rightarrow> bool" where
  "cancellable i r = (jb_id r = i \<and> jb_status r \<in> {J_ACTIVE, J_RETRYING, J_PAUSED})"

definition cancelled_row :: "instant \<Rightarrow> job \<Rightarrow> job" where
  "cancelled_row now r = r
     \<lparr>jb_status := J_CANCELLED, jb_trigger := (jb_trigger r)\<lparr>tg_next := None\<rparr>, jb_claim := None,
      jb_expires := None, jb_updated := now, jb_revision := jb_revision r + 1\<rparr>"

definition store_cancel :: "exn option \<Rightarrow> string \<Rightarrow> instant \<Rightarrow> bool store_call" where
  "store_cancel io i now =
    on_open (run_sql io ''Scheduler job cancellation failed'' (\<lambda>s.
      (Inr (rowcount (cancellable i) (ss_jobs s) = 1),
       s\<lparr>ss_jobs := update_where (cancellable i) (cancelled_row now) (ss_jobs s)\<rparr>)))"

definition reschedulable :: "string \<Rightarrow> int \<Rightarrow> job \<Rightarrow> bool" where
  "reschedulable i n r =
    (jb_id r = i \<and> jb_revision r = n \<and> jb_claim r = None \<and>
     jb_status r \<in> {J_ACTIVE, J_RETRYING, J_PAUSED, J_FAILED, J_CANCELLED})"

definition rescheduled_row :: "instant \<Rightarrow> string \<Rightarrow> dict \<Rightarrow> instant \<Rightarrow> job \<Rightarrow> job" where
  "rescheduled_row run_at tz payload now r = r
     \<lparr>jb_trigger := (jb_trigger r)\<lparr>tg_run_at := Some run_at, tg_next := Some run_at, tg_timezone := tz\<rparr>,
      jb_payload := payload, jb_status := J_ACTIVE, jb_retry_count := 0, jb_last_error := None,
      jb_updated := now, jb_revision := jb_revision r + 1\<rparr>"

text \<open>The payload is written as JSON inside the \<open>try\<close>.\<close>

definition store_reschedule ::
  "exn option \<Rightarrow> string \<Rightarrow> int \<Rightarrow> instant \<Rightarrow> string \<Rightarrow> dict \<Rightarrow> instant \<Rightarrow> bool store_call" where
  "store_reschedule io i n run_at tz payload now =
    on_open (run_sql io ''Scheduler job reschedule failed'' (\<lambda>s.
      if \<not> dumpable_dict payload then (Inl (perr ''Scheduler job reschedule failed''), s)
      else (Inr (rowcount (reschedulable i n) (ss_jobs s) = 1),
            s\<lparr>ss_jobs := update_where (reschedulable i n) (rescheduled_row run_at tz payload now)
                (ss_jobs s)\<rparr>)))"

definition store_open_connection :: "exn option \<Rightarrow> unit store_call" where
  "store_open_connection io s =
    (if ss_open s then (Inr (), s)
     else case io of
       Some e \<Rightarrow> (Inl e, s)
     | None \<Rightarrow> (Inr (), s\<lparr>ss_open := True\<rparr>))"

definition store_close :: "sched_store \<Rightarrow> sched_store" where
  "store_close s = s\<lparr>ss_open := False\<rparr>"

lemma on_open_cases:
  assumes "on_open body s = (res, s')"
  obtains (closed) "s' = s" "\<exists>e. res = Inl e" | (opened) "ss_open s" "body s = (res, s')"
  using assms by (auto simp: on_open_def split: if_splits)

lemma run_sql_cases:
  assumes "run_sql io m body s = (res, s')"
  obtains (failed) "s' = s" "\<exists>e. res = Inl e" | (ran) "io = None" "body s = (res, s')"
  using assms by (auto simp: run_sql_def split: option.splits)

end
