(* ===== verification/Scheduler_Runtime.thy ===== *)
theory Scheduler_Runtime
  imports Scheduler_Store
begin

text \<open>
  \<open>core/scheduler/registry.py\<close>, \<open>jobs.py\<close> and \<open>runtime.py\<close>: the registry of jobs of one process,
  the execution of a claimed job, and the operations of \<open>SchedulerRuntime\<close> over the shared store.
  What the surroundings supply is an argument: the clock readings, the failures of SQLite, the
  UUIDs drawn, the answer of the admission gate, what the bus does, and the outcome of the action
  handler.  Seconds of the configuration are microseconds here.
\<close>

section \<open>Registry\<close>

type_synonym job_registry = "(string \<times> job) list"

definition reg_by_name :: "string \<Rightarrow> job_registry \<Rightarrow> job option" where
  "reg_by_name n reg = find (\<lambda>j. jb_name j = n) (map snd reg)"

definition reg_register :: "job \<Rightarrow> job_registry \<Rightarrow> exn + job_registry" where
  "reg_register j reg =
    (if map_of reg (jb_id j) \<noteq> None \<or> reg_by_name (jb_name j) reg \<noteq> None
     then Inl (Raise JobAlreadyExistsError (''Job already exists: '' @ jb_name j))
     else Inr (put (jb_id j) j reg))"

definition reg_replace :: "job \<Rightarrow> job_registry \<Rightarrow> exn + job_registry" where
  "reg_replace j reg =
    (if map_of reg (jb_id j) = None then Inl (Raise JobNotFoundError (''Job not found: '' @ jb_id j))
     else Inr (put (jb_id j) j reg))"

definition reg_exists :: "string \<Rightarrow> job_registry \<Rightarrow> bool" where
  "reg_exists i reg = (map_of reg i \<noteq> None)"

section \<open>Runtime\<close>

record sched_config =
  cf_max_concurrent :: nat
  cf_default_timeout :: int
  cf_persistent :: bool
  cf_auto_recover :: bool
  cf_failure_threshold :: nat
  cf_claim_ttl :: int
  cf_retry_delay :: int
  cf_cancel_on_shutdown :: bool

text \<open>A worker is a background task: the claimed job, the run, and the token it holds.\<close>

record worker =
  wk_job :: job
  wk_run :: job_run
  wk_token :: string

record sched_message =
  sm_type :: string
  sm_job :: string

record runtime =
  rt_registry :: job_registry
  rt_running :: bool
  rt_workers :: "worker list"
  rt_failures :: nat
  rt_last_tick :: "instant option"
  rt_last_success :: "instant option"
  rt_last_error :: "failure_info option"
  rt_bus_broken :: bool
  rt_published :: "sched_message list"

text \<open>
  What \<open>asyncio.wait_for(handler.execute(job, run), timeout)\<close> does.  A handler that takes too long
  raises TimeoutError, a missing handler JobStateError, a cancelled task CancelledError.
\<close>

datatype handler_outcome = Handler_Returns json | Handler_Raises exn

text \<open>\<open>se_ending\<close>: how the handler of the worker with a token ends while a shutdown waits for it.\<close>

record sched_env =
  se_san :: "string \<Rightarrow> string"
  se_zone_ok :: "string \<Rightarrow> bool"
  se_config :: sched_config
  se_now :: instant
  se_later :: instant
  se_io :: "exn option"
  se_write_io :: "exn option"
  se_sync_io :: "exn option"
  se_claim_io :: "string \<Rightarrow> exn option"
  se_bus :: bus_mode
  se_uuid :: string
  se_token :: "string \<Rightarrow> string"
  se_run_id :: "string \<Rightarrow> string"
  se_admits :: "string \<Rightarrow> bool"
  se_ending :: "string \<Rightarrow> handler_outcome option"

type_synonym 'a sched_call = "runtime \<times> sched_store \<Rightarrow> (exn + 'a) \<times> (runtime \<times> sched_store)"

definition on_store :: "'a store_call \<Rightarrow> 'a sched_call" where
  "on_store m x = (case x of (rt, st) \<Rightarrow> (case m st of (r, st') \<Rightarrow> (r, (rt, st'))))"

definition read_store :: "(sched_store \<Rightarrow> exn + 'a) \<Rightarrow> 'a sched_call" where
  "read_store m x = (m (snd x), x)"

definition read_runtime :: "(runtime \<Rightarrow> 'a) \<Rightarrow> 'a sched_call" where
  "read_runtime f x = (Inr (f (fst x)), x)"

definition change_runtime :: "(runtime \<Rightarrow> runtime) \<Rightarrow> unit sched_call" where
  "change_runtime f x = (Inr (), (f (fst x), snd x))"

definition change_registry :: "(job_registry \<Rightarrow> exn + job_registry) \<Rightarrow> unit sched_call" where
  "change_registry f x =
    (case x of (rt, st) \<Rightarrow>
       (case f (rt_registry rt) of
          Inl e \<Rightarrow> (Inl e, x)
        | Inr reg \<Rightarrow> (Inr (), (rt\<lparr>rt_registry := reg\<rparr>, st))))"

text \<open>\<open>_publish_event\<close>: an exception is recorded, never raised.\<close>

definition publish_event :: "sched_env \<Rightarrow> string \<Rightarrow> string \<Rightarrow> unit sched_call" where
  "publish_event env ty i = change_runtime (\<lambda>rt.
     case se_bus env of
       Bus_Off \<Rightarrow> rt\<lparr>rt_bus_broken := False\<rparr>
     | Bus_Accepts \<Rightarrow> rt\<lparr>rt_bus_broken := False, rt_published := rt_published rt @ [\<lparr>sm_type = ty, sm_job = i\<rparr>]\<rparr>
     | Bus_Raises e \<Rightarrow> rt\<lparr>rt_bus_broken := True\<rparr>)"

definition persistent :: "sched_env \<Rightarrow> bool" where
  "persistent env = cf_persistent (se_config env)"

text \<open>
  \<open>_sync_registry_from_persistence\<close>: first every persisted job is replaced or registered, in the
  order of the table, then the others are dropped.  A \<open>register\<close> that raises ends the loop with
  what was done so far.
\<close>

fun sync_rows :: "job list \<Rightarrow> unit sched_call" where
  "sync_rows [] = retS ()"
| "sync_rows (j # js) =
     bindS (read_runtime (\<lambda>rt. reg_exists (jb_id j) (rt_registry rt))) (\<lambda>known.
     bindS (change_registry (if known then reg_replace j else reg_register j)) (\<lambda>_. sync_rows js))"

definition sync_registry :: "sched_env \<Rightarrow> unit sched_call" where
  "sync_registry env =
     bindS (read_store (store_load (se_san env) (se_zone_ok env) (se_sync_io env))) (\<lambda>js.
     bindS (sync_rows js) (\<lambda>_.
     change_runtime (\<lambda>rt. rt\<lparr>rt_registry := filter (\<lambda>(i, j). i \<in> jb_id ` set js) (rt_registry rt)\<rparr>)))"

definition get_job :: "sched_env \<Rightarrow> string \<Rightarrow> job option sched_call" where
  "get_job env i =
    (if persistent env
     then bindS (read_store (store_get (se_san env) (se_zone_ok env) (se_io env) i)) (\<lambda>found.
          case found of
            None \<Rightarrow> retS None
          | Some j \<Rightarrow>
              bindS (read_runtime (\<lambda>rt. reg_exists i (rt_registry rt))) (\<lambda>known.
              bindS (if known then change_registry (reg_replace j) else retS ()) (\<lambda>_. retS (Some j))))
     else read_runtime (\<lambda>rt. map_of (rt_registry rt) i))"

text \<open>A job object of the registry changed in place, when there is no persistence.\<close>

definition set_job :: "job \<Rightarrow> unit sched_call" where
  "set_job j = change_runtime (\<lambda>rt. rt\<lparr>rt_registry := put (jb_id j) j (rt_registry rt)\<rparr>)"

section \<open>Operations on jobs\<close>

record schedule_request =
  rq_name :: string
  rq_workflow :: string
  rq_trigger :: trigger
  rq_variables :: dict
  rq_tags :: "string list"
  rq_action :: string
  rq_payload :: dict
  rq_trace :: string

definition trigger_error :: "trigger \<Rightarrow> exn" where
  "trigger_error t = Raise TriggerError (''Invalid trigger: '' @ trigger_type_value (tg_type t))"

text \<open>The models give the defaults: version 1.0.0, three retries, one owner, revision 1.\<close>

definition new_job :: "sched_env \<Rightarrow> schedule_request \<Rightarrow> trigger \<Rightarrow> job" where
  "new_job env q t =
    \<lparr>jb_id = se_uuid env, jb_name = rq_name q, jb_description = [], jb_version = ''1.0.0'',
     jb_tags = rq_tags q, jb_metadata = [], jb_created = se_later env, jb_trigger = t,
     jb_workflow = rq_workflow q, jb_variables = rq_variables q, jb_action = rq_action q,
     jb_payload = rq_payload q, jb_trace = rq_trace q, jb_status = J_ACTIVE, jb_max_retries = 3,
     jb_timeout = cf_default_timeout (se_config env), jb_max_concurrent = 1, jb_retry_count = 0,
     jb_run_count = 0, jb_last_run = None, jb_last_result = [], jb_last_error = None,
     jb_claim = None, jb_expires = None, jb_updated = se_later env, jb_revision = 1\<rparr>"

definition schedule :: "sched_env \<Rightarrow> schedule_request \<Rightarrow> job sched_call" where
  "schedule env q =
    bindS (read_runtime (\<lambda>rt. reg_by_name (rq_name q) (rt_registry rt))) (\<lambda>existing.
    if existing \<noteq> None then failS (Raise JobAlreadyExistsError (''Job already exists: '' @ rq_name q))
    else if \<not> validate_trigger (rq_trigger q) then failS (trigger_error (rq_trigger q))
    else
      case (if tg_type (rq_trigger q) \<noteq> MANUAL then compute_next (rq_trigger q) (se_now env)
            else Inr (tg_next (rq_trigger q))) of
        Inl e \<Rightarrow> failS e
      | Inr next_at \<Rightarrow>
          let j = new_job env q ((rq_trigger q)\<lparr>tg_next := next_at\<rparr>)
          in bindS (change_registry (reg_register j)) (\<lambda>_.
             bindS (\<lambda>x. if persistent env
                     then (case on_store (store_save (se_write_io env) j) x of
                             (Inl e, (rt, st)) \<Rightarrow>
                               (Inl e, (rt\<lparr>rt_registry := pop (jb_id j) (rt_registry rt)\<rparr>, st))
                           | (Inr u, y) \<Rightarrow> (Inr u, y))
                     else (Inr (), x)) (\<lambda>_.
             bindS (publish_event env ''scheduler.created'' (jb_id j)) (\<lambda>_. retS j))))"

definition job_state_error :: "string \<Rightarrow> exn" where
  "job_state_error m = Raise JobStateError m"

definition pause_job :: "sched_env \<Rightarrow> string \<Rightarrow> bool sched_call" where
  "pause_job env i =
    bindS (get_job env i) (\<lambda>found. case found of
      None \<Rightarrow> retS False
    | Some j \<Rightarrow>
        if jb_status j = J_RUNNING then failS (job_state_error ''Running Job cannot be paused'')
        else bindS
          (if persistent env
           then bindS (on_store (store_pause (se_san env) (se_zone_ok env) (se_write_io env) i
                         (jb_revision j) (se_now env))) (\<lambda>changed. case changed of
                  None \<Rightarrow> bindS (sync_registry env) (\<lambda>_.
                    failS (job_state_error ''Job changed concurrently and cannot be paused''))
                | Some j' \<Rightarrow> change_registry (reg_replace j'))
           else if jb_status j \<notin> {J_ACTIVE, J_RETRYING}
           then failS (job_state_error ''Only active or retrying Job can be paused'')
           else set_job (j\<lparr>jb_status := J_PAUSED\<rparr>))
          (\<lambda>_. bindS (publish_event env ''scheduler.paused'' i) (\<lambda>_. retS True)))"

definition resume_job :: "sched_env \<Rightarrow> string \<Rightarrow> bool sched_call" where
  "resume_job env i =
    bindS (get_job env i) (\<lambda>found. case found of
      None \<Rightarrow> retS False
    | Some j \<Rightarrow>
        if jb_status j \<noteq> J_PAUSED then failS (job_state_error ''Only paused Job can be resumed'')
        else if \<not> validate_trigger (jb_trigger j) then failS (trigger_error (jb_trigger j))
        else case (if tg_type (jb_trigger j) \<noteq> MANUAL then compute_next (jb_trigger j) (se_now env)
                   else Inr (tg_next (jb_trigger j))) of
          Inl e \<Rightarrow> failS e
        | Inr next_at \<Rightarrow> bindS
            (if persistent env
             then bindS (on_store (store_resume (se_san env) (se_zone_ok env) (se_write_io env) i
                           (jb_revision j) next_at
                           (if tg_type (jb_trigger j) \<noteq> MANUAL then se_later env else se_now env))) (\<lambda>changed. case changed of
                    None \<Rightarrow> bindS (sync_registry env) (\<lambda>_.
                      failS (job_state_error ''Job changed concurrently and cannot be resumed''))
                  | Some j' \<Rightarrow> change_registry (reg_replace j'))
             else set_job (j\<lparr>jb_status := J_ACTIVE, jb_trigger := (jb_trigger j)\<lparr>tg_next := next_at\<rparr>\<rparr>))
            (\<lambda>_. bindS (publish_event env ''scheduler.resumed'' i) (\<lambda>_. retS True)))"

definition delete_job :: "sched_env \<Rightarrow> string \<Rightarrow> bool sched_call" where
  "delete_job env i =
    bindS (get_job env i) (\<lambda>found. case found of
      None \<Rightarrow> retS False
    | Some j \<Rightarrow>
        if jb_status j = J_RUNNING then failS (job_state_error ''Running Job cannot be deleted'')
        else bindS
          (if persistent env
           then bindS (on_store (store_delete (se_write_io env) i (Some (jb_revision j)))) (\<lambda>deleted.
                  if deleted then retS ()
                  else bindS (sync_registry env) (\<lambda>_.
                    failS (job_state_error ''Job changed concurrently and cannot be deleted'')))
           else retS ())
          (\<lambda>_. bindS (change_runtime (\<lambda>rt. rt\<lparr>rt_registry := pop i (rt_registry rt)\<rparr>)) (\<lambda>_.
               bindS (publish_event env ''scheduler.deleted'' i) (\<lambda>_. retS True))))"

definition cancel_job :: "sched_env \<Rightarrow> string \<Rightarrow> bool sched_call" where
  "cancel_job env i =
    bindS (get_job env i) (\<lambda>found. case found of
      None \<Rightarrow> retS False
    | Some j \<Rightarrow>
        if persistent env
        then bindS (on_store (store_cancel (se_write_io env) i (se_now env))) (\<lambda>cancelled.
             bindS (sync_registry env) (\<lambda>_. retS cancelled))
        else if jb_status j \<notin> {J_ACTIVE, J_RETRYING, J_PAUSED} then retS False
        else bindS (set_job (j\<lparr>jb_status := J_CANCELLED, jb_trigger := (jb_trigger j)\<lparr>tg_next := None\<rparr>,
                                jb_claim := None, jb_expires := None\<rparr>)) (\<lambda>_. retS True))"

definition reschedule_one_shot ::
  "sched_env \<Rightarrow> string \<Rightarrow> instant \<Rightarrow> string \<Rightarrow> dict \<Rightarrow> bool sched_call" where
  "reschedule_one_shot env i run_at tz payload =
    bindS (get_job env i) (\<lambda>found. case found of
      None \<Rightarrow> retS False
    | Some j \<Rightarrow>
        if tg_type (jb_trigger j) \<noteq> ONE_SHOT then retS False
        else if persistent env
        then bindS (on_store (store_reschedule (se_write_io env) i (jb_revision j) run_at tz payload
                      (se_now env))) (\<lambda>changed.
             bindS (sync_registry env) (\<lambda>_. retS changed))
        else if jb_status j \<notin> {J_ACTIVE, J_RETRYING, J_PAUSED, J_FAILED, J_CANCELLED} then retS False
        else bindS (set_job (j\<lparr>jb_trigger := (jb_trigger j)\<lparr>tg_run_at := Some run_at, tg_next := Some run_at,
                                   tg_timezone := tz\<rparr>,
                                jb_payload := payload, jb_status := J_ACTIVE, jb_retry_count := 0,
                                jb_last_error := None\<rparr>)) (\<lambda>_. retS True))"

definition list_jobs :: "sched_env \<Rightarrow> job list sched_call" where
  "list_jobs env =
    bindS (if persistent env then sync_registry env else retS ()) (\<lambda>_.
    read_runtime (\<lambda>rt. map snd (rt_registry rt)))"

definition list_job_runs :: "sched_env \<Rightarrow> string \<Rightarrow> job_run list sched_call" where
  "list_job_runs env i =
    (if persistent env then read_store (store_runs (se_san env) (se_io env) i) else retS [])"

section \<open>Start and stop\<close>

text \<open>\<open>_recover_jobs\<close>: a job whose identifier or name is taken is skipped.\<close>

fun recover_rows :: "job list \<Rightarrow> job_registry \<Rightarrow> job_registry" where
  "recover_rows [] reg = reg"
| "recover_rows (j # js) reg =
     recover_rows js (case reg_register j reg of Inl e \<Rightarrow> reg | Inr reg' \<Rightarrow> reg')"

definition sched_initialize :: "sched_env \<Rightarrow> unit sched_call" where
  "sched_initialize env =
    (if \<not> persistent env then retS ()
     else bindS (on_store (store_open_connection (se_io env))) (\<lambda>_.
          bindS (on_store (store_release (se_write_io env) (se_now env) (cf_retry_delay (se_config env)))) (\<lambda>_.
          if \<not> cf_auto_recover (se_config env) then retS ()
          else bindS (read_store (store_load (se_san env) (se_zone_ok env) (se_sync_io env))) (\<lambda>js.
               change_runtime (\<lambda>rt. rt\<lparr>rt_registry := recover_rows js (rt_registry rt)\<rparr>)))))"

definition sched_start :: "sched_env \<Rightarrow> unit sched_call" where
  "sched_start env =
    bindS (read_runtime rt_running) (\<lambda>running.
    if running then retS ()
    else bindS (change_runtime (\<lambda>rt. rt\<lparr>rt_running := True, rt_failures := 0\<rparr>)) (\<lambda>_.
         publish_event env ''scheduler.started'' ''scheduler''))"

section \<open>The tick\<close>

definition new_run :: "job \<Rightarrow> instant \<Rightarrow> string \<Rightarrow> string \<Rightarrow> job_run" where
  "new_run j now token run_id =
    \<lparr>jr_id = run_id, jr_job = jb_id j, jr_name = jb_name j, jr_status = R_RUNNING, jr_started = now,
     jr_finished = None, jr_result = JNull, jr_error = None, jr_trace = str_or (jb_trace j) run_id,
     jr_failure = None, jr_attempt = jb_run_count j + 1, jr_token = token\<rparr>"

definition start_worker :: "job \<Rightarrow> instant \<Rightarrow> string \<Rightarrow> string \<Rightarrow> unit sched_call" where
  "start_worker j now token run_id = change_runtime (\<lambda>rt.
     rt\<lparr>rt_workers := rt_workers rt @ [\<lparr>wk_job = j, wk_run = new_run j now token run_id, wk_token = token\<rparr>]\<rparr>)"

definition running_count :: "runtime \<Rightarrow> nat" where
  "running_count rt = length (filter (\<lambda>j. jb_status j = J_RUNNING) (map snd (rt_registry rt)))"

definition dispatch_due_job :: "sched_env \<Rightarrow> instant \<Rightarrow> job \<Rightarrow> unit sched_call" where
  "dispatch_due_job env now j =
    bindS (read_runtime running_count) (\<lambda>n.
    if n \<ge> cf_max_concurrent (se_config env) then retS ()
    else
      let token = se_token env (jb_id j); run_id = se_run_id env (jb_id j);
          expires = now + cf_claim_ttl (se_config env)
      in if persistent env
         then bindS (on_store (store_claim (se_san env) (se_zone_ok env) (se_claim_io env (jb_id j)) (jb_id j)
                       now token expires run_id)) (\<lambda>claimed. case claimed of
                None \<Rightarrow> retS ()
              | Some j' \<Rightarrow> bindS (change_registry (reg_replace j')) (\<lambda>_. start_worker j' now token run_id))
         else let j' = j\<lparr>jb_status := J_RUNNING, jb_claim := Some token, jb_expires := Some expires\<rparr>
              in bindS (set_job j') (\<lambda>_. start_worker j' now token run_id))"

text \<open>The loop over the active jobs; a closed admission gate ends the tick without an error.\<close>

fun dispatch_all :: "sched_env \<Rightarrow> instant \<Rightarrow> job list \<Rightarrow> unit sched_call" where
  "dispatch_all env now [] = retS ()"
| "dispatch_all env now (j # js) =
     (if \<not> should_fire (jb_trigger j) now then dispatch_all env now js
      else if \<not> se_admits env (jb_id j) then retS ()
      else bindS (dispatch_due_job env now j) (\<lambda>_. dispatch_all env now js))"

definition tick :: "sched_env \<Rightarrow> unit sched_call" where
  "tick env =
    bindS (if persistent env
           then bindS (on_store (store_release (se_write_io env) (se_now env) (cf_retry_delay (se_config env))))
                  (\<lambda>_. sync_registry env)
           else retS ()) (\<lambda>_.
    bindS (read_runtime (\<lambda>rt. filter (\<lambda>j. jb_status j \<in> {J_ACTIVE, J_RETRYING}) (map snd (rt_registry rt)))) (\<lambda>active.
    case find (\<lambda>j. \<not> validate_trigger (jb_trigger j)) active of
      Some j \<Rightarrow> failS (trigger_error (jb_trigger j))
    | None \<Rightarrow> dispatch_all env (se_now env) active))"

text \<open>One round of \<open>_tick_loop\<close>: a tick that raises is counted and announced, and the loop goes on.\<close>

definition tick_round :: "sched_env \<Rightarrow> unit sched_call" where
  "tick_round env x =
    (case tick env x of
       (Inr u, (rt, st)) \<Rightarrow>
         (Inr (), (rt\<lparr>rt_last_tick := Some (se_later env), rt_last_success := Some (se_later env),
                      rt_failures := 0\<rparr>, st))
     | (Inl e, (rt, st)) \<Rightarrow>
         let n = rt_failures rt + 1;
             f = failure_from_exception (se_san env) e ''scheduler.runtime'' ''tick'' [] (Some ''scheduler.tick.failed'')
                   (Some EXECUTION_FAILURE) (Some True) [(''consecutive_failures'', JInt (int n))]
         in publish_event env ''scheduler.tick.failed'' ''scheduler''
              (rt\<lparr>rt_last_tick := Some (se_later env), rt_failures := n, rt_last_error := Some f\<rparr>, st))"

section \<open>Execution of a claimed job\<close>

text \<open>The two handlers of exceptions; the first is for \<open>asyncio.TimeoutError\<close>.\<close>

definition failed_run :: "(string \<Rightarrow> string) \<Rightarrow> exn \<Rightarrow> job \<Rightarrow> job_run \<Rightarrow> job_run" where
  "failed_run san e j run =
    (if has_class [TimeoutError] e
     then run
       \<lparr>jr_status := R_TIMEOUT,
        jr_failure := Some (failure_from_exception san e ''scheduler.job'' ''execute'' (jr_trace run)
          (Some ''scheduler.job.timeout'') (Some TIMEOUT) (Some True)
          [(''timeout_seconds'', JInt (jb_timeout j))]),
        jr_error := Some (''Job timed out after '' @ int_text (jb_timeout j) @ ''s'')\<rparr>
     else
       let f = failure_from_exception san e ''scheduler.job'' ''execute'' (jr_trace run)
                 (Some ''scheduler.job.execution_failed'') None None [];
           g = (if fi_category f = INTERNAL
                then f\<lparr>fi_category := DEPENDENCY_FAILURE, fi_retryable := True\<rparr> else f)
       in run\<lparr>jr_status := R_FAILED, jr_failure := Some g, jr_error := Some (fi_message g)\<rparr>)"

text \<open>CancelledError is not an \<open>Exception\<close>: no handler of exceptions below stops it.\<close>

definition is_cancelled :: "exn \<Rightarrow> bool" where
  "is_cancelled e = has_class [CancelledError] e"

text \<open>\<open>JobExecutor.execute\<close>, without the two events it publishes.\<close>

definition execute_job ::
  "(string \<Rightarrow> string) \<Rightarrow> handler_outcome \<Rightarrow> instant \<Rightarrow> job \<Rightarrow> job_run \<Rightarrow> exn + job \<times> job_run" where
  "execute_job san outcome finished j run0 =
    (if jb_status j = J_PAUSED then Inl (job_state_error (''Job '' @ jb_name j @ '' is paused''))
     else
       let run = run0\<lparr>jr_trace := str_or (jr_trace run0) (str_or (jb_trace j) (jr_id run0))\<rparr>;
           ends = (\<lambda>ended.
             let run' = ended\<lparr>jr_finished := Some finished\<rparr>
             in Inr (j\<lparr>jb_last_run := Some finished, jb_last_result := run_status_value (jr_status run'),
                       jb_last_error := jr_failure run', jb_run_count := jb_run_count j + 1\<rparr>, run'))
       in case outcome of
            Handler_Returns v \<Rightarrow> ends (run\<lparr>jr_result := v, jr_status := R_SUCCESS\<rparr>)
          | Handler_Raises e \<Rightarrow> if is_cancelled e then Inl e else ends (failed_run san e j run))"

text \<open>The status and the next time after an execution.\<close>

definition settled_status :: "job \<Rightarrow> job_run \<Rightarrow> job" where
  "settled_status j run =
    (let j = j\<lparr>jb_last_error := jr_failure run\<rparr> in
     if jr_status run = R_SUCCESS
     then j\<lparr>jb_retry_count := 0,
            jb_status := (if tg_type (jb_trigger j) = ONE_SHOT then J_COMPLETED else J_ACTIVE)\<rparr>
     else j\<lparr>jb_retry_count := jb_retry_count j + 1,
            jb_status := (if jb_retry_count j + 1 \<ge> jb_max_retries j then J_FAILED else J_RETRYING)\<rparr>)"

definition settled_next :: "sched_env \<Rightarrow> job \<Rightarrow> exn + job" where
  "settled_next env j =
    (let set_next = (\<lambda>n. j\<lparr>jb_trigger := (jb_trigger j)\<lparr>tg_next := n\<rparr>, jb_updated := se_later env\<rparr>) in
     if jb_status j = J_ACTIVE \<and> tg_type (jb_trigger j) \<noteq> MANUAL
     then bindR (compute_next (jb_trigger j) (se_later env)) (\<lambda>n. Inr (set_next n))
     else if jb_status j = J_RETRYING
     then Inr (set_next (Some (se_later env + cf_retry_delay (se_config env))))
     else Inr (set_next None))"

text \<open>The \<open>except Exception\<close> branch: the job as it is by then, and the run.\<close>

definition runtime_failed :: "sched_env \<Rightarrow> exn \<Rightarrow> job \<Rightarrow> job_run \<Rightarrow> job \<times> job_run" where
  "runtime_failed env e j run =
    (let f = failure_from_exception (se_san env) e ''scheduler.runtime'' ''run_job'' []
               (Some ''scheduler.job.runtime_failed'') (Some EXECUTION_FAILURE) (Some True)
               [(''job_id'', JStr (jb_id j))]
     in (j\<lparr>jb_status := J_FAILED, jb_last_error := Some f, jb_run_count := jb_run_count j + 1,
           jb_last_run := Some (se_later env), jb_last_result := ''failed''\<rparr>,
         run\<lparr>jr_status := R_FAILED, jr_failure := Some f, jr_error := Some ''Scheduler runtime failed'',
             jr_finished := Some (se_later env)\<rparr>))"

text \<open>
  What \<open>_run_job\<close> hands to \<open>finalize_claim\<close>, and whether that branch was taken; a cancelled run
  raises and hands nothing.
\<close>

definition settle :: "sched_env \<Rightarrow> handler_outcome \<Rightarrow> worker \<Rightarrow> exn + bool \<times> job \<times> job_run" where
  "settle env outcome w =
    (let j = (wk_job w)\<lparr>jb_status := J_RUNNING\<rparr> in
     case execute_job (se_san env) outcome (se_now env) j (wk_run w) of
       Inl e \<Rightarrow> if is_cancelled e then Inl e else Inr (True, runtime_failed env e j (wk_run w))
     | Inr (j', run) \<Rightarrow>
         (case settled_next env (settled_status j' run) of
            Inl e \<Rightarrow> Inr (True, runtime_failed env e (settled_status j' run) run)
          | Inr j'' \<Rightarrow> Inr (False, j''\<lparr>jb_claim := Some (wk_token w)\<rparr>, run)))"

definition drop_worker :: "worker \<Rightarrow> unit sched_call" where
  "drop_worker w = change_runtime (\<lambda>rt. rt\<lparr>rt_workers := remove1 w (rt_workers rt)\<rparr>)"

text \<open>A cancelled task: the claim stays, and its expiry lets a later owner retry.\<close>

definition cancel_worker :: "sched_env \<Rightarrow> worker \<Rightarrow> unit sched_call" where
  "cancel_worker env w =
    bindS (drop_worker w) (\<lambda>_.
    if persistent env then retS ()
    else set_job ((wk_job w)\<lparr>jb_status := J_ACTIVE, jb_claim := None, jb_expires := None\<rparr>))"

text \<open>The end of \<open>_run_job\<close>: finalise, then show the persisted row in the registry.\<close>

definition finish_worker :: "sched_env \<Rightarrow> handler_outcome \<Rightarrow> worker \<Rightarrow> unit sched_call" where
  "finish_worker env outcome w =
    (case settle env outcome w of
       Inl e \<Rightarrow> bindS (cancel_worker env w) (\<lambda>_. failS e)
     | Inr (failed, j, run) \<Rightarrow>
       bindS (drop_worker w) (\<lambda>_.
       bindS (if failed then publish_event env ''scheduler.job.failed'' (jb_id j) else retS ()) (\<lambda>_.
       if persistent env
       then bindS (on_store (store_finalize (se_write_io env) j run (wk_token w))) (\<lambda>_.
            bindS (read_store (store_get (se_san env) (se_zone_ok env) (se_io env) (jb_id j))) (\<lambda>found.
            case found of None \<Rightarrow> retS () | Some p \<Rightarrow> change_registry (reg_replace p)))
       else set_job (j\<lparr>jb_claim := None, jb_expires := None\<rparr>))))"

text \<open>One round of \<open>_renew_claim_loop\<close>; the result says whether the loop goes on.\<close>

definition renew_worker :: "sched_env \<Rightarrow> worker \<Rightarrow> bool sched_call" where
  "renew_worker env w =
    on_store (store_renew (se_write_io env) (jb_id (wk_job w)) (wk_token w)
      (se_now env + cf_claim_ttl (se_config env)) (se_now env))"

section \<open>Shutting down\<close>

text \<open>
  The background tasks are cancelled at once, or waited for until the shutdown timeout, as the
  configuration says; those that have not ended by then (\<open>se_ending\<close> has no outcome) are cancelled.
  \<open>gather\<close> keeps their exceptions.
\<close>

definition ending_of :: "sched_env \<Rightarrow> worker \<Rightarrow> handler_outcome" where
  "ending_of env w =
    (case (if cf_cancel_on_shutdown (se_config env) then None else se_ending env (wk_token w)) of
       None \<Rightarrow> Handler_Raises (Raise CancelledError [])
     | Some outcome \<Rightarrow> outcome)"

definition gathered :: "'a sched_call \<Rightarrow> unit sched_call" where
  "gathered m x = (Inr (), snd (m x))"

fun end_workers :: "sched_env \<Rightarrow> worker list \<Rightarrow> unit sched_call" where
  "end_workers env [] = retS ()"
| "end_workers env (w # ws) =
     bindS (gathered (finish_worker env (ending_of env w) w)) (\<lambda>_. end_workers env ws)"

definition sched_shutdown :: "sched_env \<Rightarrow> unit sched_call" where
  "sched_shutdown env =
    bindS (change_runtime (\<lambda>rt. rt\<lparr>rt_running := False\<rparr>)) (\<lambda>_.
    bindS (read_runtime rt_workers) (\<lambda>tasks.
    bindS (end_workers env tasks) (\<lambda>_.
    bindS (change_runtime (\<lambda>rt. rt\<lparr>rt_workers := []\<rparr>)) (\<lambda>_.
    bindS (publish_event env ''scheduler.shutdown'' ''scheduler'') (\<lambda>_.
    on_store (\<lambda>s. (Inr (), store_close s)))))))"

section \<open>Health\<close>

record sched_report =
  sr_status :: runtime_status
  sr_active_jobs :: nat
  sr_running_jobs :: nat
  sr_failures :: nat
  sr_last_error :: "failure_info option"

definition sched_health :: "sched_env \<Rightarrow> bool \<Rightarrow> runtime \<Rightarrow> sched_report" where
  "sched_health env executor_degraded rt =
    \<lparr>sr_status =
       (if \<not> rt_running rt then STOPPED
        else if rt_failures rt \<ge> cf_failure_threshold (se_config env) then STATUS_FAILED
        else if rt_failures rt \<noteq> 0 \<or> rt_bus_broken rt \<or> executor_degraded then DEGRADED
        else OK),
     sr_active_jobs = length (filter (\<lambda>j. jb_status j = J_ACTIVE) (map snd (rt_registry rt))),
     sr_running_jobs = length (rt_workers rt), sr_failures = rt_failures rt,
     sr_last_error = rt_last_error rt\<rparr>"

end
