(* ===== verification/Scheduler_Claims.thy ===== *)
theory Scheduler_Claims
  imports Scheduler_Store Store_Contracts
begin

text \<open>
  The invariant of the scheduler's tables: a job is running exactly while a token claims it, each
  claim has one open record of a run, no record is open without its claim, and the attempts of a
  job are numbered without repetition.  Every statement of \<open>persistence.py\<close> keeps it.
\<close>

section \<open>The invariant\<close>

definition job_ok :: "job \<Rightarrow> bool" where
  "job_ok j = ((jb_status j = J_RUNNING \<longleftrightarrow> jb_claim j \<noteq> None) \<and> (jb_claim j \<noteq> None \<longrightarrow> jb_expires j \<noteq> None))"

definition claim_recorded :: "run_row list \<Rightarrow> job \<Rightarrow> bool" where
  "claim_recorded runs j = (\<forall>tok. jb_claim j = Some tok \<longrightarrow>
     (\<exists>r \<in> set runs. rr_token r = tok \<and> rr_job r = jb_id j \<and> rr_status r = R_RUNNING))"

definition run_of :: "job \<Rightarrow> run_row \<Rightarrow> bool" where
  "run_of j r = (jb_id j = rr_job r \<and>
     (if rr_status r = R_RUNNING
      then jb_claim j = Some (rr_token r) \<and> rr_attempt r = jb_run_count j + 1
      else rr_attempt r \<le> jb_run_count j))"

definition sched_ok :: "sched_store \<Rightarrow> bool" where
  "sched_ok s =
    (keyed jb_id (ss_jobs s) \<and> keyed rr_id (ss_runs s) \<and> keyed rr_token (ss_runs s) \<and>
     keyed (\<lambda>r. (rr_job r, rr_attempt r)) (ss_runs s) \<and>
     (\<forall>j \<in> set (ss_jobs s). job_ok j \<and> claim_recorded (ss_runs s) j) \<and>
     (\<forall>r \<in> set (ss_runs s). \<exists>j \<in> set (ss_jobs s). run_of j r))"

lemma sched_okI [wf_rules]:
  assumes "keyed jb_id (ss_jobs s)" "keyed rr_id (ss_runs s)" "keyed rr_token (ss_runs s)"
    "keyed (\<lambda>r. (rr_job r, rr_attempt r)) (ss_runs s)"
    and "\<And>j. j \<in> set (ss_jobs s) \<Longrightarrow> job_ok j \<and> claim_recorded (ss_runs s) j"
    and "\<And>r. r \<in> set (ss_runs s) \<Longrightarrow> \<exists>j \<in> set (ss_jobs s). run_of j r"
  shows "sched_ok s"
  using assms by (simp add: sched_ok_def)

lemma sched_okD:
  assumes "sched_ok s"
  shows "keyed jb_id (ss_jobs s)" "keyed rr_id (ss_runs s)" "keyed rr_token (ss_runs s)"
    "keyed (\<lambda>r. (rr_job r, rr_attempt r)) (ss_runs s)"
    and "j \<in> set (ss_jobs s) \<Longrightarrow> job_ok j" "j \<in> set (ss_jobs s) \<Longrightarrow> claim_recorded (ss_runs s) j"
  using assms by (simp_all add: sched_ok_def)

lemma sched_ok_run:
  assumes "sched_ok s" "r \<in> set (ss_runs s)"
  obtains j where "j \<in> set (ss_jobs s)" "run_of j r"
  using assms by (auto simp: sched_ok_def)

definition empty_sched :: sched_store where
  "empty_sched = \<lparr>ss_open = False, ss_jobs = [], ss_runs = []\<rparr>"

lemma sched_ok_empty [wf_rules]: "sched_ok empty_sched"
  by (simp add: sched_ok_def empty_sched_def)

lemma sched_ok_frame [frame_rules]:
  "ss_jobs s' = ss_jobs s \<Longrightarrow> ss_runs s' = ss_runs s \<Longrightarrow> sched_ok s' = sched_ok s"
  by (simp add: sched_ok_def)

section \<open>Statements that leave the runs alone\<close>

text \<open>An UPDATE of jobs that keeps the identity, the claim, and the count of runs of each row.\<close>

lemma sched_ok_update_jobs:
  assumes ok: "sched_ok s"
    and keep: "\<And>r. r \<in> set (ss_jobs s) \<Longrightarrow> hit r \<Longrightarrow>
      jb_id (f r) = jb_id r \<and> jb_claim (f r) = jb_claim r \<and> jb_run_count (f r) = jb_run_count r \<and> job_ok (f r)"
  shows "sched_ok (s\<lparr>ss_jobs := update_where hit f (ss_jobs s)\<rparr>)"
proof -
  let ?g = "\<lambda>r. if hit r then f r else r"
  have g: "jb_id (?g r) = jb_id r \<and> jb_claim (?g r) = jb_claim r \<and> jb_run_count (?g r) = jb_run_count r \<and>
      job_ok (?g r)" if "r \<in> set (ss_jobs s)" for r
    using keep [OF that] sched_okD(5) [OF ok that] by auto
  have rows: "set (update_where hit f (ss_jobs s)) = ?g ` set (ss_jobs s)" by (rule set_update_where)
  have "map jb_id (update_where hit f (ss_jobs s)) = map jb_id (ss_jobs s)"
    using g by (simp add: update_where_def)
  then have "keyed jb_id (update_where hit f (ss_jobs s))"
    using sched_okD(1) [OF ok] by (simp add: keyed_def)
  moreover have "job_ok j \<and> claim_recorded (ss_runs s) j" if "j \<in> ?g ` set (ss_jobs s)" for j
  proof -
    from that obtain r where r: "r \<in> set (ss_jobs s)" "j = ?g r" by blast
    with g [OF r(1)] sched_okD(6) [OF ok r(1)] show ?thesis by (simp add: claim_recorded_def)
  qed
  moreover have "\<exists>j \<in> ?g ` set (ss_jobs s). run_of j r" if r: "r \<in> set (ss_runs s)" for r
  proof -
    obtain j where j: "j \<in> set (ss_jobs s)" "run_of j r" by (rule sched_ok_run [OF ok r])
    with g [OF j(1)] have "run_of (?g j) r" by (simp add: run_of_def)
    with j(1) show ?thesis by blast
  qed
  ultimately show ?thesis
    using sched_okD(2-4) [OF ok] by (simp add: sched_ok_def rows)
qed

lemma sched_ok_add_job:
  assumes ok: "sched_ok s" and new: "row_of jb_id (jb_id j) (ss_jobs s) = None"
    and idle: "jb_status j \<noteq> J_RUNNING" "jb_claim j = None"
  shows "sched_ok (s\<lparr>ss_jobs := ss_jobs s @ [j]\<rparr>)"
proof (rule sched_okI)
  show "keyed jb_id (ss_jobs (s\<lparr>ss_jobs := ss_jobs s @ [j]\<rparr>))" using sched_okD(1) [OF ok] new by simp
next
  fix x assume "x \<in> set (ss_jobs (s\<lparr>ss_jobs := ss_jobs s @ [j]\<rparr>))"
  then show "job_ok x \<and> claim_recorded (ss_runs (s\<lparr>ss_jobs := ss_jobs s @ [j]\<rparr>)) x"
    using idle sched_okD(5,6) [OF ok] by (auto simp: job_ok_def claim_recorded_def)
next
  fix r assume "r \<in> set (ss_runs (s\<lparr>ss_jobs := ss_jobs s @ [j]\<rparr>))"
  then show "\<exists>x \<in> set (ss_jobs (s\<lparr>ss_jobs := ss_jobs s @ [j]\<rparr>)). run_of x r"
    using ok by (auto simp: sched_ok_def)
qed (use sched_okD [OF ok] in simp_all)

section \<open>Claims\<close>

lemma idle_row:
  assumes "sched_ok s" "j \<in> set (ss_jobs s)" "jb_status j \<noteq> J_RUNNING"
  shows "jb_claim j = None"
  using sched_okD(5) [OF assms(1,2)] assms(3) by (simp add: job_ok_def)

lemma same_job:
  assumes "sched_ok s" "j \<in> set (ss_jobs s)" "j' \<in> set (ss_jobs s)" "jb_id j = jb_id j'"
  shows "j = j'"
  using keyed_unique [OF sched_okD(1) [OF assms(1)] assms(2-4)] .

text \<open>The open record of a claim is the only record with its token.\<close>

lemma token_run:
  assumes ok: "sched_ok s" and "j \<in> set (ss_jobs s)" "jb_claim j = Some tok"
    and "r \<in> set (ss_runs s)" "rr_token r = tok"
  shows "rr_job r = jb_id j \<and> rr_status r = R_RUNNING"
proof -
  from sched_okD(6) [OF ok assms(2)] assms(3) obtain x where
    x: "x \<in> set (ss_runs s)" "rr_token x = tok" "rr_job x = jb_id j" "rr_status x = R_RUNNING"
    by (auto simp: claim_recorded_def)
  with keyed_unique [OF sched_okD(3) [OF ok] assms(4) x(1)] assms(5) show ?thesis by simp
qed

text \<open>A claim is held for one job only.\<close>

lemma token_job:
  assumes ok: "sched_ok s" and "j \<in> set (ss_jobs s)" "jb_claim j = Some tok"
    and "j' \<in> set (ss_jobs s)" "jb_claim j' = Some tok"
  shows "j = j'"
proof -
  from sched_okD(6) [OF ok assms(2)] assms(3) obtain x where
    x: "x \<in> set (ss_runs s)" "rr_token x = tok" "rr_job x = jb_id j"
    by (auto simp: claim_recorded_def)
  from token_run [OF ok assms(4,5) x(1,2)] x(3) same_job [OF ok assms(2,4)] show ?thesis by simp
qed

lemma claim_recorded_map:
  assumes "claim_recorded runs j"
    and "\<And>r. r \<in> set runs \<Longrightarrow> jb_claim j = Some (rr_token r) \<Longrightarrow> rr_status r = R_RUNNING \<Longrightarrow> h r = r"
  shows "claim_recorded (map h runs) j"
  unfolding claim_recorded_def
proof (intro allI impI)
  fix t assume t: "jb_claim j = Some t"
  with assms(1) obtain r where
    r: "r \<in> set runs" "rr_token r = t" "rr_job r = jb_id j" "rr_status r = R_RUNNING"
    by (auto simp: claim_recorded_def)
  with assms(2) [of r] t have "h r = r" by simp
  then have "r \<in> set (map h runs)" using r(1) by (metis image_eqI list.set_map)
  with r show "\<exists>r \<in> set (map h runs). rr_token r = t \<and> rr_job r = jb_id j \<and> rr_status r = R_RUNNING" by blast
qed

lemma sched_ok_claim:
  assumes ok: "sched_ok s" and row: "r0 \<in> set (ss_jobs s)" "jb_claim r0 = None"
    and fresh: "row_of rr_id run_id (ss_runs s) = None" "tok \<notin> rr_token ` set (ss_runs s)"
  shows "sched_ok (s\<lparr>ss_jobs := update_where (\<lambda>r. r = r0) (claimed_row now tok expires) (ss_jobs s),
    ss_runs := ss_runs s @ [claimed_run now tok run_id (claimed_row now tok expires r0)]\<rparr>)"
proof -
  let ?new = "claimed_run now tok run_id (claimed_row now tok expires r0)"
  let ?g = "\<lambda>r. if r = r0 then claimed_row now tok expires r else r"
  define rows where "rows = update_where (\<lambda>r. r = r0) (claimed_row now tok expires) (ss_jobs s)"
  have rows: "set rows = ?g ` set (ss_jobs s)" by (simp add: rows_def set_update_where)
  have new: "rr_id ?new = run_id" "rr_token ?new = tok" "rr_job ?new = jb_id r0"
    "rr_attempt ?new = jb_run_count r0 + 1" "rr_status ?new = R_RUNNING"
    by (simp_all add: claimed_run_def claimed_row_def)
  have old: "rr_attempt x \<le> jb_run_count r0" if x: "x \<in> set (ss_runs s)" "rr_job x = jb_id r0" for x
  proof -
    obtain j where j: "j \<in> set (ss_jobs s)" "run_of j x" using sched_ok_run [OF ok x(1)] .
    with same_job [OF ok j(1) row(1)] x(2) row(2) show ?thesis by (auto simp: run_of_def split: if_splits)
  qed
  have "keyed jb_id rows"
    unfolding rows_def by (rule keyed_update_where [OF _ sched_okD(1) [OF ok]]) (simp add: claimed_row_def)
  moreover have "keyed rr_id (ss_runs s @ [?new])" using sched_okD(2) [OF ok] fresh by (simp add: new)
  moreover have "keyed rr_token (ss_runs s @ [?new])"
    using sched_okD(3) [OF ok] fresh by (simp add: new row_of_None)
  moreover have "keyed (\<lambda>r. (rr_job r, rr_attempt r)) (ss_runs s @ [?new])"
    using sched_okD(4) [OF ok] old by (force simp: new row_of_None)
  moreover have "job_ok j \<and> claim_recorded (ss_runs s @ [?new]) j" if "j \<in> set rows" for j
  proof -
    from that obtain x where x: "x \<in> set (ss_jobs s)" "j = ?g x" by (auto simp: rows)
    with sched_okD(5,6) [OF ok x(1)] new show ?thesis
      by (cases "x = r0") (auto simp: job_ok_def claim_recorded_def claimed_row_def)
  qed
  moreover have "\<exists>j \<in> set rows. run_of j x" if "x \<in> set (ss_runs s @ [?new])" for x
  proof (cases "x = ?new")
    case True
    have "run_of (claimed_row now tok expires r0) ?new"
      by (simp add: run_of_def new) (simp add: claimed_row_def)
    with True row(1) show ?thesis by (auto simp: rows)
  next
    case False
    with that have "x \<in> set (ss_runs s)" by simp
    then obtain j where j: "j \<in> set (ss_jobs s)" "run_of j x" using sched_ok_run [OF ok] by blast
    with row(2) have "run_of (?g j) x" by (auto simp: run_of_def claimed_row_def split: if_splits)
    with j(1) show ?thesis unfolding rows by blast
  qed
  ultimately show ?thesis by (simp add: sched_ok_def flip: rows_def)
qed

section \<open>The end of a claim\<close>

text \<open>A change of jobs and runs that keeps what identifies them.\<close>

lemma sched_ok_map:
  assumes ok: "sched_ok s"
    and g: "\<And>j. jb_id (g j) = jb_id j" and h: "\<And>r. rr_id (h r) = rr_id r \<and> rr_token (h r) = rr_token r \<and>
        rr_job (h r) = rr_job r \<and> rr_attempt (h r) = rr_attempt r"
    and job: "\<And>j. j \<in> set (ss_jobs s) \<Longrightarrow> job_ok (g j) \<and> claim_recorded (map h (ss_runs s)) (g j)"
    and run: "\<And>j r. j \<in> set (ss_jobs s) \<Longrightarrow> r \<in> set (ss_runs s) \<Longrightarrow> run_of j r \<Longrightarrow> run_of (g j) (h r)"
  shows "sched_ok (s\<lparr>ss_jobs := map g (ss_jobs s), ss_runs := map h (ss_runs s)\<rparr>)"
proof -
  have "map jb_id (map g js) = map jb_id js" for js using g by simp
  moreover have "map rr_id (map h rs) = map rr_id rs" "map rr_token (map h rs) = map rr_token rs"
    "map (\<lambda>r. (rr_job r, rr_attempt r)) (map h rs) = map (\<lambda>r. (rr_job r, rr_attempt r)) rs" for rs
    using h by simp_all
  moreover have "\<exists>j \<in> g ` set (ss_jobs s). run_of j r" if r: "r \<in> h ` set (ss_runs s)" for r
  proof -
    from r obtain x where x: "x \<in> set (ss_runs s)" "r = h x" by blast
    obtain j where "j \<in> set (ss_jobs s)" "run_of j x" using sched_ok_run [OF ok x(1)] .
    with run [OF _ x(1)] x(2) show ?thesis by blast
  qed
  ultimately show ?thesis
    using sched_okD(1-4) [OF ok] job unfolding sched_ok_def keyed_def by (simp del: map_map)
qed

lemma sched_ok_finalize:
  assumes ok: "sched_ok s" and row: "r0 \<in> set (ss_jobs s)" "jb_claim r0 = Some tok" "jb_id v = jb_id r0"
    and idle: "jb_status v \<noteq> J_RUNNING" "jr_status run \<noteq> R_RUNNING" and count: "jb_run_count r0 < jb_run_count v"
    and run0: "x0 \<in> set (ss_runs s)" "rr_id x0 = jr_id run" "rr_token x0 = tok"
  shows "sched_ok (s\<lparr>
    ss_jobs := update_where (\<lambda>r. jb_id r = jb_id v \<and> jb_claim r = Some tok) (finalized_row v) (ss_jobs s),
    ss_runs := update_where (\<lambda>r. rr_id r = jr_id run \<and> rr_token r = tok) (finalized_run run) (ss_runs s)\<rparr>)"
proof -
  let ?hit = "\<lambda>r. jb_id r = jb_id v \<and> jb_claim r = Some tok"
  let ?run_hit = "\<lambda>r. rr_id r = jr_id run \<and> rr_token r = tok"
  let ?g = "\<lambda>r. if ?hit r then finalized_row v r else r"
  let ?h = "\<lambda>r. if ?run_hit r then finalized_run run r else r"
  have hit: "?hit j \<longleftrightarrow> j = r0" if "j \<in> set (ss_jobs s)" for j
    using same_job [OF ok that row(1)] row by auto
  have run_hit: "?run_hit r \<longleftrightarrow> r = x0" if "r \<in> set (ss_runs s)" for r
    using keyed_unique [OF sched_okD(2) [OF ok] that run0(1)] run0 by auto
  from token_run [OF ok row(1,2) run0(1,3)] have x0: "rr_job x0 = jb_id r0" "rr_status x0 = R_RUNNING" by simp_all
  have "sched_ok (s\<lparr>ss_jobs := map ?g (ss_jobs s), ss_runs := map ?h (ss_runs s)\<rparr>)"
  proof (rule sched_ok_map [OF ok])
    fix j assume j: "j \<in> set (ss_jobs s)"
    show "job_ok (?g j) \<and> claim_recorded (map ?h (ss_runs s)) (?g j)"
    proof (cases "j = r0")
      case True
      with hit [OF j] idle show ?thesis by (simp add: job_ok_def claim_recorded_def finalized_row_def)
    next
      case False
      with hit [OF j] sched_okD(5) [OF ok j] have "?g j = j" "job_ok j" by auto
      moreover have "claim_recorded (map ?h (ss_runs s)) j"
      proof (rule claim_recorded_map [OF sched_okD(6) [OF ok j]])
        fix r assume r: "r \<in> set (ss_runs s)" "jb_claim j = Some (rr_token r)"
        have "r \<noteq> x0" using token_job [OF ok j r(2) row(1)] row(2) False run0 by auto
        with run_hit [OF r(1)] show "?h r = r" by auto
      qed
      ultimately show ?thesis by simp
    qed
  next
    fix j r assume j: "j \<in> set (ss_jobs s)" and r: "r \<in> set (ss_runs s)" and jr: "run_of j r"
    show "run_of (?g j) (?h r)"
    proof (cases "j = r0")
      case True
      have "rr_status r = R_RUNNING \<longleftrightarrow> r = x0"
        using jr True row(2) x0(2) keyed_unique [OF sched_okD(3) [OF ok] r run0(1)] run0(3)
        by (auto simp: run_of_def)
      with True jr hit [OF j] run_hit [OF r] idle(2) count row(3) show ?thesis
        by (auto simp: run_of_def finalized_row_def finalized_run_def split: if_splits)
    next
      case False
      have "r \<noteq> x0" using jr False x0 same_job [OF ok j row(1)] by (auto simp: run_of_def)
      with False hit [OF j] run_hit [OF r] jr show ?thesis by auto
    qed
  qed (auto simp: finalized_row_def finalized_run_def)
  then show ?thesis by (simp add: update_where_def)
qed

lemma sched_ok_release:
  assumes ok: "sched_ok s"
  shows "sched_ok (s\<lparr>ss_runs := update_where (orphaned (ss_jobs s) now) (released_run now) (ss_runs s),
    ss_jobs := update_where (expired now) (released_row now delay) (ss_jobs s)\<rparr>)"
proof -
  let ?g = "\<lambda>r. if expired now r then released_row now delay r else r"
  let ?h = "\<lambda>r. if orphaned (ss_jobs s) now r then released_run now r else r"
  have orphaned: "orphaned (ss_jobs s) now r \<longleftrightarrow> expired now j"
    if j: "j \<in> set (ss_jobs s)" and r: "r \<in> set (ss_runs s)" and jr: "jb_claim j = Some (rr_token r)"
      "rr_status r = R_RUNNING" for j r
  proof
    assume "orphaned (ss_jobs s) now r"
    then obtain j' where j': "j' \<in> set (ss_jobs s)" "expired now j'" "jb_claim j' = Some (rr_token r)"
      by (auto simp: orphaned_def)
    with token_job [OF ok j jr(1) j'(1,3)] show "expired now j" by simp
  next
    assume "expired now j"
    then have "j \<in> set (filter (expired now) (ss_jobs s))" using j by simp
    with jr show "orphaned (ss_jobs s) now r" unfolding orphaned_def by (metis image_eqI)
  qed
  have "sched_ok (s\<lparr>ss_jobs := map ?g (ss_jobs s), ss_runs := map ?h (ss_runs s)\<rparr>)"
  proof (rule sched_ok_map [OF ok])
    fix j assume j: "j \<in> set (ss_jobs s)"
    show "job_ok (?g j) \<and> claim_recorded (map ?h (ss_runs s)) (?g j)"
    proof (cases "expired now j")
      case True
      then show ?thesis by (simp add: job_ok_def claim_recorded_def released_row_def Let_def)
    next
      case False
      have "claim_recorded (map ?h (ss_runs s)) j"
      proof (rule claim_recorded_map [OF sched_okD(6) [OF ok j]])
        fix r assume r: "r \<in> set (ss_runs s)" "jb_claim j = Some (rr_token r)" "rr_status r = R_RUNNING"
        with orphaned [OF j r] False show "?h r = r" by simp
      qed
      with False sched_okD(5) [OF ok j] show ?thesis by simp
    qed
  next
    fix j r assume j: "j \<in> set (ss_jobs s)" and r: "r \<in> set (ss_runs s)" and jr: "run_of j r"
    show "run_of (?g j) (?h r)"
    proof (cases "rr_status r = R_RUNNING")
      case True
      with jr orphaned [OF j r] show ?thesis
        by (auto simp: run_of_def released_row_def released_run_def Let_def)
    next
      case False
      with jr show ?thesis by (auto simp: run_of_def released_row_def orphaned_def Let_def)
    qed
  qed (auto simp: released_row_def released_run_def Let_def)
  then show ?thesis by (simp add: update_where_def sched_ok_def)
qed

lemma sched_ok_delete:
  assumes ok: "sched_ok s" and row: "r0 \<in> set (ss_jobs s)" "jb_claim r0 = None"
  shows "sched_ok (s\<lparr>ss_jobs := filter (\<lambda>r. r \<noteq> r0) (ss_jobs s),
    ss_runs := filter (\<lambda>r. rr_job r \<noteq> jb_id r0) (ss_runs s)\<rparr>)"
proof -
  have keyed_filter: "keyed key (filter p xs)" if "keyed key xs" for key p xs
    using that by (simp add: keyed_def distinct_map_filter)
  show ?thesis
  proof (rule sched_okI, simp_all add: keyed_filter sched_okD [OF ok])
    fix j assume j: "j \<in> set (ss_jobs s) \<and> j \<noteq> r0"
    then have "jb_id j \<noteq> jb_id r0" using same_job [OF ok _ row(1)] by blast
    with j sched_okD(6) [OF ok, of j]
    show "claim_recorded (filter (\<lambda>r. rr_job r \<noteq> jb_id r0) (ss_runs s)) j"
      by (fastforce simp: claim_recorded_def)
  next
    fix r assume r: "r \<in> set (ss_runs s) \<and> rr_job r \<noteq> jb_id r0"
    then obtain j where "j \<in> set (ss_jobs s)" "run_of j r" using sched_ok_run [OF ok] by blast
    with r show "\<exists>j. j \<in> set (ss_jobs s) \<and> j \<noteq> r0 \<and> run_of j r" by (auto simp: run_of_def)
  qed
qed

end
