(* ===== verification/Scheduler_System.thy ===== *)
theory Scheduler_System
  imports Scheduler_Runtime Scheduler_Claims
begin

text \<open>
  Several processes, each with a \<open>SchedulerRuntime\<close>, share the two tables.  The states such a
  system reaches are those of the relation \<open>world_step\<close>, where any process may run any operation,
  a worker may end, be cancelled or renew its claim, and a process may start or stop, in any
  order.  The invariant ties the workers to the tables.
\<close>

section \<open>Workers and the tables\<close>

text \<open>Consecutive failures stay below the bound until the job has failed for good.\<close>

definition retry_ok :: "job \<Rightarrow> bool" where
  "retry_ok j = (0 \<le> jb_retry_count j \<and>
     (if jb_status j \<in> {J_FAILED, J_COMPLETED, J_CANCELLED} then jb_retry_count j \<le> max 1 (jb_max_retries j)
      else jb_retry_count j < max 1 (jb_max_retries j)))"

text \<open>While a worker's token claims a job, the row has the counts of the worker's copy.\<close>

definition same_claim :: "job \<Rightarrow> job \<Rightarrow> bool" where
  "same_claim j j' = (jb_id j = jb_id j' \<and> jb_run_count j = jb_run_count j' \<and>
     jb_retry_count j = jb_retry_count j' \<and> jb_max_retries j = jb_max_retries j')"

definition worker_ok :: "sched_store \<Rightarrow> worker \<Rightarrow> bool" where
  "worker_ok st w =
    ((\<forall>j \<in> set (ss_jobs st). jb_claim j = Some (wk_token w) \<longrightarrow> same_claim j (wk_job w)) \<and>
     (\<forall>x \<in> set (ss_runs st). rr_token x = wk_token w \<longrightarrow> rr_id x = jr_id (wk_run w)))"

definition claims_ok :: "worker list \<Rightarrow> string set \<Rightarrow> sched_store \<Rightarrow> bool" where
  "claims_ok ws drawn st =
    (sched_ok st \<and> (\<forall>j \<in> set (ss_jobs st). retry_ok j) \<and> rr_token ` set (ss_runs st) \<subseteq> drawn \<and>
     (\<forall>w \<in> set ws. wk_token w \<in> drawn \<and> worker_ok st w))"

lemma claims_okD:
  assumes "claims_ok ws drawn st"
  shows "sched_ok st" "j \<in> set (ss_jobs st) \<Longrightarrow> retry_ok j" "rr_token ` set (ss_runs st) \<subseteq> drawn"
    "w \<in> set ws \<Longrightarrow> wk_token w \<in> drawn" "w \<in> set ws \<Longrightarrow> worker_ok st w"
  using assms by (simp_all add: claims_ok_def)

lemma claims_ok_mono: "claims_ok ws drawn st \<Longrightarrow> drawn \<subseteq> drawn' \<Longrightarrow> claims_ok ws drawn' st"
  by (auto simp: claims_ok_def)

lemma claims_ok_fewer: "claims_ok ws drawn st \<Longrightarrow> set vs \<subseteq> set ws \<Longrightarrow> claims_ok vs drawn st"
  by (auto simp: claims_ok_def)

lemma claim_is_drawn:
  assumes "claims_ok ws drawn st" "j \<in> set (ss_jobs st)" "jb_claim j = Some tok"
  shows "tok \<in> drawn"
  using sched_okD(6) [OF claims_okD(1) [OF assms(1)] assms(2)] assms(3) claims_okD(3) [OF assms(1)]
  by (auto simp: claim_recorded_def)

text \<open>A change after which every claim was there before, with the same counts.\<close>

lemma claims_ok_change:
  assumes "claims_ok ws drawn st" and "sched_ok st'"
    and runs: "\<And>x'. x' \<in> set (ss_runs st') \<Longrightarrow> \<exists>x \<in> set (ss_runs st). rr_token x = rr_token x' \<and> rr_id x = rr_id x'"
    and "\<And>j'. j' \<in> set (ss_jobs st') \<Longrightarrow> retry_ok j'"
    and "\<And>j' tok. j' \<in> set (ss_jobs st') \<Longrightarrow> jb_claim j' = Some tok \<Longrightarrow>
      \<exists>j \<in> set (ss_jobs st). jb_claim j = Some tok \<and> same_claim j' j"
  shows "claims_ok ws drawn st'"
proof -
  have "worker_ok st' w" if w: "w \<in> set ws" for w
    unfolding worker_ok_def
  proof (intro conjI ballI impI)
    fix x' assume "x' \<in> set (ss_runs st')" "rr_token x' = wk_token w"
    with runs claims_okD(5) [OF assms(1) w] show "rr_id x' = jr_id (wk_run w)"
      by (fastforce simp: worker_ok_def)
  next
    fix j' assume "j' \<in> set (ss_jobs st')" "jb_claim j' = Some (wk_token w)"
    with assms(5) obtain j where "j \<in> set (ss_jobs st)" "jb_claim j = Some (wk_token w)" "same_claim j' j"
      by blast
    with claims_okD(5) [OF assms(1) w] show "same_claim j' (wk_job w)"
      by (auto simp: worker_ok_def same_claim_def)
  qed
  moreover have "rr_token ` set (ss_runs st') \<subseteq> drawn" using runs claims_okD(3) [OF assms(1)] by force
  ultimately show ?thesis using assms(2,4) claims_okD(4) [OF assms(1)] by (simp add: claims_ok_def)
qed

lemma claims_ok_update:
  assumes ok: "claims_ok ws drawn st"
    and quiet: "\<And>r. job_ok r \<Longrightarrow> retry_ok r \<Longrightarrow> hit r \<Longrightarrow>
      jb_id (f r) = jb_id r \<and> jb_claim (f r) = jb_claim r \<and> jb_run_count (f r) = jb_run_count r \<and>
      job_ok (f r) \<and> retry_ok (f r) \<and> (jb_claim r \<noteq> None \<longrightarrow> same_claim (f r) r)"
  shows "claims_ok ws drawn (st\<lparr>ss_jobs := update_where hit f (ss_jobs st)\<rparr>)"
proof -
  have keep: "jb_id (f r) = jb_id r \<and> jb_claim (f r) = jb_claim r \<and> jb_run_count (f r) = jb_run_count r \<and>
      job_ok (f r) \<and> retry_ok (f r) \<and> (jb_claim r \<noteq> None \<longrightarrow> same_claim (f r) r)"
    if "r \<in> set (ss_jobs st)" "hit r" for r
    using quiet [OF sched_okD(5) [OF claims_okD(1) [OF ok] that(1)] claims_okD(2) [OF ok that(1)] that(2)] .
  show ?thesis
  proof (rule claims_ok_change [OF ok])
  show "sched_ok (st\<lparr>ss_jobs := update_where hit f (ss_jobs st)\<rparr>)"
    using keep by (intro sched_ok_update_jobs claims_okD(1) [OF ok]) blast
next
  fix j' assume "j' \<in> set (ss_jobs (st\<lparr>ss_jobs := update_where hit f (ss_jobs st)\<rparr>))"
  then obtain r where r: "r \<in> set (ss_jobs st)" "j' = (if hit r then f r else r)"
    by (auto simp: set_update_where)
  then show "retry_ok j'" using keep [OF r(1)] claims_okD(2) [OF ok r(1)] by simp
  fix tok assume "jb_claim j' = Some tok"
  with r keep [OF r(1)] have "jb_claim r = Some tok" "same_claim j' r"
    by (auto simp: same_claim_def split: if_splits)
  with r(1) show "\<exists>j \<in> set (ss_jobs st). jb_claim j = Some tok \<and> same_claim j' j" by blast
  qed auto
qed

section \<open>The statements keep the invariant\<close>

lemma keepsS_on_open: "keepsS P body \<Longrightarrow> keepsS P (on_open body)"
  by (simp add: keepsS_def on_open_def)

lemma keepsS_run_sql: "keepsS P body \<Longrightarrow> keepsS P (run_sql io m body)"
  by (simp add: keepsS_def run_sql_def split: option.split)

lemmas keepsS_sql = keepsS_on_open keepsS_run_sql

lemma update_and_read_table: "ss_jobs (snd (update_and_read san zone_ok m i hit f s)) \<in>
    {ss_jobs s, update_where hit f (ss_jobs s)} \<and> ss_runs (snd (update_and_read san zone_ok m i hit f s)) = ss_runs s"
  by (simp add: update_and_read_def Let_def split: option.split sum.split)

lemma claims_ok_frame:
  "ss_jobs st' = ss_jobs st \<Longrightarrow> ss_runs st' = ss_runs st \<Longrightarrow> claims_ok ws drawn st' = claims_ok ws drawn st"
  by (simp add: claims_ok_def worker_ok_def sched_ok_frame [of st' st])

text \<open>An UPDATE that leaves claims and counts alone, as a condition on one row.\<close>

definition quiet :: "(job \<Rightarrow> bool) \<Rightarrow> (job \<Rightarrow> job) \<Rightarrow> bool" where
  "quiet hit f = (\<forall>r. job_ok r \<and> retry_ok r \<and> hit r \<longrightarrow>
     jb_id (f r) = jb_id r \<and> jb_claim (f r) = jb_claim r \<and> jb_run_count (f r) = jb_run_count r \<and>
     job_ok (f r) \<and> retry_ok (f r) \<and> (jb_claim r \<noteq> None \<longrightarrow> same_claim (f r) r))"

lemma quiet_update:
  "quiet hit f \<Longrightarrow> claims_ok ws drawn st \<Longrightarrow> claims_ok ws drawn (st\<lparr>ss_jobs := update_where hit f (ss_jobs st)\<rparr>)"
  by (rule claims_ok_update) (simp_all add: quiet_def)

lemma keeps_quiet: "quiet hit f \<Longrightarrow>
   keepsS (claims_ok ws drawn) (\<lambda>st. (res st, st\<lparr>ss_jobs := update_where hit f (ss_jobs st)\<rparr>))"
  by (simp add: keepsS_def quiet_update)

lemma keeps_update_and_read:
  assumes "quiet hit f"
  shows "keepsS (claims_ok ws drawn) (update_and_read san zone_ok m i hit f)"
  unfolding keepsS_def
proof (intro allI impI)
  fix st assume ok: "claims_ok ws drawn st"
  let ?st' = "snd (update_and_read san zone_ok m i hit f st)"
  from update_and_read_table [of san zone_ok m i hit f st]
  consider "ss_jobs ?st' = ss_jobs st" "ss_runs ?st' = ss_runs st"
    | "ss_jobs ?st' = update_where hit f (ss_jobs st)" "ss_runs ?st' = ss_runs st"
    by blast
  then show "claims_ok ws drawn ?st'"
  proof cases
    case 1
    with ok show ?thesis using claims_ok_frame by metis
  next
    case 2
    from quiet_update [OF assms ok] 2 show ?thesis
      using claims_ok_frame [of "?st'" "st\<lparr>ss_jobs := update_where hit f (ss_jobs st)\<rparr>"] by simp
  qed
qed

lemma quiet_pause: "quiet (pausable i n) (paused_row now)"
  by (auto simp: quiet_def pausable_def paused_row_def job_ok_def retry_ok_def)

lemma quiet_resume: "quiet (resumable i n) (resumed_row next_at now)"
  by (auto simp: quiet_def resumable_def resumed_row_def job_ok_def retry_ok_def)

lemma quiet_cancel: "quiet (cancellable i) (cancelled_row now)"
  by (auto simp: quiet_def cancellable_def cancelled_row_def job_ok_def retry_ok_def)

lemma quiet_reschedule: "quiet (reschedulable i n) (rescheduled_row run_at tz payload now)"
  by (auto simp: quiet_def reschedulable_def rescheduled_row_def job_ok_def retry_ok_def)

lemma quiet_renew: "quiet (renewable i token now)
    (\<lambda>r. r\<lparr>jb_expires := Some expires, jb_updated := now, jb_revision := jb_revision r + 1\<rparr>)"
  by (auto simp: quiet_def renewable_def job_ok_def retry_ok_def same_claim_def)

lemma keeps_pause [wf_rules]: "keepsS (claims_ok ws drawn) (store_pause san zone_ok io i n now)"
  unfolding store_pause_def by (intro keepsS_sql keeps_update_and_read quiet_pause)

lemma keeps_resume [wf_rules]: "keepsS (claims_ok ws drawn) (store_resume san zone_ok io i n next_at now)"
  unfolding store_resume_def by (intro keepsS_sql keeps_update_and_read quiet_resume)

lemma keeps_cancel [wf_rules]: "keepsS (claims_ok ws drawn) (store_cancel io i now)"
  unfolding store_cancel_def by (intro keepsS_sql keeps_quiet quiet_cancel)

lemma keeps_reschedule [wf_rules]: "keepsS (claims_ok ws drawn) (store_reschedule io i n run_at tz payload now)"
  unfolding store_reschedule_def
  by (intro keepsS_sql) (simp add: keepsS_def quiet_update [OF quiet_reschedule])

lemma keeps_renew [wf_rules]: "keepsS (claims_ok ws drawn) (store_renew io i token expires now)"
  unfolding store_renew_def
  by (intro keepsS_on_open) (simp add: keepsS_def quiet_update [OF quiet_renew] split: option.split)

lemma claims_ok_open [simp]: "claims_ok ws drawn (st\<lparr>ss_open := b\<rparr>) = claims_ok ws drawn st"
  by (rule claims_ok_frame) simp_all

lemma keeps_open [wf_rules]: "keepsS (claims_ok ws drawn) (store_open_connection io)"
  by (simp add: keepsS_def store_open_connection_def split: option.split)

lemma keeps_close [wf_rules]: "keepsS (claims_ok ws drawn) (\<lambda>s. (Inr (), store_close s))"
  by (simp add: keepsS_def store_close_def)

lemma keeps_release [wf_rules]: "keepsS (claims_ok ws drawn) (store_release io now delay)"
  unfolding store_release_def
proof (intro keepsS_sql, unfold keepsS_def, intro allI impI, unfold snd_conv)
  fix st assume ok: "claims_ok ws drawn st"
  let ?st' = "st\<lparr>ss_runs := update_where (orphaned (ss_jobs st) now) (released_run now) (ss_runs st),
      ss_jobs := update_where (expired now) (released_row now delay) (ss_jobs st)\<rparr>"
  show "claims_ok ws drawn ?st'"
  proof (rule claims_ok_change [OF ok])
    show "sched_ok ?st'" by (rule sched_ok_release [OF claims_okD(1) [OF ok]])
    fix x' assume "x' \<in> set (ss_runs ?st')"
    then show "\<exists>x \<in> set (ss_runs st). rr_token x = rr_token x' \<and> rr_id x = rr_id x'"
      by (force simp: set_update_where released_run_def)
  next
    fix j' assume "j' \<in> set (ss_jobs ?st')"
    then obtain r where r: "r \<in> set (ss_jobs st)" "j' = (if expired now r then released_row now delay r else r)"
      by (auto simp: set_update_where)
    then show "retry_ok j'"
      using claims_okD(2) [OF ok r(1)] by (auto simp: retry_ok_def released_row_def Let_def expired_def)
    fix tok assume "jb_claim j' = Some tok"
    with r have "jb_claim r = Some tok" "same_claim j' r"
      by (auto simp: same_claim_def released_row_def Let_def split: if_splits)
    with r(1) show "\<exists>j \<in> set (ss_jobs st). jb_claim j = Some tok \<and> same_claim j' j" by blast
  qed
qed

lemma job_values_Inr: "job_values j = Inr v \<Longrightarrow> v = j\<lparr>jb_last_error := map_option failure_column (jb_last_error j)\<rparr>"
  by (auto simp: job_values_def split: if_splits)

lemma keeps_save:
  assumes "jb_status j \<noteq> J_RUNNING" "jb_claim j = None" "retry_ok j"
  shows "keepsS (claims_ok ws drawn) (store_save io j)"
  unfolding keepsS_def
proof (intro allI impI)
  fix st assume ok: "claims_ok ws drawn st"
  show "claims_ok ws drawn (snd (store_save io j st))"
  proof (cases "job_values j")
    case (Inl e)
    with ok show ?thesis by (simp add: store_save_def)
  next
    case (Inr v)
    note v = job_values_Inr [OF Inr]
    have new: "claims_ok ws drawn (st\<lparr>ss_jobs := ss_jobs st @ [v]\<rparr>)" if "row_of jb_id (jb_id v) (ss_jobs st) = None"
    proof (rule claims_ok_change [OF ok])
      show "sched_ok (st\<lparr>ss_jobs := ss_jobs st @ [v]\<rparr>)"
        using assms v that by (intro sched_ok_add_job claims_okD(1) [OF ok]) simp_all
    next
      fix j' assume j': "j' \<in> set (ss_jobs (st\<lparr>ss_jobs := ss_jobs st @ [v]\<rparr>))"
      then show "retry_ok j'" using assms(3) v claims_okD(2) [OF ok] by (auto simp: retry_ok_def)
      fix tok assume "jb_claim j' = Some tok"
      with j' assms(2) v have "j' \<in> set (ss_jobs st)" by auto
      with \<open>jb_claim j' = Some tok\<close> show "\<exists>j \<in> set (ss_jobs st). jb_claim j = Some tok \<and> same_claim j' j"
        by (auto simp: same_claim_def)
    qed auto
    with ok Inr show ?thesis by (simp add: store_save_def on_open_def run_sql_def split: option.split)
  qed
qed

lemma keeps_delete [wf_rules]: "keepsS (claims_ok ws drawn) (store_delete io i expected)"
  unfolding store_delete_def
proof (intro keepsS_sql, unfold keepsS_def, intro allI impI)
  fix st assume ok: "claims_ok ws drawn st"
  note sched = claims_okD(1) [OF ok]
  have kept: "claims_ok ws drawn st'"
    if st': "sched_ok st'" "set (ss_jobs st') \<subseteq> set (ss_jobs st)" "set (ss_runs st') \<subseteq> set (ss_runs st)" for st'
  proof (rule claims_ok_change [OF ok st'(1)])
    fix x' assume "x' \<in> set (ss_runs st')"
    with st'(3) show "\<exists>x \<in> set (ss_runs st). rr_token x = rr_token x' \<and> rr_id x = rr_id x'" by blast
  next
    fix j' assume "j' \<in> set (ss_jobs st')"
    with st'(2) have j': "j' \<in> set (ss_jobs st)" by blast
    then show "retry_ok j'" by (rule claims_okD(2) [OF ok])
    fix tok assume "jb_claim j' = Some tok"
    with j' show "\<exists>j \<in> set (ss_jobs st). jb_claim j = Some tok \<and> same_claim j' j"
      by (auto simp: same_claim_def)
  qed
  have hit: "claims_ok ws drawn (st\<lparr>ss_jobs := filter (\<lambda>r. \<not> deletable i n r) (ss_jobs st),
      ss_runs := filter (\<lambda>r. rr_job r \<noteq> i) (ss_runs st)\<rparr>)" if "rowcount (deletable i n) (ss_jobs st) = 1" for n
  proof -
    from that have "filter (deletable i n) (ss_jobs st) \<noteq> []" by (auto simp: rowcount_def)
    then obtain r0 where r0: "r0 \<in> set (ss_jobs st)" "deletable i n r0" by (auto simp: filter_empty_conv)
    have "filter (\<lambda>r. \<not> deletable i n r) (ss_jobs st) = filter (\<lambda>r. r \<noteq> r0) (ss_jobs st)"
    proof (rule filter_cong [OF refl])
      fix r assume r: "r \<in> set (ss_jobs st)"
      have "deletable i n r \<Longrightarrow> jb_id r = jb_id r0" using r0(2) by (simp add: deletable_def)
      then show "(\<not> deletable i n r) = (r \<noteq> r0)" using same_job [OF sched r r0(1)] r0(2) by blast
    qed
    moreover from r0 have idle: "jb_claim r0 = None" "jb_id r0 = i" by (simp_all add: deletable_def)
    note sched_ok_delete [OF sched r0(1) idle(1)]
    ultimately have "sched_ok (st\<lparr>ss_jobs := filter (\<lambda>r. \<not> deletable i n r) (ss_jobs st),
      ss_runs := filter (\<lambda>r. rr_job r \<noteq> i) (ss_runs st)\<rparr>)" by (simp only: idle(2))
    then show ?thesis by (rule kept) simp_all
  qed
  have miss: "filter (\<lambda>r. \<not> deletable i n r) (ss_jobs st) = ss_jobs st"
    if "rowcount (deletable i n) (ss_jobs st) \<noteq> 1" for n
  proof -
    have "rowcount (deletable i n) (ss_jobs st) \<le> 1"
      using rowcount_keyed [OF sched_okD(1) [OF sched], of "deletable i n" i]
      by (auto simp: deletable_def split: option.splits)
    with that have "rowcount (deletable i n) (ss_jobs st) = 0" by simp
    then show ?thesis by (auto simp: rowcount_0 filter_id_conv)
  qed
  show "claims_ok ws drawn (snd (case (case expected of Some n \<Rightarrow> Some n
            | None \<Rightarrow> map_option jb_revision (row_of jb_id i (ss_jobs st))) of
        None \<Rightarrow> (Inr False, st)
      | Some n \<Rightarrow>
          if rowcount (deletable i n) (ss_jobs st) = 1
          then (Inr True, st\<lparr>ss_jobs := filter (\<lambda>r. \<not> deletable i n r) (ss_jobs st),
                            ss_runs := filter (\<lambda>r. rr_job r \<noteq> i) (ss_runs st)\<rparr>)
          else (Inr False, st\<lparr>ss_jobs := filter (\<lambda>r. \<not> deletable i n r) (ss_jobs st)\<rparr>)))"
  proof (cases "case expected of Some n \<Rightarrow> Some n | None \<Rightarrow> map_option jb_revision (row_of jb_id i (ss_jobs st))")
    case None
    with ok show ?thesis by simp
  next
    case (Some n)
    show ?thesis
    proof (cases "rowcount (deletable i n) (ss_jobs st) = 1")
      case True
      from hit [OF True] show ?thesis by (simp only: Some True option.case refl if_True snd_conv)
    next
      case False
      from ok show ?thesis by (simp only: Some False miss [OF False] option.case if_False snd_conv) simp
    qed
  qed
qed

section \<open>Claiming\<close>

lemma row_to_job_same: "row_to_job san zone_ok r = Inr j \<Longrightarrow> same_claim r j \<and> jb_claim j = jb_claim r"
  by (auto simp: row_to_job_def same_claim_def Let_def split: if_splits)

lemma claims_ok_claim:
  fixes now expires :: instant
  assumes ok: "claims_ok ws drawn st" and fresh: "tok \<notin> drawn"
    and row: "r0 \<in> set (ss_jobs st)" "jb_status r0 \<in> {J_ACTIVE, J_RETRYING}"
    and new: "row_of rr_id run_id (ss_runs st) = None"
  defines "st' \<equiv> st\<lparr>ss_jobs := update_where (\<lambda>r. r = r0) (claimed_row now tok expires) (ss_jobs st),
    ss_runs := ss_runs st @ [claimed_run now tok run_id (claimed_row now tok expires r0)]\<rparr>"
  shows "claims_ok ws (insert tok drawn) st'"
    and "\<And>w. wk_token w = tok \<Longrightarrow> jr_id (wk_run w) = run_id \<Longrightarrow> same_claim r0 (wk_job w) \<Longrightarrow> worker_ok st' w"
proof -
  note sched = claims_okD(1) [OF ok]
  let ?g = "\<lambda>r. if r = r0 then claimed_row now tok expires r else r"
  have jobs: "set (ss_jobs st') = ?g ` set (ss_jobs st)" by (simp add: st'_def set_update_where)
  have idle: "jb_claim r0 = None" using row by (intro idle_row [OF sched]) auto
  have no_token: "jb_claim r \<noteq> Some tok" if "r \<in> set (ss_jobs st)" for r
    using claim_is_drawn [OF ok that] fresh by blast
  have ok': "sched_ok st'"
    unfolding st'_def using claims_okD(3) [OF ok] fresh
    by (intro sched_ok_claim [OF sched row(1) idle new]) blast
  have retry: "retry_ok j" if "j \<in> set (ss_jobs st')" for j
    using that claims_okD(2) [OF ok] row unfolding jobs
    by (force simp: retry_ok_def claimed_row_def)
  have old: "worker_ok st' w" if w: "w \<in> set ws" for w
    unfolding worker_ok_def
  proof (intro conjI ballI impI)
    fix x assume "x \<in> set (ss_runs st')" "rr_token x = wk_token w"
    moreover have "wk_token w \<noteq> tok" using claims_okD(4) [OF ok w] fresh by blast
    ultimately have "x \<in> set (ss_runs st)" by (auto simp: st'_def claimed_run_def)
    with \<open>rr_token x = wk_token w\<close> claims_okD(5) [OF ok w] show "rr_id x = jr_id (wk_run w)"
      by (simp add: worker_ok_def)
  next
    fix j assume j: "j \<in> set (ss_jobs st')" "jb_claim j = Some (wk_token w)"
    have "wk_token w \<noteq> tok" using claims_okD(4) [OF ok w] fresh by blast
    with j have "j \<in> set (ss_jobs st)" unfolding jobs by (auto simp: claimed_row_def split: if_splits)
    with j(2) claims_okD(5) [OF ok w] show "same_claim j (wk_job w)" by (simp add: worker_ok_def)
  qed
  show "claims_ok ws (insert tok drawn) st'"
    using ok' retry old claims_okD(3,4) [OF ok] unfolding claims_ok_def
    by (auto simp: st'_def claimed_run_def)
  fix w :: worker assume w: "wk_token w = tok" "same_claim r0 (wk_job w)" and run_id: "jr_id (wk_run w) = run_id"
  show "worker_ok st' w"
    unfolding worker_ok_def
  proof (intro conjI ballI impI)
    fix x assume "x \<in> set (ss_runs st')" "rr_token x = wk_token w"
    with w(1) fresh claims_okD(3) [OF ok] show "rr_id x = jr_id (wk_run w)"
      by (auto simp: st'_def claimed_run_def run_id)
  next
    fix j assume "j \<in> set (ss_jobs st')" "jb_claim j = Some (wk_token w)"
    with no_token w(1) have "j = claimed_row now tok expires r0"
      unfolding jobs by (auto split: if_splits)
    with w(2) show "same_claim j (wk_job w)" by (simp add: same_claim_def claimed_row_def)
  qed
qed

lemma store_claim_cases:
  assumes keyed: "keyed jb_id (ss_jobs st)" and run: "store_claim san zone_ok io i now tok expires run_id st = (res, st')"
  obtains (unchanged) "st' = st" "\<And>j. res \<noteq> Inr (Some j)"
    | (claimed) r0 where "r0 \<in> set (ss_jobs st)" "jb_id r0 = i" "claimable now r0"
        "row_of rr_id run_id (ss_runs st) = None"
        "st' = st\<lparr>ss_jobs := update_where (\<lambda>r. r = r0) (claimed_row now tok expires) (ss_jobs st),
           ss_runs := ss_runs st @ [claimed_run now tok run_id (claimed_row now tok expires r0)]\<rparr>"
        "\<And>j. res = Inr (Some j) \<Longrightarrow> row_to_job san zone_ok (claimed_row now tok expires r0) = Inr j"
proof -
  let ?hit = "\<lambda>r. jb_id r = i \<and> claimable now r"
  let ?rows = "update_where ?hit (claimed_row now tok expires) (ss_jobs st)"
  have look: "row_of jb_id i ?rows = map_option (\<lambda>r. if ?hit r then claimed_row now tok expires r else r)
      (row_of jb_id i (ss_jobs st))"
    by (rule row_of_update_where) (simp add: claimed_row_def)
  have count: "rowcount ?hit (ss_jobs st) =
      (case row_of jb_id i (ss_jobs st) of None \<Rightarrow> 0 | Some r \<Rightarrow> if ?hit r then 1 else 0)"
    by (rule rowcount_keyed [OF keyed]) simp
  show ?thesis
  proof (cases "rowcount ?hit (ss_jobs st) = 1 \<and> row_of rr_id run_id (ss_runs st) = None \<and> ss_open st \<and> io = None")
    case False
    have "st' = st \<and> (\<forall>j. res \<noteq> Inr (Some j))"
    proof (cases "row_of rr_id run_id (ss_runs st)")
      case None
      with False run show ?thesis
        by (cases io) (auto simp: store_claim_def on_open_def run_sql_def Let_def split: if_splits)
    next
      case (Some x)
      with run show ?thesis
        by (cases io; cases "row_of jb_id i ?rows")
          (auto simp: store_claim_def on_open_def run_sql_def Let_def split: if_splits)
    qed
    then show ?thesis using unchanged by blast
  next
    case True
    then have "(case row_of jb_id i (ss_jobs st) of None \<Rightarrow> 0 | Some r \<Rightarrow> if ?hit r then 1 else 0) = (1::nat)"
      unfolding count by blast
    then have "\<exists>r0. row_of jb_id i (ss_jobs st) = Some r0 \<and> claimable now r0"
      by (simp split: option.splits if_splits)
    then obtain r0 where r0: "row_of jb_id i (ss_jobs st) = Some r0" "claimable now r0" by blast
    note mem = row_of_Some [OF r0(1)]
    have "?hit r \<longleftrightarrow> r = r0" if r: "r \<in> set (ss_jobs st)" for r
    proof
      assume "?hit r"
      with mem have "jb_id r = jb_id r0" by simp
      with keyed_unique [OF keyed r] mem show "r = r0" by blast
    next
      assume "r = r0"
      with mem r0(2) show "?hit r" by simp
    qed
    then have rows: "?rows = update_where (\<lambda>r. r = r0) (claimed_row now tok expires) (ss_jobs st)"
      by (simp add: update_where_def)
    have "row_of jb_id i ?rows = Some (claimed_row now tok expires r0)" using look r0 mem by simp
    with True run have "st' = st\<lparr>ss_jobs := ?rows,
        ss_runs := ss_runs st @ [claimed_run now tok run_id (claimed_row now tok expires r0)]\<rparr>"
      and "\<And>j. res = Inr (Some j) \<Longrightarrow> row_to_job san zone_ok (claimed_row now tok expires r0) = Inr j"
      by (auto simp: store_claim_def on_open_def run_sql_def Let_def split: sum.splits)
    with mem r0 True rows show ?thesis by (intro claimed) auto
  qed
qed

section \<open>The end of a run\<close>

lemma execute_job_facts:
  assumes "execute_job san outcome t j run0 = Inr (j', run)"
  shows "jb_id j' = jb_id j" "jb_max_retries j' = jb_max_retries j" "jb_retry_count j' = jb_retry_count j"
    "jb_run_count j' = jb_run_count j + 1" "jr_id run = jr_id run0"
    "jr_status run \<in> {R_SUCCESS, R_FAILED, R_TIMEOUT}"
  using assms by (auto simp: execute_job_def failed_run_def Let_def split: if_splits handler_outcome.splits)

lemma settled_status_facts:
  "jb_id (settled_status j run) = jb_id j" "jb_max_retries (settled_status j run) = jb_max_retries j"
  "jb_run_count (settled_status j run) = jb_run_count j"
  "jb_status (settled_status j run) \<in> {J_ACTIVE, J_COMPLETED, J_FAILED, J_RETRYING}"
  "0 \<le> jb_retry_count j \<Longrightarrow> jb_retry_count j < max 1 (jb_max_retries j) \<Longrightarrow> retry_ok (settled_status j run)"
  by (auto simp: settled_status_def retry_ok_def Let_def)

lemma settled_next_facts:
  assumes "settled_next env j = Inr j'"
  shows "jb_id j' = jb_id j" "jb_max_retries j' = jb_max_retries j" "jb_run_count j' = jb_run_count j"
    "jb_status j' = jb_status j" "retry_ok j' = retry_ok j"
  using assms by (auto simp: settled_next_def retry_ok_def Let_def bindR_Inr_iff split: if_splits)

lemma retry_ok_failed:
  "retry_ok j \<Longrightarrow> jb_retry_count j' = jb_retry_count j \<Longrightarrow> jb_max_retries j' = jb_max_retries j \<Longrightarrow>
   jb_status j' = J_FAILED \<Longrightarrow> retry_ok j'"
  by (auto simp: retry_ok_def split: if_splits)

lemma runtime_failed_facts:
  assumes "runtime_failed env e j run = (j', run')"
  shows "jb_id j' = jb_id j" "jb_max_retries j' = jb_max_retries j" "jb_run_count j' = jb_run_count j + 1"
    "jb_status j' = J_FAILED" "jr_id run' = jr_id run" "jr_status run' = R_FAILED"
    "retry_ok j \<Longrightarrow> retry_ok j'"
  using assms by (auto simp: runtime_failed_def Let_def intro: retry_ok_failed)

lemma settle_facts:
  assumes "settle env outcome w = Inr (failed, j, run)"
  shows "jb_id j = jb_id (wk_job w)" "jb_max_retries j = jb_max_retries (wk_job w)"
    "jb_status j \<noteq> J_RUNNING" "jb_run_count (wk_job w) < jb_run_count j"
    "jr_id run = jr_id (wk_run w)" "jr_status run \<noteq> R_RUNNING"
    "0 \<le> jb_retry_count (wk_job w) \<Longrightarrow>
      jb_retry_count (wk_job w) < max 1 (jb_max_retries (wk_job w)) \<Longrightarrow> retry_ok j"
proof -
  let ?j = "(wk_job w)\<lparr>jb_status := J_RUNNING\<rparr>"
  have "jb_id j = jb_id (wk_job w) \<and> jb_max_retries j = jb_max_retries (wk_job w) \<and>
    jb_status j \<noteq> J_RUNNING \<and> jb_run_count (wk_job w) < jb_run_count j \<and>
    jr_id run = jr_id (wk_run w) \<and> jr_status run \<noteq> R_RUNNING \<and>
    (0 \<le> jb_retry_count (wk_job w) \<longrightarrow>
      jb_retry_count (wk_job w) < max 1 (jb_max_retries (wk_job w)) \<longrightarrow> retry_ok j)"
  proof (cases "execute_job (se_san env) outcome (se_now env) ?j (wk_run w)")
    case (Inl e)
    with assms have failed: "runtime_failed env e ?j (wk_run w) = (j, run)" by (auto simp: settle_def Let_def split: if_splits)
    have "retry_ok ?j" if "0 \<le> jb_retry_count (wk_job w)"
      "jb_retry_count (wk_job w) < max 1 (jb_max_retries (wk_job w))"
      using that by (simp add: retry_ok_def)
    with runtime_failed_facts [OF failed] show ?thesis by simp
  next
    case (Inr res)
    obtain j1 run1 where res: "res = (j1, run1)" by (cases res)
    note exec = execute_job_facts [OF Inr [unfolded res]]
    note status = settled_status_facts [of j1 run1]
    show ?thesis
    proof (cases "settled_next env (settled_status j1 run1)")
      case (Inl e)
      with Inr res assms have "runtime_failed env e (settled_status j1 run1) run1 = (j, run)"
        by (simp add: settle_def Let_def)
      from runtime_failed_facts [OF this] exec status show ?thesis by auto
    next
      case (Inr j2)
      with \<open>execute_job _ _ _ _ _ = Inr res\<close> res assms
      have j: "j = j2\<lparr>jb_claim := Some (wk_token w)\<rparr>" "run = run1" by (simp_all add: settle_def Let_def)
      then have "retry_ok j = retry_ok j2" by (simp add: retry_ok_def)
      with j exec status settled_next_facts [OF Inr] show ?thesis by auto
    qed
  qed
  then show "jb_id j = jb_id (wk_job w)" "jb_max_retries j = jb_max_retries (wk_job w)"
    "jb_status j \<noteq> J_RUNNING" "jb_run_count (wk_job w) < jb_run_count j"
    "jr_id run = jr_id (wk_run w)" "jr_status run \<noteq> R_RUNNING"
    "0 \<le> jb_retry_count (wk_job w) \<Longrightarrow>
      jb_retry_count (wk_job w) < max 1 (jb_max_retries (wk_job w)) \<Longrightarrow> retry_ok j"
    by simp_all
qed

text \<open>Without the claim, finalising raises \<open>JobClaimLostError\<close> or another error, and writes nothing.\<close>

lemma store_finalize_cases:
  assumes keyed: "keyed jb_id (ss_jobs st)" "keyed rr_id (ss_runs st)"
    and run: "store_finalize io j run tok st = (res, st')"
  obtains (unchanged) e where "res = Inl e" "st' = st"
    | (ended) v r0 x0 where "res = Inr ()" "job_values j = Inr v"
        "r0 \<in> set (ss_jobs st)" "jb_claim r0 = Some tok" "jb_id r0 = jb_id j"
        "x0 \<in> set (ss_runs st)" "rr_id x0 = jr_id run" "rr_token x0 = tok"
        "st' = st\<lparr>
          ss_jobs := update_where (\<lambda>r. jb_id r = jb_id v \<and> jb_claim r = Some tok) (finalized_row v) (ss_jobs st),
          ss_runs := update_where (\<lambda>r. rr_id r = jr_id run \<and> rr_token r = tok) (finalized_run run) (ss_runs st)\<rparr>"
proof (cases "job_values j")
  case (Inl e)
  with run have "res = Inl e" "st' = st" by (simp_all add: store_finalize_def)
  then show ?thesis by (rule unchanged)
next
  case (Inr v)
  let ?hit = "\<lambda>r. jb_id r = jb_id v \<and> jb_claim r = Some tok"
  let ?run_hit = "\<lambda>r. rr_id r = jr_id run \<and> rr_token r = tok"
  have v: "jb_id v = jb_id j" using job_values_Inr [OF Inr] by simp
  show ?thesis
  proof (cases "ss_open st \<and> io = None \<and> rowcount ?hit (ss_jobs st) = 1 \<and> rowcount ?run_hit (ss_runs st) = 1")
    case False
    have "(\<exists>e. res = Inl e) \<and> st' = st"
      using False run Inr by (cases io) (auto simp: store_finalize_def on_open_def run_sql_def Let_def split: if_splits)
    with unchanged show ?thesis by blast
  next
    case True
    then have "filter ?hit (ss_jobs st) \<noteq> []" "filter ?run_hit (ss_runs st) \<noteq> []"
      by (auto simp: rowcount_def simp del: filter_False)
    then obtain r0 x0 where rows: "r0 \<in> set (ss_jobs st)" "?hit r0" "x0 \<in> set (ss_runs st)" "?run_hit x0"
      unfolding filter_empty_conv by blast
    from True run Inr have res: "res = Inr ()" "st' = st\<lparr>ss_jobs := update_where ?hit (finalized_row v) (ss_jobs st),
        ss_runs := update_where ?run_hit (finalized_run run) (ss_runs st)\<rparr>"
      by (simp_all add: store_finalize_def on_open_def run_sql_def Let_def)
    show ?thesis by (rule ended [where ?r0.0 = r0 and ?x0.0 = x0, OF res(1) Inr]) (use rows v res(2) in simp_all)
  qed
qed

lemma claims_ok_finish:
  assumes ok: "claims_ok ws drawn st" and w: "w \<in> set ws" and settled: "settle env outcome w = Inr (failed, j, run)"
    and run: "store_finalize io j run (wk_token w) st = (res, st')"
  shows "claims_ok ws drawn st'"
proof -
  note sched = claims_okD(1) [OF ok]
  note facts = settle_facts [OF settled]
  from sched_okD(1,2) [OF sched] run show ?thesis
  proof (cases rule: store_finalize_cases)
    case unchanged
    with ok show ?thesis by simp
  next
    case (ended v r0 x0)
    note v = job_values_Inr [OF ended(2)]
    let ?hit = "\<lambda>r. jb_id r = jb_id v \<and> jb_claim r = Some (wk_token w)"
    have same: "same_claim r0 (wk_job w)"
      using claims_okD(5) [OF ok w] ended(3,4) by (simp add: worker_ok_def)
    have hit: "?hit r \<Longrightarrow> r \<in> set (ss_jobs st) \<Longrightarrow> r = r0" for r
      using same_job [OF sched _ ended(3)] ended(5) v by simp
    have running: "jb_status r0 = J_RUNNING" using sched_okD(5) [OF sched ended(3)] ended(4) by (simp add: job_ok_def)
    have "retry_ok j" using facts(7) claims_okD(2) [OF ok ended(3)] running same
      by (simp add: retry_ok_def same_claim_def)
    moreover have "jb_retry_count (finalized_row v r0) = jb_retry_count j"
      "jb_max_retries (finalized_row v r0) = jb_max_retries j" "jb_status (finalized_row v r0) = jb_status j"
      using v facts(2) same by (simp_all add: finalized_row_def same_claim_def)
    ultimately have retry: "retry_ok (finalized_row v r0)" by (simp add: retry_ok_def)
    show ?thesis
    proof (rule claims_ok_change [OF ok])
      show "sched_ok st'"
        unfolding ended(9) using facts v same ended
        by (intro sched_ok_finalize [OF sched ended(3,4) _ _ _ _ ended(6,7,8)]) (simp_all add: same_claim_def)
      fix x' assume "x' \<in> set (ss_runs st')"
      then show "\<exists>x \<in> set (ss_runs st). rr_token x = rr_token x' \<and> rr_id x = rr_id x'"
        unfolding ended(9) by (force simp: set_update_where finalized_run_def)
    next
      fix j' assume "j' \<in> set (ss_jobs st')"
      then obtain r where r: "r \<in> set (ss_jobs st)" "j' = (if ?hit r then finalized_row v r else r)"
        unfolding ended(9) by (auto simp: set_update_where)
      with hit [OF _ r(1)] retry claims_okD(2) [OF ok r(1)] show "retry_ok j'" by auto
      fix tok assume "jb_claim j' = Some tok"
      with r have "j' = r" by (auto simp: finalized_row_def split: if_splits)
      with r(1) \<open>jb_claim j' = Some tok\<close>
      show "\<exists>j \<in> set (ss_jobs st). jb_claim j = Some tok \<and> same_claim j' j" by (auto simp: same_claim_def)
    qed
  qed
qed

section \<open>Steps\<close>

text \<open>
  A world is the shared tables, the workers of all processes, and the tokens drawn so far.  Each
  step is one transaction on the tables, or a change of the workers; the steps of the processes
  interleave in any order.  A token is a fresh UUID, so a claim is made with one not drawn before.
  \<open>Connect\<close> looks through another process's connection.
\<close>

type_synonym world = "sched_store \<times> worker list \<times> string set"

definition new_worker :: "job \<Rightarrow> instant \<Rightarrow> string \<Rightarrow> string \<Rightarrow> worker" where
  "new_worker j now tok run_id = \<lparr>wk_job = j, wk_run = new_run j now tok run_id, wk_token = tok\<rparr>"

inductive world_step :: "world \<Rightarrow> world \<Rightarrow> bool" where
  Connect: "world_step (st, ws, D) (st\<lparr>ss_open := b\<rparr>, ws, D)"
| Save: "store_save io (new_job env q t) st = (r, st') \<Longrightarrow> world_step (st, ws, D) (st', ws, D)"
| Claim: "tok \<notin> D \<Longrightarrow> store_claim san zone_ok io i now tok expires run_id st = (Inr (Some j), st') \<Longrightarrow>
    world_step (st, ws, D) (st', ws @ [new_worker j now tok run_id], insert tok D)"
| Claim_Nothing: "tok \<notin> D \<Longrightarrow> store_claim san zone_ok io i now tok expires run_id st = (r, st') \<Longrightarrow>
    world_step (st, ws, D) (st', ws, insert tok D)"
| Draw: "world_step (st, ws, D) (st, ws, insert tok D)"
| Finish: "w \<in> set ws \<Longrightarrow> settle env outcome w = Inr (failed, j, run) \<Longrightarrow>
    store_finalize io j run (wk_token w) st = (r, st') \<Longrightarrow> world_step (st, ws, D) (st', ws, D)"
| Vanish: "set ws' \<subseteq> set ws \<Longrightarrow> world_step (st, ws, D) (st, ws', D)"
| Renew: "store_renew io i tok expires now st = (n, st') \<Longrightarrow> world_step (st, ws, D) (st', ws, D)"
| Release: "store_release io now delay st = (k, st') \<Longrightarrow> world_step (st, ws, D) (st', ws, D)"
| Pause: "store_pause san zone_ok io i n now st = (m, st') \<Longrightarrow> world_step (st, ws, D) (st', ws, D)"
| Resume: "store_resume san zone_ok io i n next_at now st = (m, st') \<Longrightarrow> world_step (st, ws, D) (st', ws, D)"
| Delete: "store_delete io i expected st = (b, st') \<Longrightarrow> world_step (st, ws, D) (st', ws, D)"
| Cancel: "store_cancel io i now st = (b, st') \<Longrightarrow> world_step (st, ws, D) (st', ws, D)"
| Reschedule: "store_reschedule io i n run_at tz payload now st = (b, st') \<Longrightarrow>
    world_step (st, ws, D) (st', ws, D)"

definition reachable :: "world \<Rightarrow> bool" where
  "reachable x = world_step\<^sup>*\<^sup>* (empty_sched, [], {}) x"

lemma claims_ok_step:
  assumes "world_step (st, ws, D) (st', ws', D')" and ok: "claims_ok ws D st"
  shows "claims_ok ws' D' st'"
  using assms
proof (cases rule: world_step.cases)
  case (Save io env q t r)
  have "keepsS (claims_ok ws D) (store_save io (new_job env q t))"
    by (rule keeps_save) (simp_all add: new_job_def retry_ok_def)
  from keepsSD [OF this ok Save(3)] Save(1,2) show ?thesis by simp
next
  case (Claim tok san zone_ok io i now expires run_id j)
  from sched_okD(1) [OF claims_okD(1) [OF ok]] Claim(4) show ?thesis
  proof (cases rule: store_claim_cases)
    case (claimed r0)
    have row: "jb_status r0 \<in> {J_ACTIVE, J_RETRYING}" using claimed(3) by (simp add: claimable_def)
    note new = claims_ok_claim [OF ok Claim(3) claimed(1) row claimed(4), where now = now and expires = expires,
        folded claimed(5)]
    have "same_claim r0 j"
      using row_to_job_same [OF claimed(6) [OF refl]] by (simp add: same_claim_def claimed_row_def)
    then have "worker_ok st' (new_worker j now tok run_id)" by (intro new(2)) (simp_all add: new_worker_def new_run_def)
    with new(1) show ?thesis unfolding Claim(1,2) by (auto simp: claims_ok_def new_worker_def)
  next
    case unchanged
    from unchanged(2) [of j] show ?thesis by simp
  qed
next
  case (Claim_Nothing tok san zone_ok io i now expires run_id r)
  from sched_okD(1) [OF claims_okD(1) [OF ok]] Claim_Nothing(4) show ?thesis
  proof (cases rule: store_claim_cases)
    case (claimed r0)
    have row: "jb_status r0 \<in> {J_ACTIVE, J_RETRYING}" using claimed(3) by (simp add: claimable_def)
    show ?thesis
      using claims_ok_claim(1) [OF ok Claim_Nothing(3) claimed(1) row claimed(4), where now = now and expires = expires,
        folded claimed(5)] by (simp add: Claim_Nothing(1,2))
  next
    case unchanged
    with claims_ok_mono [OF ok, of D'] show ?thesis unfolding Claim_Nothing(1,2) by auto
  qed
next
  case (Finish w env outcome failed j run io r)
  from claims_ok_finish [OF ok Finish(3,4,5)] show ?thesis unfolding Finish(1,2) .
next
  case Vanish
  with claims_ok_fewer [OF ok] show ?thesis by simp
next
  case Draw
  with claims_ok_mono [OF ok] show ?thesis by auto
next
  case Connect
  with ok show ?thesis by simp
qed (use ok in \<open>auto dest: keepsSD [OF keeps_renew] keepsSD [OF keeps_release] keepsSD [OF keeps_pause]
  keepsSD [OF keeps_resume] keepsSD [OF keeps_delete] keepsSD [OF keeps_cancel] keepsSD [OF keeps_reschedule]\<close>)

definition world_ok :: "world \<Rightarrow> bool" where
  "world_ok x = (case x of (st, ws, D) \<Rightarrow> claims_ok ws D st)"

lemma world_ok_step: "world_step x y \<Longrightarrow> world_ok x \<Longrightarrow> world_ok y"
  unfolding world_ok_def by (cases x; cases y) (simp add: claims_ok_step)

lemma world_ok_start: "world_ok (empty_sched, [], {})"
  by (simp add: world_ok_def claims_ok_def sched_ok_empty) (simp add: empty_sched_def)

lemma world_ok_steps: "world_step\<^sup>*\<^sup>* x y \<Longrightarrow> world_ok x \<Longrightarrow> world_ok y"
  by (induction rule: rtranclp_induct) (auto intro: world_ok_step)

lemma claims_ok_reachable: "reachable (st, ws, D) \<Longrightarrow> claims_ok ws D st"
  using world_ok_steps [OF _ world_ok_start] by (fastforce simp: reachable_def world_ok_def)

end
