(* ===== verification/Scheduler_Refinement.thy ===== *)
theory Scheduler_Refinement
  imports Scheduler_System
begin

text \<open>
  Every operation of a \<open>SchedulerRuntime\<close> is a sequence of the steps of \<open>Scheduler_System\<close>: what
  holds of the reachable worlds holds after any operation of any process.
\<close>

section \<open>States of one process\<close>

definition reg_ok :: "job_registry \<Rightarrow> bool" where
  "reg_ok reg = (distinct (map fst reg) \<and> (\<forall>(i, j) \<in> set reg. jb_id j = i))"

text \<open>\<open>ws\<close> are the workers of the other processes; \<open>x0\<close> is where the run began.\<close>

definition via :: "world \<Rightarrow> worker list \<Rightarrow> string set \<Rightarrow> runtime \<times> sched_store \<Rightarrow> bool" where
  "via x0 ws D x = (world_step\<^sup>*\<^sup>* x0 (snd x, ws @ rt_workers (fst x), D) \<and> reg_ok (rt_registry (fst x)))"

lemma set_put: "set (put k v d) \<subseteq> insert (k, v) (set d)"
  by (induction d) (auto split: if_splits)

lemma reg_ok_put: "reg_ok reg \<Longrightarrow> reg_ok (put (jb_id j) j reg)"
  using set_put [of "jb_id j" j reg] by (auto simp: reg_ok_def put_distinct)

lemma reg_ok_filter: "reg_ok reg \<Longrightarrow> reg_ok (filter p reg)"
  by (auto simp: reg_ok_def distinct_map_filter)

lemma reg_ok_pop: "reg_ok reg \<Longrightarrow> reg_ok (pop i reg)"
  unfolding pop_def by (rule reg_ok_filter)

lemma reg_ok_register: "reg_ok reg \<Longrightarrow> reg_register j reg = Inr reg' \<Longrightarrow> reg_ok reg'"
  by (auto simp: reg_register_def reg_ok_put split: if_splits)

lemma reg_ok_replace: "reg_ok reg \<Longrightarrow> reg_replace j reg = Inr reg' \<Longrightarrow> reg_ok reg'"
  by (auto simp: reg_replace_def reg_ok_put split: if_splits)

lemma reg_ok_recover: "reg_ok reg \<Longrightarrow> reg_ok (recover_rows js reg)"
  by (induction js reg rule: recover_rows.induct) (auto split: sum.split dest: reg_ok_register)

lemma reg_ok_ids: "reg_ok reg \<Longrightarrow> distinct (map jb_id (map snd reg))"
proof -
  assume "reg_ok reg"
  then have "map jb_id (map snd reg) = map fst reg" by (auto simp: reg_ok_def)
  then show ?thesis using \<open>reg_ok reg\<close> unfolding reg_ok_def by (simp only:)
qed

lemma steps_then: "world_step\<^sup>*\<^sup>* x y \<Longrightarrow> world_step y z \<Longrightarrow> world_step\<^sup>*\<^sup>* x z"
  by (rule rtranclp.rtrancl_into_rtrancl)

lemma via_step: "via x0 ws D (rt, st) \<Longrightarrow> world_step (st, ws @ rt_workers rt, D) (st', ws' @ rt_workers rt', D') \<Longrightarrow>
   reg_ok (rt_registry rt') \<Longrightarrow> via x0 ws' D' (rt', st')"
  by (auto simp: via_def intro: rtranclp.rtrancl_into_rtrancl)

lemma via_vanish:
  assumes "via x0 ws D (rt, st)" "set (ws' @ rt_workers rt') \<subseteq> set (ws @ rt_workers rt)" "reg_ok (rt_registry rt')"
  shows "via x0 ws' D (rt', st)"
  by (rule via_step [OF assms(1) Vanish [OF assms(2)] assms(3)])

lemma via_reg_ok: "via x0 ws D (rt, st) \<Longrightarrow> reg_ok (rt_registry rt)"
  by (simp add: via_def)

lemma via_fewer: "via x0 (w # ws) D x \<Longrightarrow> via x0 ws D x"
  by (cases x) (auto intro: via_vanish via_reg_ok)

section \<open>The pieces of an operation\<close>

lemma via_on_store: "(\<And>st r st' vs. m st = (r, st') \<Longrightarrow> world_step (st, vs, D) (st', vs, D)) \<Longrightarrow>
   keepsS (via x0 ws D) (on_store m)"
  unfolding keepsS_def on_store_def
  by (auto split: prod.split simp: via_def intro: rtranclp.rtrancl_into_rtrancl)

lemma via_read [wf_rules]: "keepsS (via x0 ws D) (read_store m)" "keepsS (via x0 ws D) (read_runtime f)"
  by (simp_all add: keepsS_def read_store_def read_runtime_def)

lemma via_change_runtime: "(\<And>rt. set (rt_workers (f rt)) \<subseteq> set (rt_workers rt)) \<Longrightarrow>
   (\<And>rt. reg_ok (rt_registry rt) \<Longrightarrow> reg_ok (rt_registry (f rt))) \<Longrightarrow>
   keepsS (via x0 ws D) (change_runtime f)"
  unfolding keepsS_def
proof (intro allI impI)
  fix x assume smaller: "\<And>rt. set (rt_workers (f rt)) \<subseteq> set (rt_workers rt)"
    and reg: "\<And>rt. reg_ok (rt_registry rt) \<Longrightarrow> reg_ok (rt_registry (f rt))" and x: "via x0 ws D x"
  obtain rt st where x_def: "x = (rt, st)" by (cases x)
  have "set (ws @ rt_workers (f rt)) \<subseteq> set (ws @ rt_workers rt)" using smaller [of rt] by auto
  from via_vanish [OF x [unfolded x_def] this reg [OF via_reg_ok [OF x [unfolded x_def]]]]
  show "via x0 ws D (snd (change_runtime f x))" by (simp add: change_runtime_def x_def)
qed

lemma via_change_registry: "(\<And>reg reg'. reg_ok reg \<Longrightarrow> f reg = Inr reg' \<Longrightarrow> reg_ok reg') \<Longrightarrow>
   keepsS (via x0 ws D) (change_registry f)"
  unfolding keepsS_def change_registry_def
  by (auto simp: via_def split: prod.split sum.split)

lemma via_registry [wf_rules]:
  "keepsS (via x0 ws D) (change_registry (reg_register j))"
  "keepsS (via x0 ws D) (change_registry (reg_replace j))"
  by (intro via_change_registry, erule (1) reg_ok_register reg_ok_replace)+

lemma via_publish [wf_rules]: "keepsS (via x0 ws D) (publish_event env ty i)"
  unfolding publish_event_def by (rule via_change_runtime) (auto split: bus_mode.split)

lemma via_set_registry [wf_rules]:
  "keepsS (via x0 ws D) (change_runtime (\<lambda>rt. rt\<lparr>rt_registry := pop i (rt_registry rt)\<rparr>))"
  "keepsS (via x0 ws D) (change_runtime (\<lambda>rt. rt\<lparr>rt_registry := filter p (rt_registry rt)\<rparr>))"
  "keepsS (via x0 ws D) (change_runtime (\<lambda>rt. rt\<lparr>rt_registry := recover_rows js (rt_registry rt)\<rparr>))"
  "keepsS (via x0 ws D) (set_job j)"
  unfolding set_job_def
  by (intro via_change_runtime; simp add: reg_ok_pop reg_ok_filter reg_ok_recover reg_ok_put)+

lemma via_statements [wf_rules]:
  "keepsS (via x0 ws D) (on_store (store_save io (new_job env q t)))"
  "keepsS (via x0 ws D) (on_store (store_pause san zone_ok io i n now))"
  "keepsS (via x0 ws D) (on_store (store_resume san zone_ok io i n next_at now))"
  "keepsS (via x0 ws D) (on_store (store_delete io i expected))"
  "keepsS (via x0 ws D) (on_store (store_cancel io i now))"
  "keepsS (via x0 ws D) (on_store (store_reschedule io i n run_at tz payload now))"
  "keepsS (via x0 ws D) (on_store (store_renew io i tok expires now))"
  "keepsS (via x0 ws D) (on_store (store_release io now delay))"
  by (rule via_on_store, erule world_step.intros)+

lemma via_connection [wf_rules]:
  "keepsS (via x0 ws D) (on_store (store_open_connection io))"
  "keepsS (via x0 ws D) (on_store (\<lambda>s. (Inr (), store_close s)))"
proof -
  have "world_step (st, vs, D) (st', vs, D)" if "store_open_connection io st = (r, st')" for st r st' vs
    using that Connect [of st vs D True] Connect [of st vs D "ss_open st"]
    by (auto simp: store_open_connection_def split: if_splits option.splits)
  then show "keepsS (via x0 ws D) (on_store (store_open_connection io))" by (rule via_on_store)
  show "keepsS (via x0 ws D) (on_store (\<lambda>s. (Inr (), store_close s)))"
    by (rule via_on_store) (auto simp: store_close_def intro: Connect)
qed

section \<open>Operations\<close>

lemma via_sync_rows [wf_rules]: "keepsS (via x0 ws D) (sync_rows js)"
  by (induction js) (auto intro!: wf_rules)

lemma via_sync [wf_rules]: "keepsS (via x0 ws D) (sync_registry env)"
  unfolding sync_registry_def by (intro wf_rules)

lemma via_get_job [wf_rules]: "keepsS (via x0 ws D) (get_job env i)"
  unfolding get_job_def by (intro wf_rules)

lemma via_save [wf_rules]: "keepsS (via x0 ws D) (\<lambda>x. if b
    then (case on_store (store_save io (new_job env q t)) x of
            (Inl e, (rt, st)) \<Rightarrow> (Inl e, (rt\<lparr>rt_registry := pop i (rt_registry rt)\<rparr>, st))
          | (Inr u, y) \<Rightarrow> (Inr u, y))
    else (Inr (), x))"
  unfolding keepsS_def
proof (intro allI impI)
  fix x assume "via x0 ws D x"
  moreover obtain res rt st where call: "on_store (store_save io (new_job env q t)) x = (res, (rt, st))"
    by (metis prod.exhaust)
  moreover from keepsSD [OF via_statements(1) _ call] \<open>via x0 ws D x\<close> have "via x0 ws D (rt, st)" by blast
  ultimately show "via x0 ws D (snd (if b
    then (case on_store (store_save io (new_job env q t)) x of
            (Inl e, (rt, st)) \<Rightarrow> (Inl e, (rt\<lparr>rt_registry := pop i (rt_registry rt)\<rparr>, st))
          | (Inr u, y) \<Rightarrow> (Inr u, y))
    else (Inr (), x)))"
    by (cases res) (auto simp: via_def reg_ok_pop)
qed

lemma via_schedule [wf_rules]: "keepsS (via x0 ws D) (schedule env q)"
  unfolding schedule_def Let_def by (intro wf_rules)

lemma via_pause_job [wf_rules]: "keepsS (via x0 ws D) (pause_job env i)"
  unfolding pause_job_def by (intro wf_rules)

lemma via_resume_job [wf_rules]: "keepsS (via x0 ws D) (resume_job env i)"
  unfolding resume_job_def by (intro wf_rules)

lemma via_delete_job [wf_rules]: "keepsS (via x0 ws D) (delete_job env i)"
  unfolding delete_job_def by (intro wf_rules)

lemma via_cancel_job [wf_rules]: "keepsS (via x0 ws D) (cancel_job env i)"
  unfolding cancel_job_def by (intro wf_rules)

lemma via_reschedule [wf_rules]: "keepsS (via x0 ws D) (reschedule_one_shot env i run_at tz payload)"
  unfolding reschedule_one_shot_def by (intro wf_rules)

lemma via_list_jobs [wf_rules]: "keepsS (via x0 ws D) (list_jobs env)"
  unfolding list_jobs_def by (intro wf_rules)

lemma via_initialize [wf_rules]: "keepsS (via x0 ws D) (sched_initialize env)"
  unfolding sched_initialize_def by (intro wf_rules)

lemma via_start [wf_rules]: "keepsS (via x0 ws D) (sched_start env)"
  unfolding sched_start_def by (intro wf_rules via_change_runtime) simp_all

lemma via_renew [wf_rules]: "keepsS (via x0 ws D) (renew_worker env w)"
  unfolding renew_worker_def by (intro wf_rules)

lemma via_drop [wf_rules]: "keepsS (via x0 ws D) (drop_worker w)"
  unfolding drop_worker_def by (rule via_change_runtime) (simp_all add: set_remove1_subset)

lemma via_cancel_worker [wf_rules]: "keepsS (via x0 ws D) (cancel_worker env w)"
  unfolding cancel_worker_def by (intro wf_rules)


text \<open>The end of a run: the worker leaves the process first, and the abstract system last.\<close>

lemma via_take: "via x0 ws D x \<Longrightarrow> w \<in> set (rt_workers (fst x)) \<Longrightarrow> via x0 (w # ws) D x"
  by (cases x) (auto intro: via_vanish via_reg_ok)

lemma via_finalize:
  assumes "settle env outcome w = Inr (failed, j, run)" "w \<in> set ws"
  shows "keepsS (via x0 ws D) (on_store (store_finalize io j run (wk_token w)))"
  unfolding keepsS_def on_store_def
proof (intro allI impI)
  fix x assume x: "via x0 ws D x"
  obtain rt st where [simp]: "x = (rt, st)" by (cases x)
  obtain r st' where call: "store_finalize io j run (wk_token w) st = (r, st')" by fastforce
  have "world_step (st, ws @ rt_workers rt, D) (st', ws @ rt_workers rt, D)"
    by (rule Finish [OF _ assms(1) call]) (simp add: assms(2))
  from via_step [OF _ this] x have "via x0 ws D (rt, st')" by (simp add: via_reg_ok)
  with call show "via x0 ws D (snd (case x of (rt, st) \<Rightarrow>
      (case store_finalize io j run (wk_token w) st of (r, st') \<Rightarrow> (r, (rt, st')))))" by simp
qed

lemma via_finish_among:
  assumes "w \<in> set ws"
  shows "keepsS (via x0 ws D) (finish_worker env outcome w)"
proof (cases "settle env outcome w")
  case (Inl e)
  show ?thesis unfolding finish_worker_def Inl sum.case by (intro wf_rules)
next
  case (Inr y)
  obtain failed j run where y: "y = (failed, j, run)" by (cases y)
  note finalize = via_finalize [OF Inr [unfolded y] assms]
  show ?thesis unfolding finish_worker_def Inr y sum.case prod.case by (intro wf_rules finalize)
qed

lemma via_finish:
  assumes "via x0 ws D x" "w \<in> set (rt_workers (fst x))" "finish_worker env outcome w x = (r, x')"
  shows "via x0 ws D x'"
proof -
  have "keepsS (via x0 (w # ws) D) (finish_worker env outcome w)" by (rule via_finish_among) simp
  from keepsSD [OF this via_take [OF assms(1,2)] assms(3)] show ?thesis by (rule via_fewer)
qed

lemma via_gathered [wf_rules]: "keepsS (via x0 ws D) m \<Longrightarrow> keepsS (via x0 ws D) (gathered m)"
  by (simp add: keepsS_def gathered_def)

lemma via_end_workers: "set tasks \<subseteq> set ws \<Longrightarrow> keepsS (via x0 ws D) (end_workers env tasks)"
  by (induction tasks) (auto intro!: wf_rules via_finish_among)

text \<open>For the time of the shutdown the tasks count among the workers of the others.\<close>

lemma via_end_tasks [wf_rules]: "keepsS (via x0 ws D) (bindS (read_runtime rt_workers) (\<lambda>tasks.
    bindS (end_workers env tasks) (\<lambda>_. m)))"
  if m: "\<And>ws. keepsS (via x0 ws D) m"
  unfolding keepsS_def
proof (intro allI impI)
  fix x assume x: "via x0 ws D x"
  obtain rt st where x_def: "x = (rt, st)" by (cases x)
  let ?tasks = "rt_workers rt" and ?m = "bindS (end_workers env (rt_workers rt)) (\<lambda>_. m)"
  have more: "via x0 (?tasks @ ws) D (rt, st)"
    by (rule via_vanish [OF x [unfolded x_def]]) (use via_reg_ok [OF x [unfolded x_def]] in auto)
  have "keepsS (via x0 (?tasks @ ws) D) ?m" by (intro wf_rules via_end_workers m) simp
  with more have "via x0 (?tasks @ ws) D (snd (?m (rt, st)))" by (simp add: keepsS_def)
  moreover have "via x0 ws D y" if "via x0 (?tasks @ ws) D y" for y
    using that by (cases y) (auto intro: via_vanish via_reg_ok)
  ultimately show "via x0 ws D (snd (bindS (read_runtime rt_workers) (\<lambda>tasks.
      bindS (end_workers env tasks) (\<lambda>_. m)) x))"
    by (simp add: bindS_def [of "read_runtime rt_workers"] read_runtime_def x_def)
qed

lemma via_shutdown [wf_rules]: "keepsS (via x0 ws D) (sched_shutdown env)"
  unfolding sched_shutdown_def by (intro wf_rules via_change_runtime) simp_all

section \<open>The tick\<close>

lemma via_draw: "via x0 ws D x \<Longrightarrow> via x0 ws (insert tok D) x"
  by (cases x) (blast intro: via_step Draw via_reg_ok)

lemma via_start_worker:
  assumes x: "via x0 (new_worker j now tok run_id # ws) D x"
  shows "via x0 ws D (snd (start_worker j now tok run_id x))"
proof -
  obtain rt st where x_def: "x = (rt, st)" by (cases x)
  have "via x0 ws D (rt\<lparr>rt_workers := rt_workers rt @ [new_worker j now tok run_id]\<rparr>, st)"
    by (rule via_vanish [OF x [unfolded x_def]]) (use via_reg_ok [OF x [unfolded x_def]] in auto)
  then show ?thesis by (simp add: start_worker_def change_runtime_def new_worker_def x_def)
qed

lemma via_claim:
  assumes x: "via x0 ws D x" and fresh: "tok \<notin> D"
    and call: "on_store (store_claim san zone_ok io i now tok expires run_id) x = (res, x')"
  shows "via x0 (case res of Inr (Some j) \<Rightarrow> new_worker j now tok run_id # ws | _ \<Rightarrow> ws) (insert tok D) x'"
proof -
  obtain rt st where x_def: "x = (rt, st)" by (cases x)
  obtain st' where run: "store_claim san zone_ok io i now tok expires run_id st = (res, st')" and x': "x' = (rt, st')"
    using call by (auto simp: on_store_def x_def split: prod.splits)
  have idle: "via x0 ws (insert tok D) x'"
    using via_step [OF x [unfolded x_def] Claim_Nothing [OF fresh run]] x by (simp add: via_def x_def x')
  show ?thesis
  proof (cases "\<exists>j. res = Inr (Some j)")
    case True
    then obtain j where j: "res = Inr (Some j)" by blast
    have "world_step\<^sup>*\<^sup>* x0 (st', (ws @ rt_workers rt) @ [new_worker j now tok run_id], insert tok D)"
      using x by (intro steps_then [OF _ Claim [OF fresh run [unfolded j]]]) (simp add: via_def x_def)
    moreover have "world_step (st', (ws @ rt_workers rt) @ [new_worker j now tok run_id], insert tok D)
        (st', (new_worker j now tok run_id # ws) @ rt_workers rt, insert tok D)"
      by (rule Vanish) auto
    ultimately have "via x0 (new_worker j now tok run_id # ws) (insert tok D) (rt, st')"
      using x unfolding via_def x_def fst_conv snd_conv by (blast intro: steps_then)
    with j x' show ?thesis by simp
  next
    case False
    then have same: "(case res of Inr (Some j) \<Rightarrow> new_worker j now tok run_id # ws | _ \<Rightarrow> ws) = ws"
      by (cases res) (simp_all split: option.split)
    show ?thesis unfolding same by (rule idle)
  qed
qed


lemma via_dispatch:
  assumes x: "via x0 ws D x" and fresh: "se_token env (jb_id j) \<notin> D" and pers: "persistent env"
  shows "via x0 ws (insert (se_token env (jb_id j)) D) (snd (dispatch_due_job env now j x))"
proof -
  let ?tok = "se_token env (jb_id j)" and ?run = "se_run_id env (jb_id j)"
  let ?claim = "on_store (store_claim (se_san env) (se_zone_ok env) (se_claim_io env (jb_id j)) (jb_id j)
    now ?tok (now + cf_claim_ttl (se_config env)) ?run)"
  obtain res x' where call: "?claim x = (res, x')" by (cases "?claim x")
  note claimed = via_claim [OF x fresh call]
  have "via x0 ws (insert ?tok D) (snd (bindS ?claim (\<lambda>claimed. case claimed of
      None \<Rightarrow> retS ()
    | Some j' \<Rightarrow> bindS (change_registry (reg_replace j')) (\<lambda>_. start_worker j' now ?tok ?run)) x))"
  proof (cases "\<exists>j'. res = Inr (Some j')")
    case False
    with claimed call show ?thesis by (auto simp: bindS_def retS_def split: sum.split option.split)
  next
    case True
    then obtain j' where j': "res = Inr (Some j')" by blast
    with claimed have held: "via x0 (new_worker j' now ?tok ?run # ws) (insert ?tok D) x'" by simp
    obtain r x'' where replaced: "change_registry (reg_replace j') x' = (r, x'')"
      by (cases "change_registry (reg_replace j') x'")
    from keepsSD [OF via_registry(2) held replaced]
    have still: "via x0 (new_worker j' now ?tok ?run # ws) (insert ?tok D) x''" .
    show ?thesis
      using via_fewer [OF still] via_start_worker [OF still] call j' replaced
      by (simp add: bindS_def split: sum.split)
  qed
  moreover have "via x0 ws (insert ?tok D) x" by (rule via_draw [OF x])
  ultimately show ?thesis
    using pers by (simp add: dispatch_due_job_def bindS_def [of "read_runtime running_count"] read_runtime_def Let_def retS_def)
qed

lemma via_dispatch_all:
  assumes "via x0 ws D x" "persistent env" "distinct (map jb_id js)" "inj (se_token env)"
    "\<And>j. j \<in> set js \<Longrightarrow> se_token env (jb_id j) \<notin> D"
  shows "\<exists>D'. D' \<subseteq> D \<union> range (se_token env) \<and> via x0 ws D' (snd (dispatch_all env now js x))"
  using assms
proof (induction js arbitrary: x D)
  case Nil
  then show ?case by (auto simp: retS_def)
next
  case (Cons j js)
  let ?tok = "se_token env (jb_id j)"
  have rest: "\<exists>D'. D' \<subseteq> D \<union> range (se_token env) \<and> via x0 ws D' (snd (dispatch_all env now js y))"
    if y: "via x0 ws E y" "E \<subseteq> insert ?tok D" for E y
  proof -
    have "se_token env (jb_id k) \<notin> E" if k: "k \<in> set js" for k
    proof -
      have "jb_id k \<noteq> jb_id j" using Cons.prems(3) imageI [OF k, of jb_id] by auto
      with Cons.prems(4) have "se_token env (jb_id k) \<noteq> ?tok" by (auto dest: injD)
      with Cons.prems(5) [of k] k y(2) show ?thesis by auto
    qed
    then obtain D' where "D' \<subseteq> E \<union> range (se_token env)" "via x0 ws D' (snd (dispatch_all env now js y))"
      using Cons.IH [OF y(1) Cons.prems(2) _ Cons.prems(4)] Cons.prems(3) by auto
    then show ?thesis using y(2) by blast
  qed
  obtain r y where call: "dispatch_due_job env now j x = (r, y)" by (cases "dispatch_due_job env now j x")
  with via_dispatch [OF Cons.prems(1) Cons.prems(5) Cons.prems(2), of j now]
  have y: "via x0 ws (insert ?tok D) y" by simp
  show ?case
  proof (cases "should_fire (jb_trigger j) now \<and> se_admits env (jb_id j)")
    case True
    then have "snd (dispatch_all env now (j # js) x) =
        (case r of Inl e \<Rightarrow> y | Inr u \<Rightarrow> snd (dispatch_all env now js y))"
      using call by (simp add: bindS_def split: sum.split)
    moreover have "\<exists>D'. D' \<subseteq> D \<union> range (se_token env) \<and> via x0 ws D' y"
      using y by (intro exI [of _ "insert ?tok D"]) auto
    moreover have "\<exists>D'. D' \<subseteq> D \<union> range (se_token env) \<and> via x0 ws D' (snd (dispatch_all env now js y))"
      by (rule rest [OF y subset_refl])
    ultimately show ?thesis by (cases r) (simp_all only: sum.case)
  next
    case False
    then have eq: "snd (dispatch_all env now (j # js) x) =
        (if should_fire (jb_trigger j) now then x else snd (dispatch_all env now js x))"
      by (simp add: retS_def)
    have here: "\<exists>D'. D' \<subseteq> D \<union> range (se_token env) \<and> via x0 ws D' x"
      using Cons.prems(1) by (intro exI [of _ D]) auto
    have later: "\<exists>D'. D' \<subseteq> D \<union> range (se_token env) \<and> via x0 ws D' (snd (dispatch_all env now js x))"
      by (rule rest [OF Cons.prems(1)]) auto
    show ?thesis
    proof (cases "should_fire (jb_trigger j) now")
      case True
      show ?thesis unfolding eq if_P [OF True] by (rule here)
    next
      case False
      show ?thesis unfolding eq if_not_P [OF False] by (rule later)
    qed
  qed
qed


definition fresh_tokens :: "sched_env \<Rightarrow> string set \<Rightarrow> bool" where
  "fresh_tokens env D = (inj (se_token env) \<and> range (se_token env) \<inter> D = {})"

lemma via_tick:
  assumes x: "via x0 ws D x" and pers: "persistent env" and fresh: "fresh_tokens env D"
  shows "\<exists>D'. D' \<subseteq> D \<union> range (se_token env) \<and> via x0 ws D' (snd (tick env x))"
proof -
  let ?first = "if persistent env
      then bindS (on_store (store_release (se_write_io env) (se_now env) (cf_retry_delay (se_config env))))
             (\<lambda>_. sync_registry env)
      else retS ()"
  obtain r y where call: "?first x = (r, y)" by (cases "?first x")
  have "keepsS (via x0 ws D) ?first" by (intro wf_rules)
  from keepsSD [OF this x call] have y: "via x0 ws D y" .
  define active where "active = filter (\<lambda>j. jb_status j \<in> {J_ACTIVE, J_RETRYING}) (map snd (rt_registry (fst y)))"
  have "reg_ok (rt_registry (fst y))" using y by (simp add: via_def)
  then have "distinct (map jb_id active)"
    unfolding active_def using reg_ok_ids distinct_map_filter by blast
  then have all: "\<exists>D'. D' \<subseteq> D \<union> range (se_token env) \<and> via x0 ws D' (snd (dispatch_all env (se_now env) active y))"
    using fresh by (intro via_dispatch_all [OF y pers]) (auto simp: fresh_tokens_def)
  have "snd (tick env x) =
      (case r of Inl e \<Rightarrow> y
       | Inr u \<Rightarrow> (case find (\<lambda>j. \<not> validate_trigger (jb_trigger j)) active of
                     Some j \<Rightarrow> y | None \<Rightarrow> snd (dispatch_all env (se_now env) active y)))"
    unfolding tick_def bindS_def [of ?first] call
    by (simp add: bindS_def read_runtime_def failS_def active_def split: sum.split option.split)
  moreover have "\<exists>D'. D' \<subseteq> D \<union> range (se_token env) \<and> via x0 ws D' y"
    by (intro exI [of _ D]) (simp add: y)
  ultimately show ?thesis
    using all by (cases r; cases "find (\<lambda>j. \<not> validate_trigger (jb_trigger j)) active") simp_all
qed

lemma via_tick_round:
  assumes "via x0 ws D x" "persistent env" "fresh_tokens env D"
  shows "\<exists>D'. D' \<subseteq> D \<union> range (se_token env) \<and> via x0 ws D' (snd (tick_round env x))"
proof -
  obtain r rt st where call: "tick env x = (r, (rt, st))" by (cases "tick env x") auto
  with via_tick [OF assms] obtain D' where sub: "D' \<subseteq> D \<union> range (se_token env)" and D': "via x0 ws D' (rt, st)"
    by auto
  have same: "via x0 ws D' (rt\<lparr>rt_last_tick := a, rt_last_success := b, rt_failures := n\<rparr>, st)"
    "via x0 ws D' (rt\<lparr>rt_last_tick := a, rt_failures := n, rt_last_error := f\<rparr>, st)" for a b n f
    using D' by (simp_all add: via_def)
  show ?thesis
  proof (cases r)
    case (Inl e)
    have "keepsS (via x0 ws D') (publish_event env ty i)" for ty i by (rule via_publish)
    then have "via x0 ws D' (snd (publish_event env ty i
        (rt\<lparr>rt_last_tick := a, rt_failures := n, rt_last_error := f\<rparr>, st)))" for ty i a n f
      using same(2) unfolding keepsS_def by blast
    then show ?thesis using call Inl sub unfolding tick_round_def Let_def by (intro exI [of _ D']) simp
  next
    case (Inr u)
    then show ?thesis using call same(1) sub by (intro exI [of _ D']) (simp add: tick_round_def)
  qed
qed

section \<open>A process\<close>

datatype request =
    Do_Initialize
  | Do_Start
  | Do_Shutdown
  | Do_Schedule schedule_request
  | Do_Pause string
  | Do_Resume string
  | Do_Delete string
  | Do_Cancel string
  | Do_Reschedule string instant string dict
  | Do_List
  | Do_Tick
  | Do_Finish handler_outcome nat
  | Do_Abandon nat
  | Do_Renew nat

text \<open>One operation of a process, its result dropped; a worker is named by its place.\<close>

definition ignore :: "'a sched_call \<Rightarrow> runtime \<times> sched_store \<Rightarrow> runtime \<times> sched_store" where
  "ignore m x = snd (m x)"

definition on_worker :: "nat \<Rightarrow> (worker \<Rightarrow> 'a sched_call) \<Rightarrow> runtime \<times> sched_store \<Rightarrow> runtime \<times> sched_store" where
  "on_worker k m x = (if k < length (rt_workers (fst x)) then ignore (m (rt_workers (fst x) ! k)) x else x)"

fun serve :: "sched_env \<Rightarrow> request \<Rightarrow> runtime \<times> sched_store \<Rightarrow> runtime \<times> sched_store" where
  "serve env Do_Initialize = ignore (sched_initialize env)"
| "serve env Do_Start = ignore (sched_start env)"
| "serve env Do_Shutdown = ignore (sched_shutdown env)"
| "serve env (Do_Schedule q) = ignore (schedule env q)"
| "serve env (Do_Pause i) = ignore (pause_job env i)"
| "serve env (Do_Resume i) = ignore (resume_job env i)"
| "serve env (Do_Delete i) = ignore (delete_job env i)"
| "serve env (Do_Cancel i) = ignore (cancel_job env i)"
| "serve env (Do_Reschedule i t tz p) = ignore (reschedule_one_shot env i t tz p)"
| "serve env Do_List = ignore (list_jobs env)"
| "serve env Do_Tick = ignore (tick_round env)"
| "serve env (Do_Finish outcome k) = on_worker k (finish_worker env outcome)"
| "serve env (Do_Abandon k) = on_worker k (cancel_worker env)"
| "serve env (Do_Renew k) = on_worker k (renew_worker env)"

lemma via_ignore: "keepsS (via x0 ws D) m \<Longrightarrow> via x0 ws D x \<Longrightarrow> via x0 ws D (ignore m x)"
  unfolding ignore_def keepsS_def by blast

lemma via_on_worker:
  assumes "\<And>w r x'. w \<in> set (rt_workers (fst x)) \<Longrightarrow> m w x = (r, x') \<Longrightarrow> via x0 ws D x'" "via x0 ws D x"
  shows "via x0 ws D (on_worker k m x)"
  using assms(2) assms(1) [of "rt_workers (fst x) ! k" "fst (m (rt_workers (fst x) ! k) x)" "snd (m (rt_workers (fst x) ! k) x)"]
  by (simp add: on_worker_def ignore_def)

lemma via_serve:
  assumes "via x0 ws D x" "persistent env" "fresh_tokens env D"
  shows "\<exists>D'. D' \<subseteq> D \<union> range (se_token env) \<and> via x0 ws D' (serve env q x)"
proof (cases "q = Do_Tick")
  case True
  then show ?thesis using via_tick_round [OF assms] by (simp add: ignore_def)
next
  case False
  have "via x0 ws D (serve env q x)"
  proof (cases q)
    case (Do_Finish outcome k)
    then show ?thesis using via_on_worker [OF via_finish [OF assms(1)] assms(1)] by simp
  next
    case (Do_Abandon k)
    then show ?thesis using via_on_worker [OF keepsSD [OF via_cancel_worker assms(1)] assms(1)] by simp
  next
    case (Do_Renew k)
    then show ?thesis using via_on_worker [OF keepsSD [OF via_renew assms(1)] assms(1)] by simp
  next
    case Do_Tick
    with False show ?thesis by simp
  qed (simp_all only: serve.simps, (rule via_ignore [OF _ assms(1)], rule wf_rules)+)
  then show ?thesis by blast
qed

section \<open>Several processes\<close>

text \<open>
  Each process has its runtime and its own connection to the database; a call names the process
  that runs it.  The tokens of a call are UUIDs that no earlier call drew.
\<close>

type_synonym processes = "(runtime \<times> bool) list \<times> sched_store"

definition new_runtime :: runtime where
  "new_runtime = \<lparr>rt_registry = [], rt_running = False, rt_workers = [], rt_failures = 0,
     rt_last_tick = None, rt_last_success = None, rt_last_error = None, rt_bus_broken = False,
     rt_published = []\<rparr>"

definition call_process :: "nat \<times> sched_env \<times> request \<Rightarrow> processes \<Rightarrow> processes" where
  "call_process c x = (case (c, x) of ((p, env, q), (ps, st)) \<Rightarrow>
     if p < length ps
     then (case serve env q (fst (ps ! p), st\<lparr>ss_open := snd (ps ! p)\<rparr>) of
             (rt, st') \<Rightarrow> (ps[p := (rt, ss_open st')], st'))
     else x)"

definition run_processes :: "nat \<Rightarrow> (nat \<times> sched_env \<times> request) list \<Rightarrow> processes" where
  "run_processes n calls = fold call_process calls (replicate n (new_runtime, False), empty_sched)"

fun fresh_calls :: "string set \<Rightarrow> (nat \<times> sched_env \<times> request) list \<Rightarrow> bool" where
  "fresh_calls D [] = True"
| "fresh_calls D ((p, env, q) # cs) =
     (persistent env \<and> fresh_tokens env D \<and> fresh_calls (D \<union> range (se_token env)) cs)"

definition all_workers :: "(runtime \<times> bool) list \<Rightarrow> worker list" where
  "all_workers ps = concat (map (rt_workers \<circ> fst) ps)"

definition processes_ok :: "string set \<Rightarrow> processes \<Rightarrow> bool" where
  "processes_ok D x =
    ((\<exists>D' \<subseteq> D. reachable (snd x, all_workers (fst x), D')) \<and>
     (\<forall>(rt, b) \<in> set (fst x). reg_ok (rt_registry rt)))"

lemma all_workers_update: "p < length ps \<Longrightarrow>
   set (all_workers (ps[p := (rt, b)])) \<subseteq> set (all_workers ps @ rt_workers rt)"
  by (auto simp: all_workers_def dest!: set_update_subset_insert [THEN subsetD])

lemma processes_ok_call:
  assumes ok: "processes_ok D x" and pers: "persistent env" and fresh: "fresh_tokens env D"
  shows "processes_ok (D \<union> range (se_token env)) (call_process (p, env, q) x)"
proof -
  obtain ps st where x: "x = (ps, st)" by (cases x)
  from ok x obtain D' where D': "D' \<subseteq> D" "reachable (st, all_workers ps, D')"
    and regs: "\<forall>(rt, b) \<in> set ps. reg_ok (rt_registry rt)" by (auto simp: processes_ok_def)
  show ?thesis
  proof (cases "p < length ps")
    case False
    with ok D' x show ?thesis by (auto simp: call_process_def processes_ok_def)
  next
    case True
    obtain rt b where p: "ps ! p = (rt, b)" by (cases "ps ! p")
    then have mem: "(rt, b) \<in> set ps" using nth_mem [OF True] by simp
    obtain rt' st' where call: "serve env q (rt, st\<lparr>ss_open := b\<rparr>) = (rt', st')" by fastforce
    have "world_step\<^sup>*\<^sup>* (empty_sched, [], {}) (st, all_workers ps, D')" using D'(2) by (simp add: reachable_def)
    from steps_then [OF this Connect [where b = b]]
    have "world_step\<^sup>*\<^sup>* (empty_sched, [], {}) (st\<lparr>ss_open := b\<rparr>, all_workers ps, D')" .
    moreover have "world_step (st\<lparr>ss_open := b\<rparr>, all_workers ps, D')
        (st\<lparr>ss_open := b\<rparr>, all_workers (ps[p := (rt\<lparr>rt_workers := []\<rparr>, b)]) @ rt_workers rt, D')"
      using all_workers_update [OF True] mem by (intro Vanish) (fastforce simp: all_workers_def)
    ultimately have before: "via (empty_sched, [], {}) (all_workers (ps[p := (rt\<lparr>rt_workers := []\<rparr>, b)])) D'
        (rt, st\<lparr>ss_open := b\<rparr>)"
      using regs mem by (auto simp: via_def intro: steps_then)
    have "fresh_tokens env D'" using fresh D'(1) by (auto simp: fresh_tokens_def)
    from via_serve [OF before pers this, of q] call obtain D'' where D'': "D'' \<subseteq> D' \<union> range (se_token env)"
      "via (empty_sched, [], {}) (all_workers (ps[p := (rt\<lparr>rt_workers := []\<rparr>, b)])) D'' (rt', st')"
      by auto
    have "world_step (st', all_workers (ps[p := (rt\<lparr>rt_workers := []\<rparr>, b)]) @ rt_workers rt', D'')
        (st', all_workers (ps[p := (rt', ss_open st')]), D'')"
    proof (rule Vanish)
      have "p < length (ps[p := (rt\<lparr>rt_workers := []\<rparr>, b)])" using True by simp
      from all_workers_update [OF this, of rt' "ss_open st'"]
      show "set (all_workers (ps[p := (rt', ss_open st')]))
          \<subseteq> set (all_workers (ps[p := (rt\<lparr>rt_workers := []\<rparr>, b)]) @ rt_workers rt')"
        by (simp only: list_update_overwrite)
    qed
    with D''(2) have reach: "reachable (st', all_workers (ps[p := (rt', ss_open st')]), D'')"
      unfolding reachable_def via_def fst_conv snd_conv by (blast intro: steps_then)
    have regs': "\<forall>(rt, b) \<in> set (ps[p := (rt', ss_open st')]). reg_ok (rt_registry rt)"
      using regs via_reg_ok [OF D''(2)] set_update_subset_insert [of ps p "(rt', ss_open st')"] by fast
    have "call_process (p, env, q) x = (ps[p := (rt', ss_open st')], st')"
      using call p True by (simp add: call_process_def x)
    moreover have "D'' \<subseteq> D \<union> range (se_token env)" using D''(1) D'(1) by blast
    ultimately show ?thesis using reach regs' unfolding processes_ok_def by auto
  qed
qed

lemma processes_ok_start: "processes_ok {} (replicate n (new_runtime, False), empty_sched)"
proof -
  have "all_workers (replicate n (new_runtime, False)) = []" by (simp add: all_workers_def new_runtime_def)
  then show ?thesis by (auto simp: processes_ok_def reachable_def new_runtime_def reg_ok_def)
qed

lemma processes_ok_fold:
  "processes_ok D x \<Longrightarrow> fresh_calls D calls \<Longrightarrow> \<exists>D'. processes_ok D' (fold call_process calls x)"
proof (induction calls arbitrary: D x)
  case (Cons c calls)
  obtain p env q where c: "c = (p, env, q)" by (cases c)
  with Cons.prems have "processes_ok (D \<union> range (se_token env)) (call_process c x)"
    by (auto intro: processes_ok_call)
  from Cons.IH [OF this] Cons.prems(2) c show ?case by simp
qed auto

lemma run_processes_reachable:
  assumes "fresh_calls {} calls"
  shows "\<exists>D. reachable (snd (run_processes n calls), all_workers (fst (run_processes n calls)), D)"
  using processes_ok_fold [OF processes_ok_start assms, of n]
  by (auto simp: run_processes_def processes_ok_def)

end
