(* ===== verification/Scheduler_Properties.thy ===== *)
theory Scheduler_Properties
  imports Scheduler_Refinement "HOL-Library.Code_Target_Nat"
begin

text \<open>
  What the scheduler promises: of the tables whatever the processes do, of the claim of a job and
  of its end, of recovery after a crash, and of the times a trigger gives.
\<close>

section \<open>Sample data of the instances\<close>

definition sample_config :: sched_config where
  "sample_config = \<lparr>cf_max_concurrent = 10, cf_default_timeout = 300, cf_persistent = True,
     cf_auto_recover = True, cf_failure_threshold = 3, cf_claim_ttl = 30 * us_per_second,
     cf_retry_delay = us_per_second, cf_cancel_on_shutdown = True\<rparr>"

text \<open>The surroundings of a call at second \<open>t\<close>; \<open>c\<close> makes the UUIDs of the call.\<close>

definition at_second :: "int \<Rightarrow> char \<Rightarrow> sched_env" where
  "at_second t c = \<lparr>se_san = (\<lambda>s. s), se_zone_ok = (\<lambda>z. z = ''UTC''), se_config = sample_config,
     se_now = t * us_per_second, se_later = t * us_per_second + 1, se_io = None, se_write_io = None,
     se_sync_io = None, se_claim_io = (\<lambda>i. None), se_bus = Bus_Accepts, se_uuid = [c],
     se_token = (\<lambda>i. c # i), se_run_id = (\<lambda>i. ''r'' @ c # i), se_admits = (\<lambda>i. True), se_ending = (\<lambda>k. None)\<rparr>"

definition every_minute :: trigger where
  "every_minute = \<lparr>tg_type = INTERVAL, tg_cron = [], tg_interval = 60, tg_run_at = None, tg_event = [],
     tg_timezone = ''UTC'', tg_next = None\<rparr>"

definition sample_schedule :: schedule_request where
  "sample_schedule = \<lparr>rq_name = ''report'', rq_workflow = ''w'', rq_trigger = every_minute,
     rq_variables = [], rq_tags = [], rq_action = ''workflow'', rq_payload = [], rq_trace = ''t''\<rparr>"

text \<open>Two processes: the first schedules a job, both look at the table when it is due.\<close>

definition sample_calls :: "(nat \<times> sched_env \<times> request) list" where
  "sample_calls = [(0, at_second 0 CHR ''a'', Do_Initialize), (1, at_second 1 CHR ''b'', Do_Initialize),
     (0, at_second 2 CHR ''c'', Do_Schedule sample_schedule), (0, at_second 70 CHR ''d'', Do_Tick),
     (1, at_second 71 CHR ''e'', Do_Tick)]"

lemma at_second_fresh:
  "fresh_tokens (at_second t c) D \<longleftrightarrow> (\<forall>i. c # i \<notin> D)" "persistent (at_second t c)"
  "range (se_token (at_second t c)) = {s. \<exists>i. s = c # i}"
  by (auto simp: fresh_tokens_def at_second_def inj_def persistent_def sample_config_def)

lemma sample_calls_fresh: "fresh_calls {} sample_calls"
  by (simp add: sample_calls_def at_second_fresh)

text \<open>Runs are evaluated by rewriting, from the first call of a sequence on.\<close>

lemma orphaned_run: "orphaned jobs now r =
    (rr_status r = R_RUNNING \<and> list_ex (\<lambda>j. expired now j \<and> jb_claim j = Some (rr_token r)) jobs)"
  by (auto simp: orphaned_def list_ex_iff image_iff)

lemmas times_eval = max_instant_def max_day_def us_per_second_def isoformat_le isoformat_less in_calendar_def

lemmas store_eval = store_open_connection_def store_release_def on_open_def run_sql_def rowcount_def
  update_where_def store_load_def store_save_def job_values_def row_to_job_def store_claim_def
  claimable_def sql_le_def sql_less_def claimed_row_def claimed_run_def expired_def released_row_def
  orphaned_run released_run_def bindR_def str_or_def

lemmas runtime_eval = ignore_def bindS_run on_store_def read_store_def read_runtime_def
  change_runtime_def change_registry_def retS_def failS_def persistent_def sched_initialize_def
  schedule_def reg_by_name_def validate_trigger_def compute_next_def new_job_def reg_register_def
  publish_event_def tick_round_def tick_def sync_registry_def reg_exists_def reg_replace_def
  should_fire_def dispatch_due_job_def running_count_def start_worker_def new_run_def Let_def

lemmas sample_eval = at_second_def sample_config_def sample_schedule_def every_minute_def
  run_processes_def call_process_def all_workers_def new_runtime_def empty_sched_def

lemmas sched_eval = times_eval store_eval runtime_eval sample_eval

definition sample_job :: job where
  "sample_job = \<lparr>jb_id = ''c'', jb_name = ''report'', jb_description = [], jb_version = ''1.0.0'',
     jb_tags = [], jb_metadata = [], jb_created = 2000001,
     jb_trigger = every_minute\<lparr>tg_next := Some 62000000\<rparr>, jb_workflow = ''w'', jb_variables = [],
     jb_action = ''workflow'', jb_payload = [], jb_trace = ''t'', jb_status = J_RUNNING,
     jb_max_retries = 3, jb_timeout = 300, jb_max_concurrent = 1, jb_retry_count = 0,
     jb_run_count = 0, jb_last_run = None, jb_last_result = [], jb_last_error = None,
     jb_claim = Some ''dc'', jb_expires = Some 100000000, jb_updated = 70000000, jb_revision = 2\<rparr>"

definition sample_worker :: worker where
  "sample_worker = new_worker sample_job 70000000 ''dc'' ''rdc''"

definition sample_world :: sched_store where
  "sample_world = \<lparr>ss_open = True, ss_jobs = [sample_job],
     ss_runs = [\<lparr>rr_id = ''rdc'', rr_job = ''c'', rr_attempt = 1, rr_started = 70000000,
       rr_finished = None, rr_status = R_RUNNING, rr_token = ''dc'', rr_failure = None, rr_trace = ''t''\<rparr>]\<rparr>"

lemma sample_run:
  "snd (run_processes 2 sample_calls) = sample_world"
  "all_workers (fst (run_processes 2 sample_calls)) = [sample_worker]"
  subgoal by (simp add: sched_eval sample_calls_def sample_world_def sample_job_def cong: bindS_lazy)
  subgoal by (simp add: sched_eval sample_calls_def sample_worker_def sample_job_def new_worker_def
        numeral_2_eq_2 cong: bindS_lazy)
  done

section \<open>The tables\<close>

lemma run_processes_ok:
  assumes "fresh_calls {} calls" "run_processes n calls = (ps, st)"
  shows "\<exists>D. claims_ok (all_workers ps) D st"
  using run_processes_reachable [OF assms(1), of n] assms(2) by (auto intro: claims_ok_reachable)

text \<open>C7: whatever operations any number of processes run in whatever order, each with fresh
  UUIDs, a job is running exactly while a token claims it; each claim has exactly one open record
  of a run, each open record belongs to the job its token claims and is the attempt after the runs
  counted so far, and no attempt of a job is recorded twice.\<close>

theorem sched_tables_consistent:
  assumes "fresh_calls {} calls" and "run_processes n calls = (ps, st)"
  shows "(\<forall>j \<in> set (ss_jobs st). (jb_status j = J_RUNNING \<longleftrightarrow> jb_claim j \<noteq> None) \<and>
      (jb_claim j \<noteq> None \<longrightarrow> (\<exists>!r. r \<in> set (ss_runs st) \<and> rr_job r = jb_id j \<and> rr_status r = R_RUNNING))) \<and>
    (\<forall>r \<in> set (ss_runs st). rr_status r = R_RUNNING \<longrightarrow>
      (\<exists>j \<in> set (ss_jobs st). jb_id j = rr_job r \<and> jb_claim j = Some (rr_token r) \<and>
        rr_attempt r = jb_run_count j + 1)) \<and>
    distinct (map (\<lambda>r. (rr_job r, rr_attempt r)) (ss_runs st))"
proof -
  from run_processes_ok [OF assms] have ok: "sched_ok st" by (auto simp: claims_ok_def)
  have owner: "\<exists>j \<in> set (ss_jobs st). jb_id j = rr_job r \<and> jb_claim j = Some (rr_token r) \<and>
      rr_attempt r = jb_run_count j + 1" if "r \<in> set (ss_runs st)" "rr_status r = R_RUNNING" for r
    using sched_ok_run [OF ok that(1)] that(2) by (auto simp: run_of_def)
  have one: "\<exists>!r. r \<in> set (ss_runs st) \<and> rr_job r = jb_id j \<and> rr_status r = R_RUNNING"
    if j: "j \<in> set (ss_jobs st)" and claim: "jb_claim j = Some tok" for j tok
  proof -
    from sched_okD(6) [OF ok j] claim obtain r where
      r: "r \<in> set (ss_runs st)" "rr_token r = tok" "rr_job r = jb_id j" "rr_status r = R_RUNNING"
      by (auto simp: claim_recorded_def)
    have "x = r" if x: "x \<in> set (ss_runs st)" "rr_job x = jb_id j" "rr_status x = R_RUNNING" for x
    proof -
      from owner [OF x(1,3)] obtain j' where j': "j' \<in> set (ss_jobs st)" "jb_id j' = rr_job x"
          "jb_claim j' = Some (rr_token x)" by blast
      with same_job [OF ok j'(1) j] x(2) claim have "rr_token x = tok" by simp
      then show ?thesis using keyed_unique [OF sched_okD(3) [OF ok] x(1) r(1)] r(2) by simp
    qed
    with r show ?thesis by blast
  qed
  have "jb_status j = J_RUNNING \<longleftrightarrow> jb_claim j \<noteq> None" if "j \<in> set (ss_jobs st)" for j
    using sched_okD(5) [OF ok that] by (simp add: job_ok_def)
  moreover from one have "\<exists>!r. r \<in> set (ss_runs st) \<and> rr_job r = jb_id j \<and> rr_status r = R_RUNNING"
    if "j \<in> set (ss_jobs st)" "jb_claim j \<noteq> None" for j using that by blast
  ultimately show ?thesis using owner sched_okD(4) [OF ok] unfolding keyed_def by blast
qed

theorem sched_tables_consistent_witness:
  "jb_status sample_job = J_RUNNING \<longleftrightarrow> jb_claim sample_job \<noteq> None"
proof -
  obtain ps where "run_processes 2 sample_calls = (ps, sample_world)"
    using sample_run(1) by (metis prod.collapse)
  from sched_tables_consistent [OF sample_calls_fresh this] have
    "\<forall>j \<in> set (ss_jobs sample_world). jb_status j = J_RUNNING \<longleftrightarrow> jb_claim j \<noteq> None" by blast
  moreover have "sample_job \<in> set (ss_jobs sample_world)" by (simp add: sample_world_def)
  ultimately show ?thesis by blast
qed

text \<open>C8: a job is retried a bounded number of times: its count of consecutive failures is at
  most its maximum (at least one), and below it as long as the job can still run.\<close>

theorem sched_retry_bound:
  assumes "fresh_calls {} calls" and "run_processes n calls = (ps, st)" and "j \<in> set (ss_jobs st)"
  shows "0 \<le> jb_retry_count j \<and> jb_retry_count j \<le> max 1 (jb_max_retries j) \<and>
    (jb_status j \<in> {J_ACTIVE, J_RETRYING, J_PAUSED, J_RUNNING} \<longrightarrow> jb_retry_count j < max 1 (jb_max_retries j))"
proof -
  from run_processes_ok [OF assms(1,2)] obtain D where "claims_ok (all_workers ps) D st" by blast
  from claims_okD(2) [OF this assms(3)] show ?thesis by (auto simp: retry_ok_def split: if_splits)
qed

theorem sched_retry_bound_witness: "jb_retry_count sample_job < max 1 (jb_max_retries sample_job)"
proof -
  obtain ps where "run_processes 2 sample_calls = (ps, sample_world)"
    using sample_run(1) by (metis prod.collapse)
  from sched_retry_bound [OF sample_calls_fresh this, of sample_job] show ?thesis
    by (simp add: sample_world_def) (simp add: sample_job_def)
qed

section \<open>Claiming a job\<close>

lemma claim_due:
  assumes keyed: "keyed jb_id (ss_jobs st)" and r: "r \<in> set (ss_jobs st)" "claimable now r"
    and new: "row_of rr_id run_id (ss_runs st) = None" and "ss_open st"
    and decodes: "row_to_job san zone_ok (claimed_row now tok expires r) = Inr j"
  shows "\<exists>st'. store_claim san zone_ok None (jb_id r) now tok expires run_id st = (Inr (Some j), st') \<and>
    row_of jb_id (jb_id r) (ss_jobs st') = Some (claimed_row now tok expires r) \<and>
    claimed_run now tok run_id (claimed_row now tok expires r) \<in> set (ss_runs st')"
proof -
  let ?hit = "\<lambda>x. jb_id x = jb_id r \<and> claimable now x"
  let ?rows = "update_where ?hit (claimed_row now tok expires) (ss_jobs st)"
  note found = row_of_member [OF keyed r(1)]
  have "rowcount ?hit (ss_jobs st) = 1"
    using rowcount_keyed [OF keyed, of ?hit "jb_id r"] found r(2) by simp
  moreover have "row_of jb_id (jb_id r) ?rows = Some (claimed_row now tok expires r)"
    using row_of_update_where [where p = ?hit and f = "claimed_row now tok expires" and key = jb_id and
        k = "jb_id r" and rows = "ss_jobs st"] found r(2)
    by (simp add: claimed_row_def)
  ultimately show ?thesis
    using new decodes \<open>ss_open st\<close> by (simp add: store_claim_def on_open_def run_sql_def Let_def)
qed

text \<open>C10: an active or retrying job without a claim is claimed as soon as its time has come: the
  caller gets it running under the caller's token, and the attempt is recorded.  Before its time
  nobody gets it.\<close>

theorem sched_due_job_is_claimed:
  assumes "keyed jb_id (ss_jobs st)" "r \<in> set (ss_jobs st)" "ss_open st"
    and "jb_status r \<in> {J_ACTIVE, J_RETRYING}" "jb_claim r = None" "tg_next (jb_trigger r) = Some t"
    and "in_calendar t" "in_calendar now" and "row_of rr_id run_id (ss_runs st) = None"
    and "row_to_job san zone_ok (claimed_row now tok expires r) = Inr j"
  shows "(t \<le> now \<longrightarrow> (\<exists>st'. store_claim san zone_ok None (jb_id r) now tok expires run_id st = (Inr (Some j), st') \<and>
      jb_status j = J_RUNNING \<and> jb_claim j = Some tok \<and>
      (\<exists>x \<in> set (ss_runs st'). rr_token x = tok \<and> rr_attempt x = jb_run_count r + 1 \<and> rr_status x = R_RUNNING))) \<and>
    (now < t \<longrightarrow> store_claim san zone_ok None (jb_id r) now tok expires run_id st = (Inr None, st))"
proof (intro conjI impI)
  assume "t \<le> now"
  with assms(4-8) have "claimable now r" by (simp add: claimable_def sql_le_def isoformat_le)
  from claim_due [OF assms(1,2) this assms(9,3,10)] obtain st' where
    "store_claim san zone_ok None (jb_id r) now tok expires run_id st = (Inr (Some j), st')"
    "claimed_run now tok run_id (claimed_row now tok expires r) \<in> set (ss_runs st')" by blast
  moreover have "jb_status j = J_RUNNING" "jb_claim j = Some tok"
    using assms(10) by (auto simp: row_to_job_def claimed_row_def Let_def split: if_splits)
  ultimately show "\<exists>st'. store_claim san zone_ok None (jb_id r) now tok expires run_id st = (Inr (Some j), st') \<and>
      jb_status j = J_RUNNING \<and> jb_claim j = Some tok \<and>
      (\<exists>x \<in> set (ss_runs st'). rr_token x = tok \<and> rr_attempt x = jb_run_count r + 1 \<and> rr_status x = R_RUNNING)"
    by (intro exI [of _ st'] conjI bexI) (simp_all add: claimed_run_def claimed_row_def)
next
  assume "now < t"
  then have "\<not> claimable now r" using assms(6-8) by (simp add: claimable_def sql_le_def isoformat_le)
  then have "rowcount (\<lambda>x. jb_id x = jb_id r \<and> claimable now x) (ss_jobs st) = 0"
    using keyed_unique [OF assms(1) _ assms(2)] by (auto simp: rowcount_0)
  then show "store_claim san zone_ok None (jb_id r) now tok expires run_id st = (Inr None, st)"
    using assms(3) by (simp add: store_claim_def on_open_def run_sql_def Let_def)
qed

definition due_job :: job where
  "due_job = sample_job\<lparr>jb_status := J_ACTIVE, jb_claim := None, jb_expires := None\<rparr>"

definition due_world :: sched_store where
  "due_world = \<lparr>ss_open = True, ss_jobs = [due_job], ss_runs = []\<rparr>"

lemma due_job_decodes: "\<exists>j. row_to_job (\<lambda>s. s) (\<lambda>z. z = ''UTC'') (claimed_row now tok expires due_job) = Inr j"
  by (simp add: row_to_job_def claimed_row_def due_job_def sample_job_def every_minute_def Let_def)

theorem sched_due_job_is_claimed_witness:
  "\<exists>j st'. store_claim (\<lambda>s. s) (\<lambda>z. z = ''UTC'') None ''c'' 70000000 ''t1'' 100000000 ''r1'' due_world =
     (Inr (Some j), st') \<and> jb_status j = J_RUNNING"
proof -
  obtain j where j: "row_to_job (\<lambda>s. s) (\<lambda>z. z = ''UTC'') (claimed_row 70000000 ''t1'' 100000000 due_job) = Inr j"
    using due_job_decodes by blast
  have "keyed jb_id (ss_jobs due_world)" "due_job \<in> set (ss_jobs due_world)" "ss_open due_world"
    "jb_status due_job \<in> {J_ACTIVE, J_RETRYING}" "jb_claim due_job = None"
    "tg_next (jb_trigger due_job) = Some 62000000" "in_calendar 62000000" "in_calendar 70000000"
    "row_of rr_id ''r1'' (ss_runs due_world) = None" "jb_id due_job = ''c''"
    by (simp_all add: due_world_def due_job_def sample_job_def keyed_def times_eval)
  from sched_due_job_is_claimed [OF this(1-9) j] this(10) show ?thesis by auto
qed

text \<open>C11: a claim is exclusive: once a claim has succeeded, no other attempt to claim the job
  succeeds or changes anything, whoever makes it and whenever, until the claim ends.\<close>

theorem sched_claim_is_exclusive:
  assumes "keyed jb_id (ss_jobs st)"
    and "store_claim san zone_ok io i now tok expires run_id st = (Inr (Some j), st1)"
    and "store_claim san' zone_ok' io' i now' tok' expires' run_id' st1 = (res, st2)"
  shows "jb_claim j = Some tok \<and> st2 = st1 \<and> (\<forall>j'. res \<noteq> Inr (Some j'))"
  using assms(1,2)
proof (cases rule: store_claim_cases)
  case (unchanged)
  then show ?thesis by blast
next
  case (claimed r0)
  have keyed: "keyed jb_id (ss_jobs st1)"
    unfolding claimed(5) using keyed_update_where [OF _ assms(1), of "\<lambda>r. r = r0" "claimed_row now tok expires"]
    by (simp add: claimed_row_def)
  have held: "\<not> claimable now' x" if x: "x \<in> set (ss_jobs st1)" "jb_id x = i" for x
  proof -
    from x claimed(5) obtain y where y: "y \<in> set (ss_jobs st)" "x = (if y = r0 then claimed_row now tok expires y else y)"
      by (auto simp: set_update_where)
    with x(2) have "jb_id y = jb_id r0" using claimed(2) by (auto simp: claimed_row_def split: if_splits)
    with keyed_unique [OF assms(1) y(1) claimed(1)] y(2) have "x = claimed_row now tok expires r0" by simp
    then show ?thesis by (simp add: claimable_def claimed_row_def)
  qed
  have "jb_claim j = Some tok" using row_to_job_same [OF claimed(6) [OF refl]] by (simp add: claimed_row_def)
  moreover from keyed assms(3) have "st2 = st1 \<and> (\<forall>j'. res \<noteq> Inr (Some j'))"
  proof (cases rule: store_claim_cases)
    case (claimed r1)
    with held [OF claimed(1)] show ?thesis by simp
  qed blast
  ultimately show ?thesis by blast
qed

theorem sched_claim_is_exclusive_witness:
  "\<exists>st1. snd (store_claim (\<lambda>s. s) (\<lambda>z. z = ''UTC'') None ''c'' 80000000 ''t2'' 110000000 ''r2'' st1) = st1 \<and>
     length (ss_runs st1) = 1"
proof -
  let ?claim = "\<lambda>now tok. store_claim (\<lambda>s. s) (\<lambda>z. z = ''UTC'') None ''c'' now tok (now + 30000000) (''r'' @ tok)"
  have "\<exists>j st1. ?claim 70000000 ''t1'' due_world = (Inr (Some j), st1) \<and> length (ss_runs st1) = 1"
    by (simp add: sched_eval due_world_def due_job_def sample_job_def)
  then obtain j st1 where first: "?claim 70000000 ''t1'' due_world = (Inr (Some j), st1)" "length (ss_runs st1) = 1"
    by blast
  have "keyed jb_id (ss_jobs due_world)" by (simp add: due_world_def keyed_def)
  from sched_claim_is_exclusive [OF this first(1) prod.collapse [symmetric]] first(2) show ?thesis by blast
qed

section \<open>The end of a claim\<close>

text \<open>A worker that still holds its claim can finish: whatever its handler did, finalising
  succeeds, releases the claim, and stores the outcome it settled on.\<close>

theorem sched_holder_finishes:
  assumes "fresh_calls {} calls" "run_processes n calls = (ps, st)" "w \<in> set (all_workers ps)"
    and "r \<in> set (ss_jobs st)" "jb_claim r = Some (wk_token w)"
    and "settle env outcome w = Inr (failed, j, run)" "job_values j = Inr v"
  shows "\<exists>st'. store_finalize None j run (wk_token w) (st\<lparr>ss_open := True\<rparr>) = (Inr (), st') \<and>
    row_of jb_id (jb_id r) (ss_jobs st') = Some (finalized_row v r) \<and>
    jb_claim (finalized_row v r) = None \<and> jb_status (finalized_row v r) = jb_status j \<and> jb_status j \<noteq> J_RUNNING"
proof -
  from run_processes_ok [OF assms(1,2)] obtain D where ok: "claims_ok (all_workers ps) D st" by blast
  note sched = claims_okD(1) [OF ok]
  note facts = settle_facts [OF assms(6)]
  from claims_okD(5) [OF ok assms(3)] assms(4,5) have w: "same_claim r (wk_job w)"
    and ids: "\<And>x. x \<in> set (ss_runs st) \<Longrightarrow> rr_token x = wk_token w \<Longrightarrow> rr_id x = jr_id run"
    by (simp_all add: worker_ok_def facts(5))
  from sched_okD(6) [OF sched assms(4)] assms(5) obtain x where
    x: "x \<in> set (ss_runs st)" "rr_token x = wk_token w" by (auto simp: claim_recorded_def)
  have v: "jb_id v = jb_id r" "jb_status v = jb_status j"
    using job_values_Inr [OF assms(7)] facts(1) w by (simp_all add: same_claim_def)
  let ?hit = "\<lambda>y. jb_id y = jb_id v \<and> jb_claim y = Some (wk_token w)"
  let ?run_hit = "\<lambda>y. rr_id y = jr_id run \<and> rr_token y = wk_token w"
  have hit: "rowcount ?hit (ss_jobs st) = 1"
    using rowcount_keyed [OF sched_okD(1) [OF sched], of ?hit "jb_id r"]
      row_of_member [OF sched_okD(1) [OF sched] assms(4)] assms(5) v(1) by simp
  have "rowcount ?run_hit (ss_runs st) = 1"
    using rowcount_keyed [OF sched_okD(2) [OF sched], of ?run_hit "jr_id run"]
      row_of_member [OF sched_okD(2) [OF sched] x(1)] ids [OF x] x(2) by simp
  with hit assms(7) have "store_finalize None j run (wk_token w) (st\<lparr>ss_open := True\<rparr>) =
      (Inr (), st\<lparr>ss_open := True, ss_jobs := update_where ?hit (finalized_row v) (ss_jobs st),
                  ss_runs := update_where ?run_hit (finalized_run run) (ss_runs st)\<rparr>)"
    by (simp add: store_finalize_def on_open_def run_sql_def Let_def)
  moreover have "row_of jb_id (jb_id r) (update_where ?hit (finalized_row v) (ss_jobs st)) = Some (finalized_row v r)"
    using row_of_update_where [where p = ?hit and f = "finalized_row v" and key = jb_id and
        k = "jb_id r" and rows = "ss_jobs st"]
      row_of_member [OF sched_okD(1) [OF sched] assms(4)] assms(5) v(1) by (simp add: finalized_row_def)
  ultimately show ?thesis using facts(3) v(2) by (simp add: finalized_row_def)
qed

theorem sched_holder_finishes_witness:
  "\<exists>j run st'. store_finalize None j run ''dc'' sample_world = (Inr (), st') \<and> jb_status j = J_ACTIVE"
proof -
  let ?env = "at_second 80 CHR ''f''"
  obtain ps where ps: "run_processes 2 sample_calls = (ps, sample_world)"
    using sample_run(1) by (metis prod.collapse)
  have w: "sample_worker \<in> set (all_workers ps)" using sample_run(2) ps by simp
  have r: "sample_job \<in> set (ss_jobs sample_world)" "jb_claim sample_job = Some (wk_token sample_worker)"
    "wk_token sample_worker = ''dc''" "sample_world\<lparr>ss_open := True\<rparr> = sample_world"
    by (simp_all add: sample_world_def sample_job_def sample_worker_def new_worker_def)
  have "\<exists>x. settle ?env (Handler_Returns JNull) sample_worker = Inr x"
    by (simp add: settle_def execute_job_def settled_status_def settled_next_def sched_eval
        sample_worker_def new_worker_def sample_job_def) auto
  then obtain failed j run where settled: "settle ?env (Handler_Returns JNull) sample_worker = Inr (failed, j, run)"
    by force
  have "\<exists>v. job_values j = Inr v \<and> jb_status j = J_ACTIVE"
    using settled by (auto simp: settle_def execute_job_def settled_status_def settled_next_def sched_eval
        sample_worker_def new_worker_def sample_job_def)
  then obtain v where "job_values j = Inr v" "jb_status j = J_ACTIVE" by blast
  with sched_holder_finishes [OF sample_calls_fresh ps w r(1,2) settled] r(3,4) show ?thesis by auto
qed

text \<open>C12: a worker whose claim is gone, because it expired and was released or taken over, cannot
  write: finalising raises \<open>JobClaimLostError\<close> and leaves both tables as they are.\<close>

theorem sched_stale_finish_is_refused:
  assumes "ss_open st" "job_values j = Inr v"
    and "\<And>r. r \<in> set (ss_jobs st) \<Longrightarrow> jb_id r = jb_id j \<Longrightarrow> jb_claim r \<noteq> Some tok"
  shows "store_finalize None j run tok st =
    (Inl (Raise JobClaimLostError ''Scheduler job claim is no longer owned''), st)"
proof -
  have "rowcount (\<lambda>r. jb_id r = jb_id v \<and> jb_claim r = Some tok) (ss_jobs st) = 0"
    using assms(3) job_values_Inr [OF assms(2)] by (auto simp: rowcount_0)
  with assms(1,2) show ?thesis by (simp add: store_finalize_def on_open_def run_sql_def Let_def)
qed

theorem sched_stale_finish_is_refused_witness:
  "store_finalize None sample_job (new_run sample_job 0 ''x'' ''y'') ''old'' sample_world =
     (Inl (Raise JobClaimLostError ''Scheduler job claim is no longer owned''), sample_world)"
proof (rule sched_stale_finish_is_refused)
  show "job_values sample_job = Inr sample_job" by (simp add: job_values_def sample_job_def)
qed (auto simp: sample_world_def sample_job_def)

section \<open>Recovery\<close>

lemma claimed_decodes:
  assumes "row_to_job san zone_ok r = Inr j0" "1 \<le> jb_revision r"
    and "tg_timezone (jb_trigger r') = tg_timezone (jb_trigger r)" "jb_max_concurrent r' = jb_max_concurrent r"
    and "1 \<le> jb_revision r'"
  shows "\<exists>j. row_to_job san zone_ok r' = Inr j \<and> jb_retry_count j = jb_retry_count r' \<and>
    jb_run_count j = jb_run_count r' \<and> jb_status j = jb_status r'"
  using assms by (auto simp: row_to_job_def Let_def split: if_splits)

lemma row_after_release:
  assumes "keyed jb_id (ss_jobs st)" "r \<in> set (ss_jobs st)" "expired now r" "ss_open st"
  shows "\<exists>k st1. store_release None now delay st = (Inr k, st1) \<and> ss_open st1 \<and> keyed jb_id (ss_jobs st1) \<and>
    released_row now delay r \<in> set (ss_jobs st1) \<and> map rr_id (ss_runs st1) = map rr_id (ss_runs st)"
  using assms keyed_update_where [OF _ assms(1), of "expired now" "released_row now delay"]
  by (auto simp: store_release_def on_open_def run_sql_def set_update_where released_row_def released_run_def Let_def)

text \<open>C13: no job is lost when its worker dies.  Once the claim has expired, the next release hands
  the job out again after the retry delay, as the next attempt and with one more failure counted;
  or the job is out of retries and has failed for good.\<close>

theorem sched_crashed_job_recovers:
  assumes "keyed jb_id (ss_jobs st)" "r \<in> set (ss_jobs st)" "ss_open st"
    and "jb_status r = J_RUNNING" "jb_expires r = Some u" "u \<le> now" "in_calendar u" "in_calendar now"
    and "in_calendar (now + delay)" "now + delay \<le> later" "in_calendar later"
    and "row_of rr_id run_id (ss_runs st) = None"
    and "row_to_job san zone_ok r = Inr j0" "1 \<le> jb_revision r"
    and "store_release None now delay st = (res, st1)"
  shows "if jb_retry_count r + 1 < jb_max_retries r
    then \<exists>j st2. store_claim san zone_ok None (jb_id r) later tok expires run_id st1 = (Inr (Some j), st2) \<and>
           jb_status j = J_RUNNING \<and> jb_retry_count j = jb_retry_count r + 1 \<and> jb_run_count j = jb_run_count r + 1
    else \<exists>x. row_of jb_id (jb_id r) (ss_jobs st1) = Some x \<and> jb_status x = J_FAILED \<and> jb_claim x = None"
proof -
  let ?r = "released_row now delay r"
  have expired: "expired now r" using assms(4-8) by (simp add: expired_def sql_le_def isoformat_le)
  from row_after_release [OF assms(1,2) expired assms(3), of delay] assms(15)
  have st1: "ss_open st1" "keyed jb_id (ss_jobs st1)" "?r \<in> set (ss_jobs st1)"
    "map rr_id (ss_runs st1) = map rr_id (ss_runs st)" by auto
  have id: "jb_id ?r = jb_id r" by (simp add: released_row_def Let_def)
  show ?thesis
  proof (cases "jb_retry_count r + 1 < jb_max_retries r")
    case False
    with row_of_member [OF st1(2,3)] id show ?thesis by (simp add: released_row_def Let_def)
  next
    case True
    then have due: "claimable later ?r"
      using assms(9-11) by (simp add: claimable_def released_row_def sql_le_def isoformat_le Let_def)
    have new: "row_of rr_id run_id (ss_runs st1) = None"
      using assms(12) st1(4) unfolding row_of_None by (metis list.set_map)
    obtain j where j: "row_to_job san zone_ok (claimed_row later tok expires ?r) = Inr j"
      "jb_retry_count j = jb_retry_count r + 1" "jb_run_count j = jb_run_count r + 1" "jb_status j = J_RUNNING"
      using claimed_decodes [OF assms(13,14), of "claimed_row later tok expires ?r"] assms(14)
      by (auto simp: claimed_row_def released_row_def Let_def)
    from claim_due [OF st1(2,3) due new st1(1) j(1)] j(2-4) True show ?thesis unfolding id by auto
  qed
qed

theorem sched_crashed_job_recovers_witness:
  "\<exists>j st2. store_claim (\<lambda>s. s) (\<lambda>z. z = ''UTC'') None ''c'' 102000000 ''t3'' 132000000 ''r3''
      (snd (store_release None 100000000 1000000 sample_world)) = (Inr (Some j), st2) \<and> jb_run_count j = 1"
proof -
  have "keyed jb_id (ss_jobs sample_world)" "sample_job \<in> set (ss_jobs sample_world)" "ss_open sample_world"
    "jb_status sample_job = J_RUNNING" "jb_expires sample_job = Some 100000000" "(100000000::int) \<le> 100000000"
    "in_calendar 100000000" "in_calendar 100000000" "in_calendar (100000000 + 1000000)"
    "100000000 + 1000000 \<le> (102000000::int)" "in_calendar 102000000"
    "row_of rr_id ''r3'' (ss_runs sample_world) = None"
    and counts: "jb_id sample_job = ''c''" "jb_retry_count sample_job = 0" "jb_max_retries sample_job = 3"
    "jb_run_count sample_job = 0" "1 \<le> jb_revision sample_job"
    by (simp_all add: sample_world_def sample_job_def keyed_def times_eval)
  note facts = this
  obtain j0 where "row_to_job (\<lambda>s. s) (\<lambda>z. z = ''UTC'') sample_job = Inr j0"
    by (simp add: row_to_job_def sample_job_def every_minute_def Let_def)
  from sched_crashed_job_recovers [OF facts(1-12) this facts(17) prod.collapse [symmetric],
      of "''t3''" 132000000] facts(13-16)
  show ?thesis by auto
qed

text \<open>C14: a running job is not touched from outside: pausing, resuming, deleting, cancelling and
  rescheduling it by its identifier, at whatever revision, leave its row as it is.\<close>

theorem sched_running_job_is_protected:
  assumes "keyed jb_id (ss_jobs st)" "row_of jb_id i (ss_jobs st) = Some r" "jb_status r = J_RUNNING"
  shows "row_of jb_id i (ss_jobs (snd (store_pause san zone_ok io i n now st))) = Some r \<and>
    row_of jb_id i (ss_jobs (snd (store_resume san zone_ok io i n next_at now st))) = Some r \<and>
    row_of jb_id i (ss_jobs (snd (store_delete io i expected st))) = Some r \<and>
    row_of jb_id i (ss_jobs (snd (store_cancel io i now st))) = Some r \<and>
    row_of jb_id i (ss_jobs (snd (store_reschedule io i n run_at tz payload now st))) = Some r"
proof -
  have only: "x = r" if "x \<in> set (ss_jobs st)" "jb_id x = i" for x
    using keyed_unique [OF assms(1) that(1)] row_of_Some [OF assms(2)] that(2) by simp
  have same: "update_where hit f (ss_jobs st) = ss_jobs st"
    if "\<And>x. hit x \<Longrightarrow> jb_id x = i \<and> jb_status x \<noteq> J_RUNNING" for hit and f :: "job \<Rightarrow> job"
    using only that assms(3) by (intro update_where_id) blast
  have kept: "filter (\<lambda>x. \<not> deletable i m x) (ss_jobs st) = ss_jobs st" for m
    using only assms(3) by (auto simp: filter_id_conv deletable_def)
  have pause: "ss_jobs (snd (update_and_read san zone_ok m i hit f st)) = ss_jobs st"
    if "\<And>x. hit x \<Longrightarrow> jb_id x = i \<and> jb_status x \<noteq> J_RUNNING" for m hit f
    using same [OF that] update_and_read_table [of san zone_ok m i hit f st] by simp
  have "ss_jobs (snd (store_pause san zone_ok io i n now st)) = ss_jobs st"
    "ss_jobs (snd (store_resume san zone_ok io i n next_at now st)) = ss_jobs st"
    unfolding store_pause_def store_resume_def on_open_def run_sql_def
    by (auto simp: pausable_def resumable_def split: option.split intro!: pause)
  moreover have "ss_jobs (snd (store_cancel io i now st)) = ss_jobs st"
    "ss_jobs (snd (store_reschedule io i n run_at tz payload now st)) = ss_jobs st"
    unfolding store_cancel_def store_reschedule_def on_open_def run_sql_def
    by (auto simp: cancellable_def reschedulable_def split: option.split intro!: same)
  moreover have "ss_jobs (snd (store_delete io i expected st)) = ss_jobs st"
    by (simp add: store_delete_def on_open_def run_sql_def kept split: option.split)
  ultimately show ?thesis using assms(2) by simp
qed

theorem sched_running_job_is_protected_witness:
  "row_of jb_id ''c'' (ss_jobs (snd (store_delete None ''c'' (Some 2) sample_world))) = Some sample_job"
  using sched_running_job_is_protected [of sample_world "''c''" sample_job]
  by (simp add: sample_world_def sample_job_def keyed_def)

section \<open>Times\<close>

text \<open>C15: the next time of a cron expression is the least full minute after now whose hour and
  minute are multiples of the steps; it is missing only where no such minute is left before the
  calendar ends.\<close>

theorem sched_next_cron_is_least:
  assumes "cron_steps e = Some (m, h)"
  shows "case next_cron e (Aware now off) of
      Some c \<Rightarrow> now < c \<and> cron_match m h c \<and> (\<forall>y. now < y \<and> y < c \<longrightarrow> \<not> cron_match m h y)
    | None \<Rightarrow> (\<forall>y. now < y \<and> y < max_instant \<longrightarrow> \<not> cron_match m h y)"
  using next_cron_Some [OF assms] next_cron_None [OF assms] by (auto split: option.split)

theorem sched_next_cron_is_least_witness:
  "cron_match 15 1 (15 * us_per_minute) \<and>
   \<not> (\<exists>y. 1 < y \<and> y < 15 * us_per_minute \<and> cron_match 15 1 y)"
proof -
  have "cron_steps ''*/15 * * * *'' = Some (15, 1)" by code_simp
  moreover have "next_cron ''*/15 * * * *'' (Aware 1 0) = Some (15 * us_per_minute)" by code_simp
  ultimately show ?thesis using sched_next_cron_is_least [of "''*/15 * * * *''" 15 1 1 0] by auto
qed

section \<open>Jobs and the registry\<close>

lemma save_Inr: "(case m of (Inl e, (rt, st)) \<Rightarrow> (Inl e, (g rt, st)) | (Inr u, y) \<Rightarrow> (Inr u, y)) = (Inr v, t) \<longleftrightarrow>
    m = (Inr v, t)"
  by (auto split: prod.splits sum.splits)

text \<open>A job that \<open>schedule\<close> returned is read back by \<open>get_job\<close> exactly as it was returned.\<close>

theorem sched_schedule_then_get:
  assumes "persistent env" "persistent env'" "se_io env' = None"
    and "se_zone_ok env' (tg_timezone (rq_trigger q))" "tg_timezone (rq_trigger q) \<noteq> []" "rq_action q \<noteq> []"
    and "schedule env q (rt, st) = (Inr j, (rt', st'))"
  shows "get_job env' (jb_id j) (rt', st') = (Inr (Some j), (rt'\<lparr>rt_registry := put (jb_id j) j (rt_registry rt')\<rparr>, st'))"
proof -
  from assms(7) obtain t x1 x2 x3 where
    reg1: "change_registry (reg_register (new_job env q t)) (rt, st) = (Inr (), x1)"
    and save: "on_store (store_save (se_write_io env) (new_job env q t)) x1 = (Inr (), x2)"
    and pub: "publish_event env ''scheduler.created'' (jb_id (new_job env q t)) x2 = (Inr (), x3)"
    and j: "j = new_job env q t" and tz: "tg_timezone t = tg_timezone (rq_trigger q)" and x3: "x3 = (rt', st')"
    using assms(1) unfolding schedule_def Let_def
    by (auto simp: bindS_Inr save_Inr read_runtime_def failS_def retS_def split: if_splits sum.splits)
  from reg1 have x1: "snd x1 = st" "rt_registry (fst x1) = put (jb_id j) j (rt_registry rt)"
    by (auto simp: change_registry_def reg_register_def j split: if_splits)
  have "jb_last_error j = None" by (simp add: j new_job_def)
  with save x1(1) have x2: "ss_open (snd x2)" "row_of jb_id (jb_id j) (ss_jobs (snd x2)) = Some j" "fst x2 = fst x1"
    by (auto simp: on_store_def store_save_def job_values_def on_open_def run_sql_def j
        split: prod.splits if_splits option.splits)
  from pub have "snd x3 = snd x2" "rt_registry (fst x3) = rt_registry (fst x2)"
    by (auto simp: publish_event_def change_runtime_def split: bus_mode.split)
  with x1 x2 x3 have row: "row_of jb_id (jb_id j) (ss_jobs st') = Some j" and opened: "ss_open st'"
    and reg: "map_of (rt_registry rt') (jb_id j) = Some j" by auto
  have "row_to_job (se_san env') (se_zone_ok env') j = Inr j"
    using assms(4-6) tz by (simp add: row_to_job_def j new_job_def Let_def)
  with row opened assms(3) have "store_get (se_san env') (se_zone_ok env') (se_io env') (jb_id j) st' = Inr (Some j)"
    by (simp add: store_get_def)
  with reg assms(2) show ?thesis
    by (simp add: get_job_def bindS_def read_store_def read_runtime_def reg_exists_def change_registry_def
        reg_replace_def retS_def)
qed

theorem sched_schedule_then_get_witness:
  "\<exists>j x. fst (get_job (at_second 3 CHR ''y'') ''x'' x) = Inr (Some j) \<and> jb_name j = ''report''"
proof -
  let ?env = "at_second 2 CHR ''x''"
  have "\<exists>j rt st. schedule ?env sample_schedule (new_runtime, empty_sched\<lparr>ss_open := True\<rparr>) = (Inr j, (rt, st)) \<and>
      jb_id j = ''x'' \<and> jb_name j = ''report''"
    by (simp add: sched_eval cong: bindS_lazy)
  then obtain j rt st where call: "schedule ?env sample_schedule (new_runtime, empty_sched\<lparr>ss_open := True\<rparr>) = (Inr j, (rt, st))"
    "jb_id j = ''x''" "jb_name j = ''report''" by blast
  have "persistent ?env" "persistent (at_second 3 CHR ''y'')" "se_io (at_second 3 CHR ''y'') = None"
    "se_zone_ok (at_second 3 CHR ''y'') (tg_timezone (rq_trigger sample_schedule))"
    "tg_timezone (rq_trigger sample_schedule) \<noteq> []" "rq_action sample_schedule \<noteq> []"
    by (simp_all add: sample_eval persistent_def)
  from sched_schedule_then_get [OF this call(1)] call(2,3) show ?thesis by (metis fst_conv)
qed

lemma reg_by_name_known: "map_of reg i = Some k \<Longrightarrow> reg_by_name (jb_name k) reg \<noteq> None"
proof -
  assume "map_of reg i = Some k"
  then have "k \<in> set (map snd reg)" by (auto dest: map_of_SomeD intro: rev_image_eqI)
  then show ?thesis unfolding reg_by_name_def find_None_iff by blast
qed

lemma sync_row_step:
  assumes "sync_rows (j # js) (rt, st) = (res, x)"
  obtains (taken) "map_of (rt_registry rt) (jb_id j) = None" "reg_by_name (jb_name j) (rt_registry rt) \<noteq> None"
        "res = Inl (Raise JobAlreadyExistsError (''Job already exists: '' @ jb_name j))" "x = (rt, st)"
    | (stored) "sync_rows js (rt\<lparr>rt_registry := put (jb_id j) j (rt_registry rt)\<rparr>, st) = (res, x)"
        "map_of (rt_registry rt) (jb_id j) = None \<Longrightarrow> reg_by_name (jb_name j) (rt_registry rt) = None"
  using assms
  by (auto simp: bindS_def read_runtime_def reg_exists_def change_registry_def reg_register_def reg_replace_def
      split: if_splits)

lemma sync_rows_frame: "sync_rows js (rt, st) = (res, x) \<Longrightarrow> snd x = st \<and> rt_workers (fst x) = rt_workers rt"
proof (induction js arbitrary: rt)
  case (Cons j js)
  from Cons.prems show ?case
    by (cases rule: sync_row_step) (auto dest: Cons.IH)
qed (auto simp: retS_def)

text \<open>A row whose name another entry of the registry has cannot be registered.\<close>

lemma sync_rows_taken:
  assumes "sync_rows js (rt, st) = (res, x)" "distinct (map jb_id js)" "j2 \<in> set js"
    and "map_of (rt_registry rt) (jb_id j2) = None"
    and "map_of (rt_registry rt) i = Some k" "jb_name k = jb_name j2"
    and "\<And>j. j \<in> set js \<Longrightarrow> jb_id j = i \<Longrightarrow> jb_name j = jb_name j2"
  shows "\<exists>m. res = Inl (Raise JobAlreadyExistsError m)"
  using assms
proof (induction js arbitrary: rt k)
  case (Cons j js)
  from Cons.prems(1) show ?case
  proof (cases rule: sync_row_step)
    case stored
    have "jb_id j \<noteq> jb_id j2"
    proof
      assume same: "jb_id j = jb_id j2"
      have "jb_id j \<notin> jb_id ` set js" using Cons.prems(2) by simp
      with same Cons.prems(3) have "j = j2" by (metis imageI set_ConsD)
      with stored(2) Cons.prems(4,6) reg_by_name_known [OF Cons.prems(5)] show False by simp
    qed
    then have j2: "j2 \<in> set js" using Cons.prems(3) by auto
    let ?reg = "put (jb_id j) j (rt_registry rt)"
    have "\<exists>k'. map_of ?reg i = Some k' \<and> jb_name k' = jb_name j2"
      using Cons.prems(5,6,7) by auto
    then obtain k' where k': "map_of ?reg i = Some k'" "jb_name k' = jb_name j2" by blast
    show ?thesis
      by (rule Cons.IH [OF stored(1) _ j2, of k'])
        (use Cons.prems(2,4,7) \<open>jb_id j \<noteq> jb_id j2\<close> k' in auto)
  qed blast
qed simp

lemma sync_rows_duplicate:
  assumes "sync_rows js (rt, st) = (res, x)" "distinct (map jb_id js)" "j1 \<in> set js" "j2 \<in> set js"
    and "jb_id j1 \<noteq> jb_id j2" "jb_name j1 = jb_name j2"
    and "map_of (rt_registry rt) (jb_id j1) = None" "map_of (rt_registry rt) (jb_id j2) = None"
  shows "\<exists>m. res = Inl (Raise JobAlreadyExistsError m)"
  using assms
proof (induction js arbitrary: rt)
  case (Cons j js)
  from Cons.prems(1) show ?case
  proof (cases rule: sync_row_step)
    case stored
    let ?rt = "rt\<lparr>rt_registry := put (jb_id j) j (rt_registry rt)\<rparr>"
    have "jb_id j \<notin> jb_id ` set js" using Cons.prems(2) by simp
    then have rest: "distinct (map jb_id js)" "\<And>i. i \<in> set js \<Longrightarrow> jb_id i \<noteq> jb_id j"
      using Cons.prems(2) by (simp, metis imageI)
    have first: "\<exists>m. res = Inl (Raise JobAlreadyExistsError m)"
      if "b \<in> set js" "jb_name j = jb_name b" "map_of (rt_registry rt) (jb_id b) = None" for b
      by (rule sync_rows_taken [OF stored(1) rest(1) that(1), of "jb_id j" j])
        (use rest(2) that in \<open>auto dest: rest(2)\<close>)
    consider "j = j1" | "j = j2" | "j1 \<in> set js" "j2 \<in> set js" "j \<noteq> j1" "j \<noteq> j2"
      using Cons.prems(3,4) by auto
    then show ?thesis
    proof cases
      case 1
      with Cons.prems(4,5) have "j2 \<in> set js" by auto
      with first [of j2] 1 Cons.prems(6,8) show ?thesis by simp
    next
      case 2
      with Cons.prems(3,5) have "j1 \<in> set js" by auto
      with first [of j1] 2 Cons.prems(6,7) show ?thesis by simp
    next
      case 3
      have "map_of (rt_registry ?rt) (jb_id j1) = None" "map_of (rt_registry ?rt) (jb_id j2) = None"
        using Cons.prems(7,8) rest(2) [OF 3(1)] rest(2) [OF 3(2)] by simp_all
      from Cons.IH [OF stored(1) rest(1) 3(1,2) Cons.prems(5,6) this] show ?thesis .
    qed
  qed blast
qed simp

text \<open>Two rows with one name, which two processes can create, stop every tick of a process that
  does not know both: the synchronisation raises \<open>JobAlreadyExistsError\<close>, and no job, due or not,
  is dispatched.\<close>

theorem sched_duplicate_name_stops_tick:
  assumes "persistent env"
    and "store_release (se_write_io env) (se_now env) (cf_retry_delay (se_config env)) st = (Inr k, st1)"
    and "store_load (se_san env) (se_zone_ok env) (se_sync_io env) st1 = Inr js"
    and "distinct (map jb_id js)" "j1 \<in> set js" "j2 \<in> set js"
    and "jb_id j1 \<noteq> jb_id j2" "jb_name j1 = jb_name j2" "map_of (rt_registry rt) (jb_id j2) = None"
    and "case map_of (rt_registry rt) (jb_id j1) of None \<Rightarrow> True | Some j \<Rightarrow> jb_name j = jb_name j1"
  shows "\<exists>m rt'. tick env (rt, st) = (Inl (Raise JobAlreadyExistsError m), (rt', st1)) \<and>
    rt_workers rt' = rt_workers rt"
proof -
  obtain res x where call: "sync_rows js (rt, st1) = (res, x)" by (cases "sync_rows js (rt, st1)")
  have "\<exists>m. res = Inl (Raise JobAlreadyExistsError m)"
  proof (cases "map_of (rt_registry rt) (jb_id j1)")
    case None
    from sync_rows_duplicate [OF call assms(4-8) None assms(9)] show ?thesis .
  next
    case (Some j)
    have "jb_name i = jb_name j2" if i: "i \<in> set js" "jb_id i = jb_id j1" for i
      using inj_onD [OF distinct_map [THEN iffD1, THEN conjunct2, OF assms(4)], of i j1] i assms(5,8) by simp
    with sync_rows_taken [OF call assms(4,6,9) Some] Some assms(8,10) show ?thesis by simp
  qed
  then obtain m where "res = Inl (Raise JobAlreadyExistsError m)" by blast
  with call sync_rows_frame [OF call] assms(1-3) show ?thesis
    by (cases x) (simp add: tick_def sync_registry_def bindS_def on_store_def read_store_def)
qed

definition twin_job :: job where
  "twin_job = due_job\<lparr>jb_id := ''d'', jb_created := 3000000\<rparr>"

text \<open>Two processes reach such a table: each schedules a job with the name.\<close>

definition twin_calls :: "(nat \<times> sched_env \<times> request) list" where
  "twin_calls = [(0, at_second 0 CHR ''a'', Do_Initialize), (1, at_second 1 CHR ''b'', Do_Initialize),
     (0, at_second 2 CHR ''c'', Do_Schedule sample_schedule), (1, at_second 3 CHR ''d'', Do_Schedule sample_schedule)]"

theorem sched_duplicate_name_stops_tick_witness:
  "map jb_name (ss_jobs (snd (run_processes 2 twin_calls))) = [''report'', ''report''] \<and>
   (\<exists>m x. tick (at_second 70 CHR ''e'') (new_runtime, due_world\<lparr>ss_jobs := [due_job, twin_job]\<rparr>) =
      (Inl (Raise JobAlreadyExistsError m), x))"
proof -
  let ?st = "due_world\<lparr>ss_jobs := [due_job, twin_job]\<rparr>" and ?env = "at_second 70 CHR ''e''"
  have rows: "map jb_name (ss_jobs (snd (run_processes 2 twin_calls))) = [''report'', ''report'']"
    by (simp add: sched_eval twin_calls_def cong: bindS_lazy)
  have release: "store_release (se_write_io ?env) (se_now ?env) (cf_retry_delay (se_config ?env)) ?st = (Inr 0, ?st)"
    by (simp add: sched_eval due_world_def due_job_def twin_job_def sample_job_def)
  have load: "store_load (se_san ?env) (se_zone_ok ?env) (se_sync_io ?env) ?st = Inr [due_job, twin_job]"
    by (simp add: sched_eval due_world_def due_job_def twin_job_def sample_job_def)
  have "jb_id due_job \<noteq> jb_id twin_job" "jb_name due_job = jb_name twin_job" "rt_registry new_runtime = []"
    by (simp_all add: twin_job_def due_job_def sample_job_def new_runtime_def)
  with sched_duplicate_name_stops_tick [OF at_second_fresh(2) release load, of due_job twin_job new_runtime] rows
  show ?thesis by auto
qed

end
