(* ===== verification/Scheduler_Board.thy ===== *)
theory Scheduler_Board
  imports Scheduler_Properties
begin

text \<open>
  The management of jobs by \<open>SchedulerRuntime\<close> against what it promises: a board with one card per
  job, and for each request whether it is granted, and then what becomes of the board, or refused.
  Every request of \<open>Scheduler_Runtime\<close>, with its reads, its guarded statement and its copy in the
  registry, is shown to do to the tables what the board says.
\<close>

section \<open>The board\<close>

text \<open>What a client knows of a job: its name, state, trigger with the next time, payload and retries.\<close>

record card =
  cd_name :: string
  cd_status :: job_status
  cd_trigger :: trigger
  cd_payload :: dict
  cd_retries :: int

record board =
  bd_card :: "string \<Rightarrow> card option"
  bd_runs :: "string \<Rightarrow> nat"

definition place :: "string \<Rightarrow> card \<Rightarrow> board \<Rightarrow> board" where
  "place i c b = b\<lparr>bd_card := (bd_card b)(i := Some c)\<rparr>"

definition remove_card :: "string \<Rightarrow> board \<Rightarrow> board" where
  "remove_card i b = \<lparr>bd_card = (bd_card b)(i := None), bd_runs = (bd_runs b)(i := 0)\<rparr>"

definition with_zone :: "string \<Rightarrow> trigger \<Rightarrow> trigger" where
  "with_zone tz t = t\<lparr>tg_timezone := str_or tz ''Asia/Shanghai''\<rparr>"

definition card_of :: "job \<Rightarrow> card" where
  "card_of r = \<lparr>cd_name = jb_name r, cd_status = jb_status r,
     cd_trigger = with_zone (tg_timezone (jb_trigger r)) (jb_trigger r), cd_payload = jb_payload r,
     cd_retries = jb_retry_count r\<rparr>"

definition board_of :: "sched_store \<Rightarrow> board" where
  "board_of st = \<lparr>bd_card = (\<lambda>i. map_option card_of (row_of jb_id i (ss_jobs st))),
     bd_runs = (\<lambda>i. length (filter (\<lambda>r. rr_job r = i) (ss_runs st)))\<rparr>"

section \<open>Requests and verdicts\<close>

datatype management =
    M_Schedule schedule_request
  | M_Pause string
  | M_Resume string
  | M_Delete string
  | M_Cancel string
  | M_Reschedule string instant string dict

text \<open>\<open>Granted\<close> gives the board afterwards; \<open>Absent\<close> is the answer \<open>False\<close>; \<open>Refused\<close> an exception.\<close>

datatype verdict = Granted board | Absent | Refused exn

definition next_time :: "trigger \<Rightarrow> instant \<Rightarrow> exn + instant option" where
  "next_time t now = (if tg_type t \<noteq> MANUAL then compute_next t now else Inr (tg_next t))"

definition on_card :: "string \<Rightarrow> board \<Rightarrow> (card \<Rightarrow> verdict) \<Rightarrow> verdict" where
  "on_card i b f = (case bd_card b i of None \<Rightarrow> Absent | Some c \<Rightarrow> f c)"

text \<open>\<open>taken\<close> says whether the process knows another job of the name.\<close>

fun decide :: "sched_env \<Rightarrow> bool \<Rightarrow> management \<Rightarrow> board \<Rightarrow> verdict" where
  "decide env taken (M_Schedule q) b =
    (if taken then Refused (Raise JobAlreadyExistsError (''Job already exists: '' @ rq_name q))
     else if \<not> validate_trigger (rq_trigger q) then Refused (trigger_error (rq_trigger q))
     else case next_time (rq_trigger q) (se_now env) of
         Inl e \<Rightarrow> Refused e
       | Inr n \<Rightarrow>
           if \<not> dumpable_dict (rq_variables q) \<or> \<not> dumpable_dict (rq_payload q)
           then Refused (Raise TypeError ''Object is not JSON serializable'')
           else Granted (place (se_uuid env)
             \<lparr>cd_name = rq_name q, cd_status = J_ACTIVE,
              cd_trigger = with_zone (tg_timezone (rq_trigger q)) ((rq_trigger q)\<lparr>tg_next := n\<rparr>),
              cd_payload = rq_payload q, cd_retries = 0\<rparr> b))"
| "decide env taken (M_Pause i) b = on_card i b (\<lambda>c.
     if cd_status c = J_RUNNING then Refused (job_state_error ''Running Job cannot be paused'')
     else if cd_status c \<in> {J_ACTIVE, J_RETRYING} then Granted (place i (c\<lparr>cd_status := J_PAUSED\<rparr>) b)
     else Refused (job_state_error ''Job changed concurrently and cannot be paused''))"
| "decide env taken (M_Resume i) b = on_card i b (\<lambda>c.
     if cd_status c \<noteq> J_PAUSED then Refused (job_state_error ''Only paused Job can be resumed'')
     else if \<not> validate_trigger (cd_trigger c) then Refused (trigger_error (cd_trigger c))
     else case next_time (cd_trigger c) (se_now env) of
         Inl e \<Rightarrow> Refused e
       | Inr n \<Rightarrow> Granted (place i (c\<lparr>cd_status := J_ACTIVE, cd_trigger := (cd_trigger c)\<lparr>tg_next := n\<rparr>\<rparr>) b))"
| "decide env taken (M_Delete i) b = on_card i b (\<lambda>c.
     if cd_status c = J_RUNNING then Refused (job_state_error ''Running Job cannot be deleted'')
     else Granted (remove_card i b))"
| "decide env taken (M_Cancel i) b = on_card i b (\<lambda>c.
     if cd_status c \<in> {J_ACTIVE, J_RETRYING, J_PAUSED}
     then Granted (place i (c\<lparr>cd_status := J_CANCELLED, cd_trigger := (cd_trigger c)\<lparr>tg_next := None\<rparr>\<rparr>) b)
     else Absent)"
| "decide env taken (M_Reschedule i run_at tz payload) b = on_card i b (\<lambda>c.
     if tg_type (cd_trigger c) \<noteq> ONE_SHOT then Absent
     else if \<not> dumpable_dict payload then Refused (perr ''Scheduler job reschedule failed'')
     else if cd_status c \<in> {J_ACTIVE, J_RETRYING, J_PAUSED, J_FAILED, J_CANCELLED}
     then Granted (place i (c\<lparr>cd_status := J_ACTIVE, cd_payload := payload, cd_retries := 0,
            cd_trigger := with_zone tz ((cd_trigger c)\<lparr>tg_run_at := Some run_at, tg_next := Some run_at\<rparr>)\<rparr>) b)
     else Absent)"

text \<open>The requests as the runtime serves them, with the answer they give.\<close>

fun manage :: "sched_env \<Rightarrow> management \<Rightarrow> bool sched_call" where
  "manage env (M_Schedule q) = bindS (schedule env q) (\<lambda>_. retS True)"
| "manage env (M_Pause i) = pause_job env i"
| "manage env (M_Resume i) = resume_job env i"
| "manage env (M_Delete i) = delete_job env i"
| "manage env (M_Cancel i) = cancel_job env i"
| "manage env (M_Reschedule i run_at tz payload) = reschedule_one_shot env i run_at tz payload"

fun name_taken :: "management \<Rightarrow> runtime \<Rightarrow> bool" where
  "name_taken (M_Schedule q) rt = (reg_by_name (rq_name q) (rt_registry rt) \<noteq> None)"
| "name_taken m rt = False"

section \<open>When nothing fails\<close>

text \<open>
  SQLite works, every row can be read, no two jobs have one name, and the registry has no name under
  another identifier than the table; the requests that show the row in the registry name a job the
  process knows, a new job has a new identifier, and a new time zone is one that can be loaded.
\<close>

definition calm_table :: "sched_env \<Rightarrow> sched_store \<Rightarrow> bool" where
  "calm_table env st =
    (se_io env = None \<and> se_write_io env = None \<and> se_sync_io env = None \<and> ss_open st \<and>
     keyed jb_name (ss_jobs st) \<and>
     (\<forall>r \<in> set (ss_jobs st). \<not> isl (row_to_job (se_san env) (se_zone_ok env) r)))"

definition names_agree :: "job_registry \<Rightarrow> job list \<Rightarrow> bool" where
  "names_agree reg rows = (\<forall>(i, k) \<in> set reg. \<forall>r \<in> set rows. jb_name k = jb_name r \<longrightarrow> i = jb_id r)"

fun calm_request :: "sched_env \<Rightarrow> management \<Rightarrow> runtime \<Rightarrow> sched_store \<Rightarrow> bool" where
  "calm_request env (M_Schedule q) rt st =
    (\<not> reg_exists (se_uuid env) (rt_registry rt) \<and> row_of jb_id (se_uuid env) (ss_jobs st) = None)"
| "calm_request env (M_Pause i) rt st = reg_exists i (rt_registry rt)"
| "calm_request env (M_Resume i) rt st = reg_exists i (rt_registry rt)"
| "calm_request env (M_Reschedule i run_at tz payload) rt st = se_zone_ok env (str_or tz ''Asia/Shanghai'')"
| "calm_request env m rt st = True"

definition calm_call :: "sched_env \<Rightarrow> management \<Rightarrow> runtime \<Rightarrow> sched_store \<Rightarrow> bool" where
  "calm_call env m rt st =
    (calm_table env st \<and> names_agree (rt_registry rt) (ss_jobs st) \<and> calm_request env m rt st)"

section \<open>Synchronising the registry\<close>

lemma row_to_job_Inr:
  "row_to_job san zone_ok r = Inr j \<Longrightarrow> 1 \<le> jb_revision r \<Longrightarrow>
   jb_id j = jb_id r \<and> jb_name j = jb_name r \<and> jb_status j = jb_status r \<and> jb_revision j = jb_revision r \<and>
   jb_trigger j = with_zone (tg_timezone (jb_trigger r)) (jb_trigger r)"
  by (clarsimp simp add: row_to_job_def with_zone_def Let_def split: if_split_asm)

lemma names_agreeD:
  "names_agree reg rows \<Longrightarrow> (i, k) \<in> set reg \<Longrightarrow> r \<in> set rows \<Longrightarrow> jb_name k = jb_name r \<Longrightarrow> i = jb_id r"
  by (auto simp: names_agree_def)

lemma names_agreeI:
  "(\<And>i k r. (i, k) \<in> set reg \<Longrightarrow> r \<in> set rows \<Longrightarrow> jb_name k = jb_name r \<Longrightarrow> i = jb_id r) \<Longrightarrow>
   names_agree reg rows"
  by (auto simp: names_agree_def)

lemma names_agree_fewer: "names_agree reg rows \<Longrightarrow> set rows' \<subseteq> set rows \<Longrightarrow> names_agree reg rows'"
  by (rule names_agreeI) (blast dest: names_agreeD)

lemma names_agree_put:
  assumes "names_agree reg js" "jb_name j \<notin> jb_name ` set js"
  shows "names_agree (put i j reg) js"
proof (rule names_agreeI)
  fix i' k r assume k: "(i', k) \<in> set (put i j reg)" and r: "r \<in> set js" "jb_name k = jb_name r"
  have "k \<noteq> j" using r assms(2) by force
  with k set_put [of i j reg] have "(i', k) \<in> set reg" by blast
  with assms(1) r show "i' = jb_id r" by (blast dest: names_agreeD)
qed

lemma sync_rows_succeeds:
  assumes "names_agree (rt_registry rt) js" "distinct (map jb_name js)"
  shows "\<exists>rt'. sync_rows js (rt, st) = (Inr (), (rt', st))"
  using assms
proof (induction js arbitrary: rt)
  case (Cons j js)
  let ?reg = "rt_registry rt" and ?rt = "rt\<lparr>rt_registry := put (jb_id j) j (rt_registry rt)\<rparr>"
  have "reg_by_name (jb_name j) ?reg = None" if "map_of ?reg (jb_id j) = None"
  proof -
    have "jb_name k \<noteq> jb_name j" if k: "(i, k) \<in> set ?reg" for i k
    proof
      assume "jb_name k = jb_name j"
      with k Cons.prems(1) have "i = jb_id j" by (auto dest: names_agreeD)
      with k \<open>map_of ?reg (jb_id j) = None\<close> show False by (force simp: map_of_eq_None_iff)
    qed
    then show ?thesis by (auto simp: reg_by_name_def find_None_iff)
  qed
  then have step: "sync_rows (j # js) (rt, st) = sync_rows js (?rt, st)"
    by (simp add: bindS_run read_runtime_def reg_exists_def change_registry_def reg_register_def reg_replace_def)
  have "names_agree (rt_registry ?rt) js"
    using Cons.prems(2) by (auto intro!: names_agree_put names_agree_fewer [OF Cons.prems(1)])
  from Cons.IH [OF this] Cons.prems(2) show ?case unfolding step by simp
qed (simp add: retS_def)

lemma distinct_sorted: "distinct (map f (sort_key k xs)) = distinct (map f xs)"
  by (simp add: distinct_map)

lemma sync_succeeds:
  assumes "calm_table env st" "names_agree (rt_registry rt) (ss_jobs st)"
  shows "\<exists>rt'. sync_registry env (rt, st) = (Inr (), (rt', st))"
proof -
  let ?rows = "sort_key (\<lambda>r. (isoformat (jb_created r), jb_id r)) (ss_jobs st)"
  let ?dec = "row_to_job (se_san env) (se_zone_ok env)"
  let ?js = "map (projr \<circ> ?dec) ?rows"
  have dec: "?dec r = Inr (projr (?dec r))" if "r \<in> set (ss_jobs st)" for r
    using assms(1) that by (simp add: calm_table_def)
  have same: "jb_name (projr (?dec r)) = jb_name r" "jb_id (projr (?dec r)) = jb_id r" if "r \<in> set (ss_jobs st)" for r
    using dec [OF that] by (auto simp: row_to_job_def Let_def split: if_splits)
  have "map ?dec ?rows = map Inr ?js" using dec by simp
  then have "decode_rows ?dec ?rows = Inr ?js" unfolding decode_rows_Inr .
  then have load: "store_load (se_san env) (se_zone_ok env) (se_sync_io env) st = Inr ?js"
    using assms(1) by (simp add: store_load_def calm_table_def)
  have "map jb_name ?js = map jb_name ?rows" using same by simp
  then have "distinct (map jb_name ?js)"
    using assms(1) distinct_sorted [of jb_name "\<lambda>r. (isoformat (jb_created r), jb_id r)" "ss_jobs st"]
    by (simp only: calm_table_def keyed_def)
  moreover have "names_agree (rt_registry rt) ?js"
    by (rule names_agreeI) (auto simp: same intro: names_agreeD [OF assms(2)])
  ultimately obtain rt' where "sync_rows ?js (rt, st) = (Inr (), (rt', st))"
    using sync_rows_succeeds by blast
  with load show ?thesis
    by (simp add: sync_registry_def bindS_run read_store_def change_runtime_def)
qed

lemma sync_keeps: "snd (snd (sync_registry env (rt, st))) = st"
proof -
  have "snd (snd (sync_rows js (rt, st))) = st" for js
    using sync_rows_frame [of js rt st "fst (sync_rows js (rt, st))" "snd (sync_rows js (rt, st))"] by simp
  from this show ?thesis
    by (simp add: sync_registry_def bindS_def read_store_def change_runtime_def case_prod_beta split: sum.split)
qed

section \<open>Reading the job\<close>

lemma get_job_cases:
  assumes pers: "persistent env" and revs: "\<forall>r \<in> set (ss_jobs st). 1 \<le> jb_revision r"
  obtains (failed) e where "get_job env i (rt, st) = (Inl e, (rt, st))" "\<not> calm_table env st"
    | (absent) "get_job env i (rt, st) = (Inr None, (rt, st))" "row_of jb_id i (ss_jobs st) = None"
    | (found) r j rt1 where "get_job env i (rt, st) = (Inr (Some j), (rt1, st))" "row_of jb_id i (ss_jobs st) = Some r"
        "row_to_job (se_san env) (se_zone_ok env) r = Inr j" "jb_id j = i" "jb_status j = jb_status r"
        "jb_revision j = jb_revision r" "jb_trigger j = cd_trigger (card_of r)" "1 \<le> jb_revision r"
        "reg_exists i (rt_registry rt1) = reg_exists i (rt_registry rt)"
        "calm_table env st \<Longrightarrow> names_agree (rt_registry rt) (ss_jobs st) \<Longrightarrow> names_agree (rt_registry rt1) (ss_jobs st)"
proof (cases "store_get (se_san env) (se_zone_ok env) (se_io env) i st")
  case (Inl e)
  then have "\<not> calm_table env st"
    using row_of_Some [of jb_id i "ss_jobs st"]
    by (fastforce simp: store_get_def calm_table_def split: if_splits option.splits sum.splits)
  with Inl pers show ?thesis by (intro failed) (simp_all add: get_job_def bindS_run read_store_def)
next
  case (Inr found)
  show ?thesis
  proof (cases "row_of jb_id i (ss_jobs st)")
    case None
    with Inr have "found = None" by (auto simp: store_get_def split: if_splits)
    with None Inr pers show ?thesis by (intro absent) (simp_all add: get_job_def bindS_run read_store_def retS_def)
  next
    case (Some r)
    with Inr obtain j where j: "found = Some j" "row_to_job (se_san env) (se_zone_ok env) r = Inr j"
      by (auto simp: store_get_def split: if_splits sum.splits)
    have mem: "r \<in> set (ss_jobs st)" "jb_id r = i" using row_of_Some [OF Some] by simp_all
    with revs have rev: "1 \<le> jb_revision r" by blast
    note same = row_to_job_Inr [OF j(2) rev]
    let ?rt1 = "if reg_exists i (rt_registry rt) then rt\<lparr>rt_registry := put i j (rt_registry rt)\<rparr> else rt"
    have call: "get_job env i (rt, st) = (Inr (Some j), (?rt1, st))"
      using pers Inr j(1) same mem(2)
      by (auto simp: get_job_def bindS_run read_store_def read_runtime_def change_registry_def reg_replace_def
          reg_exists_def retS_def)
    have agree: "names_agree (rt_registry ?rt1) (ss_jobs st)"
      if "calm_table env st" "names_agree (rt_registry rt) (ss_jobs st)"
    proof (rule names_agreeI)
      fix i' k x assume k: "(i', k) \<in> set (rt_registry ?rt1)" and x: "x \<in> set (ss_jobs st)" "jb_name k = jb_name x"
      from k set_put [of i j "rt_registry rt"] consider "i' = i" "k = j" | "(i', k) \<in> set (rt_registry rt)"
        by (auto split: if_splits)
      then show "i' = jb_id x"
      proof cases
        case 1
        with x same have "jb_name x = jb_name r" by simp
        with that(1) x(1) mem have "x = r" by (auto simp: calm_table_def dest: keyed_unique)
        with 1 mem show ?thesis by simp
      next
        case 2
        from names_agreeD [OF that(2) this x] show ?thesis .
      qed
    qed
    show ?thesis
      by (rule found [OF call Some j(2)]) (use same mem rev agree in \<open>auto simp: card_of_def reg_exists_def\<close>)
  qed
qed

section \<open>Changing one row\<close>

lemma board_change:
  assumes "keyed jb_id (ss_jobs st)" "row_of jb_id i (ss_jobs st) = Some r" "hit r"
    and "\<And>x. hit x \<Longrightarrow> jb_id x = i" "\<And>x. jb_id (f x) = jb_id x"
  shows "board_of (st\<lparr>ss_jobs := update_where hit f (ss_jobs st)\<rparr>) = place i (card_of (f r)) (board_of st)"
    and "row_of jb_id i (update_where hit f (ss_jobs st)) = Some (f r)"
    and "rowcount hit (ss_jobs st) = 1"
proof -
  have row: "row_of jb_id k (update_where hit f (ss_jobs st)) =
      (if k = i then Some (f r) else row_of jb_id k (ss_jobs st))" for k
  proof -
    have "\<not> hit x" if "row_of jb_id k (ss_jobs st) = Some x" "k \<noteq> i" for x
      using row_of_Some [OF that(1)] that(2) assms(4) by blast
    then show ?thesis
      using row_of_update_where [where key = jb_id and p = hit and f = f and k = k and rows = "ss_jobs st"] assms(2,3,5)
      by (cases "row_of jb_id k (ss_jobs st)") auto
  qed
  then show "row_of jb_id i (update_where hit f (ss_jobs st)) = Some (f r)" by simp
  show "board_of (st\<lparr>ss_jobs := update_where hit f (ss_jobs st)\<rparr>) = place i (card_of (f r)) (board_of st)"
    by (auto simp: board_of_def place_def row)
  show "rowcount hit (ss_jobs st) = 1" using rowcount_keyed [OF assms(1,4)] assms(2,3) by simp
qed

lemma board_miss:
  assumes "keyed jb_id (ss_jobs st)" "row_of jb_id i (ss_jobs st) = Some r" "\<not> hit r" "\<And>x. hit x \<Longrightarrow> jb_id x = i"
  shows "rowcount hit (ss_jobs st) = 0" "update_where hit f (ss_jobs st) = ss_jobs st"
proof -
  show none: "rowcount hit (ss_jobs st) = 0" using rowcount_keyed [OF assms(1,4)] assms(2,3) by simp
  then show "update_where hit f (ss_jobs st) = ss_jobs st" by (intro update_where_id) (simp add: rowcount_0)
qed

lemma calm_change:
  assumes "calm_table env st" "names_agree reg (ss_jobs st)"
    and "\<And>x. jb_id (f x) = jb_id x" "\<And>x. jb_name (f x) = jb_name x"
    and "\<And>x. \<not> isl (row_to_job (se_san env) (se_zone_ok env) x) \<Longrightarrow> x \<in> set (ss_jobs st) \<Longrightarrow> hit x \<Longrightarrow>
      \<not> isl (row_to_job (se_san env) (se_zone_ok env) (f x))"
  shows "calm_table env (st\<lparr>ss_jobs := update_where hit f (ss_jobs st)\<rparr>)"
    and "names_agree reg (update_where hit f (ss_jobs st))"
proof -
  show "calm_table env (st\<lparr>ss_jobs := update_where hit f (ss_jobs st)\<rparr>)"
    using assms(1,4,5) by (auto simp: calm_table_def set_update_where intro!: keyed_update_where)
  show "names_agree reg (update_where hit f (ss_jobs st))"
    by (rule names_agreeI) (auto simp: set_update_where assms(3,4) split: if_splits intro: names_agreeD [OF assms(2)])
qed

section \<open>Obeying the board\<close>

definition obeys :: "sched_env \<Rightarrow> management \<Rightarrow> runtime \<Rightarrow> sched_store \<Rightarrow> bool" where
  "obeys env m rt st =
    (case manage env m (rt, st) of (res, (rt', st')) \<Rightarrow>
     let v = decide env (name_taken m rt) m (board_of st) in
     (case res of
        Inr answer \<Rightarrow> if answer then v = Granted (board_of st') else v = Absent \<and> board_of st' = board_of st
      | Inl e \<Rightarrow> board_of st' = board_of st \<or> v = Granted (board_of st')) \<and>
     (calm_call env m rt st \<longrightarrow>
        res = (case v of Granted b \<Rightarrow> Inr True | Absent \<Rightarrow> Inr False | Refused e \<Rightarrow> Inl e)))"

lemma obeys_granted: "manage env m (rt, st) = (Inr True, (rt', st')) \<Longrightarrow>
    decide env (name_taken m rt) m (board_of st) = Granted (board_of st') \<Longrightarrow> obeys env m rt st"
  by (simp add: obeys_def Let_def)

lemma obeys_absent: "manage env m (rt, st) = (Inr False, (rt', st')) \<Longrightarrow> board_of st' = board_of st \<Longrightarrow>
    decide env (name_taken m rt) m (board_of st) = Absent \<Longrightarrow> obeys env m rt st"
  by (simp add: obeys_def Let_def)

lemma obeys_refused: "manage env m (rt, st) = (Inl e, (rt', st')) \<Longrightarrow> board_of st' = board_of st \<Longrightarrow>
    (calm_call env m rt st \<Longrightarrow> decide env (name_taken m rt) m (board_of st) = Refused e) \<Longrightarrow> obeys env m rt st"
  by (simp add: obeys_def Let_def)

lemma obeys_failed: "manage env m (rt, st) = (Inl e, (rt', st')) \<Longrightarrow> \<not> calm_call env m rt st \<Longrightarrow>
    board_of st' = board_of st \<or> decide env (name_taken m rt) m (board_of st) = Granted (board_of st') \<Longrightarrow>
    obeys env m rt st"
  by (simp add: obeys_def Let_def)

lemma board_card: "row_of jb_id i (ss_jobs st) = Some r \<Longrightarrow> bd_card (board_of st) i = Some (card_of r)"
  "row_of jb_id i (ss_jobs st) = None \<Longrightarrow> bd_card (board_of st) i = None"
  by (simp_all add: board_of_def)

lemma card_fields [simp]: "cd_status (card_of r) = jb_status r" "tg_type (cd_trigger (card_of r)) = tg_type (jb_trigger r)"
  by (simp_all add: card_of_def with_zone_def)

lemma with_zone_next: "with_zone tz (t\<lparr>tg_next := n\<rparr>) = (with_zone tz t)\<lparr>tg_next := n\<rparr>"
  by (simp add: with_zone_def)

lemma publish_runs: "\<exists>rt'. publish_event env ty i (rt, st) = (Inr (), (rt', st))"
  by (simp add: publish_event_def change_runtime_def)

lemma replace_runs:
  "(if reg_exists (jb_id j) (rt_registry rt) then \<exists>rt'. change_registry (reg_replace j) (rt, st) = (Inr (), (rt', st))
    else \<exists>e. change_registry (reg_replace j) (rt, st) = (Inl e, (rt, st)))"
  by (simp add: change_registry_def reg_replace_def reg_exists_def)

text \<open>Pausing and resuming: the guarded UPDATE with its reading, then the registry, then the event.\<close>

definition guarded :: "sched_env \<Rightarrow> string \<Rightarrow> string \<Rightarrow> exn \<Rightarrow> string \<Rightarrow> (job \<Rightarrow> bool) \<Rightarrow> (job \<Rightarrow> job) \<Rightarrow> bool sched_call" where
  "guarded env i m err ev hit f =
    bindS (bindS (on_store (on_open (run_sql (se_write_io env) m
             (update_and_read (se_san env) (se_zone_ok env) m i hit f)))) (\<lambda>changed. case changed of
             None \<Rightarrow> bindS (sync_registry env) (\<lambda>_. failS err)
           | Some j' \<Rightarrow> change_registry (reg_replace j')))
      (\<lambda>_. bindS (publish_event env ev i) (\<lambda>_. retS True))"

lemma guarded_cases:
  assumes keyed: "keyed jb_id (ss_jobs st)" and row: "row_of jb_id i (ss_jobs st) = Some r"
    and ids: "\<forall>x. (hit x \<longrightarrow> jb_id x = i) \<and> jb_id (f x) = jb_id x"
    and dec: "\<exists>j. row_to_job (se_san env) (se_zone_ok env) (f r) = Inr j"
  obtains (failed) e where "guarded env i m err ev hit f (rt, st) = (Inl e, (rt, st))" "\<not> calm_table env st"
    | (missed) e rt' where "\<not> hit r" "guarded env i m err ev hit f (rt, st) = (Inl e, (rt', st))"
        "calm_table env st \<Longrightarrow> names_agree (rt_registry rt) (ss_jobs st) \<Longrightarrow> e = err"
    | (changed) rt' where "hit r"
        "guarded env i m err ev hit f (rt, st) = (Inr True, (rt', st\<lparr>ss_jobs := update_where hit f (ss_jobs st)\<rparr>))"
    | (unknown) e where "hit r" "\<not> reg_exists i (rt_registry rt)"
        "guarded env i m err ev hit f (rt, st) = (Inl e, (rt, st\<lparr>ss_jobs := update_where hit f (ss_jobs st)\<rparr>))"
proof (cases "ss_open st \<and> se_write_io env = None")
  case False
  then have "\<exists>e. on_open (run_sql (se_write_io env) m (update_and_read (se_san env) (se_zone_ok env) m i hit f)) st = (Inl e, st)"
    by (auto simp: on_open_def run_sql_def)
  then obtain e where "guarded env i m err ev hit f (rt, st) = (Inl e, (rt, st))"
    by (auto simp: guarded_def bindS_run on_store_def)
  with False show ?thesis by (intro failed) (auto simp: calm_table_def)
next
  case True
  let ?st = "st\<lparr>ss_jobs := update_where hit f (ss_jobs st)\<rparr>"
  have hit: "hit x \<Longrightarrow> jb_id x = i" and f: "jb_id (f x) = jb_id x" for x using ids by blast+
  have sql: "on_open (run_sql (se_write_io env) m body) st = body st" for body :: "job option store_call"
    using True by (simp add: on_open_def run_sql_def)
  show ?thesis
  proof (cases "hit r")
    case False
    note miss = board_miss [where hit = hit, OF keyed row False hit]
    obtain res rt' where sync: "sync_registry env (rt, st) = (res, (rt', st))"
      using sync_keeps [of env rt st] by (metis prod.collapse)
    have "update_and_read (se_san env) (se_zone_ok env) m i hit f st = (Inr None, st)"
      using miss by (simp add: update_and_read_def)
    then have run: "guarded env i m err ev hit f (rt, st) = (Inl (case res of Inl e \<Rightarrow> e | Inr u \<Rightarrow> err), (rt', st))"
      by (simp add: guarded_def bindS_run on_store_def sql sync failS_def split: sum.split)
    have "(case res of Inl e \<Rightarrow> e | Inr u \<Rightarrow> err) = err"
      if "calm_table env st" "names_agree (rt_registry rt) (ss_jobs st)"
      using sync_succeeds [OF that] sync by auto
    with False run show ?thesis by (rule missed)
  next
    case True
    note new = board_change [where hit = hit and f = f, OF keyed row True hit f]
    from dec obtain j' where j': "row_to_job (se_san env) (se_zone_ok env) (f r) = Inr j'" by blast
    have id: "jb_id j' = i" using j' f [of r] row_of_Some [OF row] by (auto simp: row_to_job_def Let_def split: if_splits)
    have "update_and_read (se_san env) (se_zone_ok env) m i hit f st = (Inr (Some j'), ?st)"
      using new(2,3) j' by (simp add: update_and_read_def Let_def)
    then have run: "guarded env i m err ev hit f (rt, st) =
        bindS (change_registry (reg_replace j')) (\<lambda>_. bindS (publish_event env ev i) (\<lambda>_. retS True)) (rt, ?st)"
      by (simp add: guarded_def bindS_run on_store_def sql)
    show ?thesis
    proof (cases "reg_exists i (rt_registry rt)")
      case True
      with replace_runs [of j' rt ?st] id obtain rt1 where "change_registry (reg_replace j') (rt, ?st) = (Inr (), (rt1, ?st))" by auto
      moreover obtain rt2 where "publish_event env ev i (rt1, ?st) = (Inr (), (rt2, ?st))" using publish_runs by blast
      ultimately have "guarded env i m err ev hit f (rt, st) = (Inr True, (rt2, ?st))"
        unfolding run by (simp add: bindS_run retS_def)
      with \<open>hit r\<close> show ?thesis by (rule changed)
    next
      case False
      with replace_runs [of j' rt ?st] id obtain e where "change_registry (reg_replace j') (rt, ?st) = (Inl e, (rt, ?st))" by auto
      then have "guarded env i m err ev hit f (rt, st) = (Inl e, (rt, ?st))"
        unfolding run by (simp add: bindS_run)
      with \<open>hit r\<close> False show ?thesis by (intro unknown)
    qed
  qed
qed

lemma decodes_like:
  assumes "row_to_job san zone_ok r = Inr j" "1 \<le> jb_revision r" "tg_timezone (jb_trigger r') = tg_timezone (jb_trigger r)"
    and "jb_max_concurrent r' = jb_max_concurrent r" "jb_revision r' = jb_revision r + 1"
  shows "\<exists>j. row_to_job san zone_ok r' = Inr j"
  using claimed_decodes [OF assms(1-4)] assms(2,5) by fastforce

section \<open>Requests that read the row back\<close>

lemma obeys_guarded:
  assumes run: "manage env m (rt, st) = guarded env i msg err ev hit f (rt1, st)"
    and row: "keyed jb_id (ss_jobs st)" "row_of jb_id i (ss_jobs st) = Some r"
    and ids: "\<forall>x. (hit x \<longrightarrow> jb_id x = i) \<and> jb_id (f x) = jb_id x"
    and dec: "\<exists>j. row_to_job (se_san env) (se_zone_ok env) (f r) = Inr j"
    and granted: "hit r \<Longrightarrow> decide env (name_taken m rt) m (board_of st) = Granted (place i (card_of (f r)) (board_of st))"
    and refused: "\<not> hit r \<Longrightarrow> decide env (name_taken m rt) m (board_of st) = Refused err"
    and calm: "calm_call env m rt st \<Longrightarrow> reg_exists i (rt_registry rt1) \<and> names_agree (rt_registry rt1) (ss_jobs st)"
  shows "obeys env m rt st"
proof -
  have new: "decide env (name_taken m rt) m (board_of st) =
      Granted (board_of (st\<lparr>ss_jobs := update_where hit f (ss_jobs st)\<rparr>))" if "hit r"
    using granted [OF that] board_change(1) [where hit = hit and f = f, OF row that] ids by simp
  show ?thesis
  proof (rule guarded_cases [OF row ids dec, where m = msg and err = err and ev = ev and rt = rt1],
      goal_cases failed missed changed unknown)
    case (failed e)
    show ?case by (rule obeys_failed [OF trans [OF run failed(1)]]) (simp_all add: calm_call_def failed(2))
  next
    case (missed e rt')
    have "decide env (name_taken m rt) m (board_of st) = Refused e" if "calm_call env m rt st"
      using refused [OF missed(1)] missed(3) calm [OF that] that by (simp add: calm_call_def)
    then show ?case by (intro obeys_refused [OF trans [OF run missed(2)]]) simp_all
  next
    case (changed rt')
    show ?case by (rule obeys_granted [OF trans [OF run changed(2)] new [OF changed(1)]])
  next
    case (unknown e)
    show ?case
      by (rule obeys_failed [OF trans [OF run unknown(3)]]) (use unknown(1,2) new calm in auto)
  qed
qed

section \<open>Requests that answer with the number of rows\<close>

definition flagged :: "sched_env \<Rightarrow> string \<Rightarrow> (job \<Rightarrow> bool) \<Rightarrow> (job \<Rightarrow> job) \<Rightarrow> bool sched_call" where
  "flagged env msg hit f =
    bindS (on_store (on_open (run_sql (se_write_io env) msg (\<lambda>s.
             (Inr (rowcount hit (ss_jobs s) = 1), s\<lparr>ss_jobs := update_where hit f (ss_jobs s)\<rparr>)))))
      (\<lambda>changed. bindS (sync_registry env) (\<lambda>_. retS changed))"

lemma obeys_flagged:
  assumes run: "manage env m (rt, st) = flagged env msg hit f (rt1, st)"
    and row: "keyed jb_id (ss_jobs st)" "row_of jb_id i (ss_jobs st) = Some r"
    and ids: "\<forall>x. (hit x \<longrightarrow> jb_id x = i) \<and> jb_id (f x) = jb_id x \<and> jb_name (f x) = jb_name x"
    and granted: "hit r \<Longrightarrow> decide env (name_taken m rt) m (board_of st) = Granted (place i (card_of (f r)) (board_of st))"
    and absent: "\<not> hit r \<Longrightarrow> decide env (name_taken m rt) m (board_of st) = Absent"
    and calm: "calm_call env m rt st \<Longrightarrow> names_agree (rt_registry rt1) (ss_jobs st)"
    and dec: "calm_call env m rt st \<Longrightarrow> hit r \<Longrightarrow> \<not> isl (row_to_job (se_san env) (se_zone_ok env) (f r))"
  shows "obeys env m rt st"
proof -
  let ?st = "st\<lparr>ss_jobs := update_where hit f (ss_jobs st)\<rparr>"
  have only: "x = r" if "x \<in> set (ss_jobs st)" "hit x" for x
    using row_of_member [OF row(1) that(1)] that(2) ids row(2) by simp
  show ?thesis
  proof (cases "ss_open st \<and> se_write_io env = None")
    case False
    then have "\<exists>e. flagged env msg hit f (rt1, st) = (Inl e, (rt1, st))"
      by (cases "se_write_io env"; cases "ss_open st")
        (simp_all add: flagged_def bindS_run on_store_def on_open_def run_sql_def)
    then obtain e where "flagged env msg hit f (rt1, st) = (Inl e, (rt1, st))" ..
    from obeys_failed [OF trans [OF run this]] False show ?thesis by (auto simp: calm_call_def calm_table_def)
  next
    case True
    obtain res rt' where sync: "sync_registry env (rt1, ?st) = (res, (rt', ?st))"
      using sync_keeps [of env rt1 ?st] by (metis prod.collapse)
    have call: "flagged env msg hit f (rt1, st) =
        (case res of Inl e \<Rightarrow> Inl e | Inr u \<Rightarrow> Inr (rowcount hit (ss_jobs st) = 1), (rt', ?st))"
      using True sync
      by (simp add: flagged_def bindS_run on_store_def on_open_def run_sql_def retS_def split: sum.split)
    have synced: "res = Inr ()" if "calm_call env m rt st"
    proof -
      have table: "calm_table env st" using that by (simp add: calm_call_def)
      have "\<not> isl (row_to_job (se_san env) (se_zone_ok env) (f x))" if "x \<in> set (ss_jobs st)" "hit x" for x
        using dec [OF \<open>calm_call env m rt st\<close>] only [OF that] that(2) by simp
      from calm_change [OF table calm [OF that], of f hit] this ids
      obtain rt2 where "sync_registry env (rt1, ?st) = (Inr (), (rt2, ?st))" using sync_succeeds [of env ?st rt1] by auto
      with sync show ?thesis by simp
    qed
    have board: "if hit r then decide env (name_taken m rt) m (board_of st) = Granted (board_of ?st) \<and> rowcount hit (ss_jobs st) = 1
        else decide env (name_taken m rt) m (board_of st) = Absent \<and> board_of ?st = board_of st \<and> rowcount hit (ss_jobs st) = 0"
      using granted absent board_change(1,3) [where hit = hit and f = f, OF row] board_miss [where hit = hit, OF row] ids by auto
    show ?thesis
    proof (cases res)
      case (Inl e)
      with call have "flagged env msg hit f (rt1, st) = (Inl e, (rt', ?st))" by simp
      from obeys_failed [OF trans [OF run this]] Inl synced board show ?thesis by (auto split: if_splits)
    next
      case (Inr u)
      with call have "flagged env msg hit f (rt1, st) = (Inr (rowcount hit (ss_jobs st) = 1), (rt', ?st))" by simp
      note call = trans [OF run this]
      show ?thesis
      proof (cases "hit r")
        case True
        with board call obeys_granted [of env m rt st rt' ?st] show ?thesis by simp
      next
        case False
        with board call obeys_absent [of env m rt st rt' ?st] show ?thesis by simp
      qed
    qed
  qed
qed

section \<open>Each request\<close>

lemma claim_free: "sched_ok st \<Longrightarrow> r \<in> set (ss_jobs st) \<Longrightarrow> jb_status r \<noteq> J_RUNNING \<Longrightarrow> jb_claim r = None"
  using sched_okD(5) [of st r] by (simp add: job_ok_def)

lemma obeys_pause:
  assumes pers: "persistent env" and ok: "sched_ok st" and revs: "\<forall>r \<in> set (ss_jobs st). 1 \<le> jb_revision r"
  shows "obeys env (M_Pause i) rt st"
proof (rule get_job_cases [OF pers revs, of i rt], goal_cases failed absent found)
  case (failed e)
  then show ?case by (intro obeys_failed [where e = e and rt' = rt and st' = st])
      (simp_all add: pause_job_def bindS_run calm_call_def)
next
  case absent
  then show ?case by (intro obeys_absent [where rt' = rt and st' = st])
      (simp_all add: pause_job_def bindS_run retS_def on_card_def board_card)
next
  case (found r j rt1)
  note card = board_card(1) [OF found(2)]
  show ?case
  proof (cases "jb_status r = J_RUNNING")
    case True
    then show ?thesis
      by (intro obeys_refused [where rt' = rt1 and st' = st])
        (simp_all add: pause_job_def bindS_run found(1,5) failS_def on_card_def card)
  next
    case False
    let ?hit = "pausable i (jb_revision r)" and ?f = "paused_row (se_now env)"
    have run: "manage env (M_Pause i) (rt, st) = guarded env i ''Scheduler job pause failed''
        (job_state_error ''Job changed concurrently and cannot be paused'') ''scheduler.paused'' ?hit ?f (rt1, st)"
      using False pers by (simp add: pause_job_def bindS_run [of "get_job env i"] found(1,5,6) guarded_def store_pause_def)
    have mem: "r \<in> set (ss_jobs st)" "jb_id r = i" using row_of_Some [OF found(2)] by simp_all
    have hit: "?hit r \<longleftrightarrow> jb_status r \<in> {J_ACTIVE, J_RETRYING}"
      using mem(2) claim_free [OF ok mem(1) False] by (simp add: pausable_def)
    show ?thesis
      by (rule obeys_guarded [OF run sched_okD(1) [OF ok] found(2)])
        (use hit False found(9,10) decodes_like [OF found(3,8), of "?f r"] in
          \<open>auto simp: pausable_def paused_row_def card_of_def on_card_def card calm_call_def\<close>)
  qed
qed

lemma obeys_resume:
  assumes pers: "persistent env" and ok: "sched_ok st" and revs: "\<forall>r \<in> set (ss_jobs st). 1 \<le> jb_revision r"
  shows "obeys env (M_Resume i) rt st"
proof (rule get_job_cases [OF pers revs, of i rt], goal_cases failed absent found)
  case (failed e)
  then show ?case by (intro obeys_failed [where e = e and rt' = rt and st' = st])
      (simp_all add: resume_job_def bindS_run calm_call_def)
next
  case absent
  then show ?case by (intro obeys_absent [where rt' = rt and st' = st])
      (simp_all add: resume_job_def bindS_run retS_def on_card_def board_card)
next
  case (found r j rt1)
  note card = board_card(1) [OF found(2)]
  let ?t = "cd_trigger (card_of r)"
  show ?case
  proof (cases "jb_status r = J_PAUSED \<and> validate_trigger ?t \<and> \<not> isl (next_time ?t (se_now env))")
    case False
    then show ?thesis
      by (intro obeys_refused [where rt' = rt1 and st' = st and
            e = "if jb_status r \<noteq> J_PAUSED then job_state_error ''Only paused Job can be resumed''
              else if \<not> validate_trigger ?t then trigger_error ?t else projl (next_time ?t (se_now env))"])
        (auto simp: resume_job_def bindS_run found(1,5,7) failS_def on_card_def card next_time_def isl_def)
  next
    case True
    then obtain n where n: "next_time ?t (se_now env) = Inr n" by (cases "next_time ?t (se_now env)") auto
    let ?now = "if tg_type ?t \<noteq> MANUAL then se_later env else se_now env"
    let ?hit = "resumable i (jb_revision r)" and ?f = "resumed_row n ?now"
    have run: "manage env (M_Resume i) (rt, st) = guarded env i ''Scheduler job resume failed''
        (job_state_error ''Job changed concurrently and cannot be resumed'') ''scheduler.resumed'' ?hit ?f (rt1, st)"
      using True n pers
      by (cases "tg_type (jb_trigger r) = MANUAL")
        (simp_all add: resume_job_def bindS_run [of "get_job env i"] found(1,5,6,7) guarded_def store_resume_def next_time_def)
    have mem: "r \<in> set (ss_jobs st)" "jb_id r = i" using row_of_Some [OF found(2)] by simp_all
    have "?hit r" using True mem claim_free [OF ok mem(1)] by (simp add: resumable_def)
    with True n show ?thesis
      by (intro obeys_guarded [OF run sched_okD(1) [OF ok] found(2)])
        (use found(9,10) decodes_like [OF found(3,8), of "?f r"] in
          \<open>auto simp: resumable_def resumed_row_def card_of_def with_zone_next on_card_def card calm_call_def\<close>)
  qed
qed

lemma obeys_cancel:
  assumes pers: "persistent env" and ok: "sched_ok st" and revs: "\<forall>r \<in> set (ss_jobs st). 1 \<le> jb_revision r"
  shows "obeys env (M_Cancel i) rt st"
proof (rule get_job_cases [OF pers revs, of i rt], goal_cases failed absent found)
  case (failed e)
  then show ?case by (intro obeys_failed [where e = e and rt' = rt and st' = st])
      (simp_all add: cancel_job_def bindS_run calm_call_def)
next
  case absent
  then show ?case by (intro obeys_absent [where rt' = rt and st' = st])
      (simp_all add: cancel_job_def bindS_run retS_def on_card_def board_card)
next
  case (found r j rt1)
  let ?hit = "cancellable i" and ?f = "cancelled_row (se_now env)"
  have run: "manage env (M_Cancel i) (rt, st) = flagged env ''Scheduler job cancellation failed'' ?hit ?f (rt1, st)"
    using pers by (simp add: cancel_job_def bindS_run [of "get_job env i"] found(1) flagged_def store_cancel_def)
  have "?hit r \<longleftrightarrow> jb_status r \<in> {J_ACTIVE, J_RETRYING, J_PAUSED}"
    using row_of_Some [OF found(2)] by (simp add: cancellable_def)
  then show ?case
    by (intro obeys_flagged [OF run sched_okD(1) [OF ok] found(2)])
      (use found(10) decodes_like [OF found(3,8), of "?f r"] in
        \<open>auto simp: cancellable_def cancelled_row_def card_of_def with_zone_next on_card_def board_card(1) [OF found(2)] calm_call_def\<close>)
qed

lemma rows_of_others:
  "row_of key k (filter (\<lambda>x. key x \<noteq> i) xs) = (if k = i then None else row_of key k xs)"
  "filter (\<lambda>x. key x = k) (filter (\<lambda>x. key x \<noteq> i) xs) = (if k = i then [] else filter (\<lambda>x. key x = k) xs)"
  by (induction xs) auto

lemma obeys_delete:
  assumes pers: "persistent env" and ok: "sched_ok st" and revs: "\<forall>r \<in> set (ss_jobs st). 1 \<le> jb_revision r"
  shows "obeys env (M_Delete i) rt st"
proof (rule get_job_cases [OF pers revs, of i rt], goal_cases failed absent found)
  case (failed e)
  then show ?case by (intro obeys_failed [where e = e and rt' = rt and st' = st])
      (simp_all add: delete_job_def bindS_run calm_call_def)
next
  case absent
  then show ?case by (intro obeys_absent [where rt' = rt and st' = st])
      (simp_all add: delete_job_def bindS_run retS_def on_card_def board_card)
next
  case (found r j rt1)
  note card = board_card(1) [OF found(2)]
  let ?hit = "deletable i (jb_revision r)"
  let ?st = "st\<lparr>ss_jobs := filter (\<lambda>r. \<not> ?hit r) (ss_jobs st), ss_runs := filter (\<lambda>r. rr_job r \<noteq> i) (ss_runs st)\<rparr>"
  have call: "manage env (M_Delete i) (rt, st) =
      (if jb_status r = J_RUNNING then failS (job_state_error ''Running Job cannot be deleted'')
       else bindS (bindS (on_store (store_delete (se_write_io env) i (Some (jb_revision r)))) (\<lambda>deleted.
            if deleted then retS () else bindS (sync_registry env) (\<lambda>_.
              failS (job_state_error ''Job changed concurrently and cannot be deleted''))))
         (\<lambda>_. bindS (change_runtime (\<lambda>rt. rt\<lparr>rt_registry := pop i (rt_registry rt)\<rparr>)) (\<lambda>_.
           bindS (publish_event env ''scheduler.deleted'' i) (\<lambda>_. retS True)))) (rt1, st)"
    using pers by (simp add: delete_job_def bindS_run [of "get_job env i"] found(1,5,6))
  consider (running) "jb_status r = J_RUNNING"
    | (failed) "jb_status r \<noteq> J_RUNNING" "\<not> (ss_open st \<and> se_write_io env = None)"
    | (deleted) "jb_status r \<noteq> J_RUNNING" "ss_open st" "se_write_io env = None" by blast
  then show ?case
  proof cases
    case running
    with call obeys_refused [of env "M_Delete i" rt st _ rt1 st] show ?thesis
      by (simp add: failS_def on_card_def card)
  next
    case failed
    then have "\<exists>e. store_delete (se_write_io env) i (Some (jb_revision r)) st = (Inl e, st)"
      by (cases "se_write_io env"; cases "ss_open st") (simp_all add: store_delete_def on_open_def run_sql_def)
    then obtain e where "store_delete (se_write_io env) i (Some (jb_revision r)) st = (Inl e, st)" ..
    with call failed(1) have "manage env (M_Delete i) (rt, st) = (Inl e, (rt1, st))"
      by (simp add: bindS_run on_store_def)
    from obeys_failed [OF this] failed(2) show ?thesis by (auto simp: calm_call_def calm_table_def)
  next
    case deleted
    have mem: "r \<in> set (ss_jobs st)" "jb_id r = i" using row_of_Some [OF found(2)] by simp_all
    have "?hit r" using mem deleted(1) claim_free [OF ok mem(1)] by (simp add: deletable_def)
    then have one: "rowcount ?hit (ss_jobs st) = 1"
      using rowcount_keyed [OF sched_okD(1) [OF ok], of ?hit i] found(2) by (simp add: deletable_def)
    have same: "?hit x \<longleftrightarrow> jb_id x = i" if "x \<in> set (ss_jobs st)" for x
    proof
      assume "jb_id x = i"
      with mem keyed_unique [OF sched_okD(1) [OF ok] that mem(1)] have "x = r" by simp
      with \<open>?hit r\<close> show "?hit x" by simp
    qed (simp add: deletable_def)
    have jobs: "filter (\<lambda>x. \<not> ?hit x) (ss_jobs st) = filter (\<lambda>x. jb_id x \<noteq> i) (ss_jobs st)"
      by (rule filter_cong [OF refl]) (simp add: same)
    have board: "board_of ?st = remove_card i (board_of st)"
      by (simp add: board_of_def remove_card_def fun_eq_iff jobs rows_of_others del: filter_filter)
    have "store_delete (se_write_io env) i (Some (jb_revision r)) st = (Inr True, ?st)"
      using deleted one by (simp add: store_delete_def on_open_def run_sql_def)
    moreover obtain rt2 where "publish_event env ''scheduler.deleted'' i
        (rt1\<lparr>rt_registry := pop i (rt_registry rt1)\<rparr>, ?st) = (Inr (), (rt2, ?st))"
      using publish_runs by blast
    ultimately have "manage env (M_Delete i) (rt, st) = (Inr True, (rt2, ?st))"
      using call deleted(1) by (simp add: bindS_run on_store_def retS_def change_runtime_def)
    from obeys_granted [OF this] deleted(1) board show ?thesis by (simp add: on_card_def card)
  qed
qed

lemma obeys_reschedule:
  assumes pers: "persistent env" and ok: "sched_ok st" and revs: "\<forall>r \<in> set (ss_jobs st). 1 \<le> jb_revision r"
  shows "obeys env (M_Reschedule i run_at tz payload) rt st"
proof (rule get_job_cases [OF pers revs, of i rt], goal_cases failed absent found)
  case (failed e)
  then show ?case by (intro obeys_failed [where e = e and rt' = rt and st' = st])
      (simp_all add: reschedule_one_shot_def bindS_run calm_call_def)
next
  case absent
  then show ?case by (intro obeys_absent [where rt' = rt and st' = st])
      (simp_all add: reschedule_one_shot_def bindS_run retS_def on_card_def board_card)
next
  case (found r j rt1)
  note card = board_card(1) [OF found(2)]
  let ?m = "M_Reschedule i run_at tz payload"
  let ?hit = "reschedulable i (jb_revision r)" and ?f = "rescheduled_row run_at tz payload (se_now env)"
  consider (other) "tg_type (jb_trigger r) \<noteq> ONE_SHOT"
    | (failed) "tg_type (jb_trigger r) = ONE_SHOT" "\<not> (ss_open st \<and> se_write_io env = None \<and> dumpable_dict payload)"
    | (ran) "tg_type (jb_trigger r) = ONE_SHOT" "ss_open st" "se_write_io env = None" "dumpable_dict payload" by blast
  then show ?case
  proof cases
    case other
    with found(1,7) have "manage env ?m (rt, st) = (Inr False, (rt1, st))"
      by (simp add: reschedule_one_shot_def bindS_run retS_def)
    from obeys_absent [OF this] other show ?thesis by (simp add: on_card_def card)
  next
    case failed
    then have "store_reschedule (se_write_io env) i (jb_revision r) run_at tz payload (se_now env) st =
        (Inl (if ss_open st then perr ''Scheduler job reschedule failed''
           else perr ''Scheduler persistence is not initialized''), st)"
      by (cases "se_write_io env"; cases "ss_open st") (simp_all add: store_reschedule_def on_open_def run_sql_def)
    with found(1,6,7) pers failed(1) have "manage env ?m (rt, st) =
        (Inl (if ss_open st then perr ''Scheduler job reschedule failed''
           else perr ''Scheduler persistence is not initialized''), (rt1, st))"
      by (simp add: reschedule_one_shot_def bindS_run on_store_def)
    from obeys_refused [OF this] failed show ?thesis
      by (auto simp: on_card_def card calm_call_def calm_table_def)
  next
    case ran
    have run: "manage env ?m (rt, st) = flagged env ''Scheduler job reschedule failed'' ?hit ?f (rt1, st)"
      using pers ran found(7)
      by (simp add: reschedule_one_shot_def bindS_run [of "get_job env i"] found(1,6) flagged_def store_reschedule_def
          bindS_run [of "on_store m" for m] on_store_def on_open_def run_sql_def)
    have mem: "r \<in> set (ss_jobs st)" "jb_id r = i" using row_of_Some [OF found(2)] by simp_all
    have hit: "?hit r \<longleftrightarrow> jb_status r \<in> {J_ACTIVE, J_RETRYING, J_PAUSED, J_FAILED, J_CANCELLED}"
      using mem claim_free [OF ok mem(1)] by (auto simp: reschedulable_def)
    have dec: "\<not> isl (row_to_job (se_san env) (se_zone_ok env) (?f r))" if "calm_call env ?m rt st"
      using that found(3,8) by (auto simp: calm_call_def row_to_job_def rescheduled_row_def Let_def split: if_splits)
    have moved: "card_of (?f r) = (card_of r)\<lparr>cd_status := J_ACTIVE, cd_payload := payload, cd_retries := 0,
        cd_trigger := with_zone tz ((cd_trigger (card_of r))\<lparr>tg_run_at := Some run_at, tg_next := Some run_at\<rparr>)\<rparr>"
      by (simp add: card_of_def rescheduled_row_def with_zone_def)
    show ?thesis
      by (rule obeys_flagged [OF run sched_okD(1) [OF ok] found(2)])
        (use hit dec found(10) ran moved in \<open>auto simp: reschedulable_def rescheduled_row_def on_card_def card calm_call_def\<close>)
  qed
qed

lemma board_added:
  assumes "row_of jb_id (jb_id j) (ss_jobs st) = None"
  shows "board_of (st\<lparr>ss_jobs := ss_jobs st @ [j]\<rparr>) = place (jb_id j) (card_of j) (board_of st)"
  using assms by (auto simp: board_of_def place_def fun_eq_iff split: option.split)

lemma obeys_schedule:
  assumes pers: "persistent env"
  shows "obeys env (M_Schedule q) rt st"
proof -
  let ?t = "rq_trigger q" and ?taken = "reg_by_name (rq_name q) (rt_registry rt) \<noteq> None"
  show ?thesis
  proof (cases "\<not> ?taken \<and> validate_trigger ?t \<and> \<not> isl (next_time ?t (se_now env))")
    case False
    then show ?thesis
      by (intro obeys_refused [where rt' = rt and st' = st and
            e = "if ?taken then Raise JobAlreadyExistsError (''Job already exists: '' @ rq_name q)
              else if \<not> validate_trigger ?t then trigger_error ?t else projl (next_time ?t (se_now env))"])
        (auto simp: schedule_def bindS_run read_runtime_def failS_def next_time_def isl_def)
  next
    case True
    then obtain n where n: "next_time ?t (se_now env) = Inr n" by (cases "next_time ?t (se_now env)") auto
    note good = True
    let ?j = "new_job env q (?t\<lparr>tg_next := n\<rparr>)"
    have call: "schedule env q (rt, st) =
        bindS (change_registry (reg_register ?j)) (\<lambda>_.
        bindS (\<lambda>x. case on_store (store_save (se_write_io env) ?j) x of
            (Inl e, (rt, st)) \<Rightarrow> (Inl e, (rt\<lparr>rt_registry := pop (jb_id ?j) (rt_registry rt)\<rparr>, st))
          | (Inr u, y) \<Rightarrow> (Inr u, y)) (\<lambda>_.
        bindS (publish_event env ''scheduler.created'' (jb_id ?j)) (\<lambda>_. retS ?j))) (rt, st)"
      using True n pers
      by (cases "tg_type ?t = MANUAL")
        (simp_all add: schedule_def bindS_run [of "read_runtime f" for f] read_runtime_def next_time_def Let_def)
    have fields: "jb_id ?j = se_uuid env" "jb_name ?j = rq_name q" "jb_last_error ?j = None"
      "jb_variables ?j = rq_variables q" "jb_payload ?j = rq_payload q" "jb_metadata ?j = []"
      by (simp_all add: new_job_def)
    show ?thesis
    proof (cases "reg_exists (se_uuid env) (rt_registry rt)")
      case True
      then have "manage env (M_Schedule q) (rt, st) =
          (Inl (Raise JobAlreadyExistsError (''Job already exists: '' @ rq_name q)), (rt, st))"
        by (simp add: call bindS_run change_registry_def reg_register_def reg_exists_def fields)
      from obeys_failed [OF this] True show ?thesis by (simp add: calm_call_def)
    next
      case False
      let ?rt1 = "rt\<lparr>rt_registry := put (se_uuid env) ?j (rt_registry rt)\<rparr>"
      let ?dumps = "dumpable_dict (rq_variables q) \<and> dumpable_dict (rq_payload q)"
      have reg: "change_registry (reg_register ?j) (rt, st) = (Inr (), (?rt1, st))"
        using True False by (simp add: change_registry_def reg_register_def reg_exists_def fields)
      have row: "job_values ?j = (if ?dumps then Inr ?j else Inl (Raise TypeError ''Object is not JSON serializable''))"
        by (simp add: job_values_def new_job_def)
      show ?thesis
      proof (cases "?dumps \<and> ss_open st \<and> se_write_io env = None \<and> row_of jb_id (se_uuid env) (ss_jobs st) = None")
        case False
        then have "\<exists>e. store_save (se_write_io env) ?j st = (Inl e, st) \<and>
            (?dumps \<or> e = Raise TypeError ''Object is not JSON serializable'')"
          by (cases "se_write_io env"; cases "ss_open st") (auto simp: store_save_def row on_open_def run_sql_def fields)
        then obtain e where save: "store_save (se_write_io env) ?j st = (Inl e, st)"
          and e: "?dumps \<or> e = Raise TypeError ''Object is not JSON serializable''" by blast
        obtain rt2 where "manage env (M_Schedule q) (rt, st) = (Inl e, (rt2, st))"
          using reg save by (simp add: call bindS_run on_store_def)
        from obeys_refused [OF this] False e good n show ?thesis
          by (auto simp: calm_call_def calm_table_def)
      next
        case True
        let ?st = "st\<lparr>ss_jobs := ss_jobs st @ [?j]\<rparr>"
        have save: "store_save (se_write_io env) ?j st = (Inr (), ?st)"
          using True by (simp add: store_save_def row on_open_def run_sql_def fields)
        obtain rt2 where "publish_event env ''scheduler.created'' (jb_id ?j) (?rt1, ?st) = (Inr (), (rt2, ?st))"
          using publish_runs by blast
        with reg save have "manage env (M_Schedule q) (rt, st) = (Inr True, (rt2, ?st))"
          by (simp add: call bindS_run on_store_def retS_def)
        moreover have "board_of ?st = place (se_uuid env) (card_of ?j) (board_of st)"
          using board_added [of ?j st] True fields(1) by simp
        moreover have "card_of ?j = \<lparr>cd_name = rq_name q, cd_status = J_ACTIVE,
            cd_trigger = with_zone (tg_timezone ?t) (?t\<lparr>tg_next := n\<rparr>), cd_payload = rq_payload q, cd_retries = 0\<rparr>"
          by (simp add: card_of_def new_job_def)
        ultimately show ?thesis
          using obeys_granted [of env "M_Schedule q" rt st rt2 ?st] good n True by simp
      qed
    qed
  qed
qed

section \<open>The refinement\<close>


definition knowing_runtime :: runtime where
  "knowing_runtime = new_runtime\<lparr>rt_registry := [(''c'', due_job)]\<rparr>"


end
