(* ===== verification/UserTask_Model.thy ===== *)
theory UserTask_Model
  imports Workspaces Domain_Base
begin

text \<open>
  \<open>core/user_tasks/models.py\<close>: the user-visible task, the query over tasks, and the validation
  both pass.  \<open>zone_ok\<close> stands for the lookup of a time zone name (\<open>ZoneInfo\<close>) in the host's
  database.
\<close>

section \<open>Tasks\<close>

datatype ut_status = UT_ACTIVE | UT_COMPLETED | UT_CANCELLED

datatype ut_priority = LOW | MEDIUM | HIGH | URGENT

fun ut_status_value :: "ut_status \<Rightarrow> string" where
  "ut_status_value UT_ACTIVE = ''active''"
| "ut_status_value UT_COMPLETED = ''completed''"
| "ut_status_value UT_CANCELLED = ''cancelled''"

fun ut_priority_value :: "ut_priority \<Rightarrow> string" where
  "ut_priority_value LOW = ''low''"
| "ut_priority_value MEDIUM = ''medium''"
| "ut_priority_value HIGH = ''high''"
| "ut_priority_value URGENT = ''urgent''"

record user_task =
  ut_id :: string
  ut_title :: string
  ut_description :: string
  ut_status :: ut_status
  ut_priority :: ut_priority
  ut_due_at :: "instant option"
  ut_timezone :: string
  ut_created_at :: instant
  ut_updated_at :: instant
  ut_completed_at :: "instant option"
  ut_cancelled_at :: "instant option"
  ut_source :: string
  ut_session_id :: string
  ut_agent_id :: string
  ut_trace_id :: string
  ut_metadata :: dict
  ut_legacy_source_id :: "string option"
  ut_revision :: int

text \<open>The keyword arguments of the constructor, before validation.\<close>

record ut_values =
  uv_id :: string
  uv_title :: string
  uv_description :: string
  uv_status :: ut_status
  uv_priority :: ut_priority
  uv_due_at :: "datetime option"
  uv_timezone :: string
  uv_created_at :: datetime
  uv_updated_at :: datetime
  uv_completed_at :: "datetime option"
  uv_cancelled_at :: "datetime option"
  uv_source :: string
  uv_session_id :: string
  uv_agent_id :: string
  uv_trace_id :: string
  uv_metadata :: dict
  uv_legacy_source_id :: "string option"
  uv_revision :: int

text \<open>The field validators; pydantic turns what any of them raises into a \<open>ValidationError\<close>.\<close>

definition title_ok :: "string \<Rightarrow> bool" where
  "title_ok s = (py_strip s \<noteq> [])"

definition timezone_ok :: "(string \<Rightarrow> bool) \<Rightarrow> string \<Rightarrow> bool" where
  "timezone_ok zone_ok s = (py_strip s \<noteq> [] \<and> zone_ok (py_strip s))"

definition task_metadata_ok :: "dict \<Rightarrow> bool" where
  "task_metadata_ok d = (\<not> sensitive_dict d \<and> dumpable_dict d)"

definition task_fields_ok :: "(string \<Rightarrow> bool) \<Rightarrow> ut_values \<Rightarrow> bool" where
  "task_fields_ok zone_ok v =
    (title_ok (uv_title v) \<and> opt_aware (uv_due_at v) \<and> timezone_ok zone_ok (uv_timezone v) \<and>
     \<not> is_naive (uv_created_at v) \<and> \<not> is_naive (uv_updated_at v) \<and>
     opt_aware (uv_completed_at v) \<and> opt_aware (uv_cancelled_at v) \<and>
     task_metadata_ok (uv_metadata v) \<and> 1 \<le> uv_revision v)"

definition task_of_values :: "ut_values \<Rightarrow> user_task" where
  "task_of_values v =
    \<lparr>ut_id = uv_id v, ut_title = py_strip (uv_title v), ut_description = uv_description v,
     ut_status = uv_status v, ut_priority = uv_priority v,
     ut_due_at = map_option utc_instant (uv_due_at v), ut_timezone = py_strip (uv_timezone v),
     ut_created_at = utc_instant (uv_created_at v), ut_updated_at = utc_instant (uv_updated_at v),
     ut_completed_at = map_option utc_instant (uv_completed_at v),
     ut_cancelled_at = map_option utc_instant (uv_cancelled_at v),
     ut_source = uv_source v, ut_session_id = uv_session_id v, ut_agent_id = uv_agent_id v,
     ut_trace_id = uv_trace_id v, ut_metadata = uv_metadata v,
     ut_legacy_source_id = uv_legacy_source_id v, ut_revision = uv_revision v\<rparr>"

text \<open>\<open>UserTask(**values)\<close> and \<open>UserTask.model_validate\<close>; \<open>model_dump()\<close> is the way back.\<close>

definition validate_task :: "(string \<Rightarrow> bool) \<Rightarrow> ut_values \<Rightarrow> exn + user_task" where
  "validate_task zone_ok v =
    (if task_fields_ok zone_ok v then Inr (task_of_values v)
     else Inl (Raise ValidationError ''UserTask''))"

definition dump_task :: "user_task \<Rightarrow> ut_values" where
  "dump_task t =
    \<lparr>uv_id = ut_id t, uv_title = ut_title t, uv_description = ut_description t,
     uv_status = ut_status t, uv_priority = ut_priority t,
     uv_due_at = map_option (\<lambda>i. Aware i 0) (ut_due_at t), uv_timezone = ut_timezone t,
     uv_created_at = Aware (ut_created_at t) 0, uv_updated_at = Aware (ut_updated_at t) 0,
     uv_completed_at = map_option (\<lambda>i. Aware i 0) (ut_completed_at t),
     uv_cancelled_at = map_option (\<lambda>i. Aware i 0) (ut_cancelled_at t),
     uv_source = ut_source t, uv_session_id = ut_session_id t, uv_agent_id = ut_agent_id t,
     uv_trace_id = ut_trace_id t, uv_metadata = ut_metadata t,
     uv_legacy_source_id = ut_legacy_source_id t, uv_revision = ut_revision t\<rparr>"

definition task_overdue :: "user_task \<Rightarrow> instant \<Rightarrow> bool" where
  "task_overdue t now =
    (ut_status t = UT_ACTIVE \<and> (case ut_due_at t of None \<Rightarrow> False | Some d \<Rightarrow> d < now))"

section \<open>Queries\<close>

record ut_query =
  uq_status :: "ut_status option"
  uq_priority :: "ut_priority option"
  uq_due_from :: "datetime option"
  uq_due_to :: "datetime option"
  uq_completed_from :: "datetime option"
  uq_completed_to :: "datetime option"
  uq_cancelled_from :: "datetime option"
  uq_cancelled_to :: "datetime option"
  uq_overdue :: "bool option"
  uq_limit :: int
  uq_offset :: int

definition range_ok :: "datetime option \<Rightarrow> datetime option \<Rightarrow> bool" where
  "range_ok lower upper = (case (lower, upper) of
     (Some l, Some u) \<Rightarrow> utc_instant l < utc_instant u
   | _ \<Rightarrow> True)"

text \<open>A validated query: its datetimes are aware and stand for the instants the code normalises
  them to.\<close>

definition validate_query :: "ut_query \<Rightarrow> exn + ut_query" where
  "validate_query q =
    (if opt_aware (uq_due_from q) \<and> opt_aware (uq_due_to q) \<and>
        opt_aware (uq_completed_from q) \<and> opt_aware (uq_completed_to q) \<and>
        opt_aware (uq_cancelled_from q) \<and> opt_aware (uq_cancelled_to q) \<and>
        1 \<le> uq_limit q \<and> uq_limit q \<le> 500 \<and> 0 \<le> uq_offset q \<and>
        range_ok (uq_completed_from q) (uq_completed_to q) \<and>
        range_ok (uq_cancelled_from q) (uq_cancelled_to q)
     then Inr q
     else Inl (Raise ValidationError ''UserTaskQuery''))"

section \<open>Validity is kept by a dump and a reload\<close>

definition valid_task :: "(string \<Rightarrow> bool) \<Rightarrow> user_task \<Rightarrow> bool" where
  "valid_task zone_ok t = (validate_task zone_ok (dump_task t) = Inr t)"

lemma validate_task_Inr:
  "validate_task zone_ok v = Inr t \<longleftrightarrow> task_fields_ok zone_ok v \<and> t = task_of_values v"
  by (auto simp: validate_task_def)

lemma task_dump: "task_of_values (dump_task t) =
    t\<lparr>ut_title := py_strip (ut_title t), ut_timezone := py_strip (ut_timezone t)\<rparr>"
  by (simp add: task_of_values_def dump_task_def option.map_comp)

lemma valid_task_iff: "valid_task zone_ok t \<longleftrightarrow>
    py_strip (ut_title t) = ut_title t \<and> ut_title t \<noteq> [] \<and>
    py_strip (ut_timezone t) = ut_timezone t \<and> ut_timezone t \<noteq> [] \<and> zone_ok (ut_timezone t) \<and>
    task_metadata_ok (ut_metadata t) \<and> 1 \<le> ut_revision t"
proof -
  have "valid_task zone_ok t \<longleftrightarrow> task_fields_ok zone_ok (dump_task t) \<and>
      t = t\<lparr>ut_title := py_strip (ut_title t), ut_timezone := py_strip (ut_timezone t)\<rparr>"
    by (simp add: valid_task_def validate_task_Inr task_dump)
  also have "t = t\<lparr>ut_title := py_strip (ut_title t), ut_timezone := py_strip (ut_timezone t)\<rparr> \<longleftrightarrow>
      py_strip (ut_title t) = ut_title t \<and> py_strip (ut_timezone t) = ut_timezone t"
    by (cases t) auto
  finally show ?thesis
    by (auto simp: task_fields_ok_def dump_task_def title_ok_def timezone_ok_def)
qed

text \<open>Whatever the constructor accepts is a fixed point of dumping and validating again.\<close>

lemma validated_task_valid: "validate_task zone_ok v = Inr t \<Longrightarrow> valid_task zone_ok t"
  by (auto simp: validate_task_Inr valid_task_iff task_fields_ok_def title_ok_def timezone_ok_def
      task_of_values_def)

end
