(* ===== verification/UserTask_Store.thy ===== *)
theory UserTask_Store
  imports UserTask_Model Store_Contracts
begin

text \<open>
  \<open>core/user_tasks/repository.py\<close>: the table of tasks and the statements over it.  A task belongs
  to the workspace its metadata names; a row whose metadata does not name one completely belongs
  to the default workspace.  The metadata column is kept as the value of its JSON text, \<open>None\<close>
  when the text is not valid JSON.  Numbers in it are finite and workspace names hold no NUL.
  \<open>enc\<close> is the text pydantic gives an instant, \<open>io\<close> the exception of SQLite in a transaction,
  which is then rolled back.
\<close>

section \<open>Rows\<close>

record ut_row =
  ur_id :: string
  ur_title :: string
  ur_description :: string
  ur_status :: ut_status
  ur_priority :: ut_priority
  ur_due_at :: "instant option"
  ur_timezone :: string
  ur_created_at :: instant
  ur_updated_at :: instant
  ur_completed_at :: "instant option"
  ur_cancelled_at :: "instant option"
  ur_source :: string
  ur_session_id :: string
  ur_agent_id :: string
  ur_trace_id :: string
  ur_metadata :: "json option"
  ur_legacy_source_id :: "string option"
  ur_revision :: int

record ut_store =
  us_rows :: "ut_row list"
  us_initialized :: bool
  us_last_error :: "string option"

definition task_row :: "user_task \<Rightarrow> ut_row" where
  "task_row t =
    \<lparr>ur_id = ut_id t, ur_title = ut_title t, ur_description = ut_description t,
     ur_status = ut_status t, ur_priority = ut_priority t, ur_due_at = ut_due_at t,
     ur_timezone = ut_timezone t, ur_created_at = ut_created_at t, ur_updated_at = ut_updated_at t,
     ur_completed_at = ut_completed_at t, ur_cancelled_at = ut_cancelled_at t,
     ur_source = ut_source t, ur_session_id = ut_session_id t, ur_agent_id = ut_agent_id t,
     ur_trace_id = ut_trace_id t, ur_metadata = Some (JObj (ut_metadata t)),
     ur_legacy_source_id = ut_legacy_source_id t, ur_revision = ut_revision t\<rparr>"

definition row_task :: "dict \<Rightarrow> ut_row \<Rightarrow> user_task" where
  "row_task d r =
    \<lparr>ut_id = ur_id r, ut_title = ur_title r, ut_description = ur_description r,
     ut_status = ur_status r, ut_priority = ur_priority r, ut_due_at = ur_due_at r,
     ut_timezone = ur_timezone r, ut_created_at = ur_created_at r, ut_updated_at = ur_updated_at r,
     ut_completed_at = ur_completed_at r, ut_cancelled_at = ur_cancelled_at r,
     ut_source = ur_source r, ut_session_id = ur_session_id r, ut_agent_id = ur_agent_id r,
     ut_trace_id = ur_trace_id r, ut_metadata = d,
     ut_legacy_source_id = ur_legacy_source_id r, ut_revision = ur_revision r\<rparr>"

text \<open>\<open>_task(row)\<close>: the metadata is parsed, then the whole row is validated again.\<close>

definition task_of_row :: "(string \<Rightarrow> bool) \<Rightarrow> ut_row \<Rightarrow> exn + user_task" where
  "task_of_row zone_ok r =
    (case ur_metadata r of
       None \<Rightarrow> Inl (Raise (OtherError ''JSONDecodeError'') ''metadata'')
     | Some (JObj d) \<Rightarrow> validate_task zone_ok (dump_task (row_task d r))
     | Some _ \<Rightarrow> Inl (Raise ValidationError ''UserTask''))"

section \<open>Workspaces of rows\<close>

fun complete_workspace :: "json \<Rightarrow> identity option" where
  "complete_workspace (JObj d) =
    (case map_of d ''workspace'' of
       Some (JObj e) \<Rightarrow>
         (case (complete_text (map_of e ''tenant_id''), complete_text (map_of e ''workspace_id''),
                complete_text (map_of e ''namespace'')) of
            (Some t, Some w, Some n) \<Rightarrow> Some (t, w, n)
          | _ \<Rightarrow> None)
     | _ \<Rightarrow> None)"
| "complete_workspace _ = None"

definition in_workspace :: "identity \<Rightarrow> json option \<Rightarrow> bool" where
  "in_workspace ident column =
    (case column of
       None \<Rightarrow> False
     | Some v \<Rightarrow>
         (case complete_workspace v of
            Some i \<Rightarrow> i = ident
          | None \<Rightarrow> ident = default_identity))"

definition owned_by :: "workspace_key \<Rightarrow> ut_row \<Rightarrow> bool" where
  "owned_by key r = in_workspace (workspace_identity key) (ur_metadata r)"

text \<open>\<open>_ensure_valid_metadata\<close>, which runs for the default workspace only.\<close>

definition malformed_metadata :: "workspace_key \<Rightarrow> string option \<Rightarrow> ut_store \<Rightarrow> bool" where
  "malformed_metadata key i s =
    (workspace_identity key = default_identity \<and>
     list_ex (\<lambda>r. ur_metadata r = None \<and> opt_clause (\<lambda>k. ur_id r = k) i) (us_rows s))"

section \<open>Statements\<close>

definition task_error :: "exn \<Rightarrow> string \<Rightarrow> ut_store \<Rightarrow> (exn + 'a) \<times> ut_store" where
  "task_error e m s = (Inl (Raise UserTaskPersistenceError m), s\<lparr>us_last_error := Some (exn_name e)\<rparr>)"

definition task_done :: "'a \<Rightarrow> ut_store \<Rightarrow> (exn + 'a) \<times> ut_store" where
  "task_done x s = (Inr x, s\<lparr>us_last_error := None\<rparr>)"

text \<open>\<open>legacy_source_id TEXT UNIQUE\<close>: NULLs do not collide.\<close>

definition legacy_taken :: "string option \<Rightarrow> ut_row list \<Rightarrow> bool" where
  "legacy_taken l rows = (l \<noteq> None \<and> list_ex (\<lambda>r. ur_legacy_source_id r = l) rows)"

definition task_create :: "exn option \<Rightarrow> user_task \<Rightarrow> ut_store \<Rightarrow> (exn + user_task) \<times> ut_store" where
  "task_create io t s =
    (let conflict = (Inl (Raise UserTaskConflictError ''UserTask already exists''), s) in
     if \<not> sql_int (ut_revision t) then task_error sql_overflow ''UserTask create failed'' s
     else case io of
       Some x \<Rightarrow>
         if has_class [SqliteIntegrityError] x then conflict
         else task_error x ''UserTask create failed'' s
     | None \<Rightarrow>
         if row_of ur_id (ut_id t) (us_rows s) \<noteq> None \<or>
            legacy_taken (ut_legacy_source_id t) (us_rows s)
         then conflict
         else task_done t (s\<lparr>us_rows := us_rows s @ [task_row t]\<rparr>))"

definition task_get ::
  "(string \<Rightarrow> bool) \<Rightarrow> exn option \<Rightarrow> workspace_key \<Rightarrow> string \<Rightarrow> ut_store \<Rightarrow> (exn + user_task) \<times> ut_store" where
  "task_get zone_ok io key i s =
    (case io of
       Some x \<Rightarrow> task_error x ''UserTask query failed'' s
     | None \<Rightarrow>
         if malformed_metadata key (Some i) s
         then (Inl (Raise UserTaskPersistenceError ''UserTask persisted metadata is malformed''), s)
         else (case find (\<lambda>r. ur_id r = i \<and> owned_by key r) (us_rows s) of
                 None \<Rightarrow> (Inl (Raise UserTaskNotFoundError ''UserTask not found''), s\<lparr>us_last_error := None\<rparr>)
               | Some r \<Rightarrow>
                   (case task_of_row zone_ok r of
                      Inl e \<Rightarrow> task_error e ''UserTask query failed'' s
                    | Inr t \<Rightarrow> task_done t s)))"

text \<open>The clauses of \<open>list\<close>; a NULL column satisfies no comparison.\<close>

definition query_clauses :: "(instant \<Rightarrow> string) \<Rightarrow> ut_query \<Rightarrow> ut_row \<Rightarrow> bool" where
  "query_clauses enc q r =
    (opt_clause (\<lambda>v. ur_status r = v) (uq_status q) \<and>
     opt_clause (\<lambda>v. ur_priority r = v) (uq_priority q) \<and>
     opt_clause (\<lambda>d. col_ge enc (ur_due_at r) (utc_instant d)) (uq_due_from q) \<and>
     opt_clause (\<lambda>d. col_le enc (ur_due_at r) (utc_instant d)) (uq_due_to q) \<and>
     opt_clause (\<lambda>d. col_ge enc (ur_completed_at r) (utc_instant d)) (uq_completed_from q) \<and>
     opt_clause (\<lambda>d. col_less enc (ur_completed_at r) (utc_instant d)) (uq_completed_to q) \<and>
     opt_clause (\<lambda>d. col_ge enc (ur_cancelled_at r) (utc_instant d)) (uq_cancelled_from q) \<and>
     opt_clause (\<lambda>d. col_less enc (ur_cancelled_at r) (utc_instant d)) (uq_cancelled_to q))"

definition overdue_clauses :: "(instant \<Rightarrow> string) \<Rightarrow> bool \<Rightarrow> instant \<Rightarrow> ut_row \<Rightarrow> bool" where
  "overdue_clauses enc overdue now r =
    (ur_status r = UT_ACTIVE \<and>
     (if overdue then col_less enc (ur_due_at r) now else col_ge enc (ur_due_at r) now))"

fun priority_rank :: "ut_priority \<Rightarrow> nat" where
  "priority_rank URGENT = 0"
| "priority_rank HIGH = 1"
| "priority_rank MEDIUM = 2"
| "priority_rank LOW = 3"

definition task_order :: "(instant \<Rightarrow> string) \<Rightarrow> ut_row \<Rightarrow> nat \<times> (bool \<times> string) \<times> string \<times> string" where
  "task_order enc r =
    (priority_rank (ur_priority r), nulls_last enc (ur_due_at r), enc (ur_created_at r), ur_id r)"

definition matching_rows ::
  "(instant \<Rightarrow> string) \<Rightarrow> workspace_key \<Rightarrow> ut_query \<Rightarrow> instant option \<Rightarrow> ut_row list \<Rightarrow> ut_row list" where
  "matching_rows enc key q as_of rows = sort_key (task_order enc)
     (filter (\<lambda>r. owned_by key r \<and> query_clauses enc q r \<and>
        opt_clause (\<lambda>b. opt_clause (\<lambda>now. overdue_clauses enc b now r) as_of) (uq_overdue q)) rows)"

definition task_list ::
  "(instant \<Rightarrow> string) \<Rightarrow> (string \<Rightarrow> bool) \<Rightarrow> exn option \<Rightarrow> workspace_key \<Rightarrow> ut_query \<Rightarrow> instant option \<Rightarrow>
   ut_store \<Rightarrow> (exn + user_task list) \<times> ut_store" where
  "task_list enc zone_ok io key q as_of s =
    (if uq_overdue q \<noteq> None \<and> as_of = None
     then (Inl (Raise UserTaskPersistenceError ''UserTask overdue query requires a resolved as_of''), s)
     else case io of
       Some x \<Rightarrow> task_error x ''UserTask list failed'' s
     | None \<Rightarrow>
         if malformed_metadata key None s
         then (Inl (Raise UserTaskPersistenceError ''UserTask persisted metadata is malformed''), s)
         else if \<not> sql_int (uq_limit q) \<or> \<not> sql_int (uq_offset q)
         then task_error sql_overflow ''UserTask list failed'' s
         else (case decode_rows (task_of_row zone_ok)
                 (sql_page (nat (uq_limit q)) (nat (uq_offset q)) (matching_rows enc key q as_of (us_rows s))) of
                 Inl e \<Rightarrow> task_error e ''UserTask list failed'' s
               | Inr ts \<Rightarrow> task_done ts s))"

text \<open>\<open>update\<close>: one UPDATE under the expected revision; when it touches no row, a second
  statement tells a missing task from a conflict.\<close>

definition update_matches :: "workspace_key \<Rightarrow> string \<Rightarrow> int \<Rightarrow> ut_row \<Rightarrow> bool" where
  "update_matches key i expected r = (ur_id r = i \<and> ur_revision r = expected \<and> owned_by key r)"

definition task_update ::
  "exn option \<Rightarrow> workspace_key \<Rightarrow> user_task \<Rightarrow> int \<Rightarrow> ut_store \<Rightarrow> (exn + user_task) \<times> ut_store" where
  "task_update io key t expected s =
    (let updated = t\<lparr>ut_revision := expected + 1\<rparr>;
         hits = update_matches key (ut_id t) expected in
     case io of
       Some x \<Rightarrow> task_error x ''UserTask update failed'' s
     | None \<Rightarrow>
         if malformed_metadata key (Some (ut_id t)) s
         then task_error (Raise UserTaskPersistenceError []) ''UserTask update failed'' s
         else if \<not> sql_int expected \<or> \<not> sql_int (expected + 1)
         then task_error sql_overflow ''UserTask update failed'' s
         else if rowcount hits (us_rows s) \<noteq> 1
         then (if list_ex (\<lambda>r. ur_id r = ut_id t \<and> owned_by key r) (us_rows s)
               then (Inl (Raise UserTaskConflictError ''UserTask was modified concurrently''), s)
               else (Inl (Raise UserTaskNotFoundError ''UserTask not found''), s))
         else if legacy_taken (ut_legacy_source_id t) (filter (\<lambda>r. \<not> hits r) (us_rows s))
         then task_error (Raise SqliteIntegrityError []) ''UserTask update failed'' s
         else task_done updated
                (s\<lparr>us_rows := update_where hits (\<lambda>_. task_row updated) (us_rows s)\<rparr>))"

definition task_initialize :: "exn option \<Rightarrow> ut_store \<Rightarrow> (exn + unit) \<times> ut_store" where
  "task_initialize io s =
    (case io of
       Some x \<Rightarrow> task_error x ''UserTask repository initialization failed'' s
     | None \<Rightarrow> task_done () (s\<lparr>us_initialized := True\<rparr>))"

definition task_health :: "bool \<Rightarrow> ut_store \<Rightarrow> runtime_status \<times> ut_store" where
  "task_health connection_ok s =
    (if \<not> us_initialized s then (NOT_INITIALIZED, s)
     else if connection_ok then (OK, s\<lparr>us_last_error := None\<rparr>)
     else (STATUS_FAILED, s\<lparr>us_last_error := Some ''health_check_failed''\<rparr>))"

definition task_close :: "ut_store \<Rightarrow> ut_store" where
  "task_close s = s\<lparr>us_initialized := False\<rparr>"

section \<open>Rows and tasks\<close>

lemma row_task_row [simp]: "row_task (ut_metadata t) (task_row t) = t"
  by (cases t) (simp add: row_task_def task_row_def)

lemma task_row_simps [simp]:
  "ur_id (task_row t) = ut_id t" "ur_status (task_row t) = ut_status t"
  "ur_revision (task_row t) = ut_revision t" "ur_metadata (task_row t) = Some (JObj (ut_metadata t))"
  "ur_legacy_source_id (task_row t) = ut_legacy_source_id t" "ur_due_at (task_row t) = ut_due_at t"
  by (simp_all add: task_row_def)

lemma task_of_task_row [simp]: "valid_task zone_ok t \<Longrightarrow> task_of_row zone_ok (task_row t) = Inr t"
  by (simp add: task_of_row_def valid_task_def)

lemma task_of_row_Inr:
  assumes "task_of_row zone_ok r = Inr t"
  shows "valid_task zone_ok t \<and> ur_metadata r = Some (JObj (ut_metadata t)) \<and> ut_id t = ur_id r \<and>
    ut_status t = ur_status r \<and> ut_revision t = ur_revision r \<and> ut_legacy_source_id t = ur_legacy_source_id r"
proof -
  obtain d where d: "ur_metadata r = Some (JObj d)" "validate_task zone_ok (dump_task (row_task d r)) = Inr t"
    using assms by (auto simp: task_of_row_def split: option.splits json.splits)
  from d(2) have "t = task_of_values (dump_task (row_task d r))" by (simp add: validate_task_Inr)
  with validated_task_valid [OF d(2)] d(1) show ?thesis by (simp add: task_dump) (simp add: row_task_def)
qed

lemma task_error_rows [simp]: "us_rows (snd (task_error e m s)) = us_rows s"
  "task_error e m s \<noteq> (Inr x, s')"
  by (simp_all add: task_error_def)

lemma task_done_simps [simp]: "task_done x s = (Inr y, s') \<longleftrightarrow> y = x \<and> s' = s\<lparr>us_last_error := None\<rparr>"
  "task_done x s \<noteq> (Inl e, s')"
  by (auto simp: task_done_def)

section \<open>What a call does to the table\<close>

text \<open>A task in the metadata of which a service wrote the canonical workspace is owned by it.\<close>

lemma py_strip_shorter: "length (py_strip (CHR 0x20 # s)) < length (CHR 0x20 # s)"
proof -
  let ?t = "CHR 0x20 # s"
  have "\<exists>w \<in> set py_spaces. w \<noteq> [] \<and> starts_with w ?t"
    by (rule bexI [of _ "[CHR 0x20]"]) (simp_all add: py_spaces_def starts_with_def)
  then obtain w where w: "find (\<lambda>w. w \<noteq> [] \<and> starts_with w ?t) py_spaces = Some w" "w \<noteq> []"
    by (cases "find (\<lambda>w. w \<noteq> [] \<and> starts_with w ?t) py_spaces")
      (auto simp: find_None_iff find_Some_iff)
  obtain k where "chop py_spaces (drop (length w) ?t) = drop k (drop (length w) ?t)"
    using chop_suffix by blast
  then have l: "py_lstrip ?t = drop k (drop (length w) ?t)"
    by (simp add: py_lstrip_def chop.simps [of py_spaces ?t] w)
  moreover obtain j where "py_rstrip (py_lstrip ?t) = take j (py_lstrip ?t)"
    using py_rstrip_take by blast
  ultimately have "length (py_strip ?t) \<le> length (drop (length w) ?t)"
    by (simp add: py_strip_def)
  with w(2) show ?thesis by (cases w) simp_all
qed

lemma stripped_text [simp]: "\<not> list_all (\<lambda>c. c = CHR 0x20) (str_or (py_strip u) ''default'')"
proof (cases "py_strip u")
  case (Cons c v)
  then have "c \<noteq> CHR 0x20"
    using py_strip_shorter [of v] py_strip_idem [of u] by auto
  with Cons show ?thesis by simp
qed simp

lemma canonical_owned:
  "complete_workspace (JObj (dict_set ''workspace'' (JObj (canonical_workspace_metadata key)) d)) =
     Some (workspace_identity key)"
  by (simp add: canonical_workspace_metadata_def workspace_identity_def identity_of_def
      normalize_workspace_key_def)

lemma task_get_rows [simp]: "us_rows (snd (task_get zone_ok io key i s)) = us_rows s"
  by (simp add: task_get_def task_done_def split: option.split sum.split)

lemma task_get_success:
  assumes "task_get zone_ok io key i s = (Inr t, s')"
  shows "\<exists>r \<in> set (us_rows s). ur_id r = i \<and> owned_by key r \<and> task_of_row zone_ok r = Inr t"
  using assms by (fastforce simp: task_get_def find_Some_iff split: option.splits if_splits sum.splits)

lemma task_list_rows [simp]: "us_rows (snd (task_list enc zone_ok io key q as_of s)) = us_rows s"
  by (simp add: task_list_def task_done_def split: option.split sum.split)

lemma task_create_cases:
  assumes "task_create io t s = (res, s')"
  obtains (failed) e where "res = Inl e" "us_rows s' = us_rows s"
    | (stored) "res = Inr t" "io = None" "us_rows s' = us_rows s @ [task_row t]"
        "row_of ur_id (ut_id t) (us_rows s) = None" "\<not> legacy_taken (ut_legacy_source_id t) (us_rows s)"
        "sql_int (ut_revision t)"
  using assms
  by (auto simp: task_create_def Let_def task_error_def task_done_def split: option.splits if_splits)

lemma update_matches_alone:
  assumes "keyed ur_id rows" "row_of ur_id i rows = Some r" "ur_revision r = n" "owned_by key r"
  shows "update_where (update_matches key i n) f rows = update_where (\<lambda>r. ur_id r = i) f rows"
    and "filter (\<lambda>r. \<not> update_matches key i n r) rows = filter (\<lambda>r. ur_id r \<noteq> i) rows"
proof -
  have "update_matches key i n x \<longleftrightarrow> ur_id x = i" if "x \<in> set rows" for x
    using keyed_unique [OF assms(1) that, of r] row_of_Some [OF assms(2)] assms(3,4)
    by (auto simp: update_matches_def)
  then show "update_where (update_matches key i n) f rows = update_where (\<lambda>r. ur_id r = i) f rows"
    and "filter (\<lambda>r. \<not> update_matches key i n r) rows = filter (\<lambda>r. ur_id r \<noteq> i) rows"
    by (auto simp: update_where_def intro: filter_cong)
qed

lemma rowcount_update:
  "keyed ur_id rows \<Longrightarrow> rowcount (update_matches key i n) rows =
    (case row_of ur_id i rows of None \<Rightarrow> 0 | Some r \<Rightarrow> if ur_revision r = n \<and> owned_by key r then 1 else 0)"
  using rowcount_keyed [of ur_id rows "update_matches key i n" i] row_of_Some [of ur_id i rows]
  by (auto simp: update_matches_def split: option.splits)

lemma task_update_failure: "task_update io key t n s = (Inl e, s') \<Longrightarrow> us_rows s' = us_rows s"
  by (auto simp: task_update_def Let_def task_error_def split: option.splits if_splits)

lemma task_update_success:
  assumes keyed: "keyed ur_id (us_rows s)" and run: "task_update io key t n s = (Inr u, s')"
  obtains r where "row_of ur_id (ut_id t) (us_rows s) = Some r" "ur_revision r = n" "owned_by key r"
    "u = t\<lparr>ut_revision := n + 1\<rparr>" "io = None"
    "\<not> legacy_taken (ut_legacy_source_id t) (filter (\<lambda>r. ur_id r \<noteq> ut_id t) (us_rows s))"
    "us_rows s' = update_where (\<lambda>r. ur_id r = ut_id t) (\<lambda>_. task_row u) (us_rows s)"
proof -
  let ?hits = "update_matches key (ut_id t) n"
  from run have io: "io = None" by (cases io) (simp_all add: task_update_def Let_def)
  with run have run': "task_update None key t n s = (Inr u, s')" by simp
  then have one: "rowcount ?hits (us_rows s) = 1"
    and free: "\<not> legacy_taken (ut_legacy_source_id t) (filter (\<lambda>r. \<not> ?hits r) (us_rows s))"
    and commit: "task_done (t\<lparr>ut_revision := n + 1\<rparr>)
        (s\<lparr>us_rows := update_where ?hits (\<lambda>_. task_row (t\<lparr>ut_revision := n + 1\<rparr>)) (us_rows s)\<rparr>) = (Inr u, s')"
    unfolding task_update_def Let_def by (simp_all split: if_split_asm)
  from commit have u: "u = t\<lparr>ut_revision := n + 1\<rparr>"
    and rows: "us_rows s' = update_where ?hits (\<lambda>_. task_row u) (us_rows s)" by simp_all
  have "\<exists>r. row_of ur_id (ut_id t) (us_rows s) = Some r \<and> ur_revision r = n \<and> owned_by key r"
    using trans [OF rowcount_update [OF keyed, of key "ut_id t" n, symmetric] one]
    by (cases "row_of ur_id (ut_id t) (us_rows s)") (simp_all split: if_split_asm)
  then obtain r where
    r: "row_of ur_id (ut_id t) (us_rows s) = Some r" "ur_revision r = n" "owned_by key r" by blast
  have "\<not> legacy_taken (ut_legacy_source_id t) (filter (\<lambda>r. ur_id r \<noteq> ut_id t) (us_rows s))"
    using free update_matches_alone(2) [OF keyed r] by simp
  then show ?thesis
    by (rule that [OF r u io]) (simp add: rows update_matches_alone(1) [OF keyed r])
qed

section \<open>The table's invariant\<close>

text \<open>
  Identifiers are unique, legacy identifiers are unique, and every row is what the repository
  writes for a valid task.
\<close>

definition tasks_ok :: "(string \<Rightarrow> bool) \<Rightarrow> ut_row list \<Rightarrow> bool" where
  "tasks_ok zone_ok rows =
    (keyed ur_id rows \<and>
     (\<forall>r \<in> set rows. \<exists>t. valid_task zone_ok t \<and> r = task_row t) \<and>
     (\<forall>r \<in> set rows. \<forall>r' \<in> set rows. ur_legacy_source_id r \<noteq> None \<longrightarrow>
        ur_legacy_source_id r = ur_legacy_source_id r' \<longrightarrow> ur_id r = ur_id r'))"

lemma tasks_ok_keyed: "tasks_ok zone_ok rows \<Longrightarrow> keyed ur_id rows"
  by (simp add: tasks_ok_def)

lemma tasks_ok_row:
  assumes "tasks_ok zone_ok rows" "r \<in> set rows"
  obtains t where "valid_task zone_ok t" "r = task_row t" "task_of_row zone_ok r = Inr t"
proof -
  from assms obtain t where "valid_task zone_ok t" "r = task_row t"
    unfolding tasks_ok_def by blast
  then show ?thesis by (intro that [of t]) simp_all
qed

lemma tasks_ok_legacy:
  assumes "tasks_ok zone_ok rows" "r \<in> set rows" "x \<in> set rows" "ur_legacy_source_id r \<noteq> None"
    "ur_legacy_source_id x = ur_legacy_source_id r"
  shows "ur_id x = ur_id r"
proof -
  have "\<forall>r \<in> set rows. \<forall>r' \<in> set rows. ur_legacy_source_id r \<noteq> None \<longrightarrow>
      ur_legacy_source_id r = ur_legacy_source_id r' \<longrightarrow> ur_id r = ur_id r'"
    using assms(1) unfolding tasks_ok_def by (elim conjE)
  from this [rule_format, OF assms(2-4) assms(5) [symmetric]] show ?thesis by (rule sym)
qed

lemma tasks_okI:
  assumes "keyed ur_id rows"
    and "\<And>r. r \<in> set rows \<Longrightarrow> \<exists>t. valid_task zone_ok t \<and> r = task_row t"
    and "\<And>r r'. r \<in> set rows \<Longrightarrow> r' \<in> set rows \<Longrightarrow> ur_legacy_source_id r \<noteq> None \<Longrightarrow>
      ur_legacy_source_id r = ur_legacy_source_id r' \<Longrightarrow> ur_id r = ur_id r'"
  shows "tasks_ok zone_ok rows"
  unfolding tasks_ok_def using assms(1)
  by (intro conjI ballI impI) (assumption, rule assms(2), assumption, rule assms(3))

lemma tasks_ok_metadata: "tasks_ok zone_ok rows \<Longrightarrow> r \<in> set rows \<Longrightarrow> ur_metadata r \<noteq> None"
  by (erule (1) tasks_ok_row) simp

lemma tasks_ok_Nil [simp]: "tasks_ok zone_ok []"
  by (simp add: tasks_ok_def)

text \<open>Rows of an old table beside one row that has a legacy identifier of its own.\<close>

lemma legacy_kept:
  assumes ok: "tasks_ok zone_ok rows"
    and free: "\<And>x. x \<in> set rows \<Longrightarrow> ur_id x \<noteq> ur_id new \<Longrightarrow> ur_legacy_source_id new \<noteq> None \<Longrightarrow>
      ur_legacy_source_id x \<noteq> ur_legacy_source_id new"
    and r: "r = new \<or> r \<in> set rows" and r': "r' = new \<or> r' \<in> set rows"
    and legacy: "ur_legacy_source_id r \<noteq> None" and same: "ur_legacy_source_id r = ur_legacy_source_id r'"
  shows "ur_id r = ur_id r'"
  using r
proof
  assume "r = new"
  from r' show ?thesis
  proof
    assume "r' \<in> set rows"
    from free [OF this] legacy same \<open>r = new\<close> show ?thesis
      by (cases "ur_id r' = ur_id new") simp_all
  qed (simp add: \<open>r = new\<close>)
next
  assume r: "r \<in> set rows"
  from r' show ?thesis
  proof
    assume "r' = new"
    with free [OF r] legacy same show ?thesis by (cases "ur_id r = ur_id new") simp_all
  next
    assume "r' \<in> set rows"
    from tasks_ok_legacy [OF ok r this legacy same [symmetric]] show ?thesis by (rule sym)
  qed
qed

lemma tasks_ok_added:
  assumes ok: "tasks_ok zone_ok rows" and valid: "valid_task zone_ok t"
    and new: "row_of ur_id (ut_id t) rows = None" "\<not> legacy_taken (ut_legacy_source_id t) rows"
  shows "tasks_ok zone_ok (rows @ [task_row t])"
proof (rule tasks_okI)
  show "keyed ur_id (rows @ [task_row t])"
    using tasks_ok_keyed [OF ok] new(1) by simp
  show "\<exists>t'. valid_task zone_ok t' \<and> r = task_row t'" if "r \<in> set (rows @ [task_row t])" for r
    using that ok valid by (auto simp: tasks_ok_def)
  show "ur_id r = ur_id r'" if "r \<in> set (rows @ [task_row t])" "r' \<in> set (rows @ [task_row t])"
    "ur_legacy_source_id r \<noteq> None" "ur_legacy_source_id r = ur_legacy_source_id r'" for r r'
    by (rule legacy_kept [OF ok _ _ _ that(3,4), of "task_row t"])
      (use new(2) that(1,2) in \<open>auto simp: legacy_taken_def list_ex_iff\<close>)
qed

lemma tasks_ok_replaced:
  assumes ok: "tasks_ok zone_ok rows" and valid: "valid_task zone_ok t"
    and free: "\<not> legacy_taken (ut_legacy_source_id t) (filter (\<lambda>r. ur_id r \<noteq> ut_id t) rows)"
  shows "tasks_ok zone_ok (update_where (\<lambda>r. ur_id r = ut_id t) (\<lambda>_. task_row t) rows)"
proof (rule tasks_okI)
  let ?new = "update_where (\<lambda>r. ur_id r = ut_id t) (\<lambda>_. task_row t) rows"
  have mem: "r = task_row t \<or> r \<in> set rows" if "r \<in> set ?new" for r
    using that by (auto simp: set_update_where split: if_splits)
  show "keyed ur_id ?new"
    by (rule keyed_update_where [OF _ tasks_ok_keyed [OF ok]]) simp
  show "\<exists>t'. valid_task zone_ok t' \<and> r = task_row t'" if "r \<in> set ?new" for r
    using mem [OF that] ok valid by (auto simp: tasks_ok_def)
  show "ur_id r = ur_id r'" if "r \<in> set ?new" "r' \<in> set ?new"
    "ur_legacy_source_id r \<noteq> None" "ur_legacy_source_id r = ur_legacy_source_id r'" for r r'
    by (rule legacy_kept [OF ok _ mem [OF that(1)] mem [OF that(2)] that(3,4)])
      (use free in \<open>auto simp: legacy_taken_def list_ex_iff\<close>)
qed

text \<open>No row is malformed, and a write under the stored revision goes through.\<close>

lemma tasks_ok_not_malformed: "tasks_ok zone_ok (us_rows s) \<Longrightarrow> \<not> malformed_metadata key i s"
  using tasks_ok_metadata by (fastforce simp: malformed_metadata_def list_ex_iff)

lemma task_get_total:
  assumes ok: "tasks_ok zone_ok (us_rows s)" and row: "row_of ur_id (ut_id t) (us_rows s) = Some (task_row t)"
    and "valid_task zone_ok t" "owned_by key (task_row t)"
  shows "task_get zone_ok None key (ut_id t) s = (Inr t, s\<lparr>us_last_error := None\<rparr>)"
proof -
  have "find (\<lambda>r. ur_id r = ut_id t \<and> owned_by key r) rows = Some (task_row t)"
    if "row_of ur_id (ut_id t) rows = Some (task_row t)" for rows
    using that assms(4) by (induction rows) (auto split: if_splits)
  from this [OF row] assms(3) show ?thesis
    by (simp add: task_get_def tasks_ok_not_malformed [OF ok] task_done_def)
qed

lemma task_update_total:
  assumes ok: "tasks_ok zone_ok (us_rows s)" and row: "row_of ur_id (ut_id t) (us_rows s) = Some r"
    and r: "ur_revision r = n" "owned_by key r" "ur_legacy_source_id r = ut_legacy_source_id t"
    and n: "sql_int n" "sql_int (n + 1)"
  shows "\<exists>s'. task_update None key t n s = (Inr (t\<lparr>ut_revision := n + 1\<rparr>), s') \<and>
    us_rows s' = update_where (\<lambda>r. ur_id r = ut_id t) (\<lambda>_. task_row (t\<lparr>ut_revision := n + 1\<rparr>)) (us_rows s)"
proof -
  let ?hits = "update_matches key (ut_id t) n"
  have one: "rowcount ?hits (us_rows s) = 1"
    using rowcount_update [OF tasks_ok_keyed [OF ok], of key "ut_id t" n] row r by simp
  have "\<not> legacy_taken (ut_legacy_source_id t) (filter (\<lambda>r. ur_id r \<noteq> ut_id t) (us_rows s))"
    using tasks_ok_legacy [OF ok, of r] row_of_Some [OF row] r(3)
    by (auto simp: legacy_taken_def list_ex_iff)
  with one n tasks_ok_not_malformed [OF ok] update_matches_alone [OF tasks_ok_keyed [OF ok] row r(1,2)]
  show ?thesis by (simp add: task_update_def Let_def)
qed

section \<open>The repository as a versioned store\<close>

definition stored_task :: "ut_store \<Rightarrow> string \<Rightarrow> ut_row option" where
  "stored_task s i = row_of ur_id i (us_rows s)"

type_synonym ut_write = "exn option \<times> workspace_key \<times> user_task"

definition written_id :: "ut_write \<Rightarrow> string" where
  "written_id x = (case x of (io, key, t) \<Rightarrow> ut_id t)"

definition written_row :: "int \<Rightarrow> ut_write \<Rightarrow> ut_row" where
  "written_row n x = (case x of (io, key, t) \<Rightarrow> task_row (t\<lparr>ut_revision := n + 1\<rparr>))"

definition attempt_update :: "int \<Rightarrow> ut_write \<Rightarrow> ut_store \<Rightarrow> (exn + user_task) \<times> ut_store" where
  "attempt_update n x s = (case x of (io, key, t) \<Rightarrow> task_update io key t n s)"

definition keyed_tasks :: "ut_store \<Rightarrow> bool" where
  "keyed_tasks s = keyed ur_id (us_rows s)"

lemmas task_write_defs =
  stored_task_def written_id_def written_row_def attempt_update_def keyed_tasks_def

lemma attempt_update_success:
  assumes "keyed_tasks s" "attempt_update n x s = (Inr u, s')"
  shows "\<exists>r. stored_task s (written_id x) = Some r \<and> ur_revision r = n"
    and "us_rows s' = update_where (\<lambda>r. ur_id r = written_id x) (\<lambda>_. written_row n x) (us_rows s)"
proof -
  obtain io key t where x: "x = (io, key, t)" by (cases x)
  from assms show "\<exists>r. stored_task s (written_id x) = Some r \<and> ur_revision r = n"
    unfolding x task_write_defs prod.case by (rule task_update_success) blast
  from assms show "us_rows s' = update_where (\<lambda>r. ur_id r = written_id x) (\<lambda>_. written_row n x) (us_rows s)"
    unfolding x task_write_defs prod.case by (rule task_update_success) simp
qed

lemma attempt_update_failure: "attempt_update n x s = (Inl e, s') \<Longrightarrow> us_rows s' = us_rows s"
  by (auto simp: attempt_update_def split: prod.splits dest: task_update_failure)

lemma written_simps [simp]: "ur_id (written_row n x) = written_id x" "ur_revision (written_row n x) = n + 1"
  by (cases x; simp add: task_write_defs)+

interpretation ut: versioned_store stored_task written_id written_row ur_revision attempt_update keyed_tasks
proof unfold_locales
  fix s :: ut_store and r x y s'
  assume ok: "keyed_tasks s" and run: "attempt_update r x s = (Inr y, s')"
  show found: "\<exists>i. stored_task s (written_id x) = Some i \<and> ur_revision i = r"
    by (rule attempt_update_success(1) [OF ok run])
  then show "stored_task s' (written_id x) = Some (written_row r x)"
    using attempt_update_success(2) [OF ok run] row_of_Some [of ur_id "written_id x" "us_rows s"]
    by (auto simp: stored_task_def row_of_update_where)
  show "ur_revision (written_row r x) = r + 1" by simp
next
  fix s :: ut_store and r x e s' k
  assume "attempt_update r x s = (Inl e, s')"
  then show "stored_task s' k = stored_task s k"
    by (simp add: stored_task_def attempt_update_failure)
next
  fix s :: ut_store and r x res s' k
  assume ok: "keyed_tasks s" and run: "attempt_update r x s = (res, s')"
  have "(k \<noteq> written_id x \<longrightarrow> stored_task s' k = stored_task s k) \<and> keyed_tasks s'"
  proof (cases res)
    case (Inl e)
    with ok run show ?thesis by (simp add: stored_task_def keyed_tasks_def attempt_update_failure)
  next
    case (Inr y)
    note rows = attempt_update_success(2) [OF ok run [unfolded Inr]]
    from ok have "keyed_tasks s'" by (simp add: keyed_tasks_def rows keyed_update_where)
    moreover have "stored_task s' k = stored_task s k" if "k \<noteq> written_id x"
      using that row_of_Some [of ur_id k "us_rows s"]
      by (cases "row_of ur_id k (us_rows s)") (auto simp: stored_task_def rows row_of_update_where)
    ultimately show ?thesis by blast
  qed
  then show "k \<noteq> written_id x \<Longrightarrow> stored_task s' k = stored_task s k" and "keyed_tasks s'" by blast+
qed

end
