(* ===== verification/UserTask_Service.thy ===== *)
theory UserTask_Service
  imports UserTask_Store
begin

text \<open>
  \<open>core/user_tasks/service.py\<close>: the operations of the service over the repository.  A call
  threads the state of the service; its surroundings are a record: the reading of the clock, the
  failures of SQLite, what the event bus does with the message of a success and with the message
  of a failure, what the lifecycle coordinator does, and the UUID drawn for an identifier.
  \<open>san\<close> is \<open>sanitize_text\<close>.  The import of legacy memories is not modelled.
\<close>

section \<open>Surroundings and state\<close>

datatype coordination = Not_Coordinated | Coordinated | Coordination_Raises exn

record ut_env =
  ue_now :: datetime
  ue_read_io :: "exn option"
  ue_write_io :: "exn option"
  ue_bus :: bus_mode
  ue_bus_failed :: bus_mode
  ue_coordinator :: coordination
  ue_uuid :: string

record ut_message =
  um_topic :: string
  um_task :: string
  um_status :: string
  um_trace :: string

record ut_service =
  us_store :: ut_store
  us_degraded :: bool
  us_lifecycle_degraded :: bool
  us_published :: "ut_message list"

type_synonym 'a ut_call = "ut_service \<Rightarrow> (exn + 'a) \<times> ut_service"

definition on_tasks :: "(ut_store \<Rightarrow> (exn + 'a) \<times> ut_store) \<Rightarrow> 'a ut_call" where
  "on_tasks m s = (case m (us_store s) of (r, st) \<Rightarrow> (r, s\<lparr>us_store := st\<rparr>))"

definition liftS :: "exn + 'a \<Rightarrow> 'a ut_call" where
  "liftS r s = (r, s)"

definition ut_publish :: "bus_mode \<Rightarrow> string \<Rightarrow> string \<Rightarrow> string \<Rightarrow> string \<Rightarrow> unit ut_call" where
  "ut_publish b topic i tr status s =
    (case b of
       Bus_Off \<Rightarrow> (Inr (), s)
     | Bus_Accepts \<Rightarrow> (Inr (), s\<lparr>us_published := us_published s @
         [\<lparr>um_topic = topic, um_task = i, um_status = status, um_trace = tr\<rparr>]\<rparr>)
     | Bus_Raises x \<Rightarrow> (Inl x, s))"

text \<open>\<open>_raise\<close>\<close>

definition task_category :: "exn \<Rightarrow> error_category" where
  "task_category e =
    (if has_class [UserTaskNotFoundError] e then NOT_FOUND
     else if has_class [UserTaskConflictError] e then CONFLICT
     else if is_value_error e then VALIDATION
     else PERSISTENCE_FAILURE)"

definition task_failure :: "(string \<Rightarrow> string) \<Rightarrow> string \<Rightarrow> string \<Rightarrow> exn \<Rightarrow> exn" where
  "task_failure san operation tr e =
    (let c = task_category e in
     Failed ((failure_from_exception san e ''user_tasks'' operation tr
        (Some (''user_tasks.'' @ operation @ ''.'' @ category_value c)) (Some c)
        (Some (c = PERSISTENCE_FAILURE)) [])
        \<lparr>fi_message := ''UserTask '' @ operation @ '' failed''\<rparr>))"

text \<open>The \<open>except\<close> block of the operations: publish, which may itself raise, then raise.\<close>

definition failing :: "ut_env \<Rightarrow> (string \<Rightarrow> string) \<Rightarrow> string \<Rightarrow> string \<Rightarrow> string \<Rightarrow> exn \<Rightarrow> 'a ut_call" where
  "failing env san operation i tr e =
    bindS (ut_publish (ue_bus_failed env) ''user_task.failed'' i tr ''failed'')
      (\<lambda>_. failS (task_failure san operation tr e))"

definition ut_now :: "ut_env \<Rightarrow> exn + instant" where
  "ut_now env =
    (if is_naive (ue_now env) then Inl (Raise ValueError ''clock now() must include timezone information'')
     else Inr (utc_instant (ue_now env)))"

definition ut_as_of :: "datetime option \<Rightarrow> exn + instant option" where
  "ut_as_of v =
    (case v of
       None \<Rightarrow> Inr None
     | Some d \<Rightarrow>
         if is_naive d then Inl (Raise ValueError ''as_of must include timezone information'')
         else Inr (Some (utc_instant d)))"

definition ut_is_overdue :: "ut_env \<Rightarrow> user_task \<Rightarrow> datetime option \<Rightarrow> exn + bool" where
  "ut_is_overdue env t as_of =
    bindR (ut_as_of as_of) (\<lambda>v.
      bindR (case v of Some i \<Rightarrow> Inr i | None \<Rightarrow> ut_now env) (\<lambda>i. Inr (task_overdue t i)))"

definition ut_coordinate :: "ut_env \<Rightarrow> unit ut_call" where
  "ut_coordinate env s =
    (case ue_coordinator env of
       Not_Coordinated \<Rightarrow> (Inr (), s)
     | Coordinated \<Rightarrow> (Inr (), s\<lparr>us_lifecycle_degraded := False\<rparr>)
     | Coordination_Raises x \<Rightarrow> (Inl x, s\<lparr>us_lifecycle_degraded := True\<rparr>))"

definition ut_initialize :: "ut_env \<Rightarrow> (string \<Rightarrow> string) \<Rightarrow> unit ut_call" where
  "ut_initialize env san =
    catchS (on_tasks (task_initialize (ue_write_io env))) (failing env san ''initialize'' ''repository'' [])"

definition ut_close :: "ut_service \<Rightarrow> ut_service" where
  "ut_close s = s\<lparr>us_store := task_close (us_store s)\<rparr>"

text \<open>The two flags accompany the status \<open>degraded\<close>.\<close>

definition ut_health :: "bool \<Rightarrow> ut_service \<Rightarrow> (runtime_status \<times> (bool \<times> bool) option) \<times> ut_service" where
  "ut_health connection_ok s =
    (case task_health connection_ok (us_store s) of
       (st, store) \<Rightarrow>
         ((if st = OK \<and> (us_degraded s \<or> us_lifecycle_degraded s)
           then (DEGRADED, Some (us_degraded s, us_lifecycle_degraded s)) else (st, None)),
          s\<lparr>us_store := store\<rparr>))"

section \<open>Operations\<close>

record ut_new =
  un_key :: workspace_key
  un_title :: string
  un_description :: string
  un_priority :: ut_priority
  un_due_at :: "datetime option"
  un_timezone :: string
  un_status :: ut_status
  un_created_at :: "datetime option"
  un_completed_at :: "datetime option"
  un_cancelled_at :: "datetime option"
  un_source :: string
  un_session_id :: string
  un_agent_id :: string
  un_trace_id :: string
  un_metadata :: "dict option"
  un_id :: "string option"
  un_legacy_source_id :: "string option"

definition workspace_metadata :: "workspace_key \<Rightarrow> dict \<Rightarrow> dict" where
  "workspace_metadata key d = dict_set ''workspace'' (JObj (canonical_workspace_metadata key)) d"

text \<open>\<open>task_id\<close> of the keyword argument, unless it is missing or empty.\<close>

definition given_id :: "string option \<Rightarrow> string \<Rightarrow> string" where
  "given_id v d = (case v of None \<Rightarrow> d | Some i \<Rightarrow> str_or i d)"

definition new_values :: "ut_env \<Rightarrow> ut_new \<Rightarrow> datetime \<Rightarrow> ut_values" where
  "new_values env q created =
    \<lparr>uv_id = given_id (un_id q) (''ut_'' @ ue_uuid env), uv_title = un_title q,
     uv_description = un_description q, uv_status = un_status q, uv_priority = un_priority q,
     uv_due_at = un_due_at q, uv_timezone = un_timezone q, uv_created_at = created,
     uv_updated_at = created, uv_completed_at = un_completed_at q,
     uv_cancelled_at = un_cancelled_at q, uv_source = un_source q,
     uv_session_id = un_session_id q, uv_agent_id = un_agent_id q, uv_trace_id = un_trace_id q,
     uv_metadata = workspace_metadata (normalize_workspace_key (un_key q))
       (case un_metadata q of None \<Rightarrow> [] | Some d \<Rightarrow> d),
     uv_legacy_source_id = un_legacy_source_id q, uv_revision = 1\<rparr>"

definition ut_create ::
  "(string \<Rightarrow> bool) \<Rightarrow> (string \<Rightarrow> string) \<Rightarrow> ut_env \<Rightarrow> ut_new \<Rightarrow> user_task ut_call" where
  "ut_create zone_ok san env q =
    catchS
      (bindS (liftS (case un_created_at q of Some d \<Rightarrow> Inr d | None \<Rightarrow> bindR (ut_now env) (\<lambda>i. Inr (Aware i 0))))
        (\<lambda>created. bindS (liftS (validate_task zone_ok (new_values env q created)))
          (\<lambda>t. bindS (on_tasks (task_create (ue_write_io env) t))
            (\<lambda>r. bindS (ut_publish (ue_bus env) ''user_task.created'' (ut_id r) (un_trace_id q) ''ok'')
              (\<lambda>_. retS r)))))
      (failing env san ''create'' (given_id (un_id q) ''validation'') (un_trace_id q))"

definition ut_get ::
  "(string \<Rightarrow> bool) \<Rightarrow> (string \<Rightarrow> string) \<Rightarrow> ut_env \<Rightarrow> workspace_key \<Rightarrow> string \<Rightarrow> string \<Rightarrow> user_task ut_call" where
  "ut_get zone_ok san env key i tr =
    catchS (on_tasks (task_get zone_ok (ue_read_io env) (normalize_workspace_key key) i))
      (failing env san ''get'' i tr)"

definition ut_find_visible ::
  "(string \<Rightarrow> bool) \<Rightarrow> (string \<Rightarrow> string) \<Rightarrow> ut_env \<Rightarrow> workspace_key \<Rightarrow> string \<Rightarrow> string \<Rightarrow>
   user_task option ut_call" where
  "ut_find_visible zone_ok san env key i tr =
    catchS (bindS (on_tasks (task_get zone_ok (ue_read_io env) (normalize_workspace_key key) i))
        (\<lambda>t. retS (Some t)))
      (\<lambda>e. if has_class [UserTaskNotFoundError] e then retS None else failS (task_failure san ''get'' tr e))"

text \<open>The filters of \<open>list\<close> as given: a query model, or raw filters (limit and offset apart).\<close>

definition raw_query :: "ut_query \<Rightarrow> int option \<Rightarrow> int option \<Rightarrow> ut_query" where
  "raw_query f limit offset =
    f\<lparr>uq_limit := (case limit of None \<Rightarrow> 100 | Some n \<Rightarrow> n),
      uq_offset := (case offset of None \<Rightarrow> 0 | Some n \<Rightarrow> n)\<rparr>"

definition raw_filters_given :: "ut_query \<Rightarrow> int option \<Rightarrow> int option \<Rightarrow> bool" where
  "raw_filters_given f limit offset =
    (uq_status f \<noteq> None \<or> uq_priority f \<noteq> None \<or> uq_due_from f \<noteq> None \<or> uq_due_to f \<noteq> None \<or>
     uq_completed_from f \<noteq> None \<or> uq_completed_to f \<noteq> None \<or> uq_cancelled_from f \<noteq> None \<or>
     uq_cancelled_to f \<noteq> None \<or> uq_overdue f \<noteq> None \<or> limit \<noteq> None \<or> offset \<noteq> None)"

definition resolve_query :: "ut_query option \<Rightarrow> ut_query \<Rightarrow> int option \<Rightarrow> int option \<Rightarrow> exn + ut_query" where
  "resolve_query given f limit offset =
    (case given of
       None \<Rightarrow> validate_query (raw_query f limit offset)
     | Some q \<Rightarrow>
         if raw_filters_given f limit offset
         then Inl (Raise ValueError ''query model and raw filters are mutually exclusive'')
         else Inr q)"

definition ut_list ::
  "(instant \<Rightarrow> string) \<Rightarrow> (string \<Rightarrow> bool) \<Rightarrow> (string \<Rightarrow> string) \<Rightarrow> ut_env \<Rightarrow> workspace_key \<Rightarrow>
   ut_query option \<Rightarrow> ut_query \<Rightarrow> int option \<Rightarrow> int option \<Rightarrow> datetime option \<Rightarrow> string \<Rightarrow> user_task list ut_call" where
  "ut_list enc zone_ok san env key given f limit offset as_of tr =
    catchS
      (bindS (liftS (resolve_query given f limit offset))
        (\<lambda>q. bindS (liftS (ut_as_of as_of))
          (\<lambda>v. bindS (liftS (if uq_overdue q \<noteq> None \<and> v = None then bindR (ut_now env) (\<lambda>i. Inr (Some i)) else Inr v))
            (\<lambda>at. on_tasks (task_list enc zone_ok (ue_read_io env) (normalize_workspace_key key) q at)))))
      (failing env san ''list'' ''query'' tr)"

record ut_changes =
  uc_title :: "string option"
  uc_description :: "string option"
  uc_priority :: "ut_priority option"
  uc_due_at :: "datetime option option"
  uc_timezone :: "string option"
  uc_metadata :: "dict option"

definition or_old :: "'v option \<Rightarrow> 'v \<Rightarrow> 'v" where
  "or_old v old = (case v of None \<Rightarrow> old | Some x \<Rightarrow> x)"

definition changed_values :: "workspace_key \<Rightarrow> instant \<Rightarrow> string \<Rightarrow> ut_changes \<Rightarrow> user_task \<Rightarrow> ut_values" where
  "changed_values key now tr c t = (dump_task t)
    \<lparr>uv_updated_at := Aware now 0, uv_trace_id := str_or tr (ut_trace_id t),
     uv_title := or_old (uc_title c) (ut_title t),
     uv_description := or_old (uc_description c) (ut_description t),
     uv_priority := or_old (uc_priority c) (ut_priority t),
     uv_timezone := or_old (uc_timezone c) (ut_timezone t),
     uv_metadata := (case uc_metadata c of None \<Rightarrow> ut_metadata t | Some d \<Rightarrow> workspace_metadata key d),
     uv_due_at := (case uc_due_at c of None \<Rightarrow> uv_due_at (dump_task t) | Some v \<Rightarrow> v)\<rparr>"

text \<open>The body of the \<open>try\<close> of the writing operations: the CAS update, then the message.\<close>

definition store_and_publish ::
  "ut_env \<Rightarrow> workspace_key \<Rightarrow> user_task \<Rightarrow> int \<Rightarrow> string \<Rightarrow> string \<Rightarrow> user_task ut_call" where
  "store_and_publish env key t n topic tr =
    bindS (on_tasks (task_update (ue_write_io env) key t n))
      (\<lambda>r. bindS (ut_publish (ue_bus env) topic (ut_id r) tr ''ok'') (\<lambda>_. retS r))"

definition ut_update ::
  "(string \<Rightarrow> bool) \<Rightarrow> (string \<Rightarrow> string) \<Rightarrow> ut_env \<Rightarrow> workspace_key \<Rightarrow> string \<Rightarrow> ut_changes \<Rightarrow> int option \<Rightarrow>
   string \<Rightarrow> user_task ut_call" where
  "ut_update zone_ok san env key0 i c expected tr =
    (let key = normalize_workspace_key key0 in
     bindS (ut_get zone_ok san env key i tr) (\<lambda>t.
       if ut_status t \<noteq> UT_ACTIVE
       then failS (task_failure san ''update'' tr (Raise UserTaskConflictError ''terminal task cannot be edited''))
       else bindS (liftS (ut_now env)) (\<lambda>now.
         catchS
           (bindS (liftS (validate_task zone_ok (changed_values key now tr c t)))
             (\<lambda>t'. store_and_publish env key t' (or_old expected (ut_revision t)) ''user_task.updated'' tr))
           (failing env san ''update'' i tr))))"

text \<open>\<open>_transition\<close>; a call that finds the target state already reached only coordinates.\<close>

definition closed_task :: "ut_status \<Rightarrow> instant \<Rightarrow> string \<Rightarrow> user_task \<Rightarrow> user_task" where
  "closed_task target now tr t =
    (let t' = t\<lparr>ut_status := target, ut_updated_at := now, ut_trace_id := str_or tr (ut_trace_id t)\<rparr> in
     if target = UT_COMPLETED then t'\<lparr>ut_completed_at := Some now\<rparr>
     else t'\<lparr>ut_cancelled_at := Some now\<rparr>)"

definition ut_transition ::
  "(string \<Rightarrow> bool) \<Rightarrow> (string \<Rightarrow> string) \<Rightarrow> ut_env \<Rightarrow> workspace_key \<Rightarrow> string \<Rightarrow> ut_status \<Rightarrow> int option \<Rightarrow>
   string \<Rightarrow> user_task ut_call" where
  "ut_transition zone_ok san env key0 i target expected tr =
    (let key = normalize_workspace_key key0; operation = ut_status_value target in
     bindS (ut_get zone_ok san env key i tr) (\<lambda>t.
       if expected \<noteq> None \<and> expected \<noteq> Some (ut_revision t)
       then failing env san operation i tr (Raise UserTaskConflictError ''stale expected_revision'')
       else if ut_status t = target
       then bindS (ut_coordinate env) (\<lambda>_. retS t)
       else if ut_status t \<noteq> UT_ACTIVE
       then failing env san operation i tr (Raise UserTaskConflictError ''invalid terminal state transition'')
       else bindS (liftS (ut_now env)) (\<lambda>now.
         bindS
           (catchS
             (store_and_publish env key (closed_task target now tr t) (or_old expected (ut_revision t))
               (''user_task.'' @ operation) tr)
             (failing env san operation i tr))
           (\<lambda>r. bindS (ut_coordinate env) (\<lambda>_. retS r)))))"

definition ut_complete ::
  "(string \<Rightarrow> bool) \<Rightarrow> (string \<Rightarrow> string) \<Rightarrow> ut_env \<Rightarrow> workspace_key \<Rightarrow> string \<Rightarrow> int option \<Rightarrow> string \<Rightarrow>
   user_task ut_call" where
  "ut_complete zone_ok san env key i expected tr = ut_transition zone_ok san env key i UT_COMPLETED expected tr"

definition ut_cancel ::
  "(string \<Rightarrow> bool) \<Rightarrow> (string \<Rightarrow> string) \<Rightarrow> ut_env \<Rightarrow> workspace_key \<Rightarrow> string \<Rightarrow> int option \<Rightarrow> string \<Rightarrow>
   user_task ut_call" where
  "ut_cancel zone_ok san env key i expected tr = ut_transition zone_ok san env key i UT_CANCELLED expected tr"

definition reopened_task :: "instant \<Rightarrow> user_task \<Rightarrow> user_task" where
  "reopened_task now t =
    t\<lparr>ut_status := UT_ACTIVE, ut_updated_at := now, ut_completed_at := None, ut_cancelled_at := None\<rparr>"

definition ut_reopen ::
  "(string \<Rightarrow> bool) \<Rightarrow> (string \<Rightarrow> string) \<Rightarrow> ut_env \<Rightarrow> workspace_key \<Rightarrow> string \<Rightarrow> string \<Rightarrow> user_task ut_call" where
  "ut_reopen zone_ok san env key0 i tr =
    (let key = normalize_workspace_key key0 in
     bindS (ut_get zone_ok san env key i tr) (\<lambda>t.
       if ut_status t = UT_ACTIVE then retS t
       else bindS (liftS (ut_now env)) (\<lambda>now.
         catchS (store_and_publish env key (reopened_task now t) (ut_revision t) ''user_task.reopened'' tr)
           (failing env san ''reopen'' i tr))))"

section \<open>The table as an abstract system\<close>

text \<open>
  What one call on behalf of a workspace may do to the table: nothing, add a task of that
  workspace in its first revision, or replace a task of that workspace by its next revision,
  when \<open>move\<close> allows it to change the state of this task from the old one to the new one.
\<close>

inductive task_step :: "(string \<Rightarrow> bool) \<Rightarrow> workspace_key \<Rightarrow>
    (string \<Rightarrow> ut_status \<Rightarrow> ut_status \<Rightarrow> bool) \<Rightarrow> ut_row list \<Rightarrow> ut_row list \<Rightarrow> bool"
  for zone_ok :: "string \<Rightarrow> bool" and key :: workspace_key
    and move :: "string \<Rightarrow> ut_status \<Rightarrow> ut_status \<Rightarrow> bool" where
  unchanged: "task_step zone_ok key move rows rows"
| added: "valid_task zone_ok t \<Longrightarrow> owned_by key (task_row t) \<Longrightarrow> ut_revision t = 1 \<Longrightarrow>
    row_of ur_id (ut_id t) rows = None \<Longrightarrow> \<not> legacy_taken (ut_legacy_source_id t) rows \<Longrightarrow>
    task_step zone_ok key move rows (rows @ [task_row t])"
| replaced: "row_of ur_id (ut_id t) rows = Some r \<Longrightarrow> owned_by key r \<Longrightarrow>
    valid_task zone_ok t \<Longrightarrow> owned_by key (task_row t) \<Longrightarrow> ut_revision t = ur_revision r + 1 \<Longrightarrow>
    move (ut_id t) (ur_status r) (ut_status t) \<Longrightarrow>
    \<not> legacy_taken (ut_legacy_source_id t) (filter (\<lambda>r. ur_id r \<noteq> ut_id t) rows) \<Longrightarrow>
    task_step zone_ok key move rows (update_where (\<lambda>r. ur_id r = ut_id t) (\<lambda>_. task_row t) rows)"

inductive_cases task_stepE: "task_step zone_ok key move rows rows'"

lemma task_step_ok: "task_step zone_ok key move rows rows' \<Longrightarrow> tasks_ok zone_ok rows \<Longrightarrow> tasks_ok zone_ok rows'"
  by (erule task_stepE) (simp_all add: tasks_ok_added tasks_ok_replaced)

lemma task_step_foreign:
  assumes "task_step zone_ok key move rows rows'" "keyed ur_id rows"
  shows "filter (\<lambda>r. \<not> owned_by key r) rows' = filter (\<lambda>r. \<not> owned_by key r) rows"
  using assms(1)
proof cases
  case (replaced t r)
  have "owned_by key x" if "x \<in> set rows" "ur_id x = ut_id t" for x
    using keyed_unique [OF assms(2) that(1), of r] that(2) replaced row_of_Some [of ur_id "ut_id t" rows r]
    by simp
  with replaced show ?thesis by (auto intro!: filter_update_where)
qed simp_all

lemma task_step_row:
  assumes "task_step zone_ok key move rows rows'" "row_of ur_id i rows = Some r"
  shows "\<exists>r'. row_of ur_id i rows' = Some r' \<and>
    (r' = r \<or> ur_revision r' = ur_revision r + 1 \<and> move i (ur_status r) (ur_status r') \<and> owned_by key r)"
  using assms(1)
proof cases
  case (replaced t x)
  then show ?thesis
    using assms(2) row_of_Some [OF assms(2)] by (cases "ut_id t = i") (simp_all add: row_of_update_where)
qed (use assms(2) in simp_all)

section \<open>Every call is a step\<close>

abbreviation us_table :: "ut_service \<Rightarrow> ut_row list" where
  "us_table s \<equiv> us_rows (us_store s)"

definition quiet :: "'a ut_call \<Rightarrow> bool" where
  "quiet m = (\<forall>s. us_table (snd (m s)) = us_table s)"

lemma quietD [simp]: "quiet m \<Longrightarrow> us_table (snd (m s)) = us_table s"
  by (simp add: quiet_def)

lemma quiet_rules [frame_rules]:
  "quiet (retS x)" "quiet (failS e)" "quiet (liftS r)" "quiet (ut_publish b topic i tr st)"
  "quiet (ut_coordinate env)"
  "quiet (on_tasks (task_get zone_ok io key i))" "quiet (on_tasks (task_list enc zone_ok io key q at))"
  by (simp_all add: quiet_def retS_def failS_def liftS_def on_tasks_def case_prod_beta
      ut_publish_def ut_coordinate_def split: bus_mode.split coordination.split)

lemma quiet_bind [frame_rules]: "quiet m \<Longrightarrow> (\<And>x. quiet (f x)) \<Longrightarrow> quiet (bindS m f)"
  by (simp add: quiet_def bindS_def case_prod_beta split: sum.split)

lemma quiet_catch [frame_rules]: "quiet m \<Longrightarrow> (\<And>e. quiet (h e)) \<Longrightarrow> quiet (catchS m h)"
  by (simp add: quiet_def catchS_def case_prod_beta split: sum.split)

lemma quiet_if [frame_rules]: "quiet m \<Longrightarrow> quiet n \<Longrightarrow> quiet (if b then m else n)"
  by simp

lemma quiet_failing [frame_rules]: "quiet (failing env san operation i tr e)"
  unfolding failing_def by (intro frame_rules)

lemma quiet_get [frame_rules]: "quiet (ut_get zone_ok san env key i tr)"
  unfolding ut_get_def by (intro frame_rules)

lemma quiet_find [frame_rules]: "quiet (ut_find_visible zone_ok san env key i tr)"
  unfolding ut_find_visible_def by (intro frame_rules)

lemma quiet_list [frame_rules]:
  "quiet (ut_list enc zone_ok san env key given f limit offset as_of tr)"
  unfolding ut_list_def by (intro frame_rules)

text \<open>A call that is a step when it starts in a good table.\<close>

definition steps ::
  "(string \<Rightarrow> bool) \<Rightarrow> workspace_key \<Rightarrow> (string \<Rightarrow> ut_status \<Rightarrow> ut_status \<Rightarrow> bool) \<Rightarrow> 'a ut_call \<Rightarrow> bool" where
  "steps zone_ok key move m =
    (\<forall>s. tasks_ok zone_ok (us_table s) \<longrightarrow> task_step zone_ok key move (us_table s) (us_table (snd (m s))))"

lemma stepsD: "steps zone_ok key move m \<Longrightarrow> tasks_ok zone_ok (us_table s) \<Longrightarrow>
    task_step zone_ok key move (us_table s) (us_table (snd (m s)))"
  by (simp add: steps_def)

lemma quiet_steps: "quiet m \<Longrightarrow> steps zone_ok key move m"
  by (simp add: steps_def task_step.unchanged)

text \<open>A quiet beginning, and a quiet end, leave a step a step.\<close>

lemma steps_bind: "quiet m \<Longrightarrow> (\<And>x. steps zone_ok key move (f x)) \<Longrightarrow> steps zone_ok key move (bindS m f)"
proof -
  assume m: "quiet m" and f: "\<And>x. steps zone_ok key move (f x)"
  have "task_step zone_ok key move (us_table s) (us_table (snd (bindS m f s)))"
    if "tasks_ok zone_ok (us_table s)" for s
  proof -
    obtain r s' where run: "m s = (r, s')" by fastforce
    with m have same: "us_table s' = us_table s" by (metis quietD snd_conv)
    show ?thesis
    proof (cases r)
      case (Inl e)
      then show ?thesis by (simp add: bindS_def run same task_step.unchanged)
    next
      case (Inr x)
      with stepsD [OF f, of s' x] that same show ?thesis by (simp add: bindS_def run)
    qed
  qed
  then show ?thesis by (simp add: steps_def)
qed

lemma steps_tail: "steps zone_ok key move m \<Longrightarrow> (\<And>x. quiet (f x)) \<Longrightarrow> steps zone_ok key move (bindS m f)"
  by (auto simp: steps_def bindS_def case_prod_beta split: sum.split)

lemma steps_catch: "steps zone_ok key move m \<Longrightarrow> (\<And>e. quiet (h e)) \<Longrightarrow> steps zone_ok key move (catchS m h)"
  by (auto simp: steps_def catchS_def case_prod_beta split: sum.split)

text \<open>The rows a read returns.\<close>

lemma owned_normalize [simp]: "owned_by (normalize_workspace_key key) r = owned_by key r"
  by (simp add: owned_by_def)

definition read_row :: "(string \<Rightarrow> bool) \<Rightarrow> workspace_key \<Rightarrow> string \<Rightarrow> user_task \<Rightarrow> ut_row list \<Rightarrow> bool" where
  "read_row zone_ok key i t rows =
    (ut_id t = i \<and> valid_task zone_ok t \<and> owned_by key (task_row t) \<and> row_of ur_id i rows = Some (task_row t))"

lemma task_get_read:
  assumes "tasks_ok zone_ok (us_rows st)" "task_get zone_ok io key i st = (Inr t, st')"
  shows "read_row zone_ok key i t (us_rows st)"
proof -
  from task_get_success [OF assms(2)] obtain r where
    r: "r \<in> set (us_rows st)" "ur_id r = i" "owned_by key r" "task_of_row zone_ok r = Inr t" by blast
  from tasks_ok_row [OF assms(1) r(1)] r(4) have "valid_task zone_ok t" "r = task_row t"
    by (metis sum.inject(2))+
  with r row_of_member [OF tasks_ok_keyed [OF assms(1)] r(1)] show ?thesis
    by (simp add: read_row_def)
qed

lemma failing_fails [simp]: "failing env san operation i tr e s \<noteq> (Inr x, s')"
  by (simp add: failing_def bindS_Inr failS_def)

lemma ut_get_read:
  assumes "tasks_ok zone_ok (us_table s)" "ut_get zone_ok san env key i tr s = (Inr t, s')"
  shows "read_row zone_ok key i t (us_table s)"
proof -
  from assms(2) obtain st' where
    "task_get zone_ok (ue_read_io env) (normalize_workspace_key key) i (us_store s) = (Inr t, st')"
    by (auto simp: ut_get_def catchS_Inr on_tasks_def split: prod.splits)
  from task_get_read [OF assms(1) this] show ?thesis by (simp add: read_row_def)
qed

lemma steps_after_get:
  assumes "\<And>s t. tasks_ok zone_ok (us_table s) \<Longrightarrow> read_row zone_ok key i t (us_table s) \<Longrightarrow>
      task_step zone_ok key move (us_table s) (us_table (snd (f t s)))"
  shows "steps zone_ok key move (bindS (ut_get zone_ok san env key i tr) f)"
proof -
  have "task_step zone_ok key move (us_table s) (us_table (snd (bindS (ut_get zone_ok san env key i tr) f s)))"
    if ok: "tasks_ok zone_ok (us_table s)" for s
  proof -
    obtain r s' where run: "ut_get zone_ok san env key i tr s = (r, s')" by fastforce
    then have same: "us_table s' = us_table s" by (metis quietD quiet_get snd_conv)
    show ?thesis
    proof (cases r)
      case (Inl e)
      then show ?thesis by (simp add: bindS_def run same task_step.unchanged)
    next
      case (Inr t)
      with ut_get_read [OF ok] run have "read_row zone_ok key i t (us_table s')"
        by (simp add: same)
      from assms [OF _ this] ok Inr show ?thesis by (simp add: bindS_def run same)
    qed
  qed
  then show ?thesis by (simp add: steps_def)
qed

lemma store_and_publish_step:
  assumes ok: "tasks_ok zone_ok (us_table s)" and read: "read_row zone_ok key i t (us_table s)"
    and t': "ut_id t' = i" "valid_task zone_ok t'" "owned_by key (task_row t')"
      "move i (ut_status t) (ut_status t')"
  shows "task_step zone_ok key move (us_table s) (us_table (snd (store_and_publish env key t' n topic tr s)))"
proof -
  obtain r st' where run: "task_update (ue_write_io env) key t' n (us_store s) = (r, st')" by fastforce
  have tail: "us_table (snd (store_and_publish env key t' n topic tr s)) = us_rows st'"
  proof (cases r)
    case (Inr u)
    have "quiet (bindS (ut_publish (ue_bus env) topic (ut_id u) tr ''ok'') (\<lambda>_. retS u))"
      by (intro frame_rules)
    then show ?thesis by (simp add: store_and_publish_def bindS_def [of "on_tasks m" for m] on_tasks_def run Inr)
  qed (simp add: store_and_publish_def bindS_def on_tasks_def run)
  show ?thesis
  proof (cases r)
    case (Inl e)
    with run task_update_failure show ?thesis by (metis tail task_step.unchanged)
  next
    case (Inr u)
    from tasks_ok_keyed [OF ok] run [unfolded Inr] obtain row where
      row: "row_of ur_id (ut_id t') (us_table s) = Some row" "ur_revision row = n"
      and u: "u = t'\<lparr>ut_revision := n + 1\<rparr>"
      and free: "\<not> legacy_taken (ut_legacy_source_id t') (filter (\<lambda>r. ur_id r \<noteq> ut_id t') (us_table s))"
      and rows: "us_rows st' = update_where (\<lambda>r. ur_id r = ut_id t') (\<lambda>_. task_row u) (us_table s)"
      by (rule task_update_success) blast
    from read row(1) t'(1) have eq: "row = task_row t" and t: "valid_task zone_ok t" "owned_by key row"
      by (simp_all add: read_row_def)
    have "valid_task zone_ok u"
      using t'(2) t(1) row(2) by (simp add: valid_task_iff u eq)
    moreover have "owned_by key (task_row u)"
      using t'(3) by (simp add: u owned_by_def)
    ultimately have "task_step zone_ok key move (us_table s)
        (update_where (\<lambda>r. ur_id r = ut_id u) (\<lambda>_. task_row u) (us_table s))"
      using row t free t'(1,4) by (intro task_step.replaced [where r = row]) (simp_all add: u eq)
    then show ?thesis by (simp add: tail rows) (simp add: u)
  qed
qed

section \<open>The operations as steps\<close>

text \<open>The same rules for one state, where what was read before is still known.\<close>

lemma at_lift:
  assumes "\<And>x. r = Inr x \<Longrightarrow> task_step zone_ok key move (us_table s) (us_table (snd (f x s)))"
  shows "task_step zone_ok key move (us_table s) (us_table (snd (bindS (liftS r) f s)))"
  using assms by (cases r) (simp_all add: bindS_def liftS_def task_step.unchanged)

lemma at_catch:
  "task_step zone_ok key move T (us_table (snd (m s))) \<Longrightarrow> (\<And>e. quiet (h e)) \<Longrightarrow>
   task_step zone_ok key move T (us_table (snd (catchS m h s)))"
  by (simp add: catchS_def case_prod_beta split: sum.split)

lemma at_tail:
  "task_step zone_ok key move T (us_table (snd (m s))) \<Longrightarrow> (\<And>x. quiet (f x)) \<Longrightarrow>
   task_step zone_ok key move T (us_table (snd (bindS m f s)))"
  by (simp add: bindS_def case_prod_beta split: sum.split)

lemma at_quiet: "quiet m \<Longrightarrow> task_step zone_ok key move (us_table s) (us_table (snd (m s)))"
  by (simp add: task_step.unchanged)

lemma at_if:
  "(b \<Longrightarrow> task_step zone_ok key move T (us_table (snd (m s)))) \<Longrightarrow>
   (\<not> b \<Longrightarrow> task_step zone_ok key move T (us_table (snd (n s)))) \<Longrightarrow>
   task_step zone_ok key move T (us_table (snd ((if b then m else n) s)))"
  by simp

lemma owned_workspace_metadata:
  "ut_metadata t = workspace_metadata key d \<Longrightarrow> owned_by key (task_row t)"
  by (simp add: owned_by_def in_workspace_def workspace_metadata_def canonical_owned del: complete_workspace.simps)

lemma steps_task_create:
  assumes "valid_task zone_ok t" "owned_by key (task_row t)" "ut_revision t = 1"
  shows "task_step zone_ok key move (us_table s) (us_table (snd (on_tasks (task_create io t) s)))"
proof -
  obtain r st' where run: "task_create io t (us_store s) = (r, st')" by fastforce
  then have "us_table (snd (on_tasks (task_create io t) s)) = us_rows st'"
    by (simp add: on_tasks_def)
  with run assms show ?thesis
    by (elim task_create_cases) (auto intro: task_step.intros)
qed

lemma ut_create_step:
  "task_step zone_ok (un_key q) move (us_table s) (us_table (snd (ut_create zone_ok san env q s)))"
  unfolding ut_create_def
proof (intro at_catch at_lift at_tail steps_task_create frame_rules)
  fix created t
  assume "validate_task zone_ok (new_values env q created) = Inr t"
  then have t: "valid_task zone_ok t" "t = task_of_values (new_values env q created)"
    by (rule validated_task_valid) (use \<open>validate_task _ _ = _\<close> in \<open>simp add: validate_task_Inr\<close>)
  show "valid_task zone_ok t" by (fact t(1))
  show "ut_revision t = 1" by (simp add: t(2) task_of_values_def new_values_def)
  have "ut_metadata t = workspace_metadata (normalize_workspace_key (un_key q))
      (case un_metadata q of None \<Rightarrow> [] | Some d \<Rightarrow> d)"
    by (simp add: t(2) task_of_values_def new_values_def)
  from owned_workspace_metadata [OF this] show "owned_by (un_key q) (task_row t)" by simp
qed

lemma changed_task:
  assumes "validate_task zone_ok (changed_values (normalize_workspace_key key) now tr c t) = Inr t'"
    and "owned_by key (task_row t)"
  shows "valid_task zone_ok t'" "ut_id t' = ut_id t" "ut_status t' = ut_status t" "owned_by key (task_row t')"
proof -
  have t': "t' = task_of_values (changed_values (normalize_workspace_key key) now tr c t)"
    using assms(1) by (simp add: validate_task_Inr)
  show "valid_task zone_ok t'" by (rule validated_task_valid [OF assms(1)])
  show "ut_id t' = ut_id t" and "ut_status t' = ut_status t"
    by (simp_all add: t' task_of_values_def changed_values_def dump_task_def)
  show "owned_by key (task_row t')"
  proof (cases "uc_metadata c")
    case None
    then have "ut_metadata t' = ut_metadata t"
      by (simp add: t' task_of_values_def changed_values_def)
    with assms(2) show ?thesis by (simp add: owned_by_def)
  next
    case (Some d)
    then have "ut_metadata t' = workspace_metadata (normalize_workspace_key key) d"
      by (simp add: t' task_of_values_def changed_values_def)
    from owned_workspace_metadata [OF this] show ?thesis by simp
  qed
qed

lemma read_row_task: "read_row zone_ok key i t rows \<Longrightarrow>
    ut_id t = i \<and> valid_task zone_ok t \<and> owned_by key (task_row t)"
  by (simp add: read_row_def)

lemma steps_normalize: "steps zone_ok (normalize_workspace_key key) move m \<Longrightarrow> steps zone_ok key move m"
proof -
  have "task_step zone_ok key move rows rows'" if "task_step zone_ok (normalize_workspace_key key) move rows rows'" for rows rows'
    using that by cases (auto intro: task_step.intros)
  then show "steps zone_ok (normalize_workspace_key key) move m \<Longrightarrow> steps zone_ok key move m"
    by (simp add: steps_def)
qed

lemma ut_update_step:
  "steps zone_ok key (\<lambda>j a b. j = i \<and> a = UT_ACTIVE \<and> b = UT_ACTIVE) (ut_update zone_ok san env key i c expected tr)"
  unfolding ut_update_def Let_def
proof (rule steps_normalize, rule steps_after_get)
  let ?key = "normalize_workspace_key key"
  let ?move = "\<lambda>j a b. j = i \<and> a = UT_ACTIVE \<and> b = UT_ACTIVE"
  let ?conflict = "Raise UserTaskConflictError ''terminal task cannot be edited''"
  fix s t
  assume ok: "tasks_ok zone_ok (us_table s)" and read: "read_row zone_ok ?key i t (us_table s)"
  show "task_step zone_ok ?key ?move (us_table s) (us_table (snd
      ((if ut_status t \<noteq> UT_ACTIVE then failS (task_failure san ''update'' tr ?conflict)
        else bindS (liftS (ut_now env)) (\<lambda>now. catchS
          (bindS (liftS (validate_task zone_ok (changed_values ?key now tr c t)))
            (\<lambda>t'. store_and_publish env ?key t' (or_old expected (ut_revision t)) ''user_task.updated'' tr))
          (failing env san ''update'' i tr))) s)))"
  proof (cases "ut_status t = UT_ACTIVE")
    case True
    have "task_step zone_ok ?key ?move (us_table s)
        (us_table (snd (store_and_publish env ?key t' (or_old expected (ut_revision t)) ''user_task.updated'' tr s)))"
      if "validate_task zone_ok (changed_values ?key now tr c t) = Inr t'" for now t'
      using changed_task [OF that] read_row_task [OF read] True
      by (intro store_and_publish_step [OF ok read]) auto
    with True show ?thesis by (simp add: at_lift at_catch quiet_failing)
  qed (simp add: failS_def task_step.unchanged)
qed

lemma closed_task_facts:
  assumes "valid_task zone_ok t" "owned_by key (task_row t)"
  shows "valid_task zone_ok (closed_task target now tr t)" "owned_by key (task_row (closed_task target now tr t))"
    "ut_id (closed_task target now tr t) = ut_id t" "ut_status (closed_task target now tr t) = target"
  using assms by (simp_all add: closed_task_def valid_task_iff owned_by_def Let_def)

lemma reopened_task_facts:
  assumes "valid_task zone_ok t" "owned_by key (task_row t)"
  shows "valid_task zone_ok (reopened_task now t)" "owned_by key (task_row (reopened_task now t))"
    "ut_id (reopened_task now t) = ut_id t" "ut_status (reopened_task now t) = UT_ACTIVE"
  using assms by (simp_all add: reopened_task_def valid_task_iff owned_by_def)

lemma ut_transition_step:
  "steps zone_ok key (\<lambda>j a b. j = i \<and> a = UT_ACTIVE \<and> b = target) (ut_transition zone_ok san env key i target expected tr)"
  unfolding ut_transition_def Let_def
proof (rule steps_normalize, rule steps_after_get)
  let ?key = "normalize_workspace_key key"
  let ?op = "ut_status_value target"
  let ?move = "\<lambda>j a b. j = i \<and> a = UT_ACTIVE \<and> b = target"
  fix s t
  assume ok: "tasks_ok zone_ok (us_table s)" and read: "read_row zone_ok ?key i t (us_table s)"
  show "task_step zone_ok ?key ?move (us_table s) (us_table (snd
      ((if expected \<noteq> None \<and> expected \<noteq> Some (ut_revision t)
        then failing env san ?op i tr (Raise UserTaskConflictError ''stale expected_revision'')
        else if ut_status t = target then bindS (ut_coordinate env) (\<lambda>_. retS t)
        else if ut_status t \<noteq> UT_ACTIVE
        then failing env san ?op i tr (Raise UserTaskConflictError ''invalid terminal state transition'')
        else bindS (liftS (ut_now env)) (\<lambda>now. bindS
          (catchS (store_and_publish env ?key (closed_task target now tr t) (or_old expected (ut_revision t))
              (''user_task.'' @ ?op) tr) (failing env san ?op i tr))
          (\<lambda>r. bindS (ut_coordinate env) (\<lambda>_. retS r)))) s)))"
  proof (intro at_if at_lift at_tail at_catch)
    fix now
    assume "\<not> ut_status t \<noteq> UT_ACTIVE"
    then show "task_step zone_ok ?key ?move (us_table s) (us_table (snd (store_and_publish env ?key
        (closed_task target now tr t) (or_old expected (ut_revision t)) (''user_task.'' @ ?op) tr s)))"
      using closed_task_facts [of zone_ok t ?key target now tr] read_row_task [OF read]
      by (intro store_and_publish_step [OF ok read]) auto
  qed (intro at_quiet frame_rules)+
qed

lemma ut_reopen_step:
  "steps zone_ok key (\<lambda>j a b. j = i \<and> a \<noteq> UT_ACTIVE \<and> b = UT_ACTIVE) (ut_reopen zone_ok san env key i tr)"
  unfolding ut_reopen_def Let_def
proof (rule steps_normalize, rule steps_after_get)
  let ?key = "normalize_workspace_key key"
  let ?move = "\<lambda>j a b. j = i \<and> a \<noteq> UT_ACTIVE \<and> b = UT_ACTIVE"
  fix s t
  assume ok: "tasks_ok zone_ok (us_table s)" and read: "read_row zone_ok ?key i t (us_table s)"
  have store: "ut_status t \<noteq> UT_ACTIVE \<Longrightarrow> task_step zone_ok ?key ?move (us_table s) (us_table (snd (store_and_publish env ?key
      (reopened_task now t) (ut_revision t) ''user_task.reopened'' tr s)))" for now
    using reopened_task_facts [of zone_ok t ?key now] read_row_task [OF read]
    by (intro store_and_publish_step [OF ok read]) auto
  show "task_step zone_ok ?key ?move (us_table s) (us_table (snd
      ((if ut_status t = UT_ACTIVE then retS t
        else bindS (liftS (ut_now env)) (\<lambda>now. catchS (store_and_publish env ?key (reopened_task now t)
            (ut_revision t) ''user_task.reopened'' tr) (failing env san ''reopen'' i tr))) s)))"
    by (intro at_if at_lift at_catch store quiet_failing) (intro at_quiet frame_rules | assumption)+
qed

section \<open>Requests\<close>

text \<open>The operations of the service as requests, to be run in any order.\<close>

datatype ut_request =
    Initialize_Tasks ut_env
  | Close_Tasks
  | Health_Tasks bool
  | Create_Task ut_env ut_new
  | Get_Task ut_env workspace_key string string
  | Find_Task ut_env workspace_key string string
  | List_Tasks ut_env workspace_key "ut_query option" ut_query "int option" "int option"
      "datetime option" string
  | Update_Task ut_env workspace_key string ut_changes "int option" string
  | Complete_Task ut_env workspace_key string "int option" string
  | Cancel_Task ut_env workspace_key string "int option" string
  | Reopen_Task ut_env workspace_key string string

fun ut_run ::
  "(instant \<Rightarrow> string) \<Rightarrow> (string \<Rightarrow> bool) \<Rightarrow> (string \<Rightarrow> string) \<Rightarrow> ut_request \<Rightarrow> ut_service \<Rightarrow> ut_service" where
  "ut_run enc zone_ok san (Initialize_Tasks env) s = snd (ut_initialize env san s)"
| "ut_run enc zone_ok san Close_Tasks s = ut_close s"
| "ut_run enc zone_ok san (Health_Tasks b) s = snd (ut_health b s)"
| "ut_run enc zone_ok san (Create_Task env q) s = snd (ut_create zone_ok san env q s)"
| "ut_run enc zone_ok san (Get_Task env key i tr) s = snd (ut_get zone_ok san env key i tr s)"
| "ut_run enc zone_ok san (Find_Task env key i tr) s = snd (ut_find_visible zone_ok san env key i tr s)"
| "ut_run enc zone_ok san (List_Tasks env key given f limit offset as_of tr) s =
     snd (ut_list enc zone_ok san env key given f limit offset as_of tr s)"
| "ut_run enc zone_ok san (Update_Task env key i c n tr) s = snd (ut_update zone_ok san env key i c n tr s)"
| "ut_run enc zone_ok san (Complete_Task env key i n tr) s = snd (ut_complete zone_ok san env key i n tr s)"
| "ut_run enc zone_ok san (Cancel_Task env key i n tr) s = snd (ut_cancel zone_ok san env key i n tr s)"
| "ut_run enc zone_ok san (Reopen_Task env key i tr) s = snd (ut_reopen zone_ok san env key i tr s)"

text \<open>The workspace a request acts for, and the change of state it may bring to a task.\<close>

fun acts_for :: "ut_request \<Rightarrow> identity option" where
  "acts_for (Create_Task env q) = Some (workspace_identity (un_key q))"
| "acts_for (Get_Task env key i tr) = Some (workspace_identity key)"
| "acts_for (Find_Task env key i tr) = Some (workspace_identity key)"
| "acts_for (List_Tasks env key given f limit offset as_of tr) = Some (workspace_identity key)"
| "acts_for (Update_Task env key i c n tr) = Some (workspace_identity key)"
| "acts_for (Complete_Task env key i n tr) = Some (workspace_identity key)"
| "acts_for (Cancel_Task env key i n tr) = Some (workspace_identity key)"
| "acts_for (Reopen_Task env key i tr) = Some (workspace_identity key)"
| "acts_for _ = None"

fun may_move :: "ut_request \<Rightarrow> string \<Rightarrow> ut_status \<Rightarrow> ut_status \<Rightarrow> bool" where
  "may_move (Update_Task env key i c n tr) = (\<lambda>j a b. j = i \<and> a = UT_ACTIVE \<and> b = UT_ACTIVE)"
| "may_move (Complete_Task env key i n tr) = (\<lambda>j a b. j = i \<and> a = UT_ACTIVE \<and> b = UT_COMPLETED)"
| "may_move (Cancel_Task env key i n tr) = (\<lambda>j a b. j = i \<and> a = UT_ACTIVE \<and> b = UT_CANCELLED)"
| "may_move (Reopen_Task env key i tr) = (\<lambda>j a b. j = i \<and> a \<noteq> UT_ACTIVE \<and> b = UT_ACTIVE)"
| "may_move _ = (\<lambda>j a b. False)"

lemma quiet_initialize: "us_table (snd (ut_initialize env san s)) = us_table s"
proof -
  have "us_rows (snd (task_initialize io st)) = us_rows st" for io st
    by (simp add: task_initialize_def task_done_def split: option.split)
  then have "quiet (on_tasks (task_initialize io))" for io
    by (simp add: quiet_def on_tasks_def case_prod_beta)
  then have "quiet (ut_initialize env san)"
    unfolding ut_initialize_def by (intro frame_rules)
  then show ?thesis by simp
qed

lemma quiet_health: "us_table (snd (ut_health b s)) = us_table s"
  by (simp add: ut_health_def task_health_def)

lemma quiet_close: "us_table (ut_close s) = us_table s"
  by (simp add: ut_close_def task_close_def)

text \<open>The refinement: every request is a step of the abstract system, on behalf of its workspace.\<close>

theorem ut_run_step:
  assumes "tasks_ok zone_ok (us_table s)"
  shows "\<exists>key. (acts_for q = None \<or> acts_for q = Some (workspace_identity key)) \<and>
    task_step zone_ok key (may_move q) (us_table s) (us_table (ut_run enc zone_ok san q s))"
proof (cases q)
  case (Create_Task env q')
  show ?thesis
    by (rule exI [of _ "un_key q'"]) (simp add: Create_Task ut_create_step)
next
  case (Update_Task env key i c n tr)
  show ?thesis using stepsD [OF ut_update_step assms]
    by (intro exI [of _ key]) (simp add: Update_Task)
next
  case (Complete_Task env key i n tr)
  show ?thesis using stepsD [OF ut_transition_step assms]
    by (intro exI [of _ key]) (simp add: Complete_Task ut_complete_def)
next
  case (Cancel_Task env key i n tr)
  show ?thesis using stepsD [OF ut_transition_step assms]
    by (intro exI [of _ key]) (simp add: Cancel_Task ut_cancel_def)
next
  case (Reopen_Task env key i tr)
  show ?thesis using stepsD [OF ut_reopen_step assms]
    by (intro exI [of _ key]) (simp add: Reopen_Task)
qed (auto simp: quiet_initialize quiet_health quiet_close quietD [OF quiet_get] quietD [OF quiet_find]
    quietD [OF quiet_list] intro!: task_step.unchanged)

lemma ut_run_ok: "tasks_ok zone_ok (us_table s) \<Longrightarrow> tasks_ok zone_ok (us_table (ut_run enc zone_ok san q s))"
  using ut_run_step task_step_ok by blast

interpretation uts: step_system "ut_run enc zone_ok san" "\<lambda>s. tasks_ok zone_ok (us_table s)"
  for enc zone_ok san
  by unfold_locales (rule ut_run_ok)

text \<open>A row belongs to one workspace.\<close>

lemma in_one_workspace: "in_workspace i c \<Longrightarrow> in_workspace j c \<Longrightarrow> i = j"
  by (simp add: in_workspace_def split: option.splits)

lemma ut_run_quiet: "acts_for q = None \<Longrightarrow> us_table (ut_run enc zone_ok san q s) = us_table s"
  by (cases q) (simp_all add: quiet_initialize quiet_health quiet_close)

lemma ut_run_foreign:
  assumes ok: "tasks_ok zone_ok (us_table s)" and other: "acts_for q \<noteq> Some (workspace_identity key)"
  shows "filter (owned_by key) (us_table (ut_run enc zone_ok san q s)) = filter (owned_by key) (us_table s)"
proof (cases "acts_for q = None")
  case False
  from ut_run_step [OF ok, of q enc san] obtain k where
    acts: "acts_for q = None \<or> acts_for q = Some (workspace_identity k)"
    and step: "task_step zone_ok k (may_move q) (us_table s) (us_table (ut_run enc zone_ok san q s))" by blast
  from acts False other have k: "workspace_identity k \<noteq> workspace_identity key" by metis
  have sub: "filter (owned_by key) rows = filter (owned_by key) (filter (\<lambda>r. \<not> owned_by k r) rows)" for rows
  proof -
    have "owned_by key r \<Longrightarrow> \<not> owned_by k r" for r
      using k in_one_workspace [of "workspace_identity k" _ "workspace_identity key"]
      by (auto simp: owned_by_def)
    then show ?thesis by (auto simp: filter_filter intro: filter_cong)
  qed
  from task_step_foreign [OF step tasks_ok_keyed [OF ok]] show ?thesis by (simp add: sub)
qed (simp add: ut_run_quiet)

section \<open>Calls that succeed\<close>

lemma ut_get_total:
  assumes "tasks_ok zone_ok (us_table s)" "row_of ur_id i (us_table s) = Some (task_row t)"
    and "owned_by key (task_row t)" "ue_read_io env = None"
  obtains s' where "ut_get zone_ok san env key i tr s = (Inr t, s')" "us_table s' = us_table s"
    "us_published s' = us_published s" "us_lifecycle_degraded s' = us_lifecycle_degraded s"
proof -
  from row_of_Some [OF assms(2)] have mem: "task_row t \<in> set (us_table s)" "ut_id t = i" by simp_all
  from tasks_ok_row [OF assms(1) mem(1)] obtain t' where "valid_task zone_ok t'" "task_row t = task_row t'"
    by metis
  then have valid: "valid_task zone_ok t"
    by (metis row_task_row task_row_simps(4) option.inject json.inject(6))
  have "task_get zone_ok None (normalize_workspace_key key) i (us_store s) =
      (Inr t, (us_store s)\<lparr>us_last_error := None\<rparr>)"
    using task_get_total [OF assms(1), of t "normalize_workspace_key key"] assms(2,3) valid mem(2) by simp
  with assms(4) show ?thesis
    by (intro that [of "s\<lparr>us_store := (us_store s)\<lparr>us_last_error := None\<rparr>\<rparr>"])
      (simp_all add: ut_get_def catchS_def on_tasks_def)
qed

text \<open>The write happens before the message: whatever the bus does, the row has changed.\<close>

definition bus_result :: "bus_mode \<Rightarrow> 'a \<Rightarrow> exn + 'a" where
  "bus_result b x = (case b of Bus_Raises e \<Rightarrow> Inl e | _ \<Rightarrow> Inr x)"

lemma store_and_publish_total:
  assumes ok: "tasks_ok zone_ok (us_table s)" and row: "row_of ur_id (ut_id t) (us_table s) = Some r"
    and r: "ur_revision r = n" "owned_by key r" "ur_legacy_source_id r = ut_legacy_source_id t"
    and n: "sql_int n" "sql_int (n + 1)" and io: "ue_write_io env = None"
  obtains s' where "store_and_publish env key t n topic tr s = (bus_result (ue_bus env) (t\<lparr>ut_revision := n + 1\<rparr>), s')"
    "us_table s' = update_where (\<lambda>r. ur_id r = ut_id t) (\<lambda>_. task_row (t\<lparr>ut_revision := n + 1\<rparr>)) (us_table s)"
    "us_lifecycle_degraded s' = us_lifecycle_degraded s"
proof -
  from task_update_total [OF ok row r n] obtain st where
    st: "task_update None key t n (us_store s) = (Inr (t\<lparr>ut_revision := n + 1\<rparr>), st)"
      "us_rows st = update_where (\<lambda>r. ur_id r = ut_id t) (\<lambda>_. task_row (t\<lparr>ut_revision := n + 1\<rparr>)) (us_table s)"
    by blast
  show ?thesis
    by (rule that [of "snd (store_and_publish env key t n topic tr s)"])
      (simp_all add: store_and_publish_def bindS_def on_tasks_def st io ut_publish_def retS_def bus_result_def
        split: bus_mode.split)
qed

end
