(* ===== verification/UserTask_Properties.thy ===== *)
theory UserTask_Properties
  imports UserTask_Service
begin

text \<open>
  What the user tasks promise: tasks stay in their workspace and readable by it, no update is
  lost, a closed task changes only by being reopened, a created task is read back, completing an
  active task succeeds, and where the code falls short: a bus failure after the commit, and
  filters that compare texts of two forms.
\<close>

section \<open>Sample data\<close>

definition utc_zone :: "string \<Rightarrow> bool" where
  "utc_zone z = (z = ''UTC'')"

definition initial_tasks :: ut_service where
  "initial_tasks = \<lparr>us_store = \<lparr>us_rows = [], us_initialized = False, us_last_error = None\<rparr>,
     us_degraded = False, us_lifecycle_degraded = False, us_published = []\<rparr>"

definition acme :: workspace_key where
  "acme = plain_key ''acme'' ''main'' ''default'' []"

definition calm :: ut_env where
  "calm = \<lparr>ue_now = Aware 7000000 0, ue_read_io = None, ue_write_io = None, ue_bus = Bus_Off,
     ue_bus_failed = Bus_Off, ue_coordinator = Not_Coordinated, ue_uuid = ''1''\<rparr>"

definition sample_new :: ut_new where
  "sample_new =
    \<lparr>un_key = acme, un_title = '' report '', un_description = [], un_priority = HIGH,
     un_due_at = Some (Aware 9000000 0), un_timezone = ''UTC'', un_status = UT_ACTIVE,
     un_created_at = None, un_completed_at = None, un_cancelled_at = None, un_source = ''api'',
     un_session_id = [], un_agent_id = [], un_trace_id = [], un_metadata = None, un_id = None,
     un_legacy_source_id = None\<rparr>"

definition sample_task :: user_task where
  "sample_task = task_of_values (new_values calm sample_new (Aware 7000000 0))"

definition sample_tasks :: ut_service where
  "sample_tasks = initial_tasks\<lparr>us_store := \<lparr>us_rows = [task_row sample_task], us_initialized = True,
     us_last_error = None\<rparr>\<rparr>"

lemma sample_validated:
  "validate_task utc_zone (new_values calm sample_new (Aware 7000000 0)) = Inr sample_task"
  unfolding sample_task_def by code_simp

lemma sample_valid: "valid_task utc_zone sample_task"
  using sample_validated by (rule validated_task_valid)

lemma sample_fields: "ut_id sample_task = ''ut_1''" "ut_status sample_task = UT_ACTIVE"
  "ut_revision sample_task = 1" "ut_title sample_task = ''report''" "ut_legacy_source_id sample_task = None"
  by code_simp+

lemma sample_owned: "owned_by acme (task_row sample_task)"
  by code_simp

lemma sample_table: "us_table sample_tasks = [task_row sample_task]"
  "us_table initial_tasks = []"
  by (simp_all add: sample_tasks_def initial_tasks_def)

lemma sample_tasks_ok: "tasks_ok utc_zone (us_table sample_tasks)"
  using tasks_ok_added [of utc_zone "[]" sample_task] sample_valid
  by (simp add: sample_table legacy_taken_def)

lemma sample_created:
  "\<exists>s'. ut_create utc_zone id calm sample_new initial_tasks = (Inr sample_task, s') \<and>
     us_table s' = [task_row sample_task]"
proof -
  have now: "ut_now calm = Inr 7000000" and new: "un_created_at sample_new = None"
    and modes: "ue_write_io calm = None" "ue_bus calm = Bus_Off"
    by (simp_all add: ut_now_def calm_def sample_new_def)
  have "sql_int 1" by (simp add: sql_int_def)
  then show ?thesis
    by (simp add: ut_create_def catchS_def bindS_run liftS_def now new modes sample_validated on_tasks_def
        task_create_def task_done_def sample_fields initial_tasks_def legacy_taken_def ut_publish_def retS_def)
qed

section \<open>Workspaces\<close>

text \<open>No sequence of calls for other workspaces adds, changes or removes a task of a
  workspace; tasks whose metadata names no workspace completely count as tasks of the default one.\<close>

theorem ut_isolation:
  assumes "tasks_ok zone_ok (us_table s)"
    and "\<And>q. q \<in> set qs \<Longrightarrow> acts_for q \<noteq> Some (workspace_identity key)"
  shows "filter (owned_by key) (us_table (fold (ut_run enc zone_ok san) qs s)) =
    filter (owned_by key) (us_table s)"
  using assms
proof (induction qs arbitrary: s)
  case (Cons q qs)
  from Cons.prems(1) have ok: "tasks_ok zone_ok (us_table (ut_run enc zone_ok san q s))" by (rule ut_run_ok)
  have "acts_for q \<noteq> Some (workspace_identity key)" by (rule Cons.prems(2)) simp
  from ut_run_foreign [OF Cons.prems(1) this] Cons.IH [OF ok] Cons.prems(2) show ?case by simp
qed simp

theorem ut_isolation_witness:
  "filter (owned_by acme) (us_table (fold (ut_run isoformat utc_zone id)
     [Cancel_Task calm (acme\<lparr>tenant_id := ''rival''\<rparr>) ''ut_1'' None [], Close_Tasks] sample_tasks)) =
   [task_row sample_task]"
proof -
  have other: "workspace_identity (acme\<lparr>tenant_id := ''rival''\<rparr>) \<noteq> workspace_identity acme" by code_simp
  have "filter (owned_by acme) (us_table (fold (ut_run isoformat utc_zone id)
      [Cancel_Task calm (acme\<lparr>tenant_id := ''rival''\<rparr>) ''ut_1'' None [], Close_Tasks] sample_tasks)) =
    filter (owned_by acme) (us_table sample_tasks)"
    by (rule ut_isolation [OF sample_tasks_ok]) (use other in auto)
  then show ?thesis by (simp add: sample_table sample_owned del: fold.simps ut_run.simps)
qed

text \<open>C16: whatever requests ran since the table was empty, every task is readable by its
  workspace exactly as it was stored, and not found by any other.\<close>

theorem ut_read_by_owner_only:
  assumes s: "s = fold (ut_run enc zone_ok san) qs initial_tasks" and mem: "r \<in> set (us_table s)"
    and env: "ue_read_io env = None" "ue_bus_failed env = Bus_Off"
  shows "\<exists>t. r = task_row t \<and> valid_task zone_ok t \<and>
    (if owned_by key r then fst (ut_get zone_ok san env key (ut_id t) tr s) = Inr t
     else \<exists>f. fst (ut_get zone_ok san env key (ut_id t) tr s) = Inl (Failed f) \<and> fi_category f = NOT_FOUND)"
proof -
  have ok: "tasks_ok zone_ok (us_table s)"
    unfolding s by (rule uts.run_good) (simp add: sample_table)
  from ok mem obtain t where t: "valid_task zone_ok t" "r = task_row t"
    by (rule tasks_ok_row)
  from row_of_member [OF tasks_ok_keyed [OF ok] mem] have
    row: "row_of ur_id (ut_id t) (us_table s) = Some (task_row t)" by (simp add: t(2))
  show ?thesis
  proof (cases "owned_by key r")
    case True
    with ok row env(1) have "fst (ut_get zone_ok san env key (ut_id t) tr s) = Inr t"
      by (metis fst_conv t(2) ut_get_total)
    with t True show ?thesis by auto
  next
    case False
    have "find (\<lambda>r. ur_id r = ut_id t \<and> owned_by (normalize_workspace_key key) r) (us_table s) = None"
      using False keyed_unique [OF tasks_ok_keyed [OF ok] _ mem] by (auto simp: find_None_iff t(2))
    then have "\<exists>f. fst (ut_get zone_ok san env key (ut_id t) tr s) = Inl (Failed f) \<and> fi_category f = NOT_FOUND"
      using env tasks_ok_not_malformed [OF ok]
      by (simp add: ut_get_def catchS_def on_tasks_def task_get_def failing_def bindS_def ut_publish_def
          failS_def task_failure_def task_category_def failure_from_exception_def Let_def)
    with t False show ?thesis by auto
  qed
qed

theorem ut_read_by_owner_only_witness:
  "fst (ut_get utc_zone id calm acme ''ut_1'' []
     (fold (ut_run isoformat utc_zone id) [Create_Task calm sample_new] initial_tasks)) = Inr sample_task"
proof -
  let ?s = "fold (ut_run isoformat utc_zone id) [Create_Task calm sample_new] initial_tasks"
  have mem: "task_row sample_task \<in> set (us_table ?s)"
    using sample_created by (auto simp: initial_tasks_def)
  have env: "ue_read_io calm = None" "ue_bus_failed calm = Bus_Off" by (simp_all add: calm_def)
  from ut_read_by_owner_only [OF refl mem env, of acme "[]"] obtain t where
    t: "task_row sample_task = task_row t" "fst (ut_get utc_zone id calm acme (ut_id t) [] ?s) = Inr t"
    by (auto simp: sample_owned)
  from t(1) have "t = sample_task"
    by (metis row_task_row task_row_simps(4) option.inject json.inject(6))
  with t(2) show ?thesis by (simp add: sample_fields)
qed

text \<open>Of two writers that read the same revision of a task, the second one is refused and
  writes nothing.\<close>

theorem ut_no_lost_update:
  assumes "keyed_tasks s" "task_update io key t n s = (Inr u, s')" "ut_id t' = ut_id t"
  shows "\<exists>e s''. task_update io' key' t' n s' = (Inl e, s'') \<and> us_rows s'' = us_rows s'"
proof -
  have "\<exists>e s''. attempt_update n (io', key', t') s' = (Inl e, s'') \<and> stored_task s'' = stored_task s'"
    by (rule ut.no_lost_update [of s n "(io, key, t)" u])
      (use assms in \<open>simp_all add: attempt_update_def written_id_def\<close>)
  then obtain e s'' where "task_update io' key' t' n s' = (Inl e, s'')"
    by (auto simp: attempt_update_def)
  with task_update_failure show ?thesis by blast
qed

theorem ut_no_lost_update_witness:
  "\<exists>u s' e s''. task_update None acme sample_task 1 (us_store sample_tasks) = (Inr u, s') \<and>
     task_update None acme (closed_task UT_CANCELLED 8000000 [] sample_task) 1 s' = (Inl e, s'')"
proof -
  from task_update_total [OF sample_tasks_ok, of sample_task "task_row sample_task" 1 acme] obtain s' where
    run: "task_update None acme sample_task 1 (us_store sample_tasks) = (Inr (sample_task\<lparr>ut_revision := 1 + 1\<rparr>), s')"
    by (auto simp: sample_table sample_fields sample_owned sql_int_def)
  have "keyed_tasks (us_store sample_tasks)"
    using sample_tasks_ok by (simp add: keyed_tasks_def tasks_ok_keyed)
  from ut_no_lost_update [OF this run, of "closed_task UT_CANCELLED 8000000 [] sample_task" None acme]
  show ?thesis using run by (auto simp: closed_task_def Let_def)
qed

section \<open>Life cycle\<close>

text \<open>C17: a completed or cancelled task stays exactly as it is through any sequence of requests
  of any workspace in which nobody reopens it.\<close>

theorem ut_closed_task_is_final:
  assumes "tasks_ok zone_ok (us_table s)"
    and "row_of ur_id i (us_table s) = Some r" "ur_status r \<noteq> UT_ACTIVE"
    and "\<And>env key tr. Reopen_Task env key i tr \<notin> set qs"
  shows "row_of ur_id i (us_table (fold (ut_run enc zone_ok san) qs s)) = Some r"
  using assms
proof (induction qs arbitrary: s)
  case (Cons q qs)
  from ut_run_step [OF Cons.prems(1), of q enc san] obtain key where
    "task_step zone_ok key (may_move q) (us_table s) (us_table (ut_run enc zone_ok san q s))" by blast
  from task_step_row [OF this Cons.prems(2)] obtain r' where
    r': "row_of ur_id i (us_table (ut_run enc zone_ok san q s)) = Some r'"
      "r' = r \<or> may_move q i (ur_status r) (ur_status r')" by blast
  have "\<not> may_move q i (ur_status r) b" for b
    using Cons.prems(3,4) by (cases q) auto
  with r' have "row_of ur_id i (us_table (ut_run enc zone_ok san q s)) = Some r" by blast
  from Cons.IH [OF ut_run_ok [OF Cons.prems(1)] this Cons.prems(3)] Cons.prems(4) show ?case by simp
qed simp

definition done_task :: user_task where
  "done_task = closed_task UT_COMPLETED 8000000 [] sample_task"

definition done_tasks :: ut_service where
  "done_tasks = sample_tasks\<lparr>us_store := (us_store sample_tasks)\<lparr>us_rows := [task_row done_task]\<rparr>\<rparr>"

lemma done_tasks_ok: "tasks_ok utc_zone (us_table done_tasks)"
proof -
  have "valid_task utc_zone done_task"
    using closed_task_facts(1) [OF sample_valid sample_owned] by (simp add: done_task_def)
  from tasks_ok_added [OF _ this, of "[]"] show ?thesis
    by (simp add: done_tasks_def done_task_def legacy_taken_def)
qed

theorem ut_closed_task_is_final_witness:
  "row_of ur_id ''ut_1'' (us_table (fold (ut_run isoformat utc_zone id)
     [Cancel_Task calm acme ''ut_1'' None [], Reopen_Task calm acme ''ut_2'' []] done_tasks)) =
   Some (task_row done_task)"
proof (rule ut_closed_task_is_final [OF done_tasks_ok])
  show "row_of ur_id ''ut_1'' (us_table done_tasks) = Some (task_row done_task)"
    by (simp add: done_tasks_def done_task_def closed_task_def Let_def sample_fields)
qed (simp_all add: done_task_def closed_task_def Let_def)

text \<open>A write that is followed by its message.\<close>

lemma published_after:
  assumes "bindS (on_tasks m) (\<lambda>r. bindS (ut_publish b topic (f r) tr st) (\<lambda>_. retS r)) s = (Inr t, s')"
  shows "\<exists>st'. m (us_store s) = (Inr t, st') \<and> us_table s' = us_rows st'"
proof -
  obtain x s1 where m: "on_tasks m s = (Inr x, s1)"
    and rest: "bindS (ut_publish b topic (f x) tr st) (\<lambda>_. retS x) s1 = (Inr t, s')"
    using assms by (auto simp: bindS_Inr [of "on_tasks m"])
  have "quiet (bindS (ut_publish b topic (f x) tr st) (\<lambda>_. retS x))"
    by (intro frame_rules)
  from quietD [OF this, of s1] rest have "us_table s' = us_table s1" by simp
  moreover from rest have "x = t" by (auto simp: bindS_Inr retS_def)
  ultimately show ?thesis using m by (auto simp: on_tasks_def split: prod.splits)
qed

text \<open>C18: what \<open>create\<close> returns is what the same workspace reads back; the title is stripped
  and the revision is the first.\<close>

theorem ut_create_then_get:
  assumes ok: "tasks_ok zone_ok (us_table s)" and run: "ut_create zone_ok san env q s = (Inr t, s')"
    and key: "workspace_identity key = workspace_identity (un_key q)" and io: "ue_read_io env' = None"
  shows "fst (ut_get zone_ok san env' key (ut_id t) tr s') = Inr t \<and>
    ut_title t = py_strip (un_title q) \<and> ut_due_at t = map_option utc_instant (un_due_at q) \<and> ut_revision t = 1"
proof -
  from run obtain created v where v: "validate_task zone_ok (new_values env q created) = Inr v"
    and commit: "bindS (on_tasks (task_create (ue_write_io env) v)) (\<lambda>r. bindS (ut_publish (ue_bus env)
      ''user_task.created'' (ut_id r) (un_trace_id q) ''ok'') (\<lambda>_. retS r)) s = (Inr t, s')"
    by (auto simp: ut_create_def catchS_Inr bindS_Inr [of "liftS r" for r] liftS_def)
  from published_after [OF commit] obtain st where
    st: "task_create (ue_write_io env) v (us_store s) = (Inr t, st)" and s': "us_table s' = us_rows st" by blast
  from st have t: "t = v" and table: "us_rows st = us_table s @ [task_row t]"
    and new: "row_of ur_id (ut_id t) (us_table s) = None"
    by (auto elim: task_create_cases)
  have fields: "t = task_of_values (new_values env q created)"
    using v by (simp add: t validate_task_Inr)
  then have "owned_by (normalize_workspace_key (un_key q)) (task_row t)"
    by (intro owned_workspace_metadata) (simp add: task_of_values_def new_values_def)
  then have owned: "owned_by key (task_row t)" by (simp add: owned_by_def key)
  have ok': "tasks_ok zone_ok (us_table s')"
    using ok run ut_create_step [of zone_ok q "\<lambda>j a b. False" s san env] task_step_ok by fastforce
  have "row_of ur_id (ut_id t) (us_table s') = Some (task_row t)"
    using new by (simp add: s' table)
  from ut_get_total [OF ok' this owned io] have "fst (ut_get zone_ok san env' key (ut_id t) tr s') = Inr t"
    by (metis fst_conv)
  then show ?thesis by (simp add: fields) (simp add: task_of_values_def new_values_def)
qed

theorem ut_create_then_get_witness:
  "\<exists>s. fst (ut_get utc_zone id calm acme ''ut_1'' [] s) = Inr sample_task \<and> ut_title sample_task = ''report''"
proof -
  from sample_created obtain s' where "ut_create utc_zone id calm sample_new initial_tasks = (Inr sample_task, s')"
    by blast
  from ut_create_then_get [OF _ this, of acme calm "[]"] show ?thesis
    by (auto simp: sample_table sample_new_def calm_def sample_fields)
qed

text \<open>A transition of an active task: the row is written, then the bus decides the outcome.\<close>

lemma ut_transition_commits:
  fixes t tr key zone_ok env target now
  defines "u \<equiv> (closed_task target now tr t)\<lparr>ut_revision := ut_revision t + 1\<rparr>"
  assumes ok: "tasks_ok zone_ok (us_table s)" and row: "row_of ur_id i (us_table s) = Some (task_row t)"
    and t: "owned_by key (task_row t)" "ut_status t = UT_ACTIVE" "target \<noteq> UT_ACTIVE"
    and rev: "expected = None \<or> expected = Some (ut_revision t)" "sql_int (ut_revision t)" "sql_int (ut_revision t + 1)"
    and env: "ue_read_io env = None" "ue_write_io env = None" "ue_now env = Aware now off"
  obtains s2 where "ut_transition zone_ok san env key i target expected tr s =
      bindS (catchS (\<lambda>_. (bus_result (ue_bus env) u, s2)) (failing env san (ut_status_value target) i tr))
        (\<lambda>r. bindS (ut_coordinate env) (\<lambda>_. retS r)) s"
    "us_table s2 = update_where (\<lambda>r. ur_id r = i) (\<lambda>_. task_row u) (us_table s)"
proof -
  let ?key = "normalize_workspace_key key"
  let ?t = "closed_task target now tr t"
  from t(1) have owned: "owned_by ?key (task_row t)" by simp
  obtain s1 where s1: "ut_get zone_ok san env ?key i tr s = (Inr t, s1)" "us_table s1 = us_table s"
    by (rule ut_get_total [OF ok row owned env(1)])
  have id: "ut_id ?t = i" using row_of_Some [OF row] by (simp add: closed_task_def Let_def)
  have row1: "row_of ur_id (ut_id ?t) (us_table s1) = Some (task_row t)" by (simp only: id s1(2) row)
  have legacy: "ur_legacy_source_id (task_row t) = ut_legacy_source_id ?t"
    by (simp add: closed_task_def Let_def)
  obtain s2 where s2: "store_and_publish env ?key ?t (ut_revision t) (''user_task.'' @ ut_status_value target) tr s1 =
      (bus_result (ue_bus env) u, s2)"
    "us_table s2 = update_where (\<lambda>r. ur_id r = ut_id ?t) (\<lambda>_. task_row u) (us_table s1)"
    by (rule store_and_publish_total [OF ok [folded s1(2)] row1 _ owned legacy rev(2,3) env(2)]) (simp_all add: u_def)
  have now: "ut_now env = Inr now" by (simp add: ut_now_def env(3))
  have expected: "or_old expected (ut_revision t) = ut_revision t" "\<not> (expected \<noteq> None \<and> expected \<noteq> Some (ut_revision t))"
    using rev(1) by (auto simp: or_old_def)
  have "ut_transition zone_ok san env key i target expected tr s =
      bindS (catchS (\<lambda>_. (bus_result (ue_bus env) u, s2)) (failing env san (ut_status_value target) i tr))
        (\<lambda>r. bindS (ut_coordinate env) (\<lambda>_. retS r)) s"
    using s2(1) t(3) rev(1) expected
    by (cases expected) (simp_all add: ut_transition_def Let_def bindS_run s1(1) t(2) liftS_def now catchS_def)
  with s2(2) show ?thesis by (intro that) (simp_all add: s1(2) id)
qed

text \<open>Completing an active task succeeds, in one further revision, with the clock's instant,
  unless SQLite, the bus or the lifecycle coordinator fails; only this row changes.\<close>

theorem ut_complete_succeeds:
  assumes ok: "tasks_ok zone_ok (us_table s)" and row: "row_of ur_id i (us_table s) = Some (task_row t)"
    and t: "owned_by key (task_row t)" "ut_status t = UT_ACTIVE"
    and rev: "expected = None \<or> expected = Some (ut_revision t)" "sql_int (ut_revision t)" "sql_int (ut_revision t + 1)"
    and env: "ue_read_io env = None" "ue_write_io env = None" "ue_now env = Aware now off"
      "\<And>x. ue_bus env \<noteq> Bus_Raises x" "\<And>x. ue_coordinator env \<noteq> Coordination_Raises x"
  shows "\<exists>s'. ut_complete zone_ok san env key i expected tr s =
      (Inr ((closed_task UT_COMPLETED now tr t)\<lparr>ut_revision := ut_revision t + 1\<rparr>), s') \<and>
    us_table s' = update_where (\<lambda>r. ur_id r = i)
      (\<lambda>_. task_row ((closed_task UT_COMPLETED now tr t)\<lparr>ut_revision := ut_revision t + 1\<rparr>)) (us_table s)"
proof -
  obtain s2 where s2: "ut_transition zone_ok san env key i UT_COMPLETED expected tr s =
      bindS (catchS (\<lambda>_. (bus_result (ue_bus env) ((closed_task UT_COMPLETED now tr t)\<lparr>ut_revision := ut_revision t + 1\<rparr>), s2))
          (failing env san (ut_status_value UT_COMPLETED) i tr)) (\<lambda>r. bindS (ut_coordinate env) (\<lambda>_. retS r)) s"
    "us_table s2 = update_where (\<lambda>r. ur_id r = i)
      (\<lambda>_. task_row ((closed_task UT_COMPLETED now tr t)\<lparr>ut_revision := ut_revision t + 1\<rparr>)) (us_table s)"
    by (rule ut_transition_commits [OF ok row t ut_status.distinct(2) rev env(1-3)])
  have bus: "bus_result (ue_bus env) x = Inr x" for x :: user_task
    using env(4) by (simp add: bus_result_def split: bus_mode.split)
  have coordinate: "fst (ut_coordinate env s2) = Inr ()" "us_table (snd (ut_coordinate env s2)) = us_table s2"
    using env(5) by (simp_all add: ut_coordinate_def split: coordination.split)
  with s2 show ?thesis
    by (simp add: ut_complete_def bindS_run catchS_def bus retS_def case_prod_beta split: sum.split)
qed

theorem ut_complete_succeeds_witness:
  "\<exists>s'. ut_complete utc_zone id calm acme ''ut_1'' (Some 1) [] sample_tasks =
      (Inr ((closed_task UT_COMPLETED 7000000 [] sample_task)\<lparr>ut_revision := 2\<rparr>), s') \<and>
    us_table s' = [task_row ((closed_task UT_COMPLETED 7000000 [] sample_task)\<lparr>ut_revision := 2\<rparr>)]"
proof -
  have "row_of ur_id ''ut_1'' (us_table sample_tasks) = Some (task_row sample_task)"
    by (simp add: sample_table sample_fields)
  from ut_complete_succeeds [OF sample_tasks_ok this sample_owned sample_fields(2), of "Some 1" calm 7000000 0 id "[]"]
  show ?thesis
    by (auto simp: sample_fields calm_def sql_int_def sample_table update_where_def)
qed

section \<open>Where the code falls short\<close>

definition no_filter :: ut_query where
  "no_filter = \<lparr>uq_status = None, uq_priority = None, uq_due_from = None, uq_due_to = None,
     uq_completed_from = None, uq_completed_to = None, uq_cancelled_from = None,
     uq_cancelled_to = None, uq_overdue = None, uq_limit = 100, uq_offset = 0\<rparr>"

lemma task_list_decodes:
  assumes "fst (task_list enc zone_ok io key q at s) = Inr ts"
  shows "decode_rows (task_of_row zone_ok) (sql_page (nat (uq_limit q)) (nat (uq_offset q))
    (matching_rows enc key q at (us_rows s))) = Inr ts"
  using assms by (simp add: task_list_def task_error_def task_done_def split: if_splits option.splits sum.splits)

text \<open>What a call of \<open>failing\<close> raises: the exception of the bus, if it refuses the message too.\<close>

definition announced :: "bus_mode \<Rightarrow> exn \<Rightarrow> exn" where
  "announced b e = (case b of Bus_Raises x \<Rightarrow> x | _ \<Rightarrow> e)"

lemma failing_outcome:
  "\<exists>s'. failing env san op i tr e s = (Inl (announced (ue_bus_failed env) (task_failure san op tr e)), s') \<and>
    us_table s' = us_table s"
  by (cases "ue_bus_failed env") (simp_all add: failing_def bindS_def ut_publish_def failS_def announced_def)

lemma task_failure_of_class:
  "\<exists>f. task_failure san op tr (Raise c m) = Failed f \<and> fi_category f = task_category (Raise c m) \<and>
    (fi_retryable f \<longleftrightarrow> task_category (Raise c m) = PERSISTENCE_FAILURE)"
  by (simp add: task_failure_def failure_from_exception_def Let_def split: prod.split)



text \<open>With timestamps in pydantic's text form, the filter \<open>overdue=True\<close> lists the active
  tasks of the workspace whose due time precedes the instant asked for, in their order, except
  those due on a whole second within the second of that instant, which \<open>is_overdue\<close> calls
  overdue.\<close>

theorem ut_overdue_list:
  assumes enc: "zulu_encoding enc" and cal: "\<And>r d. r \<in> set (us_table s) \<Longrightarrow> ur_due_at r = Some d \<Longrightarrow> in_calendar d"
    and now: "in_calendar (utc_instant at)" "\<not> is_naive at"
    and few: "length (us_table s) \<le> 500"
    and run: "ut_list enc zone_ok san env key None (no_filter\<lparr>uq_overdue := Some True\<rparr>) (Some 500) None
      (Some at) tr s = (Inr ts, s')"
  shows "Inr ` set ts = task_of_row zone_ok ` {r \<in> set (us_table s). owned_by key r \<and> ur_status r = UT_ACTIVE \<and>
      (\<exists>d. ur_due_at r = Some d \<and> d < utc_instant at \<and>
         (second_of d < second_of (utc_instant at) \<or> micro_of d \<noteq> 0))}"
proof -
  let ?q = "raw_query (no_filter\<lparr>uq_overdue := Some True\<rparr>) (Some 500) None"
  let ?rows = "matching_rows enc (normalize_workspace_key key) ?q (Some (utc_instant at)) (us_table s)"
  have "resolve_query None (no_filter\<lparr>uq_overdue := Some True\<rparr>) (Some 500) None = Inr ?q"
    by (simp add: resolve_query_def validate_query_def raw_query_def no_filter_def opt_aware_def range_ok_def)
  moreover have "ut_as_of (Some at) = Inr (Some (utc_instant at))"
    using now(2) by (simp add: ut_as_of_def)
  ultimately have "fst (task_list enc zone_ok (ue_read_io env) (normalize_workspace_key key) ?q
      (Some (utc_instant at)) (us_store s)) = Inr ts"
    using run by (auto simp: ut_list_def catchS_Inr bindS_Inr liftS_def on_tasks_def split: prod.splits)
  then have decoded: "decode_rows (task_of_row zone_ok) (sql_page (nat (uq_limit ?q)) (nat (uq_offset ?q)) ?rows) = Inr ts"
    by (rule task_list_decodes)
  have page: "uq_limit ?q = 500" "uq_offset ?q = 0" by (simp_all add: raw_query_def)
  have "length ?rows \<le> 500"
    using few le_trans [OF length_filter_le few] by (simp add: matching_rows_def)
  with decoded have "map (task_of_row zone_ok) ?rows = map Inr ts"
    by (simp add: page sql_page_def decode_rows_Inr)
  then have "Inr ` set ts = task_of_row zone_ok ` set ?rows"
    by (metis set_map)
  moreover have "query_clauses enc ?q r \<and> overdue_clauses enc True (utc_instant at) r \<longleftrightarrow>
      ur_status r = UT_ACTIVE \<and> (\<exists>d. ur_due_at r = Some d \<and> text_before d (utc_instant at))"
    if "r \<in> set (us_table s)" for r
    using cal [OF that] col_tests(2) [OF enc _ now(1)]
    by (cases "ur_due_at r")
      (auto simp: query_clauses_def raw_query_def no_filter_def opt_clause_def overdue_clauses_def col_less_def)
  then have "set ?rows = {r \<in> set (us_table s). owned_by key r \<and> ur_status r = UT_ACTIVE \<and>
      (\<exists>d. ur_due_at r = Some d \<and> text_before d (utc_instant at))}"
    by (auto simp: matching_rows_def opt_clause_def raw_query_def)
  ultimately show ?thesis by (simp add: text_before_def)
qed

lemma task_list_total:
  assumes ok: "tasks_ok zone_ok (us_rows s)" and "uq_overdue q = None \<or> at \<noteq> None"
    and "sql_int (uq_limit q)" "sql_int (uq_offset q)"
  obtains ts where "task_list enc zone_ok None key q at s = task_done ts s"
proof -
  let ?rows = "sql_page (nat (uq_limit q)) (nat (uq_offset q)) (matching_rows enc key q at (us_rows s))"
  have "\<exists>t. task_of_row zone_ok r = Inr t" if "r \<in> set ?rows" for r
  proof -
    from set_sql_page [OF that] have "r \<in> set (us_rows s)" by (simp add: matching_rows_def)
    from tasks_ok_row [OF ok this] show ?thesis by blast
  qed
  then obtain f where "\<forall>r \<in> set ?rows. task_of_row zone_ok r = Inr (f r)" by metis
  then have "map (task_of_row zone_ok) ?rows = map Inr (map f ?rows)" by simp
  then have "\<exists>ts. map (task_of_row zone_ok) ?rows = map Inr ts" by blast
  then obtain ts where "decode_rows (task_of_row zone_ok) ?rows = Inr ts"
    unfolding decode_rows_Inr by blast
  with assms(2-4) tasks_ok_not_malformed [OF ok] have "task_list enc zone_ok None key q at s = task_done ts s"
    by (auto simp: task_list_def)
  then show ?thesis by (rule that)
qed

theorem ut_overdue_list_witness:
  "\<exists>s'. ut_list zulu_text utc_zone id calm acme None (no_filter\<lparr>uq_overdue := Some True\<rparr>) (Some 500) None
      (Some (Aware 9500000 0)) [] sample_tasks = (Inr [], s') \<and>
     ut_is_overdue calm sample_task (Some (Aware 9500000 0)) = Inr True"
proof -
  let ?q = "raw_query (no_filter\<lparr>uq_overdue := Some True\<rparr>) (Some 500) None"
  have due: "ut_due_at sample_task = Some 9000000" by code_simp
  have enc: "zulu_encoding zulu_text" by (simp add: zulu_encoding_def)
  have cal: "in_calendar 9000000" "in_calendar 9500000"
    by (simp_all add: in_calendar_def max_instant_def max_day_def us_per_second_def)
  have "resolve_query None (no_filter\<lparr>uq_overdue := Some True\<rparr>) (Some 500) None = Inr ?q"
    by (simp add: resolve_query_def validate_query_def raw_query_def no_filter_def opt_aware_def range_ok_def)
  moreover have q: "uq_overdue ?q = None \<or> Some (9500000 :: instant) \<noteq> None" "sql_int (uq_limit ?q)" "sql_int (uq_offset ?q)"
    by (simp_all add: raw_query_def sql_int_def)
  obtain ts where "task_list zulu_text utc_zone None (normalize_workspace_key acme) ?q (Some 9500000)
      (us_store sample_tasks) = task_done ts (us_store sample_tasks)"
    by (rule task_list_total [OF sample_tasks_ok q])
  ultimately have "\<exists>s'. ut_list zulu_text utc_zone id calm acme None (no_filter\<lparr>uq_overdue := Some True\<rparr>)
      (Some 500) None (Some (Aware 9500000 0)) [] sample_tasks = (Inr ts, s')"
    by (simp add: ut_list_def catchS_def bindS_run liftS_def on_tasks_def ut_as_of_def calm_def task_done_def)
  then obtain s' where run: "ut_list zulu_text utc_zone id calm acme None (no_filter\<lparr>uq_overdue := Some True\<rparr>)
      (Some 500) None (Some (Aware 9500000 0)) [] sample_tasks = (Inr ts, s')" by blast
  have seconds: "second_of 9000000 = 9" "second_of 9500000 = 9" "micro_of 9000000 = 0"
    by code_simp+
  have "Inr ` set ts = ({} :: (exn + user_task) set)"
    using ut_overdue_list [OF enc _ _ _ _ run] cal due seconds by (simp add: sample_table)
  with run show ?thesis
    by (auto simp: ut_is_overdue_def ut_as_of_def task_overdue_def due sample_fields)
qed

end
