(* ===== verification/Chunking.thy ===== *)
theory Chunking
  imports Failures
begin

text \<open>
  \<open>core/knowledge/chunking.py\<close>: the strategies that cut a document into chunks, and the factory
  that builds one from a name and keyword arguments.  A text is the list of its code points, so
  that \<open>length\<close> is Python's \<open>len\<close>.  Sizes and overlaps are Python ints without a check, so a
  chunker need not return: \<open>None\<close> is "runs forever".  The random identifier of a chunk and the
  document's identifier, copied into each chunk, are left out.
\<close>

section \<open>Texts\<close>

type_synonym points = "int list"

record chunk =
  ck_index :: nat
  ck_content :: points
  ck_tokens :: nat

text \<open>\<open>text[a:b]\<close>: negative bounds count from the end.\<close>

definition slice_bound :: "nat \<Rightarrow> int \<Rightarrow> nat" where
  "slice_bound n a = nat (min (int n) (if a < 0 then max 0 (int n + a) else a))"

definition py_slice :: "int \<Rightarrow> int \<Rightarrow> points \<Rightarrow> points" where
  "py_slice a b s =
    (let i = slice_bound (length s) a; j = slice_bound (length s) b in take (j - i) (drop i s))"

text \<open>The code points that \<open>strip()\<close> removes and that the pattern \<open>\s\<close> matches.\<close>

definition space_point :: "int \<Rightarrow> bool" where
  "space_point c =
    (c \<in> {0x09, 0x0A, 0x0B, 0x0C, 0x0D, 0x1C, 0x1D, 0x1E, 0x1F, 0x20, 0x85, 0xA0, 0x1680,
      0x2000, 0x2001, 0x2002, 0x2003, 0x2004, 0x2005, 0x2006, 0x2007, 0x2008, 0x2009, 0x200A,
      0x2028, 0x2029, 0x202F, 0x205F, 0x3000})"

definition strip_text :: "points \<Rightarrow> points" where
  "strip_text s = rev (dropWhile space_point (rev (dropWhile space_point s)))"

lemma length_dropWhile_le [simp]: "length (dropWhile P xs) \<le> length xs"
  by (induction xs) auto

lemma strip_text_length: "length (strip_text s) \<le> length s"
  unfolding strip_text_def length_rev
  by (rule le_trans [OF length_dropWhile_le]) simp

text \<open>\<open>text.split(sep)\<close> with a separator that is not empty.\<close>

function split_text :: "points \<Rightarrow> points \<Rightarrow> points \<Rightarrow> points list" where
  "split_text sep acc s =
    (if s = [] then [rev acc]
     else if sep \<noteq> [] \<and> take (length sep) s = sep
     then rev acc # split_text sep [] (drop (length sep) s)
     else split_text sep (hd s # acc) (tl s))"
  by pat_completeness auto
termination
proof (relation "measure (\<lambda>(sep, acc, s). length s)")
  fix sep acc s :: points
  assume "s \<noteq> []" "sep \<noteq> [] \<and> take (length sep) s = sep"
  then show "((sep, [], drop (length sep) s), sep, acc, s) \<in> measure (\<lambda>(sep, acc, s). length s)"
    by (cases sep) auto
qed auto

declare split_text.simps [simp del]

section \<open>Fixed length and sliding window\<close>

text \<open>The two loops, each from a given start; they may not end.\<close>

partial_function (option) fixed_from :: "int \<Rightarrow> int \<Rightarrow> points \<Rightarrow> int \<Rightarrow> nat \<Rightarrow> chunk list option" where
  "fixed_from width overlap s start idx =
    (if start < int (length s) then
       (let stop = min (start + width) (int (length s));
            content = py_slice start stop s
        in Option.bind (fixed_from width overlap s
             (if stop < int (length s) then stop - overlap else stop) (Suc idx))
             (\<lambda>cs. Some (\<lparr>ck_index = idx, ck_content = content, ck_tokens = length content\<rparr> # cs)))
     else Some [])"

definition fixed_length_chunks :: "int \<Rightarrow> int \<Rightarrow> points \<Rightarrow> chunk list option" where
  "fixed_length_chunks width overlap s = fixed_from width overlap s 0 0"

partial_function (option) window_from :: "int \<Rightarrow> int \<Rightarrow> points \<Rightarrow> int \<Rightarrow> nat \<Rightarrow> chunk list option" where
  "window_from width overlap s start idx =
    (if start < int (length s) then
       (let stop = min (start + width) (int (length s));
            content = py_slice start stop s;
            c = \<lparr>ck_index = idx, ck_content = content, ck_tokens = length content\<rparr>
        in if stop \<ge> int (length s) then Some [c]
           else Option.bind (window_from width overlap s (stop - overlap) (Suc idx)) (\<lambda>cs. Some (c # cs)))
     else Some [])"

definition token_window_chunks :: "int \<Rightarrow> int \<Rightarrow> points \<Rightarrow> chunk list option" where
  "token_window_chunks width overlap s = window_from width overlap s 0 0"

section \<open>Sentences and paragraphs\<close>

definition terminator :: "int \<Rightarrow> bool" where
  "terminator c = (c \<in> {0x3002, 0x2E, 0x21, 0x3F, 0xFF01, 0xFF1F, 0x0A})"

text \<open>
  \<open>re.split\<close> with a lookbehind for a terminator and \<open>\s*\<close>: cut behind every terminator and
  drop the white space that follows it.
\<close>

function split_sentences :: "points \<Rightarrow> points \<Rightarrow> points list" where
  "split_sentences acc s =
    (case s of
       [] \<Rightarrow> [rev acc]
     | c # s' \<Rightarrow>
         if terminator c then rev (c # acc) # split_sentences [] (dropWhile space_point s')
         else split_sentences (c # acc) s')"
  by pat_completeness auto
termination
proof (relation "measure (\<lambda>(acc, s). length s)")
  fix acc s s' :: points and c
  assume "s = c # s'"
  then show "(([], dropWhile space_point s'), acc, s) \<in> measure (\<lambda>(acc, s). length s)"
    using length_dropWhile_le [of space_point s'] by (simp add: le_imp_less_Suc)
qed auto

declare split_sentences.simps [simp del]

definition merged_chunk :: "nat \<Rightarrow> points \<Rightarrow> chunk" where
  "merged_chunk idx current =
    \<lparr>ck_index = idx, ck_content = strip_text current, ck_tokens = length current\<rparr>"

text \<open>The loop that both strategies share, with their different joints.\<close>

fun merge_parts :: "int \<Rightarrow> points \<Rightarrow> points list \<Rightarrow> points \<Rightarrow> nat \<Rightarrow> chunk list" where
  "merge_parts width joint [] current idx =
     (if strip_text current \<noteq> [] then [merged_chunk idx current] else [])"
| "merge_parts width joint (p # ps) current idx =
     (if int (length current) + int (length p) > width \<and> current \<noteq> []
      then merged_chunk idx current # merge_parts width joint ps p (Suc idx)
      else merge_parts width joint ps (if current \<noteq> [] then current @ joint @ p else current @ p) idx)"

definition sentence_chunks :: "int \<Rightarrow> points \<Rightarrow> chunk list" where
  "sentence_chunks width s =
     merge_parts width [0x20] (filter (\<lambda>p. strip_text p \<noteq> []) (split_sentences [] s)) [] 0"

definition paragraph_chunks :: "int \<Rightarrow> points \<Rightarrow> chunk list" where
  "paragraph_chunks width s =
     merge_parts width [0x0A, 0x0A]
       (map strip_text (filter (\<lambda>p. strip_text p \<noteq> []) (split_text [0x0A, 0x0A] [] s))) [] 0"

section \<open>Markdown\<close>

text \<open>\<open>^#{1,6}\s\<close> at the beginning of a line.\<close>

definition header_here :: "points \<Rightarrow> bool" where
  "header_here s =
    (let k = length (takeWhile (\<lambda>c. c = 0x23) s) in
     1 \<le> k \<and> k \<le> 6 \<and> k < length s \<and> space_point (s ! k))"

text \<open>Cut before every header; \<open>start\<close> says that a line begins here.\<close>

fun split_headers :: "bool \<Rightarrow> points \<Rightarrow> points \<Rightarrow> points list" where
  "split_headers start acc [] = [rev acc]"
| "split_headers start acc (c # s) =
     (if start \<and> header_here (c # s)
      then rev acc # split_headers (c = 0x0A) [c] s
      else split_headers (c = 0x0A) (c # acc) s)"

text \<open>A short section takes its position in the enumeration as its index, a piece of a long one
  the number of chunks so far; the pieces are cut with the default overlap of 50.\<close>

definition renumber :: "nat \<Rightarrow> chunk list \<Rightarrow> chunk list" where
  "renumber n cs = map (\<lambda>(i, c). c\<lparr>ck_index := n + i\<rparr>) (enumerate 0 cs)"

fun markdown_sections :: "int \<Rightarrow> (nat \<times> points) list \<Rightarrow> chunk list \<Rightarrow> chunk list option" where
  "markdown_sections width [] chunks = Some chunks"
| "markdown_sections width ((idx, section) # rest) chunks =
     (if int (length section) \<le> width
      then markdown_sections width rest
        (chunks @ [\<lparr>ck_index = idx, ck_content = section, ck_tokens = length section\<rparr>])
      else (case fixed_length_chunks width 50 section of
              None \<Rightarrow> None
            | Some cs \<Rightarrow> markdown_sections width rest (chunks @ renumber (length chunks) cs)))"

definition markdown_chunks :: "int \<Rightarrow> points \<Rightarrow> chunk list option" where
  "markdown_chunks width s = markdown_sections width
     (enumerate 0 (filter (\<lambda>x. x \<noteq> []) (map strip_text (split_headers True [] s)))) []"

section \<open>Recursive\<close>

definition default_separators :: "points list" where
  "default_separators = [[0x0A, 0x0A], [0x0A], [0x2E, 0x20], [0x3002], [0x20], []]"

text \<open>The loop over the parts: \<open>sub\<close> is the recursive call with the remaining separators.\<close>

fun gather_parts ::
  "(points \<Rightarrow> chunk list option) \<Rightarrow> int \<Rightarrow> points \<Rightarrow> points list \<Rightarrow> points \<Rightarrow> chunk list \<Rightarrow> chunk list option" where
  "gather_parts sub width sep [] current chunks =
     (if current = [] then Some chunks
      else (case sub current of None \<Rightarrow> None | Some cs \<Rightarrow> Some (chunks @ renumber (length chunks) cs)))"
| "gather_parts sub width sep (part # parts) current chunks =
     (let candidate = (if current \<noteq> [] then current @ sep @ part else part) in
      if int (length candidate) > width
      then (if current = [] then gather_parts sub width sep parts part chunks
            else (case sub current of
                    None \<Rightarrow> None
                  | Some cs \<Rightarrow> gather_parts sub width sep parts part (chunks @ renumber (length chunks) cs)))
      else gather_parts sub width sep parts candidate chunks)"

text \<open>An empty list of separators, an \<open>IndexError\<close> in the code, is never passed.\<close>

fun recursive_split :: "int \<Rightarrow> int \<Rightarrow> points list \<Rightarrow> points \<Rightarrow> chunk list option" where
  "recursive_split width overlap [] s = fixed_length_chunks width overlap s"
| "recursive_split width overlap (sep # seps) s =
     (if sep = [] \<or> seps = [] then fixed_length_chunks width overlap s
      else gather_parts (recursive_split width overlap seps) width sep (split_text sep [] s) [] [])"

definition recursive_chunks :: "int \<Rightarrow> int \<Rightarrow> points list option \<Rightarrow> points \<Rightarrow> chunk list option" where
  "recursive_chunks width overlap separators s =
     recursive_split width overlap
       (case separators of None \<Rightarrow> default_separators | Some seps \<Rightarrow>
          if seps = [] then default_separators else seps) s"

section \<open>The factory\<close>

datatype chunker =
    Fixed_Length int int
  | Sentence int
  | Paragraph int
  | Markdown int
  | Recursive int int
  | Token_Window int int

text \<open>The keyword parameters of the constructors with their defaults.\<close>

definition chunker_parameters :: "string \<Rightarrow> (string \<times> int) list option" where
  "chunker_parameters strategy = map_of
     [(''fixed_length'', [(''chunk_size'', 512), (''overlap'', 50)]),
      (''sentence'', [(''chunk_size'', 512), (''overlap'', 0)]),
      (''paragraph'', [(''chunk_size'', 1024), (''overlap'', 0)]),
      (''markdown'', [(''chunk_size'', 1024)]),
      (''recursive'', [(''chunk_size'', 512), (''overlap'', 50)]),
      (''token_window'', [(''window_size'', 256), (''overlap'', 64)])] strategy"

definition argument :: "(string \<times> int) list \<Rightarrow> (string \<times> int) list \<Rightarrow> string \<Rightarrow> int" where
  "argument defaults given k = (case map_of given k of Some v \<Rightarrow> v | None \<Rightarrow> the (map_of defaults k))"

definition build_chunker :: "string \<Rightarrow> (string \<Rightarrow> int) \<Rightarrow> chunker" where
  "build_chunker strategy arg =
    (if strategy = ''fixed_length'' then Fixed_Length (arg ''chunk_size'') (arg ''overlap'')
     else if strategy = ''sentence'' then Sentence (arg ''chunk_size'')
     else if strategy = ''paragraph'' then Paragraph (arg ''chunk_size'')
     else if strategy = ''markdown'' then Markdown (arg ''chunk_size'')
     else if strategy = ''recursive'' then Recursive (arg ''chunk_size'') (arg ''overlap'')
     else Token_Window (arg ''window_size'') (arg ''overlap''))"

definition get_chunker :: "string \<Rightarrow> (string \<times> int) list \<Rightarrow> exn + chunker" where
  "get_chunker strategy given =
    (case chunker_parameters strategy of
       None \<Rightarrow> Inl (Raise ValueError ''Unknown chunking strategy'')
     | Some defaults \<Rightarrow>
         if list_all (\<lambda>(k, v). map_of defaults k \<noteq> None) given
         then Inr (build_chunker strategy (argument defaults given))
         else Inl (Raise TypeError ''unexpected keyword argument''))"

text \<open>\<open>KnowledgeManager.__init__\<close> passes the two settings of its configuration.\<close>

definition configured_chunker :: "string \<Rightarrow> int \<Rightarrow> int \<Rightarrow> exn + chunker" where
  "configured_chunker strategy chunk_size chunk_overlap =
     get_chunker strategy [(''chunk_size'', chunk_size), (''overlap'', chunk_overlap)]"

fun run_chunker :: "chunker \<Rightarrow> points \<Rightarrow> chunk list option" where
  "run_chunker (Fixed_Length width overlap) s = fixed_length_chunks width overlap s"
| "run_chunker (Sentence width) s = Some (sentence_chunks width s)"
| "run_chunker (Paragraph width) s = Some (paragraph_chunks width s)"
| "run_chunker (Markdown width) s = markdown_chunks width s"
| "run_chunker (Recursive width overlap) s = recursive_chunks width overlap None s"
| "run_chunker (Token_Window width overlap) s = token_window_chunks width overlap s"

section \<open>The loop with a usable step\<close>

text \<open>What the loop produces from a start inside the text when every step moves forward.\<close>

function windows :: "nat \<Rightarrow> nat \<Rightarrow> points \<Rightarrow> nat \<Rightarrow> points list" where
  "windows width overlap s start =
    (if start \<ge> length s then []
     else take width (drop start s) #
       (if start + width \<ge> length s \<or> width \<le> overlap then []
        else windows width overlap s (start + width - overlap)))"
  by pat_completeness auto
termination
  by (relation "measure (\<lambda>(width, overlap, s, start). length s - start)") auto

declare windows.simps [simp del]

definition numbered :: "nat \<Rightarrow> points list \<Rightarrow> chunk list" where
  "numbered n ps = map (\<lambda>(i, p). \<lparr>ck_index = n + i, ck_content = p, ck_tokens = length p\<rparr>) (enumerate 0 ps)"

lemma numbered_simps [simp]:
  "numbered n [] = []"
  "numbered n (p # ps) = \<lparr>ck_index = n, ck_content = p, ck_tokens = length p\<rparr> # numbered (Suc n) ps"
proof -
  have "enumerate 1 ps = map (\<lambda>(i, p). (Suc i, p)) (enumerate 0 ps)"
    by (rule nth_equalityI) (simp_all add: nth_enumerate_eq)
  then show "numbered n (p # ps) = \<lparr>ck_index = n, ck_content = p, ck_tokens = length p\<rparr> # numbered (Suc n) ps"
    by (simp add: numbered_def case_prod_beta)
qed (simp add: numbered_def)

lemma numbered_facts [simp]: "map ck_content (numbered n ps) = ps" "length (numbered n ps) = length ps"
  "map ck_index (numbered n ps) = [n..<n + length ps]"
  by (induction ps arbitrary: n) (simp_all add: upt_conv_Cons del: upt_Suc)

lemma slice_inside: "a \<le> b \<Longrightarrow> b \<le> length s \<Longrightarrow> py_slice (int a) (int b) s = take (b - a) (drop a s)"
  by (simp add: py_slice_def slice_bound_def Let_def)

lemma fixed_from_windows:
  "overlap < width \<Longrightarrow>
   fixed_from (int width) (int overlap) s (int start) idx = Some (numbered idx (windows width overlap s start))"
proof (induction width overlap s start arbitrary: idx rule: windows.induct)
  case (1 width overlap s start)
  show ?case
  proof (cases "start < length s")
    case True
    show ?thesis
    proof (cases "start + width < length s")
      case more: True
      then have stop: "min (int start + int width) (int (length s)) = int (start + width)" by simp
      have "fixed_from (int width) (int overlap) s (int (start + width - overlap)) (Suc idx) =
          Some (numbered (Suc idx) (windows width overlap s (start + width - overlap)))"
        using "1.IH" "1.prems" True more by simp
      moreover have "int (start + width - overlap) = int (start + width) - int overlap"
        using "1.prems" by (intro of_nat_diff) simp
      ultimately have rec: "fixed_from (int width) (int overlap) s (int (start + width) - int overlap) (Suc idx) =
          Some (numbered (Suc idx) (windows width overlap s (start + width - overlap)))" by metis
      have content: "py_slice (int start) (int (start + width)) s = take width (drop start s)"
        using more slice_inside [of start "start + width" s] by simp
      from more True "1.prems" show ?thesis
        by (subst fixed_from.simps)
          (simp add: stop content rec Let_def windows.simps [of _ _ _ start] del: of_nat_add of_nat_diff)
    next
      case False
      then have stop: "min (int start + int width) (int (length s)) = int (length s)" by simp
      have content: "py_slice (int start) (int (length s)) s = take width (drop start s)"
        using True False slice_inside [of start "length s" s] by simp
      from True False show ?thesis
        by (subst fixed_from.simps)
          (simp add: stop content Let_def windows.simps [of _ _ _ start] fixed_from.simps [of _ _ _ "int (length s)"])
    qed
  qed (simp add: windows.simps [of _ _ _ start] fixed_from.simps)
qed

lemma fixed_length_windows:
  "overlap < width \<Longrightarrow> fixed_length_chunks (int width) (int overlap) s = Some (numbered 0 (windows width overlap s 0))"
  using fixed_from_windows [of overlap width s 0 0] by (simp add: fixed_length_chunks_def)

text \<open>Dropping the overlap of every later piece gives the text back.\<close>

fun stitch :: "nat \<Rightarrow> points list \<Rightarrow> points" where
  "stitch overlap [] = []"
| "stitch overlap (p # ps) = p @ concat (map (drop overlap) ps)"

lemma windows_cover:
  "overlap < width \<Longrightarrow> stitch overlap (windows width overlap s start) = drop start s"
proof (induction width overlap s start rule: windows.induct)
  case (1 width overlap s start)
  show ?case
  proof (cases "start + width < length s")
    case True
    let ?k = "start + width - overlap"
    have rest: "stitch overlap (windows width overlap s ?k) = drop ?k s"
      using 1 True by simp
    have "windows width overlap s ?k \<noteq> []"
      using True by (simp add: windows.simps [of _ _ _ ?k])
    then obtain p ps where rec: "windows width overlap s ?k = p # ps"
      by (cases "windows width overlap s ?k") auto
    have "overlap \<le> length p"
      using rec True "1.prems" by (auto simp: windows.simps [of _ _ _ ?k] split: if_splits)
    with arg_cong [OF rest, of "drop overlap"] have "concat (map (drop overlap) (p # ps)) = drop overlap (drop ?k s)"
      by (simp add: rec del: drop_drop)
    with "1.prems" have "concat (map (drop overlap) (p # ps)) = drop (start + width) s"
      by simp
    with True "1.prems" rec show ?thesis
      by (simp add: windows.simps [of _ _ _ start]) (metis append_take_drop_id drop_drop add.commute)
  qed (simp add: windows.simps [of _ _ _ start])
qed

end
