(* ===== verification/Chunking_Properties.thy ===== *)
theory Chunking_Properties
  imports Chunking
begin

text \<open>
  What the chunkers promise: when the fixed-length loop returns, that its chunks cover the text,
  that the sliding window is the same function, that the recursive strategy keeps its bounds; and
  two strategies that the knowledge manager can never build.
\<close>

section \<open>Termination\<close>

lemma fixed_from_stuck:
  assumes "fixed_from width overlap s start idx = Some cs" "width \<le> overlap" "width < int (length s)" "s \<noteq> []"
  shows "0 < start"
proof -
  have "width \<le> overlap \<longrightarrow> width < int (length s) \<longrightarrow> s \<noteq> [] \<longrightarrow> 0 < start"
  proof (rule fixed_from.raw_induct [OF _ assms(1), where P = "\<lambda>width overlap s start idx cs.
      width \<le> overlap \<longrightarrow> width < int (length s) \<longrightarrow> s \<noteq> [] \<longrightarrow> 0 < start"], intro impI)
    fix f :: "int \<Rightarrow> int \<Rightarrow> points \<Rightarrow> int \<Rightarrow> nat \<Rightarrow> chunk list option"
    fix width overlap :: int and s :: points and start :: int and idx cs
    assume IH: "\<And>width overlap s start idx cs. f width overlap s start idx = Some cs \<Longrightarrow>
        width \<le> overlap \<longrightarrow> width < int (length s) \<longrightarrow> s \<noteq> [] \<longrightarrow> 0 < start"
      and step: "(if start < int (length s) then
          (let stop = min (start + width) (int (length s)); content = py_slice start stop s
           in Option.bind (f width overlap s (if stop < int (length s) then stop - overlap else stop) (Suc idx))
              (\<lambda>cs. Some (\<lparr>ck_index = idx, ck_content = content, ck_tokens = length content\<rparr> # cs)))
          else Some []) = Some cs"
      and w: "width \<le> overlap" "width < int (length s)" "s \<noteq> []"
    show "0 < start"
    proof (rule ccontr)
      assume "\<not> 0 < start"
      moreover from w(3) have "0 < int (length s)" by simp
      ultimately have "start < int (length s)" and "start + width < int (length s)"
        using w(2) by linarith+
      with step obtain cs' where "f width overlap s (start + width - overlap) (Suc idx) = Some cs'"
        by (auto simp: Let_def min_def bind_eq_Some_conv split: if_splits)
      from IH [OF this] w \<open>\<not> 0 < start\<close> show False by simp
    qed
  qed
  with assms(2-4) show ?thesis by blast
qed

text \<open>C20: the fixed-length chunker returns exactly when the overlap is smaller than the chunk
  size or the text fits into one chunk; otherwise it appends chunks forever.\<close>

theorem fixed_length_returns_iff:
  assumes "0 \<le> overlap"
  shows "(\<exists>cs. fixed_length_chunks width overlap s = Some cs) \<longleftrightarrow>
    overlap < width \<or> int (length s) \<le> max 0 width"
proof (cases "overlap < width")
  case True
  then have "fixed_length_chunks (int (nat width)) (int (nat overlap)) s =
      Some (numbered 0 (windows (nat width) (nat overlap) s 0))"
    using assms by (intro fixed_length_windows) simp
  with True assms show ?thesis by simp
next
  case False
  show ?thesis
  proof (cases "int (length s) \<le> max 0 width")
    case True
    then have "s = [] \<or> 0 < int (length s) \<and> min width (int (length s)) = int (length s)"
      by (cases "s = []") (auto simp: max_def min_def split: if_splits)
    then have "\<exists>cs. fixed_length_chunks width overlap s = Some cs"
      unfolding fixed_length_chunks_def
      by (subst fixed_from.simps) (auto simp: Let_def fixed_from.simps [of _ _ _ "int (length s)"] bind_eq_Some_conv)
    with True show ?thesis by blast
  next
    case long: False
    have "s \<noteq> []" "width < int (length s)" using long by auto
    with fixed_from_stuck [of width overlap s 0 0] False long have "fixed_length_chunks width overlap s = None"
      by (cases "fixed_length_chunks width overlap s") (auto simp: fixed_length_chunks_def)
    with False long show ?thesis by simp
  qed
qed

theorem fixed_length_returns_iff_witness:
  "fixed_length_chunks 2 2 [97, 98, 99] = None \<and> fixed_length_chunks 2 2 [97, 98] \<noteq> None"
  using fixed_length_returns_iff [of 2 2 "[97, 98, 99]"] fixed_length_returns_iff [of 2 2 "[97, 98]"]
  by auto

text \<open>C21: with a smaller overlap the chunks are numbered from 0, none is longer than the chunk
  size, and leaving out the overlap of every later chunk gives back the text.\<close>

theorem fixed_length_covers:
  assumes "overlap < width"
  shows "\<exists>cs. fixed_length_chunks (int width) (int overlap) s = Some cs \<and>
    map ck_index cs = [0..<length cs] \<and> (\<forall>c \<in> set cs. length (ck_content c) \<le> width) \<and>
    stitch overlap (map ck_content cs) = s"
proof -
  have "length p \<le> width" if "p \<in> set (windows width overlap s start)" for p start
    using that
  proof (induction width overlap s start rule: windows.induct)
    case (1 width overlap s start)
    from "1.prems" show ?case
      by (subst (asm) windows.simps) (auto simp: "1.IH" split: if_splits)
  qed
  then have "\<forall>c \<in> set (numbered 0 (windows width overlap s 0)). length (ck_content c) \<le> width"
    by (metis image_eqI list.set_map numbered_facts(1))
  with fixed_length_windows [OF assms] windows_cover [OF assms, of s 0] show ?thesis by simp
qed

theorem fixed_length_covers_witness:
  "\<exists>cs. fixed_length_chunks 3 1 [1, 2, 3, 4] = Some cs \<and> stitch 1 (map ck_content cs) = [1, 2, 3, 4]"
  using fixed_length_covers [of 1 3 "[1, 2, 3, 4]"] by auto

section \<open>The window is the fixed length\<close>

text \<open>One pass through either loop, before the end of the text.\<close>

definition chunk_at :: "points \<Rightarrow> int \<Rightarrow> int \<Rightarrow> nat \<Rightarrow> chunk" where
  "chunk_at s start stop idx =
    \<lparr>ck_index = idx, ck_content = py_slice start stop s, ck_tokens = length (py_slice start stop s)\<rparr>"

lemma fixed_from_pass:
  "fixed_from width overlap s start idx =
    (if start \<ge> int (length s) then Some []
     else if start + width < int (length s)
     then Option.bind (fixed_from width overlap s (start + width - overlap) (Suc idx))
       (\<lambda>cs. Some (chunk_at s start (start + width) idx # cs))
     else Some [chunk_at s start (int (length s)) idx])"
  by (subst fixed_from.simps)
    (simp add: Let_def chunk_at_def min_def fixed_from.simps [of _ _ _ "int (length s)"])

lemma window_from_pass:
  "window_from width overlap s start idx =
    (if start \<ge> int (length s) then Some []
     else if start + width < int (length s)
     then Option.bind (window_from width overlap s (start + width - overlap) (Suc idx))
       (\<lambda>cs. Some (chunk_at s start (start + width) idx # cs))
     else Some [chunk_at s start (int (length s)) idx])"
  by (subst window_from.simps) (simp add: Let_def chunk_at_def min_def)

lemma window_from_fixed:
  assumes "fixed_from width overlap s start idx = Some cs"
  shows "window_from width overlap s start idx = Some cs"
proof (rule fixed_from.raw_induct [OF _ assms, where P = "\<lambda>width overlap s start idx cs.
    window_from width overlap s start idx = Some cs"], goal_cases)
  case (1 f width overlap s start idx cs)
  show ?case
  proof (cases "start < int (length s) \<and> start + width < int (length s)")
    case True
    with 1(2) have "Option.bind (f width overlap s (start + width - overlap) (Suc idx))
        (\<lambda>cs. Some (chunk_at s start (start + width) idx # cs)) = Some cs"
      by (simp add: Let_def min_def chunk_at_def)
    then obtain cs' where "f width overlap s (start + width - overlap) (Suc idx) = Some cs'"
      and cs: "cs = chunk_at s start (start + width) idx # cs'"
      unfolding bind_eq_Some_conv by blast
    from 1(1) [OF this(1)] True show ?thesis by (subst window_from_pass) (simp add: cs)
  next
    case False
    show ?thesis
    proof (cases "start < int (length s)")
      case inside: True
      with False have "min (start + width) (int (length s)) = int (length s)" by simp
      with inside 1(2) have "Option.bind (f width overlap s (int (length s)) (Suc idx))
          (\<lambda>cs. Some (chunk_at s start (int (length s)) idx # cs)) = Some cs"
        by (simp add: Let_def chunk_at_def)
      then obtain cs' where "f width overlap s (int (length s)) (Suc idx) = Some cs'"
        and cs: "cs = chunk_at s start (int (length s)) idx # cs'"
        unfolding bind_eq_Some_conv by blast
      from 1(1) [OF this(1)] have "cs' = []" by (simp add: window_from_pass)
      with inside False show ?thesis by (subst window_from_pass) (simp add: cs)
    qed (use 1(2) in \<open>simp add: window_from_pass\<close>)
  qed
qed

lemma fixed_from_window:
  assumes "window_from width overlap s start idx = Some cs"
  shows "fixed_from width overlap s start idx = Some cs"
proof (rule window_from.raw_induct [OF _ assms, where P = "\<lambda>width overlap s start idx cs.
    fixed_from width overlap s start idx = Some cs"], goal_cases)
  case (1 f width overlap s start idx cs)
  show ?case
  proof (cases "start < int (length s) \<and> start + width < int (length s)")
    case True
    with 1(2) have "Option.bind (f width overlap s (start + width - overlap) (Suc idx))
        (\<lambda>cs. Some (chunk_at s start (start + width) idx # cs)) = Some cs"
      by (simp add: Let_def min_def chunk_at_def)
    then obtain cs' where "f width overlap s (start + width - overlap) (Suc idx) = Some cs'"
      and cs: "cs = chunk_at s start (start + width) idx # cs'"
      unfolding bind_eq_Some_conv by blast
    from 1(1) [OF this(1)] True show ?thesis by (subst fixed_from_pass) (simp add: cs)
  next
    case False
    with 1(2) show ?thesis
      by (subst fixed_from_pass) (auto simp: Let_def min_def chunk_at_def split: if_splits)
  qed
qed

text \<open>The sliding window strategy is the fixed-length strategy, for every size, overlap and
  text, also where neither returns.\<close>

theorem token_window_is_fixed_length:
  "token_window_chunks width overlap s = fixed_length_chunks width overlap s"
proof (cases "fixed_length_chunks width overlap s")
  case None
  then show ?thesis
    using fixed_from_window [of width overlap s 0 0]
    by (cases "window_from width overlap s 0 0") (auto simp: token_window_chunks_def fixed_length_chunks_def)
next
  case (Some cs)
  then show ?thesis
    using window_from_fixed [of width overlap s 0 0 cs]
    by (simp add: token_window_chunks_def fixed_length_chunks_def)
qed

section \<open>The recursive strategy\<close>

definition well_cut :: "int \<Rightarrow> chunk list \<Rightarrow> bool" where
  "well_cut width cs =
    (map ck_index cs = [0..<length cs] \<and> (\<forall>c \<in> set cs. int (length (ck_content c)) \<le> width))"

lemma renumber_facts: "length (renumber n cs) = length cs" "map ck_index (renumber n cs) = [n..<n + length cs]"
  "ck_content ` set (renumber n cs) = ck_content ` set cs"
proof -
  show "length (renumber n cs) = length cs" by (simp add: renumber_def)
  show "map ck_index (renumber n cs) = [n..<n + length cs]"
    by (rule nth_equalityI) (simp_all add: renumber_def nth_enumerate_eq)
  have "map ck_content (renumber n cs) = map ck_content cs"
    by (rule nth_equalityI) (simp_all add: renumber_def nth_enumerate_eq)
  then show "ck_content ` set (renumber n cs) = ck_content ` set cs" by (metis list.set_map)
qed

lemma well_cut_append:
  assumes "well_cut width cs" "well_cut width ds"
  shows "well_cut width (cs @ renumber (length cs) ds)"
proof -
  have "map ck_index (cs @ renumber (length cs) ds) = [0..<length cs] @ [length cs..<length cs + length ds]"
    using assms(1) by (simp add: well_cut_def renumber_facts)
  also have "\<dots> = [0..<length cs + length ds]"
    by (rule upt_add_eq_append [symmetric]) simp
  finally have indices: "map ck_index (cs @ renumber (length cs) ds) = [0..<length cs + length ds]" .
  have "int (length (ck_content c)) \<le> width" if "c \<in> set (renumber (length cs) ds)" for c
  proof -
    from that have "ck_content c \<in> ck_content ` set ds" using renumber_facts(3) by blast
    with assms(2) show ?thesis by (auto simp: well_cut_def)
  qed
  with assms(1) indices show ?thesis by (auto simp: well_cut_def renumber_facts)
qed

lemma gather_parts_well_cut:
  assumes sub: "\<And>s. \<exists>cs. sub s = Some cs \<and> well_cut width cs" and "well_cut width chunks"
  shows "\<exists>cs. gather_parts sub width sep parts current chunks = Some cs \<and> well_cut width cs"
  using assms(2)
proof (induction parts arbitrary: current chunks)
  case Nil
  obtain cs where "sub current = Some cs" "well_cut width cs" using sub by blast
  with Nil well_cut_append show ?case by simp
next
  case (Cons part parts)
  obtain cs where "sub current = Some cs" "well_cut width cs" using sub by blast
  with Cons.IH Cons.prems well_cut_append [OF Cons.prems] show ?case by (simp add: Let_def)
qed

lemma recursive_split_well_cut:
  assumes "0 \<le> overlap" "overlap < width"
  shows "\<exists>cs. recursive_split width overlap seps s = Some cs \<and> well_cut width cs"
proof -
  have fixed: "\<exists>cs. fixed_length_chunks width overlap s = Some cs \<and> well_cut width cs" for s
    using fixed_length_covers [of "nat overlap" "nat width" s] assms by (fastforce simp: well_cut_def)
  show ?thesis
  proof (induction seps arbitrary: s)
    case (Cons sep seps)
    have "well_cut width []" by (simp add: well_cut_def)
    from gather_parts_well_cut [OF Cons.IH this] fixed [of s] show ?case by simp
  qed (simp add: fixed)
qed

text \<open>C22: the recursive strategy, with any separators and an overlap below the chunk size, returns
  chunks that are numbered from 0 and no longer than the chunk size.\<close>

theorem recursive_keeps_bounds:
  assumes "0 \<le> overlap" "overlap < width"
  shows "\<exists>cs. recursive_chunks width overlap separators s = Some cs \<and>
    map ck_index cs = [0..<length cs] \<and> (\<forall>c \<in> set cs. int (length (ck_content c)) \<le> width)"
  using recursive_split_well_cut [OF assms] unfolding recursive_chunks_def well_cut_def by blast

theorem recursive_keeps_bounds_witness:
  "\<exists>cs. recursive_chunks 3 1 None [97, 32, 98, 99, 100, 101] = Some cs \<and> map ck_index cs = [0..<length cs]"
  using recursive_keeps_bounds [of 1 3 None "[97, 32, 98, 99, 100, 101]"] by auto

section \<open>What cannot be configured\<close>

text \<open>A knowledge manager, which always passes the chunk size and the overlap, can be built with
  four of the six strategies its configuration names; \<open>markdown\<close> and \<open>token_window\<close> raise a
  \<open>TypeError\<close>, whatever the sizes.\<close>

theorem configured_strategies:
  "(succeeds (configured_chunker strategy chunk_size chunk_overlap) \<longleftrightarrow>
    strategy \<in> {''fixed_length'', ''sentence'', ''paragraph'', ''recursive''}) \<and>
   configured_chunker ''markdown'' chunk_size chunk_overlap = Inl (Raise TypeError ''unexpected keyword argument'') \<and>
   configured_chunker ''token_window'' chunk_size chunk_overlap = Inl (Raise TypeError ''unexpected keyword argument'')"
  by (intro conjI; auto simp: configured_chunker_def get_chunker_def chunker_parameters_def split: if_splits)

text \<open>The Markdown strategy numbers a short section by its position among the sections, also
  after a long section has been cut into several chunks: here two chunks share the index 1.\<close>

definition two_sections :: points where
  "two_sections = [0x23, 0x20] @ replicate 70 97 @ [0x0A, 0x23, 0x20, 98]"

lemma markdown_repeats_index:
  "\<exists>cs. markdown_chunks 60 two_sections = Some cs \<and> map ck_index cs = [0, 1, 2, 1]"
proof -
  let ?long = "[0x23, 0x20] @ replicate 70 97 :: points"
  have sections: "enumerate 0 (filter (\<lambda>x. x \<noteq> []) (map strip_text (split_headers True [] two_sections))) =
      [(0, ?long), (1, [0x23, 0x20, 98])]"
    unfolding two_sections_def by code_simp
  have "fixed_length_chunks 60 50 ?long = Some (numbered 0 (windows 60 50 ?long 0))"
    using fixed_length_windows [of 50 60 ?long] by simp
  moreover have "map ck_index (renumber 0 (numbered 0 (windows 60 50 ?long 0))) = [0, 1, 2]"
    by code_simp
  ultimately show ?thesis
    by (simp add: markdown_chunks_def sections)
qed

end
