(* ===== verification/Inbox_Model.thy ===== *)
theory Inbox_Model
  imports Workspaces Domain_Base
begin

text \<open>
  \<open>core/inbox/models.py\<close>: the captured item, the durable claim that one resolution holds on it,
  and their validation.  Timestamps come from the service's clock, so they are instants.  Of a
  workspace key an item keeps what its row keeps, the identity.
\<close>

section \<open>Items\<close>

datatype inbox_status = INBOX_PENDING | INBOX_RESOLVED | INBOX_DISMISSED

datatype inbox_suggested =
    SUGGEST_TASK | SUGGEST_REMINDER | SUGGEST_WORK_LOG | SUGGEST_NOTE | SUGGEST_WAITING_FOR
  | SUGGEST_UNKNOWN

datatype inbox_resolved =
    TO_USER_TASK | TO_REMINDER | TO_WORK_LOG | TO_NOTE | TO_WAITING_FOR | TO_DISMISSED

fun inbox_status_value :: "inbox_status \<Rightarrow> string" where
  "inbox_status_value INBOX_PENDING = ''pending''"
| "inbox_status_value INBOX_RESOLVED = ''resolved''"
| "inbox_status_value INBOX_DISMISSED = ''dismissed''"

fun inbox_resolved_value :: "inbox_resolved \<Rightarrow> string" where
  "inbox_resolved_value TO_USER_TASK = ''user_task''"
| "inbox_resolved_value TO_REMINDER = ''reminder''"
| "inbox_resolved_value TO_WORK_LOG = ''work_log''"
| "inbox_resolved_value TO_NOTE = ''note''"
| "inbox_resolved_value TO_WAITING_FOR = ''waiting_for''"
| "inbox_resolved_value TO_DISMISSED = ''dismissed''"

text \<open>\<open>InboxStatus(status)\<close>\<close>

definition parse_inbox_status :: "string \<Rightarrow> inbox_status option" where
  "parse_inbox_status s = find (\<lambda>v. inbox_status_value v = s) [INBOX_PENDING, INBOX_RESOLVED, INBOX_DISMISSED]"

record inbox_item =
  ii_id :: string
  ii_workspace :: identity
  ii_content :: string
  ii_source :: string
  ii_status :: inbox_status
  ii_suggested :: inbox_suggested
  ii_created_at :: instant
  ii_updated_at :: instant
  ii_resolved_at :: "instant option"
  ii_resolved_type :: "inbox_resolved option"
  ii_target :: "string option"
  ii_metadata :: dict
  ii_revision :: int

definition inbox_metadata_ok :: "dict \<Rightarrow> bool" where
  "inbox_metadata_ok d = (\<not> sensitive_dict d \<and> dumpable_dict d)"

definition given_text :: "string option \<Rightarrow> bool" where
  "given_text v = (case v of None \<Rightarrow> False | Some s \<Rightarrow> s \<noteq> [])"

text \<open>\<open>_validate_state\<close>\<close>

definition inbox_state_ok :: "inbox_item \<Rightarrow> bool" where
  "inbox_state_ok i =
    (ii_created_at i \<le> ii_updated_at i \<and>
     (if ii_status i = INBOX_PENDING
      then ii_resolved_at i = None \<and> ii_resolved_type i = None \<and> ii_target i = None
      else
        (case (ii_resolved_at i, ii_resolved_type i) of
           (Some at, Some ty) \<Rightarrow>
             ii_created_at i \<le> at \<and>
             (if ii_status i = INBOX_DISMISSED then ty = TO_DISMISSED \<and> ii_target i = None
              else if ty = TO_DISMISSED then False
              else if ty = TO_NOTE then ii_target i = None
              else given_text (ii_target i))
         | _ \<Rightarrow> False)))"

definition inbox_fields_ok :: "inbox_item \<Rightarrow> bool" where
  "inbox_fields_ok i =
    (len_between 1 80 (ii_id i) \<and>
     len_between 1 4000 (ii_content i) \<and> py_strip (ii_content i) \<noteq> [] \<and>
     len_between 1 64 (ii_source i) \<and> py_strip (ii_source i) \<noteq> [] \<and>
     opt_len 160 (ii_target i) \<and> inbox_metadata_ok (ii_metadata i) \<and> 1 \<le> ii_revision i)"

text \<open>\<open>InboxItem(...)\<close> and \<open>InboxItem.model_validate\<close>.\<close>

definition validate_item :: "inbox_item \<Rightarrow> exn + inbox_item" where
  "validate_item i =
    (if inbox_fields_ok i \<and> inbox_state_ok i
     then Inr (i\<lparr>ii_content := py_strip (ii_content i), ii_source := py_strip (ii_source i)\<rparr>)
     else Inl (Raise ValidationError ''InboxItem''))"

section \<open>Claims\<close>

datatype claim_state = CLAIM_CLAIMED | CLAIM_TARGET_CREATED | CLAIM_COMPLETED

fun claim_state_value :: "claim_state \<Rightarrow> string" where
  "claim_state_value CLAIM_CLAIMED = ''claimed''"
| "claim_state_value CLAIM_TARGET_CREATED = ''target_created''"
| "claim_state_value CLAIM_COMPLETED = ''completed''"

record inbox_claim =
  ic_item :: string
  ic_workspace :: identity
  ic_type :: inbox_resolved
  ic_key :: "string option"
  ic_target :: "string option"
  ic_state :: claim_state
  ic_created_at :: instant
  ic_updated_at :: instant
  ic_revision :: int

definition external_type :: "inbox_resolved \<Rightarrow> bool" where
  "external_type ty = (ty \<in> {TO_USER_TASK, TO_REMINDER, TO_WORK_LOG, TO_WAITING_FOR})"

definition claim_ok :: "inbox_claim \<Rightarrow> bool" where
  "claim_ok c =
    (len_between 1 80 (ic_item c) \<and> opt_len 200 (ic_key c) \<and> opt_len 160 (ic_target c) \<and>
     1 \<le> ic_revision c \<and> ic_created_at c \<le> ic_updated_at c \<and>
     \<not> (external_type (ic_type c) \<and> \<not> given_text (ic_key c)) \<and>
     \<not> (\<not> external_type (ic_type c) \<and> (ic_key c \<noteq> None \<or> ic_target c \<noteq> None)) \<and>
     \<not> (ic_state c \<in> {CLAIM_TARGET_CREATED, CLAIM_COMPLETED} \<and> external_type (ic_type c) \<and>
         \<not> given_text (ic_target c)))"

definition validate_claim :: "inbox_claim \<Rightarrow> exn + inbox_claim" where
  "validate_claim c = (if claim_ok c then Inr c else Inl (Raise ValidationError ''InboxResolutionClaim''))"

section \<open>Validated models\<close>

lemma validate_claim_Inr [simp]: "validate_claim c = Inr d \<longleftrightarrow> claim_ok c \<and> d = c"
  by (auto simp: validate_claim_def)

definition valid_item :: "inbox_item \<Rightarrow> bool" where
  "valid_item i = (validate_item i = Inr i)"

lemma valid_item_iff: "valid_item i \<longleftrightarrow> inbox_fields_ok i \<and> inbox_state_ok i \<and>
    py_strip (ii_content i) = ii_content i \<and> py_strip (ii_source i) = ii_source i"
  by (cases i) (auto simp: valid_item_def validate_item_def)

text \<open>What the state check reads.\<close>

lemma state_ok_frame [simp]:
  "inbox_state_ok (i\<lparr>ii_revision := n\<rparr>) = inbox_state_ok i"
  "inbox_state_ok (i\<lparr>ii_content := c\<rparr>) = inbox_state_ok i"
  "inbox_state_ok (i\<lparr>ii_source := c\<rparr>) = inbox_state_ok i"
  by (simp_all add: inbox_state_ok_def cong: option.case_cong if_cong)

text \<open>What the constructor accepts is a fixed point of validating again.\<close>

lemma validated_item_valid:
  assumes "validate_item i = Inr j"
  shows "valid_item j"
proof -
  from assms have ok: "inbox_fields_ok i" "inbox_state_ok i"
    and j: "j = i\<lparr>ii_content := py_strip (ii_content i), ii_source := py_strip (ii_source i)\<rparr>"
    by (auto simp: validate_item_def split: if_splits)
  from ok(1) have "inbox_fields_ok j"
    by (simp add: j inbox_fields_ok_def len_between_strip)
  with ok(2) show ?thesis by (simp add: valid_item_iff j)
qed

lemma validate_valid [simp]: "valid_item i \<Longrightarrow> validate_item i = Inr i"
  by (simp add: valid_item_def)

lemma validate_item_Inr: "valid_item i \<Longrightarrow> validate_item i = Inr j \<longleftrightarrow> j = i"
  by auto

lemma valid_item_revision: "valid_item i \<Longrightarrow> 1 \<le> n \<Longrightarrow> valid_item (i\<lparr>ii_revision := n\<rparr>)"
  unfolding valid_item_iff inbox_fields_ok_def by simp metis

lemma valid_item_pos: "valid_item i \<Longrightarrow> 1 \<le> ii_revision i"
  by (simp add: valid_item_iff inbox_fields_ok_def)

end
