(* ===== verification/Inbox_Store.thy ===== *)
theory Inbox_Store
  imports Inbox_Model Store_Contracts
begin

text \<open>
  \<open>core/inbox/repository.py\<close>: the table of items and the table of resolution claims.  A row holds
  the fields of its model, so the tables hold items and claims.  \<open>io\<close> is the exception of SQLite
  in a transaction, which is then rolled back; \<open>enc\<close> the text pydantic gives an instant.
\<close>

section \<open>Tables\<close>

record inbox_store =
  ib_items :: "inbox_item list"
  ib_claims :: "inbox_claim list"
  ib_initialized :: bool
  ib_last_error :: "string option"

type_synonym 'a inbox_call = "inbox_store \<Rightarrow> (exn + 'a) \<times> inbox_store"

definition inbox_error :: "exn \<Rightarrow> string \<Rightarrow> 'a inbox_call" where
  "inbox_error e m s = (Inl (Raise InboxRepositoryError m), s\<lparr>ib_last_error := Some (exn_name e)\<rparr>)"

definition inbox_done :: "'a \<Rightarrow> 'a inbox_call" where
  "inbox_done x s = (Inr x, s\<lparr>ib_last_error := None\<rparr>)"

text \<open>A row of the workspace, or the reason why there is none.\<close>

definition scoped_item_row :: "inbox_item list \<Rightarrow> identity \<Rightarrow> string \<Rightarrow> exn + inbox_item" where
  "scoped_item_row rows ident i =
    (case find (\<lambda>r. ii_id r = i \<and> ii_workspace r = ident) rows of
       Some r \<Rightarrow> Inr r
     | None \<Rightarrow>
         if row_of ii_id i rows \<noteq> None
         then Inl (Raise InboxWorkspaceMismatchError ''Inbox item belongs to another workspace'')
         else Inl (Raise InboxItemNotFoundError ''Inbox item not found''))"

definition scoped_claim_row :: "inbox_claim list \<Rightarrow> identity \<Rightarrow> string \<Rightarrow> exn + inbox_claim" where
  "scoped_claim_row rows ident i =
    (case find (\<lambda>r. ic_item r = i \<and> ic_workspace r = ident) rows of
       Some r \<Rightarrow> Inr r
     | None \<Rightarrow>
         if row_of ic_item i rows \<noteq> None
         then Inl (Raise InboxWorkspaceMismatchError ''Inbox claim belongs to another workspace'')
         else Inl (Raise InboxResolutionClaimNotFoundError ''Inbox resolution claim not found''))"

section \<open>Items\<close>

definition inbox_save :: "exn option \<Rightarrow> inbox_item \<Rightarrow> inbox_item inbox_call" where
  "inbox_save io item s =
    (let conflict = (Inl (Raise InboxRevisionConflictError ''Inbox item already exists''), s) in
     case io of
       Some x \<Rightarrow>
         if has_class [SqliteIntegrityError] x then conflict else inbox_error x ''Inbox item save failed'' s
     | None \<Rightarrow>
         if \<not> sql_int (ii_revision item) then inbox_error sql_overflow ''Inbox item save failed'' s
         else if row_of ii_id (ii_id item) (ib_items s) \<noteq> None then conflict
         else inbox_done item (s\<lparr>ib_items := ib_items s @ [item]\<rparr>))"

text \<open>The row is decoded after the handler: what validation raises is not wrapped.\<close>

definition inbox_get :: "exn option \<Rightarrow> workspace_key \<Rightarrow> string \<Rightarrow> inbox_item inbox_call" where
  "inbox_get io key i s =
    (case io of
       Some x \<Rightarrow> inbox_error x ''Inbox item query failed'' s
     | None \<Rightarrow>
         (bindR (scoped_item_row (ib_items s) (key_identity key) i) validate_item, s\<lparr>ib_last_error := None\<rparr>))"

definition inbox_rows ::
  "(instant \<Rightarrow> string) \<Rightarrow> identity \<Rightarrow> inbox_status option \<Rightarrow> inbox_item list \<Rightarrow> inbox_item list" where
  "inbox_rows enc ident status rows =
     rev (sort_key (\<lambda>r. (enc (ii_created_at r), ii_id r))
       (filter (\<lambda>r. ii_workspace r = ident \<and> opt_clause (\<lambda>v. ii_status r = v) status) rows))"

definition inbox_list ::
  "(instant \<Rightarrow> string) \<Rightarrow> exn option \<Rightarrow> workspace_key \<Rightarrow> inbox_status option \<Rightarrow> nat \<Rightarrow> nat \<Rightarrow>
   inbox_item page inbox_call" where
  "inbox_list enc io key status limit offset s =
    (case io of
       Some x \<Rightarrow> inbox_error x ''Inbox item list failed'' s
     | None \<Rightarrow>
         if \<not> sql_int (int limit + 1) \<or> \<not> sql_int (int offset)
         then inbox_error sql_overflow ''Inbox item list failed'' s
         else
           (let rows = sql_page (Suc limit) offset (inbox_rows enc (key_identity key) status (ib_items s)) in
            (bindR (decode_rows validate_item (take limit rows))
               (\<lambda>is. if limit < 1 then Inl (Raise ValidationError ''InboxPage'')
                  else Inr \<lparr>pg_items = is, pg_limit = limit, pg_offset = offset, pg_has_more = length rows > limit\<rparr>),
             s\<lparr>ib_last_error := None\<rparr>)))"

text \<open>\<open>update\<close>, and \<open>resolve\<close> and \<open>dismiss\<close>, which are the same; nothing calls them.\<close>

definition inbox_update :: "exn option \<Rightarrow> inbox_item \<Rightarrow> int \<Rightarrow> inbox_item inbox_call" where
  "inbox_update io item expected s =
    (let updated = item\<lparr>ii_revision := expected + 1\<rparr>;
         hits = (\<lambda>r. ii_id r = ii_id item \<and> ii_revision r = expected \<and> ii_workspace r = ii_workspace item) in
     case io of
       Some x \<Rightarrow> inbox_error x ''Inbox item update failed'' s
     | None \<Rightarrow>
         if \<not> sql_int expected \<or> \<not> sql_int (expected + 1)
         then inbox_error sql_overflow ''Inbox item update failed'' s
         else if rowcount hits (ib_items s) \<noteq> 1
         then (if row_of ii_id (ii_id item) (ib_items s) = None
               then (Inl (Raise InboxItemNotFoundError ''Inbox item not found''), s)
               else (Inl (Raise InboxRevisionConflictError ''Inbox item was modified concurrently''), s))
         else inbox_done updated (s\<lparr>ib_items := update_where hits (\<lambda>_. updated) (ib_items s)\<rparr>))"

section \<open>The saga of a resolution\<close>

definition new_claim ::
  "identity \<Rightarrow> string \<Rightarrow> inbox_resolved \<Rightarrow> string option \<Rightarrow> string option \<Rightarrow> instant \<Rightarrow> inbox_claim" where
  "new_claim ident i ty tkey target now =
    \<lparr>ic_item = i, ic_workspace = ident, ic_type = ty, ic_key = tkey, ic_target = target,
     ic_state = CLAIM_CLAIMED, ic_created_at = now, ic_updated_at = now, ic_revision = 1\<rparr>"

definition claim_resolution ::
  "exn option \<Rightarrow> workspace_key \<Rightarrow> string \<Rightarrow> inbox_resolved \<Rightarrow> string option \<Rightarrow> string option \<Rightarrow> instant \<Rightarrow>
   inbox_claim inbox_call" where
  "claim_resolution io key i ty tkey target now s =
    (let failed = ''Inbox resolution claim failed''; ident = key_identity key in
     case io of
       Some x \<Rightarrow> inbox_error x failed s
     | None \<Rightarrow>
         (case scoped_item_row (ib_items s) ident i of
            Inl e \<Rightarrow> (Inl e, s)
          | Inr r \<Rightarrow>
              (case validate_item r of
                 Inl e \<Rightarrow> inbox_error e failed s
               | Inr item \<Rightarrow>
                   (case row_of ic_item i (ib_claims s) of
                      None \<Rightarrow>
                        if ii_status item \<noteq> INBOX_PENDING
                        then (Inl (Raise InboxRevisionConflictError ''Resolved Inbox item has no recoverable claim''), s)
                        else (case validate_claim (new_claim ident i ty tkey target now) of
                                Inl e \<Rightarrow> inbox_error e failed s
                              | Inr c \<Rightarrow> inbox_done c (s\<lparr>ib_claims := ib_claims s @ [c]\<rparr>))
                    | Some r' \<Rightarrow>
                        (case validate_claim r' of
                           Inl e \<Rightarrow> inbox_error e failed s
                         | Inr c \<Rightarrow>
                             if ic_workspace c \<noteq> ident
                             then (Inl (Raise InboxWorkspaceMismatchError ''Inbox claim belongs to another workspace''), s)
                             else inbox_done c s)))))"

definition read_claim :: "exn option \<Rightarrow> workspace_key \<Rightarrow> string \<Rightarrow> inbox_claim inbox_call" where
  "read_claim io key i s =
    (case io of
       Some x \<Rightarrow> inbox_error x ''Inbox resolution claim query failed'' s
     | None \<Rightarrow>
         (case scoped_claim_row (ib_claims s) (key_identity key) i of
            Inl e \<Rightarrow> (Inl e, s)
          | Inr r \<Rightarrow>
              (case validate_claim r of
                 Inl e \<Rightarrow> inbox_error e ''Inbox resolution claim query failed'' s
               | Inr c \<Rightarrow> inbox_done c s)))"

text \<open>The UPDATEs of a claim name its revision; one of them also names the state.\<close>

definition claim_hits :: "identity \<Rightarrow> string \<Rightarrow> int \<Rightarrow> claim_state option \<Rightarrow> inbox_claim \<Rightarrow> bool" where
  "claim_hits ident i n state r =
    (ic_item r = i \<and> ic_workspace r = ident \<and> ic_revision r = n \<and> opt_clause (\<lambda>v. ic_state r = v) state)"

definition recorded_claim :: "string \<Rightarrow> instant \<Rightarrow> int \<Rightarrow> inbox_claim \<Rightarrow> inbox_claim" where
  "recorded_claim target now n c =
    c\<lparr>ic_target := Some target, ic_state := CLAIM_TARGET_CREATED, ic_updated_at := now, ic_revision := n + 1\<rparr>"

text \<open>What is returned is validated once more, after the commit.\<close>

definition after_commit :: "string \<Rightarrow> (exn + 'a) \<Rightarrow> 'a inbox_call" where
  "after_commit m v s =
    (case v of Inl e \<Rightarrow> inbox_error e m (s\<lparr>ib_last_error := None\<rparr>) | Inr x \<Rightarrow> inbox_done x s)"

definition record_target ::
  "exn option \<Rightarrow> workspace_key \<Rightarrow> string \<Rightarrow> inbox_resolved \<Rightarrow> string \<Rightarrow> instant \<Rightarrow> inbox_claim inbox_call" where
  "record_target io key i ty target now s =
    (let failed = ''Inbox target claim update failed''; ident = key_identity key;
         conflict = (\<lambda>m. (Inl (Raise InboxResolutionClaimConflictError m), s)) in
     case io of
       Some x \<Rightarrow> inbox_error x failed s
     | None \<Rightarrow>
         (case scoped_claim_row (ib_claims s) ident i of
            Inl e \<Rightarrow> (Inl e, s)
          | Inr r \<Rightarrow>
              (case validate_claim r of
                 Inl e \<Rightarrow> inbox_error e failed s
               | Inr current \<Rightarrow>
                   if ic_type current \<noteq> ty then conflict ''Inbox resolution type does not own this claim''
                   else if ic_state current \<in> {CLAIM_TARGET_CREATED, CLAIM_COMPLETED}
                   then (if ic_target current \<noteq> Some target
                         then conflict ''Inbox claim already records another target''
                         else after_commit failed (validate_claim current) s)
                   else
                     (let hits = claim_hits ident i (ic_revision current) (Some CLAIM_CLAIMED);
                          write = recorded_claim target now (ic_revision current)
                      in if \<not> sql_int (ic_revision current + 1) then inbox_error sql_overflow failed s
                         else if rowcount hits (ib_claims s) \<noteq> 1
                         then conflict ''Inbox claim was modified concurrently''
                         else after_commit failed (validate_claim (write current))
                                (s\<lparr>ib_claims := update_where hits write (ib_claims s)\<rparr>)))))"

definition final_status :: "inbox_resolved \<Rightarrow> inbox_status" where
  "final_status ty = (if ty = TO_DISMISSED then INBOX_DISMISSED else INBOX_RESOLVED)"

definition closed_item :: "inbox_resolved \<Rightarrow> string option \<Rightarrow> instant \<Rightarrow> inbox_item \<Rightarrow> inbox_item" where
  "closed_item ty target now i =
    i\<lparr>ii_status := final_status ty, ii_updated_at := now, ii_resolved_at := Some now,
      ii_resolved_type := Some ty, ii_target := target\<rparr>"

definition item_hits :: "identity \<Rightarrow> string \<Rightarrow> int \<Rightarrow> inbox_item \<Rightarrow> bool" where
  "item_hits ident i n r =
    (ii_id r = i \<and> ii_workspace r = ident \<and> ii_revision r = n \<and> ii_status r = INBOX_PENDING)"

text \<open>The half of \<open>complete_resolution\<close> on the item: the item to return and the new table.\<close>

datatype 'a attempt = Stopped exn | Failing exn | Written 'a

definition complete_item ::
  "identity \<Rightarrow> string \<Rightarrow> inbox_resolved \<Rightarrow> string option \<Rightarrow> instant \<Rightarrow> inbox_item \<Rightarrow> inbox_item list \<Rightarrow>
   (inbox_item \<times> inbox_item list) attempt" where
  "complete_item ident i ty target now item rows =
    (if ii_status item = INBOX_PENDING
     then (case validate_item (closed_item ty target now item) of
             Inl e \<Rightarrow> Failing e
           | Inr done_item \<Rightarrow>
               (let new = done_item\<lparr>ii_revision := ii_revision item + 1\<rparr>;
                    hits = item_hits ident i (ii_revision item)
                in if \<not> sql_int (ii_revision item + 1) then Failing sql_overflow
                   else if rowcount hits rows \<noteq> 1
                   then Stopped (Raise InboxRevisionConflictError ''Inbox item was modified concurrently'')
                   else Written (new, update_where hits (\<lambda>_. new) rows)))
     else if \<not> (ii_status item = final_status ty \<and> ii_resolved_type item = Some ty \<and> ii_target item = target)
     then Stopped (Raise InboxResolutionClaimConflictError ''Inbox item was completed by another resolution'')
     else Written (item, rows))"

definition completed_claim :: "instant \<Rightarrow> int \<Rightarrow> inbox_claim \<Rightarrow> inbox_claim" where
  "completed_claim now n c = c\<lparr>ic_state := CLAIM_COMPLETED, ic_updated_at := now, ic_revision := n + 1\<rparr>"

definition complete_claim ::
  "identity \<Rightarrow> string \<Rightarrow> instant \<Rightarrow> inbox_claim \<Rightarrow> inbox_claim list \<Rightarrow> (inbox_claim \<times> inbox_claim list) attempt" where
  "complete_claim ident i now claim rows =
    (if ic_state claim \<noteq> CLAIM_COMPLETED
     then (let hits = claim_hits ident i (ic_revision claim) None;
               write = completed_claim now (ic_revision claim)
           in if \<not> sql_int (ic_revision claim + 1) then Failing sql_overflow
              else if rowcount hits rows \<noteq> 1
              then Stopped (Raise InboxResolutionClaimConflictError ''Inbox claim was modified concurrently'')
              else Written (write claim, update_where hits write rows))
     else Written (claim, rows))"

definition on_attempt :: "string \<Rightarrow> 'b attempt \<Rightarrow> ('b \<Rightarrow> 'a inbox_call) \<Rightarrow> 'a inbox_call" where
  "on_attempt m a f s =
    (case a of Stopped e \<Rightarrow> (Inl e, s) | Failing e \<Rightarrow> inbox_error e m s | Written x \<Rightarrow> f x s)"

definition complete_resolution ::
  "exn option \<Rightarrow> workspace_key \<Rightarrow> string \<Rightarrow> inbox_resolved \<Rightarrow> instant \<Rightarrow>
   (inbox_item \<times> inbox_claim) inbox_call" where
  "complete_resolution io key i ty now s =
    (let failed = ''Inbox resolution completion failed''; ident = key_identity key;
         conflict = (\<lambda>m. (Inl (Raise InboxResolutionClaimConflictError m), s)) in
     case io of
       Some x \<Rightarrow> inbox_error x failed s
     | None \<Rightarrow>
         (case scoped_item_row (ib_items s) ident i of
            Inl e \<Rightarrow> (Inl e, s)
          | Inr r \<Rightarrow>
         (case validate_item r of
            Inl e \<Rightarrow> inbox_error e failed s
          | Inr item \<Rightarrow>
         (case scoped_claim_row (ib_claims s) ident i of
            Inl e \<Rightarrow> (Inl e, s)
          | Inr r' \<Rightarrow>
         (case validate_claim r' of
            Inl e \<Rightarrow> inbox_error e failed s
          | Inr claim \<Rightarrow>
              if ic_type claim \<noteq> ty then conflict ''Inbox resolution type does not own this claim''
              else if external_type ty \<and> ic_state claim \<notin> {CLAIM_TARGET_CREATED, CLAIM_COMPLETED}
              then conflict ''Inbox target has not been durably recorded''
              else on_attempt failed (complete_item ident i ty (ic_target claim) now item (ib_items s))
                (\<lambda>(done_item, items). on_attempt failed (complete_claim ident i now claim (ib_claims s))
                  (\<lambda>(done_claim, claims) s.
                     after_commit failed
                       (bindR (validate_item done_item) (\<lambda>a. bindR (validate_claim done_claim) (\<lambda>b. Inr (a, b))))
                       (s\<lparr>ib_items := items, ib_claims := claims\<rparr>))) s)))))"

section \<open>Opening and closing\<close>

definition inbox_initialize :: "exn option \<Rightarrow> unit inbox_call" where
  "inbox_initialize io s =
    (case io of
       Some x \<Rightarrow> inbox_error x ''Inbox repository initialization failed'' s
     | None \<Rightarrow> inbox_done () (s\<lparr>ib_initialized := True\<rparr>))"

definition inbox_health :: "bool \<Rightarrow> inbox_store \<Rightarrow> runtime_status \<times> inbox_store" where
  "inbox_health connection_ok s =
    (if \<not> ib_initialized s then (NOT_INITIALIZED, s)
     else if connection_ok then (OK, s\<lparr>ib_last_error := None\<rparr>)
     else (STATUS_FAILED, s\<lparr>ib_last_error := Some ''health_check_failed''\<rparr>))"

definition inbox_close :: "inbox_store \<Rightarrow> inbox_store" where
  "inbox_close s = s\<lparr>ib_initialized := False\<rparr>"

end
