(* ===== verification/Inbox_Saga.thy ===== *)
theory Inbox_Saga
  imports Inbox_Store
begin

text \<open>
  The resolution of an item as a state machine over the two tables.  Every call of the service,
  by whatever process and in whatever order, is one of its steps; a process that dies between two
  calls only leaves steps out.
\<close>

section \<open>Progress\<close>

datatype progress =
    Unclaimed
  | Claimed inbox_resolved "string option"
  | Recorded inbox_resolved "string option" "string option"
  | Finished inbox_resolved "string option" "string option"

definition claim_progress :: "inbox_claim \<Rightarrow> progress" where
  "claim_progress c =
    (case ic_state c of
       CLAIM_CLAIMED \<Rightarrow> Claimed (ic_type c) (ic_key c)
     | CLAIM_TARGET_CREATED \<Rightarrow> Recorded (ic_type c) (ic_key c) (ic_target c)
     | CLAIM_COMPLETED \<Rightarrow> Finished (ic_type c) (ic_key c) (ic_target c))"

definition progress_of :: "inbox_claim list \<Rightarrow> string \<Rightarrow> progress" where
  "progress_of claims i = (case row_of ic_item i claims of None \<Rightarrow> Unclaimed | Some c \<Rightarrow> claim_progress c)"

inductive saga_step :: "progress \<Rightarrow> progress \<Rightarrow> bool" where
  claim: "saga_step Unclaimed (Claimed ty k)"
| record_it: "saga_step (Claimed ty k) (Recorded ty k (Some t))"
| finish_internal: "\<not> external_type ty \<Longrightarrow> saga_step (Claimed ty k) (Finished ty k None)"
| finish: "saga_step (Recorded ty k t) (Finished ty k t)"

inductive_simps saga_from [simp]:
  "saga_step Unclaimed p" "saga_step (Claimed ty k) p" "saga_step (Recorded ty k t) p" "saga_step (Finished ty k t) p"

text \<open>The item says the same as the claim.\<close>

fun item_agrees :: "inbox_item \<Rightarrow> progress \<Rightarrow> bool" where
  "item_agrees r (Finished ty k t) =
     (ii_status r = final_status ty \<and> ii_resolved_type r = Some ty \<and> ii_target r = t)"
| "item_agrees r _ = (ii_status r = INBOX_PENDING)"

text \<open>The type and the key of a claim, once made, and the target, once recorded, stay.\<close>

fun progress_type :: "progress \<Rightarrow> (inbox_resolved \<times> string option) option" where
  "progress_type Unclaimed = None"
| "progress_type (Claimed ty k) = Some (ty, k)"
| "progress_type (Recorded ty k t) = Some (ty, k)"
| "progress_type (Finished ty k t) = Some (ty, k)"

fun progress_target :: "progress \<Rightarrow> string option option" where
  "progress_target (Recorded ty k t) = Some t"
| "progress_target (Finished ty k t) = Some t"
| "progress_target _ = None"

lemma saga_step_type: "saga_step p q \<Longrightarrow> progress_type p = Some x \<Longrightarrow> progress_type q = Some x"
  by (cases p) auto

lemma saga_step_target: "saga_step p q \<Longrightarrow> progress_target p = Some x \<Longrightarrow> progress_target q = Some x"
  by (cases p) auto

lemma saga_steps_type: "saga_step\<^sup>*\<^sup>* p q \<Longrightarrow> progress_type p = Some x \<Longrightarrow> progress_type q = Some x"
  by (induction rule: rtranclp_induct) (auto dest: saga_step_type)

lemma saga_steps_target: "saga_step\<^sup>*\<^sup>* p q \<Longrightarrow> progress_target p = Some x \<Longrightarrow> progress_target q = Some x"
  by (induction rule: rtranclp_induct) (auto dest: saga_step_target)

lemma saga_finished: "saga_step\<^sup>*\<^sup>* (Finished ty k t) q \<Longrightarrow> q = Finished ty k t"
  by (induction rule: rtranclp_induct) auto

section \<open>The tables as an abstract system\<close>

type_synonym inbox_tables = "inbox_item list \<times> inbox_claim list"

inductive inbox_step :: "identity \<Rightarrow> inbox_tables \<Rightarrow> inbox_tables \<Rightarrow> bool" for ident :: identity where
  unchanged: "inbox_step ident tabs tabs"
| captured: "valid_item r \<Longrightarrow> ii_workspace r = ident \<Longrightarrow> ii_status r = INBOX_PENDING \<Longrightarrow>
    row_of ii_id (ii_id r) items = None \<Longrightarrow> inbox_step ident (items, claims) (items @ [r], claims)"
| claimed: "row_of ii_id (ic_item c) items = Some r \<Longrightarrow> ii_workspace r = ident \<Longrightarrow>
    row_of ic_item (ic_item c) claims = None \<Longrightarrow> ic_workspace c = ident \<Longrightarrow> ic_state c = CLAIM_CLAIMED \<Longrightarrow>
    inbox_step ident (items, claims) (items, claims @ [c])"
| recorded: "row_of ic_item i claims = Some c \<Longrightarrow> ic_workspace c = ident \<Longrightarrow> ic_state c = CLAIM_CLAIMED \<Longrightarrow>
    inbox_step ident (items, claims)
      (items, update_where (\<lambda>r. ic_item r = i) (\<lambda>_. recorded_claim t now n c) claims)"
| finished: "row_of ii_id i items = Some r \<Longrightarrow> ii_workspace r = ident \<Longrightarrow> ii_status r = INBOX_PENDING \<Longrightarrow>
    row_of ic_item i claims = Some c \<Longrightarrow> ic_workspace c = ident \<Longrightarrow> ic_state c \<noteq> CLAIM_COMPLETED \<Longrightarrow>
    (ic_state c = CLAIM_CLAIMED \<Longrightarrow> \<not> external_type (ic_type c) \<and> ic_target c = None) \<Longrightarrow>
    valid_item r' \<Longrightarrow> r' = (closed_item (ic_type c) (ic_target c) now r)\<lparr>ii_revision := m\<rparr> \<Longrightarrow>
    inbox_step ident (items, claims)
      (update_where (\<lambda>r. ii_id r = i) (\<lambda>_. r') items,
       update_where (\<lambda>r. ic_item r = i) (\<lambda>_. completed_claim now n c) claims)"

inductive_cases inbox_stepE: "inbox_step ident tabs tabs'"

definition inbox_ok :: "inbox_tables \<Rightarrow> bool" where
  "inbox_ok tabs =
    (keyed ii_id (fst tabs) \<and> keyed ic_item (snd tabs) \<and>
     (\<forall>r \<in> set (fst tabs). valid_item r \<and> item_agrees r (progress_of (snd tabs) (ii_id r))) \<and>
     (\<forall>c \<in> set (snd tabs). \<exists>r \<in> set (fst tabs). ii_id r = ic_item c \<and> ii_workspace r = ic_workspace c))"

lemma inbox_okI:
  assumes "keyed ii_id items" "keyed ic_item claims"
    and "\<And>r. r \<in> set items \<Longrightarrow> valid_item r \<and> item_agrees r (progress_of claims (ii_id r))"
    and "\<And>c. c \<in> set claims \<Longrightarrow> \<exists>r \<in> set items. ii_id r = ic_item c \<and> ii_workspace r = ic_workspace c"
  shows "inbox_ok (items, claims)"
  using assms by (simp add: inbox_ok_def)

lemma inbox_okD:
  assumes "inbox_ok (items, claims)"
  shows "keyed ii_id items" "keyed ic_item claims"
    and "r \<in> set items \<Longrightarrow> valid_item r" "r \<in> set items \<Longrightarrow> item_agrees r (progress_of claims (ii_id r))"
    and "c \<in> set claims \<Longrightarrow> \<exists>r \<in> set items. ii_id r = ic_item c \<and> ii_workspace r = ic_workspace c"
  using assms by (auto simp: inbox_ok_def)

lemma inbox_ok_Nil [simp]: "inbox_ok ([], [])"
  by (simp add: inbox_ok_def)

lemma claim_fields [simp]:
  "ic_item (recorded_claim t now n c) = ic_item c" "ic_workspace (recorded_claim t now n c) = ic_workspace c"
  "ic_item (completed_claim now n c) = ic_item c" "ic_workspace (completed_claim now n c) = ic_workspace c"
  "claim_progress (recorded_claim t now n c) = Recorded (ic_type c) (ic_key c) (Some t)"
  "claim_progress (completed_claim now n c) = Finished (ic_type c) (ic_key c) (ic_target c)"
  by (simp_all add: recorded_claim_def completed_claim_def claim_progress_def)

lemma closed_fields [simp]:
  "ii_id (closed_item ty t now r) = ii_id r" "ii_workspace (closed_item ty t now r) = ii_workspace r"
  "ii_status (closed_item ty t now r) = final_status ty" "ii_resolved_type (closed_item ty t now r) = Some ty"
  "ii_target (closed_item ty t now r) = t"
  by (simp_all add: closed_item_def)

lemma claim_progress_state [simp]:
  "ic_state c = CLAIM_CLAIMED \<Longrightarrow> claim_progress c = Claimed (ic_type c) (ic_key c)"
  "ic_state c = CLAIM_TARGET_CREATED \<Longrightarrow> claim_progress c = Recorded (ic_type c) (ic_key c) (ic_target c)"
  "ic_state c = CLAIM_COMPLETED \<Longrightarrow> claim_progress c = Finished (ic_type c) (ic_key c) (ic_target c)"
  by (simp_all add: claim_progress_def)

lemma progress_append: "progress_of (claims @ [c]) i =
    (if row_of ic_item i claims = None \<and> ic_item c = i then claim_progress c else progress_of claims i)"
  by (simp add: progress_of_def split: option.split)

lemma progress_update: "ic_item c' = j \<Longrightarrow> row_of ic_item j claims \<noteq> None \<Longrightarrow>
    progress_of (update_where (\<lambda>r. ic_item r = j) (\<lambda>_. c') claims) i =
      (if i = j then claim_progress c' else progress_of claims i)"
  by (auto simp: progress_of_def row_of_replace)

lemma progress_row: "row_of ic_item i claims = Some c \<Longrightarrow> progress_of claims i = claim_progress c"
  by (simp add: progress_of_def)

lemma progress_none: "row_of ic_item i claims = None \<Longrightarrow> progress_of claims i = Unclaimed"
  by (simp add: progress_of_def)

lemma final_not_pending [simp]: "final_status ty \<noteq> INBOX_PENDING" "INBOX_PENDING \<noteq> final_status ty"
  by (simp_all add: final_status_def)

text \<open>A claim that changes belongs to the item of its workspace.\<close>

lemma same_item: "keyed ii_id items \<Longrightarrow> r \<in> set items \<Longrightarrow> row_of ii_id (ii_id r) items = Some r' \<Longrightarrow> r = r'"
  using row_of_member by fastforce

lemma inbox_step_progress:
  assumes "inbox_step ident (items, claims) (items', claims')"
  shows "saga_step\<^sup>=\<^sup>= (progress_of claims i) (progress_of claims' i)"
  using assms
proof cases
  case (claimed c r)
  then show ?thesis
    by (cases "ic_item c = i") (simp_all add: progress_append progress_none)
next
  case (recorded j c t now n)
  with row_of_Some [OF recorded(3)] show ?thesis
    by (cases "i = j") (simp_all add: progress_update progress_row)
next
  case (finished j r c r' m now n)
  with row_of_Some [OF finished(6)] show ?thesis
    by (cases "i = j"; cases "ic_state c") (simp_all add: progress_update progress_row)
qed simp_all

lemma inbox_step_ok:
  assumes "inbox_step ident (items, claims) (items', claims')" and ok: "inbox_ok (items, claims)"
  shows "inbox_ok (items', claims')"
  using assms(1)
proof cases
  case (captured r)
  have "row_of ic_item (ii_id r) claims = None"
  proof (rule ccontr)
    assume "row_of ic_item (ii_id r) claims \<noteq> None"
    then obtain c where "c \<in> set claims" "ic_item c = ii_id r" using row_of_Some by fastforce
    moreover from inbox_okD(5) [OF ok this(1)] obtain x where "x \<in> set items" "ii_id x = ic_item c" by blast
    ultimately show False using captured(6) by (simp add: row_of_None image_iff) metis
  qed
  then have "item_agrees r (progress_of claims (ii_id r))"
    using captured(5) by (simp add: progress_none)
  moreover have "\<exists>x \<in> set items'. ii_id x = ic_item c \<and> ii_workspace x = ic_workspace c" if "c \<in> set claims" for c
    using inbox_okD(5) [OF ok that] captured(1) by auto
  ultimately show ?thesis
    using captured inbox_okD(1-4) [OF ok] by (intro inbox_okI) auto
next
  case (claimed c r)
  have "item_agrees x (progress_of (claims @ [c]) (ii_id x))" if "x \<in> set items" for x
    using inbox_okD(4) [OF ok that] claimed
    by (auto simp: progress_append progress_row progress_none)
  with claimed inbox_okD [OF ok] row_of_Some [OF claimed(3)] show ?thesis
    by (intro inbox_okI) auto
next
  case (recorded i c t now n)
  note c = row_of_Some [OF recorded(3)]
  have "item_agrees x (progress_of claims' (ii_id x))" if "x \<in> set items" for x
    using inbox_okD(4) [OF ok that] recorded c
    by (auto simp: progress_update progress_row progress_none)
  with recorded inbox_okD [OF ok] c show ?thesis
    by (intro inbox_okI) (auto simp: set_update_where intro!: keyed_update_where)
next
  case (finished i r c r' m now n)
  note c = row_of_Some [OF finished(6)] and r = row_of_Some [OF finished(3)]
  have items: "x = r' \<or> x \<in> set items \<and> ii_id x \<noteq> i" if "x \<in> set items'" for x
    using that finished(1) by (auto simp: set_update_where split: if_splits)
  show ?thesis
    unfolding finished(1,2)
  proof (rule inbox_okI)
    show "keyed ii_id (update_where (\<lambda>r. ii_id r = i) (\<lambda>_. r') items)"
      using inbox_okD(1) [OF ok] finished(11) r by (intro keyed_update_where) auto
    show "keyed ic_item (update_where (\<lambda>r. ic_item r = i) (\<lambda>_. completed_claim now n c) claims)"
      using inbox_okD(2) [OF ok] c by (intro keyed_update_where) auto
  next
    fix x
    assume "x \<in> set (update_where (\<lambda>r. ii_id r = i) (\<lambda>_. r') items)"
    from items [unfolded finished(1), OF this]
    show "valid_item x \<and> item_agrees x (progress_of (update_where (\<lambda>r. ic_item r = i) (\<lambda>_. completed_claim now n c) claims) (ii_id x))"
      using inbox_okD(3,4) [OF ok, of x] finished r c by (auto simp: progress_update)
  next
    fix x
    assume "x \<in> set (update_where (\<lambda>r. ic_item r = i) (\<lambda>_. completed_claim now n c) claims)"
    then have "\<exists>x' \<in> set claims. ic_item x' = ic_item x \<and> ic_workspace x' = ic_workspace x"
      using c by (auto simp: set_update_where)
    then obtain y where y: "y \<in> set items" "ii_id y = ic_item x" "ii_workspace y = ic_workspace x"
      using inbox_okD(5) [OF ok] by metis
    show "\<exists>y \<in> set (update_where (\<lambda>r. ii_id r = i) (\<lambda>_. r') items). ii_id y = ic_item x \<and> ii_workspace y = ic_workspace x"
    proof (cases "ii_id y = i")
      case True
      with same_item [OF inbox_okD(1) [OF ok] y(1)] finished(3) have "y = r" by simp
      with True y r finished(11) show ?thesis
        by (intro bexI [of _ r']) (auto simp: set_update_where)
    next
      case False
      with y show ?thesis by (intro bexI [of _ y]) (auto simp: set_update_where)
    qed
  qed
qed (use ok in simp)

text \<open>A row changes only once, when its item is closed.\<close>

lemma inbox_step_row:
  assumes "inbox_step ident (items, claims) (items', claims')" "row_of ii_id i items = Some r"
  shows "\<exists>r'. row_of ii_id i items' = Some r' \<and> (r' = r \<or> ii_status r = INBOX_PENDING)"
  using assms(1)
proof cases
  case (finished j x c x' m now n)
  with assms(2) row_of_Some [OF assms(2)] row_of_Some [OF finished(3)] show ?thesis
    by (cases "j = i") (auto simp: row_of_update_where)
qed (use assms(2) in auto)

text \<open>Rows and claims of other workspaces stay.\<close>

lemma inbox_step_foreign:
  assumes "inbox_step ident (items, claims) (items', claims')" and ok: "inbox_ok (items, claims)"
    and "other \<noteq> ident"
  shows "filter (\<lambda>r. ii_workspace r = other) items' = filter (\<lambda>r. ii_workspace r = other) items"
    and "filter (\<lambda>c. ic_workspace c = other) claims' = filter (\<lambda>c. ic_workspace c = other) claims"
proof -
  have item: "ii_workspace x = ident" if "row_of ii_id i items = Some r" "ii_workspace r = ident"
    "x \<in> set items" "ii_id x = i" for i r x
    using that row_of_member [OF inbox_okD(1) [OF ok] that(3)] by simp
  have claim: "ic_workspace x = ident" if "row_of ic_item i claims = Some c" "ic_workspace c = ident"
    "x \<in> set claims" "ic_item x = i" for i c x
    using that row_of_member [OF inbox_okD(2) [OF ok] that(3)] by simp
  show "filter (\<lambda>r. ii_workspace r = other) items' = filter (\<lambda>r. ii_workspace r = other) items"
    using assms(1)
  proof cases
    case (finished i r c r' m now n)
    with item [OF finished(3,4)] assms(3) show ?thesis
      by (auto intro!: filter_update_where)
  qed (use assms(3) in auto)
  show "filter (\<lambda>c. ic_workspace c = other) claims' = filter (\<lambda>c. ic_workspace c = other) claims"
    using assms(1)
  proof cases
    case (recorded i c t now n)
    with claim [OF recorded(3,4)] assms(3) show ?thesis by (auto intro!: filter_update_where)
  next
    case (finished i r c r' m now n)
    with claim [OF finished(6,7)] assms(3) show ?thesis by (auto intro!: filter_update_where)
  qed (use assms(3) in auto)
qed

end
