(* ===== verification/Inbox_Calls.thy ===== *)
theory Inbox_Calls
  imports Inbox_Saga
begin

text \<open>
  Every call that the inbox service makes of its repository as a step of the state machine of
  \<open>Inbox_Saga\<close>, whoever makes it.  The calls are collected in a datatype; the service's operations
  are sequences of them.  \<open>update\<close>, \<open>resolve\<close> and \<open>dismiss\<close> of the repository are not among them:
  they write the columns of an item without its claim (\<open>inbox_update\<close>), and nothing in the system
  calls them but the repository's own tests.
\<close>

section \<open>The calls\<close>

abbreviation tabs_of :: "inbox_store \<Rightarrow> inbox_tables" where
  "tabs_of s \<equiv> (ib_items s, ib_claims s)"

text \<open>\<open>InboxItem(...)\<close> as \<open>capture\<close> calls it.\<close>

definition captured_values ::
  "string \<Rightarrow> workspace_key \<Rightarrow> string \<Rightarrow> string \<Rightarrow> inbox_suggested \<Rightarrow> dict \<Rightarrow> instant \<Rightarrow> inbox_item" where
  "captured_values uuid key content source sugg meta now =
    \<lparr>ii_id = ''inbox_'' @ uuid, ii_workspace = key_identity key, ii_content = content, ii_source = source,
     ii_status = INBOX_PENDING, ii_suggested = sugg, ii_created_at = now, ii_updated_at = now,
     ii_resolved_at = None, ii_resolved_type = None, ii_target = None, ii_metadata = meta, ii_revision = 1\<rparr>"

definition capture_item :: "exn option \<Rightarrow> inbox_item \<Rightarrow> inbox_item inbox_call" where
  "capture_item io v s = (case validate_item v of Inl e \<Rightarrow> (Inl e, s) | Inr item \<Rightarrow> inbox_save io item s)"

text \<open>The calls that the service makes, the health check and the closing of the repository.\<close>

datatype inbox_request =
    Capture_Item "exn option" string workspace_key string string inbox_suggested dict instant
  | Get_Item "exn option" workspace_key string
  | List_Items "exn option" workspace_key "inbox_status option" nat nat
  | Claim_Item "exn option" workspace_key string inbox_resolved "string option" "string option" instant
  | Read_Claim "exn option" workspace_key string
  | Record_Target "exn option" workspace_key string inbox_resolved string instant
  | Complete_Item "exn option" workspace_key string inbox_resolved instant
  | Initialize_Inbox "exn option"
  | Inbox_Health bool
  | Close_Inbox

fun inbox_run :: "(instant \<Rightarrow> string) \<Rightarrow> inbox_request \<Rightarrow> inbox_store \<Rightarrow> inbox_store" where
  "inbox_run enc (Capture_Item io uuid key content source sugg meta now) s =
     snd (capture_item io (captured_values uuid key content source sugg meta now) s)"
| "inbox_run enc (Get_Item io key i) s = snd (inbox_get io key i s)"
| "inbox_run enc (List_Items io key status limit offset) s = snd (inbox_list enc io key status limit offset s)"
| "inbox_run enc (Claim_Item io key i ty tkey target now) s = snd (claim_resolution io key i ty tkey target now s)"
| "inbox_run enc (Read_Claim io key i) s = snd (read_claim io key i s)"
| "inbox_run enc (Record_Target io key i ty target now) s = snd (record_target io key i ty target now s)"
| "inbox_run enc (Complete_Item io key i ty now) s = snd (complete_resolution io key i ty now s)"
| "inbox_run enc (Initialize_Inbox io) s = snd (inbox_initialize io s)"
| "inbox_run enc (Inbox_Health ok) s = snd (inbox_health ok s)"
| "inbox_run enc Close_Inbox s = inbox_close s"

fun request_identity :: "inbox_request \<Rightarrow> identity option" where
  "request_identity (Capture_Item io uuid key content source sugg meta now) = Some (key_identity key)"
| "request_identity (Claim_Item io key i ty tkey target now) = Some (key_identity key)"
| "request_identity (Record_Target io key i ty target now) = Some (key_identity key)"
| "request_identity (Complete_Item io key i ty now) = Some (key_identity key)"
| "request_identity _ = None"

section \<open>Each call is a step\<close>

lemma inbox_error_simps [simp]:
  "ib_items (snd (inbox_error e m s)) = ib_items s" "ib_claims (snd (inbox_error e m s)) = ib_claims s"
  "inbox_error e m s \<noteq> (Inr x, s')" "fst (inbox_error e m s) = Inl (Raise InboxRepositoryError m)"
  by (simp_all add: inbox_error_def)

lemma inbox_done_simps [simp]:
  "ib_items (snd (inbox_done x s)) = ib_items s" "ib_claims (snd (inbox_done x s)) = ib_claims s"
  "inbox_done x s = (Inr y, s') \<longleftrightarrow> y = x \<and> s' = s\<lparr>ib_last_error := None\<rparr>"
  "inbox_done x s \<noteq> (Inl e, s')"
  by (auto simp: inbox_done_def)

lemma after_commit_simps [simp]:
  "ib_items (snd (after_commit m v s)) = ib_items s" "ib_claims (snd (after_commit m v s)) = ib_claims s"
  "after_commit m v s = (Inr y, s') \<longleftrightarrow> v = Inr y \<and> s' = s\<lparr>ib_last_error := None\<rparr>"
  by (auto simp: after_commit_def inbox_error_def inbox_done_def split: sum.split)

lemma scoped_item_Inr:
  "keyed ii_id rows \<Longrightarrow> scoped_item_row rows ident i = Inr r \<longleftrightarrow>
     row_of ii_id i rows = Some r \<and> ii_workspace r = ident"
  by (auto simp: scoped_item_row_def find_keyed split: option.splits if_splits)

lemma scoped_claim_Inr:
  "keyed ic_item rows \<Longrightarrow> scoped_claim_row rows ident i = Inr c \<longleftrightarrow>
     row_of ic_item i rows = Some c \<and> ic_workspace c = ident"
  by (auto simp: scoped_claim_row_def find_keyed split: option.splits if_splits)

lemma inbox_reads [simp]:
  "ib_items (snd (inbox_get io key i s)) = ib_items s" "ib_claims (snd (inbox_get io key i s)) = ib_claims s"
  "ib_items (snd (inbox_list enc io key st l n s)) = ib_items s"
  "ib_claims (snd (inbox_list enc io key st l n s)) = ib_claims s"
  "ib_items (snd (read_claim io key i s)) = ib_items s" "ib_claims (snd (read_claim io key i s)) = ib_claims s"
  "ib_items (snd (inbox_initialize io s)) = ib_items s" "ib_claims (snd (inbox_initialize io s)) = ib_claims s"
  "ib_items (snd (inbox_health b s)) = ib_items s" "ib_claims (snd (inbox_health b s)) = ib_claims s"
  "ib_items (inbox_close s) = ib_items s" "ib_claims (inbox_close s) = ib_claims s"
  by (simp_all add: inbox_get_def inbox_list_def Let_def read_claim_def inbox_initialize_def inbox_health_def
      inbox_close_def split: option.split sum.split)

lemma capture_step:
  assumes "capture_item io (captured_values uuid key content source sugg meta now) s = (res, s')"
  shows "inbox_step (key_identity key) (tabs_of s) (tabs_of s')"
proof (cases "tabs_of s' = tabs_of s")
  case False
  let ?v = "captured_values uuid key content source sugg meta now"
  from assms False obtain item where item: "validate_item ?v = Inr item" "inbox_save io item s = (res, s')"
    by (auto simp: capture_item_def split: sum.splits)
  with False have new: "row_of ii_id (ii_id item) (ib_items s) = None" "tabs_of s' = (ib_items s @ [item], ib_claims s)"
    by (auto simp: inbox_save_def inbox_error_def inbox_done_def Let_def split: option.splits if_splits)
  from item(1) have "ii_workspace item = key_identity key" "ii_status item = INBOX_PENDING"
    by (auto simp: validate_item_def captured_values_def split: if_splits)
  with new validated_item_valid [OF item(1)] show ?thesis
    by (simp add: inbox_step.captured)
qed (simp add: inbox_step.unchanged)

lemma claim_resolution_step:
  assumes ok: "inbox_ok (tabs_of s)" and "claim_resolution io key i ty tkey target now s = (res, s')"
  shows "inbox_step (key_identity key) (tabs_of s) (tabs_of s')"
proof (cases "tabs_of s' = tabs_of s")
  case False
  let ?c = "new_claim (key_identity key) i ty tkey target now"
  from assms(2) False obtain r where
    "scoped_item_row (ib_items s) (key_identity key) i = Inr r" "row_of ic_item i (ib_claims s) = None"
    "tabs_of s' = (ib_items s, ib_claims s @ [?c])"
    by (auto simp: claim_resolution_def Let_def inbox_error_def inbox_done_def
        split: option.splits sum.splits if_splits)
  with inbox_okD(1) [OF ok] show ?thesis
    by (auto simp: scoped_item_Inr new_claim_def intro!: inbox_step.claimed)
qed (simp add: inbox_step.unchanged)

lemma record_target_cases:
  assumes ok: "inbox_ok (tabs_of s)" and run: "record_target io key i ty target now s = (res, s')"
  obtains (quiet) "tabs_of s' = tabs_of s"
    | (recording) c where "row_of ic_item i (ib_claims s) = Some c" "ic_workspace c = key_identity key"
        "ic_state c = CLAIM_CLAIMED" "ic_type c = ty" "claim_ok c"
        "ib_items s' = ib_items s"
        "ib_claims s' = update_where (\<lambda>r. ic_item r = i) (\<lambda>_. recorded_claim target now (ic_revision c) c) (ib_claims s)"
proof (cases "tabs_of s' = tabs_of s")
  case False
  let ?hits = "\<lambda>c. claim_hits (key_identity key) i (ic_revision c) (Some CLAIM_CLAIMED)"
  from run False obtain c where
    c: "scoped_claim_row (ib_claims s) (key_identity key) i = Inr c" "claim_ok c"
      "ic_type c = ty" "ic_state c \<notin> {CLAIM_TARGET_CREATED, CLAIM_COMPLETED}"
    and s': "(res, s') = after_commit ''Inbox target claim update failed''
      (validate_claim (recorded_claim target now (ic_revision c) c))
      (s\<lparr>ib_claims := update_where (?hits c) (recorded_claim target now (ic_revision c)) (ib_claims s)\<rparr>)"
    unfolding record_target_def Let_def
    by (auto simp: inbox_error_def after_commit_def inbox_done_def split: option.splits sum.splits if_splits)
  from c inbox_okD(2) [OF ok] have row: "row_of ic_item i (ib_claims s) = Some c" "ic_workspace c = key_identity key"
    by (simp_all add: scoped_claim_Inr)
  have state: "ic_state c = CLAIM_CLAIMED" using c(4) by (cases "ic_state c") auto
  have "?hits c c" using row_of_Some [OF row(1)] row(2) state by (simp add: claim_hits_def opt_clause_def)
  then have "update_where (?hits c) (recorded_claim target now (ic_revision c)) (ib_claims s) =
      update_where (\<lambda>r. ic_item r = i) (\<lambda>_. recorded_claim target now (ic_revision c) c) (ib_claims s)"
    by (intro update_where_row(1) [OF inbox_okD(2) [OF ok] row(1)]) (auto simp: claim_hits_def)
  moreover from s' have "s' = snd (after_commit ''Inbox target claim update failed''
      (validate_claim (recorded_claim target now (ic_revision c) c))
      (s\<lparr>ib_claims := update_where (?hits c) (recorded_claim target now (ic_revision c)) (ib_claims s)\<rparr>))"
    by (metis snd_conv)
  ultimately show ?thesis
    using row state c by (intro recording) simp_all
qed (rule quiet)

lemma record_target_step:
  assumes ok: "inbox_ok (tabs_of s)" and run: "record_target io key i ty target now s = (res, s')"
  shows "inbox_step (key_identity key) (tabs_of s) (tabs_of s')"
  by (rule record_target_cases [OF assms]) (simp_all add: inbox_step.unchanged inbox_step.recorded)

text \<open>What \<open>complete_resolution\<close> does when it changes the tables, and what it returns.\<close>

lemma complete_item_Written:
  assumes "complete_item ident i ty target now item rows = Written (new, rows')" "valid_item item"
    and "keyed ii_id rows" "row_of ii_id i rows = Some item" "ii_workspace item = ident"
  shows "if ii_status item = INBOX_PENDING
    then valid_item new \<and> new = (closed_item ty target now item)\<lparr>ii_revision := ii_revision item + 1\<rparr> \<and>
      rows' = update_where (\<lambda>r. ii_id r = i) (\<lambda>_. new) rows
    else new = item \<and> rows' = rows \<and> ii_status item = final_status ty \<and> ii_resolved_type item = Some ty \<and>
      ii_target item = target"
proof (cases "ii_status item = INBOX_PENDING")
  case True
  let ?closed = "closed_item ty target now item"
  from assms(1) True obtain d where d: "validate_item ?closed = Inr d" "new = d\<lparr>ii_revision := ii_revision item + 1\<rparr>"
    "rows' = update_where (item_hits ident i (ii_revision item)) (\<lambda>_. new) rows"
    by (auto simp: complete_item_def Let_def split: sum.splits if_splits)
  from d(1) assms(2) have "d = ?closed"
    by (auto simp: validate_item_def valid_item_iff closed_item_def split: if_splits)
  moreover have "1 \<le> ii_revision item + 1"
    using assms(2) by (simp add: valid_item_iff inbox_fields_ok_def)
  with validated_item_valid [OF d(1)] have "valid_item new"
    unfolding d(2) by (rule valid_item_revision)
  moreover have "update_where (item_hits ident i (ii_revision item)) (\<lambda>_. new) rows =
      update_where (\<lambda>r. ii_id r = i) (\<lambda>_. new) rows"
    using row_of_Some [OF assms(4)] assms(5) True
    by (intro update_where_row(1) [OF assms(3,4)]) (auto simp: item_hits_def)
  ultimately show ?thesis using True d by simp
qed (use assms(1) in \<open>auto simp: complete_item_def split: if_splits\<close>)

lemma complete_claim_Written:
  assumes "complete_claim ident i now c rows = Written (new, rows')"
    and "keyed ic_item rows" "row_of ic_item i rows = Some c" "ic_workspace c = ident"
  shows "if ic_state c = CLAIM_COMPLETED then new = c \<and> rows' = rows
    else new = completed_claim now (ic_revision c) c \<and>
      rows' = update_where (\<lambda>r. ic_item r = i) (\<lambda>_. new) rows"
proof (cases "ic_state c = CLAIM_COMPLETED")
  case False
  let ?hits = "claim_hits ident i (ic_revision c) None"
  from assms(1) False have d: "new = completed_claim now (ic_revision c) c"
    "rows' = update_where ?hits (completed_claim now (ic_revision c)) rows"
    by (auto simp: complete_claim_def Let_def split: if_splits)
  have "update_where ?hits (completed_claim now (ic_revision c)) rows = update_where (\<lambda>r. ic_item r = i) (\<lambda>_. new) rows"
    unfolding d(1) using row_of_Some [OF assms(3)] assms(4)
    by (intro update_where_row(1) [OF assms(2,3)]) (auto simp: claim_hits_def opt_clause_def)
  with False d show ?thesis by simp
qed (use assms(1) in \<open>simp add: complete_claim_def\<close>)

lemma on_attempt_changes:
  assumes "on_attempt m a f s = (res, s')" "tabs_of s' \<noteq> tabs_of s"
  shows "\<exists>x. a = Written x \<and> f x s = (res, s')"
  using assms by (cases a) (auto simp: on_attempt_def inbox_error_def)

lemma on_attempt_Inr:
  assumes "on_attempt m a f s = (Inr y, s')"
  shows "\<exists>x. a = Written x \<and> f x s = (Inr y, s')"
  using assms by (cases a) (auto simp: on_attempt_def inbox_error_def)

lemma complete_resolution_facts:
  assumes ok: "inbox_ok (tabs_of s)" and run: "complete_resolution io key i ty now s = (res, s')"
    and effect: "tabs_of s' \<noteq> tabs_of s \<or> res = Inr y"
  obtains item claim item' claim' where
    "row_of ii_id i (ib_items s) = Some item" "ii_workspace item = key_identity key"
    "row_of ic_item i (ib_claims s) = Some claim" "ic_workspace claim = key_identity key"
    "ic_type claim = ty" "claim_ok claim" "external_type ty \<Longrightarrow> ic_state claim \<noteq> CLAIM_CLAIMED"
    "complete_item (key_identity key) i ty (ic_target claim) now item (ib_items s) = Written (item', ib_items s')"
    "complete_claim (key_identity key) i now claim (ib_claims s) = Written (claim', ib_claims s')"
    "res = Inr y \<Longrightarrow> y = (item', claim') \<and> claim_ok claim'"
proof -
  let ?ident = "key_identity key"
  have io: "io = None"
    using run effect by (cases io) (auto simp: complete_resolution_def Let_def inbox_error_def)
  obtain item where item: "scoped_item_row (ib_items s) ?ident i = Inr item"
    using run effect io
    by (cases "scoped_item_row (ib_items s) ?ident i") (auto simp: complete_resolution_def Let_def)
  with inbox_okD(1) [OF ok] have row: "row_of ii_id i (ib_items s) = Some item" "ii_workspace item = ?ident"
    by (simp_all add: scoped_item_Inr)
  with inbox_okD(3) [OF ok] row_of_Some [OF row(1)] have valid: "valid_item item" by simp
  obtain claim where claim: "scoped_claim_row (ib_claims s) ?ident i = Inr claim"
    using run effect io item valid
    by (cases "scoped_claim_row (ib_claims s) ?ident i") (auto simp: complete_resolution_def Let_def)
  with inbox_okD(2) [OF ok] have crow: "row_of ic_item i (ib_claims s) = Some claim" "ic_workspace claim = ?ident"
    by (simp_all add: scoped_claim_Inr)
  have cok: "claim_ok claim"
    using run effect io item valid claim
    by (cases "claim_ok claim") (auto simp: complete_resolution_def Let_def validate_claim_def inbox_error_def)
  have ty: "ic_type claim = ty" and ext: "\<not> (external_type ty \<and> ic_state claim \<notin> {CLAIM_TARGET_CREATED, CLAIM_COMPLETED})"
    using run effect io item valid claim cok
    by (auto simp: complete_resolution_def Let_def validate_claim_def split: if_splits)
  note facts = io item valid claim cok ty ext
  let ?m = "''Inbox resolution completion failed''"
  let ?body = "on_attempt ?m (complete_item ?ident i ty (ic_target claim) now item (ib_items s))
      (\<lambda>(done_item, items). on_attempt ?m (complete_claim ?ident i now claim (ib_claims s))
        (\<lambda>(done_claim, claims) s.
           after_commit ?m (bindR (validate_item done_item) (\<lambda>a. bindR (validate_claim done_claim) (\<lambda>b. Inr (a, b))))
             (s\<lparr>ib_items := items, ib_claims := claims\<rparr>)))"
  have run': "?body s = (res, s')"
    using run facts(1,2,4,6,7) validate_valid [OF facts(3)] facts(5)
    by (simp add: complete_resolution_def Let_def validate_claim_def split: if_splits)
  obtain item' items' where w1: "complete_item ?ident i ty (ic_target claim) now item (ib_items s) = Written (item', items')"
    and r1: "on_attempt ?m (complete_claim ?ident i now claim (ib_claims s))
        (\<lambda>(done_claim, claims) s.
           after_commit ?m (bindR (validate_item item') (\<lambda>a. bindR (validate_claim done_claim) (\<lambda>b. Inr (a, b))))
             (s\<lparr>ib_items := items', ib_claims := claims\<rparr>)) s = (res, s')"
    using effect on_attempt_changes [OF run'] on_attempt_Inr [of ?m _ _ s y s'] run' by fastforce
  obtain claim' claims' where w2: "complete_claim ?ident i now claim (ib_claims s) = Written (claim', claims')"
    and r2: "after_commit ?m (bindR (validate_item item') (\<lambda>a. bindR (validate_claim claim') (\<lambda>b. Inr (a, b))))
             (s\<lparr>ib_items := items', ib_claims := claims'\<rparr>) = (res, s')"
    using effect on_attempt_changes [OF r1] on_attempt_Inr [of ?m _ _ s y s'] r1 by fastforce
  have tabs: "ib_items s' = items'" "ib_claims s' = claims'"
    using arg_cong [OF r2, of "\<lambda>x. ib_items (snd x)"] arg_cong [OF r2, of "\<lambda>x. ib_claims (snd x)"] by simp_all
  have "valid_item item'"
    using complete_item_Written [OF w1 valid inbox_okD(1) [OF ok] row] valid by (auto split: if_splits)
  then have "res = Inr y \<Longrightarrow> y = (item', claim') \<and> claim_ok claim'"
    using r2 by (auto simp: bindR_Inr_iff)
  with row crow ty cok ext w1 w2 show ?thesis
    unfolding tabs [symmetric] by (intro that) auto
qed

lemma complete_resolution_step:
  assumes ok: "inbox_ok (tabs_of s)" and run: "complete_resolution io key i ty now s = (res, s')"
  shows "inbox_step (key_identity key) (tabs_of s) (tabs_of s')"
proof (cases "tabs_of s' = tabs_of s")
  case False
  then have "tabs_of s' \<noteq> tabs_of s \<or> res = Inr undefined" by simp
  then show ?thesis
  proof (rule complete_resolution_facts [OF ok run], goal_cases)
    case (1 item claim item' claim')
    note row = 1(1,2) and crow = 1(3,4)
    have valid: "valid_item item" and agrees: "item_agrees item (claim_progress claim)"
      using inbox_okD(3,4) [OF ok, of item] row_of_Some [OF row(1)] progress_row [OF crow(1)] by simp_all
    note items = complete_item_Written [OF 1(8) valid inbox_okD(1) [OF ok] row]
    note claims = complete_claim_Written [OF 1(9) inbox_okD(2) [OF ok] crow]
    show ?case
    proof (cases "ii_status item = INBOX_PENDING")
      case True
      with agrees have open_claim: "ic_state claim \<noteq> CLAIM_COMPLETED" by (cases "ic_state claim") auto
      have internal: "\<not> external_type (ic_type claim) \<and> ic_target claim = None" if "ic_state claim = CLAIM_CLAIMED"
        using that 1(5-7) by (auto simp: claim_ok_def)
      from True open_claim items claims have new: "valid_item item'"
        "item' = (closed_item (ic_type claim) (ic_target claim) now item)\<lparr>ii_revision := ii_revision item + 1\<rparr>"
        "tabs_of s' = (update_where (\<lambda>r. ii_id r = i) (\<lambda>_. item') (ib_items s),
          update_where (\<lambda>r. ic_item r = i) (\<lambda>_. completed_claim now (ic_revision claim) claim) (ib_claims s))"
        using 1(5) by auto
      show ?thesis
        unfolding new(3) by (rule inbox_step.finished [OF row True crow open_claim internal new(1,2)])
    next
      case closed: False
      with agrees have "ic_state claim = CLAIM_COMPLETED" by (cases "ic_state claim") auto
      with closed items claims False show ?thesis by simp
    qed
  qed
qed (simp add: inbox_step.unchanged)

text \<open>The refinement.\<close>

lemma inbox_run_step:
  assumes "inbox_ok (tabs_of s)"
  shows "\<exists>ident. (request_identity q = None \<or> request_identity q = Some ident) \<and>
    inbox_step ident (tabs_of s) (tabs_of (inbox_run enc q s))"
proof (cases q)
  case (Capture_Item io uuid key content source sugg meta now)
  then show ?thesis
    using capture_step [OF surjective_pairing] by auto
next
  case (Claim_Item io key i ty tkey target now)
  then show ?thesis using claim_resolution_step [OF assms surjective_pairing] by auto
next
  case (Record_Target io key i ty target now)
  then show ?thesis using record_target_step [OF assms surjective_pairing] by auto
next
  case (Complete_Item io key i ty now)
  then show ?thesis using complete_resolution_step [OF assms surjective_pairing] by auto
qed (auto intro: inbox_step.unchanged)

lemma inbox_run_quiet: "request_identity q = None \<Longrightarrow> tabs_of (inbox_run enc q s) = tabs_of s"
  by (cases q) auto

lemma inbox_run_ok: "inbox_ok (tabs_of s) \<Longrightarrow> inbox_ok (tabs_of (inbox_run enc q s))"
  using inbox_run_step inbox_step_ok by blast

interpretation ibs: step_system "inbox_run enc" "\<lambda>s. inbox_ok (tabs_of s)" for enc
  by unfold_locales (rule inbox_run_ok)

lemma inbox_run_progress: "inbox_ok (tabs_of s) \<Longrightarrow>
    saga_step\<^sup>=\<^sup>= (progress_of (ib_claims s) i) (progress_of (ib_claims (inbox_run enc q s)) i)"
  using inbox_run_step [of s q enc] inbox_step_progress by blast

lemma inbox_runs_progress: "inbox_ok (tabs_of s) \<Longrightarrow>
    saga_step\<^sup>*\<^sup>* (progress_of (ib_claims s) i) (progress_of (ib_claims (fold (inbox_run enc) qs s)) i)"
proof (induction qs arbitrary: s)
  case (Cons q qs)
  have "saga_step\<^sup>*\<^sup>* (progress_of (ib_claims s) i) (progress_of (ib_claims (inbox_run enc q s)) i)"
    using inbox_run_progress [OF Cons.prems, of i enc q] by auto
  also have "saga_step\<^sup>*\<^sup>* \<dots> (progress_of (ib_claims (fold (inbox_run enc) qs (inbox_run enc q s))) i)"
    by (rule Cons.IH [OF inbox_run_ok [OF Cons.prems]])
  finally show ?case by simp
qed simp

lemma inbox_run_row:
  assumes "inbox_ok (tabs_of s)" "row_of ii_id i (ib_items s) = Some r"
  shows "\<exists>r'. row_of ii_id i (ib_items (inbox_run enc q s)) = Some r' \<and> (r' = r \<or> ii_status r = INBOX_PENDING)"
  using inbox_run_step [OF assms(1), of q enc] inbox_step_row [OF _ assms(2)] by blast

lemma inbox_runs_closed_row:
  "inbox_ok (tabs_of s) \<Longrightarrow> row_of ii_id i (ib_items s) = Some r \<Longrightarrow> ii_status r \<noteq> INBOX_PENDING \<Longrightarrow>
   row_of ii_id i (ib_items (fold (inbox_run enc) qs s)) = Some r"
proof (induction qs arbitrary: s)
  case (Cons q qs)
  from inbox_run_row [OF Cons.prems(1,2), of enc q] Cons.prems(3)
  have "row_of ii_id i (ib_items (inbox_run enc q s)) = Some r" by auto
  from Cons.IH [OF inbox_run_ok [OF Cons.prems(1)] this Cons.prems(3)] show ?case by simp
qed simp

lemma inbox_run_foreign:
  assumes ok: "inbox_ok (tabs_of s)" and "request_identity q \<noteq> Some other"
  shows "filter (\<lambda>r. ii_workspace r = other) (ib_items (inbox_run enc q s)) = filter (\<lambda>r. ii_workspace r = other) (ib_items s) \<and>
    filter (\<lambda>c. ic_workspace c = other) (ib_claims (inbox_run enc q s)) = filter (\<lambda>c. ic_workspace c = other) (ib_claims s)"
proof (cases "request_identity q = None")
  case True
  then show ?thesis using inbox_run_quiet [OF True] by simp
next
  case False
  with inbox_run_step [OF ok, of q enc] assms(2) obtain ident where
    "inbox_step ident (tabs_of s) (tabs_of (inbox_run enc q s))" "other \<noteq> ident" by auto
  with inbox_step_foreign [OF _ ok] show ?thesis by blast
qed

end
