(* ===== verification/Inbox_Service.thy ===== *)
theory Inbox_Service
  imports Inbox_Calls UserTask_Service WaitingFor_Service
begin

text \<open>
  \<open>core/inbox/service.py\<close>: capture, listing, and the resolution of an item as a saga over the durable
  claim and the service that owns the target.  User tasks and Waiting-For items are created by the
  models of their services; reminders and work logs by functions over a further part of the state.
  \<open>sha\<close> is the hexadecimal SHA-256 digest.  An environment supplies the clock readings of a call
  and the failures of its calls of the repository; the lock of the process adds nothing, since the
  claim decides.
\<close>

section \<open>Surroundings and state\<close>

record inbox_message =
  im_topic :: string
  im_item :: string
  im_workspace :: identity
  im_source :: string
  im_status :: inbox_status
  im_type :: "inbox_resolved option"
  im_target :: "string option"

record 'x inbox_system =
  sy_inbox :: inbox_store
  sy_tasks :: ut_service
  sy_waiting :: wf_service
  sy_other :: 'x
  sy_published :: "inbox_message list"

type_synonym ('x, 'a) inbox_op = "'x inbox_system \<Rightarrow> (exn + 'a) \<times> 'x inbox_system"

record inbox_env =
  ie_now :: instant
  ie_target_now :: instant
  ie_record_now :: instant
  ie_complete_now :: instant
  ie_io :: "exn option"
  ie_get_io :: "exn option"
  ie_read_io :: "exn option"
  ie_record_io :: "exn option"
  ie_complete_io :: "exn option"
  ie_reread_io :: "exn option"
  ie_bus :: bus_mode
  ie_bus_failed :: bus_mode
  ie_uuid :: string
  ie_task :: ut_env
  ie_task_get :: ut_env
  ie_waiting :: wf_env

record reminder_request =
  rq_title :: string
  rq_due_at :: datetime
  rq_timezone :: string
  rq_priority :: ut_priority
  rq_description :: string
  rq_key :: workspace_key
  rq_idempotency :: string

record work_log_request =
  wq_key :: workspace_key
  wq_item :: string
  wq_subject :: string
  wq_text :: string
  wq_reserved :: string

text \<open>The services given to the constructor, and the time zone.\<close>

record 'x inbox_config =
  if_tasks :: bool
  if_waiting :: bool
  if_reminders :: "(reminder_request \<Rightarrow> 'x \<Rightarrow> (exn + string) \<times> 'x) option"
  if_work_logs :: "(work_log_request \<Rightarrow> 'x \<Rightarrow> (exn + string) \<times> 'x) option"
  if_timezone :: string

definition on_inbox :: "'a inbox_call \<Rightarrow> ('x, 'a) inbox_op" where
  "on_inbox m s = (case m (sy_inbox s) of (r, st) \<Rightarrow> (r, s\<lparr>sy_inbox := st\<rparr>))"

definition on_task_service :: "'a ut_call \<Rightarrow> ('x, 'a) inbox_op" where
  "on_task_service m s = (case m (sy_tasks s) of (r, st) \<Rightarrow> (r, s\<lparr>sy_tasks := st\<rparr>))"

definition on_waiting_service :: "'a wf_call \<Rightarrow> ('x, 'a) inbox_op" where
  "on_waiting_service m s = (case m (sy_waiting s) of (r, st) \<Rightarrow> (r, s\<lparr>sy_waiting := st\<rparr>))"

definition on_other :: "('x \<Rightarrow> (exn + 'a) \<times> 'x) \<Rightarrow> ('x, 'a) inbox_op" where
  "on_other m s = (case m (sy_other s) of (r, st) \<Rightarrow> (r, s\<lparr>sy_other := st\<rparr>))"

section \<open>Failures and messages\<close>

definition inbox_messages :: "(string \<times> string) list" where
  "inbox_messages =
    [(''inbox.not_found'', ''Inbox item was not found''),
     (''inbox.invalid_content'', ''Inbox content is invalid''),
     (''inbox.invalid_status'', ''Inbox status is invalid''),
     (''inbox.already_resolved'', ''Inbox item has already been resolved''),
     (''inbox.resolve_failed'', ''Inbox item resolution failed''),
     (''inbox.workspace_mismatch'', ''Inbox item belongs to another workspace''),
     (''inbox.waiting_for.fields_missing'', ''Waiting-For confirmation fields are missing''),
     (''inbox.waiting_for.timezone_invalid'', ''Waiting-For timezone is invalid''),
     (''inbox.waiting_for.unavailable'', ''Waiting-For service is unavailable''),
     (''inbox.waiting_for.source_mismatch'', ''Waiting-For source metadata does not match the Inbox item'')]"

definition inbox_failure ::
  "string \<Rightarrow> error_category \<Rightarrow> string \<Rightarrow> exn option \<Rightarrow> string \<Rightarrow> dict \<Rightarrow> bool \<Rightarrow> exn" where
  "inbox_failure code category operation cause tr details retryable = Failed
    \<lparr>fi_code = code, fi_category = category, fi_message = the (map_of inbox_messages code),
     fi_component = ''inbox'', fi_operation = operation, fi_retryable = retryable, fi_trace_id = tr,
     fi_cause_type = (case cause of None \<Rightarrow> [] | Some e \<Rightarrow> exn_name e), fi_details = details\<rparr>"

definition inbox_message_of :: "string \<Rightarrow> inbox_item \<Rightarrow> inbox_message" where
  "inbox_message_of topic i =
    \<lparr>im_topic = topic, im_item = ii_id i, im_workspace = ii_workspace i, im_source = ii_source i,
     im_status = ii_status i, im_type = ii_resolved_type i, im_target = ii_target i\<rparr>"

definition ib_publish :: "bus_mode \<Rightarrow> string \<Rightarrow> inbox_item \<Rightarrow> ('x, unit) inbox_op" where
  "ib_publish b topic i s =
    (case b of
       Bus_Off \<Rightarrow> (Inr (), s)
     | Bus_Accepts \<Rightarrow> (Inr (), s\<lparr>sy_published := sy_published s @ [inbox_message_of topic i]\<rparr>)
     | Bus_Raises x \<Rightarrow> (Inl x, s))"

definition inbox_classes :: "exn_class list" where
  "inbox_classes =
    [InboxRepositoryError, InboxItemNotFoundError, InboxWorkspaceMismatchError, InboxRevisionConflictError,
     InboxResolutionClaimNotFoundError, InboxResolutionClaimConflictError]"

definition text_json :: "string option \<Rightarrow> json" where
  "text_json v = (case v of None \<Rightarrow> JNull | Some s \<Rightarrow> JStr s)"

definition claim_details :: "inbox_claim \<Rightarrow> dict" where
  "claim_details c =
    [(''claimed_type'', JStr (inbox_resolved_value (ic_type c))), (''target_id'', text_json (ic_target c)),
     (''claim_state'', JStr (claim_state_value (ic_state c))),
     (''resolved_type'', JStr (inbox_resolved_value (ic_type c))),
     (''resolved_target_id'', text_json (ic_target c))]"

definition claim_conflict :: "inbox_claim \<Rightarrow> workspace_key \<Rightarrow> exn option \<Rightarrow> exn" where
  "claim_conflict c key cause =
     inbox_failure ''inbox.already_resolved'' CONFLICT ''resolve'' cause (trace_id key) (claim_details c) False"

section \<open>Capture and reading\<close>

definition ib_initialize :: "exn option \<Rightarrow> ('x, unit) inbox_op" where
  "ib_initialize io =
    catchS (on_inbox (inbox_initialize io))
      (\<lambda>e. failS (inbox_failure ''inbox.resolve_failed'' PERSISTENCE_FAILURE ''initialize'' (Some e) [] [] False))"

definition ib_close :: "'x inbox_system \<Rightarrow> 'x inbox_system" where
  "ib_close s = s\<lparr>sy_inbox := inbox_close (sy_inbox s)\<rparr>"

definition ib_capture ::
  "inbox_env \<Rightarrow> workspace_key \<Rightarrow> string \<Rightarrow> string \<Rightarrow> dict option \<Rightarrow> inbox_suggested \<Rightarrow> ('x, inbox_item) inbox_op" where
  "ib_capture env key content source meta sugg =
    bindS
      (catchS
        (on_inbox (capture_item (ie_io env)
          (captured_values (ie_uuid env) key content source sugg (case meta of None \<Rightarrow> [] | Some d \<Rightarrow> d) (ie_now env))))
        (\<lambda>e. failS
          (if is_value_error e
           then inbox_failure ''inbox.invalid_content'' VALIDATION ''capture'' (Some e) (trace_id key) [] False
           else inbox_failure ''inbox.resolve_failed'' PERSISTENCE_FAILURE ''capture'' (Some e) (trace_id key) [] True)))
      (\<lambda>item. bindS (ib_publish (ie_bus env) ''inbox.captured'' item) (\<lambda>_. retS item))"

definition ib_list ::
  "(instant \<Rightarrow> string) \<Rightarrow> inbox_env \<Rightarrow> workspace_key \<Rightarrow> string \<Rightarrow> int \<Rightarrow> int \<Rightarrow> ('x, inbox_item page) inbox_op" where
  "ib_list enc env key status limit offset =
    catchS
      (if status \<noteq> ''all'' \<and> parse_inbox_status status = None
       then failS (Raise ValueError ''not a valid InboxStatus'')
       else if limit < 1 \<or> limit > 200 \<or> offset < 0 then failS (Raise ValueError ''invalid pagination'')
       else on_inbox (inbox_list enc (ie_io env) key
         (if status = ''all'' then None else parse_inbox_status status) (nat limit) (nat offset)))
      (\<lambda>e. failS
        (if is_value_error e
         then inbox_failure ''inbox.invalid_status'' VALIDATION ''list'' (Some e) (trace_id key) [] False
         else inbox_failure ''inbox.resolve_failed'' PERSISTENCE_FAILURE ''list'' (Some e) (trace_id key) [] True))"

definition get_failure :: "string \<Rightarrow> exn \<Rightarrow> exn" where
  "get_failure tr e =
    (if has_class [InboxItemNotFoundError] e
     then inbox_failure ''inbox.not_found'' NOT_FOUND ''get'' (Some e) tr [] False
     else if has_class [InboxWorkspaceMismatchError] e
     then inbox_failure ''inbox.workspace_mismatch'' PERMISSION_DENIED ''get'' (Some e) tr [] False
     else inbox_failure ''inbox.resolve_failed'' PERSISTENCE_FAILURE ''get'' (Some e) tr [] True)"

definition ib_get :: "inbox_env \<Rightarrow> workspace_key \<Rightarrow> string \<Rightarrow> ('x, inbox_item) inbox_op" where
  "ib_get env key i = catchS (on_inbox (inbox_get (ie_get_io env) key i)) (\<lambda>e. failS (get_failure (trace_id key) e))"

section \<open>Resolution\<close>

text \<open>The handlers around \<open>claim_resolution\<close>.\<close>

definition claim_failed :: "inbox_env \<Rightarrow> workspace_key \<Rightarrow> string \<Rightarrow> exn \<Rightarrow> ('x, 'a) inbox_op" where
  "claim_failed env key i e =
    (let fail = (\<lambda>code category operation details retry.
           failS (inbox_failure code category operation (Some e) (trace_id key) details retry)) in
     if has_class [InboxItemNotFoundError] e then fail ''inbox.not_found'' NOT_FOUND ''resolve'' [] False
     else if has_class [InboxWorkspaceMismatchError] e
     then fail ''inbox.workspace_mismatch'' PERMISSION_DENIED ''resolve'' [] False
     else if has_class [InboxRevisionConflictError] e
     then bindS (ib_get env key i) (\<lambda>item.
       fail ''inbox.already_resolved'' CONFLICT ''resolve''
         [(''claimed_type'', text_json (map_option inbox_resolved_value (ii_resolved_type item))),
          (''target_id'', text_json (ii_target item)), (''claim_state'', JStr ''missing'')] False)
     else if has_class inbox_classes e
     then fail ''inbox.resolve_failed'' PERSISTENCE_FAILURE ''claim_resolution'' [] True
     else failS e)"

text \<open>The handlers of the saga; \<open>claim\<close> is the claim as last read.\<close>

definition saga_failed ::
  "inbox_env \<Rightarrow> workspace_key \<Rightarrow> string \<Rightarrow> inbox_resolved \<Rightarrow> inbox_item \<Rightarrow> exn \<times> inbox_claim \<Rightarrow> ('x, 'a) inbox_op" where
  "saga_failed env key i ty item ec =
    (case ec of (e, claim) \<Rightarrow>
     let told = ib_publish (ie_bus_failed env) ''inbox.resolve_failed'' item;
         fail = (\<lambda>category details retry.
           failS (inbox_failure ''inbox.resolve_failed'' category ''resolve'' (Some e) (trace_id key) details retry)) in
     case e of
       Failed f \<Rightarrow>
         bindS told (\<lambda>_.
           if ty = TO_WAITING_FOR then failS e
           else fail (fi_category f) [(''dependency_code'', JStr (fi_code f))] (fi_retryable f))
     | Raise c m \<Rightarrow>
         if c \<in> {InboxResolutionClaimConflictError, InboxRevisionConflictError}
         then bindS (on_inbox (read_claim (ie_reread_io env) key i)) (\<lambda>current.
           if ic_type current \<noteq> ty \<or> ic_state current = CLAIM_COMPLETED
           then failS (claim_conflict current key (Some e))
           else bindS told (\<lambda>_. fail CONFLICT (claim_details current) True))
         else if c \<in> set inbox_classes
         then bindS told (\<lambda>_. fail PERSISTENCE_FAILURE (claim_details claim) True)
         else if is_value_error e then bindS told (\<lambda>_. fail VALIDATION [] False)
         else bindS told (\<lambda>_. fail INTERNAL [] False))"

type_synonym 'x make_target = "inbox_item \<Rightarrow> inbox_claim \<Rightarrow> ('x, string) inbox_op"

definition saga_body ::
  "inbox_env \<Rightarrow> workspace_key \<Rightarrow> string \<Rightarrow> inbox_resolved \<Rightarrow> 'x make_target option \<Rightarrow> inbox_item \<Rightarrow> inbox_claim \<Rightarrow>
   'x inbox_system \<Rightarrow> ((exn \<times> inbox_claim) + inbox_item) \<times> 'x inbox_system" where
  "saga_body env key i ty target_maker item claim0 =
    bindS (tagS claim0 (on_inbox (read_claim (ie_read_io env) key i))) (\<lambda>claim1.
    bindS
      (case target_maker of
         Some create \<Rightarrow>
           if ic_state claim1 = CLAIM_CLAIMED
           then bindS (tagS claim1 (create item claim1)) (\<lambda>target.
             tagS claim1 (on_inbox (record_target (ie_record_io env) key i ty target (ie_record_now env))))
           else retS claim1
       | None \<Rightarrow> retS claim1) (\<lambda>claim2.
    bindS (tagS claim2 (on_inbox (complete_resolution (ie_complete_io env) key i ty (ie_complete_now env))))
      (\<lambda>(resolved, claim3). retS resolved)))"

definition ib_resolve ::
  "inbox_env \<Rightarrow> workspace_key \<Rightarrow> string \<Rightarrow> inbox_resolved \<Rightarrow> string option \<Rightarrow> string option \<Rightarrow>
   'x make_target option \<Rightarrow> bool \<Rightarrow> ('x, inbox_item) inbox_op" where
  "ib_resolve env key i ty tkey reserved target_maker return_completed =
    bindS (catchS (on_inbox (claim_resolution (ie_io env) key i ty tkey reserved (ie_now env)))
        (claim_failed env key i)) (\<lambda>claim.
    if ic_type claim \<noteq> ty then failS (claim_conflict claim key None)
    else if ic_state claim = CLAIM_COMPLETED
    then bindS (ib_get env key i) (\<lambda>completed.
      if return_completed \<and> ii_resolved_type completed = Some ty \<and> ii_target completed = ic_target claim
      then retS completed
      else failS (claim_conflict claim key None))
    else bindS (ib_get env key i) (\<lambda>item.
      if ii_status item \<noteq> INBOX_PENDING
      then bindS (on_inbox (read_claim (ie_read_io env) key i)) (\<lambda>current. failS (claim_conflict current key None))
      else bindS (catchS (saga_body env key i ty target_maker item claim) (saga_failed env key i ty item)) (\<lambda>resolved.
        bindS (ib_publish (ie_bus env) (if ty = TO_DISMISSED then ''inbox.dismissed'' else ''inbox.resolved'') resolved)
          (\<lambda>_. retS resolved))))"

section \<open>The targets\<close>

definition reserved_id :: "(string \<Rightarrow> string) \<Rightarrow> string \<Rightarrow> string \<Rightarrow> string" where
  "reserved_id sha prefix i = prefix @ ''_'' @ take 24 (sha (prefix @ ''|'' @ i))"

definition inbox_evidence :: "inbox_item \<Rightarrow> dict" where
  "inbox_evidence i = [(''inbox_item_id'', JStr (ii_id i)), (''inbox_source'', JStr (ii_source i))]"

text \<open>\<open>claim.target_key\<close> when it is neither missing nor empty.\<close>

definition claim_key :: "inbox_claim \<Rightarrow> string option" where
  "claim_key c = (case ic_key c of None \<Rightarrow> None | Some k \<Rightarrow> if k = [] then None else Some k)"

definition is_conflict :: "exn \<Rightarrow> bool" where
  "is_conflict e = (case e of Failed f \<Rightarrow> fi_category f = CONFLICT | Raise c m \<Rightarrow> False)"

definition task_request ::
  "workspace_key \<Rightarrow> string \<Rightarrow> string \<Rightarrow> datetime option \<Rightarrow> ut_priority \<Rightarrow> string \<Rightarrow> instant \<Rightarrow> dict \<Rightarrow> string \<Rightarrow> ut_new" where
  "task_request key title description due priority zone now meta tid =
    \<lparr>un_key = key, un_title = title, un_description = description, un_priority = priority, un_due_at = due,
     un_timezone = zone, un_status = UT_ACTIVE, un_created_at = Some (Aware now 0), un_completed_at = None,
     un_cancelled_at = None, un_source = ''inbox'', un_session_id = [], un_agent_id = [],
     un_trace_id = trace_id key, un_metadata = Some meta, un_id = Some tid, un_legacy_source_id = None\<rparr>"

text \<open>A task that exists under the reserved identifier is taken over when it names this item.\<close>

definition make_task ::
  "(string \<Rightarrow> bool) \<Rightarrow> (string \<Rightarrow> string) \<Rightarrow> 'x inbox_config \<Rightarrow> inbox_env \<Rightarrow> workspace_key \<Rightarrow> string \<Rightarrow> string \<Rightarrow>
   datetime option \<Rightarrow> ut_priority \<Rightarrow> 'x make_target" where
  "make_task zone_ok san cfg env key title description due priority item claim =
    (if \<not> if_tasks cfg then failS (Raise RuntimeError ''UserTask service is not configured'')
     else case claim_key claim of
       None \<Rightarrow> failS (Raise RuntimeError ''UserTask claim target is missing'')
     | Some tid \<Rightarrow>
         bindS (catchS
           (on_task_service (ut_create zone_ok san (ie_task env)
             (task_request key title description due priority (if_timezone cfg) (ie_target_now env)
               (inbox_evidence item) tid)))
           (\<lambda>e. if \<not> is_conflict e then failS e
             else bindS (on_task_service (ut_get zone_ok san (ie_task_get env) key tid (trace_id key))) (\<lambda>t.
               if map_of (ut_metadata t) ''inbox_item_id'' \<noteq> Some (JStr (ii_id item)) then failS e else retS t)))
           (\<lambda>t. retS (ut_id t)))"

definition resolve_to_task ::
  "(string \<Rightarrow> bool) \<Rightarrow> (string \<Rightarrow> string) \<Rightarrow> (string \<Rightarrow> string) \<Rightarrow> 'x inbox_config \<Rightarrow> inbox_env \<Rightarrow> workspace_key \<Rightarrow>
   string \<Rightarrow> string \<Rightarrow> string \<Rightarrow> datetime option \<Rightarrow> ut_priority \<Rightarrow> ('x, inbox_item) inbox_op" where
  "resolve_to_task zone_ok san sha cfg env key i title description due priority =
    (let tid = reserved_id sha ''ut_inbox'' i in
     ib_resolve env key i TO_USER_TASK (Some tid) (Some tid)
       (Some (make_task zone_ok san cfg env key title description due priority)) False)"

definition make_reminder ::
  "'x inbox_config \<Rightarrow> workspace_key \<Rightarrow> string \<Rightarrow> datetime \<Rightarrow> string \<Rightarrow> ut_priority \<Rightarrow> string option \<Rightarrow> string \<Rightarrow>
   'x make_target" where
  "make_reminder cfg key title at description priority zone idempotency item claim =
    (case if_reminders cfg of
       None \<Rightarrow> failS (Raise RuntimeError ''Reminder service is not configured'')
     | Some create \<Rightarrow> on_other (create
         \<lparr>rq_title = title, rq_due_at = at, rq_timezone = given_id zone (if_timezone cfg), rq_priority = priority,
          rq_description = description, rq_key = key, rq_idempotency = given_id (ic_key claim) idempotency\<rparr>))"

definition resolve_to_reminder ::
  "'x inbox_config \<Rightarrow> inbox_env \<Rightarrow> workspace_key \<Rightarrow> string \<Rightarrow> string \<Rightarrow> datetime \<Rightarrow> string \<Rightarrow> ut_priority \<Rightarrow>
   string option \<Rightarrow> ('x, inbox_item) inbox_op" where
  "resolve_to_reminder cfg env key i title at description priority zone =
    (let idempotency = ''inbox:'' @ i @ '':reminder'' in
     ib_resolve env key i TO_REMINDER (Some idempotency) None
       (Some (make_reminder cfg key title at description priority zone idempotency)) False)"

definition make_work_log :: "'x inbox_config \<Rightarrow> workspace_key \<Rightarrow> string \<Rightarrow> string \<Rightarrow> 'x make_target" where
  "make_work_log cfg key title description item claim =
    (case if_work_logs cfg of
       None \<Rightarrow> failS (Raise RuntimeError ''Work Log service is not configured'')
     | Some create \<Rightarrow>
         (case claim_key claim of
            None \<Rightarrow> failS (Raise RuntimeError ''Work Log claim target is missing'')
          | Some k \<Rightarrow> bindS (on_other (create
              \<lparr>wq_key = key, wq_item = ii_id item, wq_subject = title, wq_text = str_or description (ii_content item),
               wq_reserved = k\<rparr>)) (\<lambda>r. retS (if starts_with ''inbox_wl_'' k then k else r))))"

definition resolve_to_work_log ::
  "(string \<Rightarrow> string) \<Rightarrow> 'x inbox_config \<Rightarrow> inbox_env \<Rightarrow> workspace_key \<Rightarrow> string \<Rightarrow> string \<Rightarrow> string \<Rightarrow>
   ('x, inbox_item) inbox_op" where
  "resolve_to_work_log sha cfg env key i title description =
    (let k = ''wl_'' @ take 32 (sha (''work_log|'' @ i)) in
     ib_resolve env key i TO_WORK_LOG (Some k) (Some k) (Some (make_work_log cfg key title description)) True)"

text \<open>The confirmation template; the two Chinese placeholders are given by their UTF-8 bytes.\<close>

definition confirmation_template :: "string \<Rightarrow> string" where
  "confirmation_template i =
    ''python -m cli inbox resolve-waiting-for '' @ i @ '' --subject <'' @
    [CHR 0xE4, CHR 0xBA, CHR 0x8B, CHR 0xE9, CHR 0xA1, CHR 0xB9] @ ''> --waiting-on <'' @
    [CHR 0xE5, CHR 0xAF, CHR 0xB9, CHR 0xE8, CHR 0xB1, CHR 0xA1] @
    ''> --next-review-at <ISO-8601> --timezone <IANA>''"

record waiting_args =
  wa_subject :: string
  wa_waiting_on :: string
  wa_context :: string
  wa_expected_by :: "datetime option"
  wa_next_review_at :: "datetime option"
  wa_timezone :: "string option"

definition missing_fields :: "waiting_args \<Rightarrow> string list" where
  "missing_fields a =
    (if py_strip (wa_subject a) = [] then [''subject''] else []) @
    (if py_strip (wa_waiting_on a) = [] then [''waiting_on''] else []) @
    (if wa_expected_by a = None \<and> wa_next_review_at a = None then [''expected_by_or_next_review_at''] else [])"

definition waiting_request ::
  "workspace_key \<Rightarrow> waiting_args \<Rightarrow> string \<Rightarrow> inbox_item \<Rightarrow> string \<Rightarrow> create_request" where
  "waiting_request key a zone item k =
    \<lparr>cr_key = key, cr_subject = py_strip (wa_subject a), cr_waiting_on = py_strip (wa_waiting_on a),
     cr_context = wa_context a, cr_expected_by = wa_expected_by a, cr_next_review_at = wa_next_review_at a,
     cr_timezone = zone, cr_linked_task = None, cr_linked_reminder = None, cr_source = ''inbox'',
     cr_trace_id = trace_id key, cr_metadata = inbox_evidence item, cr_id = Some k\<rparr>"

definition make_waiting ::
  "(string \<Rightarrow> bool) \<Rightarrow> inbox_env \<Rightarrow> workspace_key \<Rightarrow> waiting_args \<Rightarrow> string \<Rightarrow> string \<Rightarrow> 'x make_target" where
  "make_waiting zone_ok env key a zone target item claim =
    (let k = given_id (ic_key claim) target in
     catchS
       (bindS (on_waiting_service (wf_create zone_ok (ie_waiting env) (waiting_request key a zone item k)))
         (\<lambda>(w, ev). retS (wf_id w)))
       (\<lambda>e. if \<not> is_conflict e then failS e
         else bindS (on_waiting_service (wf_get zone_ok (ie_waiting env) key k)) (\<lambda>w.
           if map_of (wf_metadata w) ''inbox_item_id'' \<noteq> Some (JStr (ii_id item)) \<or>
              map_of (wf_metadata w) ''inbox_source'' \<noteq> Some (JStr (ii_source item))
           then failS (inbox_failure ''inbox.waiting_for.source_mismatch'' CONFLICT ''resolve_to_waiting_for'' (Some e)
             (trace_id key) [(''waiting_for_id'', JStr (wf_id w)), (''inbox_item_id'', JStr (ii_id item))] False)
           else retS (wf_id w))))"

text \<open>A zone name that is refused is taken to be one that is not found.\<close>

definition resolve_to_waiting_for ::
  "(string \<Rightarrow> bool) \<Rightarrow> (string \<Rightarrow> string) \<Rightarrow> 'x inbox_config \<Rightarrow> inbox_env \<Rightarrow> workspace_key \<Rightarrow> string \<Rightarrow>
   waiting_args \<Rightarrow> ('x, inbox_item) inbox_op" where
  "resolve_to_waiting_for zone_ok sha cfg env key i a =
    (let zone = given_id (wa_timezone a) (if_timezone cfg); target = reserved_id sha ''wf_inbox'' i;
         fail = (\<lambda>code category cause details.
           failS (inbox_failure code category ''resolve_to_waiting_for'' cause (trace_id key) details False)) in
     if missing_fields a \<noteq> []
     then fail ''inbox.waiting_for.fields_missing'' VALIDATION None
       [(''missing_fields'', JArr (map JStr (missing_fields a))),
        (''confirmation_template'', JStr (confirmation_template i))]
     else if \<not> zone_ok zone
     then fail ''inbox.waiting_for.timezone_invalid'' VALIDATION (Some (Raise (OtherError ''ZoneInfoNotFoundError'') []))
       [(''timezone'', JStr zone)]
     else if \<not> if_waiting cfg then fail ''inbox.waiting_for.unavailable'' UNAVAILABLE None []
     else ib_resolve env key i TO_WAITING_FOR (Some target) (Some target)
       (Some (make_waiting zone_ok env key a zone target)) True)"

definition resolve_as_note :: "inbox_env \<Rightarrow> workspace_key \<Rightarrow> string \<Rightarrow> ('x, inbox_item) inbox_op" where
  "resolve_as_note env key i = ib_resolve env key i TO_NOTE None None None False"

definition ib_dismiss :: "inbox_env \<Rightarrow> workspace_key \<Rightarrow> string \<Rightarrow> ('x, inbox_item) inbox_op" where
  "ib_dismiss env key i = ib_resolve env key i TO_DISMISSED None None None False"

section \<open>Every operation is a sequence of calls of the repository\<close>

text \<open>\<open>calls ident m\<close>: on the inbox, \<open>m\<close> does some calls, and those that write are for \<open>ident\<close>.\<close>

definition calls :: "(instant \<Rightarrow> string) \<Rightarrow> identity \<Rightarrow> ('x inbox_system \<Rightarrow> 'r \<times> 'x inbox_system) \<Rightarrow> bool" where
  "calls enc ident m =
    (\<forall>s. \<exists>qs. (\<forall>q \<in> set qs. request_identity q \<in> {None, Some ident}) \<and>
       sy_inbox (snd (m s)) = fold (inbox_run enc) qs (sy_inbox s))"

lemma callsI:
  assumes "\<And>s. \<exists>qs. (\<forall>q \<in> set qs. request_identity q \<in> {None, Some ident}) \<and>
    sy_inbox (snd (m s)) = fold (inbox_run enc) qs (sy_inbox s)"
  shows "calls enc ident m"
  using assms by (simp add: calls_def)

lemma calls_still: "(\<And>s. sy_inbox (snd (m s)) = sy_inbox s) \<Longrightarrow> calls enc ident m"
  by (rule callsI, rule exI [of _ "[]"]) simp

lemma calls_one:
  assumes "\<And>s. snd (m s) = inbox_run enc q s" "request_identity q \<in> {None, Some ident}"
  shows "calls enc ident (on_inbox m)"
  using assms by (intro callsI exI [of _ "[q]"]) (simp add: on_inbox_def case_prod_beta)

lemma calls_bind [frame_rules]:
  assumes m: "calls enc ident m" and f: "\<And>x. calls enc ident (f x)"
  shows "calls enc ident (bindS m f)"
proof (rule callsI)
  fix s
  from m obtain qs where qs: "\<forall>q \<in> set qs. request_identity q \<in> {None, Some ident}"
    "sy_inbox (snd (m s)) = fold (inbox_run enc) qs (sy_inbox s)" unfolding calls_def by blast
  show "\<exists>qs. (\<forall>q \<in> set qs. request_identity q \<in> {None, Some ident}) \<and>
      sy_inbox (snd (bindS m f s)) = fold (inbox_run enc) qs (sy_inbox s)"
  proof (cases "fst (m s)")
    case (Inl e)
    with qs show ?thesis by (intro exI [of _ qs]) (auto simp: bindS_def case_prod_beta)
  next
    case (Inr x)
    from f [of x] obtain rs where "\<forall>q \<in> set rs. request_identity q \<in> {None, Some ident}"
      "sy_inbox (snd (f x (snd (m s)))) = fold (inbox_run enc) rs (sy_inbox (snd (m s)))"
      unfolding calls_def by blast
    with qs Inr show ?thesis by (intro exI [of _ "qs @ rs"]) (auto simp: bindS_def case_prod_beta)
  qed
qed

lemma catchS_as_bind: "snd (catchS m h s) = snd (bindS (\<lambda>s. case m s of (r, s') \<Rightarrow> (Inr r, s'))
    (\<lambda>r. case r of Inl e \<Rightarrow> h e | Inr x \<Rightarrow> retS x) s)"
  by (simp add: catchS_def bindS_def retS_def case_prod_beta split: sum.split)

lemma calls_catch [frame_rules]:
  assumes m: "calls enc ident m" and h: "\<And>e. calls enc ident (h e)"
  shows "calls enc ident (catchS m h)"
proof -
  have "calls enc ident (\<lambda>s. case m s of (r, s') \<Rightarrow> (Inr r, s'))"
    using m by (simp add: calls_def case_prod_beta)
  moreover have "calls enc ident (case r of Inl e \<Rightarrow> h e | Inr x \<Rightarrow> retS x)" for r
    using h by (cases r) (simp_all add: calls_still retS_def)
  ultimately have "calls enc ident (bindS (\<lambda>s. case m s of (r, s') \<Rightarrow> (Inr r, s'))
      (\<lambda>r. case r of Inl e \<Rightarrow> h e | Inr x \<Rightarrow> retS x))" by (rule calls_bind)
  then show ?thesis unfolding calls_def catchS_as_bind .
qed

lemma calls_rules [frame_rules]:
  "calls enc ident (retS x)" "calls enc ident (failS e)" "calls enc ident (ib_publish b topic item)"
  "calls enc ident (on_task_service c)" "calls enc ident (on_waiting_service w)" "calls enc ident (on_other g)"
  by (rule calls_still; simp add: retS_def failS_def ib_publish_def on_task_service_def on_waiting_service_def
      on_other_def case_prod_beta split: bus_mode.split)+

lemma calls_if [frame_rules]: "calls enc ident m \<Longrightarrow> calls enc ident n \<Longrightarrow> calls enc ident (if b then m else n)"
  by simp

lemma calls_get [frame_rules]: "calls enc ident (on_inbox (inbox_get io key i))"
  by (rule calls_one [where q = "Get_Item io key i"]) simp_all

lemma calls_read_claim [frame_rules]: "calls enc ident (on_inbox (read_claim io key i))"
  by (rule calls_one [where q = "Read_Claim io key i"]) simp_all

lemma calls_list [frame_rules]: "calls enc ident (on_inbox (inbox_list enc io key st l n))"
  by (rule calls_one [where q = "List_Items io key st l n"]) simp_all

lemma calls_initialize [frame_rules]: "calls enc ident (on_inbox (inbox_initialize io))"
  by (rule calls_one [where q = "Initialize_Inbox io"]) simp_all

lemma calls_capture [frame_rules]:
  "calls enc (key_identity key) (on_inbox (capture_item io (captured_values uuid key content source sugg meta now)))"
  by (rule calls_one [where q = "Capture_Item io uuid key content source sugg meta now"]) simp_all

lemma calls_claim [frame_rules]:
  "calls enc (key_identity key) (on_inbox (claim_resolution io key i ty tkey target now))"
  by (rule calls_one [where q = "Claim_Item io key i ty tkey target now"]) simp_all

lemma calls_record [frame_rules]:
  "calls enc (key_identity key) (on_inbox (record_target io key i ty target now))"
  by (rule calls_one [where q = "Record_Target io key i ty target now"]) simp_all

lemma calls_complete [frame_rules]:
  "calls enc (key_identity key) (on_inbox (complete_resolution io key i ty now))"
  by (rule calls_one [where q = "Complete_Item io key i ty now"]) simp_all

lemma calls_option [frame_rules]:
  "calls enc ident m \<Longrightarrow> (\<And>x. calls enc ident (f x)) \<Longrightarrow> calls enc ident (case v of None \<Rightarrow> m | Some x \<Rightarrow> f x)"
  by (cases v) simp_all

lemma calls_exn [frame_rules]:
  "(\<And>c m. calls enc ident (f c m)) \<Longrightarrow> (\<And>x. calls enc ident (g x)) \<Longrightarrow>
   calls enc ident (case e of Raise c m \<Rightarrow> f c m | Failed x \<Rightarrow> g x)"
  by (cases e) simp_all

lemma calls_pair [frame_rules]: "(\<And>a b. calls enc ident (f a b)) \<Longrightarrow> calls enc ident (case p of (a, b) \<Rightarrow> f a b)"
  by (cases p) simp

lemma calls_tag [frame_rules]: "calls enc ident m \<Longrightarrow> calls enc ident (tagS t m)"
  unfolding tagS_def by (intro frame_rules)

lemma calls_operations [frame_rules]:
  "calls enc (key_identity key) (ib_capture env key content source meta sugg)"
  "calls enc ident (ib_get env key i)" "calls enc ident (ib_list enc env key status limit offset)"
  "calls enc ident (ib_initialize io)"
  unfolding ib_capture_def ib_get_def ib_list_def ib_initialize_def by (intro frame_rules)+

lemma calls_claim_failed [frame_rules]: "calls enc ident (claim_failed env key i e)"
  unfolding claim_failed_def Let_def by (intro frame_rules)

lemma calls_saga_failed [frame_rules]: "calls enc ident (saga_failed env key i ty item ec)"
  unfolding saga_failed_def Let_def by (intro frame_rules)

lemma calls_resolve:
  assumes "\<And>item claim f. create = Some f \<Longrightarrow> calls enc (key_identity key) (f item claim)"
  shows "calls enc (key_identity key) (ib_resolve env key i ty tkey reserved create return_completed)"
proof -
  have "calls enc (key_identity key) (saga_body env key i ty create item claim)" for item claim
    using assms unfolding saga_body_def by (cases create) (simp; intro frame_rules; simp)+
  then show ?thesis
    unfolding ib_resolve_def by (intro frame_rules)
qed

lemma calls_makers:
  "calls enc ident (make_task zone_ok san cfg env key title description due priority item claim)"
  "calls enc ident (make_reminder cfg key title at description priority zone idempotency item claim)"
  "calls enc ident (make_work_log cfg key title description item claim)"
  "calls enc ident (make_waiting zone_ok env key a zone' target item claim)"
  unfolding make_task_def make_reminder_def make_work_log_def make_waiting_def Let_def
  by (intro frame_rules)+

end
