(* ===== verification/Inbox_Runs.thy ===== *)
theory Inbox_Runs
  imports Inbox_Service
begin

text \<open>
  Calls of the inbox that succeed: what each call of the repository returns when SQLite and the clock
  behave, and that a resolution then runs to its end from every point at which an earlier attempt
  may have stopped.  The interface of a target service is a locale; the user task service and the
  Waiting-For service are its interpretations.
\<close>

section \<open>Calls of the repository\<close>

lemma inbox_get_total:
  assumes ok: "inbox_ok (tabs_of s)" and row: "row_of ii_id i (ib_items s) = Some r" "ii_workspace r = key_identity key"
  shows "inbox_get None key i s = (Inr r, s\<lparr>ib_last_error := None\<rparr>)"
proof -
  have "scoped_item_row (ib_items s) (key_identity key) i = Inr r"
    using row inbox_okD(1) [OF ok] by (simp add: scoped_item_Inr)
  moreover have "valid_item r" using inbox_okD(3) [OF ok] row_of_Some [OF row(1)] by simp
  ultimately show ?thesis by (simp add: inbox_get_def)
qed

lemma read_claim_total:
  assumes ok: "inbox_ok (tabs_of s)" and row: "row_of ic_item i (ib_claims s) = Some c" "ic_workspace c = key_identity key"
    and "claim_ok c"
  shows "read_claim None key i s = (Inr c, s\<lparr>ib_last_error := None\<rparr>)"
proof -
  have "scoped_claim_row (ib_claims s) (key_identity key) i = Inr c"
    using row inbox_okD(2) [OF ok] by (simp add: scoped_claim_Inr)
  with assms(4) show ?thesis by (simp add: read_claim_def inbox_done_def validate_claim_def)
qed

lemma claim_resolution_total:
  assumes ok: "inbox_ok (tabs_of s)" and row: "row_of ii_id i (ib_items s) = Some r" "ii_workspace r = key_identity key"
  shows "row_of ic_item i (ib_claims s) = Some c \<Longrightarrow> claim_ok c \<Longrightarrow> ic_workspace c = key_identity key \<Longrightarrow>
      claim_resolution None key i ty tkey target now s = (Inr c, s\<lparr>ib_last_error := None\<rparr>)"
    and "row_of ic_item i (ib_claims s) = None \<Longrightarrow> ii_status r = INBOX_PENDING \<Longrightarrow>
      c = new_claim (key_identity key) i ty tkey target now \<Longrightarrow> claim_ok c \<Longrightarrow>
      claim_resolution None key i ty tkey target now s =
        (Inr c, s\<lparr>ib_claims := ib_claims s @ [c], ib_last_error := None\<rparr>)"
proof -
  have "scoped_item_row (ib_items s) (key_identity key) i = Inr r"
    using row inbox_okD(1) [OF ok] by (simp add: scoped_item_Inr)
  moreover have "valid_item r" using inbox_okD(3) [OF ok] row_of_Some [OF row(1)] by simp
  ultimately show "row_of ic_item i (ib_claims s) = Some c \<Longrightarrow> claim_ok c \<Longrightarrow> ic_workspace c = key_identity key \<Longrightarrow>
      claim_resolution None key i ty tkey target now s = (Inr c, s\<lparr>ib_last_error := None\<rparr>)"
    and "row_of ic_item i (ib_claims s) = None \<Longrightarrow> ii_status r = INBOX_PENDING \<Longrightarrow>
      c = new_claim (key_identity key) i ty tkey target now \<Longrightarrow> claim_ok c \<Longrightarrow>
      claim_resolution None key i ty tkey target now s =
        (Inr c, s\<lparr>ib_claims := ib_claims s @ [c], ib_last_error := None\<rparr>)"
    by (simp_all add: claim_resolution_def inbox_done_def validate_claim_def Let_def)
qed

text \<open>The table after one row has been replaced.\<close>

abbreviation claims_with :: "inbox_claim \<Rightarrow> inbox_store \<Rightarrow> inbox_store" where
  "claims_with c s \<equiv> s\<lparr>ib_claims := update_where (\<lambda>r. ic_item r = ic_item c) (\<lambda>_. c) (ib_claims s), ib_last_error := None\<rparr>"

abbreviation items_with :: "inbox_item \<Rightarrow> inbox_store \<Rightarrow> inbox_store" where
  "items_with x s \<equiv> s\<lparr>ib_items := update_where (\<lambda>r. ii_id r = ii_id x) (\<lambda>_. x) (ib_items s)\<rparr>"

lemma record_target_total:
  assumes ok: "inbox_ok (tabs_of s)" and row: "row_of ic_item i (ib_claims s) = Some c" "ic_workspace c = key_identity key"
    and "claim_ok c" "ic_type c = ty" "ic_state c = CLAIM_CLAIMED" "external_type ty"
    and "target \<noteq> []" "py_len target \<le> 160" "ic_created_at c \<le> now" "sql_int (ic_revision c + 1)"
  shows "record_target None key i ty target now s =
    (Inr (recorded_claim target now (ic_revision c) c), claims_with (recorded_claim target now (ic_revision c) c) s)"
proof -
  let ?hits = "claim_hits (key_identity key) i (ic_revision c) (Some CLAIM_CLAIMED)"
  have "ic_item c = i" using row_of_Some [OF row(1)] by simp
  moreover have "?hits c" using row_of_Some [OF row(1)] row(2) assms(6) by (simp add: claim_hits_def opt_clause_def)
  then have "rowcount ?hits (ib_claims s) = 1"
    "update_where ?hits (recorded_claim target now (ic_revision c)) (ib_claims s) =
      update_where (\<lambda>r. ic_item r = i) (\<lambda>_. recorded_claim target now (ic_revision c) c) (ib_claims s)"
    using update_where_row [OF inbox_okD(2) [OF ok] row(1), of ?hits] by (auto simp: claim_hits_def)
  moreover have "scoped_claim_row (ib_claims s) (key_identity key) i = Inr c"
    using row inbox_okD(2) [OF ok] by (simp add: scoped_claim_Inr)
  moreover have "claim_ok (recorded_claim target now (ic_revision c) c)"
    using assms by (simp add: claim_ok_def recorded_claim_def opt_len_def given_text_def)
  ultimately show ?thesis
    using assms(4-6,11) by (simp add: Let_def record_target_def after_commit_def inbox_done_def validate_claim_def)
qed

lemma closed_item_valid:
  assumes "valid_item r" "ii_created_at r \<le> now"
    and "if ty = TO_NOTE \<or> ty = TO_DISMISSED then target = None else given_text target" "opt_len 160 target"
  shows "valid_item (closed_item ty target now r)"
  using assms by (auto simp: valid_item_iff inbox_fields_ok_def inbox_state_ok_def closed_item_def final_status_def
      split: if_splits)

lemma complete_resolution_total:
  assumes ok: "inbox_ok (tabs_of s)"
    and row: "row_of ii_id i (ib_items s) = Some r" "ii_workspace r = key_identity key" "ii_status r = INBOX_PENDING"
    and claim: "row_of ic_item i (ib_claims s) = Some c" "ic_workspace c = key_identity key" "claim_ok c" "ic_type c = ty"
    and state: "ic_state c = CLAIM_TARGET_CREATED \<or> ic_state c = CLAIM_CLAIMED \<and> \<not> external_type ty"
    and times: "ii_created_at r \<le> now" "ic_created_at c \<le> now"
    and bounds: "sql_int (ii_revision r + 1)" "sql_int (ic_revision c + 1)"
    and x: "x = (closed_item ty (ic_target c) now r)\<lparr>ii_revision := ii_revision r + 1\<rparr>"
    and d: "d = completed_claim now (ic_revision c) c"
  shows "complete_resolution None key i ty now s = (Inr (x, d), claims_with d (items_with x s))"
proof -
  let ?hits = "item_hits (key_identity key) i (ii_revision r)" and ?chits = "claim_hits (key_identity key) i (ic_revision c) None"
  have valid: "valid_item r" and id: "ii_id r = i" and cid: "ic_item c = i"
    using inbox_okD(3) [OF ok] row_of_Some [OF row(1)] row_of_Some [OF claim(1)] by simp_all
  have "if ty = TO_NOTE \<or> ty = TO_DISMISSED then ic_target c = None else given_text (ic_target c)"
    using claim(3,4) state by (cases ty) (auto simp: claim_ok_def external_type_def)
  with claim(3) valid times(1) have closed: "valid_item (closed_item ty (ic_target c) now r)"
    by (intro closed_item_valid) (auto simp: claim_ok_def)
  then have new: "valid_item x"
    unfolding x using valid_item_pos [OF valid] by (intro valid_item_revision) simp_all
  have "?hits r" using row(2,3) id by (simp add: item_hits_def)
  then have "rowcount ?hits (ib_items s) = 1"
    "update_where ?hits (\<lambda>_. x) (ib_items s) = update_where (\<lambda>r. ii_id r = ii_id x) (\<lambda>_. x) (ib_items s)"
    using update_where_row [OF inbox_okD(1) [OF ok] row(1), of ?hits] id by (auto simp: item_hits_def x)
  with closed row(3) bounds(1) have item: "complete_item (key_identity key) i ty (ic_target c) now r (ib_items s) =
      Written (x, ib_items (items_with x s))"
    by (simp add: Let_def complete_item_def x)
  have "?chits c" using claim(2) cid by (simp add: claim_hits_def opt_clause_def)
  then have "rowcount ?chits (ib_claims s) = 1"
    "update_where ?chits (completed_claim now (ic_revision c)) (ib_claims s) =
      update_where (\<lambda>r. ic_item r = ic_item d) (\<lambda>_. d) (ib_claims s)"
    using update_where_row [OF inbox_okD(2) [OF ok] claim(1), of ?chits] cid by (auto simp: claim_hits_def opt_clause_def d)
  with state bounds(2) have done_claim: "complete_claim (key_identity key) i now c (ib_claims s) =
      Written (d, ib_claims (claims_with d s))"
    by (auto simp: Let_def complete_claim_def d)
  have "claim_ok d"
    using claim(3,4) state times(2) by (auto simp: claim_ok_def d completed_claim_def)
  moreover have "scoped_item_row (ib_items s) (key_identity key) i = Inr r" "scoped_claim_row (ib_claims s) (key_identity key) i = Inr c"
    using row claim inbox_okD(1,2) [OF ok] by (simp_all add: scoped_item_Inr scoped_claim_Inr)
  ultimately show ?thesis
    using valid new claim(3,4) state item done_claim
    by (auto simp: Let_def complete_resolution_def on_attempt_def after_commit_def inbox_done_def validate_claim_def)
qed

section \<open>A resolution that runs to its end\<close>

definition no_raise :: "bus_mode \<Rightarrow> bool" where
  "no_raise b = (case b of Bus_Raises x \<Rightarrow> False | _ \<Rightarrow> True)"

text \<open>No failure of SQLite or the bus, and a clock that does not go back.\<close>

definition calm_env :: "inbox_env \<Rightarrow> bool" where
  "calm_env env =
    (ie_io env = None \<and> ie_get_io env = None \<and> ie_read_io env = None \<and> ie_record_io env = None \<and>
     ie_complete_io env = None \<and> ie_now env \<le> ie_record_now env \<and> ie_record_now env \<le> ie_complete_now env \<and>
     no_raise (ie_bus env))"

lemma on_inbox_run: "m (sy_inbox s) = (r, st) \<Longrightarrow> on_inbox m s = (r, s\<lparr>sy_inbox := st\<rparr>)"
  by (simp add: on_inbox_def)

text \<open>The state in which an item stands before its target has been recorded.\<close>

definition claimed_for ::
  "inbox_resolved \<Rightarrow> workspace_key \<Rightarrow> inbox_item \<Rightarrow> inbox_claim \<Rightarrow> inbox_store \<Rightarrow> bool" where
  "claimed_for ty key r c st =
    (inbox_ok (tabs_of st) \<and>
     row_of ii_id (ii_id r) (ib_items st) = Some r \<and> ii_workspace r = key_identity key \<and> ii_status r = INBOX_PENDING \<and>
     row_of ic_item (ii_id r) (ib_claims st) = Some c \<and> ic_workspace c = key_identity key \<and> claim_ok c \<and>
     ic_type c = ty \<and> ic_state c = CLAIM_CLAIMED)"

definition resolution_fits :: "inbox_env \<Rightarrow> inbox_item \<Rightarrow> inbox_claim \<Rightarrow> bool" where
  "resolution_fits env r c =
    (ii_created_at r \<le> ie_complete_now env \<and> ic_created_at c \<le> ie_record_now env \<and>
     sql_int (ii_revision r + 1) \<and> sql_int (ic_revision c + 1) \<and> sql_int (2 + ic_revision c))"

lemma record_and_complete:
  assumes st: "claimed_for ty key r c st" and fits: "resolution_fits env r c" and calm_env: "calm_env env"
    and ty: "external_type ty" and target: "target \<noteq> []" "py_len target \<le> 160"
  defines "x \<equiv> (closed_item ty (Some target) (ie_complete_now env) r)\<lparr>ii_revision := ii_revision r + 1\<rparr>"
  obtains c' d st' where
    "record_target (ie_record_io env) key (ii_id r) ty target (ie_record_now env) st = (Inr c', claims_with c' st)"
    "complete_resolution (ie_complete_io env) key (ii_id r) ty (ie_complete_now env) (claims_with c' st) = (Inr (x, d), st')"
proof -
  let ?c = "recorded_claim target (ie_record_now env) (ic_revision c) c"
  have rec: "record_target None key (ii_id r) ty target (ie_record_now env) st = (Inr ?c, claims_with ?c st)"
    using st fits ty target by (intro record_target_total) (simp_all add: claimed_for_def resolution_fits_def)
  have ok': "inbox_ok (tabs_of (claims_with ?c st))"
    using inbox_step_ok [OF record_target_step [OF _ rec]] st by (simp add: claimed_for_def)
  have c': "ic_item c = ii_id r" "claim_ok ?c" "ic_type ?c = ty" "ic_state ?c = CLAIM_TARGET_CREATED" "ic_target ?c = Some target"
    "ic_created_at ?c = ic_created_at c" "ic_revision ?c = ic_revision c + 1"
    using st fits ty target row_of_Some [of ic_item "ii_id r" "ib_claims st" c]
    by (auto simp: claimed_for_def resolution_fits_def claim_ok_def recorded_claim_def opt_len_def given_text_def)
  have "complete_resolution None key (ii_id r) ty (ie_complete_now env) (claims_with ?c st) =
      (Inr (x, completed_claim (ie_complete_now env) (ic_revision ?c) ?c),
       claims_with (completed_claim (ie_complete_now env) (ic_revision ?c) ?c) (items_with x (claims_with ?c st)))"
    using st fits calm_env c' ok'
    by (intro complete_resolution_total [where r = r and c = ?c])
      (auto simp: claimed_for_def resolution_fits_def calm_env_def x_def row_of_replace)
  with rec calm_env show ?thesis
    by (intro that) (auto simp: calm_env_def)
qed

lemma ib_resolve_runs:
  assumes calm_env: "calm_env env"
    and claim: "claim_resolution None key (ii_id r) ty tkey reserved (ie_now env) (sy_inbox s) = (Inr c, st)"
    and st: "claimed_for ty key r c st" and fits: "resolution_fits env r c" and ty: "external_type ty"
    and target: "target \<noteq> []" "py_len target \<le> 160"
    and create: "\<And>X. f r c (s\<lparr>sy_inbox := X\<rparr>) = (Inr target, t\<lparr>sy_inbox := X\<rparr>)"
  shows "\<exists>t'. ib_resolve env key (ii_id r) ty tkey reserved (Some f) b s =
      (Inr ((closed_item ty (Some target) (ie_complete_now env) r)\<lparr>ii_revision := ii_revision r + 1\<rparr>), t') \<and>
    sy_tasks t' = sy_tasks t \<and> sy_waiting t' = sy_waiting t \<and> sy_other t' = sy_other t"
proof -
  let ?x = "(closed_item ty (Some target) (ie_complete_now env) r)\<lparr>ii_revision := ii_revision r + 1\<rparr>"
  let ?st = "st\<lparr>ib_last_error := None\<rparr>"
  from st have st1: "claimed_for ty key r c ?st" by (simp add: claimed_for_def)
  have get: "inbox_get None key (ii_id r) st = (Inr r, ?st)"
    using st by (intro inbox_get_total) (simp_all add: claimed_for_def)
  have read: "read_claim None key (ii_id r) ?st = (Inr c, ?st)"
    using read_claim_total [of ?st "ii_id r" c key] st by (simp add: claimed_for_def)
  obtain c' d st' where
    rec: "record_target (ie_record_io env) key (ii_id r) ty target (ie_record_now env) ?st = (Inr c', claims_with c' ?st)"
    and fin: "complete_resolution (ie_complete_io env) key (ii_id r) ty (ie_complete_now env) (claims_with c' ?st) = (Inr (?x, d), st')"
    by (rule record_and_complete [OF st1 fits calm_env ty target]) blast
  have state: "ic_state c = CLAIM_CLAIMED" "ic_type c = ty" "ii_status r = INBOX_PENDING"
    using st by (simp_all add: claimed_for_def)
  have body: "saga_body env key (ii_id r) ty (Some f) r c (s\<lparr>sy_inbox := ?st\<rparr>) = (Inr ?x, t\<lparr>sy_inbox := st'\<rparr>)"
    using calm_env read rec fin state
    by (simp add: saga_body_def bindS_run tagS_def catchS_def on_inbox_def create calm_env_def retS_def)
  obtain t' where pub: "ib_publish (ie_bus env) (if ty = TO_DISMISSED then ''inbox.dismissed'' else ''inbox.resolved'') ?x
      (t\<lparr>sy_inbox := st'\<rparr>) = (Inr (), t')"
    "sy_tasks t' = sy_tasks t" "sy_waiting t' = sy_waiting t" "sy_other t' = sy_other t"
    using calm_env by (cases "ie_bus env") (auto simp: ib_publish_def calm_env_def no_raise_def)
  have "ib_resolve env key (ii_id r) ty tkey reserved (Some f) b s = (Inr ?x, t')"
    using calm_env claim get body pub(1) state
    by (simp add: ib_resolve_def bindS_run catchS_def on_inbox_def ib_get_def calm_env_def retS_def)
  with pub(2-4) show ?thesis by blast
qed

section \<open>Target services\<close>

text \<open>
  What the saga needs of the service that owns the targets: when the target of the claim is already
  there for this item, creating it again returns its identifier and stores nothing.
\<close>

locale conversion_target =
  fixes create :: "inbox_item \<Rightarrow> inbox_claim \<Rightarrow> 'x inbox_system \<Rightarrow> (exn + string) \<times> 'x inbox_system"
    and there :: "inbox_item \<Rightarrow> inbox_claim \<Rightarrow> 'x inbox_system \<Rightarrow> bool"
    and target :: "inbox_claim \<Rightarrow> string"
    and data :: "'x inbox_system \<Rightarrow> 'd"
  assumes create_again:
      "there r c s \<Longrightarrow> \<exists>t. (\<forall>X. create r c (s\<lparr>sy_inbox := X\<rparr>) = (Inr (target c), t\<lparr>sy_inbox := X\<rparr>)) \<and> data t = data s"
    and data_frame:
      "sy_tasks s = sy_tasks t \<Longrightarrow> sy_waiting s = sy_waiting t \<Longrightarrow> sy_other s = sy_other t \<Longrightarrow> data s = data t"
begin

text \<open>An attempt that finds the claim and the target of an earlier one completes the resolution.\<close>

lemma retry_completes:
  assumes "there r c s" "calm_env env" "claimed_for ty key r c (sy_inbox s)" "resolution_fits env r c" "external_type ty"
    and "target c \<noteq> []" "py_len (target c) \<le> 160"
  shows "\<exists>t. ib_resolve env key (ii_id r) ty tkey reserved (Some create) b s =
      (Inr ((closed_item ty (Some (target c)) (ie_complete_now env) r)\<lparr>ii_revision := ii_revision r + 1\<rparr>), t) \<and>
    data t = data s"
proof -
  let ?st = "(sy_inbox s)\<lparr>ib_last_error := None\<rparr>"
  obtain u where u: "\<And>X. create r c (s\<lparr>sy_inbox := X\<rparr>) = (Inr (target c), u\<lparr>sy_inbox := X\<rparr>)" "data u = data s"
    using create_again [OF assms(1)] by blast
  have claim: "claim_resolution None key (ii_id r) ty tkey reserved (ie_now env) (sy_inbox s) = (Inr c, ?st)"
    using assms(3) claim_resolution_total(1) [of "sy_inbox s" "ii_id r" r key c] by (simp add: claimed_for_def)
  have st: "claimed_for ty key r c ?st" using assms(3) by (simp add: claimed_for_def)
  obtain t where "ib_resolve env key (ii_id r) ty tkey reserved (Some create) b s =
      (Inr ((closed_item ty (Some (target c)) (ie_complete_now env) r)\<lparr>ii_revision := ii_revision r + 1\<rparr>), t)"
    "sy_tasks t = sy_tasks u" "sy_waiting t = sy_waiting u" "sy_other t = sy_other u"
    using ib_resolve_runs [OF assms(2) claim st assms(4-7), where f = create and t = u, OF u(1)] by blast
  with u(2) data_frame [of t u] show ?thesis by auto
qed

end

text \<open>User tasks.\<close>

lemma task_failure_category: "\<exists>f. task_failure san op tr (Raise c m) = Failed f \<and>
    fi_category f = task_category (Raise c m) \<and> fi_retryable f = (task_category (Raise c m) = PERSISTENCE_FAILURE)"
  by (simp add: task_failure_def failure_from_exception_def Let_def split: prod.split)

lemma ut_publish_quiet: "no_raise b \<Longrightarrow> \<exists>s'. ut_publish b topic i tr st s = (Inr (), s') \<and> us_store s' = us_store s"
  by (cases b) (simp_all add: ut_publish_def no_raise_def)

lemma failing_runs: "no_raise (ue_bus_failed env) \<Longrightarrow>
    \<exists>s'. failing env san op i tr e s = (Inl (task_failure san op tr e), s') \<and> us_store s' = us_store s"
  using ut_publish_quiet [of "ue_bus_failed env" "''user_task.failed''" i tr "''failed''" s]
  by (auto simp: failing_def bindS_run failS_def)

definition created_task :: "(string \<Rightarrow> bool) \<Rightarrow> ut_env \<Rightarrow> ut_new \<Rightarrow> user_task \<Rightarrow> bool" where
  "created_task zone_ok env q t =
    (\<exists>d. un_created_at q = Some d \<and> validate_task zone_ok (new_values env q d) = Inr t)"

text \<open>The row is there: the second creation is a conflict and stores nothing.\<close>

lemma ut_create_conflict:
  assumes "created_task zone_ok env q t" "ue_write_io env = None" "no_raise (ue_bus_failed env)"
    and "row_of ur_id (ut_id t) (us_table s) \<noteq> None"
  shows "\<exists>e s'. ut_create zone_ok san env q s = (Inl e, s') \<and> is_conflict e \<and> us_store s' = us_store s"
proof -
  from assms(1) obtain d where d: "un_created_at q = Some d" "validate_task zone_ok (new_values env q d) = Inr t"
    by (auto simp: created_task_def)
  then have "ut_revision t = 1" by (auto simp: validate_task_Inr task_of_values_def new_values_def)
  then have create: "task_create None t (us_store s) = (Inl (Raise UserTaskConflictError ''UserTask already exists''), us_store s)"
    using assms(4) by (auto simp: task_create_def Let_def sql_int_def)
  from failing_runs [OF assms(3), of san "''create''" "given_id (un_id q) ''validation''" "un_trace_id q"
      "Raise UserTaskConflictError ''UserTask already exists''" s]
  obtain s' where s': "failing env san ''create'' (given_id (un_id q) ''validation'') (un_trace_id q)
      (Raise UserTaskConflictError ''UserTask already exists'') s =
      (Inl (task_failure san ''create'' (un_trace_id q) (Raise UserTaskConflictError ''UserTask already exists'')) ::
        exn + user_task, s')" "us_store s' = us_store s" by blast
  have "ut_create zone_ok san env q s =
      (Inl (task_failure san ''create'' (un_trace_id q) (Raise UserTaskConflictError ''UserTask already exists'')), s')"
    using d create s'(1) assms(2) by (simp add: ut_create_def catchS_def bindS_run liftS_def on_tasks_def)
  moreover have "is_conflict (task_failure san ''create'' (un_trace_id q) (Raise UserTaskConflictError ''UserTask already exists''))"
    using task_failure_category [of san "''create''" "un_trace_id q" UserTaskConflictError "''UserTask already exists''"]
    by (auto simp: is_conflict_def task_category_def)
  ultimately show ?thesis using s'(2) by blast
qed

definition task_there ::
  "(string \<Rightarrow> bool) \<Rightarrow> 'x inbox_config \<Rightarrow> inbox_env \<Rightarrow> workspace_key \<Rightarrow> string \<Rightarrow> string \<Rightarrow> datetime option \<Rightarrow>
   ut_priority \<Rightarrow> inbox_item \<Rightarrow> inbox_claim \<Rightarrow> 'x inbox_system \<Rightarrow> bool" where
  "task_there zone_ok cfg env key title description due priority r c s =
    (if_tasks cfg \<and> ue_write_io (ie_task env) = None \<and> no_raise (ue_bus_failed (ie_task env)) \<and>
     ue_read_io (ie_task_get env) = None \<and> tasks_ok zone_ok (us_table (sy_tasks s)) \<and>
     (\<exists>tid new t. claim_key c = Some tid \<and>
        created_task zone_ok (ie_task env)
          (task_request key title description due priority (if_timezone cfg) (ie_target_now env) (inbox_evidence r) tid) new \<and>
        row_of ur_id tid (us_table (sy_tasks s)) = Some (task_row t) \<and> owned_by key (task_row t) \<and>
        map_of (ut_metadata t) ''inbox_item_id'' = Some (JStr (ii_id r))))"

lemma claim_key_nonempty: "claim_key c = Some k \<Longrightarrow> k \<noteq> [] \<and> ic_key c = Some k"
  by (auto simp: claim_key_def split: option.splits if_splits)

lemma created_id: "created_task zone_ok env q t \<Longrightarrow> un_id q = Some k \<Longrightarrow> k \<noteq> [] \<Longrightarrow> ut_id t = k"
  by (auto simp: created_task_def validate_task_Inr task_of_values_def new_values_def given_id_def)

lemma make_task_again:
  assumes "task_there zone_ok cfg env key title description due priority r c s"
  shows "\<exists>u. (\<forall>X. make_task zone_ok san cfg env key title description due priority r c (s\<lparr>sy_inbox := X\<rparr>) =
      (Inr (the (claim_key c)), u\<lparr>sy_inbox := X\<rparr>)) \<and> us_table (sy_tasks u) = us_table (sy_tasks s)"
proof -
  obtain tid new t where there: "claim_key c = Some tid"
      "created_task zone_ok (ie_task env)
        (task_request key title description due priority (if_timezone cfg) (ie_target_now env) (inbox_evidence r) tid) new"
      "row_of ur_id tid (us_table (sy_tasks s)) = Some (task_row t)" "owned_by key (task_row t)"
      "map_of (ut_metadata t) ''inbox_item_id'' = Some (JStr (ii_id r))"
    and calm_env: "if_tasks cfg" "ue_write_io (ie_task env) = None" "no_raise (ue_bus_failed (ie_task env))"
      "ue_read_io (ie_task_get env) = None" "tasks_ok zone_ok (us_table (sy_tasks s))"
    using assms by (auto simp: task_there_def)
  let ?q = "task_request key title description due priority (if_timezone cfg) (ie_target_now env) (inbox_evidence r) tid"
  have "ut_id new = tid"
    using created_id [OF there(2), of tid] claim_key_nonempty [OF there(1)] by (simp add: task_request_def)
  then obtain e s1 where create: "ut_create zone_ok san (ie_task env) ?q (sy_tasks s) = (Inl e, s1)" "is_conflict e"
    "us_store s1 = us_store (sy_tasks s)"
    using ut_create_conflict [OF there(2) calm_env(2,3), of "sy_tasks s" san] there(3) by auto
  obtain s2 where get: "ut_get zone_ok san (ie_task_get env) key tid (trace_id key) s1 = (Inr t, s2)" "us_table s2 = us_table s1"
    by (rule ut_get_total [of zone_ok s1 tid t key "ie_task_get env" san "trace_id key"])
      (use calm_env there create(3) in simp_all)
  have "make_task zone_ok san cfg env key title description due priority r c (s\<lparr>sy_inbox := X\<rparr>) =
      (Inr tid, s\<lparr>sy_tasks := s2\<rparr>\<lparr>sy_inbox := X\<rparr>)" for X
    using calm_env(1) there(1,5) create(1,2) get(1) row_of_Some [OF there(3)]
    by (simp add: make_task_def bindS_run catchS_def on_task_service_def retS_def)
  with there(1) get(2) create(3) show ?thesis
    by (intro exI [of _ "s\<lparr>sy_tasks := s2\<rparr>"]) simp
qed

interpretation task_target: conversion_target
  "make_task zone_ok san cfg env key title description due priority"
  "task_there zone_ok cfg env key title description due priority"
  "\<lambda>c. the (claim_key c)" "\<lambda>s. us_table (sy_tasks s)"
  for zone_ok san and cfg :: "'x inbox_config" and env key title description due priority
  by unfold_locales (use make_task_again in blast, simp)

text \<open>Waiting-For items.\<close>

definition waiting_there ::
  "(string \<Rightarrow> bool) \<Rightarrow> inbox_env \<Rightarrow> workspace_key \<Rightarrow> waiting_args \<Rightarrow> string \<Rightarrow> inbox_item \<Rightarrow> inbox_claim \<Rightarrow>
   'x inbox_system \<Rightarrow> bool" where
  "waiting_there zone_ok env key a zone r c s =
    (env_read_io (ie_waiting env) = None \<and> store_ok zone_ok (sv_store (sy_waiting s)) \<and>
     (\<exists>k new x. claim_key c = Some k \<and>
        fst (create_body zone_ok (ie_waiting env) (waiting_request key a zone r k) empty_store) = Inr new \<and>
        row_of wr_id k (st_items (sv_store (sy_waiting s))) = Some x \<and> wr_identity x = key_identity key \<and>
        map_of (wr_metadata x) ''inbox_item_id'' = Some (JStr (ii_id r)) \<and>
        map_of (wr_metadata x) ''inbox_source'' = Some (JStr (ii_source r))))"

lemma create_body_conflict:
  assumes "fst (create_body zone_ok env q empty_store) = Inr new" "cr_id q = Some k" "row_of wr_id k (st_items st) \<noteq> None"
  shows "\<exists>m. create_body zone_ok env q st = (Inl (Raise WaitingForConflictError m), st)"
proof -
  obtain w ev where w: "validate_waiting_for zone_ok (create_values env q) = Inr w"
    and ev: "validate_event
             \<lparr>wfe_id = ''wfe_'' @ env_event_uuid env, wfe_item = wf_id w, wfe_key = wf_key w,
              wfe_sequence = 1, wfe_type = CREATED, wfe_occurred_at = env_now env, wfe_note = [],
              wfe_source = cr_source q, wfe_trace_id = request_trace (cr_trace_id q) (cr_key q),
              wfe_metadata = []\<rparr> = Inr ev"
    and io: "fst (repo_create (env_write_io env) w ev empty_store) = Inr new"
    using assms(1) by (auto simp: create_body_def split: sum.splits)
  have id: "wf_id w = k"
    using w assms(2) by (auto simp: validate_waiting_for_Inr normalised_def create_values_def)
  obtain t where "repo_create (env_write_io env) w ev empty_store = (Inr new, t)"
    using io by (metis prod.collapse)
  from repo_create_success [OF this] w ev id assms(3) show ?thesis
    by (simp add: create_body_def repo_create_def)
qed

lemma make_waiting_again:
  assumes "waiting_there zone_ok env key a zone r c s"
  shows "\<exists>u. (\<forall>X. make_waiting zone_ok env key a zone target r c (s\<lparr>sy_inbox := X\<rparr>) =
      (Inr (the (claim_key c)), u\<lparr>sy_inbox := X\<rparr>)) \<and> wf_data (sy_waiting u) = wf_data (sy_waiting s)"
proof -
  obtain k new x where k: "claim_key c = Some k"
      "fst (create_body zone_ok (ie_waiting env) (waiting_request key a zone r k) empty_store) = Inr new"
      "row_of wr_id k (st_items (sv_store (sy_waiting s))) = Some x" "wr_identity x = key_identity key"
      "map_of (wr_metadata x) ''inbox_item_id'' = Some (JStr (ii_id r))"
      "map_of (wr_metadata x) ''inbox_source'' = Some (JStr (ii_source r))"
    and io: "env_read_io (ie_waiting env) = None" and ok: "store_ok zone_ok (sv_store (sy_waiting s))"
    using assms by (auto simp: waiting_there_def)
  let ?q = "waiting_request key a zone r k"
  have given: "given_id (ic_key c) target = k"
    using claim_key_nonempty [OF k(1)] by (simp add: given_id_def)
  obtain m where body: "create_body zone_ok (ie_waiting env) ?q (sv_store (sy_waiting s)) =
      (Inl (Raise WaitingForConflictError m), sv_store (sy_waiting s))"
    using create_body_conflict [OF k(2), of k "sv_store (sy_waiting s)"] k(3) by (auto simp: waiting_request_def)
  let ?e = "create_failure (request_trace (cr_trace_id ?q) (cr_key ?q)) (Raise WaitingForConflictError m)"
  have create: "wf_create zone_ok (ie_waiting env) ?q (sy_waiting s) = (Inl ?e, sy_waiting s)"
    using body by (simp add: wf_create_def)
  have conflict: "is_conflict ?e"
    by (simp add: create_failure_def raise_conflict_def raise_failure_def is_conflict_def)
  let ?u = "(sy_waiting s)\<lparr>sv_store := clear_error (sv_store (sy_waiting s))\<rparr>"
  have get: "wf_get zone_ok (ie_waiting env) key k (sy_waiting s) = (Inr (row_item (env_read_trace (ie_waiting env)) x), ?u)"
    using wf_get_total [OF ok io] k(3,4) by simp
  have "make_waiting zone_ok env key a zone target r c (s\<lparr>sy_inbox := X\<rparr>) =
      (Inr k, s\<lparr>sy_waiting := ?u\<rparr>\<lparr>sy_inbox := X\<rparr>)" for X
    using create conflict get k(5,6) row_of_Some [OF k(3)]
    by (simp add: make_waiting_def given bindS_run catchS_def on_waiting_service_def retS_def row_item_def)
  with k(1) show ?thesis
    by (intro exI [of _ "s\<lparr>sy_waiting := ?u\<rparr>"]) (simp add: wf_data_def)
qed

interpretation waiting_target: conversion_target
  "make_waiting zone_ok env key a zone target" "waiting_there zone_ok env key a zone"
  "\<lambda>c. the (claim_key c)" "\<lambda>s. wf_data (sy_waiting s)"
  for zone_ok env key a zone target
  by unfold_locales (use make_waiting_again in blast, simp)

section \<open>The first attempt\<close>

lemma py_len_length: "py_len s \<le> length s"
  by (cases s) simp_all

lemma reserved_id_fits [simp]:
  "length prefix \<le> 100 \<Longrightarrow> py_len (reserved_id sha prefix i) \<le> 160" "reserved_id sha prefix i \<noteq> []"
proof -
  assume "length prefix \<le> 100"
  then have "length (reserved_id sha prefix i) \<le> 160" by (simp add: reserved_id_def)
  with py_len_length show "py_len (reserved_id sha prefix i) \<le> 160" by (rule le_trans)
qed (simp add: reserved_id_def)

lemma new_claim_ok:
  assumes "valid_item r" "external_type ty" "k \<noteq> []" "py_len k \<le> 160" "tgt = None \<or> tgt = Some k"
  shows "claim_ok (new_claim ident (ii_id r) ty (Some k) tgt now)"
  using assms by (auto simp: claim_ok_def new_claim_def valid_item_iff inbox_fields_ok_def opt_len_def given_text_def)

text \<open>The claim is made before the target; an attempt that fails to create the target leaves it.\<close>

lemma ib_resolve_stopped:
  assumes ok: "inbox_ok (tabs_of (sy_inbox s))" and calm_env: "calm_env env"
    and row: "row_of ii_id (ii_id r) (ib_items (sy_inbox s)) = Some r" "ii_workspace r = key_identity key" "ii_status r = INBOX_PENDING"
    and free: "row_of ic_item (ii_id r) (ib_claims (sy_inbox s)) = None"
    and c: "c = new_claim (key_identity key) (ii_id r) ty tkey reserved (ie_now env)" "claim_ok c"
    and create: "\<And>X. f r c (s\<lparr>sy_inbox := X\<rparr>) = (Inl e, t\<lparr>sy_inbox := X\<rparr>)"
    and told: "\<And>X. \<exists>u. saga_failed env key (ii_id r) ty r (e, c) (t\<lparr>sy_inbox := X\<rparr>) = ((Inl x :: exn + inbox_item), u) \<and>
      sy_tasks u = sy_tasks t \<and> sy_waiting u = sy_waiting t \<and> sy_other u = sy_other t \<and> sy_inbox u = X"
  shows "\<exists>t'. ib_resolve env key (ii_id r) ty tkey reserved (Some f) b s = (Inl x, t') \<and>
    sy_tasks t' = sy_tasks t \<and> sy_waiting t' = sy_waiting t \<and> sy_other t' = sy_other t \<and> claimed_for ty key r c (sy_inbox t')"
proof -
  let ?st = "(sy_inbox s)\<lparr>ib_claims := ib_claims (sy_inbox s) @ [c], ib_last_error := None\<rparr>"
  have claim: "claim_resolution None key (ii_id r) ty tkey reserved (ie_now env) (sy_inbox s) = (Inr c, ?st)"
    by (rule claim_resolution_total(2) [OF ok row(1,2) free row(3) c])
  have fields: "ic_item c = ii_id r" "ic_workspace c = key_identity key" "ic_type c = ty" "ic_state c = CLAIM_CLAIMED"
    by (simp_all add: c(1) new_claim_def)
  have "inbox_ok (tabs_of ?st)"
    using inbox_step_ok [OF claim_resolution_step [OF ok claim] ok] by simp
  with row free fields c(2) have st: "claimed_for ty key r c ?st" by (simp add: claimed_for_def)
  have get: "inbox_get None key (ii_id r) ?st = (Inr r, ?st)"
    using inbox_get_total [of ?st "ii_id r" r key] st by (simp add: claimed_for_def)
  have read: "read_claim None key (ii_id r) ?st = (Inr c, ?st)"
    using read_claim_total [of ?st "ii_id r" c key] st by (simp add: claimed_for_def)
  have body: "saga_body env key (ii_id r) ty (Some f) r c (s\<lparr>sy_inbox := ?st\<rparr>) = (Inl (e, c), t\<lparr>sy_inbox := ?st\<rparr>)"
    using calm_env read fields
    by (simp add: saga_body_def bindS_run tagS_def catchS_def on_inbox_def create calm_env_def failS_def)
  obtain t' where told: "saga_failed env key (ii_id r) ty r (e, c) (t\<lparr>sy_inbox := ?st\<rparr>) = ((Inl x :: exn + inbox_item), t')"
    "sy_tasks t' = sy_tasks t" "sy_waiting t' = sy_waiting t" "sy_other t' = sy_other t" "sy_inbox t' = ?st"
    using told by blast
  have "ib_resolve env key (ii_id r) ty tkey reserved (Some f) b s = (Inl x, t')"
    using calm_env claim get body told(1) row(3) fields
    by (simp add: ib_resolve_def bindS_run catchS_def on_inbox_def ib_get_def calm_env_def)
  with told(2-) st show ?thesis by auto
qed

lemma told_quietly: "no_raise b \<Longrightarrow> \<exists>u. ib_publish b topic i s = (Inr (), u) \<and>
    sy_tasks u = sy_tasks s \<and> sy_waiting u = sy_waiting s \<and> sy_other u = sy_other s \<and> sy_inbox u = sy_inbox s"
  by (cases b) (simp_all add: ib_publish_def no_raise_def)

lemma ib_resolve_stops:
  assumes ok: "inbox_ok (tabs_of (sy_inbox s))" and calm_env: "calm_env env" "no_raise (ie_bus_failed env)"
    and row: "row_of ii_id (ii_id r) (ib_items (sy_inbox s)) = Some r" "ii_workspace r = key_identity key" "ii_status r = INBOX_PENDING"
    and free: "row_of ic_item (ii_id r) (ib_claims (sy_inbox s)) = None"
    and ty: "ty \<noteq> TO_WAITING_FOR" and c: "c = new_claim (key_identity key) (ii_id r) ty tkey reserved (ie_now env)" "claim_ok c"
  shows "(\<And>X. f r c (s\<lparr>sy_inbox := X\<rparr>) = (Inl (Failed x), t\<lparr>sy_inbox := X\<rparr>)) \<Longrightarrow>
      \<exists>t'. ib_resolve env key (ii_id r) ty tkey reserved (Some f) b s =
        (Inl (inbox_failure ''inbox.resolve_failed'' (fi_category x) ''resolve'' (Some (Failed x)) (trace_id key)
           [(''dependency_code'', JStr (fi_code x))] (fi_retryable x)), t') \<and>
      sy_tasks t' = sy_tasks t \<and> sy_waiting t' = sy_waiting t \<and> sy_other t' = sy_other t \<and> claimed_for ty key r c (sy_inbox t')"
    and "(\<And>X. f r c (s\<lparr>sy_inbox := X\<rparr>) = (Inl (Raise k m), t\<lparr>sy_inbox := X\<rparr>)) \<Longrightarrow>
      k \<notin> set inbox_classes \<Longrightarrow> \<not> is_value_error (Raise k m) \<Longrightarrow>
      \<exists>t'. ib_resolve env key (ii_id r) ty tkey reserved (Some f) b s =
        (Inl (inbox_failure ''inbox.resolve_failed'' INTERNAL ''resolve'' (Some (Raise k m)) (trace_id key) [] False), t') \<and>
      sy_tasks t' = sy_tasks t \<and> sy_waiting t' = sy_waiting t \<and> sy_other t' = sy_other t \<and> claimed_for ty key r c (sy_inbox t')"
proof -
  have "\<exists>u. saga_failed env key (ii_id r) ty r (Failed x, c) (t\<lparr>sy_inbox := X\<rparr>) =
      (Inl (inbox_failure ''inbox.resolve_failed'' (fi_category x) ''resolve'' (Some (Failed x)) (trace_id key)
         [(''dependency_code'', JStr (fi_code x))] (fi_retryable x)) :: exn + inbox_item, u) \<and>
      sy_tasks u = sy_tasks t \<and> sy_waiting u = sy_waiting t \<and> sy_other u = sy_other t \<and> sy_inbox u = X" for X
    using told_quietly [OF calm_env(2), of "''inbox.resolve_failed''" r "t\<lparr>sy_inbox := X\<rparr>"] ty
    by (auto simp: saga_failed_def Let_def bindS_run failS_def)
  then show "(\<And>X. f r c (s\<lparr>sy_inbox := X\<rparr>) = (Inl (Failed x), t\<lparr>sy_inbox := X\<rparr>)) \<Longrightarrow>
      \<exists>t'. ib_resolve env key (ii_id r) ty tkey reserved (Some f) b s =
        (Inl (inbox_failure ''inbox.resolve_failed'' (fi_category x) ''resolve'' (Some (Failed x)) (trace_id key)
           [(''dependency_code'', JStr (fi_code x))] (fi_retryable x)), t') \<and>
      sy_tasks t' = sy_tasks t \<and> sy_waiting t' = sy_waiting t \<and> sy_other t' = sy_other t \<and> claimed_for ty key r c (sy_inbox t')"
    by (intro ib_resolve_stopped [OF ok calm_env(1) row free c])
  assume k: "k \<notin> set inbox_classes" "\<not> is_value_error (Raise k m)"
  have "\<exists>u. saga_failed env key (ii_id r) ty r (Raise k m, c) (t\<lparr>sy_inbox := X\<rparr>) =
      (Inl (inbox_failure ''inbox.resolve_failed'' INTERNAL ''resolve'' (Some (Raise k m)) (trace_id key) [] False) :: exn + inbox_item, u) \<and>
      sy_tasks u = sy_tasks t \<and> sy_waiting u = sy_waiting t \<and> sy_other u = sy_other t \<and> sy_inbox u = X" for X
    using told_quietly [OF calm_env(2), of "''inbox.resolve_failed''" r "t\<lparr>sy_inbox := X\<rparr>"] k
    by (auto simp: saga_failed_def Let_def bindS_run failS_def inbox_classes_def)
  then show "(\<And>X. f r c (s\<lparr>sy_inbox := X\<rparr>) = (Inl (Raise k m), t\<lparr>sy_inbox := X\<rparr>)) \<Longrightarrow>
      \<exists>t'. ib_resolve env key (ii_id r) ty tkey reserved (Some f) b s =
        (Inl (inbox_failure ''inbox.resolve_failed'' INTERNAL ''resolve'' (Some (Raise k m)) (trace_id key) [] False), t') \<and>
      sy_tasks t' = sy_tasks t \<and> sy_waiting t' = sy_waiting t \<and> sy_other t' = sy_other t \<and> claimed_for ty key r c (sy_inbox t')"
    by (intro ib_resolve_stopped [OF ok calm_env(1) row free c])
qed

end
