(* ===== verification/Inbox_Properties.thy ===== *)
theory Inbox_Properties
  imports Inbox_Runs UserTask_Properties
begin

text \<open>
  What the inbox promises: one resolution per item, whoever calls in whatever order and wherever a
  process stops; items stay in their workspace; and a second, different resolution is refused.
\<close>

section \<open>Requests to the service\<close>

datatype ib_request =
    Ib_Capture inbox_env workspace_key string string "dict option" inbox_suggested
  | Ib_Get inbox_env workspace_key string
  | Ib_List inbox_env workspace_key string int int
  | Ib_To_Task inbox_env workspace_key string string string "datetime option" ut_priority
  | Ib_To_Reminder inbox_env workspace_key string string datetime string ut_priority "string option"
  | Ib_To_Work_Log inbox_env workspace_key string string string
  | Ib_To_Waiting_For inbox_env workspace_key string waiting_args
  | Ib_As_Note inbox_env workspace_key string
  | Ib_Dismiss inbox_env workspace_key string
  | Ib_Initialize "exn option"
  | Ib_Close

fun ib_run ::
  "(instant \<Rightarrow> string) \<Rightarrow> (string \<Rightarrow> bool) \<Rightarrow> (string \<Rightarrow> string) \<Rightarrow> (string \<Rightarrow> string) \<Rightarrow> 'x inbox_config \<Rightarrow>
   ib_request \<Rightarrow> 'x inbox_system \<Rightarrow> 'x inbox_system" where
  "ib_run enc zone_ok san sha cfg (Ib_Capture env key content source meta sugg) s =
     snd (ib_capture env key content source meta sugg s)"
| "ib_run enc zone_ok san sha cfg (Ib_Get env key i) s = snd (ib_get env key i s)"
| "ib_run enc zone_ok san sha cfg (Ib_List env key status limit offset) s = snd (ib_list enc env key status limit offset s)"
| "ib_run enc zone_ok san sha cfg (Ib_To_Task env key i title description due priority) s =
     snd (resolve_to_task zone_ok san sha cfg env key i title description due priority s)"
| "ib_run enc zone_ok san sha cfg (Ib_To_Reminder env key i title at description priority zone) s =
     snd (resolve_to_reminder cfg env key i title at description priority zone s)"
| "ib_run enc zone_ok san sha cfg (Ib_To_Work_Log env key i title description) s =
     snd (resolve_to_work_log sha cfg env key i title description s)"
| "ib_run enc zone_ok san sha cfg (Ib_To_Waiting_For env key i a) s =
     snd (resolve_to_waiting_for zone_ok sha cfg env key i a s)"
| "ib_run enc zone_ok san sha cfg (Ib_As_Note env key i) s = snd (resolve_as_note env key i s)"
| "ib_run enc zone_ok san sha cfg (Ib_Dismiss env key i) s = snd (ib_dismiss env key i s)"
| "ib_run enc zone_ok san sha cfg (Ib_Initialize io) s = snd (ib_initialize io s)"
| "ib_run enc zone_ok san sha cfg Ib_Close s = ib_close s"

fun ib_acts_for :: "ib_request \<Rightarrow> identity option" where
  "ib_acts_for (Ib_Capture env key content source meta sugg) = Some (key_identity key)"
| "ib_acts_for (Ib_To_Task env key i title description due priority) = Some (key_identity key)"
| "ib_acts_for (Ib_To_Reminder env key i title at description priority zone) = Some (key_identity key)"
| "ib_acts_for (Ib_To_Work_Log env key i title description) = Some (key_identity key)"
| "ib_acts_for (Ib_To_Waiting_For env key i a) = Some (key_identity key)"
| "ib_acts_for (Ib_As_Note env key i) = Some (key_identity key)"
| "ib_acts_for (Ib_Dismiss env key i) = Some (key_identity key)"
| "ib_acts_for _ = None"

lemma calls_resolutions:
  "calls enc (key_identity key) (resolve_to_task zone_ok san sha cfg env key i title description due priority)"
  "calls enc (key_identity key) (resolve_to_reminder cfg env key i title at description priority zone)"
  "calls enc (key_identity key) (resolve_to_work_log sha cfg env key i title description)"
  "calls enc (key_identity key) (resolve_as_note env key i)" "calls enc (key_identity key) (ib_dismiss env key i)"
  unfolding resolve_to_task_def resolve_to_reminder_def resolve_to_work_log_def resolve_as_note_def ib_dismiss_def Let_def
  by (rule calls_resolve; force simp: calls_makers)+

lemma calls_waiting_for [frame_rules]:
  "calls enc (key_identity key) (resolve_to_waiting_for zone_ok sha cfg env key i a)"
  unfolding resolve_to_waiting_for_def Let_def
  by (intro frame_rules calls_resolve) (auto simp: calls_makers)

text \<open>Each request is a sequence of repository calls that write for its workspace only.\<close>

lemma ib_run_calls:
  "\<exists>qs. (\<forall>q \<in> set qs. request_identity q = None \<or> request_identity q = ib_acts_for rq) \<and>
     sy_inbox (ib_run enc zone_ok san sha cfg rq s) = fold (inbox_run enc) qs (sy_inbox s)"
proof -
  have "\<exists>qs. (\<forall>q \<in> set qs. request_identity q = None \<or> request_identity q = Some ident) \<and>
      sy_inbox (snd (m s)) = fold (inbox_run enc) qs (sy_inbox s)" if "calls enc ident m" for ident and m :: "('a, 'r) inbox_op"
    using that unfolding calls_def by auto
  note writes = this [OF calls_operations(1)] this [OF calls_resolutions(1)] this [OF calls_resolutions(2)]
    this [OF calls_resolutions(3)] this [OF calls_resolutions(4)] this [OF calls_resolutions(5)] this [OF calls_waiting_for]
  have close: "sy_inbox (ib_close s) = fold (inbox_run enc) [Close_Inbox] (sy_inbox s)"
    by (simp add: ib_close_def)
  show ?thesis
  proof (cases rq)
    case (Ib_Get env key i)
    have "snd (ib_get env key i s) = s\<lparr>sy_inbox := inbox_run enc (Get_Item (ie_get_io env) key i) (sy_inbox s)\<rparr>"
      by (simp add: ib_get_def catchS_def on_inbox_def failS_def split: prod.split sum.split)
    then show ?thesis using Ib_Get by (intro exI [of _ "[Get_Item (ie_get_io env) key i]"]) simp
  next
    case (Ib_List env key status limit offset)
    show ?thesis
      using Ib_List
      by (intro exI [of _ "if (status \<noteq> ''all'' \<and> parse_inbox_status status = None) \<or> limit < 1 \<or> limit > 200 \<or> offset < 0
          then [] else [List_Items (ie_io env) key (if status = ''all'' then None else parse_inbox_status status)
            (nat limit) (nat offset)]"])
        (auto simp: ib_list_def catchS_def on_inbox_def failS_def split: prod.split sum.split)
  next
    case (Ib_Initialize io)
    then show ?thesis
      by (intro exI [of _ "[Initialize_Inbox io]"])
        (simp add: ib_initialize_def catchS_def on_inbox_def failS_def split: prod.split sum.split)
  next
    case Ib_Close
    with close show ?thesis by (intro exI [of _ "[Close_Inbox]"]) simp
  qed (use writes in simp_all)
qed

lemma inbox_runs_foreign:
  assumes "inbox_ok (tabs_of s)" "\<forall>q \<in> set qs. request_identity q \<noteq> Some other"
  shows "filter (\<lambda>r. ii_workspace r = other) (ib_items (fold (inbox_run enc) qs s)) = filter (\<lambda>r. ii_workspace r = other) (ib_items s) \<and>
    filter (\<lambda>c. ic_workspace c = other) (ib_claims (fold (inbox_run enc) qs s)) = filter (\<lambda>c. ic_workspace c = other) (ib_claims s)"
  using assms
proof (induction qs arbitrary: s)
  case (Cons q qs)
  with inbox_run_foreign [OF Cons.prems(1), of q other enc] Cons.IH [OF inbox_run_ok [OF Cons.prems(1), of enc q]]
  show ?case by simp
qed simp

lemma ib_run_ok: "inbox_ok (tabs_of (sy_inbox s)) \<Longrightarrow> inbox_ok (tabs_of (sy_inbox (ib_run enc zone_ok san sha cfg q s)))"
  using ib_run_calls [of q enc zone_ok san sha cfg s] ibs.run_good by metis

interpretation ib_service: step_system "ib_run enc zone_ok san sha cfg" "\<lambda>s. inbox_ok (tabs_of (sy_inbox s))"
  for enc zone_ok san sha and cfg :: "'x inbox_config"
  by unfold_locales (rule ib_run_ok)

section \<open>Samples\<close>

definition sample_item :: inbox_item where
  "sample_item = captured_values ''1'' acme ''call Ann'' ''cli'' SUGGEST_TASK [] 5000000"

definition sample_inbox :: inbox_store where
  "sample_inbox = \<lparr>ib_items = [sample_item], ib_claims = [], ib_initialized = True, ib_last_error = None\<rparr>"

definition sample_system :: "unit inbox_system" where
  "sample_system = \<lparr>sy_inbox = sample_inbox, sy_tasks = initial_tasks, sy_waiting = initial_service, sy_other = (),
     sy_published = []\<rparr>"

definition quiet_waiting :: wf_env where
  "quiet_waiting = \<lparr>env_now = 6000000, env_later = 6000000, env_read_io = None, env_write_io = None,
     env_bus = Bus_Off, env_item_uuid = ''1'', env_event_uuid = ''2'', env_read_trace = []\<rparr>"

definition inbox_sample_env :: inbox_env where
  "inbox_sample_env = \<lparr>ie_now = 6000000, ie_target_now = 6000000, ie_record_now = 6000000, ie_complete_now = 6000000,
     ie_io = None, ie_get_io = None, ie_read_io = None, ie_record_io = None, ie_complete_io = None, ie_reread_io = None,
     ie_bus = Bus_Off, ie_bus_failed = Bus_Off, ie_uuid = ''2'', ie_task = calm, ie_task_get = calm,
     ie_waiting = quiet_waiting\<rparr>"

definition inbox_sample_config :: "unit inbox_config" where
  "inbox_sample_config = \<lparr>if_tasks = True, if_waiting = True, if_reminders = None, if_work_logs = None, if_timezone = ''UTC''\<rparr>"

lemma sample_times [simp]: "if_timezone inbox_sample_config = ''UTC''" "if_tasks inbox_sample_config" "if_waiting inbox_sample_config"
  "ie_target_now inbox_sample_env = 6000000"
  by (simp_all add: inbox_sample_config_def inbox_sample_env_def)

lemma sample_item_valid: "valid_item sample_item"
  by code_simp

lemma sample_item_fields [simp]: "ii_id sample_item = ''inbox_1''" "ii_workspace sample_item = key_identity acme"
  "ii_status sample_item = INBOX_PENDING" "ii_created_at sample_item = 5000000" "ii_revision sample_item = 1"
  by (simp_all add: sample_item_def captured_values_def)

lemma sample_inbox_ok: "inbox_ok (tabs_of sample_inbox)"
  using sample_item_valid by (simp add: sample_inbox_def inbox_ok_def keyed_def progress_of_def)

section \<open>One resolution\<close>

text \<open>C23: the saga.  Over any calls that the service makes of the repository (capturing, reading and
  listing items, claiming, recording the target, completing, and the repository's opening, health
  check and closing, but not its direct \<open>update\<close>, \<open>resolve\<close> and \<open>dismiss\<close>, which the service never
  calls), by any processes, failing or stopped anywhere, the resolution of an item only moves along unclaimed, claimed, target recorded, finished; the type
  and key it was claimed with and the target once recorded never change; an item that is closed never
  changes again; and the item always says what its claim says.\<close>

theorem ib_one_resolution:
  fixes s :: inbox_store and qs :: "inbox_request list" and enc :: "instant \<Rightarrow> string"
  assumes "inbox_ok (tabs_of s)"
  defines "s' \<equiv> fold (inbox_run enc) qs s"
  shows "saga_step\<^sup>*\<^sup>* (progress_of (ib_claims s) i) (progress_of (ib_claims s') i) \<and>
    (\<forall>x. progress_type (progress_of (ib_claims s) i) = Some x \<longrightarrow> progress_type (progress_of (ib_claims s') i) = Some x) \<and>
    (\<forall>t. progress_target (progress_of (ib_claims s) i) = Some t \<longrightarrow>
       progress_target (progress_of (ib_claims s') i) = Some t) \<and>
    (\<forall>r. row_of ii_id i (ib_items s) = Some r \<and> ii_status r \<noteq> INBOX_PENDING \<longrightarrow> row_of ii_id i (ib_items s') = Some r) \<and>
    (\<forall>r. row_of ii_id i (ib_items s') = Some r \<longrightarrow> item_agrees r (progress_of (ib_claims s') i))"
proof -
  have steps: "saga_step\<^sup>*\<^sup>* (progress_of (ib_claims s) i) (progress_of (ib_claims s') i)"
    unfolding s'_def by (rule inbox_runs_progress [OF assms(1)])
  have ok: "inbox_ok (tabs_of s')" unfolding s'_def by (rule ibs.run_good [OF assms(1)])
  have "item_agrees r (progress_of (ib_claims s') i)" if "row_of ii_id i (ib_items s') = Some r" for r
    using inbox_okD(4) [OF ok, of r] row_of_Some [OF that] by simp
  moreover have "row_of ii_id i (ib_items s') = Some r"
    if "row_of ii_id i (ib_items s) = Some r \<and> ii_status r \<noteq> INBOX_PENDING" for r
    unfolding s'_def using that inbox_runs_closed_row [OF assms(1)] by blast
  ultimately show ?thesis
    using steps saga_steps_type [OF steps] saga_steps_target [OF steps] by blast
qed

theorem ib_one_resolution_witness:
  "saga_step\<^sup>*\<^sup>* Unclaimed (progress_of (ib_claims (fold (inbox_run isoformat)
     [Claim_Item None acme ''inbox_1'' TO_NOTE None None 6000000, Claim_Item None acme ''inbox_1'' TO_DISMISSED None None 6000001,
      Complete_Item None acme ''inbox_1'' TO_DISMISSED 6000002] sample_inbox)) ''inbox_1'')"
proof -
  have "progress_of (ib_claims sample_inbox) ''inbox_1'' = Unclaimed"
    by (simp add: sample_inbox_def progress_of_def)
  with ib_one_resolution [OF sample_inbox_ok, of "''inbox_1''"] show ?thesis by metis
qed

text \<open>Why the direct writes are left out: one of them closes an item that has no claim.\<close>

lemma direct_write_skips_the_claim:
  "\<exists>x s'. inbox_update None (closed_item TO_NOTE None 6000000 sample_item) 1 sample_inbox = (Inr x, s') \<and>
     row_of ii_id ''inbox_1'' (ib_items s') = Some x \<and> ii_status x = INBOX_RESOLVED \<and>
     progress_of (ib_claims s') ''inbox_1'' = Unclaimed"
  by (simp add: inbox_update_def Let_def sample_inbox_def sql_int_def rowcount_def update_where_def inbox_done_def
      progress_of_def final_status_def)

section \<open>Isolation\<close>

text \<open>C24: whatever requests the service gets, a workspace that none of them acts for keeps all its items
  and claims, and a read returns items of the caller's workspace only.\<close>

theorem ib_isolation:
  assumes "inbox_ok (tabs_of (sy_inbox s))" and "\<forall>rq \<in> set rqs. ib_acts_for rq \<noteq> Some other"
  shows "(let s' = fold (ib_run enc zone_ok san sha cfg) rqs s in
    filter (\<lambda>r. ii_workspace r = other) (ib_items (sy_inbox s')) = filter (\<lambda>r. ii_workspace r = other) (ib_items (sy_inbox s)) \<and>
    filter (\<lambda>c. ic_workspace c = other) (ib_claims (sy_inbox s')) = filter (\<lambda>c. ic_workspace c = other) (ib_claims (sy_inbox s)) \<and>
    (\<forall>env key i r. fst (ib_get env key i s') = Inr r \<longrightarrow> ii_id r = i \<and> ii_workspace r = key_identity key))"
proof -
  define s' where "s' = fold (ib_run enc zone_ok san sha cfg) rqs s"
  have frame: "filter (\<lambda>r. ii_workspace r = other) (ib_items (sy_inbox s')) = filter (\<lambda>r. ii_workspace r = other) (ib_items (sy_inbox s)) \<and>
    filter (\<lambda>c. ic_workspace c = other) (ib_claims (sy_inbox s')) = filter (\<lambda>c. ic_workspace c = other) (ib_claims (sy_inbox s))"
    unfolding s'_def using assms
  proof (induction rqs arbitrary: s)
    case (Cons rq rqs)
    from ib_run_calls [of rq enc zone_ok san sha cfg s] obtain qs where
      qs: "\<forall>q \<in> set qs. request_identity q = None \<or> request_identity q = ib_acts_for rq"
        "sy_inbox (ib_run enc zone_ok san sha cfg rq s) = fold (inbox_run enc) qs (sy_inbox s)" by blast
    with Cons.prems(2) have "\<forall>q \<in> set qs. request_identity q \<noteq> Some other" by fastforce
    from inbox_runs_foreign [OF Cons.prems(1) this, of enc] qs(2)
      Cons.IH [OF ib_run_ok [OF Cons.prems(1), of enc zone_ok san sha cfg rq]] Cons.prems(2)
    show ?case by simp
  qed simp
  have ok: "inbox_ok (tabs_of (sy_inbox s'))"
    unfolding s'_def by (rule ib_service.run_good [OF assms(1)])
  have "ii_id r = i \<and> ii_workspace r = key_identity key" if "fst (ib_get env key i s') = Inr r" for env key i r
    using that inbox_okD(1,3) [OF ok] row_of_Some [of ii_id i "ib_items (sy_inbox s')"]
    by (auto simp: ib_get_def catchS_def on_inbox_def failS_def inbox_get_def inbox_error_def bindR_def scoped_item_Inr validate_item_Inr
        split: prod.splits sum.splits option.splits)
  with frame show ?thesis unfolding s'_def Let_def by blast
qed

theorem ib_isolation_witness:
  "filter (\<lambda>r. ii_workspace r = key_identity acme) (ib_items (sy_inbox (fold (ib_run isoformat utc_zone id id inbox_sample_config)
     [Ib_Dismiss inbox_sample_env (acme\<lparr>tenant_id := ''rival''\<rparr>) ''inbox_1'', Ib_Get inbox_sample_env acme ''inbox_1''] sample_system))) =
   [sample_item]"
proof -
  have "\<forall>rq \<in> set [Ib_Dismiss inbox_sample_env (acme\<lparr>tenant_id := ''rival''\<rparr>) ''inbox_1'', Ib_Get inbox_sample_env acme ''inbox_1''].
      ib_acts_for rq \<noteq> Some (key_identity acme)"
    by code_simp
  from ib_isolation [OF _ this, of sample_system isoformat utc_zone id id inbox_sample_config] show ?thesis
    using sample_inbox_ok by (simp add: sample_system_def Let_def) (simp add: sample_inbox_def)
qed

section \<open>A second, different resolution\<close>

definition ib_refused :: "inbox_claim \<Rightarrow> workspace_key \<Rightarrow> ('x, inbox_item) inbox_op \<Rightarrow> 'x inbox_system \<Rightarrow> bool" where
  "ib_refused c key m s =
    (\<exists>s'. m s = (Inl (claim_conflict c key None), s') \<and> sy_tasks s' = sy_tasks s \<and> sy_waiting s' = sy_waiting s \<and>
       sy_other s' = sy_other s \<and> tabs_of (sy_inbox s') = tabs_of (sy_inbox s))"

lemma ib_resolve_refused:
  assumes ok: "inbox_ok (tabs_of (sy_inbox s))" and io: "ie_io env = None" "ie_get_io env = None"
    and row: "row_of ii_id i (ib_items (sy_inbox s)) = Some r" "ii_workspace r = key_identity key"
    and claim: "row_of ic_item i (ib_claims (sy_inbox s)) = Some c" "ic_workspace c = key_identity key" "claim_ok c"
    and "ic_type c \<noteq> ty \<or> ic_state c = CLAIM_COMPLETED \<and> \<not> b"
  shows "ib_refused c key (ib_resolve env key i ty tkey reserved create b) s"
proof -
  let ?st = "(sy_inbox s)\<lparr>ib_last_error := None\<rparr>"
  have "claim_resolution None key i ty tkey reserved (ie_now env) (sy_inbox s) = (Inr c, ?st)"
    by (rule claim_resolution_total(1) [OF ok row claim(1,3,2)])
  moreover have "inbox_get None key i ?st = (Inr r, ?st)"
    using inbox_get_total [of ?st i r key] ok row by simp
  ultimately show ?thesis
    using io assms(9) by (auto simp: ib_refused_def ib_resolve_def bindS_run catchS_def on_inbox_def failS_def ib_get_def)
qed

text \<open>C26: an item that is claimed for one kind of target, or closed as a note or dismissed, is refused by
  every other resolution with the claim in the error, and no target is created.\<close>

theorem ib_other_resolution_refused:
  assumes ok: "inbox_ok (tabs_of (sy_inbox s))" and io: "ie_io env = None" "ie_get_io env = None"
    and row: "row_of ii_id i (ib_items (sy_inbox s)) = Some r" "ii_workspace r = key_identity key"
    and claim: "row_of ic_item i (ib_claims (sy_inbox s)) = Some c" "ic_workspace c = key_identity key" "claim_ok c"
    and waiting: "missing_fields a = []" "zone_ok (given_id (wa_timezone a) (if_timezone cfg))" "if_waiting cfg"
  shows "(ic_type c \<noteq> TO_USER_TASK \<longrightarrow> ib_refused c key (resolve_to_task zone_ok san sha cfg env key i title description due priority) s) \<and>
    (ic_type c \<noteq> TO_REMINDER \<longrightarrow> ib_refused c key (resolve_to_reminder cfg env key i title at description priority zone) s) \<and>
    (ic_type c \<noteq> TO_WORK_LOG \<longrightarrow> ib_refused c key (resolve_to_work_log sha cfg env key i title description) s) \<and>
    (ic_type c \<noteq> TO_WAITING_FOR \<longrightarrow> ib_refused c key (resolve_to_waiting_for zone_ok sha cfg env key i a) s) \<and>
    (ic_type c \<noteq> TO_NOTE \<or> ic_state c = CLAIM_COMPLETED \<longrightarrow> ib_refused c key (resolve_as_note env key i) s) \<and>
    (ic_type c \<noteq> TO_DISMISSED \<or> ic_state c = CLAIM_COMPLETED \<longrightarrow> ib_refused c key (ib_dismiss env key i) s)"
  using ib_resolve_refused [OF ok io row claim] waiting
  by (simp add: resolve_to_task_def resolve_to_reminder_def resolve_to_work_log_def resolve_to_waiting_for_def
      resolve_as_note_def ib_dismiss_def Let_def)

definition noted_claim :: inbox_claim where
  "noted_claim = new_claim (key_identity acme) ''inbox_1'' TO_NOTE None None 6000000"

definition noted_system :: "unit inbox_system" where
  "noted_system = sample_system\<lparr>sy_inbox := sample_inbox\<lparr>ib_claims := [noted_claim]\<rparr>\<rparr>"

theorem ib_other_resolution_refused_witness:
  "ib_refused noted_claim acme (ib_dismiss inbox_sample_env acme ''inbox_1'') noted_system"
proof -
  have claim: "claim_ok noted_claim" "ic_item noted_claim = ''inbox_1''" "ic_workspace noted_claim = key_identity acme"
    "ic_type noted_claim = TO_NOTE" "ic_state noted_claim = CLAIM_CLAIMED"
    by code_simp+
  have state: "ib_items (sy_inbox noted_system) = [sample_item]" "ib_claims (sy_inbox noted_system) = [noted_claim]"
    by (simp_all add: noted_system_def sample_inbox_def)
  have ok: "inbox_ok (tabs_of (sy_inbox noted_system))"
    using sample_item_valid claim by (simp add: state inbox_ok_def keyed_def progress_of_def claim_progress_def)
  let ?a = "\<lparr>wa_subject = ''s'', wa_waiting_on = ''w'', wa_context = [], wa_expected_by = Some (Aware 1 0),
    wa_next_review_at = None, wa_timezone = None\<rparr>"
  have "missing_fields ?a = []" by code_simp
  with ib_other_resolution_refused [OF ok, of inbox_sample_env "''inbox_1''" sample_item acme noted_claim ?a "\<lambda>z. True" inbox_sample_config]
    claim state show ?thesis by (simp add: inbox_sample_env_def)
qed

end
