(* ===== verification/Inbox_Conversion.thy ===== *)
theory Inbox_Conversion
  imports Inbox_Properties
begin

text \<open>
  The conversion of an item to a task over any number of attempts.  Each attempt has surroundings of
  its own: SQLite and the buses may fail in it at any call, so it may stop anywhere.  An invariant
  links the claim, the item and the table of tasks; every attempt keeps it, and from it an attempt
  without failures runs to the end, unless an earlier one already did.
\<close>

section \<open>The invariant\<close>

text \<open>The task that a request makes names the item and belongs to the workspace.\<close>

lemma created_task_names_item:
  assumes "created_task zone_ok env (task_request key title description due priority zone now (inbox_evidence r) tid) t"
  shows "valid_task zone_ok t" "owned_by key (task_row t)" "map_of (ut_metadata t) ''inbox_item_id'' = Some (JStr (ii_id r))"
    "ut_legacy_source_id t = None" "tid \<noteq> [] \<Longrightarrow> ut_id t = tid"
proof -
  let ?q = "task_request key title description due priority zone now (inbox_evidence r) tid"
  from assms obtain d where d: "validate_task zone_ok (new_values env ?q d) = Inr t" by (auto simp: created_task_def)
  then show "valid_task zone_ok t" by (rule validated_task_valid)
  have meta: "ut_metadata t = workspace_metadata (normalize_workspace_key key) (inbox_evidence r)"
    and "ut_legacy_source_id t = None"
    using d by (auto simp: validate_task_Inr task_of_values_def new_values_def task_request_def)
  then show "ut_legacy_source_id t = None" "map_of (ut_metadata t) ''inbox_item_id'' = Some (JStr (ii_id r))"
    by (simp_all add: workspace_metadata_def inbox_evidence_def)
  show "owned_by key (task_row t)" using owned_workspace_metadata [OF meta] by simp
  show "ut_id t = tid" if "tid \<noteq> []" by (rule created_id [OF assms]) (simp_all add: task_request_def that)
qed

text \<open>A task that was made of the item, for its workspace, under the reserved identifier.\<close>

definition task_of_item :: "workspace_key \<Rightarrow> string \<Rightarrow> string \<Rightarrow> user_task \<Rightarrow> bool" where
  "task_of_item key tid i t =
    (ut_id t = tid \<and> owned_by key (task_row t) \<and> map_of (ut_metadata t) ''inbox_item_id'' = Some (JStr i))"

definition one_task_more :: "workspace_key \<Rightarrow> string \<Rightarrow> string \<Rightarrow> ut_row list \<Rightarrow> ut_row list \<Rightarrow> bool" where
  "one_task_more key tid i base rows = (\<exists>t. task_of_item key tid i t \<and> rows = base @ [task_row t])"

definition claim_fits :: "workspace_key \<Rightarrow> string \<Rightarrow> instant \<Rightarrow> inbox_claim \<Rightarrow> bool" where
  "claim_fits key tid now c =
    (ic_workspace c = key_identity key \<and> claim_ok c \<and> ic_type c = TO_USER_TASK \<and> ic_key c = Some tid \<and>
     ic_created_at c \<le> now \<and> ic_revision c = (case ic_state c of CLAIM_CLAIMED \<Rightarrow> 1 | CLAIM_TARGET_CREATED \<Rightarrow> 2 | CLAIM_COMPLETED \<Rightarrow> 3) \<and>
     (ic_state c \<noteq> CLAIM_CLAIMED \<longrightarrow> ic_target c = Some tid))"

definition inbox_converting ::
  "workspace_key \<Rightarrow> inbox_item \<Rightarrow> string \<Rightarrow> instant \<Rightarrow> bool \<Rightarrow> inbox_store \<Rightarrow> bool" where
  "inbox_converting key r tid now stored st =
    (inbox_ok (tabs_of st) \<and>
     (\<exists>x. row_of ii_id (ii_id r) (ib_items st) = Some x \<and> ii_workspace x = key_identity key \<and>
        (ii_status x = INBOX_PENDING \<longrightarrow> x = r)) \<and>
     (\<forall>c. row_of ic_item (ii_id r) (ib_claims st) = Some c \<longrightarrow>
        claim_fits key tid now c \<and> (ic_state c \<noteq> CLAIM_CLAIMED \<longrightarrow> stored)))"

definition tasks_converting ::
  "(string \<Rightarrow> bool) \<Rightarrow> workspace_key \<Rightarrow> string \<Rightarrow> string \<Rightarrow> ut_row list \<Rightarrow> bool \<Rightarrow> ut_row list \<Rightarrow> bool" where
  "tasks_converting zone_ok key tid i base stored rows =
    (tasks_ok zone_ok rows \<and> row_of ur_id tid base = None \<and>
     (if stored then one_task_more key tid i base rows else rows = base))"

text \<open>\<open>stored\<close> says whether the task is in the table.\<close>

definition converting ::
  "(string \<Rightarrow> bool) \<Rightarrow> workspace_key \<Rightarrow> inbox_item \<Rightarrow> string \<Rightarrow> ut_row list \<Rightarrow> instant \<Rightarrow> bool \<Rightarrow> 'x inbox_system \<Rightarrow> bool" where
  "converting zone_ok key r tid base now stored s =
    (inbox_converting key r tid now stored (sy_inbox s) \<and>
     tasks_converting zone_ok key tid (ii_id r) base stored (us_table (sy_tasks s)))"

abbreviation converts ::
  "(string \<Rightarrow> bool) \<Rightarrow> workspace_key \<Rightarrow> inbox_item \<Rightarrow> string \<Rightarrow> ut_row list \<Rightarrow> instant \<Rightarrow> 'x inbox_system \<Rightarrow> bool" where
  "converts zone_ok key r tid base now s \<equiv> \<exists>stored. converting zone_ok key r tid base now stored s"

section \<open>Calls of the repository\<close>

text \<open>Only the tables count.\<close>

lemma converting_tabs:
  "tabs_of st' = tabs_of st \<Longrightarrow> inbox_converting key r tid now b st' = inbox_converting key r tid now b st"
  by (simp add: inbox_converting_def)

lemma claim_fits_later: "claim_fits key tid now c \<Longrightarrow> now \<le> now' \<Longrightarrow> claim_fits key tid now' c"
  by (simp add: claim_fits_def)

lemma converting_later: "inbox_converting key r tid now b st \<Longrightarrow> now \<le> now' \<Longrightarrow> inbox_converting key r tid now' b st"
  unfolding inbox_converting_def using claim_fits_later by blast

lemma converting_stored: "inbox_converting key r tid now b st \<Longrightarrow> inbox_converting key r tid now True st"
  by (auto simp: inbox_converting_def)

lemma inbox_convertingD:
  assumes "inbox_converting key r tid now b st"
  shows "inbox_ok (tabs_of st)"
    and "\<exists>x. row_of ii_id (ii_id r) (ib_items st) = Some x \<and> ii_workspace x = key_identity key \<and> (ii_status x = INBOX_PENDING \<longrightarrow> x = r)"
    and "row_of ic_item (ii_id r) (ib_claims st) = Some c \<Longrightarrow> claim_fits key tid now c"
    and "row_of ic_item (ii_id r) (ib_claims st) = Some c \<Longrightarrow> ic_state c \<noteq> CLAIM_CLAIMED \<Longrightarrow> b"
  using assms by (simp_all add: inbox_converting_def)

lemma claim_resolution_cases:
  assumes ok: "inbox_ok (tabs_of s)" and run: "claim_resolution io key i ty tkey target now s = (res, s')"
  obtains (found) "tabs_of s' = tabs_of s" "\<And>c. res = Inr c \<Longrightarrow> row_of ic_item i (ib_claims s) = Some c"
    | (added) c where "c = new_claim (key_identity key) i ty tkey target now" "claim_ok c" "res = Inr c"
        "row_of ic_item i (ib_claims s) = None" "ib_items s' = ib_items s" "ib_claims s' = ib_claims s @ [c]"
proof (cases "io = None \<and> (\<exists>x y. scoped_item_row (ib_items s) (key_identity key) i = Inr x \<and> validate_item x = Inr y)")
  case False
  then have "tabs_of s' = tabs_of s" "\<forall>c. res \<noteq> Inr c"
    using run by (auto simp: claim_resolution_def Let_def inbox_error_def split: option.splits sum.splits)
  then show ?thesis by (intro found) auto
next
  case True
  then obtain x y where xy: "io = None" "scoped_item_row (ib_items s) (key_identity key) i = Inr x" "validate_item x = Inr y"
    by blast
  show ?thesis
  proof (cases "row_of ic_item i (ib_claims s)")
    case (Some c)
    with run xy have "tabs_of s' = tabs_of s" "res = Inr d \<Longrightarrow> d = c" for d
      by (auto simp: claim_resolution_def Let_def inbox_error_def inbox_done_def split: sum.splits if_splits)
    with Some show ?thesis by (intro found) auto
  next
    case None
    let ?c = "new_claim (key_identity key) i ty tkey target now"
    consider "tabs_of s' = tabs_of s" "\<forall>c. res \<noteq> Inr c" | "claim_ok ?c" "res = Inr ?c"
      "ib_items s' = ib_items s" "ib_claims s' = ib_claims s @ [?c]"
      using run xy None
      by (auto simp: claim_resolution_def Let_def inbox_error_def inbox_done_def split: sum.splits if_splits)
    then show ?thesis using None by cases (rule found, simp_all add: added)
  qed
qed

lemma read_claim_found:
  assumes "inbox_ok (tabs_of s)" "read_claim io key i s = (Inr c, s')"
  shows "row_of ic_item i (ib_claims s) = Some c"
  using assms inbox_okD(2) [OF assms(1)]
  by (auto simp: read_claim_def inbox_error_def inbox_done_def scoped_claim_Inr validate_claim_def
      split: option.splits sum.splits if_splits)

lemma claim_keeps:
  assumes inv: "inbox_converting key r tid now b st"
    and run: "claim_resolution io key (ii_id r) TO_USER_TASK (Some tid) (Some tid) now st = (res, st')"
  shows "inbox_converting key r tid now b st' \<and> (\<forall>c. res = Inr c \<longrightarrow> row_of ic_item (ii_id r) (ib_claims st') = Some c)"
proof (rule claim_resolution_cases [OF inbox_convertingD(1) [OF inv] run], goal_cases found added)
  case found
  then show ?case using inv converting_tabs [of st' st] by auto
next
  case (added c)
  have "inbox_ok (tabs_of st')"
    using inbox_step_ok [OF claim_resolution_step [OF inbox_convertingD(1) [OF inv] run]] inbox_convertingD(1) [OF inv] by simp
  moreover have "claim_fits key tid now c" "ic_state c = CLAIM_CLAIMED" "ic_item c = ii_id r"
    using added(1,2) by (simp_all add: claim_fits_def new_claim_def)
  ultimately show ?case
    using inbox_convertingD(2) [OF inv] added by (simp add: inbox_converting_def)
qed

lemma record_keeps:
  assumes inv: "inbox_converting key r tid now True st" and time: "now \<le> later" and tid: "tid \<noteq> []" "py_len tid \<le> 160"
  shows "inbox_converting key r tid now True (snd (record_target io key (ii_id r) TO_USER_TASK tid later st))"
proof -
  obtain res st' where run: "record_target io key (ii_id r) TO_USER_TASK tid later st = (res, st')" by fastforce
  note ok = inbox_convertingD(1) [OF inv]
  have "inbox_converting key r tid now True st'"
  proof (rule record_target_cases [OF ok run], goal_cases quiet recording)
    case quiet
    then show ?case using inv converting_tabs [of st' st] by simp
  next
    case (recording c)
    let ?c = "recorded_claim tid later (ic_revision c) c"
    have "claim_fits key tid now c" by (rule inbox_convertingD(3) [OF inv recording(1)])
    then have "claim_fits key tid now ?c"
      using time tid recording(3) by (auto simp: claim_fits_def recorded_claim_def claim_ok_def opt_len_def given_text_def)
    moreover have "row_of ic_item (ii_id r) (ib_claims st') = Some ?c"
      using recording(1) row_of_Some [OF recording(1)] by (simp add: recording(7) row_of_replace)
    moreover have "inbox_ok (tabs_of st')" by (rule inbox_step_ok [OF record_target_step [OF ok run] ok])
    ultimately show ?case
      using inbox_convertingD(2) [OF inv] recording(6) by (simp add: inbox_converting_def)
  qed
  then show ?thesis by (simp add: run)
qed

lemma complete_keeps:
  assumes inv: "inbox_converting key r tid now b st" and time: "now \<le> later"
  shows "inbox_converting key r tid now b (snd (complete_resolution io key (ii_id r) TO_USER_TASK later st))"
proof -
  obtain res st' where run: "complete_resolution io key (ii_id r) TO_USER_TASK later st = (res, st')" by fastforce
  note ok = inbox_convertingD(1) [OF inv]
  have "inbox_converting key r tid now b st'"
  proof (cases "tabs_of st' = tabs_of st")
    case True
    then show ?thesis using inv converting_tabs by blast
  next
    case False
    then have "tabs_of st' \<noteq> tabs_of st \<or> res = Inr undefined" by simp
    then show ?thesis
    proof (rule complete_resolution_facts [OF ok run], goal_cases)
      case (1 item c item' c')
      note row = 1(1,2) and crow = 1(3,4)
      have fits: "claim_fits key tid now c" by (rule inbox_convertingD(3) [OF inv crow(1)])
      have state: "ic_state c \<noteq> CLAIM_CLAIMED" using 1(7) by (simp add: external_type_def)
      with inbox_convertingD(4) [OF inv crow(1)] have b by simp
      have valid: "valid_item item" using inbox_okD(3) [OF ok] row_of_Some [OF row(1)] by simp
      note items = complete_item_Written [OF 1(8) valid inbox_okD(1) [OF ok] row]
      note claims = complete_claim_Written [OF 1(9) inbox_okD(2) [OF ok] crow]
      have x: "row_of ii_id (ii_id r) (ib_items st') = Some item'" "ii_workspace item' = key_identity key"
        "ii_status item' \<noteq> INBOX_PENDING"
        using items row row_of_Some [OF row(1)] by (auto simp: row_of_replace split: if_splits)
      have c': "row_of ic_item (ii_id r) (ib_claims st') = Some c'" "claim_fits key tid now c'" "ic_state c' \<noteq> CLAIM_CLAIMED"
        using claims crow(1) row_of_Some [OF crow(1)] fits state time
        by (auto simp: row_of_replace claim_fits_def completed_claim_def claim_ok_def split: if_splits claim_state.splits)
      have "inbox_ok (tabs_of st')" by (rule inbox_step_ok [OF complete_resolution_step [OF ok run] ok])
      with x c' \<open>b\<close> show ?case by (simp add: inbox_converting_def)
    qed
  qed
  then show ?thesis by (simp add: run)
qed

section \<open>Calls of the task service\<close>

lemma ut_create_effect:
  assumes "ut_create zone_ok san env q s = (res, s')" "un_created_at q = Some d"
  shows "us_table s' = us_table s \<and> (\<forall>t. res \<noteq> Inr t) \<or>
    (\<exists>t. created_task zone_ok env q t \<and> us_table s' = us_table s @ [task_row t] \<and>
       row_of ur_id (ut_id t) (us_table s) = None \<and> (\<forall>u. res = Inr u \<longrightarrow> u = t))"
proof -
  let ?failing = "failing env san ''create'' (given_id (un_id q) ''validation'') (un_trace_id q) :: exn \<Rightarrow> user_task ut_call"
  have failing: "us_table u' = us_table u \<and> (\<forall>t. r \<noteq> Inr t)" if "?failing e u = (r, u')" for e u r u'
    using that by (cases "ue_bus_failed env") (auto simp: failing_def bindS_run ut_publish_def failS_def)
  show ?thesis
  proof (cases "validate_task zone_ok (new_values env q d)")
    case (Inl e)
    with assms have "?failing e s = (res, s')"
      by (simp add: ut_create_def catchS_def bindS_run liftS_def)
    from failing [OF this] show ?thesis by simp
  next
    case (Inr t)
    then have made: "created_task zone_ok env q t" using assms(2) by (simp add: created_task_def)
    obtain r st where run: "task_create (ue_write_io env) t (us_store s) = (r, st)" by fastforce
    then show ?thesis
    proof (cases rule: task_create_cases)
      case (failed e)
      with assms Inr run have "?failing e (s\<lparr>us_store := st\<rparr>) = (res, s')"
        by (simp add: ut_create_def catchS_def bindS_run liftS_def on_tasks_def)
      from failing [OF this] failed show ?thesis by simp
    next
      case stored
      have "us_table s' = us_table (s\<lparr>us_store := st\<rparr>) \<and> (\<forall>u. res = Inr u \<longrightarrow> u = t)"
        using assms Inr run stored
        by (cases "ue_bus env") (auto simp: ut_create_def catchS_def bindS_run liftS_def on_tasks_def retS_def ut_publish_def
            dest: failing)
      with stored made show ?thesis by auto
    qed
  qed
qed

lemma create_keeps:
  assumes inv: "tasks_converting zone_ok key tid (ii_id r) base b (us_table s)" and tid: "tid \<noteq> []"
    and run: "ut_create zone_ok san env (task_request key title description due priority zone now (inbox_evidence r) tid) s = (res, s')"
  shows "\<exists>b'. (b \<longrightarrow> b') \<and> (\<forall>t. res = Inr t \<longrightarrow> ut_id t = tid \<and> b') \<and> tasks_converting zone_ok key tid (ii_id r) base b' (us_table s')"
proof -
  let ?q = "task_request key title description due priority zone now (inbox_evidence r) tid"
  have "un_created_at ?q = Some (Aware now 0)" by (simp add: task_request_def)
  from ut_create_effect [OF run this] show ?thesis
  proof (elim disjE exE conjE, goal_cases kept added)
    case kept
    then show ?case using inv by (intro exI [of _ b]) simp
  next
    case (added t)
    note t = created_task_names_item [OF added(1)]
    have "\<not> b"
      using inv added(3) t(5) [OF tid] by (auto simp: tasks_converting_def one_task_more_def task_of_item_def)
    with inv have base: "us_table s = base" by (simp add: tasks_converting_def)
    moreover have "tasks_ok zone_ok (us_table s')"
      unfolding added(2) using inv t(1,4) added(3) by (intro tasks_ok_added) (simp_all add: tasks_converting_def legacy_taken_def)
    ultimately show ?case
      using inv added(2,4) t tid
      by (intro exI [of _ True]) (auto simp: tasks_converting_def one_task_more_def task_of_item_def)
  qed
qed

lemma get_finds:
  assumes inv: "tasks_converting zone_ok key tid i base b (us_table s)"
    and run: "ut_get zone_ok san env key tid tr s = (res, s')"
  shows "us_table s' = us_table s \<and> (\<forall>t. res = Inr t \<longrightarrow> ut_id t = tid \<and> b)"
proof -
  have "us_table s' = us_table s"
    using quietD [OF quiet_get, of zone_ok san env key tid tr s] by (simp add: run)
  moreover have "ut_id t = tid \<and> b" if res: "res = Inr t" for t
  proof -
    obtain st where get: "task_get zone_ok (ue_read_io env) (normalize_workspace_key key) tid (us_store s) = (Inr t, st)"
      using run failing_outcome [of env san "''get''" tid tr]
      by (auto simp: res ut_get_def catchS_Inr on_tasks_def split: prod.splits)
    from task_get_success [OF this] have "row_of ur_id tid (us_table s) \<noteq> None"
      by (auto simp: row_of_None)
    with inv have b by (auto simp: tasks_converting_def split: if_splits)
    moreover have "ut_id t = tid"
      using read_row_task [OF task_get_read [OF _ get]] inv by (simp add: tasks_converting_def)
    ultimately show ?thesis by simp
  qed
  ultimately show ?thesis by blast
qed

section \<open>An attempt keeps the invariant\<close>

lemma make_keeps:
  assumes inv: "converting zone_ok key r tid base now b s" and tid: "tid \<noteq> []" and claim: "claim_key claim = Some tid"
    and run: "make_task zone_ok san cfg env key title description due priority r claim s = (res, s')"
  shows "\<exists>b'. converting zone_ok key r tid base now b' s' \<and> (\<forall>x. res = Inr x \<longrightarrow> x = tid \<and> b')"
proof (cases "if_tasks cfg")
  case False
  with run have "s' = s" "\<forall>x. res \<noteq> Inr x" by (auto simp: make_task_def failS_def)
  with inv show ?thesis by blast
next
  case True
  let ?q = "task_request key title description due priority (if_timezone cfg) (ie_target_now env) (inbox_evidence r) tid"
  have ib: "inbox_converting key r tid now b (sy_inbox s)" and ut: "tasks_converting zone_ok key tid (ii_id r) base b (us_table (sy_tasks s))"
    using inv by (simp_all add: converting_def)
  have frame: "converting zone_ok key r tid base now b' (s\<lparr>sy_tasks := u\<rparr>)"
    if "b \<longrightarrow> b'" "tasks_converting zone_ok key tid (ii_id r) base b' (us_table u)" for b' u
    using that ib converting_stored [OF ib] by (cases b') (auto simp: converting_def)
  obtain c u where create: "ut_create zone_ok san (ie_task env) ?q (sy_tasks s) = (c, u)" by fastforce
  from create_keeps [OF ut tid create] obtain b1 where b1: "b \<longrightarrow> b1" "\<forall>t. c = Inr t \<longrightarrow> ut_id t = tid \<and> b1"
    "tasks_converting zone_ok key tid (ii_id r) base b1 (us_table u)" by blast
  show ?thesis
  proof (cases "\<exists>e. c = Inl e \<and> is_conflict e")
    case False
    then have "s' = s\<lparr>sy_tasks := u\<rparr>" "\<forall>x. res = Inr x \<longrightarrow> x = tid \<and> b1"
      using run True claim create b1(2)
      by (auto simp: make_task_def bindS_run catchS_def on_task_service_def failS_def retS_def split: sum.splits)
    with frame [OF b1(1,3)] show ?thesis by blast
  next
    case conflict: True
    obtain g v where get: "ut_get zone_ok san (ie_task_get env) key tid (trace_id key) u = (g, v)" by fastforce
    from get_finds [OF b1(3) get] have v: "us_table v = us_table u" "\<forall>t. g = Inr t \<longrightarrow> ut_id t = tid \<and> b1" by simp_all
    have "s' = s\<lparr>sy_tasks := v\<rparr>" "\<forall>x. res = Inr x \<longrightarrow> x = tid \<and> b1"
      using run True claim create conflict get v(2)
      by (auto simp: make_task_def bindS_run catchS_def on_task_service_def failS_def retS_def split: sum.splits if_splits)
    with frame [OF b1(1)] b1(3) v(1) show ?thesis by (metis (no_types))
  qed
qed

lemma keepsS_bindQ:
  assumes "keepsS P m" and q: "\<And>s x s'. P s \<Longrightarrow> m s = (Inr x, s') \<Longrightarrow> Q x" and f: "\<And>x. Q x \<Longrightarrow> keepsS P (f x)"
  shows "keepsS P (bindS m f)"
  unfolding keepsS_def
proof (intro allI impI)
  fix s
  assume P: "P s"
  obtain y s' where m: "m s = (y, s')" by fastforce
  with assms(1) P have P': "P s'" by (rule keepsSD)
  show "P (snd (bindS m f s))"
  proof (cases y)
    case (Inr x)
    with q [OF P, of x s'] m have "Q x" by simp
    from f [OF this] P' Inr show ?thesis by (simp add: bindS_run m keepsS_def)
  qed (use P' in \<open>simp add: bindS_run m\<close>)
qed

lemma conversion_keeps_still:
  assumes "\<And>s. tabs_of (sy_inbox (snd (m s))) = tabs_of (sy_inbox s) \<and> us_table (sy_tasks (snd (m s))) = us_table (sy_tasks s)"
  shows "keepsS (converts zone_ok key r tid base now) m"
  unfolding keepsS_def converting_def
  using assms converting_tabs by metis

lemma keeps_reads [frame_rules]:
  "keepsS (converts zone_ok key r tid base now) (on_inbox (read_claim io key' i))"
  "keepsS (converts zone_ok key r tid base now) (on_inbox (inbox_get io key' i))"
  "keepsS (converts zone_ok key r tid base now) (ib_publish b topic item)"
  by (rule conversion_keeps_still; simp add: on_inbox_def ib_publish_def case_prod_beta split: bus_mode.split)+

lemma keeps_exn [frame_rules]:
  "(\<And>c m. keepsS P (f c m)) \<Longrightarrow> (\<And>x. keepsS P (g x)) \<Longrightarrow> keepsS P (case e of Raise c m \<Rightarrow> f c m | Failed x \<Rightarrow> g x)"
  by (cases e) simp_all

lemma keeps_pair [frame_rules]: "(\<And>a b. keepsS P (f a b)) \<Longrightarrow> keepsS P (case p of (a, b) \<Rightarrow> f a b)"
  by (cases p) simp

lemma keeps_tag [frame_rules]: "keepsS P m \<Longrightarrow> keepsS P (tagS x m)"
  unfolding tagS_def by (intro wf_rules)

lemma keeps_get [frame_rules]: "keepsS (converts zone_ok key r tid base now) (ib_get env key' i)"
  unfolding ib_get_def by (intro wf_rules frame_rules)

lemma keeps_handlers [frame_rules]:
  "keepsS (converts zone_ok key r tid base now) (claim_failed env key' i e)"
  "keepsS (converts zone_ok key r tid base now) (saga_failed env key' i ty item ec)"
  unfolding claim_failed_def saga_failed_def Let_def by (intro wf_rules frame_rules)+

lemma keeps_claim:
  "keepsS (converts zone_ok key r tid base now) (on_inbox (claim_resolution io key (ii_id r) TO_USER_TASK (Some tid) (Some tid) now))"
  unfolding keepsS_def converting_def on_inbox_def
  using claim_keeps [OF _ surjective_pairing] by (fastforce simp: case_prod_beta)

lemma keeps_complete:
  "now \<le> later \<Longrightarrow> keepsS (converts zone_ok key r tid base now) (on_inbox (complete_resolution io key (ii_id r) TO_USER_TASK later))"
  unfolding keepsS_def converting_def on_inbox_def
  using complete_keeps by (fastforce simp: case_prod_beta)

text \<open>The claim as it is made or read, and the item as it is read.\<close>

lemma claim_failed_fails: "claim_failed env key i e s \<noteq> (Inr x, s')"
  by (cases e) (auto simp: claim_failed_def Let_def failS_def bindS_Inr)

lemma converting_claim:
  assumes "converting zone_ok key r tid base now b s" "row_of ic_item (ii_id r) (ib_claims (sy_inbox s)) = Some c" "tid \<noteq> []"
  shows "claim_key c = Some tid"
  using inbox_convertingD(3) [of key r tid now b "sy_inbox s" c] assms
  by (simp add: converting_def claim_fits_def claim_key_def)

lemma claimed_key:
  assumes "converts zone_ok key r tid base now s" "tid \<noteq> []"
    and "catchS (on_inbox (claim_resolution io key (ii_id r) TO_USER_TASK (Some tid) (Some tid) now)) (claim_failed env key (ii_id r)) s = (Inr c, s')"
  shows "claim_key c = Some tid"
proof -
  obtain b where inv: "converting zone_ok key r tid base now b s" using assms(1) by blast
  obtain st where run: "claim_resolution io key (ii_id r) TO_USER_TASK (Some tid) (Some tid) now (sy_inbox s) = (Inr c, st)"
    "s' = s\<lparr>sy_inbox := st\<rparr>"
    using assms(3) by (auto simp: catchS_Inr claim_failed_fails on_inbox_def split: prod.splits)
  have "inbox_converting key r tid now b (sy_inbox s)" using inv by (simp add: converting_def)
  from claim_keeps [OF this run(1)] inv have "converting zone_ok key r tid base now b s'"
    "row_of ic_item (ii_id r) (ib_claims (sy_inbox s')) = Some c"
    by (simp_all add: converting_def run(2))
  from converting_claim [OF this assms(2)] show ?thesis .
qed

lemma read_key:
  assumes "converts zone_ok key r tid base now s" "tid \<noteq> []" "on_inbox (read_claim io key (ii_id r)) s = (Inr c, s')"
  shows "claim_key c = Some tid"
proof -
  obtain b where inv: "converting zone_ok key r tid base now b s" using assms(1) by blast
  then have "inbox_ok (tabs_of (sy_inbox s))" by (simp add: converting_def inbox_converting_def)
  moreover obtain st where "read_claim io key (ii_id r) (sy_inbox s) = (Inr c, st)"
    using assms(3) by (auto simp: on_inbox_def split: prod.splits)
  ultimately have "row_of ic_item (ii_id r) (ib_claims (sy_inbox s)) = Some c" by (rule read_claim_found)
  from converting_claim [OF inv this assms(2)] show ?thesis .
qed

lemma inbox_get_row:
  assumes "inbox_ok (tabs_of s)" "inbox_get io key i s = (Inr x, s')"
  shows "row_of ii_id i (ib_items s) = Some x"
proof -
  obtain y where y: "scoped_item_row (ib_items s) (key_identity key) i = Inr y" "validate_item y = Inr x"
    using assms(2) by (auto simp: inbox_get_def inbox_error_def bindR_Inr_iff split: option.splits)
  then have "row_of ii_id i (ib_items s) = Some y" using inbox_okD(1) [OF assms(1)] by (simp add: scoped_item_Inr)
  with y(2) inbox_okD(3) [OF assms(1)] row_of_Some [OF this] show ?thesis by (simp add: validate_item_Inr)
qed

lemma got_item:
  assumes "converts zone_ok key r tid base now s" "ib_get env key (ii_id r) s = (Inr x, s')"
  shows "ii_status x = INBOX_PENDING \<longrightarrow> x = r"
proof -
  obtain b where inv: "inbox_converting key r tid now b (sy_inbox s)" using assms(1) by (auto simp: converting_def)
  note ok = inbox_convertingD(1) [OF inv]
  obtain st where "inbox_get (ie_get_io env) key (ii_id r) (sy_inbox s) = (Inr x, st)"
    using assms(2) by (auto simp: ib_get_def catchS_Inr on_inbox_def failS_def split: prod.splits)
  from inbox_get_row [OF ok this] have "row_of ii_id (ii_id r) (ib_items (sy_inbox s)) = Some x" .
  with inbox_convertingD(2) [OF inv] show ?thesis by auto
qed

lemma tagS_Inr [simp]: "tagS x m s = (Inr y, s') \<longleftrightarrow> m s = (Inr y, s')"
  by (auto simp: tagS_def catchS_Inr failS_def)

lemma keeps_make_and_record:
  fixes cfg :: "'x inbox_config"
  assumes time: "now \<le> later" and tid: "tid \<noteq> []" "py_len tid \<le> 160" and claim: "claim_key c = Some tid"
  shows "keepsS (converts zone_ok key r tid base now)
    (bindS (tagS c (make_task zone_ok san cfg env key title description due priority r c))
      (\<lambda>target. tagS c (on_inbox (record_target io key (ii_id r) TO_USER_TASK target later))))"
  unfolding keepsS_def
proof (intro allI impI, elim exE)
  fix s :: "'x inbox_system" and b
  assume inv: "converting zone_ok key r tid base now b s"
  obtain res s' where run: "make_task zone_ok san cfg env key title description due priority r c s = (res, s')" by fastforce
  from make_keeps [OF inv tid(1) claim run] obtain b' where
    b': "converting zone_ok key r tid base now b' s'" "\<forall>x. res = Inr x \<longrightarrow> x = tid \<and> b'" by blast
  show "converts zone_ok key r tid base now (snd (bindS (tagS c (make_task zone_ok san cfg env key title description due priority r c))
      (\<lambda>target. tagS c (on_inbox (record_target io key (ii_id r) TO_USER_TASK target later))) s))"
  proof (cases res)
    case (Inl e)
    with b' run show ?thesis by (auto simp: bindS_run tagS_def catchS_def failS_def)
  next
    case (Inr x)
    with b' have b: "x = tid" "converting zone_ok key r tid base now True s'" by auto
    obtain q st where rec: "record_target io key (ii_id r) TO_USER_TASK tid later (sy_inbox s') = (q, st)" by fastforce
    from b(2) record_keeps [OF _ time tid, of key r "sy_inbox s'" io] rec
    have "converting zone_ok key r tid base now True (s'\<lparr>sy_inbox := st\<rparr>)" by (simp add: converting_def)
    moreover have "snd (bindS (tagS c (make_task zone_ok san cfg env key title description due priority r c))
        (\<lambda>target. tagS c (on_inbox (record_target io key (ii_id r) TO_USER_TASK target later))) s) = s'\<lparr>sy_inbox := st\<rparr>"
      using run Inr b(1) rec by (simp add: bindS_run tagS_def catchS_def on_inbox_def failS_def split: sum.split)
    ultimately show ?thesis by metis
  qed
qed

section \<open>Attempts\<close>

record conversion =
  cv_env :: inbox_env
  cv_title :: string
  cv_description :: string
  cv_due :: "datetime option"
  cv_priority :: ut_priority

definition attempt_conversion ::
  "(string \<Rightarrow> bool) \<Rightarrow> (string \<Rightarrow> string) \<Rightarrow> (string \<Rightarrow> string) \<Rightarrow> 'x inbox_config \<Rightarrow> workspace_key \<Rightarrow> string \<Rightarrow>
   conversion \<Rightarrow> ('x, inbox_item) inbox_op" where
  "attempt_conversion zone_ok san sha cfg key i a =
     resolve_to_task zone_ok san sha cfg (cv_env a) key i (cv_title a) (cv_description a) (cv_due a) (cv_priority a)"

text \<open>The readings of the clock in an attempt, in their order.\<close>

definition clock_readings :: "conversion \<Rightarrow> instant list" where
  "clock_readings a = [ie_now (cv_env a), ie_record_now (cv_env a), ie_complete_now (cv_env a)]"

lemma keeps_saga:
  fixes cfg :: "'x inbox_config"
  assumes time: "now \<le> ie_record_now env" "now \<le> ie_complete_now env" and tid: "tid \<noteq> []" "py_len tid \<le> 160"
    and claim: "claim_key claim = Some tid"
  shows "keepsS (converts zone_ok key r tid base now)
    (saga_body env key (ii_id r) TO_USER_TASK (Some (make_task zone_ok san cfg env key title description due priority)) r claim)"
    (is "keepsS ?P _")
  unfolding saga_body_def
proof (rule keepsS_bindQ [where Q = "\<lambda>c. claim_key c = Some tid"])
  show "keepsS ?P (tagS claim (on_inbox (read_claim (ie_read_io env) key (ii_id r))))" by (intro frame_rules)
next
  fix s c s'
  assume "?P s" "tagS claim (on_inbox (read_claim (ie_read_io env) key (ii_id r))) s = (Inr c, s')"
  then show "claim_key c = Some tid" using read_key [OF _ tid(1)] by simp
next
  fix c
  assume c: "claim_key c = Some tid"
  let ?make = "make_task zone_ok san cfg env key title description due priority"
  show "keepsS ?P (bindS (case Some ?make of None \<Rightarrow> retS c | Some create \<Rightarrow>
        if ic_state c = CLAIM_CLAIMED
        then bindS (tagS c (create r c)) (\<lambda>target.
          tagS c (on_inbox (record_target (ie_record_io env) key (ii_id r) TO_USER_TASK target (ie_record_now env))))
        else retS c) (\<lambda>claim2.
      bindS (tagS claim2 (on_inbox (complete_resolution (ie_complete_io env) key (ii_id r) TO_USER_TASK (ie_complete_now env))))
        (\<lambda>(resolved, claim3). retS resolved)))"
    by (rule keepsS_bind, simp add: keeps_make_and_record [OF time(1) tid c] wf_rules)
      (intro wf_rules frame_rules keeps_complete [OF time(2)])
qed

lemma keeps_attempt:
  fixes cfg :: "'x inbox_config"
  assumes tid: "tid = reserved_id sha ''ut_inbox'' (ii_id r)" and times: "now = ie_now (cv_env a)" "sorted (clock_readings a)"
  shows "keepsS (converts zone_ok key r tid base now) (attempt_conversion zone_ok san sha cfg key (ii_id r) a)"
proof -
  let ?P = "converts zone_ok key r tid base now" and ?env = "cv_env a"
  let ?make = "make_task zone_ok san cfg ?env key (cv_title a) (cv_description a) (cv_due a) (cv_priority a)"
  let ?claim = "catchS (on_inbox (claim_resolution (ie_io ?env) key (ii_id r) TO_USER_TASK (Some tid) (Some tid) (ie_now ?env)))
        (claim_failed ?env key (ii_id r))"
  let ?pending = "\<lambda>c item. bindS (catchS (saga_body ?env key (ii_id r) TO_USER_TASK (Some ?make) item c)
          (saga_failed ?env key (ii_id r) TO_USER_TASK item))
        (\<lambda>resolved. bindS (ib_publish (ie_bus ?env) (if TO_USER_TASK = TO_DISMISSED then ''inbox.dismissed'' else ''inbox.resolved'') resolved)
          (\<lambda>_. retS resolved))"
  let ?closed = "bindS (on_inbox (read_claim (ie_read_io ?env) key (ii_id r))) (\<lambda>current. failS (claim_conflict current key None))"
  have id: "tid \<noteq> []" "py_len tid \<le> 160" by (simp_all add: tid)
  have time: "now \<le> ie_record_now ?env" "now \<le> ie_complete_now ?env" using times by (simp_all add: clock_readings_def)
  show ?thesis
    unfolding attempt_conversion_def resolve_to_task_def Let_def ib_resolve_def tid [symmetric]
  proof (rule keepsS_bindQ [where Q = "\<lambda>c. claim_key c = Some tid"])
    show "keepsS ?P ?claim" using keeps_claim times(1) by (intro wf_rules frame_rules) simp
  next
    fix s c s'
    assume "?P s" "?claim s = (Inr c, s')"
    then show "claim_key c = Some tid" using claimed_key [OF _ id(1)] times(1) by blast
  next
    fix c
    assume c: "claim_key c = Some tid"
    have pending: "keepsS ?P (?pending c r)"
      by (rule keepsS_bind [OF keepsS_catch [OF keeps_saga [OF time id c] keeps_handlers(2)]]) (intro wf_rules frame_rules)
    have closed: "keepsS ?P ?closed" by (intro wf_rules frame_rules)
    have saga: "keepsS ?P (bindS (ib_get ?env key (ii_id r)) (\<lambda>item. if ii_status item \<noteq> INBOX_PENDING then ?closed else ?pending c item))"
    proof (rule keepsS_bindQ [where Q = "\<lambda>x. ii_status x = INBOX_PENDING \<longrightarrow> x = r"])
      fix item :: inbox_item
      assume "ii_status item = INBOX_PENDING \<longrightarrow> item = r"
      then show "keepsS ?P (if ii_status item \<noteq> INBOX_PENDING then ?closed else ?pending c item)"
        using pending closed by (cases "ii_status item = INBOX_PENDING") auto
    qed (use got_item in \<open>blast intro: frame_rules\<close>)+
    show "keepsS ?P (if ic_type c \<noteq> TO_USER_TASK then failS (claim_conflict c key None)
      else if ic_state c = CLAIM_COMPLETED
      then bindS (ib_get ?env key (ii_id r)) (\<lambda>completed.
        if False \<and> ii_resolved_type completed = Some TO_USER_TASK \<and> ii_target completed = ic_target c
        then retS completed else failS (claim_conflict c key None))
      else bindS (ib_get ?env key (ii_id r)) (\<lambda>item. if ii_status item \<noteq> INBOX_PENDING then ?closed else ?pending c item))"
      by (rule keepsS_if [OF keepsS_ret(2) keepsS_if [OF _ saga]]) (intro wf_rules frame_rules)
  qed
qed

section \<open>An attempt without failures\<close>

definition calm_tasks :: "inbox_env \<Rightarrow> bool" where
  "calm_tasks env =
    (ue_write_io (ie_task env) = None \<and> no_raise (ue_bus (ie_task env)) \<and> no_raise (ue_bus_failed (ie_task env)) \<and>
     ue_read_io (ie_task_get env) = None)"

text \<open>The values of the attempt make a valid task.\<close>

definition makes_task ::
  "(string \<Rightarrow> bool) \<Rightarrow> 'x inbox_config \<Rightarrow> workspace_key \<Rightarrow> inbox_item \<Rightarrow> string \<Rightarrow> conversion \<Rightarrow> bool" where
  "makes_task zone_ok cfg key r tid a =
    (\<exists>t. created_task zone_ok (ie_task (cv_env a))
       (task_request key (cv_title a) (cv_description a) (cv_due a) (cv_priority a) (if_timezone cfg)
         (ie_target_now (cv_env a)) (inbox_evidence r) tid) t)"

lemma ut_create_runs:
  assumes "created_task zone_ok env q t" "ue_write_io env = None" "no_raise (ue_bus env)"
    and "row_of ur_id (ut_id t) (us_table s) = None" "ut_legacy_source_id t = None"
  shows "\<exists>s'. ut_create zone_ok san env q s = (Inr t, s') \<and> us_table s' = us_table s @ [task_row t]"
proof -
  from assms(1) obtain d where d: "un_created_at q = Some d" "validate_task zone_ok (new_values env q d) = Inr t"
    by (auto simp: created_task_def)
  then have "ut_revision t = 1" by (auto simp: validate_task_Inr task_of_values_def new_values_def)
  with assms(4,5) have "task_create None t (us_store s) = (Inr t, (us_store s)\<lparr>us_rows := us_table s @ [task_row t], us_last_error := None\<rparr>)"
    by (simp add: task_create_def Let_def sql_int_def legacy_taken_def task_done_def)
  with d assms(2,3) show ?thesis
    by (cases "ue_bus env") (simp_all add: ut_create_def catchS_def bindS_run liftS_def on_tasks_def retS_def ut_publish_def no_raise_def)
qed

lemma make_task_runs:
  assumes inv: "converting zone_ok key r tid base now b s" and tid: "tid \<noteq> []" and claim: "claim_key c = Some tid"
    and env: "if_tasks cfg" "calm_tasks (cv_env a)" "makes_task zone_ok cfg key r tid a"
  shows "\<exists>u. (\<forall>X. make_task zone_ok san cfg (cv_env a) key (cv_title a) (cv_description a) (cv_due a) (cv_priority a) r c (s\<lparr>sy_inbox := X\<rparr>) =
      (Inr tid, u\<lparr>sy_inbox := X\<rparr>)) \<and>
    one_task_more key tid (ii_id r) base (us_table (sy_tasks u)) \<and> (b \<longrightarrow> us_table (sy_tasks u) = us_table (sy_tasks s))"
proof -
  let ?q = "task_request key (cv_title a) (cv_description a) (cv_due a) (cv_priority a) (if_timezone cfg)
         (ie_target_now (cv_env a)) (inbox_evidence r) tid"
  obtain t where made: "created_task zone_ok (ie_task (cv_env a)) ?q t" using env(3) by (auto simp: makes_task_def)
  note t = created_task_names_item [OF made]
  have ut: "tasks_converting zone_ok key tid (ii_id r) base b (us_table (sy_tasks s))" using inv by (simp add: converting_def)
  show ?thesis
  proof (cases b)
    case False
    with ut have base: "us_table (sy_tasks s) = base" "row_of ur_id tid base = None" by (simp_all add: tasks_converting_def)
    then obtain u where "ut_create zone_ok san (ie_task (cv_env a)) ?q (sy_tasks s) = (Inr t, u)" "us_table u = base @ [task_row t]"
      using ut_create_runs [OF made, of "sy_tasks s" san] env(2) t(4,5) tid by (auto simp: calm_tasks_def)
    with env(1) claim False t(2,3) t(5) [OF tid] show ?thesis
      by (intro exI [of _ "s\<lparr>sy_tasks := u\<rparr>"])
        (auto simp: make_task_def bindS_run catchS_def on_task_service_def retS_def one_task_more_def task_of_item_def)
  next
    case True
    with ut obtain x where x: "task_of_item key tid (ii_id r) x" "us_table (sy_tasks s) = base @ [task_row x]"
      and base: "row_of ur_id tid base = None" "tasks_ok zone_ok (us_table (sy_tasks s))"
      by (auto simp: tasks_converting_def one_task_more_def)
    then have "task_there zone_ok cfg (cv_env a) key (cv_title a) (cv_description a) (cv_due a) (cv_priority a) r c s"
      using env(1,2) claim made unfolding task_there_def calm_tasks_def task_of_item_def by auto
    from make_task_again [OF this, of san] claim x show ?thesis
      by (auto simp: one_task_more_def)
  qed
qed

text \<open>The target is recorded already: what is left is to close the item.\<close>

lemma ib_resolve_finishes:
  assumes ok: "inbox_ok (tabs_of (sy_inbox s))" and calm_env: "calm_env env"
    and row: "row_of ii_id (ii_id r) (ib_items (sy_inbox s)) = Some r" "ii_workspace r = key_identity key" "ii_status r = INBOX_PENDING"
    and claim: "row_of ic_item (ii_id r) (ib_claims (sy_inbox s)) = Some c" "ic_workspace c = key_identity key" "claim_ok c"
      "ic_type c = ty" "ic_state c = CLAIM_TARGET_CREATED"
    and fits: "ii_created_at r \<le> ie_complete_now env" "ic_created_at c \<le> ie_complete_now env"
      "sql_int (ii_revision r + 1)" "sql_int (ic_revision c + 1)"
  shows "\<exists>t. ib_resolve env key (ii_id r) ty tkey reserved create b s =
      (Inr ((closed_item ty (ic_target c) (ie_complete_now env) r)\<lparr>ii_revision := ii_revision r + 1\<rparr>), t) \<and>
    sy_tasks t = sy_tasks s"
proof -
  let ?st = "(sy_inbox s)\<lparr>ib_last_error := None\<rparr>"
  let ?x = "(closed_item ty (ic_target c) (ie_complete_now env) r)\<lparr>ii_revision := ii_revision r + 1\<rparr>"
  have ok': "inbox_ok (tabs_of ?st)" using ok by simp
  have claimed: "claim_resolution None key (ii_id r) ty tkey reserved (ie_now env) (sy_inbox s) = (Inr c, ?st)"
    by (rule claim_resolution_total(1) [OF ok row(1,2) claim(1,3,2)])
  have get: "inbox_get None key (ii_id r) ?st = (Inr r, ?st)"
    using inbox_get_total [OF ok', of "ii_id r" r key] row by simp
  have read: "read_claim None key (ii_id r) ?st = (Inr c, ?st)"
    using read_claim_total [OF ok', of "ii_id r" c key] claim by simp
  obtain d st' where fin: "complete_resolution None key (ii_id r) ty (ie_complete_now env) ?st = (Inr (?x, d), st')"
    using complete_resolution_total [OF ok', of "ii_id r" r key c ty "ie_complete_now env" ?x] row claim fits by simp
  have body: "saga_body env key (ii_id r) ty create r c (s\<lparr>sy_inbox := ?st\<rparr>) = (Inr ?x, s\<lparr>sy_inbox := st'\<rparr>)"
    using calm_env read fin claim(5)
    by (cases create) (simp_all add: saga_body_def bindS_run tagS_def catchS_def on_inbox_def calm_env_def retS_def)
  obtain t where pub: "ib_publish (ie_bus env) (if ty = TO_DISMISSED then ''inbox.dismissed'' else ''inbox.resolved'') ?x
      (s\<lparr>sy_inbox := st'\<rparr>) = (Inr (), t)" "sy_tasks t = sy_tasks s"
    using calm_env by (cases "ie_bus env") (auto simp: ib_publish_def calm_env_def no_raise_def)
  have "ib_resolve env key (ii_id r) ty tkey reserved create b s = (Inr ?x, t)"
    using calm_env claimed get body pub(1) row(3) claim(4,5)
    by (simp add: ib_resolve_def bindS_run catchS_def on_inbox_def ib_get_def calm_env_def retS_def)
  with pub(2) show ?thesis by blast
qed

definition finishing :: "(string \<Rightarrow> bool) \<Rightarrow> 'x inbox_config \<Rightarrow> workspace_key \<Rightarrow> inbox_item \<Rightarrow> string \<Rightarrow> conversion \<Rightarrow> bool" where
  "finishing zone_ok cfg key r tid a =
    (if_tasks cfg \<and> calm_env (cv_env a) \<and> calm_tasks (cv_env a) \<and> makes_task zone_ok cfg key r tid a)"

lemma claim_made:
  assumes ib: "inbox_converting key r tid now b st" and id: "tid \<noteq> []" "py_len tid \<le> 160"
    and row: "row_of ii_id (ii_id r) (ib_items st) = Some r" "ii_status r = INBOX_PENDING" "ii_workspace r = key_identity key"
    and claims: "\<not> (\<exists>c. row_of ic_item (ii_id r) (ib_claims st) = Some c \<and> ic_state c \<noteq> CLAIM_CLAIMED)"
  obtains c st' where "claim_resolution None key (ii_id r) TO_USER_TASK (Some tid) (Some tid) now st = (Inr c, st')"
    "ib_items st' = ib_items st" "ic_state c = CLAIM_CLAIMED"
proof (cases "row_of ic_item (ii_id r) (ib_claims st)")
  case None
  note ok = inbox_convertingD(1) [OF ib]
  have "valid_item r" using inbox_okD(3) [OF ok] row_of_Some [OF row(1)] by simp
  then have "claim_ok (new_claim (key_identity key) (ii_id r) TO_USER_TASK (Some tid) (Some tid) now)"
    using id by (intro new_claim_ok) (simp_all add: external_type_def)
  from claim_resolution_total(2) [OF ok row(1,3) None row(2) refl this] show ?thesis
    by (rule that) (simp_all add: new_claim_def)
next
  case (Some c)
  have "claim_fits key tid now c" by (rule inbox_convertingD(3) [OF ib Some])
  then have "claim_ok c" "ic_workspace c = key_identity key" by (simp_all add: claim_fits_def)
  from claim_resolution_total(1) [OF inbox_convertingD(1) [OF ib] row(1,3) Some this] show ?thesis
    by (rule that) (use claims Some in auto)
qed

text \<open>A pending item: the attempt resolves it, from wherever the claim stands.\<close>

lemma attempt_resolves:
  fixes s :: "'x inbox_system"
  assumes inv: "converting zone_ok key r tid base now b s" and tid: "tid = reserved_id sha ''ut_inbox'' (ii_id r)"
    and calm: "finishing zone_ok cfg key r tid a" and row: "row_of ii_id (ii_id r) (ib_items (sy_inbox s)) = Some r" "ii_status r = INBOX_PENDING"
    and times: "sorted (now # clock_readings a)" "ii_created_at r \<le> ie_complete_now (cv_env a)" "sql_int (ii_revision r + 1)"
  shows "\<exists>item t. attempt_conversion zone_ok san sha cfg key (ii_id r) a s = (Inr item, t) \<and>
    ii_status item = INBOX_RESOLVED \<and> ii_target item = Some tid \<and>
    one_task_more key tid (ii_id r) base (us_table (sy_tasks t)) \<and> (b \<longrightarrow> us_table (sy_tasks t) = us_table (sy_tasks s))"
proof -
  let ?env = "cv_env a"
  let ?make = "make_task zone_ok san cfg ?env key (cv_title a) (cv_description a) (cv_due a) (cv_priority a)"
  let ?x = "(closed_item TO_USER_TASK (Some tid) (ie_complete_now ?env) r)\<lparr>ii_revision := ii_revision r + 1\<rparr>"
  let ?resolve = "ib_resolve ?env key (ii_id r) TO_USER_TASK (Some tid) (Some tid) (Some ?make) False"
  have id: "tid \<noteq> []" "py_len tid \<le> 160" by (simp_all add: tid)
  have ib: "inbox_converting key r tid (ie_now ?env) b (sy_inbox s)"
    using inv times(1) converting_later [of key r tid now b] by (simp add: converting_def clock_readings_def)
  note ok = inbox_convertingD(1) [OF ib]
  have mine: "ii_workspace r = key_identity key" using inbox_convertingD(2) [OF ib] row(1) by auto
  have calm_env: "calm_env ?env" using calm by (simp add: finishing_def)
  have clocks: "ie_now ?env \<le> ie_record_now ?env" "ie_record_now ?env \<le> ie_complete_now ?env"
    using times(1) by (simp_all add: clock_readings_def)
  have target: "\<exists>t. ?resolve s = (Inr ?x, t) \<and> one_task_more key tid (ii_id r) base (us_table (sy_tasks t)) \<and>
      (b \<longrightarrow> us_table (sy_tasks t) = us_table (sy_tasks s))"
  proof (cases "\<exists>c. row_of ic_item (ii_id r) (ib_claims (sy_inbox s)) = Some c \<and> ic_state c \<noteq> CLAIM_CLAIMED")
    case True
    then obtain c where c: "row_of ic_item (ii_id r) (ib_claims (sy_inbox s)) = Some c" "ic_state c \<noteq> CLAIM_CLAIMED" by blast
    have "item_agrees r (claim_progress c)"
      using inbox_okD(4) [OF ok, of r] row_of_Some [OF row(1)] progress_row [OF c(1)] by simp
    with row(2) c(2) have state: "ic_state c = CLAIM_TARGET_CREATED" by (cases "ic_state c") simp_all
    have fits: "claim_fits key tid (ie_now ?env) c" by (rule inbox_convertingD(3) [OF ib c(1)])
    have b using inbox_convertingD(4) [OF ib c] .
    with inv have "one_task_more key tid (ii_id r) base (us_table (sy_tasks s))" by (simp add: converting_def tasks_converting_def)
    moreover have "\<exists>t. ?resolve s = (Inr ?x, t) \<and> sy_tasks t = sy_tasks s"
      using ib_resolve_finishes [OF ok calm_env row(1) mine row(2) c(1), of TO_USER_TASK "Some tid" "Some tid" "Some ?make" False]
        fits state times(2,3) clocks by (simp add: claim_fits_def sql_int_def)
    ultimately show ?thesis by auto
  next
    case False
    obtain c st where claim: "claim_resolution None key (ii_id r) TO_USER_TASK (Some tid) (Some tid) (ie_now ?env) (sy_inbox s) = (Inr c, st)"
      "ib_items st = ib_items (sy_inbox s)" "ic_state c = CLAIM_CLAIMED"
      by (rule claim_made [OF ib id row mine False])
    from claim_keeps [OF ib claim(1)] have st: "inbox_converting key r tid (ie_now ?env) b st"
      "row_of ic_item (ii_id r) (ib_claims st) = Some c" by simp_all
    have fits: "claim_fits key tid (ie_now ?env) c" by (rule inbox_convertingD(3) [OF st])
    have claimed: "claimed_for TO_USER_TASK key r c st"
      using fits st(2) claim(2,3) row mine inbox_convertingD(1) [OF st(1)] by (simp add: claimed_for_def claim_fits_def)
    have "claim_key c = Some tid" using fits id by (simp add: claim_fits_def claim_key_def)
    from make_task_runs [OF inv id(1) this, of cfg a san] calm obtain u where
      u: "\<And>X. ?make r c (s\<lparr>sy_inbox := X\<rparr>) = (Inr tid, u\<lparr>sy_inbox := X\<rparr>)"
        "one_task_more key tid (ii_id r) base (us_table (sy_tasks u))" "b \<longrightarrow> us_table (sy_tasks u) = us_table (sy_tasks s)"
      unfolding finishing_def by blast
    have rfits: "resolution_fits ?env r c"
      using fits claim(3) times(2,3) clocks by (simp add: resolution_fits_def claim_fits_def sql_int_def)
    from ib_resolve_runs [OF calm_env claim(1) claimed rfits _ id, where f = ?make and t = u and b = False] u
    show ?thesis by (fastforce simp: external_type_def)
  qed
  then show ?thesis
    by (auto simp: attempt_conversion_def resolve_to_task_def Let_def closed_item_def final_status_def simp flip: tid)
qed

text \<open>A closed item: it is the earlier attempt's, and this one is refused.\<close>

lemma attempt_refused:
  fixes s :: "'x inbox_system"
  assumes inv: "converting zone_ok key r tid base now b s"
    and calm: "finishing zone_ok cfg key r tid a" and row: "row_of ii_id (ii_id r) (ib_items (sy_inbox s)) = Some x" "ii_status x \<noteq> INBOX_PENDING"
  shows "\<exists>c. ib_refused c key (attempt_conversion zone_ok san sha cfg key (ii_id r) a) s \<and> ic_target c = Some tid \<and> b \<and>
    ii_status x = INBOX_RESOLVED \<and> ii_target x = Some tid"
proof -
  have ib: "inbox_converting key r tid now b (sy_inbox s)" using inv by (simp add: converting_def)
  note ok = inbox_convertingD(1) [OF ib]
  have mine: "ii_workspace x = key_identity key" using inbox_convertingD(2) [OF ib] row(1) by auto
  have agrees: "item_agrees x (progress_of (ib_claims (sy_inbox s)) (ii_id r))"
    using inbox_okD(4) [OF ok, of x] row_of_Some [OF row(1)] by simp
  with row(2) obtain c where c: "row_of ic_item (ii_id r) (ib_claims (sy_inbox s)) = Some c"
    by (cases "row_of ic_item (ii_id r) (ib_claims (sy_inbox s))") (simp_all add: progress_none)
  from agrees row(2) have state: "ic_state c = CLAIM_COMPLETED"
    by (cases "ic_state c") (simp_all add: progress_row [OF c])
  have fits: "claim_fits key tid now c" by (rule inbox_convertingD(3) [OF ib c])
  have b using inbox_convertingD(4) [OF ib c] state by simp
  moreover have "ib_refused c key (attempt_conversion zone_ok san sha cfg key (ii_id r) a) s"
    unfolding attempt_conversion_def resolve_to_task_def Let_def
    using calm fits state by (intro ib_resolve_refused [OF ok _ _ row(1) mine c]) (simp_all add: finishing_def calm_env_def claim_fits_def)
  ultimately show ?thesis
    using agrees fits state by (intro exI [of _ c]) (simp add: progress_row [OF c] claim_fits_def final_status_def)
qed

section \<open>Any number of attempts\<close>

lemma keeps_attempts:
  "converts zone_ok key r tid base now s \<Longrightarrow> tid = reserved_id sha ''ut_inbox'' (ii_id r) \<Longrightarrow>
   sorted (now # concat (map clock_readings (attempts @ [a]))) \<Longrightarrow>
   \<exists>now'. converts zone_ok key r tid base now' (fold (\<lambda>a s. snd (attempt_conversion zone_ok san sha cfg key (ii_id r) a s)) attempts s) \<and>
     sorted (now' # clock_readings a)"
proof (induction attempts arbitrary: s now)
  case (Cons x xs)
  let ?t = "ie_now (cv_env x)"
  have times: "now \<le> ?t" "sorted (clock_readings x)" "sorted (?t # concat (map clock_readings (xs @ [a])))"
    using Cons.prems(3) by (simp_all add: clock_readings_def [of x])
  obtain b where "converting zone_ok key r tid base now b s" using Cons.prems(1) by blast
  then have "converting zone_ok key r tid base ?t b s"
    using converting_later [OF _ times(1)] by (simp add: converting_def)
  then have "converts zone_ok key r tid base ?t (snd (attempt_conversion zone_ok san sha cfg key (ii_id r) x s))"
    using keeps_attempt [OF Cons.prems(2) refl times(2), of zone_ok key base san cfg] unfolding keepsS_def by blast
  from Cons.IH [OF this Cons.prems(2) times(3)] show ?case by simp
qed auto

text \<open>C25: the conversion of a free, pending item to a task, over any number of attempts.  SQLite and
  every bus may fail in each attempt at any call: the task service may lose its message or the
  announcement of that, the inbox may lose the message \<open>inbox.resolved\<close>.  Whatever happened, at most
  one task has been added, under the identifier reserved for the item, in its workspace and naming the
  item.  After one more attempt without failures there is exactly one, the one stored first if there
  was one.  That attempt returns the item resolved to this task, unless the item is closed already
  (an earlier attempt failed only at its last message, or succeeded): then it is resolved to this task,
  and the attempt fails as already resolved, with the task in the error.\<close>

theorem ib_task_exactly_once:
  fixes s :: "'x inbox_system" and sha :: "string \<Rightarrow> string" and r :: inbox_item
  defines "tid \<equiv> reserved_id sha ''ut_inbox'' (ii_id r)" and "base \<equiv> us_table (sy_tasks s)"
  assumes ok: "inbox_ok (tabs_of (sy_inbox s))" "tasks_ok zone_ok base"
    and row: "row_of ii_id (ii_id r) (ib_items (sy_inbox s)) = Some r" "ii_workspace r = key_identity key"
    and free: "row_of ic_item (ii_id r) (ib_claims (sy_inbox s)) = None" "row_of ur_id tid base = None"
    and clock: "sorted (ii_created_at r # concat (map clock_readings (attempts @ [a])))"
    and last: "finishing zone_ok cfg key r tid a" "sql_int (ii_revision r + 1)"
    and run: "s' = fold (\<lambda>a s. snd (attempt_conversion zone_ok san sha cfg key (ii_id r) a s)) attempts s"
      "attempt_conversion zone_ok san sha cfg key (ii_id r) a s' = (res, s'')"
  shows "(us_table (sy_tasks s') = base \<or> one_task_more key tid (ii_id r) base (us_table (sy_tasks s'))) \<and>
    one_task_more key tid (ii_id r) base (us_table (sy_tasks s'')) \<and>
    (us_table (sy_tasks s') \<noteq> base \<longrightarrow> us_table (sy_tasks s'') = us_table (sy_tasks s')) \<and>
    (\<exists>x. row_of ii_id (ii_id r) (ib_items (sy_inbox s')) = Some x \<and>
       (if ii_status x = INBOX_PENDING
        then \<exists>item. res = Inr item \<and> ii_status item = INBOX_RESOLVED \<and> ii_target item = Some tid
        else ii_status x = INBOX_RESOLVED \<and> ii_target x = Some tid \<and>
          (\<exists>c. res = Inl (claim_conflict c key None) \<and> ic_target c = Some tid)))"
proof -
  have "converting zone_ok key r tid base (ii_created_at r) False s"
    using ok row free by (simp add: converting_def inbox_converting_def tasks_converting_def base_def)
  then obtain now b where inv: "converting zone_ok key r tid base now b s'" "sorted (now # clock_readings a)"
    using keeps_attempts [OF exI tid_def [THEN meta_eq_to_obj_eq] clock, of zone_ok key base False s san cfg] run(1) by blast
  then have table: "tasks_converting zone_ok key tid (ii_id r) base b (us_table (sy_tasks s'))"
    and ib: "inbox_converting key r tid now b (sy_inbox s')" by (simp_all add: converting_def)
  have before: "if b then one_task_more key tid (ii_id r) base (us_table (sy_tasks s')) else us_table (sy_tasks s') = base"
    using table by (simp add: tasks_converting_def)
  obtain x where x: "row_of ii_id (ii_id r) (ib_items (sy_inbox s')) = Some x" "ii_status x = INBOX_PENDING \<longrightarrow> x = r"
    using inbox_convertingD(2) [OF ib] by blast
  show ?thesis
  proof (cases "ii_status x = INBOX_PENDING")
    case True
    with x have r: "row_of ii_id (ii_id r) (ib_items (sy_inbox s')) = Some r" "ii_status r = INBOX_PENDING" by simp_all
    have "ii_created_at r \<le> ie_complete_now (cv_env a)" using clock by (simp add: clock_readings_def)
    from attempt_resolves [OF inv(1) tid_def [THEN meta_eq_to_obj_eq] last(1) r inv(2) this last(2), of san] run(2)
    show ?thesis using before r by (auto split: if_splits)
  next
    case False
    from attempt_refused [OF inv(1) last(1) x(1) False, of san sha] run(2) show ?thesis
      using before x(1) False by (auto simp: ib_refused_def split: if_splits)
  qed
qed

text \<open>Two failing attempts and a third: the first loses every message, the task's and that of its
  failure included; the second loses only the last one.\<close>

definition sample_conversion :: "inbox_env \<Rightarrow> conversion" where
  "sample_conversion env = \<lparr>cv_env = env, cv_title = ''call'', cv_description = [], cv_due = None, cv_priority = HIGH\<rparr>"

definition broken_bus :: bus_mode where
  "broken_bus = Bus_Raises (Raise ValueError ''bus'')"

definition lossy_env :: inbox_env where
  "lossy_env = inbox_sample_env\<lparr>ie_task := calm\<lparr>ue_bus := broken_bus, ue_bus_failed := broken_bus\<rparr>,
     ie_bus := broken_bus, ie_bus_failed := broken_bus\<rparr>"

definition silent_env :: inbox_env where
  "silent_env = inbox_sample_env\<lparr>ie_bus := broken_bus\<rparr>"

lemma sample_makes_task:
  "makes_task utc_zone inbox_sample_config acme sample_item (reserved_id id ''ut_inbox'' ''inbox_1'') (sample_conversion inbox_sample_env)"
proof -
  let ?q = "task_request acme ''call'' [] None HIGH ''UTC'' 6000000 (inbox_evidence sample_item) (reserved_id id ''ut_inbox'' ''inbox_1'')"
  have "validate_task utc_zone (new_values calm ?q (Aware 6000000 0)) = Inr (task_of_values (new_values calm ?q (Aware 6000000 0)))"
    by code_simp
  then show ?thesis
    by (auto simp: makes_task_def created_task_def sample_conversion_def task_request_def inbox_sample_env_def inbox_sample_config_def)
qed

theorem ib_task_exactly_once_witness:
  "\<exists>t. us_table (sy_tasks (snd (attempt_conversion utc_zone id id inbox_sample_config acme ''inbox_1'' (sample_conversion inbox_sample_env)
       (fold (\<lambda>a s. snd (attempt_conversion utc_zone id id inbox_sample_config acme ''inbox_1'' a s))
         [sample_conversion lossy_env, sample_conversion silent_env] sample_system)))) = [task_row t] \<and>
     task_of_item acme (reserved_id id ''ut_inbox'' ''inbox_1'') ''inbox_1'' t"
proof -
  have calm: "finishing utc_zone inbox_sample_config acme sample_item (reserved_id id ''ut_inbox'' ''inbox_1'') (sample_conversion inbox_sample_env)"
    using sample_makes_task
    by (simp add: finishing_def calm_env_def calm_tasks_def sample_conversion_def inbox_sample_config_def inbox_sample_env_def calm_def no_raise_def)
  have state: "inbox_ok (tabs_of (sy_inbox sample_system))" "us_table (sy_tasks sample_system) = []"
    "row_of ii_id ''inbox_1'' (ib_items (sy_inbox sample_system)) = Some sample_item" "ib_claims (sy_inbox sample_system) = []"
    using sample_inbox_ok sample_table(2) by (simp_all add: sample_system_def) (simp_all add: sample_inbox_def)
  have clock: "sorted (ii_created_at sample_item # concat (map clock_readings
      ([sample_conversion lossy_env, sample_conversion silent_env] @ [sample_conversion inbox_sample_env])))"
    by (simp add: clock_readings_def sample_conversion_def lossy_env_def silent_env_def inbox_sample_env_def)
  obtain res s'' where run: "attempt_conversion utc_zone id id inbox_sample_config acme ''inbox_1'' (sample_conversion inbox_sample_env)
      (fold (\<lambda>a s. snd (attempt_conversion utc_zone id id inbox_sample_config acme ''inbox_1'' a s))
         [sample_conversion lossy_env, sample_conversion silent_env] sample_system) = (res, s'')"
    by fastforce
  have "one_task_more acme (reserved_id id ''ut_inbox'' ''inbox_1'') ''inbox_1'' [] (us_table (sy_tasks s''))"
    using ib_task_exactly_once [where r = sample_item and sha = id and san = id and s = sample_system and zone_ok = utc_zone
        and key = acme and cfg = inbox_sample_config and a = "sample_conversion inbox_sample_env" and res = res and s'' = s'',
        OF state(1) _ _ _ _ _ clock _ _ refl] state calm run
    by (simp add: sql_int_def)
  then show ?thesis unfolding run snd_conv by (auto simp: one_task_more_def)
qed

end
