(* ===== verification/Engine_Base.thy ===== *)
theory Engine_Base
  imports Failures
begin

text \<open>
  What the runtimes of tools, workflows and tasks share: the exceptions they tell apart, the text
  of a refused state transition, events, and calls that move the state of a
  runtime along a relation, whatever else runs while they wait.
\<close>

section \<open>Exceptions and values\<close>

abbreviation AttributeError :: exn_class where "AttributeError \<equiv> OtherError ''AttributeError''"

text \<open>\<open>except Exception\<close> lets a cancellation pass.\<close>

definition is_exception :: "exn \<Rightarrow> bool" where
  "is_exception e = (\<not> has_class [CancelledError] e)"

text \<open>The message begins with six Chinese characters, given by their UTF-8 bytes.\<close>

definition transition_message :: "string \<Rightarrow> string \<Rightarrow> string" where
  "transition_message a b =
    [CHR 0xE9, CHR 0x9D, CHR 0x9E, CHR 0xE6, CHR 0xB3, CHR 0x95, CHR 0xE7, CHR 0x8A, CHR 0xB6,
     CHR 0xE6, CHR 0x80, CHR 0x81, CHR 0xE8, CHR 0xBD, CHR 0xAC, CHR 0xE6, CHR 0x8D, CHR 0xA2] @
    '': '' @ a @ '' -> '' @ b"

record engine_event =
  ev_topic :: string
  ev_subject :: string
  ev_agent :: string
  ev_session :: string
  ev_extra :: dict

section \<open>Calls that move the state along a relation\<close>

definition movesS :: "('s \<Rightarrow> 's \<Rightarrow> bool) \<Rightarrow> ('s \<Rightarrow> ('e + 'a) \<times> 's) \<Rightarrow> bool" where
  "movesS R m = (\<forall>s. R s (snd (m s)))"

lemma movesSD: "movesS R m \<Longrightarrow> m s = (r, s') \<Longrightarrow> R s s'"
  unfolding movesS_def by (metis snd_conv)

locale motion =
  fixes R :: "'s \<Rightarrow> 's \<Rightarrow> bool"
  assumes refl: "R s s" and trans: "R s t \<Longrightarrow> R t u \<Longrightarrow> R s u"
begin

lemma moves_ret: "movesS R (retS x)" "movesS R (failS e)"
  by (simp_all add: movesS_def retS_def failS_def refl)

lemma moves_bind: "movesS R m \<Longrightarrow> (\<And>x. movesS R (f x)) \<Longrightarrow> movesS R (bindS m f)"
  unfolding movesS_def bindS_def by (auto split: prod.split sum.split intro: trans) (metis snd_conv trans)+

lemma moves_catch: "movesS R m \<Longrightarrow> (\<And>e. movesS R (h e)) \<Longrightarrow> movesS R (catchS m h)"
  unfolding movesS_def catchS_def by (auto split: prod.split sum.split intro: trans) (metis snd_conv trans)+

lemma moves_finally: "movesS R m \<Longrightarrow> movesS R c \<Longrightarrow> movesS R (finallyS m c)"
  unfolding movesS_def finallyS_def by (auto split: prod.split) (metis snd_conv trans)

lemma moves_tag: "movesS R m \<Longrightarrow> movesS R (tagS t m)"
  unfolding tagS_def by (intro moves_catch moves_ret)

lemma moves_if: "movesS R m \<Longrightarrow> movesS R n \<Longrightarrow> movesS R (if b then m else n)"
  by simp

lemma moves_option: "movesS R m \<Longrightarrow> (\<And>x. movesS R (f x)) \<Longrightarrow> movesS R (case v of None \<Rightarrow> m | Some x \<Rightarrow> f x)"
  by (cases v) simp_all

lemma moves_pair: "(\<And>a b. movesS R (f a b)) \<Longrightarrow> movesS R (case p of (a, b) \<Rightarrow> f a b)"
  by (cases p) simp

lemma moves_state: "(\<And>s. R s (f s)) \<Longrightarrow> movesS R (\<lambda>s. (g s, f s))"
  by (simp add: movesS_def)

text \<open>What comes after the first part only moves on from there.\<close>

lemma after_bind: "(\<And>x. movesS R (f x)) \<Longrightarrow> R (snd (m s)) (snd (bindS m f s))"
  by (simp add: bindS_def movesS_def refl split: prod.split sum.split)

lemma after_catch: "(\<And>e. movesS R (h e)) \<Longrightarrow> R (snd (m s)) (snd (catchS m h s))"
  by (simp add: catchS_def movesS_def refl split: prod.split sum.split)

lemmas moves_rules = moves_ret moves_bind moves_catch moves_finally moves_tag moves_if moves_option moves_pair moves_state

end

end
