(* ===== verification/Tools.thy ===== *)
theory Tools
  imports Engine_Base Timestamps
begin

text \<open>
  \<open>core/tools\<close>: the registry, the validator, the permission manager, the sandbox, the metrics and
  the audit log, and the executor every tool call goes through.  A tool is whatever its factory
  builds: \<open>build\<close> and \<open>call\<close> are operations on the whole system, so that a tool may call other
  tools and other calls may run while one waits.  Latencies are left out; \<open>shown\<close> is
  \<open>str(arguments)\<close>.
\<close>

section \<open>Models\<close>

abbreviation ToolNotFoundError :: exn_class where "ToolNotFoundError \<equiv> OtherError ''ToolNotFoundError''"
abbreviation ToolNotReadyError :: exn_class where "ToolNotReadyError \<equiv> OtherError ''ToolNotReadyError''"
abbreviation ToolValidationError :: exn_class where "ToolValidationError \<equiv> OtherError ''ToolValidationError''"
abbreviation ToolPermissionDeniedError :: exn_class where
  "ToolPermissionDeniedError \<equiv> OtherError ''ToolPermissionDeniedError''"

datatype tool_permission = P_READ | P_WRITE | P_NETWORK | P_FILESYSTEM | P_SYSTEM | P_DATABASE | P_EXECUTE

fun permission_value :: "tool_permission \<Rightarrow> string" where
  "permission_value P_READ = ''read''"
| "permission_value P_WRITE = ''write''"
| "permission_value P_NETWORK = ''network''"
| "permission_value P_FILESYSTEM = ''filesystem''"
| "permission_value P_SYSTEM = ''system''"
| "permission_value P_DATABASE = ''database''"
| "permission_value P_EXECUTE = ''execute''"

record parameter_schema =
  ps_properties :: dict
  ps_required :: "string list"

record tool_info =
  ti_id :: string
  ti_name :: string
  ti_category :: string
  ti_tags :: "string list"
  ti_parameters :: parameter_schema
  ti_permissions :: "tool_permission list"
  ti_timeout :: int

record tool_request =
  tq_tool :: string
  tq_arguments :: dict
  tq_session :: string
  tq_agent :: string
  tq_trace :: string

record tool_result =
  to_success :: bool
  to_output :: json
  to_error :: "string option"

text \<open>What a tool returns: a \<open>ToolResult\<close>, or any other value.\<close>

datatype tool_value = Tool_Result tool_result | Plain_Value json

definition failed_result :: "string \<Rightarrow> tool_result" where
  "failed_result e = \<lparr>to_success = False, to_output = JNull, to_error = Some e\<rparr>"

section \<open>Validation and permissions\<close>

fun type_name :: "json \<Rightarrow> string" where
  "type_name JNull = ''NoneType''"
| "type_name (JBool b) = ''bool''"
| "type_name (JInt n) = ''int''"
| "type_name (JReal r) = ''float''"
| "type_name (JStr s) = ''str''"
| "type_name (JArr xs) = ''list''"
| "type_name (JObj d) = ''dict''"
| "type_name (JOpaque s) = s"

text \<open>\<open>isinstance\<close> over the types of \<open>type_map\<close>; a \<open>bool\<close> is an \<open>int\<close>.  An unknown name has no type.\<close>

definition is_instance :: "string \<Rightarrow> json \<Rightarrow> bool option" where
  "is_instance expected v =
    (if expected = ''string'' then Some (case v of JStr s \<Rightarrow> True | _ \<Rightarrow> False)
     else if expected = ''integer'' then Some (case v of JInt n \<Rightarrow> True | JBool b \<Rightarrow> True | _ \<Rightarrow> False)
     else if expected = ''number''
     then Some (case v of JInt n \<Rightarrow> True | JBool b \<Rightarrow> True | JReal r \<Rightarrow> True | _ \<Rightarrow> False)
     else if expected = ''boolean'' then Some (case v of JBool b \<Rightarrow> True | _ \<Rightarrow> False)
     else if expected = ''array'' then Some (case v of JArr xs \<Rightarrow> True | _ \<Rightarrow> False)
     else if expected = ''object'' then Some (case v of JObj d \<Rightarrow> True | _ \<Rightarrow> False)
     else None)"

definition check_type :: "string \<Rightarrow> json \<Rightarrow> json \<Rightarrow> exn + unit" where
  "check_type field v spec =
    (case spec of
       JObj d \<Rightarrow>
         (case (case map_of d ''type'' of None \<Rightarrow> JStr ''string'' | Some t \<Rightarrow> t) of
            JStr expected \<Rightarrow>
              if is_instance expected v = Some False
              then Inl (Raise ToolValidationError
                (''Parameter '' @ field @ '': expected '' @ expected @ '', got '' @ type_name v))
              else Inr ()
          | JArr xs \<Rightarrow> Inl (Raise TypeError ''unhashable type'')
          | JObj xs \<Rightarrow> Inl (Raise TypeError ''unhashable type'')
          | _ \<Rightarrow> Inr ())
     | _ \<Rightarrow> Inl (Raise AttributeError ''get''))"

fun check_required :: "string list \<Rightarrow> dict \<Rightarrow> exn + unit" where
  "check_required [] args = Inr ()"
| "check_required (f # fs) args =
    (if map_of args f = None then Inl (Raise ToolValidationError (''Missing required parameter: '' @ f))
     else check_required fs args)"

fun check_properties :: "dict \<Rightarrow> dict \<Rightarrow> exn + unit" where
  "check_properties [] args = Inr ()"
| "check_properties ((f, spec) # ps) args =
    (case map_of args f of
       None \<Rightarrow> check_properties ps args
     | Some v \<Rightarrow> bindR (check_type f v spec) (\<lambda>_. check_properties ps args))"

definition validate_arguments :: "tool_request \<Rightarrow> tool_info \<Rightarrow> exn + unit" where
  "validate_arguments q info =
    bindR (check_required (ps_required (ti_parameters info)) (tq_arguments q))
      (\<lambda>_. check_properties (ps_properties (ti_parameters info)) (tq_arguments q))"

definition check_permissions :: "string list \<Rightarrow> tool_info \<Rightarrow> exn + unit" where
  "check_permissions granted info =
    (case find (\<lambda>p. permission_value p \<notin> set granted) (ti_permissions info) of
       None \<Rightarrow> Inr ()
     | Some p \<Rightarrow> Inl (Raise ToolPermissionDeniedError
         (''Agent lacks permission: '' @ permission_value p @ '' for tool '' @ ti_name info)))"

definition tool_permitted :: "string list \<Rightarrow> tool_info \<Rightarrow> bool" where
  "tool_permitted granted info = (\<forall>p \<in> set (ti_permissions info). permission_value p \<in> set granted)"

section \<open>The system\<close>

record tool_stats =
  tst_calls :: nat
  tst_successes :: nat
  tst_failures :: nat
  tst_timeouts :: nat

record audit_entry =
  ae_tool :: string
  ae_tool_id :: string
  ae_arguments :: string
  ae_agent :: string
  ae_session :: string
  ae_success :: bool
  ae_error :: "string option"

record ('x, 'f, 't) tool_system =
  ts_infos :: "(string \<times> tool_info) list"
  ts_factories :: "(string \<times> 'f) list"
  ts_instances :: "(string \<times> 't) list"
  ts_granted :: "string list"
  ts_stats :: "(string \<times> tool_stats) list"
  ts_audit :: "audit_entry list"
  ts_ext :: 'x

record tool_config =
  tc_checks :: bool
  tc_metrics :: bool
  tc_audit :: bool

record tool_event =
  te_topic :: string
  te_tool :: string
  te_agent :: string
  te_session :: string
  te_success :: bool

type_synonym ('x, 'f, 't, 'a) tool_op = "('x, 'f, 't) tool_system \<Rightarrow> (exn + 'a) \<times> ('x, 'f, 't) tool_system"

text \<open>The tools and the bus.\<close>

record ('x, 'f, 't) tool_env =
  tv_build :: "'f \<Rightarrow> ('x, 'f, 't, 't) tool_op"
  tv_call :: "'t \<Rightarrow> tool_request \<Rightarrow> int \<Rightarrow> ('x, 'f, 't, tool_value) tool_op"
  tv_publish :: "tool_event \<Rightarrow> ('x, 'f, 't, unit) tool_op"
  tv_shown :: "dict \<Rightarrow> string"
  tv_default_timeout :: int

subsection \<open>Registry\<close>

definition register_tool :: "tool_info \<Rightarrow> 'f \<Rightarrow> ('x, 'f, 't) tool_system \<Rightarrow> ('x, 'f, 't) tool_system" where
  "register_tool info f s =
    s\<lparr>ts_infos := put (ti_name info) info (ts_infos s), ts_factories := put (ti_name info) f (ts_factories s)\<rparr>"

definition unregister_tool :: "string \<Rightarrow> ('x, 'f, 't) tool_system \<Rightarrow> bool \<times> ('x, 'f, 't) tool_system" where
  "unregister_tool name s =
    (map_of (ts_infos s) name \<noteq> None,
     s\<lparr>ts_instances := pop name (ts_instances s), ts_factories := pop name (ts_factories s),
       ts_infos := pop name (ts_infos s)\<rparr>)"

definition get_tool_info :: "string \<Rightarrow> ('x, 'f, 't, tool_info) tool_op" where
  "get_tool_info name s =
    ((case map_of (ts_infos s) name of
        None \<Rightarrow> Inl (Raise ToolNotFoundError (''Tool not found: '' @ name))
      | Some info \<Rightarrow> Inr info), s)"

definition get_tool :: "('x, 'f, 't) tool_env \<Rightarrow> string \<Rightarrow> ('x, 'f, 't, 't) tool_op" where
  "get_tool env name s =
    (case map_of (ts_instances s) name of
       Some t \<Rightarrow> (Inr t, s)
     | None \<Rightarrow>
         (case map_of (ts_factories s) name of
            None \<Rightarrow> (Inl (Raise ToolNotFoundError (''Tool not found: '' @ name)), s)
          | Some f \<Rightarrow> bindS (tv_build env f) (\<lambda>t s. (Inr t, s\<lparr>ts_instances := put name t (ts_instances s)\<rparr>)) s))"

definition search_tools :: "string \<Rightarrow> string \<Rightarrow> string \<Rightarrow> ('x, 'f, 't) tool_system \<Rightarrow> tool_info list" where
  "search_tools category tag pattern s =
    filter (\<lambda>t. (category = [] \<or> ti_category t = category) \<and> (tag = [] \<or> tag \<in> set (ti_tags t)) \<and>
        (pattern = [] \<or> has_substring (py_lower pattern) (py_lower (ti_name t))))
      (map snd (ts_infos s))"

subsection \<open>Sandbox, metrics and audit\<close>

definition run_sandboxed :: "('x, 'f, 't) tool_env \<Rightarrow> 't \<Rightarrow> tool_request \<Rightarrow> tool_info \<Rightarrow>
   ('x, 'f, 't, tool_result) tool_op" where
  "run_sandboxed env t q info =
    (let limit = min (if ti_timeout info = 0 then tv_default_timeout env else ti_timeout info) 300 in
     catchS
       (bindS (tv_call env t q limit)
         (\<lambda>v. retS (case v of
            Tool_Result r \<Rightarrow> r | Plain_Value j \<Rightarrow> \<lparr>to_success = True, to_output = j, to_error = None\<rparr>)))
       (\<lambda>e.
         if has_class [TimeoutError] e
         then retS (failed_result (''Tool '' @ ti_name info @ '' timed out after '' @ int_text limit @ ''s''))
         else if is_exception e then retS (failed_result (exn_text e)) else failS e))"

definition timed_out_error :: "tool_result \<Rightarrow> bool" where
  "timed_out_error r = (case to_error r of None \<Rightarrow> False | Some e \<Rightarrow> has_substring ''timed out'' (py_lower e))"

definition no_stats :: tool_stats where
  "no_stats = \<lparr>tst_calls = 0, tst_successes = 0, tst_failures = 0, tst_timeouts = 0\<rparr>"

definition count_call :: "tool_result \<Rightarrow> tool_stats \<Rightarrow> tool_stats" where
  "count_call r t =
    \<lparr>tst_calls = tst_calls t + 1,
     tst_successes = (if to_success r then tst_successes t + 1 else tst_successes t),
     tst_failures = (if to_success r then tst_failures t else tst_failures t + 1),
     tst_timeouts = (if timed_out_error r then tst_timeouts t + 1 else tst_timeouts t)\<rparr>"

definition record_metrics :: "string \<Rightarrow> tool_result \<Rightarrow> ('x, 'f, 't) tool_system \<Rightarrow> ('x, 'f, 't) tool_system" where
  "record_metrics name r s =
    s\<lparr>ts_stats := put name (count_call r (case map_of (ts_stats s) name of None \<Rightarrow> no_stats | Some t \<Rightarrow> t)) (ts_stats s)\<rparr>"

definition audit_record :: "(dict \<Rightarrow> string) \<Rightarrow> tool_info \<Rightarrow> tool_request \<Rightarrow> tool_result \<Rightarrow> audit_entry" where
  "audit_record shown info q r =
    \<lparr>ae_tool = ti_name info, ae_tool_id = ti_id info, ae_arguments = concat (take 500 (py_chars (shown (tq_arguments q)))),
     ae_agent = tq_agent q, ae_session = tq_session q, ae_success = to_success r, ae_error = to_error r\<rparr>"

text \<open>\<open>results[-limit:]\<close>, with its zero: the whole list.\<close>

definition last_entries :: "nat \<Rightarrow> 'a list \<Rightarrow> 'a list" where
  "last_entries n xs = (if n = 0 then xs else drop (length xs - n) xs)"

definition query_audit :: "string \<Rightarrow> string \<Rightarrow> nat \<Rightarrow> ('x, 'f, 't) tool_system \<Rightarrow> audit_entry list" where
  "query_audit tool agent n s =
    last_entries n (filter (\<lambda>r. (tool = [] \<or> ae_tool r = tool) \<and> (agent = [] \<or> ae_agent r = agent)) (ts_audit s))"

subsection \<open>The executor\<close>

definition tool_classes :: "exn_class list" where
  "tool_classes = [ToolNotFoundError, ToolNotReadyError, ToolValidationError, ToolPermissionDeniedError]"

definition execution_event :: "tool_info \<Rightarrow> tool_request \<Rightarrow> tool_result \<Rightarrow> tool_event" where
  "execution_event info q r =
    \<lparr>te_topic = (if timed_out_error r then ''tool.timeout'' else if to_success r then ''tool.executed'' else ''tool.failed''),
     te_tool = ti_name info, te_agent = tq_agent q, te_session = tq_session q, te_success = to_success r\<rparr>"

definition check_call :: "tool_config \<Rightarrow> tool_request \<Rightarrow> ('x, 'f, 't, tool_info) tool_op" where
  "check_call cfg q =
    bindS (get_tool_info (tq_tool q)) (\<lambda>info s.
      if tc_checks cfg
      then (bindR (validate_arguments q info) (\<lambda>_. bindR (check_permissions (ts_granted s) info) (\<lambda>_. Inr info)), s)
      else (Inr info, s))"

definition account :: "('x, 'f, 't) tool_env \<Rightarrow> tool_config \<Rightarrow> tool_info \<Rightarrow> tool_request \<Rightarrow> tool_result \<Rightarrow>
   ('x, 'f, 't) tool_system \<Rightarrow> ('x, 'f, 't) tool_system" where
  "account env cfg info q r s =
    (let s1 = (if tc_metrics cfg then record_metrics (ti_name info) r s else s) in
     if tc_audit cfg then s1\<lparr>ts_audit := ts_audit s1 @ [audit_record (tv_shown env) info q r]\<rparr> else s1)"

definition tool_execute ::
  "('x, 'f, 't) tool_env \<Rightarrow> tool_config \<Rightarrow> tool_request \<Rightarrow> ('x, 'f, 't, tool_result) tool_op" where
  "tool_execute env cfg q =
    catchS
      (bindS (check_call cfg q) (\<lambda>info.
       bindS (get_tool env (tq_tool q)) (\<lambda>t.
       bindS (run_sandboxed env t q info) (\<lambda>r.
       bindS (\<lambda>s. (Inr (), account env cfg info q r s)) (\<lambda>_.
       bindS (tv_publish env (execution_event info q r)) (\<lambda>_. retS r))))))
      (\<lambda>e. if has_class tool_classes e then retS (failed_result (exn_text e)) else failS e)"

definition execute_by_name ::
  "('x, 'f, 't) tool_env \<Rightarrow> tool_config \<Rightarrow> string \<Rightarrow> dict \<Rightarrow> string \<Rightarrow> string \<Rightarrow> string \<Rightarrow> ('x, 'f, 't, tool_result) tool_op" where
  "execute_by_name env cfg name args agent session tr =
    tool_execute env cfg
      \<lparr>tq_tool = name, tq_arguments = args, tq_session = session, tq_agent = agent, tq_trace = tr\<rparr>"

section \<open>What stands between a request and a tool\<close>

lemma check_permissions_iff: "check_permissions granted info = Inr () \<longleftrightarrow> tool_permitted granted info"
proof (cases "find (\<lambda>p. permission_value p \<notin> set granted) (ti_permissions info)")
  case (Some p)
  then obtain k where "k < length (ti_permissions info)" "ti_permissions info ! k = p" "permission_value p \<notin> set granted"
    by (auto simp: find_Some_iff)
  then have "\<not> tool_permitted granted info" unfolding tool_permitted_def by (metis nth_mem)
  with Some show ?thesis by (simp add: check_permissions_def)
next
  case None
  then have "tool_permitted granted info" by (simp add: tool_permitted_def find_None_iff)
  with None show ?thesis by (simp add: check_permissions_def)
qed

lemma check_call_state [simp]: "snd (check_call cfg q s) = s"
  by (simp add: check_call_def bindS_def get_tool_info_def split: option.splits)

lemma check_call_cases:
  assumes "check_call cfg q s = (Inr info, s')"
  shows "s' = s" "map_of (ts_infos s) (tq_tool q) = Some info"
    "tc_checks cfg \<Longrightarrow> validate_arguments q info = Inr () \<and> tool_permitted (ts_granted s) info"
  using assms by (auto simp: check_call_def bindS_run get_tool_info_def bindR_Inr_iff check_permissions_iff
      split: option.splits if_splits)

end
