(* ===== verification/Workflows.thy ===== *)
theory Workflows
  imports Tools
begin

text \<open>
  \<open>core/workflow\<close>: the state machine, the registry, the executor of steps with its one retry and its
  checkpoints, and the runtime that plans and executes a workflow.  State machines are objects shared
  between a run and \<open>cancel\<close>, so they are kept under addresses.  Workflow instances, the agent
  runtime, the tool executor and the bus are operations on the whole engine: while one of them waits,
  other runs and cancellations may happen.  Latencies are left out.
\<close>

section \<open>Models and the state machine\<close>

abbreviation WorkflowNotFoundError :: exn_class where "WorkflowNotFoundError \<equiv> OtherError ''WorkflowNotFoundError''"
abbreviation WorkflowStateError :: exn_class where "WorkflowStateError \<equiv> OtherError ''WorkflowStateError''"
abbreviation StepExecutionError :: exn_class where "StepExecutionError \<equiv> OtherError ''StepExecutionError''"

datatype workflow_status =
    FLOW_CREATED | FLOW_READY | FLOW_PLANNING | FLOW_RUNNING | FLOW_WAITING | FLOW_RETRYING | FLOW_PAUSED | FLOW_RESUMED
  | FLOW_COMPLETED | FLOW_FAILED | FLOW_CANCELLED

fun workflow_value :: "workflow_status \<Rightarrow> string" where
  "workflow_value FLOW_CREATED = ''created''"
| "workflow_value FLOW_READY = ''ready''"
| "workflow_value FLOW_PLANNING = ''planning''"
| "workflow_value FLOW_RUNNING = ''running''"
| "workflow_value FLOW_WAITING = ''waiting''"
| "workflow_value FLOW_RETRYING = ''retrying''"
| "workflow_value FLOW_PAUSED = ''paused''"
| "workflow_value FLOW_RESUMED = ''resumed''"
| "workflow_value FLOW_COMPLETED = ''completed''"
| "workflow_value FLOW_FAILED = ''failed''"
| "workflow_value FLOW_CANCELLED = ''cancelled''"

fun workflow_next :: "workflow_status \<Rightarrow> workflow_status list" where
  "workflow_next FLOW_CREATED = [FLOW_READY]"
| "workflow_next FLOW_READY = [FLOW_PLANNING, FLOW_CANCELLED]"
| "workflow_next FLOW_PLANNING = [FLOW_RUNNING, FLOW_FAILED, FLOW_CANCELLED]"
| "workflow_next FLOW_RUNNING = [FLOW_WAITING, FLOW_PAUSED, FLOW_COMPLETED, FLOW_FAILED, FLOW_CANCELLED]"
| "workflow_next FLOW_WAITING = [FLOW_RUNNING, FLOW_RETRYING, FLOW_CANCELLED]"
| "workflow_next FLOW_RETRYING = [FLOW_RUNNING, FLOW_FAILED, FLOW_CANCELLED]"
| "workflow_next FLOW_PAUSED = [FLOW_RESUMED, FLOW_CANCELLED]"
| "workflow_next FLOW_RESUMED = [FLOW_RUNNING]"
| "workflow_next FLOW_COMPLETED = []"
| "workflow_next FLOW_FAILED = [FLOW_RETRYING]"
| "workflow_next FLOW_CANCELLED = []"

definition workflow_transition :: "workflow_status \<Rightarrow> workflow_status \<Rightarrow> exn + workflow_status" where
  "workflow_transition cur target =
    (if target \<in> set (workflow_next cur) then Inr target
     else Inl (Raise WorkflowStateError (transition_message (workflow_value cur) (workflow_value target))))"

datatype step_status = STEP_PENDING | STEP_RUNNING | STEP_COMPLETED | STEP_FAILED | STEP_SKIPPED

datatype step_type = AGENT_CALL | TOOL_CALL | CONDITION | PARALLEL | WAIT

fun step_type_name :: "step_type \<Rightarrow> string" where
  "step_type_name AGENT_CALL = ''StepType.AGENT_CALL''"
| "step_type_name TOOL_CALL = ''StepType.TOOL_CALL''"
| "step_type_name CONDITION = ''StepType.CONDITION''"
| "step_type_name PARALLEL = ''StepType.PARALLEL''"
| "step_type_name WAIT = ''StepType.WAIT''"

record workflow_step =
  st_id :: string
  st_name :: string
  st_type :: step_type
  st_agent :: string
  st_tool :: string
  st_arguments :: dict
  st_max_retries :: int
  st_depends_on :: "string list"
  st_status :: step_status
  st_result :: json
  st_error :: "string option"
  st_retries :: int

record workflow_plan =
  wp_id :: string
  wp_steps :: "workflow_step list"

record workflow_request =
  wfq_name :: string
  wfq_id :: string
  wfq_input :: string
  wfq_session :: string
  wfq_agent :: string
  wfq_trace :: string
  wfq_variables :: dict

record workflow_result =
  wfr_id :: string
  wfr_status :: workflow_status
  wfr_completed :: nat
  wfr_failed :: nat
  wfr_outputs :: "(string \<times> json) list"
  wfr_errors :: "string list"

record workflow_checkpoint =
  wck_status :: workflow_status
  wck_index :: nat
  wck_completed :: "string list"
  wck_variables :: dict
  wck_outputs :: "(string \<times> json) list"
  wck_retries :: "(string \<times> int) list"

record workflow_info =
  wfi_id :: string
  wfi_name :: string
  wfi_tags :: "string list"
  wfi_capabilities :: "string list"

record agent_request =
  aq_input :: string
  aq_session :: string
  aq_agent :: string
  aq_memory :: bool
  aq_knowledge :: bool
  aq_tools :: bool
  aq_trace :: string

record workflow_config =
  wc_checkpoints :: bool
  wc_memory :: bool
  wc_knowledge :: bool
  wc_planner :: string

section \<open>The engine\<close>

record ('x, 'f) workflow_engine =
  we_infos :: "(string \<times> workflow_info) list"
  we_factories :: "(string \<times> 'f) list"
  we_machines :: "workflow_status list"
  we_active :: "(string \<times> nat) list"
  we_checkpoints :: "(string \<times> workflow_checkpoint) list"
  we_initialized :: bool
  we_ext :: 'x

type_synonym ('x, 'f, 'a) workflow_op = "('x, 'f) workflow_engine \<Rightarrow> (exn + 'a) \<times> ('x, 'f) workflow_engine"

record ('x, 'f, 'i) workflow_env =
  wv_build :: "'f \<Rightarrow> ('x, 'f, 'i) workflow_op"
  wv_open :: "'i \<Rightarrow> ('x, 'f, unit) workflow_op"
  wv_plan :: "'i \<Rightarrow> workflow_request \<Rightarrow> ('x, 'f, workflow_plan) workflow_op"
  wv_close :: "'i \<Rightarrow> ('x, 'f, unit) workflow_op"
  wv_agent :: "(agent_request \<Rightarrow> ('x, 'f, string \<times> json list) workflow_op) option"
  wv_tool :: "(tool_request \<Rightarrow> ('x, 'f, tool_result) workflow_op) option"
  wv_sleep :: "json \<Rightarrow> ('x, 'f, unit) workflow_op"
  wv_publish :: "engine_event \<Rightarrow> ('x, 'f, unit) workflow_op"

definition register_workflow :: "workflow_info \<Rightarrow> 'f \<Rightarrow> ('x, 'f) workflow_engine \<Rightarrow> ('x, 'f) workflow_engine" where
  "register_workflow info f s =
    s\<lparr>we_infos := put (wfi_name info) info (we_infos s), we_factories := put (wfi_name info) f (we_factories s)\<rparr>"

definition unregister_workflow :: "string \<Rightarrow> ('x, 'f) workflow_engine \<Rightarrow> bool \<times> ('x, 'f) workflow_engine" where
  "unregister_workflow name s =
    (map_of (we_infos s) name \<noteq> None,
     s\<lparr>we_factories := pop name (we_factories s), we_infos := pop name (we_infos s)\<rparr>)"

definition workflow_not_found :: "string \<Rightarrow> exn" where
  "workflow_not_found name = Raise WorkflowNotFoundError (''Workflow not found: '' @ name)"

definition get_workflow_info :: "string \<Rightarrow> ('x, 'f, workflow_info) workflow_op" where
  "get_workflow_info name s =
    ((case map_of (we_infos s) name of None \<Rightarrow> Inl (workflow_not_found name) | Some i \<Rightarrow> Inr i), s)"

definition get_workflow :: "('x, 'f, 'i) workflow_env \<Rightarrow> string \<Rightarrow> ('x, 'f, 'i) workflow_op" where
  "get_workflow env name s =
    (case map_of (we_factories s) name of
       None \<Rightarrow> (Inl (workflow_not_found name), s)
     | Some f \<Rightarrow> wv_build env f s)"

definition search_workflows :: "string \<Rightarrow> string \<Rightarrow> string \<Rightarrow> ('x, 'f) workflow_engine \<Rightarrow> workflow_info list" where
  "search_workflows tag capability pattern s =
    filter (\<lambda>w. (tag = [] \<or> tag \<in> set (wfi_tags w)) \<and> (capability = [] \<or> capability \<in> set (wfi_capabilities w)) \<and>
        (pattern = [] \<or> has_substring (py_lower pattern) (py_lower (wfi_name w))))
      (map snd (we_infos s))"

section \<open>Steps\<close>

definition tell :: "('x, 'f, 'i) workflow_env \<Rightarrow> string \<Rightarrow> string \<Rightarrow> workflow_request \<Rightarrow> dict \<Rightarrow> ('x, 'f, unit) workflow_op" where
  "tell env topic pid q extra =
    wv_publish env \<lparr>ev_topic = topic, ev_subject = pid, ev_agent = wfq_agent q, ev_session = wfq_session q, ev_extra = extra\<rparr>"

definition agent_step ::
  "('x, 'f, 'i) workflow_env \<Rightarrow> workflow_config \<Rightarrow> workflow_step \<Rightarrow> workflow_request \<Rightarrow> ('x, 'f, json) workflow_op" where
  "agent_step env cfg step q =
    (case wv_agent env of
       None \<Rightarrow> failS (Raise StepExecutionError ''Agent Runtime not configured'')
     | Some run \<Rightarrow>
         (case (case map_of (st_arguments step) ''prompt'' of None \<Rightarrow> JStr (wfq_input q) | Some v \<Rightarrow> v) of
            JStr prompt \<Rightarrow>
              bindS (run
                \<lparr>aq_input = prompt, aq_session = wfq_session q, aq_agent = str_or (st_agent step) (wfq_agent q),
                 aq_memory = wc_memory cfg, aq_knowledge = wc_knowledge cfg,
                 aq_tools = (case map_of (st_arguments step) ''tools'' of None \<Rightarrow> False | Some v \<Rightarrow> truthy v),
                 aq_trace = wfq_trace q\<rparr>)
                (\<lambda>(answer, calls). retS (JObj [(''answer'', JStr answer), (''tool_calls'', JArr calls)]))
          | _ \<Rightarrow> failS (Raise ValidationError ''AgentRequest'')))"

definition tool_step ::
  "('x, 'f, 'i) workflow_env \<Rightarrow> workflow_step \<Rightarrow> workflow_request \<Rightarrow> ('x, 'f, json) workflow_op" where
  "tool_step env step q =
    (case wv_tool env of
       None \<Rightarrow> failS (Raise StepExecutionError ''Tool Executor not configured'')
     | Some run \<Rightarrow>
         bindS (run
           \<lparr>tq_tool = st_tool step, tq_arguments = st_arguments step, tq_session = wfq_session q,
            tq_agent = wfq_agent q, tq_trace = wfq_trace q\<rparr>)
           (\<lambda>r. if \<not> to_success r
             then failS (Raise StepExecutionError (case to_error r of
               None \<Rightarrow> ''Tool execution failed'' | Some e \<Rightarrow> str_or e ''Tool execution failed''))
             else retS (to_output r)))"

definition execute_step ::
  "('x, 'f, 'i) workflow_env \<Rightarrow> workflow_config \<Rightarrow> workflow_step \<Rightarrow> workflow_request \<Rightarrow> ('x, 'f, json) workflow_op" where
  "execute_step env cfg step q =
    (if st_type step = AGENT_CALL then agent_step env cfg step q
     else if st_type step = TOOL_CALL then tool_step env step q
     else if st_type step = WAIT
     then (let seconds = (case map_of (st_arguments step) ''seconds'' of None \<Rightarrow> JInt 1 | Some v \<Rightarrow> v) in
           bindS (wv_sleep env seconds) (\<lambda>_. retS (JObj [(''waited'', seconds)])))
     else failS (Raise StepExecutionError (''Unknown step type: '' @ step_type_name (st_type step))))"

text \<open>The variables of \<open>execute\<close>.\<close>

record tally =
  ex_completed :: nat
  ex_failed :: nat
  ex_outputs :: "(string \<times> json) list"
  ex_errors :: "string list"

definition completed_step :: "json \<Rightarrow> workflow_step \<Rightarrow> workflow_step" where
  "completed_step r step = step\<lparr>st_status := STEP_COMPLETED, st_result := r\<rparr>"

definition is_step_error :: "exn \<Rightarrow> bool" where
  "is_step_error e = has_class [StepExecutionError] e"

text \<open>The handler of a failed step, with the one retry; any exception of the retry is swallowed.\<close>

definition step_failed ::
  "('x, 'f, 'i) workflow_env \<Rightarrow> workflow_config \<Rightarrow> workflow_request \<Rightarrow> string \<Rightarrow>
   exn \<times> workflow_step \<times> tally \<Rightarrow> ('x, 'f, workflow_step \<times> tally) workflow_op" where
  "step_failed env cfg q pid failure =
    (case failure of (e, step, t) \<Rightarrow>
     let failed = step\<lparr>st_status := STEP_FAILED, st_error := Some (exn_text e)\<rparr>;
         t1 = t\<lparr>ex_errors := ex_errors t @ [''Step '' @ st_name step @ '': '' @ exn_text e], ex_failed := ex_failed t + 1\<rparr> in
     bindS (tell env ''workflow.step.failed'' pid q [(''step_name'', JStr (st_name step)), (''error'', JStr (exn_text e))]) (\<lambda>_.
       if st_retries failed < st_max_retries failed
       then (let again = failed\<lparr>st_retries := st_retries failed + 1\<rparr> in
         bindS (tell env ''workflow.retry'' pid q [(''step_name'', JStr (st_name step)), (''retry'', JInt (st_retries again))]) (\<lambda>_.
           catchS
             (bindS (execute_step env cfg again q) (\<lambda>r.
               retS (completed_step r again,
                 t1\<lparr>ex_outputs := put (st_id again) r (ex_outputs t1), ex_completed := ex_completed t1 + 1,
                    ex_failed := ex_failed t1 - 1, ex_errors := butlast (ex_errors t1)\<rparr>)))
             (\<lambda>x. if is_exception x then retS (again, t1) else failS x)))
       else retS (failed, t1)))"

definition try_step ::
  "('x, 'f, 'i) workflow_env \<Rightarrow> workflow_config \<Rightarrow> workflow_request \<Rightarrow> string \<Rightarrow> nat \<Rightarrow> workflow_step \<Rightarrow> tally \<Rightarrow>
   ('x, 'f, workflow_step \<times> tally) workflow_op" where
  "try_step env cfg q pid i step t =
    catchS
      (bindS (tagS (step, t) (execute_step env cfg step q)) (\<lambda>r.
        let finished = completed_step r step;
            t' = t\<lparr>ex_outputs := put (st_id step) r (ex_outputs t), ex_completed := ex_completed t + 1\<rparr> in
        bindS (tagS (finished, t')
            (tell env ''workflow.step.completed'' pid q [(''step_name'', JStr (st_name step)), (''step_index'', JInt (int i))]))
          (\<lambda>_. retS (finished, t'))))
      (\<lambda>failure. if is_step_error (fst failure) then step_failed env cfg q pid failure else failS (fst failure))"

definition save_checkpoint ::
  "workflow_config \<Rightarrow> workflow_request \<Rightarrow> string \<Rightarrow> nat \<Rightarrow> workflow_step list \<Rightarrow> workflow_step list \<Rightarrow> tally \<Rightarrow>
   ('x, 'f) workflow_engine \<Rightarrow> ('x, 'f) workflow_engine" where
  "save_checkpoint cfg q pid i before after t s =
    (if wc_checkpoints cfg
     then s\<lparr>we_checkpoints := put pid
       \<lparr>wck_status = FLOW_RUNNING, wck_index = i + 1,
        wck_completed = map st_id (filter (\<lambda>x. st_status x = STEP_COMPLETED) before), wck_variables = wfq_variables q,
        wck_outputs = ex_outputs t,
        wck_retries = fold (\<lambda>x. put (st_id x) (st_retries x)) (before @ after) []\<rparr> (we_checkpoints s)\<rparr>
     else s)"

definition run_step ::
  "('x, 'f, 'i) workflow_env \<Rightarrow> workflow_config \<Rightarrow> workflow_request \<Rightarrow> string \<Rightarrow> workflow_step list \<Rightarrow> workflow_step \<Rightarrow>
   workflow_step list \<Rightarrow> tally \<Rightarrow> ('x, 'f, workflow_step \<times> tally) workflow_op" where
  "run_step env cfg q pid before step after t =
    (if map_of (ex_outputs t) (st_id step) \<noteq> None then retS (step, t)
     else
       bindS (tell env ''workflow.step.started'' pid q
         [(''step_name'', JStr (st_name step)), (''step_index'', JInt (int (length before)))]) (\<lambda>_.
       bindS (try_step env cfg q pid (length before) step t) (\<lambda>(step', t') s.
         (Inr (step', t'), save_checkpoint cfg q pid (length before) (before @ [step']) after t' s))))"

primrec run_steps ::
  "('x, 'f, 'i) workflow_env \<Rightarrow> workflow_config \<Rightarrow> workflow_request \<Rightarrow> string \<Rightarrow> workflow_step list \<Rightarrow>
   workflow_step list \<Rightarrow> tally \<Rightarrow> ('x, 'f, tally) workflow_op" where
  "run_steps env cfg q pid before [] t = retS t"
| "run_steps env cfg q pid before (step # after) t =
    bindS (run_step env cfg q pid before step after t)
      (\<lambda>(step', t'). run_steps env cfg q pid (before @ [step']) after t')"

definition no_tally :: tally where
  "no_tally = \<lparr>ex_completed = 0, ex_failed = 0, ex_outputs = [], ex_errors = []\<rparr>"

definition workflow_execute ::
  "('x, 'f, 'i) workflow_env \<Rightarrow> workflow_config \<Rightarrow> string \<Rightarrow> workflow_step list \<Rightarrow> workflow_request \<Rightarrow>
   ('x, 'f, workflow_result) workflow_op" where
  "workflow_execute env cfg pid steps q =
    bindS (run_steps env cfg q pid [] steps no_tally) (\<lambda>t. retS
      \<lparr>wfr_id = pid, wfr_status = (if ex_failed t = 0 then FLOW_COMPLETED else FLOW_FAILED),
       wfr_completed = ex_completed t, wfr_failed = ex_failed t, wfr_outputs = ex_outputs t, wfr_errors = ex_errors t\<rparr>)"

section \<open>The runtime\<close>

definition move_machine :: "nat \<Rightarrow> workflow_status \<Rightarrow> ('x, 'f, unit) workflow_op" where
  "move_machine a target s =
    (case workflow_transition (we_machines s ! a) target of
       Inl e \<Rightarrow> (Inl e, s)
     | Inr w \<Rightarrow> (Inr (), s\<lparr>we_machines := (we_machines s)[a := w]\<rparr>))"

text \<open>A new machine, already \<open>READY\<close>, filed as the active one of the workflow.\<close>

definition start_machine :: "string \<Rightarrow> ('x, 'f, nat) workflow_op" where
  "start_machine i s =
    (Inr (length (we_machines s)),
     s\<lparr>we_machines := we_machines s @ [FLOW_READY], we_active := put i (length (we_machines s)) (we_active s)\<rparr>)"

text \<open>
  An empty plan is asked for twice; then \<open>await planner.plan(...).steps\<close> asks the coroutine, not
  its result, for \<open>steps\<close>.
\<close>

definition plan_steps ::
  "('x, 'f, 'i) workflow_env \<Rightarrow> 'i \<Rightarrow> workflow_request \<Rightarrow> ('x, 'f, workflow_plan) workflow_op" where
  "plan_steps env inst q =
    bindS (wv_plan env inst q) (\<lambda>plan.
      if wp_steps plan \<noteq> [] then retS plan
      else bindS (wv_plan env inst q) (\<lambda>_.
        failS (Raise AttributeError ''coroutine object has no attribute steps'')))"

definition planned_result ::
  "('x, 'f, 'i) workflow_env \<Rightarrow> workflow_config \<Rightarrow> workflow_info \<Rightarrow> 'i \<Rightarrow> workflow_request \<Rightarrow> nat \<Rightarrow>
   ('x, 'f, workflow_result) workflow_op" where
  "planned_result env cfg info inst q a =
    bindS (move_machine a FLOW_PLANNING) (\<lambda>_.
    if wc_planner cfg \<noteq> ''rule'' then failS (Raise ValueError (''Unknown planner type: '' @ wc_planner cfg))
    else bindS (plan_steps env inst q) (\<lambda>plan.
    bindS (move_machine a FLOW_RUNNING) (\<lambda>_.
    bindS (tell env ''workflow.started'' (wfi_id info) q []) (\<lambda>_.
      workflow_execute env cfg (str_or (wp_id plan) (wfi_id info)) (wp_steps plan) q))))"

definition finish_run ::
  "('x, 'f, 'i) workflow_env \<Rightarrow> workflow_info \<Rightarrow> workflow_request \<Rightarrow> nat \<Rightarrow> workflow_result \<Rightarrow>
   ('x, 'f, workflow_result) workflow_op" where
  "finish_run env info q a r =
    (if wfr_status r = FLOW_COMPLETED
     then bindS (move_machine a FLOW_COMPLETED) (\<lambda>_.
       bindS (tell env ''workflow.completed'' (wfi_id info) q [(''steps_completed'', JInt (int (wfr_completed r)))])
         (\<lambda>_. retS r))
     else bindS (move_machine a FLOW_FAILED) (\<lambda>_.
       bindS (tell env ''workflow.failed'' (wfi_id info) q [(''errors'', JArr (map JStr (wfr_errors r)))])
         (\<lambda>_. retS r)))"

text \<open>The \<open>try\<close> with its handler.\<close>

definition run_planned ::
  "('x, 'f, 'i) workflow_env \<Rightarrow> workflow_config \<Rightarrow> workflow_info \<Rightarrow> 'i \<Rightarrow> workflow_request \<Rightarrow> nat \<Rightarrow>
   ('x, 'f, workflow_result) workflow_op" where
  "run_planned env cfg info inst q a =
    catchS (bindS (planned_result env cfg info inst q a) (finish_run env info q a))
      (\<lambda>e. if is_exception e
        then bindS (move_machine a FLOW_FAILED) (\<lambda>_.
          bindS (tell env ''workflow.failed'' (wfi_id info) q []) (\<lambda>_. failS e))
        else failS e)"

definition workflow_run ::
  "('x, 'f, 'i) workflow_env \<Rightarrow> workflow_config \<Rightarrow> workflow_request \<Rightarrow> ('x, 'f, workflow_result) workflow_op" where
  "workflow_run env cfg q =
    bindS (get_workflow_info (wfq_name q)) (\<lambda>info.
    bindS (get_workflow env (wfq_name q)) (\<lambda>inst.
    bindS (wv_open env inst) (\<lambda>_.
    bindS (start_machine (wfi_id info)) (\<lambda>a.
    bindS (tell env ''workflow.created'' (wfi_id info) q []) (\<lambda>_.
      finallyS (run_planned env cfg info inst q a) (wv_close env inst))))))"

definition workflow_cancel :: "('x, 'f, 'i) workflow_env \<Rightarrow> string \<Rightarrow> ('x, 'f, bool) workflow_op" where
  "workflow_cancel env i s =
    (case map_of (we_active s) i of
       None \<Rightarrow> (Inr False, s)
     | Some a \<Rightarrow>
         bindS (move_machine a FLOW_CANCELLED) (\<lambda>_.
           bindS (wv_publish env \<lparr>ev_topic = ''workflow.cancelled'', ev_subject = i, ev_agent = [], ev_session = [], ev_extra = []\<rparr>)
             (\<lambda>_. retS True)) s)"

definition workflow_shutdown :: "('x, 'f) workflow_engine \<Rightarrow> ('x, 'f) workflow_engine" where
  "workflow_shutdown s = s\<lparr>we_active := [], we_initialized := False\<rparr>"

definition workflow_initialize :: "('x, 'f) workflow_engine \<Rightarrow> ('x, 'f) workflow_engine" where
  "workflow_initialize s = s\<lparr>we_initialized := True\<rparr>"

end
