(* ===== verification/Workflow_Properties.thy ===== *)
theory Workflow_Properties
  imports Workflows "HOL-Library.Sublist"
begin

text \<open>
  What the tool executor and the workflow engine promise: no tool runs for a request that is not
  allowed or not well formed; the figures of a workflow's result are those of its steps; a run whose
  workflow has been cancelled returns no result; and a workflow without steps always fails.
\<close>

section \<open>Tools\<close>

text \<open>The checks that the executor makes before it touches a tool.\<close>

definition tool_allowed :: "tool_config \<Rightarrow> tool_request \<Rightarrow> ('x, 'f, 't) tool_system \<Rightarrow> bool" where
  "tool_allowed cfg q s =
    (case map_of (ts_infos s) (tq_tool q) of
       None \<Rightarrow> False
     | Some info \<Rightarrow> tc_checks cfg \<longrightarrow> validate_arguments q info = Inr () \<and> tool_permitted (ts_granted s) info)"

lemma check_call_allowed: "tool_allowed cfg q s \<longleftrightarrow> (\<exists>info. check_call cfg q s = (Inr info, s))"
  by (auto simp: tool_allowed_def check_call_def bindS_run get_tool_info_def check_permissions_iff [symmetric] bindR_Inr_iff
      split: option.splits)

text \<open>C30: a request that names no tool, whose arguments do not fit its schema, or that lacks one of its
  permissions builds and calls no tool and leaves no trace in the system, neither in the metrics nor
  in the audit log: only the answer to the caller says so.\<close>

theorem tool_denied_is_inert:
  assumes "\<not> tool_allowed cfg q s"
  shows "snd (tool_execute env cfg q s) = s \<and>
    (\<forall>r. fst (tool_execute env cfg q s) = Inr r \<longrightarrow> \<not> to_success r \<and> to_error r \<noteq> None)"
proof -
  obtain e where "check_call cfg q s = (Inl e, s)"
    using assms check_call_state [of cfg q s] check_call_allowed [of cfg q s] by (cases "check_call cfg q s"; cases "fst (check_call cfg q s)") auto
  then show ?thesis
    by (simp add: tool_execute_def catchS_def bindS_run retS_def failS_def failed_result_def)
qed

section \<open>The figures of a result\<close>

definition quiet_topics :: "('x, 'f, 'i) workflow_env \<Rightarrow> bool" where
  "quiet_topics env = (\<forall>ev s e s'. wv_publish env ev s = (Inl e, s') \<longrightarrow> \<not> is_step_error e)"

lemma put_new: "map_of d k = None \<Longrightarrow> put k v d = d @ [(k, v)]"
  by (induction d) (auto split: if_splits)

definition tally_ok :: "tally \<Rightarrow> bool" where
  "tally_ok t = (ex_completed t = length (ex_outputs t) \<and> ex_failed t = length (ex_errors t) \<and>
     distinct (map fst (ex_outputs t)))"

text \<open>A step that ran adds one to one of the two counts, and an output only under its name.\<close>

definition counted :: "workflow_step \<Rightarrow> tally \<Rightarrow> tally \<Rightarrow> bool" where
  "counted step t t' =
    (tally_ok t' \<and>
     (ex_outputs t' = ex_outputs t \<and> length (ex_errors t') = length (ex_errors t) + 1 \<or>
      (\<exists>r. ex_outputs t' = ex_outputs t @ [(st_id step, r)]) \<and> ex_errors t' = ex_errors t))"

lemma counted_failed:
  assumes "tally_ok t" "map_of (ex_outputs t) (st_id step) = None"
    and "step_failed env cfg q pid (e, step, t) s = (Inr (step', t'), s')"
  shows "counted step t t' \<and> st_id step' = st_id step"
  using assms
  by (auto simp: step_failed_def Let_def bindS_Inr catchS_Inr retS_def failS_def counted_def tally_ok_def put_new
      completed_step_def map_of_eq_None_iff split: if_splits)

lemma counted_try:
  assumes "quiet_topics env" "tally_ok t" "map_of (ex_outputs t) (st_id step) = None"
    and "try_step env cfg q pid i step t s = (Inr (step', t'), s')"
  shows "counted step t t'"
proof -
  have told: "tell env topic pid q extra u = (Inl e, u') \<Longrightarrow> \<not> is_step_error e" for topic extra u e u'
    using assms(1) by (auto simp: quiet_topics_def tell_def)
  from assms(4) consider
      (finished) r u where "tell env ''workflow.step.completed'' pid q [(''step_name'', JStr (st_name step)), (''step_index'', JInt (int i))] u = (Inr (), s')"
        "t' = t\<lparr>ex_outputs := put (st_id step) r (ex_outputs t), ex_completed := ex_completed t + 1\<rparr>"
    | (again) e u where "step_failed env cfg q pid (e, step, t) u = (Inr (step', t'), s')"
    by (auto simp: try_step_def Let_def bindS_run catchS_def tagS_def retS_def failS_def dest: told split: prod.splits sum.splits if_splits)
  then show ?thesis
  proof cases
    case finished
    then show ?thesis using assms(2,3) by (auto simp: counted_def tally_ok_def put_new map_of_eq_None_iff)
  next
    case again
    then show ?thesis using counted_failed [OF assms(2,3)] by blast
  qed
qed

lemma counted_step:
  assumes "quiet_topics env" "tally_ok t" "run_step env cfg q pid before step after t s = (Inr (step', t'), s')"
  shows "map_of (ex_outputs t) (st_id step) \<noteq> None \<and> t' = t \<or>
    map_of (ex_outputs t) (st_id step) = None \<and> counted step t t'"
proof (cases "map_of (ex_outputs t) (st_id step) = None")
  case True
  with assms(3) obtain u v where "try_step env cfg q pid (length before) step t u = (Inr (step', t'), v)"
    by (auto simp: run_step_def bindS_Inr)
  from counted_try [OF assms(1,2) True this] True show ?thesis by simp
next
  case False
  with assms(3) show ?thesis by (auto simp: run_step_def retS_def)
qed

text \<open>The outputs come in the order of the steps.\<close>

lemma counted_steps:
  assumes "quiet_topics env" "tally_ok t" "run_steps env cfg q pid before steps t s = (Inr t', s')"
  shows "tally_ok t' \<and> (\<exists>ys. ex_outputs t' = ex_outputs t @ ys \<and> subseq (map fst ys) (map st_id steps) \<and>
     (distinct (map st_id steps) \<and> fst ` set (ex_outputs t) \<inter> st_id ` set steps = {} \<longrightarrow>
        length ys + length (ex_errors t') = length steps + length (ex_errors t)))"
  using assms(2,3)
proof (induction steps arbitrary: before t s)
  case Nil
  then show ?case by (simp add: retS_def)
next
  case (Cons step steps)
  from Cons.prems(2) obtain step1 t1 s1 where one: "run_step env cfg q pid before step steps t s = (Inr (step1, t1), s1)"
    and rest: "run_steps env cfg q pid (before @ [step1]) steps t1 s1 = (Inr t', s')"
    by (auto simp: bindS_Inr)
  from counted_step [OF assms(1) Cons.prems(1) one] consider
      (skipped) "map_of (ex_outputs t) (st_id step) \<noteq> None" "t1 = t"
    | (ran) "map_of (ex_outputs t) (st_id step) = None" "counted step t t1" by metis
  then show ?case
  proof cases
    case skipped
    from Cons.IH [OF _ rest] Cons.prems(1) skipped obtain ys where ys: "tally_ok t'" "ex_outputs t' = ex_outputs t @ ys"
      "subseq (map fst ys) (map st_id steps)" by auto
    moreover have "st_id step \<in> fst ` set (ex_outputs t)" using skipped(1) by (auto simp: map_of_eq_None_iff)
    ultimately show ?thesis by (intro conjI exI [of _ ys]) auto
  next
    case ran
    then have ok: "tally_ok t1" by (simp add: counted_def)
    from ran(2) consider (failed) "ex_outputs t1 = ex_outputs t" "length (ex_errors t1) = length (ex_errors t) + 1"
      | (succeeded) r where "ex_outputs t1 = ex_outputs t @ [(st_id step, r)]" "ex_errors t1 = ex_errors t"
      by (auto simp: counted_def)
    then show ?thesis
    proof cases
      case failed
      from Cons.IH [OF ok rest] failed show ?thesis by auto
    next
      case succeeded
      from Cons.IH [OF ok rest] succeeded obtain ys where ys: "tally_ok t'" "ex_outputs t' = ex_outputs t1 @ ys"
        "subseq (map fst ys) (map st_id steps)"
        "distinct (map st_id steps) \<and> fst ` set (ex_outputs t1) \<inter> st_id ` set steps = {} \<longrightarrow>
          length ys + length (ex_errors t') = length steps + length (ex_errors t1)" by blast
      then show ?thesis using succeeded by (intro conjI exI [of _ "(st_id step, r) # ys"]) auto
    qed
  qed
qed

text \<open>C29: a result counts one output per completed step and one error per failed one, it is \<open>completed\<close>
  exactly when there is no error, the outputs come in the order of the plan whatever the steps say
  they depend on, and with distinct identifiers every step is counted once.\<close>

theorem workflow_counts:
  assumes "quiet_topics env" "workflow_execute env cfg pid steps q s = (Inr r, s')"
  shows "wfr_completed r = length (wfr_outputs r) \<and> wfr_failed r = length (wfr_errors r) \<and>
    (wfr_status r = FLOW_COMPLETED \<longleftrightarrow> wfr_errors r = []) \<and> distinct (map fst (wfr_outputs r)) \<and>
    subseq (map fst (wfr_outputs r)) (map st_id steps) \<and>
    (distinct (map st_id steps) \<longrightarrow> wfr_completed r + wfr_failed r = length steps)"
proof -
  from assms(2) obtain t where t: "run_steps env cfg q pid [] steps no_tally s = (Inr t, s')"
    and r: "r = \<lparr>wfr_id = pid, wfr_status = (if ex_failed t = 0 then FLOW_COMPLETED else FLOW_FAILED),
       wfr_completed = ex_completed t, wfr_failed = ex_failed t, wfr_outputs = ex_outputs t, wfr_errors = ex_errors t\<rparr>"
    by (auto simp: workflow_execute_def bindS_Inr retS_def)
  have "tally_ok no_tally" by (simp add: tally_ok_def no_tally_def)
  from counted_steps [OF assms(1) this t] show ?thesis
    by (auto simp: r tally_ok_def no_tally_def)
qed

section \<open>Runs and their machines\<close>

text \<open>A machine that has reached an end stays there, whatever other calls do meanwhile.\<close>

definition closed_status :: "workflow_status \<Rightarrow> bool" where
  "closed_status w = (w \<in> {FLOW_COMPLETED, FLOW_FAILED, FLOW_CANCELLED})"

definition ends_kept :: "('x, 'f) workflow_engine \<Rightarrow> ('x, 'f) workflow_engine \<Rightarrow> bool" where
  "ends_kept s s' =
    (length (we_machines s) \<le> length (we_machines s') \<and>
     (\<forall>a < length (we_machines s). closed_status (we_machines s ! a) \<longrightarrow> we_machines s' ! a = we_machines s ! a))"

interpretation workflow_motion: motion ends_kept
  by unfold_locales (auto simp: ends_kept_def)

definition workflow_polite :: "('x, 'f, 'i) workflow_env \<Rightarrow> bool" where
  "workflow_polite env =
    ((\<forall>f. movesS ends_kept (wv_build env f)) \<and> (\<forall>i. movesS ends_kept (wv_open env i)) \<and>
     (\<forall>i q. movesS ends_kept (wv_plan env i q)) \<and> (\<forall>i. movesS ends_kept (wv_close env i)) \<and>
     (\<forall>run q. wv_agent env = Some run \<longrightarrow> movesS ends_kept (run q)) \<and>
     (\<forall>run q. wv_tool env = Some run \<longrightarrow> movesS ends_kept (run q)) \<and>
     (\<forall>v. movesS ends_kept (wv_sleep env v)) \<and> (\<forall>ev. movesS ends_kept (wv_publish env ev)))"

named_theorems workflow_frame

lemmas [workflow_frame] = workflow_motion.moves_rules

lemma politeD [workflow_frame]:
  assumes "workflow_polite env"
  shows "movesS ends_kept (wv_build env f)" "movesS ends_kept (wv_open env i)" "movesS ends_kept (wv_plan env i q)"
    "movesS ends_kept (wv_close env i)" "movesS ends_kept (wv_sleep env v)" "movesS ends_kept (wv_publish env ev)"
    "movesS ends_kept (tell env topic pid q extra)"
  using assms by (auto simp: workflow_polite_def tell_def)

lemma kept_agent [workflow_frame]: "workflow_polite env \<Longrightarrow> movesS ends_kept (agent_step env cfg step q)"
  unfolding agent_step_def
  by (cases "wv_agent env") (auto simp: workflow_polite_def intro!: workflow_frame split: json.split)

lemma kept_tool [workflow_frame]: "workflow_polite env \<Longrightarrow> movesS ends_kept (tool_step env step q)"
  unfolding tool_step_def by (cases "wv_tool env") (auto simp: workflow_polite_def intro!: workflow_frame)

lemma kept_step [workflow_frame]: "workflow_polite env \<Longrightarrow> movesS ends_kept (execute_step env cfg step q)"
  unfolding execute_step_def Let_def by (intro workflow_frame)

lemma kept_failed [workflow_frame]: "workflow_polite env \<Longrightarrow> movesS ends_kept (step_failed env cfg q pid failure)"
  unfolding step_failed_def Let_def by (intro workflow_frame)

lemma kept_try [workflow_frame]: "workflow_polite env \<Longrightarrow> movesS ends_kept (try_step env cfg q pid i step t)"
  unfolding try_step_def Let_def by (intro workflow_frame)

lemma kept_run_step [workflow_frame]: "workflow_polite env \<Longrightarrow> movesS ends_kept (run_step env cfg q pid before step after t)"
  unfolding run_step_def
  by (intro workflow_frame) (auto simp: save_checkpoint_def ends_kept_def)

lemma kept_steps [workflow_frame]: "workflow_polite env \<Longrightarrow> movesS ends_kept (run_steps env cfg q pid before steps t)"
  by (induction steps arbitrary: before t) (auto intro!: workflow_frame)

lemma kept_execute [workflow_frame]: "workflow_polite env \<Longrightarrow> movesS ends_kept (workflow_execute env cfg pid steps q)"
  unfolding workflow_execute_def by (intro workflow_frame)

lemma ends_open: "closed_status w \<Longrightarrow> w' \<in> set (workflow_next w) \<Longrightarrow> w' = FLOW_RETRYING"
  by (cases w) (auto simp: closed_status_def)

lemma ends_updated: "closed_status (ws ! b) \<Longrightarrow> w \<in> set (workflow_next (ws ! a)) \<Longrightarrow> w \<noteq> FLOW_RETRYING \<Longrightarrow> ws[a := w] ! b = ws ! b"
  by (cases "a = b") (auto dest: ends_open)

lemma kept_move [workflow_frame]: "w \<noteq> FLOW_RETRYING \<Longrightarrow> movesS ends_kept (move_machine a w)"
  by (auto simp: movesS_def move_machine_def workflow_transition_def ends_kept_def ends_updated)

lemma kept_plan [workflow_frame]: "workflow_polite env \<Longrightarrow> movesS ends_kept (plan_steps env inst q)"
  unfolding plan_steps_def by (intro workflow_frame)

lemma kept_result [workflow_frame]: "workflow_polite env \<Longrightarrow> movesS ends_kept (planned_result env cfg info inst q a)"
  unfolding planned_result_def by (intro workflow_frame) simp_all

lemma kept_finish [workflow_frame]: "workflow_polite env \<Longrightarrow> movesS ends_kept (finish_run env info q a r)"
  unfolding finish_run_def by (intro workflow_frame) simp_all

lemma kept_planned [workflow_frame]: "workflow_polite env \<Longrightarrow> movesS ends_kept (run_planned env cfg info inst q a)"
  unfolding run_planned_def by (intro workflow_frame) simp_all

text \<open>The run ends its own machine before it answers, and the answer is what it ended it with.\<close>

lemma move_machine_Inr: "move_machine a w s = (Inr x, s') \<Longrightarrow> s' = s\<lparr>we_machines := (we_machines s)[a := w]\<rparr>"
  by (auto simp: move_machine_def workflow_transition_def split: if_splits)

lemma result_status: "planned_result env cfg info inst q a s = (Inr r, s') \<Longrightarrow> wfr_status r = FLOW_COMPLETED \<or> wfr_status r = FLOW_FAILED"
  by (auto simp: planned_result_def workflow_execute_def bindS_Inr retS_def failS_def split: if_splits)

lemma ended_machine:
  assumes "workflow_polite env" "a < length (we_machines s)" "closed_status w"
    and "bindS (move_machine a w) (\<lambda>_. bindS (tell env topic pid q extra) (\<lambda>_. retS r)) s = (Inr r', s')"
  shows "r' = r \<and> a < length (we_machines s') \<and> we_machines s' ! a = w"
proof -
  from assms(4) obtain u where u: "move_machine a w s = (Inr (), u)" "tell env topic pid q extra u = (Inr (), s')" and "r' = r"
    by (auto simp: bindS_Inr retS_def)
  have "we_machines u ! a = w" "a < length (we_machines u)" using move_machine_Inr [OF u(1)] assms(2) by simp_all
  with movesSD [OF politeD(7) [OF assms(1)] u(2)] assms(3) \<open>r' = r\<close> show ?thesis
    by (auto simp: ends_kept_def)
qed

lemma planned_machine:
  assumes polite: "workflow_polite env" and a: "a < length (we_machines s)"
    and run: "run_planned env cfg info inst q a s = (Inr r, s')"
  shows "a < length (we_machines s') \<and> we_machines s' ! a = wfr_status r \<and> wfr_status r \<in> {FLOW_COMPLETED, FLOW_FAILED}"
proof -
  from run obtain r' u where res: "planned_result env cfg info inst q a s = (Inr r', u)"
    and fin: "finish_run env info q a r' u = (Inr r, s')"
    by (auto simp: run_planned_def catchS_Inr bindS_Inr failS_def split: if_splits)
  have u: "a < length (we_machines u)"
    using movesSD [OF kept_result [OF polite] res] a by (auto simp: ends_kept_def)
  note ended = ended_machine [OF polite u]
  from result_status [OF res] show ?thesis
  proof
    assume w: "wfr_status r' = FLOW_COMPLETED"
    from ended [OF _ fin [unfolded finish_run_def if_P [OF w]]] w show ?thesis by (auto simp: closed_status_def)
  next
    assume w: "wfr_status r' = FLOW_FAILED"
    then have "wfr_status r' \<noteq> FLOW_COMPLETED" by simp
    from ended [OF _ fin [unfolded finish_run_def if_not_P [OF this]]] w show ?thesis by (auto simp: closed_status_def)
  qed
qed

lemma cancelled_refuses:
  "we_machines s ! a = FLOW_CANCELLED \<Longrightarrow> \<exists>e. bindS (move_machine a w) f s = (Inl e, s) \<and> is_exception e"
  by (simp add: bindS_run move_machine_def workflow_transition_def is_exception_def)

lemma cancelled_raises:
  assumes "we_machines (snd (planned_result env cfg info inst q a t)) ! a = FLOW_CANCELLED"
  shows "\<exists>e u. run_planned env cfg info inst q a t = (Inl e, u)"
proof -
  obtain x u where res: "planned_result env cfg info inst q a t = (x, u)" by fastforce
  with assms have u: "we_machines u ! a = FLOW_CANCELLED" by simp
  have handler: "\<exists>e' v. (if is_exception e
      then bindS (move_machine a FLOW_FAILED) (\<lambda>_. bindS (tell env ''workflow.failed'' (wfi_id info) q []) (\<lambda>_. failS e))
      else failS e) u = (Inl e', v)" for e
    using cancelled_refuses [OF u, of FLOW_FAILED "\<lambda>_. bindS (tell env ''workflow.failed'' (wfi_id info) q []) (\<lambda>_. failS e)"]
    by (auto simp: failS_def)
  show ?thesis
  proof (cases x)
    case (Inl e)
    with res handler [of e] show ?thesis by (simp add: run_planned_def catchS_def bindS_run [of "planned_result _ _ _ _ _ _"])
  next
    case (Inr r)
    have "\<exists>e. bindS (move_machine a w) f u = (Inl e, u)" for w and f :: "unit \<Rightarrow> ('a, 'b, workflow_result) workflow_op"
      using cancelled_refuses [OF u] by blast
    then obtain e where "finish_run env info q a r u = (Inl e, u)" unfolding finish_run_def by presburger
    with res Inr handler [of e] show ?thesis
      by (simp add: run_planned_def catchS_def bindS_run [of "planned_result _ _ _ _ _ _"])
  qed
qed

text \<open>A run that returns a result has left its own state machine in the status of the result, and it
  is still there when the caller gets it, whatever ran meanwhile; and when the machine has been
  cancelled by the time the steps are done, the run raises.\<close>

theorem workflow_result_is_status:
  assumes "workflow_polite env" "workflow_run env cfg q s = (Inr r, s')"
  shows "wfr_status r \<in> {FLOW_COMPLETED, FLOW_FAILED} \<and>
    (\<exists>a. length (we_machines s) \<le> a \<and> a < length (we_machines s') \<and> we_machines s' ! a = wfr_status r) \<and>
    (\<forall>info inst a t. we_machines (snd (planned_result env cfg info inst q a t)) ! a = FLOW_CANCELLED \<longrightarrow>
       (\<exists>e u. run_planned env cfg info inst q a t = (Inl e, u)))"
proof -
  from assms(2) obtain info inst s1 s2 s3 a s4 s5 x where
    run: "get_workflow_info (wfq_name q) s = (Inr info, s1)" "get_workflow env (wfq_name q) s1 = (Inr inst, s2)"
      "wv_open env inst s2 = (Inr (), s3)" "start_machine (wfi_id info) s3 = (Inr a, s4)"
      "tell env ''workflow.created'' (wfi_id info) q [] s4 = (Inr (), s5)"
    and fin: "finallyS (run_planned env cfg info inst q a) (wv_close env inst) s5 = (Inr r, s')"
    by (auto simp: workflow_run_def bindS_Inr)
  from fin obtain t x where planned: "run_planned env cfg info inst q a s5 = (Inr r, t)" and close: "wv_close env inst t = (Inr x, s')"
    by (auto simp: finallyS_def split: prod.splits sum.splits)
  have "movesS ends_kept (get_workflow env (wfq_name q))"
    using assms(1) workflow_motion.refl by (auto simp: movesS_def get_workflow_def workflow_polite_def split: option.split)
  note kept = movesSD [OF this run(2)] movesSD [OF politeD(2) [OF assms(1)] run(3)] movesSD [OF politeD(7) [OF assms(1)] run(5)]
  have "s1 = s" using run(1) by (simp add: get_workflow_info_def)
  with kept run(4) have a: "length (we_machines s) \<le> a" "a < length (we_machines s5)"
    by (auto simp: ends_kept_def start_machine_def)
  from planned_machine [OF assms(1) a(2) planned] movesSD [OF politeD(4) [OF assms(1)] close] a(1) cancelled_raises show ?thesis
    by (auto simp: ends_kept_def closed_status_def)
qed

section \<open>A workflow without steps\<close>

definition calm_workflows :: "('x, 'f, 'i) workflow_env \<Rightarrow> bool" where
  "calm_workflows env =
    ((\<forall>i s. wv_open env i s = (Inr (), s)) \<and>
     (\<forall>i s. wv_close env i s = (Inr (), s)) \<and> (\<forall>ev s. wv_publish env ev s = (Inr (), s)))"

text \<open>A workflow whose plan is empty never completes: even when everything else works, the run raises
  an \<open>AttributeError\<close> and its machine ends \<open>FAILED\<close>.\<close>

theorem workflow_empty_plan_fails:
  assumes "calm_workflows env" "wc_planner cfg = ''rule''"
    and "map_of (we_infos s) (wfq_name q) = Some info" "map_of (we_factories s) (wfq_name q) = Some f"
    and build: "wv_build env f s = (Inr inst, s)" and "\<forall>u. \<exists>plan. wv_plan env inst q u = (Inr plan, u) \<and> wp_steps plan = []"
  shows "\<exists>m s'. workflow_run env cfg q s = (Inl (Raise AttributeError m), s') \<and>
    we_machines s' = we_machines s @ [FLOW_FAILED]"
proof -
  have calm: "wv_open env i u = (Inr (), u)" "wv_close env i u = (Inr (), u)" "tell env topic pid q extra u = (Inr (), u)"
    for i u topic pid extra
    using assms(1) by (simp_all add: calm_workflows_def tell_def)
  have plan: "\<exists>m. plan_steps env inst q u = (Inl (Raise AttributeError m), u)" for u
  proof -
    from assms(6) obtain p where "wv_plan env inst q u = (Inr p, u)" "wp_steps p = []" by blast
    then show ?thesis by (simp add: plan_steps_def bindS_run failS_def)
  qed
  let ?a = "length (we_machines s)"
  let ?s1 = "s\<lparr>we_machines := we_machines s @ [FLOW_READY], we_active := put (wfi_id info) ?a (we_active s)\<rparr>"
  let ?s2 = "?s1\<lparr>we_machines := we_machines s @ [FLOW_PLANNING]\<rparr>"
  obtain m where m: "plan_steps env inst q ?s2 = (Inl (Raise AttributeError m), ?s2)" using plan [of ?s2] by blast
  have "planned_result env cfg info inst q ?a ?s1 = (Inl (Raise AttributeError m), ?s2)"
    using m assms(2) by (simp add: planned_result_def bindS_run move_machine_def workflow_transition_def)
  then have "run_planned env cfg info inst q ?a ?s1 =
      (Inl (Raise AttributeError m), ?s2\<lparr>we_machines := we_machines s @ [FLOW_FAILED]\<rparr>)"
    by (simp add: run_planned_def catchS_def bindS_run [of "planned_result _ _ _ _ _ _"] is_exception_def)
      (simp add: bindS_run move_machine_def workflow_transition_def calm failS_def)
  then have "workflow_run env cfg q s = (Inl (Raise AttributeError m), ?s2\<lparr>we_machines := we_machines s @ [FLOW_FAILED]\<rparr>)"
    using assms(3,4) build by (simp add: workflow_run_def bindS_run get_workflow_info_def get_workflow_def calm start_machine_def finallyS_def)
  then show ?thesis by auto
qed

section \<open>Samples\<close>

definition writer_info :: tool_info where
  "writer_info = \<lparr>ti_id = ''1'', ti_name = ''write_file'', ti_category = ''filesystem'', ti_tags = [],
     ti_parameters = \<lparr>ps_properties = [], ps_required = [''path'']\<rparr>, ti_permissions = [P_WRITE], ti_timeout = 30\<rparr>"

definition sample_tools :: "(unit, unit, unit) tool_system" where
  "sample_tools = \<lparr>ts_infos = [(''write_file'', writer_info)], ts_factories = [(''write_file'', ())], ts_instances = [],
     ts_granted = [''read''], ts_stats = [], ts_audit = [], ts_ext = ()\<rparr>"

definition sample_tool_env :: "(unit, unit, unit) tool_env" where
  "sample_tool_env = \<lparr>tv_build = (\<lambda>f s. (Inr (), s)), tv_call = (\<lambda>t q limit s. (Inr (Plain_Value JNull), s)),
     tv_publish = (\<lambda>ev s. (Inr (), s)), tv_shown = (\<lambda>d. []), tv_default_timeout = 30\<rparr>"

definition checked_tools :: tool_config where
  "checked_tools = \<lparr>tc_checks = True, tc_metrics = True, tc_audit = True\<rparr>"

definition write_request :: tool_request where
  "write_request = \<lparr>tq_tool = ''write_file'', tq_arguments = [(''path'', JStr ''a'')], tq_session = [], tq_agent = [], tq_trace = []\<rparr>"

definition two_steps :: "workflow_step list" where
  "two_steps = map (\<lambda>i. \<lparr>st_id = i, st_name = i, st_type = TOOL_CALL, st_agent = [], st_tool = i, st_arguments = [],
     st_max_retries = 3, st_depends_on = [], st_status = STEP_PENDING, st_result = JNull, st_error = None, st_retries = 0\<rparr>)
     [''fetch'', ''fail'']"

text \<open>Workflows are their lists of steps; every tool but \<open>fail\<close> succeeds.\<close>

definition sample_workflows :: "(unit, workflow_step list, workflow_step list) workflow_env" where
  "sample_workflows = \<lparr>wv_build = (\<lambda>f s. (Inr f, s)), wv_open = (\<lambda>i s. (Inr (), s)),
     wv_plan = (\<lambda>i q s. (Inr \<lparr>wp_id = [], wp_steps = i\<rparr>, s)), wv_close = (\<lambda>i s. (Inr (), s)), wv_agent = None,
     wv_tool = Some (\<lambda>q s. (Inr (if tq_tool q = ''fail'' then failed_result ''no'' else
       \<lparr>to_success = True, to_output = JInt 1, to_error = None\<rparr>), s)),
     wv_sleep = (\<lambda>v s. (Inr (), s)), wv_publish = (\<lambda>ev s. (Inr (), s))\<rparr>"

definition sample_engine :: "(unit, workflow_step list) workflow_engine" where
  "sample_engine = \<lparr>we_infos = [(''empty'', \<lparr>wfi_id = ''w0'', wfi_name = ''empty'', wfi_tags = [], wfi_capabilities = []\<rparr>),
       (''two'', \<lparr>wfi_id = ''w2'', wfi_name = ''two'', wfi_tags = [], wfi_capabilities = []\<rparr>)],
     we_factories = [(''empty'', []), (''two'', two_steps)], we_machines = [], we_active = [], we_checkpoints = [],
     we_initialized = True, we_ext = ()\<rparr>"

definition plain_config :: workflow_config where
  "plain_config = \<lparr>wc_checkpoints = True, wc_memory = True, wc_knowledge = True, wc_planner = ''rule''\<rparr>"

definition request_for :: "string \<Rightarrow> workflow_request" where
  "request_for name = \<lparr>wfq_name = name, wfq_id = [], wfq_input = [], wfq_session = [], wfq_agent = [], wfq_trace = [], wfq_variables = []\<rparr>"

lemma sample_workflows_calm: "quiet_topics sample_workflows" "workflow_polite sample_workflows" "calm_workflows sample_workflows"
  by (simp_all add: quiet_topics_def workflow_polite_def calm_workflows_def sample_workflows_def movesS_def workflow_motion.refl)

theorem tool_denied_is_inert_witness:
  "snd (tool_execute sample_tool_env checked_tools write_request sample_tools) = sample_tools"
proof -
  have "\<not> tool_allowed checked_tools write_request sample_tools" by code_simp
  from tool_denied_is_inert [OF this] show ?thesis by blast
qed

theorem workflow_counts_witness:
  "\<exists>r s'. workflow_execute sample_workflows plain_config ''w2'' two_steps (request_for ''two'') sample_engine = (Inr r, s') \<and>
     wfr_completed r = 1 \<and> wfr_failed r = 1 \<and> subseq (map fst (wfr_outputs r)) [''fetch'', ''fail'']"
proof -
  let ?run = "workflow_execute sample_workflows plain_config ''w2'' two_steps (request_for ''two'') sample_engine"
  have "case fst ?run of Inl e \<Rightarrow> False | Inr r \<Rightarrow> wfr_completed r = 1" by code_simp
  then obtain r s' where run: "?run = (Inr r, s')" "wfr_completed r = 1" by (cases ?run) (auto split: sum.splits)
  have "distinct (map st_id two_steps)" "length two_steps = 2" "map st_id two_steps = [''fetch'', ''fail'']"
    by (simp_all add: two_steps_def)
  with workflow_counts [OF sample_workflows_calm(1) run(1)] run show ?thesis by auto
qed

theorem workflow_result_is_status_witness:
  "\<exists>r s'. workflow_run sample_workflows plain_config (request_for ''two'') sample_engine = (Inr r, s') \<and>
     (\<exists>a. a < length (we_machines s') \<and> we_machines s' ! a = wfr_status r)"
proof -
  let ?run = "workflow_run sample_workflows plain_config (request_for ''two'') sample_engine"
  have "case fst ?run of Inl e \<Rightarrow> False | Inr r \<Rightarrow> True" by code_simp
  then obtain r s' where "?run = (Inr r, s')" by (cases ?run) (auto split: sum.splits)
  with workflow_result_is_status [OF sample_workflows_calm(2)] show ?thesis by blast
qed

theorem workflow_empty_plan_fails_witness:
  "\<exists>m s'. workflow_run sample_workflows plain_config (request_for ''empty'') sample_engine = (Inl (Raise AttributeError m), s') \<and>
     we_machines s' = [FLOW_FAILED]"
proof -
  have "wv_build sample_workflows [] sample_engine = (Inr [], sample_engine)"
    "\<forall>u. \<exists>plan. wv_plan sample_workflows [] (request_for ''empty'') u = (Inr plan, u) \<and> wp_steps plan = []"
    by (simp_all add: sample_workflows_def)
  from workflow_empty_plan_fails [OF sample_workflows_calm(3) _ _ _ this, of plain_config] show ?thesis
    by (simp add: plain_config_def request_for_def) (simp add: sample_engine_def)
qed

end
