(* ===== verification/Task_Runtime.thy ===== *)
theory Task_Runtime
  imports Engine_Base
begin

text \<open>
  \<open>core/task\<close>: the state machine of a task, the registry, contexts and checkpoints, the planner and
  the dependency resolver, and the runtime that runs the workflows of a task in order with retries.
  A state machine is an object that a run keeps while \<open>destroy\<close> may drop it, so machines are kept
  under addresses.  The workflow runtime and the bus are operations on the whole runtime: while one of
  them waits, any other operation may happen.  The time limit of a workflow is part of the workflow
  runtime's answer; latencies are left out.
\<close>

section \<open>Models and the state machine\<close>

abbreviation TaskNotFoundError :: exn_class where "TaskNotFoundError \<equiv> OtherError ''TaskNotFoundError''"
abbreviation TaskStateError :: exn_class where "TaskStateError \<equiv> OtherError ''TaskStateError''"
abbreviation TaskExecutionError :: exn_class where "TaskExecutionError \<equiv> OtherError ''TaskExecutionError''"

datatype task_status =
    TS_CREATED | TS_READY | TS_RUNNING | TS_WAITING | TS_PAUSED | TS_FAILED | TS_RETRYING | TS_CANCELLED
  | TS_COMPLETED | TS_TIMEOUT | TS_DESTROYED

fun task_status_value :: "task_status \<Rightarrow> string" where
  "task_status_value TS_CREATED = ''created''"
| "task_status_value TS_READY = ''ready''"
| "task_status_value TS_RUNNING = ''running''"
| "task_status_value TS_WAITING = ''waiting''"
| "task_status_value TS_PAUSED = ''paused''"
| "task_status_value TS_FAILED = ''failed''"
| "task_status_value TS_RETRYING = ''retrying''"
| "task_status_value TS_CANCELLED = ''cancelled''"
| "task_status_value TS_COMPLETED = ''completed''"
| "task_status_value TS_TIMEOUT = ''timeout''"
| "task_status_value TS_DESTROYED = ''destroyed''"

fun task_next :: "task_status \<Rightarrow> task_status list" where
  "task_next TS_CREATED = [TS_READY, TS_CANCELLED]"
| "task_next TS_READY = [TS_RUNNING, TS_CANCELLED]"
| "task_next TS_RUNNING = [TS_WAITING, TS_PAUSED, TS_COMPLETED, TS_FAILED, TS_TIMEOUT, TS_CANCELLED]"
| "task_next TS_WAITING = [TS_RUNNING, TS_CANCELLED, TS_TIMEOUT]"
| "task_next TS_PAUSED = [TS_RUNNING, TS_CANCELLED]"
| "task_next TS_FAILED = [TS_RETRYING, TS_DESTROYED]"
| "task_next TS_RETRYING = [TS_RUNNING, TS_FAILED, TS_CANCELLED]"
| "task_next TS_TIMEOUT = [TS_RETRYING, TS_DESTROYED]"
| "task_next TS_CANCELLED = [TS_DESTROYED]"
| "task_next TS_COMPLETED = [TS_DESTROYED]"
| "task_next TS_DESTROYED = []"

definition can_move :: "task_status \<Rightarrow> task_status \<Rightarrow> bool" where
  "can_move cur target = (target \<in> set (task_next cur))"

definition task_transition :: "task_status \<Rightarrow> task_status \<Rightarrow> exn + task_status" where
  "task_transition cur target =
    (if can_move cur target then Inr target
     else Inl (Raise TaskStateError (transition_message (task_status_value cur) (task_status_value target))))"

datatype dependency_type = DEP_AFTER | DEP_BEFORE | ALL_SUCCESS | ANY_SUCCESS | ALL_FAILED | ANY_FAILED | DEP_MANUAL

record task_dependency =
  dep_task :: string
  dep_type :: dependency_type

record new_task =
  kq_name :: string
  kq_workflows :: "string list"
  kq_variables :: dict
  kq_dependencies :: "task_dependency list"
  kq_timeout :: int
  kq_max_retries :: int
  kq_trace :: string
  kq_tags :: "string list"

record task_info =
  ki_id :: string
  ki_name :: string
  ki_tags :: "string list"

record task_result =
  kr_task :: string
  kr_status :: task_status
  kr_outputs :: "(string \<times> json) list"
  kr_retries :: nat
  kr_errors :: "string list"
  kr_trace :: string
  kr_retryable :: bool
  kr_failure :: "failure_info option"

record task_context =
  kc_variables :: dict
  kc_workflows :: "string list"

record task_checkpoint =
  kk_status :: task_status
  kk_index :: nat
  kk_completed :: "string list"
  kk_retries :: nat

text \<open>What the workflow runtime answers.\<close>

record workflow_answer =
  wk_completed :: bool
  wk_errors :: "string list"
  wk_outputs :: json

section \<open>Dependencies and plans\<close>

definition dependency_met :: "dependency_type \<Rightarrow> task_status \<Rightarrow> bool" where
  "dependency_met ty st =
    (case ty of
       DEP_AFTER \<Rightarrow> st \<in> {TS_COMPLETED, TS_FAILED, TS_CANCELLED, TS_TIMEOUT}
     | DEP_BEFORE \<Rightarrow> st = TS_CREATED
     | ALL_SUCCESS \<Rightarrow> st = TS_COMPLETED
     | ANY_SUCCESS \<Rightarrow> st = TS_COMPLETED
     | ALL_FAILED \<Rightarrow> st = TS_FAILED
     | ANY_FAILED \<Rightarrow> st = TS_FAILED
     | DEP_MANUAL \<Rightarrow> False)"

definition dependencies_met :: "task_dependency list \<Rightarrow> (string \<times> task_status) list \<Rightarrow> bool" where
  "dependencies_met deps statuses =
    list_all (\<lambda>d. case map_of statuses (dep_task d) of None \<Rightarrow> False | Some st \<Rightarrow> dependency_met (dep_type d) st) deps"

definition any_dependency_failed :: "task_dependency list \<Rightarrow> (string \<times> task_status) list \<Rightarrow> bool" where
  "any_dependency_failed deps statuses =
    list_ex (\<lambda>d. dep_type d \<in> {ALL_SUCCESS, ANY_SUCCESS} \<and> map_of statuses (dep_task d) = Some TS_FAILED) deps"

definition plan_workflows :: "new_task \<Rightarrow> string list" where
  "plan_workflows q =
    (if kq_dependencies q = [] then kq_workflows q
     else (let deps = map dep_task (kq_dependencies q);
               ordered = filter (\<lambda>w. w \<notin> set deps) (kq_workflows q) @ filter (\<lambda>w. w \<in> set deps) (kq_workflows q) in
           if ordered \<noteq> [] then ordered else kq_workflows q))"

section \<open>The runtime\<close>

record 'x task_runtime =
  tr_tasks :: "(string \<times> task_info) list"
  tr_statuses :: "(string \<times> task_status) list"
  tr_machines :: "task_status list"
  tr_machine_of :: "(string \<times> nat) list"
  tr_cancelled :: "(string \<times> bool) list"
  tr_contexts :: "(string \<times> task_context) list"
  tr_checkpoints :: "(string \<times> task_checkpoint) list"
  tr_initialized :: bool
  tr_ext :: 'x

type_synonym ('x, 'a) task_op = "'x task_runtime \<Rightarrow> (exn + 'a) \<times> 'x task_runtime"

record 'x task_env =
  kv_workflow :: "(string \<Rightarrow> string \<Rightarrow> int \<Rightarrow> ('x, workflow_answer) task_op) option"
  kv_publish :: "engine_event \<Rightarrow> ('x, unit) task_op"
  kv_san :: "string \<Rightarrow> string"
  kv_default_retries :: int
  kv_default_timeout :: int

definition announce :: "'x task_env \<Rightarrow> string \<Rightarrow> string \<Rightarrow> string \<Rightarrow> dict \<Rightarrow> ('x, unit) task_op" where
  "announce env topic i name extra =
    kv_publish env \<lparr>ev_topic = topic, ev_subject = str_or i ''task'', ev_agent = [], ev_session = [],
      ev_extra = (''task_name'', JStr name) # extra\<rparr>"

definition set_task_status :: "string \<Rightarrow> task_status \<Rightarrow> ('x, unit) task_op" where
  "set_task_status i st s =
    (if map_of (tr_tasks s) i = None then (Inl (Raise TaskNotFoundError (''Task not found: '' @ i)), s)
     else (Inr (), s\<lparr>tr_statuses := put i st (tr_statuses s)\<rparr>))"

definition get_task :: "string \<Rightarrow> ('x, task_info) task_op" where
  "get_task i s =
    ((case map_of (tr_tasks s) i of
        None \<Rightarrow> Inl (Raise TaskNotFoundError (''Task not found: '' @ i))
      | Some info \<Rightarrow> Inr info), s)"

definition machine_at :: "string \<Rightarrow> 'x task_runtime \<Rightarrow> nat option" where
  "machine_at i s = map_of (tr_machine_of s) i"

definition move_task :: "nat \<Rightarrow> task_status \<Rightarrow> ('x, unit) task_op" where
  "move_task a target s =
    (case task_transition (tr_machines s ! a) target of
       Inl e \<Rightarrow> (Inl e, s)
     | Inr st \<Rightarrow> (Inr (), s\<lparr>tr_machines := (tr_machines s)[a := st]\<rparr>))"

definition add_workflow :: "string \<Rightarrow> string \<Rightarrow> ('x, unit) task_op" where
  "add_workflow i w s =
    (Inr (), case map_of (tr_contexts s) i of
       None \<Rightarrow> s
     | Some c \<Rightarrow>
         if w \<in> set (kc_workflows c) then s
         else s\<lparr>tr_contexts := put i (c\<lparr>kc_workflows := kc_workflows c @ [w]\<rparr>) (tr_contexts s)\<rparr>)"

definition task_variables :: "new_task \<Rightarrow> dict" where
  "task_variables q =
    (let v = kq_variables q;
         w = (if kq_workflows q \<noteq> [] \<or> map_of v ''workflow_names'' = None
              then dict_set ''workflow_names'' (JArr (map JStr (kq_workflows q))) v else v) in
     dict_set ''_task_trace_id'' (JStr (kq_trace q))
       (dict_set ''_task_timeout'' (JInt (kq_timeout q)) (dict_set ''_task_max_retries'' (JInt (kq_max_retries q)) w)))"

text \<open>\<open>create_task\<close>; the identifier is the fresh \<open>uuid\<close>.\<close>

definition create_task :: "'x task_env \<Rightarrow> string \<Rightarrow> new_task \<Rightarrow> ('x, task_info) task_op" where
  "create_task env i q s =
    (let info = \<lparr>ki_id = i, ki_name = kq_name q, ki_tags = kq_tags q\<rparr>;
         s1 = s\<lparr>tr_tasks := put i info (tr_tasks s), tr_statuses := put i TS_CREATED (tr_statuses s),
                tr_machines := tr_machines s @ [TS_CREATED],
                tr_machine_of := put i (length (tr_machines s)) (tr_machine_of s),
                tr_contexts := put i \<lparr>kc_variables = task_variables q, kc_workflows = []\<rparr> (tr_contexts s)\<rparr> in
     bindS (announce env ''task.created'' i (kq_name q) []) (\<lambda>_. retS info) s1)"

subsection \<open>Running\<close>

text \<open>The plan of a run, from the variables of its context.\<close>

record task_plan =
  kp_start :: nat
  kp_retries :: nat
  kp_workflows :: "json list"
  kp_trace :: string
  kp_max_retries :: nat
  kp_timeout :: int

text \<open>\<open>list(v)\<close>; the two numbers are always there, since \<open>create_task\<close> puts them in.\<close>

definition list_of :: "json \<Rightarrow> exn + json list" where
  "list_of v =
    (case v of
       JArr xs \<Rightarrow> Inr xs
     | JStr s \<Rightarrow> Inr (map JStr (py_chars s))
     | JObj d \<Rightarrow> Inr (map (\<lambda>(k, v). JStr k) d)
     | _ \<Rightarrow> Inl (Raise TypeError ''object is not iterable''))"

definition int_variable :: "dict \<Rightarrow> string \<Rightarrow> int \<Rightarrow> int" where
  "int_variable v k d = (case map_of v k of Some (JInt n) \<Rightarrow> n | _ \<Rightarrow> d)"

definition read_plan :: "'x task_env \<Rightarrow> string \<Rightarrow> ('x, task_plan) task_op" where
  "read_plan env i s =
    (let v = (case map_of (tr_contexts s) i of None \<Rightarrow> [] | Some c \<Rightarrow> kc_variables c);
         k = map_of (tr_checkpoints s) i in
     (bindR (list_of (case map_of v ''workflow_names'' of None \<Rightarrow> JArr [] | Some w \<Rightarrow> w)) (\<lambda>ws. Inr
       \<lparr>kp_start = (case k of None \<Rightarrow> 0 | Some c \<Rightarrow> kk_index c), kp_retries = (case k of None \<Rightarrow> 0 | Some c \<Rightarrow> kk_retries c),
        kp_workflows = ws,
        kp_trace = (case map_of v ''_task_trace_id'' of Some (JStr t) \<Rightarrow> t | _ \<Rightarrow> []),
        kp_max_retries = nat (max 0 (int_variable v ''_task_max_retries'' (kv_default_retries env))),
        kp_timeout = max 1 (int_variable v ''_task_timeout'' (kv_default_timeout env))\<rparr>), s))"

definition failure_dict :: "string \<Rightarrow> failure_info \<Rightarrow> dict" where
  "failure_dict status f =
    [(''status'', JStr status), (''code'', JStr (fi_code f)), (''category'', JStr (category_value (fi_category f))),
     (''message'', JStr (fi_message f)), (''component'', JStr (fi_component f)), (''operation'', JStr (fi_operation f)),
     (''retryable'', JBool (fi_retryable f)), (''trace_id'', JStr (fi_trace_id f)),
     (''cause_type'', JStr (fi_cause_type f)), (''details'', JObj (fi_details f))]"

definition terminal_failure ::
  "'x task_env \<Rightarrow> task_info \<Rightarrow> nat \<Rightarrow> failure_info \<Rightarrow> task_status \<Rightarrow> nat \<Rightarrow> (string \<times> json) list \<Rightarrow>
   ('x, task_result) task_op" where
  "terminal_failure env info a f st retries outputs =
    bindS (move_task a st) (\<lambda>_.
    bindS (set_task_status (ki_id info) st) (\<lambda>_.
    bindS (announce env (if st = TS_TIMEOUT then ''task.timeout'' else ''task.failed'') (ki_id info) (ki_name info)
        (failure_dict ''failed'' f)) (\<lambda>_. retS
      \<lparr>kr_task = ki_id info, kr_status = st, kr_outputs = outputs, kr_retries = retries, kr_errors = [fi_message f],
       kr_trace = fi_trace_id f, kr_retryable = fi_retryable f, kr_failure = Some f\<rparr>)))"

definition plan_failure :: "string \<Rightarrow> error_category \<Rightarrow> string \<Rightarrow> string \<Rightarrow> string \<Rightarrow> failure_info" where
  "plan_failure code category message operation tr =
    \<lparr>fi_code = code, fi_category = category, fi_message = message, fi_component = ''task.runtime'',
     fi_operation = operation, fi_retryable = False, fi_trace_id = tr, fi_cause_type = [], fi_details = []\<rparr>"

fun join_text :: "string \<Rightarrow> string list \<Rightarrow> string" where
  "join_text sep [] = []"
| "join_text sep [x] = x"
| "join_text sep (x # xs) = x @ sep @ join_text sep xs"

text \<open>One attempt at a workflow: the body of the \<open>try\<close>.\<close>

definition attempt_workflow ::
  "(string \<Rightarrow> string \<Rightarrow> int \<Rightarrow> ('x, workflow_answer) task_op) \<Rightarrow> string \<Rightarrow> task_plan \<Rightarrow> json \<Rightarrow> (string \<times> json) list \<Rightarrow>
   ('x, (string \<times> json) list) task_op" where
  "attempt_workflow run i p w outputs =
    (case w of
       JStr name \<Rightarrow>
         bindS (run name (kp_trace p) (kp_timeout p)) (\<lambda>r.
           if \<not> wk_completed r
           then failS (Raise TaskExecutionError (str_or (join_text ''; '' (wk_errors r)) ''Workflow failed''))
           else bindS (add_workflow i name) (\<lambda>_. retS (put name (wk_outputs r) outputs)))
     | _ \<Rightarrow> failS (Raise ValidationError ''WorkflowRequest''))"

definition attempt_failure :: "'x task_env \<Rightarrow> string \<Rightarrow> json \<Rightarrow> nat \<Rightarrow> exn \<Rightarrow> failure_info \<times> task_status" where
  "attempt_failure env tr w attempt e =
    (let details = [(''workflow'', w), (''attempt'', JInt (int attempt))];
         f = (\<lambda>code category. failure_from_exception (kv_san env) e ''task.workflow'' ''execute'' tr
                (Some code) (Some category) (Some True) details) in
     if has_class [TimeoutError] e then (f ''task.workflow.timeout'' TIMEOUT, TS_TIMEOUT)
     else (f ''task.workflow.execution_failed'' DEPENDENCY_FAILURE, TS_FAILED))"

text \<open>
  The loop over the attempts, \<open>rest\<close> of them left after this one.  It ends with the outputs, or with
  the failure of the last attempt.
\<close>

primrec attempts ::
  "'x task_env \<Rightarrow> (string \<Rightarrow> string \<Rightarrow> int \<Rightarrow> ('x, workflow_answer) task_op) \<Rightarrow> task_info \<Rightarrow> task_plan \<Rightarrow> json \<Rightarrow>
   nat \<Rightarrow> nat \<Rightarrow> nat \<Rightarrow> (string \<times> json) list \<Rightarrow>
   ('x, (failure_info \<times> task_status + (string \<times> json) list) \<times> nat) task_op" where
  "attempts env run info p w 0 n retries outputs =
     catchS (bindS (attempt_workflow run (ki_id info) p w outputs) (\<lambda>out. retS (Inr out, retries)))
       (\<lambda>e. if is_exception e then retS (Inl (attempt_failure env (kp_trace p) w n e), retries) else failS e)"
| "attempts env run info p w (Suc rest) n retries outputs =
     catchS (bindS (attempt_workflow run (ki_id info) p w outputs) (\<lambda>out. retS (Inr out, retries)))
       (\<lambda>e. if is_exception e
         then bindS (announce env ''task.retry'' (ki_id info) (ki_name info)
             (failure_dict ''retrying'' (fst (attempt_failure env (kp_trace p) w n e)) @
              [(''workflow'', w), (''attempt'', JInt (int n)), (''next_attempt'', JInt (int n + 1)),
               (''max_attempts'', JInt (int (kp_max_retries p) + 1))]))
           (\<lambda>_. attempts env run info p w rest (n + 1) (retries + 1) outputs)
         else failS e)"

definition store_task_checkpoint :: "task_info \<Rightarrow> nat \<Rightarrow> nat \<Rightarrow> nat \<Rightarrow> (string \<times> json) list \<Rightarrow> ('x, unit) task_op" where
  "store_task_checkpoint info a n retries outputs s =
    set_task_status (ki_id info) (tr_machines s ! a)
      (s\<lparr>tr_checkpoints := put (ki_id info)
          \<lparr>kk_status = tr_machines s ! a, kk_index = n, kk_completed = map fst outputs, kk_retries = retries\<rparr>
          (tr_checkpoints s)\<rparr>)"

definition cancelled_result :: "task_info \<Rightarrow> string \<Rightarrow> task_result" where
  "cancelled_result info tr =
    \<lparr>kr_task = ki_id info, kr_status = TS_CANCELLED, kr_outputs = [], kr_retries = 0, kr_errors = [], kr_trace = tr,
     kr_retryable = False, kr_failure = None\<rparr>"

definition run_cancelled :: "'x task_env \<Rightarrow> task_info \<Rightarrow> nat \<Rightarrow> string \<Rightarrow> ('x, task_result) task_op" where
  "run_cancelled env info a tr =
    bindS (move_task a TS_CANCELLED) (\<lambda>_.
    bindS (set_task_status (ki_id info) TS_CANCELLED) (\<lambda>_.
    bindS (announce env ''task.cancelled'' (ki_id info) (ki_name info) []) (\<lambda>_. retS (cancelled_result info tr))))"

definition run_completed ::
  "'x task_env \<Rightarrow> task_info \<Rightarrow> nat \<Rightarrow> task_plan \<Rightarrow> nat \<Rightarrow> (string \<times> json) list \<Rightarrow> ('x, task_result) task_op" where
  "run_completed env info a p retries outputs =
    bindS (move_task a TS_COMPLETED) (\<lambda>_.
    bindS (set_task_status (ki_id info) TS_COMPLETED) (\<lambda>_.
    bindS (announce env ''task.completed'' (ki_id info) (ki_name info) []) (\<lambda>_. retS
      \<lparr>kr_task = ki_id info, kr_status = TS_COMPLETED, kr_outputs = outputs, kr_retries = retries, kr_errors = [],
       kr_trace = kp_trace p, kr_retryable = False, kr_failure = None\<rparr>)))"

text \<open>The loop over the workflows, from index \<open>n\<close> on.\<close>

primrec run_workflows ::
  "'x task_env \<Rightarrow> (string \<Rightarrow> string \<Rightarrow> int \<Rightarrow> ('x, workflow_answer) task_op) \<Rightarrow> task_info \<Rightarrow> nat \<Rightarrow> task_plan \<Rightarrow>
   json list \<Rightarrow> nat \<Rightarrow> nat \<Rightarrow> (string \<times> json) list \<Rightarrow> ('x, task_result) task_op" where
  "run_workflows env run info a p [] n retries outputs = run_completed env info a p retries outputs"
| "run_workflows env run info a p (w # ws) n retries outputs = (\<lambda>s.
     if map_of (tr_cancelled s) (ki_id info) = Some True then run_cancelled env info a (kp_trace p) s
     else bindS (attempts env run info p w (kp_max_retries p) 1 retries outputs) (\<lambda>(r, retries').
       case r of
         Inl (f, st) \<Rightarrow> terminal_failure env info a f st retries' outputs
       | Inr out \<Rightarrow>
           bindS (store_task_checkpoint info a (n + 1) retries' out)
             (\<lambda>_. run_workflows env run info a p ws (n + 1) retries' out)) s)"

definition task_body :: "'x task_env \<Rightarrow> task_info \<Rightarrow> nat \<Rightarrow> ('x, task_result) task_op" where
  "task_body env info a =
    bindS (read_plan env (ki_id info)) (\<lambda>p.
      if kp_workflows p = []
      then terminal_failure env info a
        (plan_failure ''task.plan.empty'' VALIDATION ''Task execution plan is empty'' ''plan'' (kp_trace p))
        TS_FAILED (kp_retries p) []
      else case kv_workflow env of
        None \<Rightarrow> terminal_failure env info a
          (plan_failure ''task.workflow.not_configured'' NOT_CONFIGURED ''WorkflowRuntime is not configured''
             ''workflow.execute'' (kp_trace p)) TS_FAILED (kp_retries p) []
      | Some run \<Rightarrow>
          run_workflows env run info a p (drop (kp_start p) (kp_workflows p)) (kp_start p) (kp_retries p) [])"

text \<open>From the state \<open>READY\<close> on.\<close>

definition run_ready :: "'x task_env \<Rightarrow> string \<Rightarrow> task_info \<Rightarrow> nat \<Rightarrow> ('x, task_result) task_op" where
  "run_ready env i info a =
    bindS (set_task_status i TS_READY) (\<lambda>_.
    bindS (announce env ''task.started'' (ki_id info) (ki_name info) []) (\<lambda>_.
    bindS (move_task a TS_RUNNING) (\<lambda>_.
    bindS (set_task_status i TS_RUNNING) (\<lambda>_.
    bindS (announce env ''task.running'' (ki_id info) (ki_name info) []) (\<lambda>_.
      task_body env info a)))))"

definition task_run :: "'x task_env \<Rightarrow> string \<Rightarrow> ('x, task_result) task_op" where
  "task_run env i =
    bindS (get_task i) (\<lambda>info s.
      case machine_at (ki_id info) s of
        None \<Rightarrow> (Inl (Raise KeyError (ki_id info)), s)
      | Some a \<Rightarrow> bindS (move_task a TS_READY) (\<lambda>_. run_ready env i info a) s)"

subsection \<open>Controlling\<close>

definition move_and_tell :: "'x task_env \<Rightarrow> nat \<Rightarrow> task_status \<Rightarrow> bool \<Rightarrow> string \<Rightarrow> string \<Rightarrow> ('x, bool) task_op" where
  "move_and_tell env a st stored topic i =
    bindS (move_task a st) (\<lambda>_.
    bindS (if stored then set_task_status i st else retS ()) (\<lambda>_.
    bindS (announce env topic i [] []) (\<lambda>_. retS True)))"

definition task_pause :: "'x task_env \<Rightarrow> string \<Rightarrow> ('x, bool) task_op" where
  "task_pause env i s =
    (case machine_at i s of
       None \<Rightarrow> (Inr False, s)
     | Some a \<Rightarrow>
         if \<not> can_move (tr_machines s ! a) TS_PAUSED then (Inr False, s)
         else move_and_tell env a TS_PAUSED True ''task.paused'' i s)"

definition task_resume :: "'x task_env \<Rightarrow> string \<Rightarrow> ('x, bool) task_op" where
  "task_resume env i s =
    (case machine_at i s of
       None \<Rightarrow> (Inr False, s)
     | Some a \<Rightarrow>
         if tr_machines s ! a \<noteq> TS_PAUSED then (Inr False, s)
         else move_and_tell env a TS_RUNNING True ''task.resumed'' i s)"

definition task_cancel :: "'x task_env \<Rightarrow> string \<Rightarrow> ('x, bool) task_op" where
  "task_cancel env i s =
    (let s1 = s\<lparr>tr_cancelled := put i True (tr_cancelled s)\<rparr> in
     case machine_at i s1 of
       None \<Rightarrow> bindS (announce env ''task.cancelled'' i [] []) (\<lambda>_. retS True) s1
     | Some a \<Rightarrow> move_and_tell env a TS_CANCELLED True ''task.cancelled'' i s1)"

definition task_retry :: "'x task_env \<Rightarrow> string \<Rightarrow> ('x, bool) task_op" where
  "task_retry env i s =
    (case machine_at i s of
       None \<Rightarrow> (Inr False, s)
     | Some a \<Rightarrow>
         if \<not> can_move (tr_machines s ! a) TS_RETRYING then (Inr False, s)
         else move_and_tell env a TS_RETRYING False ''task.retry'' i s)"

definition task_destroy :: "'x task_env \<Rightarrow> string \<Rightarrow> ('x, bool) task_op" where
  "task_destroy env i s =
    bindS (announce env ''task.destroyed'' i [] []) (\<lambda>_. retS True)
      (s\<lparr>tr_cancelled := pop i (tr_cancelled s), tr_machine_of := pop i (tr_machine_of s),
         tr_contexts := pop i (tr_contexts s), tr_checkpoints := pop i (tr_checkpoints s),
         tr_statuses := pop i (tr_statuses s), tr_tasks := pop i (tr_tasks s)\<rparr>)"

definition task_query :: "string \<Rightarrow> ('x, task_info option) task_op" where
  "task_query i s = (Inr (map_of (tr_tasks s) i), s)"

definition task_runtime_open :: "'x task_runtime \<Rightarrow> 'x task_runtime" where
  "task_runtime_open s = s\<lparr>tr_initialized := True\<rparr>"

text \<open>Only tasks that already have a flag are flagged.\<close>

definition task_runtime_shutdown :: "'x task_runtime \<Rightarrow> 'x task_runtime" where
  "task_runtime_shutdown s =
    s\<lparr>tr_cancelled := map (\<lambda>(i, b). (i, True)) (tr_cancelled s), tr_initialized := False\<rparr>"

definition search_tasks :: "string \<Rightarrow> string \<Rightarrow> 'x task_runtime \<Rightarrow> task_info list" where
  "search_tasks tag pattern s =
    filter (\<lambda>t. (tag = [] \<or> tag \<in> set (ki_tags t)) \<and>
        (pattern = [] \<or> has_substring (py_lower pattern) (py_lower (ki_name t)))) (map snd (tr_tasks s))"

record task_statistics =
  sx_total :: nat
  sx_active :: nat
  sx_completed :: nat
  sx_failed :: nat
  sx_paused :: nat

definition task_stats :: "'x task_runtime \<Rightarrow> task_statistics" where
  "task_stats s =
    (let n = (\<lambda>P. length (filter (P \<circ> snd) (tr_statuses s))) in
     \<lparr>sx_total = length (tr_tasks s), sx_active = n (\<lambda>st. st = TS_RUNNING \<or> st = TS_WAITING),
      sx_completed = n (\<lambda>st. st = TS_COMPLETED), sx_failed = n (\<lambda>st. st = TS_FAILED), sx_paused = n (\<lambda>st. st = TS_PAUSED)\<rparr>)"

end
