(* ===== verification/Task_Properties.thy ===== *)
theory Task_Properties
  imports Task_Runtime
begin

text \<open>
  What the task runtime promises: a task runs at most once in its life, whatever is done to it and
  whatever runs while its workflows wait; how many attempts its workflows get and what comes of them;
  and that a run never survives the cancellation of its task.
\<close>

section \<open>Histories of state machines\<close>

definition moves_to :: "task_status \<Rightarrow> task_status \<Rightarrow> bool" where
  "moves_to = can_move\<^sup>*\<^sup>*"

lemma moves_to_refl [simp]: "moves_to st st"
  by (simp add: moves_to_def)

lemma moves_to_trans: "moves_to a b \<Longrightarrow> moves_to b c \<Longrightarrow> moves_to a c"
  unfolding moves_to_def by (rule rtranclp_trans)

lemma can_move_moves: "can_move a b \<Longrightarrow> moves_to a b"
  unfolding moves_to_def by blast

lemma never_created: "can_move a b \<Longrightarrow> b \<noteq> TS_CREATED"
  by (cases a) (auto simp: can_move_def)

lemma moves_to_created: "moves_to a TS_CREATED \<Longrightarrow> a = TS_CREATED"
  unfolding moves_to_def by (erule rtranclp.cases) (auto dest: never_created)

lemma moves_from_cancelled: "moves_to a b \<Longrightarrow> a \<in> {TS_CANCELLED, TS_DESTROYED} \<Longrightarrow> b \<in> {TS_CANCELLED, TS_DESTROYED}"
  unfolding moves_to_def by (induction rule: rtranclp_induct) (auto simp: can_move_def)

text \<open>
  What other operations may do to the runtime while a run of task \<open>i\<close> waits: machines move along
  the table, and task \<open>i\<close> keeps its entry and its machine or loses them for good.
\<close>

definition task_moves :: "string \<Rightarrow> 'x task_runtime \<Rightarrow> 'x task_runtime \<Rightarrow> bool" where
  "task_moves i s s' =
    (length (tr_machines s) \<le> length (tr_machines s') \<and>
     (\<forall>a < length (tr_machines s). moves_to (tr_machines s ! a) (tr_machines s' ! a)) \<and>
     machine_at i s' \<in> {machine_at i s, None} \<and>
     map_of (tr_tasks s') i \<in> {map_of (tr_tasks s) i, None})"

interpretation task_motion: motion "task_moves i" for i
  by unfold_locales (auto simp: task_moves_def intro: moves_to_trans)

lemma task_moves_same: "tr_machines s' = tr_machines s \<Longrightarrow> machine_at i s' \<in> {machine_at i s, None} \<Longrightarrow>
    map_of (tr_tasks s') i \<in> {map_of (tr_tasks s) i, None} \<Longrightarrow> task_moves i s s'"
  by (simp add: task_moves_def)

definition polite :: "string \<Rightarrow> 'x task_env \<Rightarrow> bool" where
  "polite i env =
    ((\<forall>ev. movesS (task_moves i) (kv_publish env ev)) \<and>
     (\<forall>run. kv_workflow env = Some run \<longrightarrow> (\<forall>n t l. movesS (task_moves i) (run n t l))))"

named_theorems task_frame

lemmas [task_frame] = task_motion.moves_rules

lemma update_moves: "can_move (xs ! a) st \<Longrightarrow> b < length xs \<Longrightarrow> moves_to (xs ! b) (xs[a := st] ! b)"
  by (cases "a = b") (simp_all add: can_move_moves)

lemma moves_move_task [task_frame]: "movesS (task_moves i) (move_task a st)"
  by (auto simp: movesS_def move_task_def task_transition_def task_moves_def machine_at_def update_moves)

lemma moves_workflow: "polite i env \<Longrightarrow> kv_workflow env = Some run \<Longrightarrow> movesS (task_moves i) (run n t l)"
  by (simp add: polite_def)

lemma moves_set_status [task_frame]: "movesS (task_moves i) (set_task_status j st)"
  by (auto simp: movesS_def set_task_status_def machine_at_def intro!: task_moves_same)

lemma moves_get_task [task_frame]: "movesS (task_moves i) (get_task j)"
  by (auto simp: movesS_def get_task_def intro!: task_moves_same)

lemma moves_add_workflow [task_frame]: "movesS (task_moves i) (add_workflow j w)"
  by (auto simp: movesS_def add_workflow_def machine_at_def intro!: task_moves_same split: option.split)

lemma moves_read_plan [task_frame]: "movesS (task_moves i) (read_plan env j)"
  by (simp add: movesS_def read_plan_def Let_def task_motion.refl)

lemma moves_store_checkpoint [task_frame]: "movesS (task_moves i) (store_task_checkpoint info a n r out)"
  by (auto simp: movesS_def store_task_checkpoint_def set_task_status_def machine_at_def intro!: task_moves_same)

lemma moves_announce [task_frame]: "polite i env \<Longrightarrow> movesS (task_moves i) (announce env topic j name extra)"
  by (simp add: polite_def announce_def)

lemma moves_terminal [task_frame]: "polite i env \<Longrightarrow> movesS (task_moves i) (terminal_failure env info a f st r out)"
  unfolding terminal_failure_def by (intro task_frame)

lemma moves_completed [task_frame]: "polite i env \<Longrightarrow> movesS (task_moves i) (run_completed env info a p r out)"
  unfolding run_completed_def by (intro task_frame)

lemma moves_run_cancelled [task_frame]: "polite i env \<Longrightarrow> movesS (task_moves i) (run_cancelled env info a tr)"
  unfolding run_cancelled_def by (intro task_frame)

lemma moves_attempt [task_frame]:
  "(\<And>n t l. movesS (task_moves i) (run n t l)) \<Longrightarrow> movesS (task_moves i) (attempt_workflow run j p w out)"
  unfolding attempt_workflow_def by (cases w) (auto intro!: task_frame)

lemma moves_attempts [task_frame]:
  assumes "polite i env" "\<And>n t l. movesS (task_moves i) (run n t l)"
  shows "movesS (task_moves i) (attempts env run info p w rest n r out)"
  using assms by (induction rest arbitrary: n r) (simp_all, (intro task_frame; simp)+)

lemma moves_run_workflows [task_frame]:
  assumes "polite i env" "\<And>n t l. movesS (task_moves i) (run n t l)"
  shows "movesS (task_moves i) (run_workflows env run info a p ws n r out)"
proof (induction ws arbitrary: n r out)
  case (Cons w ws)
  have "movesS (task_moves i) (case x of Inl (f, st) \<Rightarrow> terminal_failure env info a f st r' out
      | Inr out' \<Rightarrow> bindS (store_task_checkpoint info a (n + 1) r' out') (\<lambda>_. run_workflows env run info a p ws (n + 1) r' out'))"
    for x r'
    using assms Cons.IH by (cases x) (auto intro!: task_frame)
  then have "movesS (task_moves i) (bindS (attempts env run info p w (kp_max_retries p) 1 r out) (\<lambda>(x, r').
      case x of Inl (f, st) \<Rightarrow> terminal_failure env info a f st r' out
      | Inr out' \<Rightarrow> bindS (store_task_checkpoint info a (n + 1) r' out') (\<lambda>_. run_workflows env run info a p ws (n + 1) r' out')))"
    using assms by (intro task_motion.moves_bind moves_attempts) auto
  moreover have "movesS (task_moves i) (run_cancelled env info a (kp_trace p))" using assms by (intro task_frame)
  ultimately show ?case by (simp add: movesS_def)
qed (use assms in \<open>simp add: moves_completed\<close>)

lemma moves_body [task_frame]:
  assumes "polite i env"
  shows "movesS (task_moves i) (task_body env info a)"
proof (cases "kv_workflow env")
  case None
  show ?thesis unfolding task_body_def None option.case by (intro task_frame assms)
next
  case (Some run)
  show ?thesis
    unfolding task_body_def Some option.case by (intro task_frame assms moves_workflow [OF assms Some])
qed

lemma moves_ready [task_frame]: "polite i env \<Longrightarrow> movesS (task_moves i) (run_ready env j info a)"
  unfolding run_ready_def by (intro task_frame)

text \<open>A run starts by leaving \<open>CREATED\<close>; otherwise it is refused and changes nothing.\<close>

lemma ready_only_created [simp]: "can_move st TS_READY \<longleftrightarrow> st = TS_CREATED"
  by (cases st) (simp_all add: can_move_def)

lemma task_run_cases:
  "task_run env i s =
    (case map_of (tr_tasks s) i of
       None \<Rightarrow> (Inl (Raise TaskNotFoundError (''Task not found: '' @ i)), s)
     | Some info \<Rightarrow>
         (case machine_at (ki_id info) s of
            None \<Rightarrow> (Inl (Raise KeyError (ki_id info)), s)
          | Some a \<Rightarrow>
              if tr_machines s ! a = TS_CREATED
              then run_ready env i info a (s\<lparr>tr_machines := (tr_machines s)[a := TS_READY]\<rparr>)
              else (Inl (Raise TaskStateError (transition_message (task_status_value (tr_machines s ! a)) ''ready'')), s)))"
  by (simp add: task_run_def bindS_run get_task_def move_task_def task_transition_def split: option.split)

lemma moves_run [task_frame]:
  assumes "polite i env"
  shows "movesS (task_moves i) (task_run env j)"
proof -
  have "movesS (task_moves i) (bindS (move_task a TS_READY) (\<lambda>_. run_ready env j info a))" for info a
    using assms by (intro task_frame)
  then show ?thesis
    unfolding task_run_def
    by (intro task_motion.moves_bind moves_get_task) (simp add: movesS_def task_motion.refl split: option.split)
qed

section \<open>Requests\<close>

datatype task_op_request =
    Create_Task_Run string new_task | Run_Task string | Pause_Task string | Resume_Task string | Cancel_Task_Run string
  | Retry_Task string | Destroy_Task string | Query_Task string | Open_Runtime | Shut_Runtime

fun task_do :: "'x task_env \<Rightarrow> task_op_request \<Rightarrow> 'x task_runtime \<Rightarrow> 'x task_runtime" where
  "task_do env (Create_Task_Run i q) s = snd (create_task env i q s)"
| "task_do env (Run_Task i) s = snd (task_run env i s)"
| "task_do env (Pause_Task i) s = snd (task_pause env i s)"
| "task_do env (Resume_Task i) s = snd (task_resume env i s)"
| "task_do env (Cancel_Task_Run i) s = snd (task_cancel env i s)"
| "task_do env (Retry_Task i) s = snd (task_retry env i s)"
| "task_do env (Destroy_Task i) s = snd (task_destroy env i s)"
| "task_do env (Query_Task i) s = snd (task_query i s)"
| "task_do env Open_Runtime s = task_runtime_open s"
| "task_do env Shut_Runtime s = task_runtime_shutdown s"

text \<open>Identifiers are fresh: no request creates \<open>i\<close> again.\<close>

fun creates :: "task_op_request \<Rightarrow> string option" where
  "creates (Create_Task_Run i q) = Some i"
| "creates _ = None"

lemma moves_then: "task_moves i s t \<Longrightarrow> movesS (task_moves i) m \<Longrightarrow> task_moves i s (snd (m t))"
  unfolding movesS_def by (blast intro: task_motion.trans)

lemma moves_announced:
  "polite i env \<Longrightarrow> task_moves i s t \<Longrightarrow> task_moves i s (snd (bindS (announce env topic j name extra) (\<lambda>_. retS x) t))"
  by (rule moves_then) (auto intro!: task_frame)

lemma moves_move_and_tell [task_frame]: "polite i env \<Longrightarrow> movesS (task_moves i) (move_and_tell env a st b topic j)"
  unfolding move_and_tell_def by (intro task_frame)

lemma task_do_moves:
  assumes "polite i env" "creates rq \<noteq> Some i"
  shows "task_moves i s (task_do env rq s)"
proof (cases rq)
  case (Create_Task_Run j q)
  with assms(2) have "j \<noteq> i" by simp
  then have "task_moves i s (s\<lparr>tr_tasks := put j info (tr_tasks s), tr_statuses := put j TS_CREATED (tr_statuses s),
      tr_machines := tr_machines s @ [TS_CREATED], tr_machine_of := put j (length (tr_machines s)) (tr_machine_of s),
      tr_contexts := put j c (tr_contexts s)\<rparr>)" for info c
    by (simp add: task_moves_def machine_at_def nth_append)
  with Create_Task_Run show ?thesis by (simp add: create_task_def Let_def moves_announced [OF assms(1)])
next
  case (Run_Task j)
  then show ?thesis using moves_run [OF assms(1), of j] by (simp add: movesS_def)
next
  case (Destroy_Task j)
  have "task_moves i s (s\<lparr>tr_cancelled := pop j (tr_cancelled s), tr_machine_of := pop j (tr_machine_of s),
         tr_contexts := pop j (tr_contexts s), tr_checkpoints := pop j (tr_checkpoints s),
         tr_statuses := pop j (tr_statuses s), tr_tasks := pop j (tr_tasks s)\<rparr>)"
    by (simp add: task_moves_def machine_at_def)
  with Destroy_Task show ?thesis by (simp add: task_destroy_def moves_announced [OF assms(1)])
next
  case (Cancel_Task_Run j)
  have "task_moves i s (s\<lparr>tr_cancelled := put j True (tr_cancelled s)\<rparr>)"
    by (simp add: task_moves_def machine_at_def)
  with Cancel_Task_Run moves_then [OF this moves_move_and_tell [OF assms(1)]] show ?thesis
    by (simp add: task_cancel_def Let_def moves_announced [OF assms(1)] split: option.split)
qed (use moves_move_and_tell [OF assms(1)] task_motion.refl in
      \<open>auto simp: movesS_def task_pause_def task_resume_def task_retry_def task_query_def task_runtime_open_def
        task_runtime_shutdown_def task_moves_def machine_at_def split: option.split\<close>)

text \<open>Machines are where the runtime says they are.\<close>

definition machine_ok :: "string \<Rightarrow> 'x task_runtime \<Rightarrow> bool" where
  "machine_ok i s = (case machine_at i s of None \<Rightarrow> True | Some a \<Rightarrow> a < length (tr_machines s))"

section \<open>A task runs once\<close>

definition spent :: "string \<Rightarrow> 'x task_runtime \<Rightarrow> bool" where
  "spent i s = (case machine_at i s of None \<Rightarrow> True
     | Some a \<Rightarrow> a < length (tr_machines s) \<and> tr_machines s ! a \<noteq> TS_CREATED)"

lemma spent_moves: "spent i s \<Longrightarrow> task_moves i s s' \<Longrightarrow> spent i s'"
  by (auto simp: spent_def task_moves_def split: option.splits) (metis moves_to_created)+

lemma spent_refused:
  assumes "spent i s" "\<forall>info. map_of (tr_tasks s) i = Some info \<longrightarrow> ki_id info = i"
  shows "\<exists>e. task_run env i s = (Inl e, s)"
  using assms by (auto simp: task_run_cases spent_def split: option.split)

lemma spent_after_run:
  assumes "polite i env" "machine_ok i s" "map_of (tr_tasks s) i = Some info" "ki_id info = i"
  shows "spent i (snd (task_run env i s))"
proof (cases "\<exists>a. machine_at i s = Some a \<and> tr_machines s ! a = TS_CREATED")
  case True
  then obtain a where a: "machine_at i s = Some a" "tr_machines s ! a = TS_CREATED" by blast
  let ?s1 = "s\<lparr>tr_machines := (tr_machines s)[a := TS_READY]\<rparr>"
  have "spent i ?s1" using assms(2) a by (simp add: spent_def machine_ok_def machine_at_def)
  with moves_ready [OF assms(1), of i info a] a assms(3,4) show ?thesis
    unfolding movesS_def by (auto simp: task_run_cases intro: spent_moves)
next
  case False
  with assms(2) have "spent i s" by (auto simp: spent_def machine_ok_def split: option.splits)
  with moves_run [OF assms(1)] show ?thesis unfolding movesS_def by (blast intro: spent_moves)
qed

text \<open>C27: a task runs at most once.  Whatever happens during and after its first run (pauses, retries,
  resumptions, runs of other tasks), a later run is refused and changes nothing.\<close>

theorem task_runs_once:
  assumes "polite i env" "machine_ok i s" "\<forall>info. map_of (tr_tasks s) i = Some info \<longrightarrow> ki_id info = i"
    and "\<forall>rq \<in> set rqs. creates rq \<noteq> Some i"
  shows "\<exists>e. task_run env i (fold (task_do env) rqs (snd (task_run env i s))) =
    (Inl e, fold (task_do env) rqs (snd (task_run env i s)))"
proof -
  let ?s1 = "snd (task_run env i s)"
  have moved: "task_moves i t (fold (task_do env) rqs t)" for t
    using assms(4)
  proof (induction rqs arbitrary: t)
    case (Cons rq rqs)
    with task_do_moves [OF assms(1), of rq t] show ?case by (auto intro: task_motion.trans)
  qed (simp add: task_motion.refl)
  have first: "task_moves i s ?s1" using moves_run [OF assms(1)] by (simp add: movesS_def)
  note both = task_motion.trans [OF first moved]
  show ?thesis
  proof (cases "map_of (tr_tasks s) i")
    case None
    with both have "map_of (tr_tasks (fold (task_do env) rqs ?s1)) i = None" by (simp add: task_moves_def)
    then show ?thesis by (simp add: task_run_cases)
  next
    case (Some info)
    with assms(3) spent_after_run [OF assms(1,2)] have "spent i ?s1" by blast
    from spent_refused [OF spent_moves [OF this moved]] both assms(3) show ?thesis
      by (auto simp: task_moves_def)
  qed
qed

section \<open>Cancelled while it runs\<close>

definition dead :: "nat \<Rightarrow> 'x task_runtime \<Rightarrow> bool" where
  "dead a s = (a < length (tr_machines s) \<and> tr_machines s ! a \<in> {TS_CANCELLED, TS_DESTROYED})"

lemma dead_moves: "dead a s \<Longrightarrow> task_moves i s s' \<Longrightarrow> dead a s'"
  using moves_from_cancelled [of "tr_machines s ! a" "tr_machines s' ! a"] by (auto simp: dead_def task_moves_def)

lemma dead_refuses: "dead a s \<Longrightarrow> st \<noteq> TS_DESTROYED \<Longrightarrow> \<exists>e. move_task a st s = (Inl e, s)"
  by (auto simp: dead_def move_task_def task_transition_def can_move_def)

lemma dead_bind: "dead a s \<Longrightarrow> st \<noteq> TS_DESTROYED \<Longrightarrow> \<exists>e. bindS (move_task a st) f s = (Inl e, s)"
  using dead_refuses [of a s st] by (auto simp: bindS_run)

lemma dead_ends:
  assumes "dead a s"
  shows "\<exists>e. run_completed env info a p r out s = (Inl e, s)" "\<exists>e. run_cancelled env info a tr s = (Inl e, s)"
    "st \<noteq> TS_DESTROYED \<Longrightarrow> \<exists>e. terminal_failure env info a f st r out s = (Inl e, s)"
  unfolding run_completed_def run_cancelled_def terminal_failure_def
  by (rule dead_bind [OF assms], simp)+

lemma attempt_status: "snd (attempt_failure env tr w n e) \<in> {TS_TIMEOUT, TS_FAILED}"
  by (simp add: attempt_failure_def Let_def)

text \<open>How the loop over the attempts ends: by a failure only with one of two states.\<close>

lemma attempts_status:
  "attempts env run info p w rest n r out s = (Inr (Inl (f, st), r'), s') \<Longrightarrow> st \<in> {TS_TIMEOUT, TS_FAILED}"
proof (induction rest arbitrary: n r s)
  case 0
  then show ?case using attempt_status [of env "kp_trace p" w n]
    by (auto simp: catchS_Inr bindS_Inr retS_def failS_def split: if_splits) (metis snd_conv)+
next
  case (Suc rest)
  then show ?case by (auto simp: catchS_Inr bindS_Inr retS_def failS_def split: if_splits)
qed

lemma attempts_after_run:
  assumes "polite i env" "\<And>n t l. movesS (task_moves i) (run n t l)"
  shows "task_moves i (snd (run name (kp_trace p) (kp_timeout p) s))
    (snd (attempts env run info p (JStr name) rest n r out s))"
proof -
  have one: "task_moves i (snd (run name (kp_trace p) (kp_timeout p) s)) (snd (attempt_workflow run j p (JStr name) out s))" for j
    unfolding attempt_workflow_def by (simp, rule task_motion.after_bind) (auto intro!: task_frame)
  let ?m = "bindS (attempt_workflow run (ki_id info) p (JStr name) out)
    (\<lambda>out. retS (Inr out :: failure_info \<times> task_status + (string \<times> json) list, r))"
  have tried: "task_moves i (snd (attempt_workflow run (ki_id info) p (JStr name) out s)) (snd (?m s))"
    by (rule task_motion.after_bind) (auto intro!: task_frame)
  note after = task_motion.after_catch [where m = ?m and s = s and i = i]
  have "task_moves i (snd (?m s)) (snd (attempts env run info p (JStr name) rest n r out s))"
  proof (cases rest)
    case 0
    show ?thesis unfolding 0 attempts.simps by (rule after) (intro task_frame assms)
  next
    case (Suc k)
    show ?thesis unfolding Suc attempts.simps by (rule after) (intro task_frame assms)
  qed
  from task_motion.trans [OF task_motion.trans [OF one tried] this] show ?thesis .
qed

lemma dead_after_attempts:
  assumes att: "attempts env run info p w (kp_max_retries p) 1 r out s = (x, s1)" and "dead a s1"
    and flag: "map_of (tr_cancelled s) (ki_id info) \<noteq> Some True"
    and rest: "\<And>n r out u. dead a u \<Longrightarrow> \<exists>e u'. run_workflows env run info a p ws n r out u = (Inl e, u')"
  shows "\<exists>e s'. run_workflows env run info a p (w # ws) n r out s = (Inl e, s')"
proof (cases x)
  case (Inl e)
  with att flag show ?thesis by (simp add: bindS_run)
next
  case (Inr y)
  obtain z r' where y: "y = (z, r')" by fastforce
  show ?thesis
  proof (cases z)
    case (Inl fs)
    obtain f st where fs: "fs = (f, st)" by fastforce
    then have "st \<noteq> TS_DESTROYED" using attempts_status att Inr y Inl by fastforce
    from dead_ends(3) [OF \<open>dead a s1\<close> this] att flag Inr y Inl fs show ?thesis by (fastforce simp: bindS_run)
  next
    case (Inr out')
    obtain q s2 where st: "store_task_checkpoint info a (n + 1) r' out' s1 = (q, s2)" by fastforce
    then have "dead a s2" using dead_moves [OF \<open>dead a s1\<close> movesSD [OF moves_store_checkpoint]] by blast
    from rest [OF this] st att flag \<open>x = Inr y\<close> y Inr show ?thesis by (cases q) (auto simp: bindS_run)
  qed
qed

lemma dead_workflows:
  assumes "polite i env" "\<And>n t l. movesS (task_moves i) (run n t l)" "dead a s"
  shows "\<exists>e s'. run_workflows env run info a p ws n r out s = (Inl e, s')"
  using assms(3)
proof (induction ws arbitrary: n r out s)
  case Nil
  then show ?case using dead_ends(1) by fastforce
next
  case (Cons w ws)
  let ?att = "attempts env run info p w (kp_max_retries p) 1 r out"
  show ?case
  proof (cases "map_of (tr_cancelled s) (ki_id info) = Some True")
    case True
    with dead_ends(2) [OF Cons.prems, of env info "kp_trace p"] show ?thesis by auto
  next
    case False
    obtain x s1 where att: "?att s = (x, s1)" by fastforce
    have "movesS (task_moves i) ?att" by (intro moves_attempts assms)
    from dead_moves [OF Cons.prems movesSD [OF this att]] have "dead a s1" .
    from dead_after_attempts [OF att this False] Cons.IH show ?thesis by blast
  qed
qed

text \<open>The first run of a task that has just been created, on a quiet bus, up to its first workflow.\<close>

definition quiet_bus :: "'x task_env \<Rightarrow> bool" where
  "quiet_bus env = (\<forall>ev s. kv_publish env ev s = (Inr (), s))"

lemma quiet_announce [simp]: "quiet_bus env \<Longrightarrow> announce env topic j name extra s = (Inr (), s)"
  by (simp add: quiet_bus_def announce_def)

definition created_plan :: "'x task_env \<Rightarrow> new_task \<Rightarrow> task_plan" where
  "created_plan env q =
    \<lparr>kp_start = 0, kp_retries = 0, kp_workflows = map JStr (kq_workflows q), kp_trace = kq_trace q,
     kp_max_retries = nat (max 0 (kq_max_retries q)), kp_timeout = max 1 (kq_timeout q)\<rparr>"

lemma created_run:
  assumes "quiet_bus env" "kv_workflow env = Some run" "create_task env i q s0 = (Inr info, s)"
    and "map_of (tr_checkpoints s0) i = None" "kq_workflows q \<noteq> []"
  obtains s2 where
    "task_run env i s = run_workflows env run info (length (tr_machines s0)) (created_plan env q) (map JStr (kq_workflows q)) 0 0 [] s2"
    "tr_machines s2 = tr_machines s0 @ [TS_RUNNING]" "tr_cancelled s2 = tr_cancelled s0" "tr_ext s2 = tr_ext s0"
    "map_of (tr_tasks s2) i = Some info" "machine_at i s2 = Some (length (tr_machines s0))" "ki_id info = i"
proof -
  let ?a = "length (tr_machines s0)"
  have s: "s = s0\<lparr>tr_tasks := put i info (tr_tasks s0), tr_statuses := put i TS_CREATED (tr_statuses s0),
      tr_machines := tr_machines s0 @ [TS_CREATED], tr_machine_of := put i ?a (tr_machine_of s0),
      tr_contexts := put i \<lparr>kc_variables = task_variables q, kc_workflows = []\<rparr> (tr_contexts s0)\<rparr>" and id: "ki_id info = i"
    using assms(1,3) by (auto simp: create_task_def Let_def bindS_run retS_def)
  let ?s2 = "s\<lparr>tr_machines := tr_machines s0 @ [TS_RUNNING], tr_statuses := put i TS_RUNNING (put i TS_READY (tr_statuses s))\<rparr>"
  have "read_plan env i ?s2 = (Inr (created_plan env q), ?s2)"
    using assms(4,5) by (simp add: s read_plan_def Let_def task_variables_def list_of_def int_variable_def created_plan_def)
  then have "task_run env i s = run_workflows env run info ?a (created_plan env q) (map JStr (kq_workflows q)) 0 0 [] ?s2"
    using assms(1,2,5) id
    by (simp add: s task_run_cases machine_at_def run_ready_def bindS_run set_task_status_def move_task_def task_transition_def
        can_move_def task_body_def created_plan_def)
  then show ?thesis by (rule that) (simp_all add: s id machine_at_def)
qed

text \<open>Cancelling a task while one of its workflows runs makes the run raise; it never returns the
  cancelled result that the code has for this case.\<close>

theorem task_cancelled_run_raises:
  assumes env: "polite i env" "quiet_bus env" "kv_workflow env = Some run"
    and created: "create_task env i q s0 = (Inr info, s)" "kq_workflows q = w # ws"
    and fresh: "map_of (tr_checkpoints s0) i = None" "map_of (tr_cancelled s0) i = None"
    and cancels: "\<forall>t l u. \<exists>x. run w t l u = (x, snd (task_cancel env i u))"
  shows "\<exists>e s'. task_run env i s = (Inl e, s')"
proof -
  let ?a = "length (tr_machines s0)" and ?p = "created_plan env q"
  obtain s2 where run: "task_run env i s = run_workflows env run info ?a ?p (map JStr (w # ws)) 0 0 [] s2"
    and s2: "tr_machines s2 = tr_machines s0 @ [TS_RUNNING]" "tr_cancelled s2 = tr_cancelled s0"
      "map_of (tr_tasks s2) i = Some info" "machine_at i s2 = Some ?a" and id: "ki_id info = i"
    using created_run [OF env(2,3) created(1) fresh(1)] created(2) by (metis list.distinct(1))
  obtain x s3 where att: "attempts env run info ?p (JStr w) (kp_max_retries ?p) 1 0 [] s2 = (x, s3)" by fastforce
  have "dead ?a (snd (task_cancel env i s2))"
    using env(2) s2 by (simp add: dead_def task_cancel_def Let_def machine_at_def move_and_tell_def bindS_run move_task_def
        task_transition_def can_move_def set_task_status_def retS_def)
  moreover obtain y where "run w (kp_trace ?p) (kp_timeout ?p) s2 = (y, snd (task_cancel env i s2))" using cancels by blast
  moreover have "task_moves i (snd (run w (kp_trace ?p) (kp_timeout ?p) s2)) s3"
    using attempts_after_run [OF env(1), of run w ?p s2 info "kp_max_retries ?p" 1 0 "[]"] moves_workflow [OF env(1,3)] att by simp
  ultimately have "dead ?a s3" by (metis dead_moves snd_conv)
  from dead_after_attempts [OF att this] dead_workflows [OF env(1) moves_workflow [OF env(1,3)]] fresh(2) s2(2) id show ?thesis
    unfolding run by simp
qed

section \<open>Attempts\<close>

text \<open>A workflow runtime that answers from a script, and the outcome that the script should have: the
  final status, the number of retries and of answers used.\<close>

type_synonym outcome = "exn + workflow_answer"

definition failing_outcome :: "outcome \<Rightarrow> bool" where
  "failing_outcome o1 = (case o1 of Inl e \<Rightarrow> True | Inr w \<Rightarrow> \<not> wk_completed w)"

definition ending :: "outcome \<Rightarrow> task_status" where
  "ending o1 = (case o1 of Inl e \<Rightarrow> if has_class [TimeoutError] e then TS_TIMEOUT else TS_FAILED | Inr w \<Rightarrow> TS_FAILED)"

fun play :: "nat \<Rightarrow> nat \<Rightarrow> outcome list \<Rightarrow> task_status \<times> nat \<times> nat" where
  "play k 0 os = (TS_COMPLETED, 0, 0)"
| "play k (Suc n) os =
    (let fails = length (takeWhile failing_outcome os) in
     if k < fails then (ending (os ! k), k, Suc k)
     else (case play k n (drop (Suc fails) os) of (st, r, u) \<Rightarrow> (st, fails + r, Suc fails + u)))"

definition scripted :: "(string \<Rightarrow> string) \<Rightarrow> outcome list task_env" where
  "scripted san =
    \<lparr>kv_workflow = Some (\<lambda>name tr limit s.
       (case tr_ext s of [] \<Rightarrow> (Inl (Raise RuntimeError []), s) | o1 # os \<Rightarrow> (o1, s\<lparr>tr_ext := os\<rparr>))),
     kv_publish = (\<lambda>ev s. (Inr (), s)), kv_san = san, kv_default_retries = 3, kv_default_timeout = 600\<rparr>"

definition script_run :: "string \<Rightarrow> string \<Rightarrow> int \<Rightarrow> (outcome list, workflow_answer) task_op" where
  "script_run name tr limit s =
    (case tr_ext s of [] \<Rightarrow> (Inl (Raise RuntimeError []), s) | o1 # os \<Rightarrow> (o1, s\<lparr>tr_ext := os\<rparr>))"

lemma scripted_fields: "quiet_bus (scripted san)" "kv_workflow (scripted san) = Some script_run"
  by (simp_all add: quiet_bus_def scripted_def script_run_def fun_eq_iff)

text \<open>The parts of the runtime that the attempts leave alone.\<close>

definition same_core :: "'x task_runtime \<Rightarrow> 'x task_runtime \<Rightarrow> bool" where
  "same_core s s' = (tr_tasks s' = tr_tasks s \<and> tr_machines s' = tr_machines s \<and> tr_cancelled s' = tr_cancelled s)"

lemma scripted_attempt:
  assumes "tr_ext s = o1 # os" "case o1 of Inl e \<Rightarrow> is_exception e | _ \<Rightarrow> True"
  shows "if failing_outcome o1
    then \<exists>e. attempt_workflow script_run j p (JStr w) out s = (Inl e, s\<lparr>tr_ext := os\<rparr>) \<and> is_exception e \<and>
      snd (attempt_failure env tr x n e) = ending o1
    else \<exists>out' s'. attempt_workflow script_run j p (JStr w) out s = (Inr out', s') \<and> same_core s s' \<and> tr_ext s' = os"
proof (cases o1)
  case (Inl e)
  with assms show ?thesis
    by (auto simp: failing_outcome_def attempt_workflow_def bindS_run script_run_def ending_def attempt_failure_def Let_def)
next
  case (Inr r)
  with assms show ?thesis
    by (auto simp: failing_outcome_def attempt_workflow_def bindS_run script_run_def ending_def attempt_failure_def Let_def
        failS_def retS_def is_exception_def add_workflow_def same_core_def split: option.split)
qed

definition usable :: "outcome list \<Rightarrow> bool" where
  "usable os = list_all (\<lambda>o1. case o1 of Inl e \<Rightarrow> is_exception e | _ \<Rightarrow> True) os"

lemma scripted_attempts:
  assumes "tr_ext s = os" "rest < length os" "usable os"
  shows "\<exists>s'. same_core s s' \<and>
    (let fails = length (takeWhile failing_outcome os) in
     if rest < fails
     then tr_ext s' = drop (Suc rest) os \<and>
       (\<exists>f. attempts (scripted san) script_run info p (JStr w) rest n r out s = (Inr (Inl (f, ending (os ! rest)), r + rest), s'))
     else tr_ext s' = drop (Suc fails) os \<and>
       (\<exists>out'. attempts (scripted san) script_run info p (JStr w) rest n r out s = (Inr (Inr out', r + fails), s')))"
  using assms
proof (induction rest arbitrary: os n r s)
  case 0
  then obtain o1 os' where os: "os = o1 # os'" by (cases os) auto
  with 0 have one: "case o1 of Inl e \<Rightarrow> is_exception e | _ \<Rightarrow> True" by (simp add: usable_def)
  show ?case
  proof (cases "failing_outcome o1")
    case True
    with scripted_attempt [of s o1 os' "ki_id info" p w out "scripted san" "kp_trace p" "JStr w" n] 0 os one
    obtain e where "attempt_workflow script_run (ki_id info) p (JStr w) out s = (Inl e, s\<lparr>tr_ext := os'\<rparr>)" "is_exception e"
      "snd (attempt_failure (scripted san) (kp_trace p) (JStr w) n e) = ending o1" by auto
    moreover from this obtain f where "attempt_failure (scripted san) (kp_trace p) (JStr w) n e = (f, ending o1)"
      by (metis prod.collapse)
    ultimately show ?thesis
      using True os by (intro exI [of _ "s\<lparr>tr_ext := os'\<rparr>"]) (auto simp: same_core_def catchS_def bindS_run retS_def)
  next
    case False
    with scripted_attempt [of s o1 os' "ki_id info" p w out "scripted san" "kp_trace p" "JStr w" n] 0 os one
    obtain out' s' where "attempt_workflow script_run (ki_id info) p (JStr w) out s = (Inr out', s')" "same_core s s'" "tr_ext s' = os'"
      by auto
    with False os show ?thesis
      by (intro exI [of _ s']) (simp add: catchS_def bindS_run retS_def)
  qed
next
  case (Suc rest)
  then obtain o1 os' where os: "os = o1 # os'" by (cases os) auto
  with Suc.prems have one: "case o1 of Inl e \<Rightarrow> is_exception e | _ \<Rightarrow> True" and more: "rest < length os'" "usable os'"
    by (auto simp: usable_def)
  show ?case
  proof (cases "failing_outcome o1")
    case True
    with scripted_attempt [of s o1 os' "ki_id info" p w out "scripted san" "kp_trace p" "JStr w" n] Suc.prems os one
    obtain e where e: "attempt_workflow script_run (ki_id info) p (JStr w) out s = (Inl e, s\<lparr>tr_ext := os'\<rparr>)" "is_exception e" by auto
    have step: "attempts (scripted san) script_run info p (JStr w) (Suc rest) n r out s =
        attempts (scripted san) script_run info p (JStr w) rest (n + 1) (r + 1) out (s\<lparr>tr_ext := os'\<rparr>)"
      using e by (simp add: catchS_def bindS_run scripted_fields)
    show ?thesis
      using Suc.IH [of "s\<lparr>tr_ext := os'\<rparr>" os' "n + 1" "r + 1"] more True os unfolding step
      by (auto simp: Let_def same_core_def split: if_splits)
  next
    case False
    with scripted_attempt [of s o1 os' "ki_id info" p w out "scripted san" "kp_trace p" "JStr w" n] Suc.prems os one
    obtain out' s' where "attempt_workflow script_run (ki_id info) p (JStr w) out s = (Inr out', s')" "same_core s s'" "tr_ext s' = os'"
      by auto
    with False os show ?thesis
      by (intro exI [of _ s']) (simp add: catchS_def bindS_run retS_def)
  qed
qed

lemma running_ends:
  assumes "tr_machines s ! a = TS_RUNNING" "a < length (tr_machines s)" "map_of (tr_tasks s) (ki_id info) = Some info"
  shows "\<exists>res s'. run_completed (scripted san) info a p r out s = (Inr res, s') \<and> kr_status res = TS_COMPLETED \<and>
      kr_retries res = r \<and> tr_ext s' = tr_ext s"
    and "st \<in> {TS_FAILED, TS_TIMEOUT} \<Longrightarrow> \<exists>res s'. terminal_failure (scripted san) info a f st r out s = (Inr res, s') \<and>
      kr_status res = st \<and> kr_retries res = r \<and> tr_ext s' = tr_ext s"
  using assms scripted_fields(1) [of san]
  by (auto simp: run_completed_def terminal_failure_def bindS_run move_task_def task_transition_def can_move_def
      set_task_status_def retS_def)

lemma ending_cases: "ending o1 \<in> {TS_FAILED, TS_TIMEOUT}"
  by (cases o1) (simp_all add: ending_def)

lemma scripted_workflows:
  assumes "tr_machines s ! a = TS_RUNNING" "a < length (tr_machines s)" "map_of (tr_tasks s) (ki_id info) = Some info"
    and "map_of (tr_cancelled s) (ki_id info) = None" "usable (tr_ext s)" "(kp_max_retries p + 1) * length ws \<le> length (tr_ext s)"
  shows "\<exists>res s'. run_workflows (scripted san) script_run info a p (map JStr ws) n r out s = (Inr res, s') \<and>
    (case play (kp_max_retries p) (length ws) (tr_ext s) of (st, k, u) \<Rightarrow>
       kr_status res = st \<and> kr_retries res = r + k \<and> tr_ext s' = drop u (tr_ext s))"
  using assms
proof (induction ws arbitrary: n r out s)
  case Nil
  with running_ends(1) [OF Nil(1-3), of san p r out] show ?case by fastforce
next
  case (Cons w ws)
  let ?k = "kp_max_retries p" and ?os = "tr_ext s"
  let ?fails = "length (takeWhile failing_outcome ?os)"
  have "?k < length ?os" using Cons.prems(6) by simp
  from scripted_attempts [OF refl this Cons.prems(5), of san info p w 1 r out] obtain s1 where core: "same_core s s1"
    and att: "if ?k < ?fails
      then tr_ext s1 = drop (Suc ?k) ?os \<and>
        (\<exists>f. attempts (scripted san) script_run info p (JStr w) ?k 1 r out s = (Inr (Inl (f, ending (?os ! ?k)), r + ?k), s1))
      else tr_ext s1 = drop (Suc ?fails) ?os \<and>
        (\<exists>out'. attempts (scripted san) script_run info p (JStr w) ?k 1 r out s = (Inr (Inr out', r + ?fails), s1))"
    unfolding Let_def by blast
  have s1: "tr_machines s1 ! a = TS_RUNNING" "a < length (tr_machines s1)" "map_of (tr_tasks s1) (ki_id info) = Some info"
    "map_of (tr_cancelled s1) (ki_id info) = None"
    using core Cons.prems by (simp_all add: same_core_def)
  show ?case
  proof (cases "?k < ?fails")
    case True
    with att obtain f where f: "attempts (scripted san) script_run info p (JStr w) ?k 1 r out s =
        (Inr (Inl (f, ending (?os ! ?k)), r + ?k), s1)" "tr_ext s1 = drop (Suc ?k) ?os" by auto
    from running_ends(2) [OF s1(1-3) ending_cases, of san f "?os ! ?k" "r + ?k" out] f True Cons.prems(4) show ?thesis
      by (auto simp: bindS_run Let_def)
  next
    case False
    with att obtain out' where o: "attempts (scripted san) script_run info p (JStr w) ?k 1 r out s = (Inr (Inr out', r + ?fails), s1)"
      "tr_ext s1 = drop (Suc ?fails) ?os" by auto
    obtain s2 where st: "store_task_checkpoint info a (n + 1) (r + ?fails) out' s1 = (Inr (), s2)" "same_core s1 s2" "tr_ext s2 = tr_ext s1"
      using s1(3) by (auto simp: store_task_checkpoint_def set_task_status_def same_core_def)
    have s2: "tr_machines s2 ! a = TS_RUNNING" "a < length (tr_machines s2)" "map_of (tr_tasks s2) (ki_id info) = Some info"
      "map_of (tr_cancelled s2) (ki_id info) = None" "usable (tr_ext s2)"
      "(?k + 1) * length ws \<le> length (tr_ext s2)"
      using st(2,3) s1 o(2) Cons.prems(5,6) False
      by (auto simp: same_core_def usable_def list_all_iff dest: in_set_dropD)
    from Cons.IH [OF s2, of "n + 1" "r + ?fails" out'] show ?thesis
      using o st False Cons.prems(4) by (auto simp: bindS_run Let_def ac_simps split: prod.splits)
  qed
qed

text \<open>C28: a task gives each of its workflows one attempt and \<open>max_retries\<close> more, goes on at the first
  success, and ends with the status that \<open>play\<close> computes from the answers alone; so many answers are
  used, and no more than the retries allow.\<close>

theorem task_outcome:
  assumes "create_task (scripted san) i q s0 = (Inr info, s)" "kq_workflows q \<noteq> []"
    and "map_of (tr_checkpoints s0) i = None" "map_of (tr_cancelled s0) i = None"
    and "usable (tr_ext s0)" "(nat (max 0 (kq_max_retries q)) + 1) * length (kq_workflows q) \<le> length (tr_ext s0)"
  shows "\<exists>res s'. task_run (scripted san) i s = (Inr res, s') \<and>
    (case play (nat (max 0 (kq_max_retries q))) (length (kq_workflows q)) (tr_ext s0) of (st, k, u) \<Rightarrow>
       kr_status res = st \<and> kr_retries res = k \<and> tr_ext s' = drop u (tr_ext s0) \<and>
       u \<le> (nat (max 0 (kq_max_retries q)) + 1) * length (kq_workflows q))"
proof -
  obtain s2 where run: "task_run (scripted san) i s = run_workflows (scripted san) script_run info (length (tr_machines s0))
      (created_plan (scripted san) q) (map JStr (kq_workflows q)) 0 0 [] s2"
    and s2: "tr_machines s2 = tr_machines s0 @ [TS_RUNNING]" "tr_cancelled s2 = tr_cancelled s0" "tr_ext s2 = tr_ext s0"
      "map_of (tr_tasks s2) i = Some info" "ki_id info = i"
    using created_run [OF scripted_fields assms(1,3,2)] by metis
  let ?k = "nat (max 0 (kq_max_retries q))" and ?n = "length (kq_workflows q)"
  have bound: "snd (snd (play k n os)) \<le> (k + 1) * n" for k n and os :: "outcome list"
    by (induction k n os rule: play.induct) (auto simp: Let_def split: prod.splits)
  obtain st k u where play: "play ?k ?n (tr_ext s0) = (st, k, u)" by (metis prod_cases3)
  with bound [of ?k ?n "tr_ext s0"] show ?thesis
    using scripted_workflows [of s2 "length (tr_machines s0)" info "created_plan (scripted san) q" "kq_workflows q" san 0 0 "[]"]
      assms(4-6) s2 unfolding run
    by (auto simp: created_plan_def)
qed

section \<open>Samples\<close>

definition sample_new_task :: new_task where
  "sample_new_task = \<lparr>kq_name = ''release'', kq_workflows = [''build''], kq_variables = [], kq_dependencies = [],
     kq_timeout = 60, kq_max_retries = 1, kq_trace = [], kq_tags = []\<rparr>"

definition good_answer :: workflow_answer where
  "good_answer = \<lparr>wk_completed = True, wk_errors = [], wk_outputs = JObj []\<rparr>"

definition sample_runtime :: "outcome list task_runtime" where
  "sample_runtime = \<lparr>tr_tasks = [], tr_statuses = [], tr_machines = [], tr_machine_of = [], tr_cancelled = [],
     tr_contexts = [], tr_checkpoints = [], tr_initialized = True,
     tr_ext = [Inl (Raise TimeoutError []), Inr good_answer]\<rparr>"

definition created_runtime :: "outcome list task_runtime" where
  "created_runtime = snd (create_task (scripted id) ''t1'' sample_new_task sample_runtime)"

lemma scripted_polite: "polite i (scripted san)"
  by (auto simp: polite_def scripted_def movesS_def task_moves_def machine_at_def split: list.split)

lemma sample_task_created: "\<exists>info. create_task (scripted id) ''t1'' sample_new_task sample_runtime = (Inr info, created_runtime)"
  by (simp add: created_runtime_def create_task_def Let_def bindS_run scripted_fields retS_def)

theorem task_runs_once_witness:
  "\<exists>e s'. task_run (scripted id) ''t1'' (fold (task_do (scripted id)) [Retry_Task ''t1'', Resume_Task ''t1'']
     (snd (task_run (scripted id) ''t1'' created_runtime))) = (Inl e, s')"
proof -
  have "machine_ok ''t1'' created_runtime" "\<forall>info. map_of (tr_tasks created_runtime) ''t1'' = Some info \<longrightarrow> ki_id info = ''t1''"
    by (simp_all add: created_runtime_def create_task_def Let_def bindS_run scripted_fields retS_def machine_ok_def machine_at_def
        sample_runtime_def)
  from task_runs_once [OF scripted_polite this, of "[Retry_Task ''t1'', Resume_Task ''t1'']" id] show ?thesis by auto
qed

definition cancelling :: "outcome list task_env" where
  "cancelling = (scripted id)\<lparr>kv_workflow := Some (\<lambda>name tr limit s. (Inr good_answer, snd (task_cancel (scripted id) ''t1'' s)))\<rparr>"

lemma cancelling_announce: "announce cancelling = announce (scripted id)"
  by (simp add: fun_eq_iff announce_def cancelling_def)

lemma cancelling_cancel: "task_cancel cancelling i s = task_cancel (scripted id) i s"
  unfolding task_cancel_def move_and_tell_def cancelling_announce ..

theorem task_cancelled_run_raises_witness:
  "\<exists>e s'. task_run cancelling ''t1'' created_runtime = (Inl e, s')"
proof -
  have "polite ''t1'' cancelling"
    using scripted_polite [of "''t1''" id] task_do_moves [OF scripted_polite, of "Cancel_Task_Run ''t1''" "''t1''" _ id]
    by (auto simp: polite_def cancelling_def movesS_def)
  moreover have "quiet_bus cancelling" using scripted_fields(1) [of id] by (simp add: quiet_bus_def cancelling_def)
  moreover obtain info where "create_task cancelling ''t1'' sample_new_task sample_runtime = (Inr info, created_runtime)"
    using sample_task_created unfolding create_task_def cancelling_announce by blast
  ultimately show ?thesis
    using task_cancelled_run_raises [of "''t1''" cancelling _ sample_new_task sample_runtime info created_runtime "''build''" "[]"]
    by (simp add: cancelling_cancel) (simp add: cancelling_def sample_new_task_def sample_runtime_def)
qed

theorem task_outcome_witness:
  "\<exists>res s'. task_run (scripted id) ''t1'' created_runtime = (Inr res, s') \<and> kr_status res = TS_COMPLETED \<and>
    kr_retries res = 1 \<and> tr_ext s' = []"
proof -
  obtain info where "create_task (scripted id) ''t1'' sample_new_task sample_runtime = (Inr info, created_runtime)"
    using sample_task_created by blast
  from task_outcome [OF this] show ?thesis
    by (auto simp: sample_new_task_def sample_runtime_def usable_def is_exception_def failing_outcome_def good_answer_def Let_def)
qed

end
