(* ===== verification/WorkLog_Model.thy ===== *)
theory WorkLog_Model
  imports Workspaces Domain_Base
begin

text \<open>
  \<open>core/work_log/models.py\<close>: the record of work done, the command that creates one and the query
  over records, with their validation.  What pydantic and the Unicode and time zone tables of Python
  do with arbitrary values is a record of functions, \<open>lib\<close>.
\<close>

section \<open>Surroundings\<close>

text \<open>
  \<open>lb_fold\<close> is \<open>str.casefold\<close>, \<open>lb_shown\<close> is \<open>str(v)\<close> of a value that is no text; \<open>lb_datetime\<close> and
  \<open>lb_int\<close> are pydantic's conversions; \<open>lb_iso_date\<close> and \<open>lb_iso_datetime\<close> are \<open>date.fromisoformat\<close> (its
  midnight) and \<open>datetime.fromisoformat\<close>; \<open>lb_to_utc\<close> and \<open>lb_from_utc\<close> convert a wall time, with its
  \<open>fold\<close>, in a zone; \<open>lb_sha\<close> is the hexadecimal SHA-256 digest.
\<close>

record wl_lib =
  lb_zone_ok :: "string \<Rightarrow> bool"
  lb_fold :: "string \<Rightarrow> string"
  lb_shown :: "json \<Rightarrow> string"
  lb_datetime :: "json \<Rightarrow> datetime option"
  lb_int :: "json \<Rightarrow> int option"
  lb_iso_date :: "string \<Rightarrow> int option"
  lb_iso_datetime :: "string \<Rightarrow> datetime option"
  lb_to_utc :: "string \<Rightarrow> int \<Rightarrow> bool \<Rightarrow> instant"
  lb_from_utc :: "string \<Rightarrow> instant \<Rightarrow> int \<times> bool"
  lb_sha :: "string \<Rightarrow> string"

section \<open>Identifiers\<close>

definition hex_digit :: "char \<Rightarrow> bool" where
  "hex_digit c = (c \<in> set ''0123456789abcdef'')"

text \<open>A prefix and \<open>n\<close> hexadecimal digits.\<close>

definition hex_id :: "string \<Rightarrow> nat \<Rightarrow> string \<Rightarrow> bool" where
  "hex_id prefix n s =
    (starts_with prefix s \<and> length s = length prefix + n \<and> list_all hex_digit (drop (length prefix) s))"

definition canonical_id :: "string \<Rightarrow> bool" where
  "canonical_id s = hex_id ''wl_'' 32 s"

definition legacy_shape :: "string \<Rightarrow> bool" where
  "legacy_shape s = hex_id ''wl_legacy_'' 64 s"

definition inbox_alias :: "string \<Rightarrow> bool" where
  "inbox_alias s = hex_id ''inbox_wl_'' 24 s"

datatype wl_kind = K_USER_TASK | K_REMINDER | K_WAITING_FOR | K_INBOX

fun wl_kind_value :: "wl_kind \<Rightarrow> string" where
  "wl_kind_value K_USER_TASK = ''user_task''"
| "wl_kind_value K_REMINDER = ''reminder''"
| "wl_kind_value K_WAITING_FOR = ''waiting_for''"
| "wl_kind_value K_INBOX = ''inbox''"

definition all_kinds :: "wl_kind list" where
  "all_kinds = [K_USER_TASK, K_REMINDER, K_WAITING_FOR, K_INBOX]"

definition word_char :: "char \<Rightarrow> bool" where
  "word_char c = (c \<in> set ''ABCDEFGHIJKLMNOPQRSTUVWXYZabcdefghijklmnopqrstuvwxyz0123456789'')"

text \<open>\<open>prefix[A-Za-z0-9][A-Za-z0-9_-]{0,n}\<close>\<close>

definition context_id :: "string \<Rightarrow> nat \<Rightarrow> string \<Rightarrow> bool" where
  "context_id prefix n s =
    (starts_with prefix s \<and>
     (case drop (length prefix) s of
        [] \<Rightarrow> False
      | c # rest \<Rightarrow> word_char c \<and> length rest \<le> n \<and> list_all (\<lambda>x. word_char x \<or> x = CHR ''_'' \<or> x = CHR ''-'') rest))"

fun kind_matches :: "wl_kind \<Rightarrow> string \<Rightarrow> bool" where
  "kind_matches K_USER_TASK s = context_id ''ut_'' 155 s"
| "kind_matches K_REMINDER s = context_id ''rem_'' 155 s"
| "kind_matches K_WAITING_FOR s = context_id ''wf_'' 155 s"
| "kind_matches K_INBOX s = context_id ''inbox_'' 153 s"

definition is_context_target_id :: "string \<Rightarrow> bool" where
  "is_context_target_id s = (\<not> starts_with ''inbox_wl_'' s \<and> list_ex (\<lambda>k. kind_matches k s) all_kinds)"

section \<open>Records\<close>

datatype wl_status = WL_COMPLETED | WL_IN_PROGRESS | WL_BLOCKED | WL_INFORMATIONAL

fun wl_status_value :: "wl_status \<Rightarrow> string" where
  "wl_status_value WL_COMPLETED = ''completed''"
| "wl_status_value WL_IN_PROGRESS = ''in_progress''"
| "wl_status_value WL_BLOCKED = ''blocked''"
| "wl_status_value WL_INFORMATIONAL = ''informational''"

definition parse_wl_status :: "string \<Rightarrow> wl_status option" where
  "parse_wl_status s = find (\<lambda>v. wl_status_value v = s) [WL_COMPLETED, WL_IN_PROGRESS, WL_BLOCKED, WL_INFORMATIONAL]"

datatype wl_source = WL_CEO_ASSISTANT | WL_API | WL_CLI | WL_INBOX | WL_LEGACY

fun wl_source_value :: "wl_source \<Rightarrow> string" where
  "wl_source_value WL_CEO_ASSISTANT = ''ceo_assistant''"
| "wl_source_value WL_API = ''api''"
| "wl_source_value WL_CLI = ''cli''"
| "wl_source_value WL_INBOX = ''inbox''"
| "wl_source_value WL_LEGACY = ''legacy''"

definition parse_wl_source :: "string \<Rightarrow> wl_source option" where
  "parse_wl_source s = find (\<lambda>v. wl_source_value v = s) [WL_CEO_ASSISTANT, WL_API, WL_CLI, WL_INBOX, WL_LEGACY]"

datatype wl_resolution = REF_RESOLVED | REF_UNRESOLVED | REF_NOT_CHECKED

fun wl_resolution_value :: "wl_resolution \<Rightarrow> string" where
  "wl_resolution_value REF_RESOLVED = ''resolved''"
| "wl_resolution_value REF_UNRESOLVED = ''unresolved''"
| "wl_resolution_value REF_NOT_CHECKED = ''not_checked''"

definition parse_resolution :: "string \<Rightarrow> wl_resolution option" where
  "parse_resolution s = find (\<lambda>v. wl_resolution_value v = s) [REF_RESOLVED, REF_UNRESOLVED, REF_NOT_CHECKED]"

definition parse_kind :: "string \<Rightarrow> wl_kind option" where
  "parse_kind s = find (\<lambda>v. wl_kind_value v = s) all_kinds"

record wl_ref =
  rf_kind :: wl_kind
  rf_target :: string
  rf_relation :: "string option"
  rf_resolution :: wl_resolution

record wl_record =
  wl_id :: string
  wl_key :: workspace_key
  wl_occurred_at :: instant
  wl_timezone :: string
  wl_subject :: string
  wl_text :: string
  wl_target :: "string option"
  wl_status :: wl_status
  wl_tags :: "string list"
  wl_source :: wl_source
  wl_refs :: "wl_ref list"
  wl_created_at :: instant
  wl_legacy_id :: "string option"
  wl_legacy_status :: "string option"
  wl_legacy_source :: "string option"
  wl_notes :: "string list"
  wl_schema :: int
  wl_item :: "string option"

subsection \<open>Validators\<close>

text \<open>A stripped text that is not blank, or nothing.\<close>

definition text_or_none :: "string option \<Rightarrow> string option" where
  "text_or_none v = (case v of None \<Rightarrow> None | Some s \<Rightarrow> if py_strip s = [] then None else Some (py_strip s))"

definition ref_ok :: "wl_ref \<Rightarrow> bool" where
  "ref_ok r = (rf_target r \<noteq> [] \<and> kind_matches (rf_kind r) (rf_target r) \<and> \<not> starts_with ''inbox_wl_'' (rf_target r))"

text \<open>\<open>WorkLogContextRef(...)\<close>\<close>

definition validate_ref :: "wl_kind \<Rightarrow> string \<Rightarrow> string option \<Rightarrow> wl_resolution \<Rightarrow> wl_ref option" where
  "validate_ref k target relation res =
    (let r = \<lparr>rf_kind = k, rf_target = py_strip target, rf_relation = text_or_none relation, rf_resolution = res\<rparr> in
     if opt_len 64 relation \<and> ref_ok r then Some r else None)"

text \<open>The loop of \<open>normalize_tags\<close>; \<open>seen\<close> are the folded tags taken so far.\<close>

fun take_tags :: "(string \<Rightarrow> string) \<Rightarrow> string list \<Rightarrow> string list \<Rightarrow> string list option" where
  "take_tags cf seen [] = Some []"
| "take_tags cf seen (v # vs) =
    (let item = py_strip v in
     if item = [] then take_tags cf seen vs
     else if py_len item > 64 then None
     else if cf item \<in> set seen then take_tags cf seen vs
     else map_option ((#) item) (take_tags cf (cf item # seen) vs))"

definition normalize_tags :: "(string \<Rightarrow> string) \<Rightarrow> string list \<Rightarrow> string list option" where
  "normalize_tags cf vs =
    (case take_tags cf [] vs of
       None \<Rightarrow> None
     | Some tags \<Rightarrow> if length tags > 20 then None else Some tags)"

definition refs_ok :: "wl_ref list \<Rightarrow> bool" where
  "refs_ok refs = (length refs \<le> 20 \<and> distinct (map (\<lambda>r. (rf_kind r, rf_target r)) refs))"

definition zone_valid :: "wl_lib \<Rightarrow> string \<Rightarrow> bool" where
  "zone_valid lib z = lb_zone_ok lib (py_strip z)"

definition text_valid :: "nat \<Rightarrow> string \<Rightarrow> bool" where
  "text_valid hi s = (len_between 1 hi s \<and> py_strip s \<noteq> [])"

text \<open>\<open>_schema_identity\<close>\<close>

definition schema_ok :: "string \<Rightarrow> int \<Rightarrow> bool" where
  "schema_ok i n =
    ((starts_with ''wl_legacy_'' i \<longrightarrow> n = 0) \<and> (canonical_id i \<longrightarrow> n = 1))"

text \<open>The keyword arguments of the constructor; the context references are instances.\<close>

record wl_values =
  wv_id :: string
  wv_key :: workspace_key
  wv_occurred_at :: datetime
  wv_timezone :: string
  wv_subject :: string
  wv_text :: string
  wv_target :: "string option"
  wv_status :: wl_status
  wv_tags :: "string list"
  wv_source :: wl_source
  wv_refs :: "wl_ref list"
  wv_created_at :: datetime
  wv_legacy_id :: "string option"
  wv_legacy_status :: "string option"
  wv_legacy_source :: "string option"
  wv_notes :: "string list"
  wv_schema :: int
  wv_item :: "string option"

text \<open>The fields at fault.\<close>

definition fault :: "string \<Rightarrow> bool \<Rightarrow> string list" where
  "fault k ok = (if ok then [] else [k])"

definition record_faults :: "wl_lib \<Rightarrow> wl_values \<Rightarrow> string list" where
  "record_faults lib v =
    fault ''id'' (canonical_id (wv_id v) \<or> legacy_shape (wv_id v)) @
    fault ''occurred_at'' (\<not> is_naive (wv_occurred_at v)) @ fault ''timezone'' (zone_valid lib (wv_timezone v)) @
    fault ''subject'' (text_valid 500 (wv_subject v)) @ fault ''raw_text'' (text_valid 4000 (wv_text v)) @
    fault ''target'' (opt_len 200 (wv_target v)) @
    fault ''tags'' (normalize_tags (lb_fold lib) (wv_tags v) \<noteq> None) @ fault ''context_refs'' (refs_ok (wv_refs v)) @
    fault ''created_at'' (\<not> is_naive (wv_created_at v)) @
    fault ''schema_version'' (0 \<le> wv_schema v \<and> wv_schema v \<le> 1)"

definition record_of_values :: "wl_lib \<Rightarrow> wl_values \<Rightarrow> wl_record" where
  "record_of_values lib v =
    \<lparr>wl_id = wv_id v, wl_key = canonical_workspace (wv_key v), wl_occurred_at = utc_instant (wv_occurred_at v),
     wl_timezone = py_strip (wv_timezone v), wl_subject = py_strip (wv_subject v), wl_text = py_strip (wv_text v),
     wl_target = text_or_none (wv_target v), wl_status = wv_status v,
     wl_tags = the (normalize_tags (lb_fold lib) (wv_tags v)), wl_source = wv_source v, wl_refs = wv_refs v,
     wl_created_at = utc_instant (wv_created_at v), wl_legacy_id = wv_legacy_id v, wl_legacy_status = wv_legacy_status v,
     wl_legacy_source = wv_legacy_source v, wl_notes = wv_notes v, wl_schema = wv_schema v, wl_item = wv_item v\<rparr>"

definition validate_record :: "wl_lib \<Rightarrow> wl_values \<Rightarrow> exn + wl_record" where
  "validate_record lib v =
    (if record_faults lib v = [] \<and> schema_ok (wv_id v) (wv_schema v) then Inr (record_of_values lib v) else Inl (Raise ValidationError ''WorkLogRecord''))"

section \<open>Reading values\<close>

text \<open>An entry of a mapping, \<open>None\<close> and an absent one alike.\<close>

definition entry :: "dict \<Rightarrow> string \<Rightarrow> json" where
  "entry d k = (case map_of d k of None \<Rightarrow> JNull | Some v \<Rightarrow> v)"

text \<open>A field of type \<open>str | None\<close>, and one of type \<open>str\<close>.\<close>

fun opt_text :: "json \<Rightarrow> string option option" where
  "opt_text JNull = Some None"
| "opt_text (JStr s) = Some (Some s)"
| "opt_text _ = None"

fun just_text :: "json \<Rightarrow> string option" where
  "just_text (JStr s) = Some s"
| "just_text _ = None"

text \<open>The texts that \<open>str(x) for x in (v or ())\<close> gives; a value that is not iterable raises.\<close>

definition str_of :: "wl_lib \<Rightarrow> json \<Rightarrow> string" where
  "str_of lib v = (case v of JStr s \<Rightarrow> s | _ \<Rightarrow> lb_shown lib v)"

definition tag_texts :: "wl_lib \<Rightarrow> json \<Rightarrow> string list option" where
  "tag_texts lib v =
    (if \<not> truthy v then Some []
     else case v of
       JArr xs \<Rightarrow> Some (map (str_of lib) xs)
     | JStr s \<Rightarrow> Some (py_chars s)
     | JObj d \<Rightarrow> Some (map fst d)
     | _ \<Rightarrow> None)"

text \<open>\<open>WorkLogContextRef.model_validate\<close> on a mapping.\<close>

definition read_ref :: "json \<Rightarrow> wl_ref option" where
  "read_ref v =
    (case v of
       JObj d \<Rightarrow>
         (if \<not> list_all (\<lambda>(k, x). k \<in> set [''kind'', ''target_id'', ''relation'', ''resolution'']) d then None
          else case (Option.bind (just_text (entry d ''kind'')) parse_kind, just_text (entry d ''target_id''),
              opt_text (entry d ''relation''),
              case map_of d ''resolution'' of
                None \<Rightarrow> Some REF_NOT_CHECKED
              | Some x \<Rightarrow> Option.bind (just_text x) parse_resolution) of
            (Some k, Some t, Some rel, Some res) \<Rightarrow> validate_ref k t rel res
          | _ \<Rightarrow> None)
     | _ \<Rightarrow> None)"

text \<open>A field of type \<open>tuple[WorkLogContextRef, ...]\<close>.\<close>

definition read_refs :: "json \<Rightarrow> wl_ref list option" where
  "read_refs v = (case v of JArr xs \<Rightarrow> those (map read_ref xs) | _ \<Rightarrow> None)"

section \<open>Commands\<close>

record wl_command =
  wlc_subject :: string
  wlc_text :: string
  wlc_occurred_at :: "instant option"
  wlc_timezone :: "string option"
  wlc_target :: "string option"
  wlc_status :: wl_status
  wlc_tags :: "string list"
  wlc_source :: wl_source
  wlc_refs :: "wl_ref list"

text \<open>
  The outcome of \<open>model_validate\<close>: the names of the fields at fault, a fault of the model as a whole,
  or an exception of a validator that pydantic lets pass.
\<close>

datatype wl_invalid = Bad_Fields "string list" | Bad_Model | Escapes exn

definition read_text :: "nat \<Rightarrow> json \<Rightarrow> string option" where
  "read_text hi v = (case v of JStr s \<Rightarrow> if text_valid hi s then Some (py_strip s) else None | _ \<Rightarrow> None)"

definition read_instant :: "wl_lib \<Rightarrow> json \<Rightarrow> instant option option" where
  "read_instant lib v =
    (if v = JNull then Some None
     else case lb_datetime lib v of
       None \<Rightarrow> None
     | Some t \<Rightarrow> if is_naive t then None else Some (Some (utc_instant t)))"

definition read_zone :: "wl_lib \<Rightarrow> json \<Rightarrow> string option option" where
  "read_zone lib v =
    (case v of
       JNull \<Rightarrow> Some None
     | JStr z \<Rightarrow> if zone_valid lib z then Some (Some (py_strip z)) else None
     | _ \<Rightarrow> None)"

definition read_target :: "json \<Rightarrow> string option option" where
  "read_target v =
    (case opt_text v of None \<Rightarrow> None | Some s \<Rightarrow> if opt_len 200 s then Some (text_or_none s) else None)"

text \<open>A field with a default: the default is not validated.\<close>

definition defaulted :: "'a \<Rightarrow> (json \<Rightarrow> 'a option) \<Rightarrow> dict \<Rightarrow> string \<Rightarrow> 'a option" where
  "defaulted d read vs k = (case map_of vs k of None \<Rightarrow> Some d | Some v \<Rightarrow> read v)"

definition read_tags :: "wl_lib \<Rightarrow> json \<Rightarrow> string list option" where
  "read_tags lib v = Option.bind (tag_texts lib v) (normalize_tags (lb_fold lib))"

definition checked_refs :: "json \<Rightarrow> wl_ref list option" where
  "checked_refs v = (case read_refs v of None \<Rightarrow> None | Some rs \<Rightarrow> if refs_ok rs then Some rs else None)"

definition command_fields :: "string list" where
  "command_fields =
    [''subject'', ''raw_text'', ''occurred_at'', ''timezone'', ''target'', ''status'', ''tags'', ''source'', ''context_refs'']"

text \<open>The fields at fault, of the fields given and of others.\<close>

definition command_faults :: "wl_lib \<Rightarrow> dict \<Rightarrow> string list" where
  "command_faults lib vs =
    fault ''subject'' (read_text 500 (entry vs ''subject'') \<noteq> None) @
    fault ''raw_text'' (read_text 4000 (entry vs ''raw_text'') \<noteq> None) @
    fault ''occurred_at'' (read_instant lib (entry vs ''occurred_at'') \<noteq> None) @
    fault ''timezone'' (read_zone lib (entry vs ''timezone'') \<noteq> None) @
    fault ''target'' (read_target (entry vs ''target'') \<noteq> None) @
    fault ''status'' (defaulted WL_COMPLETED (\<lambda>v. Option.bind (just_text v) parse_wl_status) vs ''status'' \<noteq> None) @
    fault ''tags'' (defaulted [] (read_tags lib) vs ''tags'' \<noteq> None) @
    fault ''source'' (Option.bind (just_text (entry vs ''source'')) parse_wl_source \<noteq> None) @
    fault ''context_refs'' (defaulted [] checked_refs vs ''context_refs'' \<noteq> None) @
    filter (\<lambda>k. k \<notin> set command_fields) (map fst vs)"

definition command_of :: "wl_lib \<Rightarrow> dict \<Rightarrow> wl_command" where
  "command_of lib vs =
    \<lparr>wlc_subject = the (read_text 500 (entry vs ''subject'')), wlc_text = the (read_text 4000 (entry vs ''raw_text'')),
     wlc_occurred_at = the (read_instant lib (entry vs ''occurred_at'')),
     wlc_timezone = the (read_zone lib (entry vs ''timezone'')), wlc_target = the (read_target (entry vs ''target'')),
     wlc_status = the (defaulted WL_COMPLETED (\<lambda>v. Option.bind (just_text v) parse_wl_status) vs ''status''),
     wlc_tags = the (defaulted [] (read_tags lib) vs ''tags''),
     wlc_source = the (Option.bind (just_text (entry vs ''source'')) parse_wl_source),
     wlc_refs = the (defaulted [] checked_refs vs ''context_refs'')\<rparr>"

text \<open>A \<open>tags\<close> value that is not iterable raises a \<open>TypeError\<close>, which pydantic does not collect.\<close>

definition tags_raise :: "wl_lib \<Rightarrow> dict \<Rightarrow> bool" where
  "tags_raise lib vs = (tag_texts lib (entry vs ''tags'') = None)"

definition not_iterable :: exn where
  "not_iterable = Raise TypeError ''object is not iterable''"

definition validate_command :: "wl_lib \<Rightarrow> dict \<Rightarrow> wl_invalid + wl_command" where
  "validate_command lib vs =
    (if tags_raise lib vs then Inl (Escapes not_iterable)
     else if command_faults lib vs \<noteq> [] then Inl (Bad_Fields (command_faults lib vs))
     else Inr (command_of lib vs))"

section \<open>Queries\<close>

record wl_query =
  wlq_from :: "instant option"
  wlq_to :: "instant option"
  wlq_target :: "string option"
  wlq_tags :: "string list"
  wlq_status :: "wl_status option"
  wlq_text :: "string option"
  wlq_ref :: "string option"
  wlq_limit :: nat
  wlq_offset :: nat

text \<open>An optional text that must not be blank when it is given.\<close>

definition read_filter :: "nat \<Rightarrow> (string \<Rightarrow> bool) \<Rightarrow> json \<Rightarrow> string option option" where
  "read_filter hi ok v =
    (case v of
       JNull \<Rightarrow> Some None
     | JStr s \<Rightarrow> if py_len s \<le> hi \<and> py_strip s \<noteq> [] \<and> ok (py_strip s) then Some (Some (py_strip s)) else None
     | _ \<Rightarrow> None)"

definition read_number :: "wl_lib \<Rightarrow> int \<Rightarrow> int \<Rightarrow> json \<Rightarrow> nat option" where
  "read_number lib lo hi v =
    (case lb_int lib v of None \<Rightarrow> None | Some n \<Rightarrow> if lo \<le> n \<and> n \<le> hi then Some (nat n) else None)"

definition read_status :: "json \<Rightarrow> wl_status option option" where
  "read_status v = (if v = JNull then Some None else map_option Some (Option.bind (just_text v) parse_wl_status))"

definition query_fields :: "string list" where
  "query_fields =
    [''date_from'', ''date_to'', ''target'', ''tags'', ''status'', ''text'', ''context_ref'', ''limit'', ''offset'', ''sort'']"

definition query_faults :: "wl_lib \<Rightarrow> dict \<Rightarrow> string list" where
  "query_faults lib vs =
    fault ''date_from'' (read_instant lib (entry vs ''date_from'') \<noteq> None) @
    fault ''date_to'' (read_instant lib (entry vs ''date_to'') \<noteq> None) @
    fault ''target'' (read_filter 200 (\<lambda>_. True) (entry vs ''target'') \<noteq> None) @
    fault ''tags'' (defaulted [] (read_tags lib) vs ''tags'' \<noteq> None) @
    fault ''status'' (read_status (entry vs ''status'') \<noteq> None) @
    fault ''text'' (read_filter 500 (\<lambda>_. True) (entry vs ''text'') \<noteq> None) @
    fault ''context_ref'' (read_filter 160 is_context_target_id (entry vs ''context_ref'') \<noteq> None) @
    fault ''limit'' (defaulted 50 (read_number lib 1 200) vs ''limit'' \<noteq> None) @
    fault ''offset'' (defaulted 0 (read_number lib 0 10000) vs ''offset'' \<noteq> None) @
    fault ''sort'' (map_of vs ''sort'' \<in> {None, Some (JStr ''occurred_at_desc_id_desc'')}) @
    filter (\<lambda>k. k \<notin> set query_fields) (map fst vs)"

definition query_of :: "wl_lib \<Rightarrow> dict \<Rightarrow> wl_query" where
  "query_of lib vs =
    \<lparr>wlq_from = the (read_instant lib (entry vs ''date_from'')), wlq_to = the (read_instant lib (entry vs ''date_to'')),
     wlq_target = the (read_filter 200 (\<lambda>_. True) (entry vs ''target'')),
     wlq_tags = the (defaulted [] (read_tags lib) vs ''tags''), wlq_status = the (read_status (entry vs ''status'')),
     wlq_text = the (read_filter 500 (\<lambda>_. True) (entry vs ''text'')),
     wlq_ref = the (read_filter 160 is_context_target_id (entry vs ''context_ref'')),
     wlq_limit = the (defaulted 50 (read_number lib 1 200) vs ''limit''),
     wlq_offset = the (defaulted 0 (read_number lib 0 10000) vs ''offset'')\<rparr>"

text \<open>\<open>_range\<close>\<close>

definition dates_ok :: "wl_query \<Rightarrow> bool" where
  "dates_ok q = (case (wlq_from q, wlq_to q) of (Some a, Some b) \<Rightarrow> a < b | _ \<Rightarrow> True)"

definition validate_wl_query :: "wl_lib \<Rightarrow> dict \<Rightarrow> wl_invalid + wl_query" where
  "validate_wl_query lib vs =
    (if tags_raise lib vs then Inl (Escapes not_iterable)
     else if query_faults lib vs \<noteq> [] then Inl (Bad_Fields (query_faults lib vs))
     else if dates_ok (query_of lib vs) then Inr (query_of lib vs) else Inl Bad_Model)"

section \<open>Pages\<close>

record wl_page =
  wlp_items :: "wl_record list"
  wlp_count :: nat
  wlp_limit :: nat
  wlp_offset :: nat
  wlp_has_more :: bool
  wlp_total :: nat

section \<open>Whatever validates is a fixed point of validation\<close>

definition record_values :: "wl_record \<Rightarrow> wl_values" where
  "record_values w =
    \<lparr>wv_id = wl_id w, wv_key = wl_key w, wv_occurred_at = Aware (wl_occurred_at w) 0, wv_timezone = wl_timezone w,
     wv_subject = wl_subject w, wv_text = wl_text w, wv_target = wl_target w, wv_status = wl_status w,
     wv_tags = wl_tags w, wv_source = wl_source w, wv_refs = wl_refs w, wv_created_at = Aware (wl_created_at w) 0,
     wv_legacy_id = wl_legacy_id w, wv_legacy_status = wl_legacy_status w, wv_legacy_source = wl_legacy_source w,
     wv_notes = wl_notes w, wv_schema = wl_schema w, wv_item = wl_item w\<rparr>"

definition wl_valid :: "wl_lib \<Rightarrow> wl_record \<Rightarrow> bool" where
  "wl_valid lib w = (validate_record lib (record_values w) = Inr w)"

lemma fault_Nil [simp]: "fault k ok = [] \<longleftrightarrow> ok" "fault k True = []"
  by (simp_all add: fault_def)

lemma take_tags_idem: "take_tags cf seen vs = Some ts \<Longrightarrow> take_tags cf seen ts = Some ts"
  by (induction cf seen vs arbitrary: ts rule: take_tags.induct) (auto simp: Let_def split: if_splits)

lemma normalize_tags_idem: "normalize_tags cf vs = Some ts \<Longrightarrow> normalize_tags cf ts = Some ts"
  by (auto simp: normalize_tags_def dest: take_tags_idem split: option.splits if_splits)

lemma text_valid_strip: "text_valid hi s \<Longrightarrow> text_valid hi (py_strip s)"
  by (auto simp: text_valid_def intro: len_between_strip)

lemma text_or_none_idem [simp]: "text_or_none (text_or_none v) = text_or_none v"
  by (auto simp: text_or_none_def split: option.splits)

lemma opt_len_text_or_none: "opt_len hi v \<Longrightarrow> opt_len hi (text_or_none v)"
  using py_len_strip by (auto simp: text_or_none_def opt_len_def split: option.splits intro: le_trans)

lemma validate_record_Inr:
  "validate_record lib v = Inr w \<longleftrightarrow> record_faults lib v = [] \<and> schema_ok (wv_id v) (wv_schema v) \<and> w = record_of_values lib v"
  by (auto simp: validate_record_def)

lemma canonical_key_again [simp]: "canonical_workspace (canonical_workspace k) = canonical_workspace k"
  by (simp add: canonical_workspace_def str_or_def)

lemma validated_log_valid:
  assumes "validate_record lib v = Inr w"
  shows "wl_valid lib w"
proof -
  have faults: "record_faults lib v = []" "schema_ok (wv_id v) (wv_schema v)" and w: "w = record_of_values lib v"
    using assms by (simp_all add: validate_record_Inr)
  obtain ts where ts: "normalize_tags (lb_fold lib) (wv_tags v) = Some ts"
    using faults(1) by (auto simp: record_faults_def)
  have "normalize_tags (lb_fold lib) ts = Some ts" by (rule normalize_tags_idem [OF ts])
  with faults ts have "record_faults lib (record_values w) = []"
    by (auto simp: record_faults_def record_values_def w record_of_values_def zone_valid_def text_valid_strip opt_len_text_or_none)
  moreover have "record_of_values lib (record_values w) = w"
    using normalize_tags_idem [OF ts] by (simp add: record_values_def w record_of_values_def ts)
  moreover have "schema_ok (wl_id w) (wl_schema w)" using faults(2) by (simp add: w record_of_values_def)
  ultimately show ?thesis by (simp add: wl_valid_def validate_record_Inr) (simp add: record_values_def)
qed

lemma wl_valid_iff:
  "wl_valid lib w \<longleftrightarrow>
    (canonical_id (wl_id w) \<or> legacy_shape (wl_id w)) \<and> schema_ok (wl_id w) (wl_schema w) \<and> 0 \<le> wl_schema w \<and> wl_schema w \<le> 1 \<and>
    canonical_workspace (wl_key w) = wl_key w \<and> zone_valid lib (wl_timezone w) \<and> py_strip (wl_timezone w) = wl_timezone w \<and>
    text_valid 500 (wl_subject w) \<and> py_strip (wl_subject w) = wl_subject w \<and>
    text_valid 4000 (wl_text w) \<and> py_strip (wl_text w) = wl_text w \<and>
    opt_len 200 (wl_target w) \<and> text_or_none (wl_target w) = wl_target w \<and>
    normalize_tags (lb_fold lib) (wl_tags w) = Some (wl_tags w) \<and> refs_ok (wl_refs w)"
  by (cases w) (auto simp: wl_valid_def validate_record_Inr record_faults_def record_of_values_def record_values_def)

end
