(* ===== verification/WorkLog_Store.thy ===== *)
theory WorkLog_Store
  imports WorkLog_Model
begin

text \<open>
  \<open>core/work_log/sqlite_repository.py\<close>: work logs as rows of the table of episodic memories, which
  they share with other memories and with work logs of an older form.  A row of the present form is
  decoded and validated again; a row of the older form is projected, with a note for everything the
  projection had to assume.  Columns of JSON text are kept as their values, \<open>None\<close> when the text is
  not JSON; the columns nobody here reads are left out.  \<open>io\<close> is the exception of SQLite in a statement.
\<close>

section \<open>Rows\<close>

record wl_row =
  er_id :: string
  er_type :: string
  er_content :: "json option"
  er_timestamp :: string
  er_metadata :: "json option"

record wl_store =
  wr_rows :: "wl_row list"
  wr_table :: bool
  wr_initialized :: bool

text \<open>The exceptions of the repository; a projection error carries a digest of the row and a field.\<close>

datatype wl_error =
    Wl_Conflict string | Wl_NotFound string | Wl_Mismatch string | Wl_Repository string
  | Wl_Projection string string | Wl_Other exn

type_synonym 'a wl_call = "wl_store \<Rightarrow> (wl_error + 'a) \<times> wl_store"

definition sqlite_error :: "exn \<Rightarrow> bool" where
  "sqlite_error e = has_class [SqliteError, SqliteIntegrityError] e"

definition sql_failed :: "string \<Rightarrow> exn \<Rightarrow> wl_error" where
  "sql_failed m e = (if sqlite_error e then Wl_Repository m else Wl_Other e)"

section \<open>Visibility\<close>

text \<open>\<open>json_extract(content, '$.type') = 'work_log'\<close> and the tests before it.\<close>

definition work_log_content :: "wl_row \<Rightarrow> dict option" where
  "work_log_content r =
    (case er_content r of
       Some (JObj d) \<Rightarrow> if map_of d ''type'' = Some (JStr ''work_log'') then Some d else None
     | _ \<Rightarrow> None)"

text \<open>The workspace that \<open>$.metadata\<close> names completely.\<close>

definition content_workspace :: "dict \<Rightarrow> identity option" where
  "content_workspace d =
    (case map_of d ''metadata'' of
       Some (JObj m) \<Rightarrow>
         (case (complete_text (map_of m ''tenant_id''), complete_text (map_of m ''workspace_id''),
             complete_text (map_of m ''namespace'')) of
            (Some t, Some w, Some n) \<Rightarrow> Some (t, w, n)
          | _ \<Rightarrow> None)
     | _ \<Rightarrow> None)"

text \<open>\<open>_visible_rows_sql\<close>; \<open>strict\<close> is \<open>require_complete_workspace\<close>.\<close>

definition visible_row :: "bool \<Rightarrow> identity \<Rightarrow> wl_row \<Rightarrow> bool" where
  "visible_row strict ident r =
    (er_type r = ''episodic'' \<and>
     (case work_log_content r of
        None \<Rightarrow> False
      | Some d \<Rightarrow>
          (case content_workspace d of
             Some i \<Rightarrow> i = ident
           | None \<Rightarrow> \<not> strict \<and> ident = default_identity)))"

definition scoped_identity_exists :: "string \<Rightarrow> wl_store \<Rightarrow> bool" where
  "scoped_identity_exists i s =
    list_ex (\<lambda>r. er_id r = i \<and> er_type r = ''episodic'' \<and>
      (case work_log_content r of None \<Rightarrow> False | Some d \<Rightarrow> content_workspace d \<noteq> None)) (wr_rows s)"

definition row_by_storage_id :: "string \<Rightarrow> wl_store \<Rightarrow> wl_row option" where
  "row_by_storage_id i s = find (\<lambda>r. er_id r = i \<and> er_type r = ''episodic'') (wr_rows s)"

definition visible_identity_row :: "identity \<Rightarrow> string \<Rightarrow> wl_store \<Rightarrow> wl_row option" where
  "visible_identity_row ident i s = find (\<lambda>r. visible_row True ident r \<and> er_id r = i) (wr_rows s)"

section \<open>The present form\<close>

definition row_digest :: "wl_lib \<Rightarrow> string \<Rightarrow> string" where
  "row_digest lib i = lb_sha lib i"

definition ref_json :: "wl_ref \<Rightarrow> json" where
  "ref_json r = JObj
    [(''kind'', JStr (wl_kind_value (rf_kind r))), (''target_id'', JStr (rf_target r)),
     (''relation'', case rf_relation r of None \<Rightarrow> JNull | Some s \<Rightarrow> JStr s),
     (''resolution'', JStr (wl_resolution_value (rf_resolution r)))]"

definition canonical_content :: "wl_record \<Rightarrow> dict" where
  "canonical_content w =
    [(''type'', JStr ''work_log''), (''schema_version'', JInt 1),
     (''metadata'', JObj
        [(''tenant_id'', JStr (tenant_id (wl_key w))), (''workspace_id'', JStr (workspace_id (wl_key w))),
         (''namespace'', JStr (namespace (wl_key w)))]),
     (''occurred_at'', JStr (isoformat (wl_occurred_at w))), (''timezone'', JStr (wl_timezone w)),
     (''subject'', JStr (wl_subject w)), (''raw_text'', JStr (wl_text w)),
     (''target'', case wl_target w of None \<Rightarrow> JNull | Some s \<Rightarrow> JStr s),
     (''status'', JStr (wl_status_value (wl_status w))), (''tags'', JArr (map JStr (wl_tags w))),
     (''source'', JStr (wl_source_value (wl_source w))), (''context_refs'', JArr (map ref_json (wl_refs w)))] @
    (case wl_item w of None \<Rightarrow> [] | Some i \<Rightarrow> if i = [] then [] else [(''inbox_item_id'', JStr i)])"

definition outer_metadata :: "wl_record \<Rightarrow> dict" where
  "outer_metadata w =
    [(''source'', JStr (wl_source_value (wl_source w))), (''workspace_id'', JStr (workspace_id (wl_key w)))] @
    (case wl_item w of None \<Rightarrow> [] | Some i \<Rightarrow> if i = [] then [] else [(''inbox_item_id'', JStr i)])"

definition row_of_record :: "wl_record \<Rightarrow> string \<Rightarrow> wl_row" where
  "row_of_record w i =
    \<lparr>er_id = i, er_type = ''episodic'', er_content = Some (JObj (canonical_content w)),
     er_timestamp = isoformat (wl_created_at w), er_metadata = Some (JObj (outer_metadata w))\<rparr>"

text \<open>A key whose absence is an error.\<close>

definition needed :: "dict \<Rightarrow> string \<Rightarrow> (json \<Rightarrow> 'a option) \<Rightarrow> ('a \<Rightarrow> 'b option) \<Rightarrow> 'b option" where
  "needed d k read f = Option.bind (Option.bind (map_of d k) read) f"

text \<open>The arguments \<open>_decode_canonical\<close> passes to the constructor, if every one has the type it needs.\<close>

definition canonical_values :: "wl_lib \<Rightarrow> wl_row \<Rightarrow> dict \<Rightarrow> wl_values option" where
  "canonical_values lib r d =
    needed d ''metadata'' (\<lambda>v. case v of JObj m \<Rightarrow> Some m | _ \<Rightarrow> None) (\<lambda>m.
    needed m ''tenant_id'' just_text (\<lambda>tenant.
    needed m ''workspace_id'' just_text (\<lambda>ws.
    needed m ''namespace'' just_text (\<lambda>ns.
    needed d ''occurred_at'' (lb_datetime lib) (\<lambda>occurred.
    needed d ''timezone'' just_text (\<lambda>zone.
    needed d ''subject'' just_text (\<lambda>subject.
    needed d ''raw_text'' just_text (\<lambda>txt.
    needed d ''status'' (\<lambda>v. Option.bind (just_text v) parse_wl_status) (\<lambda>st.
    needed d ''source'' (\<lambda>v. Option.bind (just_text v) parse_wl_source) (\<lambda>src.
    needed d ''schema_version'' (lb_int lib) (\<lambda>schema.
    Option.bind (opt_text (entry d ''target'')) (\<lambda>target.
    Option.bind (tag_texts lib (entry d ''tags'')) (\<lambda>tags.
    Option.bind (case map_of d ''context_refs'' of None \<Rightarrow> Some [] | Some v \<Rightarrow> read_refs v) (\<lambda>refs.
    Option.bind (lb_datetime lib (JStr (er_timestamp r))) (\<lambda>created.
    Option.bind (opt_text (entry d ''inbox_item_id'')) (\<lambda>item. Some
      \<lparr>wv_id = er_id r, wv_key = plain_key tenant ws ns [], wv_occurred_at = occurred, wv_timezone = zone,
       wv_subject = subject, wv_text = txt, wv_target = target, wv_status = st, wv_tags = tags, wv_source = src,
       wv_refs = refs, wv_created_at = created, wv_legacy_id = None, wv_legacy_status = None,
       wv_legacy_source = None, wv_notes = [], wv_schema = schema, wv_item = item\<rparr>))))))))))))))))"

definition decode_canonical :: "wl_lib \<Rightarrow> wl_row \<Rightarrow> dict \<Rightarrow> wl_error + wl_record" where
  "decode_canonical lib r d =
    (case Option.bind (canonical_values lib r d) (\<lambda>v. case validate_record lib v of Inl e \<Rightarrow> None | Inr w \<Rightarrow> Some w) of
       None \<Rightarrow> Inl (Wl_Projection (row_digest lib (er_id r)) ''canonical_row'')
     | Some w \<Rightarrow> Inr w)"

section \<open>The older form\<close>

definition legacy_id :: "wl_lib \<Rightarrow> string \<Rightarrow> string" where
  "legacy_id lib i = ''wl_legacy_'' @ lb_sha lib i"

text \<open>\<open>_string\<close>\<close>

definition string_of :: "json \<Rightarrow> string option" where
  "string_of v = (case v of JStr s \<Rightarrow> if py_strip s = [] then None else Some (py_strip s) | _ \<Rightarrow> None)"

definition some_or :: "'a option \<Rightarrow> 'a option \<Rightarrow> 'a option" where
  "some_or a b = (case a of None \<Rightarrow> b | Some x \<Rightarrow> Some x)"

definition first_chars :: "nat \<Rightarrow> string \<Rightarrow> string" where
  "first_chars n s = concat (take n (py_chars s))"

definition legacy_workspace :: "dict \<Rightarrow> workspace_key" where
  "legacy_workspace d =
    (case map_of d ''metadata'' of
       Some (JObj m) \<Rightarrow>
         (case (string_of (entry m ''tenant_id''), string_of (entry m ''workspace_id''), string_of (entry m ''namespace'')) of
            (Some t, Some w, Some n) \<Rightarrow> plain_key t w n []
          | _ \<Rightarrow> plain_key ''default'' ''default'' ''default'' [])
     | _ \<Rightarrow> plain_key ''default'' ''default'' ''default'' [])"

text \<open>The zone and the notes taken; \<open>def\<close> is the zone of the repository.\<close>

definition legacy_zone :: "wl_lib \<Rightarrow> string \<Rightarrow> dict \<Rightarrow> string \<times> string list" where
  "legacy_zone lib def d =
    (case string_of (entry d ''timezone'') of
       None \<Rightarrow> (def, [])
     | Some z \<Rightarrow> if lb_zone_ok lib z then (z, []) else (def, [''invalid_timezone_fallback'']))"

text \<open>A wall time is accepted only when exactly one instant shows it.\<close>

definition localize :: "wl_lib \<Rightarrow> string \<Rightarrow> int \<Rightarrow> instant option" where
  "localize lib zone naive =
    (case remdups (map (lb_to_utc lib zone naive)
        (filter (\<lambda>f. lb_from_utc lib zone (lb_to_utc lib zone naive f) = (naive, f)) [False, True])) of
       [t] \<Rightarrow> Some t
     | _ \<Rightarrow> None)"

text \<open>\<open>_parse_legacy_datetime\<close>: the left side is its \<open>ValueError\<close>.\<close>

definition parse_legacy :: "wl_lib \<Rightarrow> string \<Rightarrow> json \<Rightarrow> unit + instant option" where
  "parse_legacy lib zone v =
    (case v of
       JStr s \<Rightarrow>
         (let raw = py_strip s in
          if raw = [] then Inr None
          else case (if py_len raw = 10 then map_option Naive (lb_iso_date lib raw) else lb_iso_datetime lib raw) of
            None \<Rightarrow> Inr None
          | Some (Aware t off) \<Rightarrow> Inr (Some t)
          | Some (Naive n) \<Rightarrow>
              (case localize lib zone n of None \<Rightarrow> Inl () | Some t \<Rightarrow> Inr (Some t)))
     | _ \<Rightarrow> Inr None)"

text \<open>The first candidate with a time; every later field than the first leaves a note.\<close>

fun first_time :: "wl_lib \<Rightarrow> string \<Rightarrow> string \<Rightarrow> (string \<times> json) list \<Rightarrow> wl_error + instant \<times> string list" where
  "first_time lib zone digest [] = Inl (Wl_Projection digest ''occurred_at'')"
| "first_time lib zone digest ((field, v) # rest) =
    (case parse_legacy lib zone v of
       Inl _ \<Rightarrow> Inl (Wl_Projection digest field)
     | Inr (Some t) \<Rightarrow>
         Inr (t, if field = ''content.occurred_at'' then []
           else [''occurred_at_from_'' @ replace_char CHR ''.'' CHR ''_'' field])
     | Inr None \<Rightarrow> first_time lib zone digest rest)"

definition legacy_occurred_at :: "wl_lib \<Rightarrow> dict \<Rightarrow> wl_row \<Rightarrow> string \<Rightarrow> string \<Rightarrow> wl_error + instant \<times> string list" where
  "legacy_occurred_at lib d r zone digest =
    first_time lib zone digest
      [(''content.occurred_at'', entry d ''occurred_at''), (''content.date'', entry d ''date''),
       (''timestamp'', JStr (er_timestamp r))]"

definition legacy_created_at :: "wl_lib \<Rightarrow> wl_row \<Rightarrow> string \<Rightarrow> string \<Rightarrow> wl_error + instant" where
  "legacy_created_at lib r zone digest =
    (case parse_legacy lib zone (JStr (er_timestamp r)) of
       Inr (Some t) \<Rightarrow> Inr t
     | _ \<Rightarrow> Inl (Wl_Projection digest ''created_at''))"

text \<open>The first of some keys that holds a text.\<close>

fun first_text :: "dict \<Rightarrow> string list \<Rightarrow> string option" where
  "first_text d [] = None"
| "first_text d (k # ks) = some_or (string_of (entry d k)) (first_text d ks)"

definition legacy_subject :: "dict \<Rightarrow> string \<Rightarrow> wl_error + string" where
  "legacy_subject d digest =
    (case first_text d [''subject'', ''raw_text'', ''description'', ''title''] of
       None \<Rightarrow> Inl (Wl_Projection digest ''subject'')
     | Some s \<Rightarrow> Inr (first_chars 500 s))"

definition legacy_text :: "dict \<Rightarrow> string \<Rightarrow> string" where
  "legacy_text d subject =
    (case first_text d [''raw_text'', ''subject'', ''description''] of None \<Rightarrow> subject | Some s \<Rightarrow> first_chars 4000 s)"

text \<open>The status names of older rows, the Chinese ones by their UTF-8 bytes.\<close>

definition bytes_text :: "nat list \<Rightarrow> string" where
  "bytes_text bs = map char_of bs"

definition legacy_statuses :: "(string \<times> wl_status) list" where
  "legacy_statuses =
    [(''completed'', WL_COMPLETED), (bytes_text [0xE5, 0xB7, 0xB2, 0xE5, 0xAE, 0x8C, 0xE6, 0x88, 0x90], WL_COMPLETED),
     (bytes_text [0xE5, 0xAE, 0x8C, 0xE6, 0x88, 0x90], WL_COMPLETED), (''done'', WL_COMPLETED),
     (''in_progress'', WL_IN_PROGRESS),
     (bytes_text [0xE8, 0xBF, 0x9B, 0xE8, 0xA1, 0x8C, 0xE4, 0xB8, 0xAD], WL_IN_PROGRESS),
     (bytes_text [0xE6, 0xAD, 0xA3, 0xE5, 0x9C, 0xA8, 0xE8, 0xBF, 0x9B, 0xE8, 0xA1, 0x8C], WL_IN_PROGRESS),
     (''blocked'', WL_BLOCKED), (bytes_text [0xE9, 0x98, 0xBB, 0xE5, 0xA1, 0x9E], WL_BLOCKED),
     (bytes_text [0xE5, 0x8D, 0xA1, 0xE4, 0xBD, 0x8F], WL_BLOCKED),
     (bytes_text [0xE7, 0xAD, 0x89, 0xE5, 0xBE, 0x85], WL_BLOCKED)]"

definition legacy_status :: "wl_lib \<Rightarrow> json \<Rightarrow> wl_status \<times> string option" where
  "legacy_status lib v =
    (case string_of v of
       None \<Rightarrow> (WL_INFORMATIONAL, None)
     | Some raw \<Rightarrow>
         (case map_of legacy_statuses (lb_fold lib raw) of
            Some st \<Rightarrow> (st, None)
          | None \<Rightarrow> (WL_INFORMATIONAL, Some raw)))"

fun keep_tags :: "(string \<Rightarrow> string) \<Rightarrow> nat \<Rightarrow> string list \<Rightarrow> string list \<Rightarrow> string list" where
  "keep_tags cf n seen [] = []"
| "keep_tags cf 0 seen vs = []"
| "keep_tags cf (Suc n) seen (v # vs) =
    (let item = first_chars 64 (py_strip v) in
     if item = [] \<or> cf item \<in> set seen then keep_tags cf (Suc n) seen vs
     else item # keep_tags cf n (cf item # seen) vs)"

definition legacy_tags :: "wl_lib \<Rightarrow> json \<Rightarrow> string list \<times> string list" where
  "legacy_tags lib v =
    (case v of
       JStr s \<Rightarrow> (keep_tags (lb_fold lib) 20 [] [s], [])
     | JArr xs \<Rightarrow> (keep_tags (lb_fold lib) 20 [] (map (str_of lib) xs), [])
     | JNull \<Rightarrow> ([], [])
     | _ \<Rightarrow> ([], [''invalid_tags_ignored'']))"

definition legacy_target :: "json \<Rightarrow> string option" where
  "legacy_target v =
    (case v of JStr s \<Rightarrow> if py_strip s = [] then None else Some (first_chars 200 (py_strip s)) | _ \<Rightarrow> None)"

definition item_of :: "dict \<Rightarrow> dict \<Rightarrow> string option" where
  "item_of d outer = some_or (string_of (entry d ''inbox_item_id'')) (string_of (entry outer ''inbox_item_id''))"

definition source_of :: "dict \<Rightarrow> dict \<Rightarrow> string option" where
  "source_of d outer = some_or (string_of (entry d ''source'')) (string_of (entry outer ''source''))"

text \<open>The source, the source text that is not known, and the notes.\<close>

definition legacy_source :: "wl_lib \<Rightarrow> dict \<Rightarrow> dict \<Rightarrow> string \<Rightarrow> wl_source \<times> string option \<times> string list" where
  "legacy_source lib d outer i =
    (case source_of d outer of
       Some raw \<Rightarrow>
         (case parse_wl_source (lb_fold lib raw) of
            Some src \<Rightarrow> (src, None, [])
          | None \<Rightarrow> (WL_LEGACY, Some raw, [''unknown_source_mapped_to_legacy'']))
     | None \<Rightarrow> (if inbox_alias i \<and> item_of d outer \<noteq> None then WL_INBOX else WL_LEGACY, None, []))"

fun keep_refs :: "nat \<Rightarrow> (wl_kind \<times> string) list \<Rightarrow> json list \<Rightarrow> wl_ref list \<times> string list" where
  "keep_refs n seen [] = ([], [])"
| "keep_refs 0 seen vs = ([], [])"
| "keep_refs (Suc n) seen (v # vs) =
    (case read_ref v of
       None \<Rightarrow> apsnd ((#) ''invalid_context_ref_ignored'') (keep_refs (Suc n) seen vs)
     | Some r \<Rightarrow>
         if (rf_kind r, rf_target r) \<in> set seen
         then apsnd ((#) ''duplicate_context_ref_ignored'') (keep_refs (Suc n) seen vs)
         else apfst ((#) r) (keep_refs n ((rf_kind r, rf_target r) # seen) vs))"

definition legacy_refs :: "json \<Rightarrow> wl_ref list \<times> string list" where
  "legacy_refs v =
    (case v of
       JNull \<Rightarrow> ([], [])
     | JArr xs \<Rightarrow> keep_refs 20 [] xs
     | _ \<Rightarrow> ([], [''invalid_context_refs_ignored'']))"

text \<open>\<open>_project_legacy\<close>; \<open>def\<close> is the time zone of the repository.\<close>

definition legacy_values ::
  "wl_lib \<Rightarrow> string \<Rightarrow> wl_row \<Rightarrow> dict \<Rightarrow> dict \<Rightarrow> instant \<Rightarrow> string list \<Rightarrow> instant \<Rightarrow> string \<Rightarrow> wl_values" where
  "legacy_values lib def r d outer occurred notes created subject =
    (case (legacy_zone lib def d, legacy_status lib (entry d ''status''), legacy_tags lib (entry d ''tags''),
        legacy_source lib d outer (er_id r), legacy_refs (entry d ''context_refs'')) of
       ((zone, n1), (st, raw_status), (tags, n2), (src, raw_source, n3), (refs, n4)) \<Rightarrow>
         \<lparr>wv_id = legacy_id lib (er_id r), wv_key = legacy_workspace d, wv_occurred_at = Aware occurred 0,
          wv_timezone = zone, wv_subject = subject, wv_text = legacy_text d subject,
          wv_target = legacy_target (entry d ''target''), wv_status = st, wv_tags = tags, wv_source = src,
          wv_refs = refs, wv_created_at = Aware created 0, wv_legacy_id = Some (er_id r),
          wv_legacy_status = raw_status, wv_legacy_source = raw_source,
          wv_notes = n1 @ notes @ n2 @ n3 @ n4, wv_schema = 0, wv_item = item_of d outer\<rparr>)"

definition project_legacy :: "wl_lib \<Rightarrow> string \<Rightarrow> wl_row \<Rightarrow> dict \<Rightarrow> dict \<Rightarrow> wl_error + wl_record" where
  "project_legacy lib def r d outer =
    (let digest = row_digest lib (er_id r); zone = fst (legacy_zone lib def d) in
     if er_id r = [] then Inl (Wl_Projection digest ''id'')
     else bindR (legacy_occurred_at lib d r zone digest) (\<lambda>(occurred, notes).
       bindR (legacy_created_at lib r zone digest) (\<lambda>created.
       bindR (legacy_subject d digest) (\<lambda>subject.
         case validate_record lib (legacy_values lib def r d outer occurred notes created subject) of
           Inl _ \<Rightarrow> Inl (Wl_Projection digest ''record'')
         | Inr w \<Rightarrow> Inr w))))"

definition row_metadata :: "wl_row \<Rightarrow> dict" where
  "row_metadata r = (case er_metadata r of Some (JObj d) \<Rightarrow> d | _ \<Rightarrow> [])"

definition project_row :: "wl_lib \<Rightarrow> string \<Rightarrow> wl_row \<Rightarrow> wl_error + wl_record" where
  "project_row lib def r =
    (case work_log_content r of
       None \<Rightarrow> Inl (Wl_NotFound ''row is not a Work Log'')
     | Some d \<Rightarrow>
         if canonical_id (er_id r) then decode_canonical lib r d
         else project_legacy lib def r d (row_metadata r))"

definition project_inbox_alias :: "wl_lib \<Rightarrow> string \<Rightarrow> wl_row \<Rightarrow> string \<Rightarrow> wl_error + wl_record" where
  "project_inbox_alias lib def r a =
    (case work_log_content r of
       None \<Rightarrow> Inl (Wl_NotFound ''Inbox alias is not a Work Log'')
     | Some d \<Rightarrow>
         (let outer = row_metadata r in
          case item_of d outer of
            None \<Rightarrow> Inl (Wl_NotFound ''Inbox alias has no consistent Inbox source'')
          | Some item \<Rightarrow>
              if source_of d outer \<noteq> Some (wl_source_value WL_INBOX)
              then Inl (Wl_NotFound ''Inbox alias has no consistent Inbox source'')
              else if ''inbox_wl_'' @ take 24 (lb_sha lib (''inbox_wl|'' @ item)) \<noteq> a
              then Inl (Wl_NotFound ''Inbox alias source evidence does not match'')
              else project_legacy lib def r d outer))"

section \<open>Statements\<close>

definition insert_row :: "exn option \<Rightarrow> wl_record \<Rightarrow> string \<Rightarrow> unit wl_call" where
  "insert_row io w i s =
    (case io of
       Some e \<Rightarrow>
         (Inl (if has_class [SqliteIntegrityError] e then Wl_Conflict ''Work Log id already exists''
               else sql_failed ''Work Log insert failed'' e), s)
     | None \<Rightarrow>
         if \<not> wr_table s then (Inl (Wl_Repository ''Work Log insert failed''), s)
         else if list_ex (\<lambda>r. er_id r = i) (wr_rows s) then (Inl (Wl_Conflict ''Work Log id already exists''), s)
         else (Inr (), s\<lparr>wr_rows := wr_rows s @ [row_of_record w i]\<rparr>))"

text \<open>
  Reading back after an insert: no handler there, so that an exception of SQLite leaves as it is.
\<close>

definition read_back :: "exn option \<Rightarrow> string \<Rightarrow> string \<Rightarrow> (wl_row \<Rightarrow> wl_error + wl_record) \<Rightarrow> wl_record wl_call" where
  "read_back io missing i project s =
    (case io of
       Some e \<Rightarrow> (Inl (Wl_Other e), s)
     | None \<Rightarrow>
         (case row_by_storage_id i s of None \<Rightarrow> (Inl (Wl_Repository missing), s) | Some r \<Rightarrow> (project r, s)))"

definition repo_create_log :: "wl_lib \<Rightarrow> string \<Rightarrow> exn option \<Rightarrow> exn option \<Rightarrow> wl_record \<Rightarrow> wl_record wl_call" where
  "repo_create_log lib def io io' w =
    (if wl_schema w \<noteq> 1 \<or> \<not> canonical_id (wl_id w)
     then failS (Wl_Conflict ''only canonical Work Logs can be created'')
     else bindS (insert_row io w (wl_id w)) (\<lambda>_.
       read_back io' ''canonical Work Log was not persisted'' (wl_id w) (project_row lib def)))"

definition repo_create_from_inbox ::
  "wl_lib \<Rightarrow> string \<Rightarrow> exn option \<Rightarrow> exn option \<Rightarrow> wl_record \<Rightarrow> string \<Rightarrow> wl_record wl_call" where
  "repo_create_from_inbox lib def io io' w reserved =
    (if wl_source w \<noteq> WL_INBOX \<or> wl_item w \<in> {None, Some []}
     then failS (Wl_Conflict ''Inbox source evidence is required'')
     else if \<not> (canonical_id reserved \<or> inbox_alias reserved)
     then failS (Wl_Conflict ''reserved Inbox Work Log id is invalid'')
     else bindS (insert_row io w reserved) (\<lambda>_.
       if inbox_alias reserved
       then read_back io' ''reserved Inbox row was not persisted'' reserved (\<lambda>r. project_inbox_alias lib def r reserved)
       else read_back io' ''Inbox Work Log was not persisted'' reserved (project_row lib def)))"

text \<open>A row of another workspace is told apart from no row; \<open>io'\<close> belongs to that second query.\<close>

definition find_scoped_log ::
  "exn option \<Rightarrow> identity \<Rightarrow> string \<Rightarrow> (wl_row \<Rightarrow> wl_error + wl_record) \<Rightarrow> wl_store \<Rightarrow> wl_error + wl_record" where
  "find_scoped_log io' ident i project s =
    (case visible_identity_row ident i s of
       Some r \<Rightarrow> project r
     | None \<Rightarrow>
         (case io' of
            Some e \<Rightarrow> Inl (sql_failed ''Work Log lookup failed'' e)
          | None \<Rightarrow>
              if scoped_identity_exists i s then Inl (Wl_Mismatch ''Work Log belongs to another workspace'')
              else Inl (Wl_NotFound ''Work Log was not found'')))"

definition find_legacy_projection :: "wl_lib \<Rightarrow> string \<Rightarrow> identity \<Rightarrow> string \<Rightarrow> wl_store \<Rightarrow> wl_error + wl_record" where
  "find_legacy_projection lib def ident i s =
    (case find (\<lambda>r. visible_row False ident r \<and> legacy_id lib (er_id r) = i) (wr_rows s) of
       None \<Rightarrow> Inl (Wl_NotFound ''Work Log was not found'')
     | Some r \<Rightarrow> project_row lib def r)"

definition repo_get_log ::
  "wl_lib \<Rightarrow> string \<Rightarrow> exn option \<Rightarrow> exn option \<Rightarrow> workspace_key \<Rightarrow> string \<Rightarrow> wl_record wl_call" where
  "repo_get_log lib def io io' key i s =
    (let ident = key_identity key in
     (if \<not> (canonical_id i \<or> inbox_alias i \<or> legacy_shape i) then Inl (Wl_NotFound ''Work Log was not found'')
      else case io of
        Some e \<Rightarrow> Inl (sql_failed ''Work Log lookup failed'' e)
      | None \<Rightarrow>
          if \<not> wr_table s then Inl (Wl_Repository ''Work Log lookup failed'')
          else if canonical_id i then find_scoped_log io' ident i (project_row lib def) s
          else if inbox_alias i then find_scoped_log io' ident i (\<lambda>r. project_inbox_alias lib def r i) s
          else find_legacy_projection lib def ident i s, s))"

section \<open>Listing\<close>

definition log_matches :: "wl_lib \<Rightarrow> wl_query \<Rightarrow> wl_record \<Rightarrow> bool" where
  "log_matches lib q w =
    (let cf = lb_fold lib; or_empty = (\<lambda>v. case v of None \<Rightarrow> [] | Some s \<Rightarrow> s) in
     opt_clause (\<lambda>t. t \<le> wl_occurred_at w) (wlq_from q) \<and>
     opt_clause (\<lambda>t. wl_occurred_at w < t) (wlq_to q) \<and>
     opt_clause (\<lambda>t. cf (or_empty (wl_target w)) = cf t) (wlq_target q) \<and>
     list_all (\<lambda>t. cf t \<in> cf ` set (wl_tags w)) (wlq_tags q) \<and>
     opt_clause (\<lambda>st. wl_status w = st) (wlq_status q) \<and>
     opt_clause (\<lambda>t. has_substring (cf t)
        (cf (wl_subject w @ [CHR 0x0A] @ wl_text w @ [CHR 0x0A] @ or_empty (wl_target w)))) (wlq_text q) \<and>
     opt_clause (\<lambda>i. list_ex (\<lambda>r. rf_target r = i) (wl_refs w)) (wlq_ref q))"

text \<open>\<open>sort(reverse=True)\<close> keeps equal elements in order.\<close>

definition latest_first :: "wl_record list \<Rightarrow> wl_record list" where
  "latest_first ws = rev (sort_key (\<lambda>w. (wl_occurred_at w, wl_id w)) (rev ws))"

definition log_page :: "wl_query \<Rightarrow> wl_record list \<Rightarrow> wl_page" where
  "log_page q ws =
    (let items = sql_page (wlq_limit q) (wlq_offset q) ws in
     \<lparr>wlp_items = items, wlp_count = length items, wlp_limit = wlq_limit q, wlp_offset = wlq_offset q,
      wlp_has_more = (wlq_offset q + length items < length ws), wlp_total = length ws\<rparr>)"

definition repo_list_logs :: "wl_lib \<Rightarrow> string \<Rightarrow> exn option \<Rightarrow> workspace_key \<Rightarrow> wl_query \<Rightarrow> wl_page wl_call" where
  "repo_list_logs lib def io key q s =
    ((case io of
        Some e \<Rightarrow> Inl (sql_failed ''Work Log query failed'' e)
      | None \<Rightarrow>
          if \<not> wr_table s then Inl (Wl_Repository ''Work Log query failed'')
          else bindR (decode_rows (project_row lib def) (filter (visible_row False (key_identity key)) (wr_rows s)))
            (\<lambda>ws. Inr (log_page q (latest_first (filter (log_matches lib q) ws))))), s)"

section \<open>Opening\<close>

definition repo_initialize_log :: "exn option \<Rightarrow> unit wl_call" where
  "repo_initialize_log io s =
    (if io \<noteq> None \<or> \<not> wr_table s then (Inl (Wl_Repository ''Work Log repository initialization failed''), s)
     else (Inr (), s\<lparr>wr_initialized := True\<rparr>))"

definition repo_close_log :: "wl_store \<Rightarrow> wl_store" where
  "repo_close_log s = s\<lparr>wr_initialized := False\<rparr>"

definition repo_health_log :: "exn option \<Rightarrow> string wl_call" where
  "repo_health_log io s =
    ((if \<not> wr_initialized s then Inr ''not_initialized''
      else case io of
        Some e \<Rightarrow> if sqlite_error e then Inr ''failed'' else Inl (Wl_Other e)
      | None \<Rightarrow> Inr (if wr_table s then ''healthy'' else ''failed'')), s)"

section \<open>What is read is valid\<close>

lemma keep_Inr [simp]:
  "(case m of Inl e \<Rightarrow> Inl x | Inr w \<Rightarrow> Inr w) = Inr y \<longleftrightarrow> m = Inr y"
  "(case m of Inl e \<Rightarrow> None | Inr w \<Rightarrow> Some w) = Some y \<longleftrightarrow> m = Inr y"
  "(case n of None \<Rightarrow> Inl x | Some w \<Rightarrow> Inr w) = Inr y \<longleftrightarrow> n = Some y"
  by (cases m; auto; fail)+ (cases n; auto)

lemma decode_canonical_valid: "decode_canonical lib r d = Inr w \<Longrightarrow> wl_valid lib w"
  by (auto simp: decode_canonical_def bind_eq_Some_conv intro: validated_log_valid)

lemma project_legacy_valid: "project_legacy lib def r d outer = Inr w \<Longrightarrow> wl_valid lib w"
  by (auto simp: project_legacy_def Let_def bindR_Inr_iff split: if_splits prod.splits intro: validated_log_valid)

lemma project_row_valid: "project_row lib def r = Inr w \<Longrightarrow> wl_valid lib w"
  by (auto simp: project_row_def split: option.splits if_splits intro: decode_canonical_valid project_legacy_valid)

lemma project_alias_valid: "project_inbox_alias lib def r a = Inr w \<Longrightarrow> wl_valid lib w"
  by (auto simp: project_inbox_alias_def Let_def split: option.splits if_splits intro: project_legacy_valid)

lemma read_back_Inr: "read_back io m i p s = (Inr w, s') \<Longrightarrow> s' = s \<and> (\<exists>r. p r = Inr w)"
  by (auto simp: read_back_def split: option.splits)

lemma repo_create_valid: "repo_create_log lib def io io' w s = (Inr w', s') \<Longrightarrow> wl_valid lib w'"
  by (auto simp: repo_create_log_def bindS_Inr failS_def dest!: read_back_Inr split: if_splits intro: project_row_valid)

lemma repo_create_from_inbox_valid: "repo_create_from_inbox lib def io io' w i s = (Inr w', s') \<Longrightarrow> wl_valid lib w'"
  by (auto simp: repo_create_from_inbox_def bindS_Inr failS_def dest!: read_back_Inr split: if_splits
      intro: project_row_valid project_alias_valid)

lemma repo_get_valid: "repo_get_log lib def io io' key i s = (Inr w, s') \<Longrightarrow> wl_valid lib w"
  by (auto simp: repo_get_log_def Let_def find_scoped_log_def find_legacy_projection_def split: option.splits if_splits
      intro: project_row_valid project_alias_valid)

lemma repo_list_valid:
  assumes "repo_list_logs lib def io key q s = (Inr p, s')" "w \<in> set (wlp_items p)"
  shows "wl_valid lib w"
proof -
  obtain ws where ws: "decode_rows (project_row lib def) (filter (visible_row False (key_identity key)) (wr_rows s)) = Inr ws"
    and p: "p = log_page q (latest_first (filter (log_matches lib q) ws))"
    using assms(1) by (auto simp: repo_list_logs_def bindR_Inr_iff split: option.splits if_splits)
  have "w \<in> set ws" using assms(2) set_sql_page by (fastforce simp: p log_page_def Let_def latest_first_def)
  then have "Inr w \<in> (Inr ` set ws :: (wl_error + wl_record) set)" by blast
  also have "\<dots> = project_row lib def ` set (filter (visible_row False (key_identity key)) (wr_rows s))"
    using ws by (simp only: decode_rows_Inr flip: set_map)
  finally obtain r where "project_row lib def r = Inr w" by (metis imageE)
  then show ?thesis by (rule project_row_valid)
qed

section \<open>What is written\<close>

text \<open>The table before and after: unchanged, or one more row with a new identifier.\<close>

definition log_added :: "identity \<Rightarrow> wl_store \<Rightarrow> wl_store \<Rightarrow> bool" where
  "log_added ident s s' =
    (wr_rows s' = wr_rows s \<or>
     (\<exists>w i. wr_rows s' = wr_rows s @ [row_of_record w i] \<and> identity_of (wl_key w) = ident \<and>
        i \<notin> er_id ` set (wr_rows s)))"

lemma log_added_same [simp]: "log_added ident s s"
  by (simp add: log_added_def)

lemma insert_row_cases:
  assumes "insert_row io w i s = (r, s')"
  shows "(\<exists>e. r = Inl e \<and> s' = s) \<or>
    (r = Inr () \<and> s' = s\<lparr>wr_rows := wr_rows s @ [row_of_record w i]\<rparr> \<and> i \<notin> er_id ` set (wr_rows s))"
  using assms by (auto simp: insert_row_def list_ex_iff split: option.splits if_splits)

lemma read_back_state [simp]: "snd (read_back io m i p s) = s"
  by (simp add: read_back_def split: option.split)

lemma inserting_adds:
  assumes "bindS (insert_row io w i) f s = (r, s')" "\<And>t. snd (f () t) = t" "identity_of (wl_key w) = ident"
  shows "log_added ident s s'"
proof (cases "insert_row io w i s")
  case (Pair r0 s0)
  from insert_row_cases [OF this] show ?thesis
  proof
    assume "\<exists>e. r0 = Inl e \<and> s0 = s"
    with assms(1) Pair show ?thesis by (auto simp: bindS_run)
  next
    assume new: "r0 = Inr () \<and> s0 = s\<lparr>wr_rows := wr_rows s @ [row_of_record w i]\<rparr> \<and> i \<notin> er_id ` set (wr_rows s)"
    with assms(1) Pair have "f () s0 = (r, s')" by (auto simp: bindS_run)
    with assms(2) [of s0] have "s' = s0" by simp
    with new assms(3) show ?thesis by (auto simp: log_added_def)
  qed
qed

lemma repo_create_adds:
  assumes "repo_create_log lib def io io' w s = (r, s')" "identity_of (wl_key w) = ident"
  shows "log_added ident s s'"
  using assms(1) by (auto simp: repo_create_log_def failS_def split: if_splits elim: inserting_adds [OF _ _ assms(2)])

lemma repo_create_from_inbox_adds:
  assumes "repo_create_from_inbox lib def io io' w i s = (r, s')" "identity_of (wl_key w) = ident"
  shows "log_added ident s s'"
  using assms(1) by (auto simp: repo_create_from_inbox_def failS_def split: if_splits elim!: inserting_adds [OF _ _ assms(2)])

lemma project_no_conflict [simp]:
  "project_row lib def r \<noteq> Inl (Wl_Conflict m)" "project_inbox_alias lib def r a \<noteq> Inl (Wl_Conflict m)"
proof -
  have "first_time lib z dg cs \<noteq> Inl (Wl_Conflict m)" for z dg cs
    by (induction lib z dg cs rule: first_time.induct) (auto split: sum.split option.split)
  then have "project_legacy lib def r d outer \<noteq> Inl (Wl_Conflict m)" for d outer
    by (auto simp: project_legacy_def Let_def legacy_occurred_at_def legacy_created_at_def legacy_subject_def bindR_def
        split: sum.splits option.splits prod.splits if_splits)
  then show "project_row lib def r \<noteq> Inl (Wl_Conflict m)" "project_inbox_alias lib def r a \<noteq> Inl (Wl_Conflict m)"
    by (auto simp: project_row_def decode_canonical_def project_inbox_alias_def Let_def split: option.splits if_splits)
qed

text \<open>A conflict is reported before anything is written.\<close>

lemma conflict_unchanged:
  "repo_create_log lib def io io' w s = (Inl (Wl_Conflict m), s') \<Longrightarrow> s' = s"
  "repo_create_from_inbox lib def io io' w i s = (Inl (Wl_Conflict m), s') \<Longrightarrow> s' = s"
  by (auto simp: repo_create_log_def repo_create_from_inbox_def bindS_run failS_def read_back_def
      dest!: insert_row_cases split: if_splits sum.splits prod.splits option.splits)

lemma repo_reads [simp]:
  "snd (repo_get_log lib def io io' key i s) = s" "snd (repo_list_logs lib def io key q s) = s"
  "snd (repo_health_log io s) = s"
  by (simp_all add: repo_get_log_def repo_list_logs_def repo_health_log_def Let_def)

end
