(* ===== verification/WorkLog_Service.thy ===== *)
theory WorkLog_Service
  imports WorkLog_Store
begin

text \<open>
  \<open>core/work_log/service.py\<close>: creating, reading and listing work logs, and the failure every
  exception becomes.  An exception that no handler of the code names passes through as it is.  What
  the surroundings supply to a call is a record: the reading of the clock, the UUIDs drawn and the
  exceptions of SQLite in the statements of the call.  The localised messages of the presenter are
  left out.
\<close>

section \<open>Surroundings\<close>

record wl_config =
  wg_lib :: wl_lib
  wg_zone :: string
  wg_repo_zone :: string

text \<open>
  \<open>lv_draws\<close> are the UUIDs of successive attempts with the exceptions of the insert and of the read
  after it; \<open>lv_report\<close> is the text of the error of a model that does not validate as a whole.
\<close>

record wl_env =
  lv_now :: instant
  lv_draws :: "(string \<times> exn option \<times> exn option) list"
  lv_io :: "exn option"
  lv_io2 :: "exn option"
  lv_again :: "exn option"
  lv_again2 :: "exn option"
  lv_report :: string

type_synonym 'a wl_op = "wl_store \<Rightarrow> (exn + 'a) \<times> wl_store"

section \<open>Failures\<close>

definition wl_messages :: "(string \<times> string) list" where
  "wl_messages =
    [(''work_log.not_configured'', ''Work Log service is not configured''),
     (''work_log.not_found'', ''Work Log was not found''),
     (''work_log.workspace_mismatch'', ''Work Log belongs to another workspace''),
     (''work_log.id_invalid'', ''Work Log id is invalid''),
     (''work_log.subject_required'', ''Work Log subject is required''),
     (''work_log.occurred_at_invalid'', ''Work Log occurred_at is invalid''),
     (''work_log.timezone_invalid'', ''Work Log timezone is invalid''),
     (''work_log.query_invalid'', ''Work Log query is invalid''),
     (''work_log.limit_invalid'', ''Work Log query limit is invalid''),
     (''work_log.context_ref_invalid'', ''Work Log context reference is invalid''),
     (''work_log.repository_failed'', ''Work Log repository operation failed''),
     (''work_log.legacy_projection_failed'', ''Legacy Work Log projection failed'')]"

definition wl_failure ::
  "string \<Rightarrow> error_category \<Rightarrow> string \<Rightarrow> string \<Rightarrow> string \<Rightarrow> dict \<Rightarrow> bool \<Rightarrow> exn" where
  "wl_failure code category operation tr cause details retryable = Failed
    \<lparr>fi_code = code, fi_category = category, fi_message = the (map_of wl_messages code), fi_component = ''work_log'',
     fi_operation = operation, fi_retryable = retryable, fi_trace_id = tr, fi_cause_type = cause, fi_details = details\<rparr>"

definition not_configured_log :: "string \<Rightarrow> string \<Rightarrow> exn" where
  "not_configured_log operation tr = wl_failure ''work_log.not_configured'' NOT_CONFIGURED operation tr [] [] False"

text \<open>An exception of the repository outside every handler.\<close>

fun wl_raised :: "wl_error \<Rightarrow> exn" where
  "wl_raised (Wl_Conflict m) = Raise (OtherError ''WorkLogConflictError'') m"
| "wl_raised (Wl_NotFound m) = Raise (OtherError ''WorkLogNotFoundError'') m"
| "wl_raised (Wl_Mismatch m) = Raise (OtherError ''WorkLogWorkspaceMismatchError'') m"
| "wl_raised (Wl_Repository m) = Raise (OtherError ''WorkLogRepositoryError'') m"
| "wl_raised (Wl_Projection digest field) = Raise (OtherError ''WorkLogLegacyProjectionError'') ''Legacy Work Log projection failed''"
| "wl_raised (Wl_Other e) = e"

text \<open>\<open>except WorkLogRepositoryError\<close>, with \<open>_raise_repository\<close>; other exceptions pass.\<close>

fun repository_raised :: "string \<Rightarrow> string \<Rightarrow> wl_error \<Rightarrow> exn" where
  "repository_raised operation tr (Wl_Projection digest field) =
     wl_failure ''work_log.legacy_projection_failed'' PERSISTENCE_FAILURE operation tr ''WorkLogLegacyProjectionError''
       [(''row_digest'', JStr digest), (''field'', JStr field)] False"
| "repository_raised operation tr (Wl_Repository m) =
     wl_failure ''work_log.repository_failed'' PERSISTENCE_FAILURE operation tr ''WorkLogRepositoryError'' [] True"
| "repository_raised operation tr e = wl_raised e"

text \<open>The code of a validation failure, by the fields at fault or, without any, by the text.\<close>

definition fields_code :: "string list \<Rightarrow> string" where
  "fields_code fs =
    (if ''subject'' \<in> set fs \<or> ''raw_text'' \<in> set fs then ''work_log.subject_required''
     else if ''timezone'' \<in> set fs then ''work_log.timezone_invalid''
     else if ''occurred_at'' \<in> set fs then ''work_log.occurred_at_invalid''
     else if ''context_ref'' \<in> set fs \<or> ''context_refs'' \<in> set fs then ''work_log.context_ref_invalid''
     else if ''limit'' \<in> set fs \<or> ''offset'' \<in> set fs then ''work_log.limit_invalid''
     else ''work_log.query_invalid'')"

definition text_code :: "bool \<Rightarrow> string \<Rightarrow> string" where
  "text_code creating report =
    (if has_substring ''subject'' report \<or> has_substring ''raw_text'' report then ''work_log.subject_required''
     else if has_substring ''timezone'' report then ''work_log.timezone_invalid''
     else if creating \<and> has_substring ''datetime'' report then ''work_log.occurred_at_invalid''
     else if has_substring ''context'' report then ''work_log.context_ref_invalid''
     else ''work_log.query_invalid'')"

definition fields_raised :: "string \<Rightarrow> string \<Rightarrow> string list \<Rightarrow> exn" where
  "fields_raised operation tr fs =
    wl_failure (fields_code fs) VALIDATION operation tr ''ValidationError''
      [(''fields'', JArr (map JStr (sort (remdups fs))))] False"

fun validation_raised :: "wl_lib \<Rightarrow> wl_env \<Rightarrow> string \<Rightarrow> string \<Rightarrow> bool \<Rightarrow> wl_invalid \<Rightarrow> exn" where
  "validation_raised lib env operation tr creating (Bad_Fields fs) = fields_raised operation tr fs"
| "validation_raised lib env operation tr creating Bad_Model =
     wl_failure (text_code creating (lb_fold lib (lv_report env))) VALIDATION operation tr ''ValidationError'' [] False"
| "validation_raised lib env operation tr creating (Escapes e) = e"

section \<open>Creating\<close>

definition log_values :: "wl_config \<Rightarrow> wl_env \<Rightarrow> workspace_key \<Rightarrow> wl_command \<Rightarrow> string \<Rightarrow> wl_values" where
  "log_values cfg env ws c uuid =
    \<lparr>wv_id = ''wl_'' @ uuid, wv_key = ws,
     wv_occurred_at = Aware (case wlc_occurred_at c of None \<Rightarrow> lv_now env | Some t \<Rightarrow> t) 0,
     wv_timezone = (case wlc_timezone c of None \<Rightarrow> wg_zone cfg | Some z \<Rightarrow> str_or z (wg_zone cfg)),
     wv_subject = wlc_subject c, wv_text = wlc_text c, wv_target = wlc_target c, wv_status = wlc_status c,
     wv_tags = wlc_tags c, wv_source = wlc_source c, wv_refs = wlc_refs c, wv_created_at = Aware (lv_now env) 0,
     wv_legacy_id = None, wv_legacy_status = None, wv_legacy_source = None, wv_notes = [], wv_schema = 1, wv_item = None\<rparr>"

text \<open>The loop over the attempts; a taken identifier draws the next one.\<close>

fun create_attempts ::
  "wl_config \<Rightarrow> wl_env \<Rightarrow> workspace_key \<Rightarrow> wl_command \<Rightarrow> (string \<times> exn option \<times> exn option) list \<Rightarrow> wl_record wl_op" where
  "create_attempts cfg env ws c [] =
     failS (wl_failure ''work_log.repository_failed'' PERSISTENCE_FAILURE ''create'' (trace_id ws) ''WorkLogConflictError'' [] True)"
| "create_attempts cfg env ws c ((uuid, io, io') # rest) =
     (case validate_record (wg_lib cfg) (log_values cfg env ws c uuid) of
        Inl e \<Rightarrow> failS e
      | Inr w \<Rightarrow>
          catchS (repo_create_log (wg_lib cfg) (wg_repo_zone cfg) io io' w)
            (\<lambda>e. case e of
               Wl_Conflict m \<Rightarrow> create_attempts cfg env ws c rest
             | _ \<Rightarrow> failS (repository_raised ''create'' (trace_id ws) e)))"

definition wl_create :: "wl_config \<Rightarrow> wl_env \<Rightarrow> workspace_key \<Rightarrow> wl_command \<Rightarrow> wl_record wl_op" where
  "wl_create cfg env key c = create_attempts cfg env (canonical_workspace key) c (take 5 (lv_draws env))"

definition wl_create_from_input :: "wl_config \<Rightarrow> wl_env \<Rightarrow> workspace_key \<Rightarrow> dict \<Rightarrow> wl_record wl_op" where
  "wl_create_from_input cfg env key vs =
    (case validate_command (wg_lib cfg) vs of
       Inl i \<Rightarrow> failS (validation_raised (wg_lib cfg) env ''create'' (trace_id key) True i)
     | Inr c \<Rightarrow> wl_create cfg env (canonical_workspace key) c)"

subsection \<open>From the inbox\<close>

definition inbox_log_values ::
  "wl_config \<Rightarrow> wl_env \<Rightarrow> workspace_key \<Rightarrow> string \<Rightarrow> string \<Rightarrow> string \<Rightarrow> string \<Rightarrow> wl_values" where
  "inbox_log_values cfg env ws i item subject txt =
    \<lparr>wv_id = i, wv_key = ws, wv_occurred_at = Aware (lv_now env) 0, wv_timezone = wg_zone cfg,
     wv_subject = subject, wv_text = txt, wv_target = None, wv_status = WL_COMPLETED, wv_tags = [''inbox''],
     wv_source = WL_INBOX, wv_refs = [], wv_created_at = Aware (lv_now env) 0,
     wv_legacy_id = None, wv_legacy_status = None, wv_legacy_source = None, wv_notes = [], wv_schema = 1,
     wv_item = Some item\<rparr>"

text \<open>\<open>_recover_inbox_target\<close>\<close>

definition recover_inbox_target :: "wl_config \<Rightarrow> wl_env \<Rightarrow> workspace_key \<Rightarrow> string \<Rightarrow> string \<Rightarrow> wl_record wl_op" where
  "recover_inbox_target cfg env ws target item =
    (let conflict = (\<lambda>cause. wl_failure ''work_log.repository_failed'' CONFLICT ''create_from_inbox'' (trace_id ws) cause [] False) in
     bindS
       (catchS (repo_get_log (wg_lib cfg) (wg_repo_zone cfg) (lv_again env) (lv_again2 env) ws target)
         (\<lambda>e. case e of
            Wl_NotFound m \<Rightarrow> failS (conflict ''WorkLogNotFoundError'')
          | Wl_Mismatch m \<Rightarrow> failS (conflict ''WorkLogWorkspaceMismatchError'')
          | _ \<Rightarrow> failS (repository_raised ''create_from_inbox'' (trace_id ws) e)))
       (\<lambda>w. if wl_source w \<noteq> WL_INBOX \<or> wl_item w \<noteq> Some item
         then failS (conflict ''WorkLogConflictError'') else retS w))"

definition inbox_log_id :: "wl_lib \<Rightarrow> string \<Rightarrow> string" where
  "inbox_log_id lib item = ''wl_'' @ take 32 (lb_sha lib (''work_log|'' @ item))"

definition wl_create_from_inbox ::
  "wl_config \<Rightarrow> wl_env \<Rightarrow> workspace_key \<Rightarrow> string \<Rightarrow> string \<Rightarrow> string \<Rightarrow> string option \<Rightarrow> wl_record wl_op" where
  "wl_create_from_inbox cfg env key inbox_item subject txt reserved =
    (let lib = wg_lib cfg; ws = canonical_workspace key; item = py_strip inbox_item; generated = inbox_log_id lib item;
         target = (case reserved of None \<Rightarrow> generated | Some r \<Rightarrow> str_or r generated);
         v = inbox_log_values cfg env ws generated item subject txt in
     if \<not> starts_with ''inbox_'' item
     then failS (wl_failure ''work_log.context_ref_invalid'' VALIDATION ''create_from_inbox'' (trace_id ws) [] [] False)
     else if \<not> (canonical_id target \<or> inbox_alias target)
     then failS (wl_failure ''work_log.id_invalid'' VALIDATION ''create_from_inbox'' (trace_id ws) [] [] False)
     else case validate_record lib v of
       Inl _ \<Rightarrow> failS (fields_raised ''create_from_inbox'' (trace_id ws) (record_faults lib v))
     | Inr w \<Rightarrow>
         catchS (repo_create_from_inbox lib (wg_repo_zone cfg) (lv_io env) (lv_io2 env) w target)
           (\<lambda>e. case e of
              Wl_Conflict m \<Rightarrow> recover_inbox_target cfg env ws target item
            | _ \<Rightarrow> failS (repository_raised ''create_from_inbox'' (trace_id ws) e)))"

section \<open>Reading\<close>

definition wl_get :: "wl_config \<Rightarrow> wl_env \<Rightarrow> workspace_key \<Rightarrow> string \<Rightarrow> wl_record wl_op" where
  "wl_get cfg env key work_log_id =
    (let ws = canonical_workspace key; i = py_strip work_log_id; tr = trace_id ws in
     if \<not> (canonical_id i \<or> legacy_shape i \<or> inbox_alias i)
     then failS (wl_failure ''work_log.id_invalid'' VALIDATION ''get'' tr ''WorkLogIdInvalidError'' [] False)
     else catchS (repo_get_log (wg_lib cfg) (wg_repo_zone cfg) (lv_io env) (lv_io2 env) ws i)
       (\<lambda>e. failS (case e of
          Wl_NotFound m \<Rightarrow> wl_failure ''work_log.not_found'' NOT_FOUND ''get'' tr ''WorkLogNotFoundError'' [] False
        | Wl_Mismatch m \<Rightarrow>
            wl_failure ''work_log.workspace_mismatch'' PERMISSION_DENIED ''get'' tr ''WorkLogWorkspaceMismatchError'' [] False
        | _ \<Rightarrow> repository_raised ''get'' tr e)))"

definition wl_list :: "wl_config \<Rightarrow> wl_env \<Rightarrow> workspace_key \<Rightarrow> wl_query \<Rightarrow> wl_page wl_op" where
  "wl_list cfg env key q =
    (let ws = canonical_workspace key in
     catchS (repo_list_logs (wg_lib cfg) (wg_repo_zone cfg) (lv_io env) ws q)
       (\<lambda>e. failS (repository_raised ''list'' (trace_id ws) e)))"

definition wl_query_from_input :: "wl_config \<Rightarrow> wl_env \<Rightarrow> workspace_key \<Rightarrow> dict \<Rightarrow> wl_page wl_op" where
  "wl_query_from_input cfg env key vs =
    (case validate_wl_query (wg_lib cfg) vs of
       Inl i \<Rightarrow> failS (validation_raised (wg_lib cfg) env ''list'' (trace_id key) False i)
     | Inr q \<Rightarrow> wl_list cfg env (canonical_workspace key) q)"

section \<open>Opening\<close>

definition wl_initialize :: "wl_env \<Rightarrow> unit wl_op" where
  "wl_initialize env =
    catchS (repo_initialize_log (lv_io env)) (\<lambda>e. failS (repository_raised ''initialize'' [] e))"

definition wl_close :: "unit wl_op" where
  "wl_close s = (Inr (), repo_close_log s)"

definition wl_health :: "wl_env \<Rightarrow> string wl_op" where
  "wl_health env = catchS (repo_health_log (lv_io env)) (\<lambda>e. failS (wl_raised e))"

end
