(* ===== verification/WorkLog_Properties.thy ===== *)
theory WorkLog_Properties
  imports WorkLog_Service
begin

text \<open>
  What the work log promises: every record it hands out validates; rows are only ever added, and no
  workspace sees the rows another one adds; a valid command is stored and read back as it was given;
  and where the code falls short.
\<close>

section \<open>Requests\<close>

datatype wl_request =
    Log_Create wl_env workspace_key wl_command
  | Log_Input wl_env workspace_key dict
  | Log_From_Inbox wl_env workspace_key string string string "string option"
  | Log_Get wl_env workspace_key string
  | Log_List wl_env workspace_key wl_query
  | Log_Query wl_env workspace_key dict
  | Log_Initialize wl_env
  | Log_Close
  | Log_Health wl_env

fun wl_run :: "wl_config \<Rightarrow> wl_request \<Rightarrow> wl_store \<Rightarrow> wl_store" where
  "wl_run cfg (Log_Create env key c) s = snd (wl_create cfg env key c s)"
| "wl_run cfg (Log_Input env key vs) s = snd (wl_create_from_input cfg env key vs s)"
| "wl_run cfg (Log_From_Inbox env key item subject txt reserved) s =
     snd (wl_create_from_inbox cfg env key item subject txt reserved s)"
| "wl_run cfg (Log_Get env key i) s = snd (wl_get cfg env key i s)"
| "wl_run cfg (Log_List env key q) s = snd (wl_list cfg env key q s)"
| "wl_run cfg (Log_Query env key vs) s = snd (wl_query_from_input cfg env key vs s)"
| "wl_run cfg (Log_Initialize env) s = snd (wl_initialize env s)"
| "wl_run cfg Log_Close s = snd (wl_close s)"
| "wl_run cfg (Log_Health env) s = snd (wl_health env s)"

text \<open>The records a request answers with.\<close>

definition answer_of :: "('a \<Rightarrow> wl_record list) \<Rightarrow> (exn + 'a) \<times> wl_store \<Rightarrow> wl_record list" where
  "answer_of f r = (case fst r of Inl e \<Rightarrow> [] | Inr x \<Rightarrow> f x)"

fun wl_answers :: "wl_config \<Rightarrow> wl_request \<Rightarrow> wl_store \<Rightarrow> wl_record list" where
  "wl_answers cfg (Log_Create env key c) s = answer_of (\<lambda>w. [w]) (wl_create cfg env key c s)"
| "wl_answers cfg (Log_Input env key vs) s = answer_of (\<lambda>w. [w]) (wl_create_from_input cfg env key vs s)"
| "wl_answers cfg (Log_From_Inbox env key item subject txt reserved) s =
     answer_of (\<lambda>w. [w]) (wl_create_from_inbox cfg env key item subject txt reserved s)"
| "wl_answers cfg (Log_Get env key i) s = answer_of (\<lambda>w. [w]) (wl_get cfg env key i s)"
| "wl_answers cfg (Log_List env key q) s = answer_of wlp_items (wl_list cfg env key q s)"
| "wl_answers cfg (Log_Query env key vs) s = answer_of wlp_items (wl_query_from_input cfg env key vs s)"
| "wl_answers cfg _ s = []"

fun log_acts_for :: "wl_request \<Rightarrow> identity option" where
  "log_acts_for (Log_Create env key c) = Some (key_identity key)"
| "log_acts_for (Log_Input env key vs) = Some (key_identity key)"
| "log_acts_for (Log_From_Inbox env key item subject txt reserved) = Some (key_identity key)"
| "log_acts_for (Log_Get env key i) = Some (key_identity key)"
| "log_acts_for (Log_List env key q) = Some (key_identity key)"
| "log_acts_for (Log_Query env key vs) = Some (key_identity key)"
| "log_acts_for _ = None"

section \<open>Answers are valid\<close>

lemma failS_Inr: "failS e s \<noteq> (Inr x, s')"
  by (simp add: failS_def)

lemma handler_Inr [simp]:
  "(case e of Wl_Conflict m \<Rightarrow> f m | _ \<Rightarrow> failS x) s = (Inr w, s') \<longleftrightarrow> (\<exists>m. e = Wl_Conflict m \<and> f m s = (Inr w, s'))"
  "(case e of Wl_NotFound m \<Rightarrow> failS y | Wl_Mismatch m \<Rightarrow> failS z | _ \<Rightarrow> failS x) s \<noteq> (Inr w, s')"
  by (cases e; auto simp: failS_def)+

lemma create_attempts_valid: "create_attempts cfg env ws c ds s = (Inr w, s') \<Longrightarrow> wl_valid (wg_lib cfg) w"
  by (induction cfg env ws c ds arbitrary: s rule: create_attempts.induct)
     (auto simp: failS_Inr catchS_Inr split: sum.splits dest: repo_create_valid)

lemma recover_valid: "recover_inbox_target cfg env ws t item s = (Inr w, s') \<Longrightarrow> wl_valid (wg_lib cfg) w"
  by (auto simp: recover_inbox_target_def bindS_Inr catchS_Inr failS_Inr retS_def split: if_splits
      dest: repo_get_valid)

lemma from_inbox_valid: "wl_create_from_inbox cfg env key item subject txt reserved s = (Inr w, s') \<Longrightarrow> wl_valid (wg_lib cfg) w"
  by (auto simp: wl_create_from_inbox_def Let_def failS_Inr catchS_Inr split: if_splits sum.splits
      dest: repo_create_from_inbox_valid recover_valid)

lemma create_valid: "wl_create cfg env key c s = (Inr w, s') \<Longrightarrow> wl_valid (wg_lib cfg) w"
  by (auto simp: wl_create_def dest: create_attempts_valid)

lemma input_valid: "wl_create_from_input cfg env key vs s = (Inr w, s') \<Longrightarrow> wl_valid (wg_lib cfg) w"
  by (auto simp: wl_create_from_input_def failS_def split: sum.splits dest: create_valid)

lemma get_valid: "wl_get cfg env key i s = (Inr w, s') \<Longrightarrow> wl_valid (wg_lib cfg) w"
  by (auto simp: wl_get_def Let_def failS_def catchS_Inr split: if_splits dest: repo_get_valid)

lemma list_valid: "wl_list cfg env key q s = (Inr p, s') \<Longrightarrow> w \<in> set (wlp_items p) \<Longrightarrow> wl_valid (wg_lib cfg) w"
  by (auto simp: wl_list_def Let_def failS_def catchS_Inr dest: repo_list_valid)

lemma query_valid: "wl_query_from_input cfg env key vs s = (Inr p, s') \<Longrightarrow> w \<in> set (wlp_items p) \<Longrightarrow> wl_valid (wg_lib cfg) w"
  by (auto simp: wl_query_from_input_def failS_def split: sum.splits dest: list_valid)

lemma answer_of_valid:
  assumes "\<And>x s'. r = (Inr x, s') \<Longrightarrow> list_all P (f x)"
  shows "list_all P (answer_of f r)"
  using assms by (cases r) (auto simp: answer_of_def split: sum.split)

text \<open>C31: every record that any request returns, be it decoded, projected from an older form, listed or just
  created, is one that the constructor accepts as it stands: validating its own fields gives it back.\<close>

theorem wl_answers_valid: "list_all (wl_valid (wg_lib cfg)) (wl_answers cfg rq s)"
proof (cases rq)
  case (Log_Create env key c)
  then show ?thesis by (auto intro!: answer_of_valid dest: create_valid)
next
  case (Log_Input env key vs)
  then show ?thesis by (auto intro!: answer_of_valid dest: input_valid)
next
  case (Log_From_Inbox env key item subject body reserved)
  then show ?thesis by (auto intro!: answer_of_valid dest: from_inbox_valid)
next
  case (Log_Get env key i)
  then show ?thesis by (auto intro!: answer_of_valid dest: get_valid)
next
  case (Log_List env key q)
  then show ?thesis by (simp, intro answer_of_valid) (auto simp: list_all_iff dest: list_valid)
next
  case (Log_Query env key vs)
  then show ?thesis by (simp, intro answer_of_valid) (auto simp: list_all_iff dest: query_valid)
qed auto

section \<open>Rows are only added\<close>

lemma create_attempts_adds:
  "create_attempts cfg env ws c ds s = (r, s') \<Longrightarrow> ws = canonical_workspace key \<Longrightarrow> log_added (key_identity key) s s'"
proof (induction cfg env ws c ds arbitrary: s rule: create_attempts.induct)
  case (2 cfg env ws c uuid io io' rest)
  show ?case
  proof (cases "validate_record (wg_lib cfg) (log_values cfg env ws c uuid)")
    case (Inr w)
    obtain r0 s0 where m: "repo_create_log (wg_lib cfg) (wg_repo_zone cfg) io io' w s = (r0, s0)" by fastforce
    have "identity_of (wl_key w) = key_identity key"
      using Inr 2(3) by (auto simp: validate_record_Inr record_of_values_def log_values_def key_identity_def)
    with m have added: "log_added (key_identity key) s s0" by (rule repo_create_adds)
    show ?thesis
    proof (cases "\<exists>m. r0 = Inl (Wl_Conflict m)")
      case True
      with m have "s0 = s" by (auto dest: conflict_unchanged)
      with True m 2 Inr show ?thesis by (auto simp: catchS_def)
    next
      case False
      with m 2(2) Inr have "s' = s0" by (auto simp: catchS_def failS_def split: sum.splits wl_error.splits)
      with added show ?thesis by simp
    qed
  qed (use 2 in \<open>auto simp: failS_def\<close>)
qed (simp add: failS_def)

lemma recover_state [simp]: "snd (recover_inbox_target cfg env ws t item s) = s"
proof -
  obtain r where "repo_get_log (wg_lib cfg) (wg_repo_zone cfg) (lv_again env) (lv_again2 env) ws t s = (r, s)"
    by (metis prod.collapse repo_reads(1))
  then show ?thesis
    by (auto simp: recover_inbox_target_def bindS_run catchS_def failS_def retS_def split: sum.split wl_error.split)
qed

lemma from_inbox_adds:
  assumes "wl_create_from_inbox cfg env key item subject txt reserved s = (r, s')"
  shows "log_added (key_identity key) s s'"
proof -
  let ?v = "inbox_log_values cfg env (canonical_workspace key) (inbox_log_id (wg_lib cfg) (py_strip item)) (py_strip item) subject txt"
  let ?t = "case reserved of None \<Rightarrow> inbox_log_id (wg_lib cfg) (py_strip item) | Some r \<Rightarrow> str_or r (inbox_log_id (wg_lib cfg) (py_strip item))"
  show ?thesis
  proof (cases "s' = s")
    case False
    obtain w where w: "validate_record (wg_lib cfg) ?v = Inr w"
      and run: "catchS (repo_create_from_inbox (wg_lib cfg) (wg_repo_zone cfg) (lv_io env) (lv_io2 env) w ?t)
        (\<lambda>e. case e of
           Wl_Conflict m \<Rightarrow> recover_inbox_target cfg env (canonical_workspace key) ?t (py_strip item)
         | _ \<Rightarrow> failS (repository_raised ''create_from_inbox'' (trace_id (canonical_workspace key)) e)) s = (r, s')"
      using assms False by (auto simp: wl_create_from_inbox_def Let_def failS_def split: if_splits sum.splits)
    obtain r0 s0 where m: "repo_create_from_inbox (wg_lib cfg) (wg_repo_zone cfg) (lv_io env) (lv_io2 env) w ?t s = (r0, s0)"
      by fastforce
    have "identity_of (wl_key w) = key_identity key"
      using w by (auto simp: validate_record_Inr record_of_values_def inbox_log_values_def key_identity_def)
    with m have "log_added (key_identity key) s s0" by (rule repo_create_from_inbox_adds)
    moreover have "s' = s0"
      using run m recover_state [of cfg env "canonical_workspace key" ?t "py_strip item" s0]
      by (auto simp: catchS_def failS_def simp del: recover_state split: sum.splits wl_error.splits)
    ultimately show ?thesis by simp
  qed simp
qed

lemma failing_reads: "snd (m s) = s \<Longrightarrow> snd (catchS m (\<lambda>e. failS (h e)) s) = s"
  by (auto simp: catchS_def failS_def split: prod.split sum.split)

lemma wl_run_adds:
  "case log_acts_for rq of None \<Rightarrow> wr_rows (wl_run cfg rq s) = wr_rows s | Some ident \<Rightarrow> log_added ident s (wl_run cfg rq s)"
proof (cases rq)
  case (Log_Create env key c)
  then show ?thesis
    using create_attempts_adds [of cfg env "canonical_workspace key" c "take 5 (lv_draws env)" s _ _ key]
    by (simp add: wl_create_def) (metis prod.collapse)
next
  case (Log_Input env key vs)
  have "log_added (key_identity key) s (snd (create_attempts cfg env (canonical_workspace key) c ds s))" for c ds
    by (metis create_attempts_adds prod.collapse)
  with Log_Input show ?thesis by (auto simp: wl_create_from_input_def wl_create_def failS_def split: sum.split)
next
  case (Log_From_Inbox env key item subject body reserved)
  then show ?thesis using from_inbox_adds [of cfg env key item subject body reserved s] by (simp) (metis prod.collapse)
next
  case (Log_Get env key i)
  then show ?thesis by (simp add: wl_get_def Let_def failing_reads) (simp add: failS_def)
next
  case (Log_List env key q)
  then show ?thesis by (simp add: wl_list_def Let_def failing_reads)
next
  case (Log_Query env key vs)
  then show ?thesis
    by (simp add: wl_query_from_input_def wl_list_def Let_def failing_reads split: sum.split) (simp add: failS_def)
next
  case (Log_Initialize env)
  then show ?thesis by (simp add: wl_initialize_def repo_initialize_log_def catchS_def failS_def)
next
  case (Log_Health env)
  then show ?thesis by (simp add: wl_health_def failing_reads)
qed (simp add: wl_close_def repo_close_log_def)

text \<open>A workspace whose names are not all spaces; the code does not strip them.\<close>

definition named :: "identity \<Rightarrow> bool" where
  "named ident = (case ident of (t, w, n) \<Rightarrow>
     \<not> list_all (\<lambda>c. c = CHR 0x20) t \<and> \<not> list_all (\<lambda>c. c = CHR 0x20) w \<and> \<not> list_all (\<lambda>c. c = CHR 0x20) n)"

lemma content_workspace_canonical:
  assumes "named (identity_of (wl_key w))"
  shows "content_workspace (canonical_content w) = Some (identity_of (wl_key w))"
  using assms by (simp add: named_def identity_of_def content_workspace_def canonical_content_def)

lemma work_log_content_row [simp]: "work_log_content (row_of_record w i) = Some (canonical_content w)"
  by (simp add: work_log_content_def row_of_record_def canonical_content_def)

lemma visible_new_row:
  assumes "named (identity_of (wl_key w))"
  shows "visible_row strict ident (row_of_record w i) \<longleftrightarrow> ident = identity_of (wl_key w)"
  using content_workspace_canonical [OF assms] by (auto simp: visible_row_def) (simp add: row_of_record_def)

lemma log_added_foreign:
  assumes "log_added other s s'" "named other" "other \<noteq> ident"
  shows "filter (visible_row strict ident) (wr_rows s') = filter (visible_row strict ident) (wr_rows s)"
proof (cases "wr_rows s' = wr_rows s")
  case False
  then obtain w i where w: "wr_rows s' = wr_rows s @ [row_of_record w i]" "identity_of (wl_key w) = other"
    using assms(1) by (auto simp: log_added_def)
  with visible_new_row [of w strict ident i] assms(2,3) show ?thesis by simp
qed simp

subsection \<open>Samples\<close>

definition sample_lib :: wl_lib where
  "sample_lib = \<lparr>lb_zone_ok = (\<lambda>z. z = ''UTC''), lb_fold = py_lower, lb_shown = (\<lambda>_. ''?''),
     lb_datetime = (\<lambda>v. if v = JStr (isoformat 6000000) then Some (Aware 6000000 0) else None),
     lb_int = (\<lambda>v. case v of JInt n \<Rightarrow> Some n | _ \<Rightarrow> None), lb_iso_date = (\<lambda>_. None), lb_iso_datetime = (\<lambda>_. None),
     lb_to_utc = (\<lambda>_ n _. n), lb_from_utc = (\<lambda>_ t. (t, False)), lb_sha = (\<lambda>_. replicate 64 CHR ''a'')\<rparr>"

definition sample_log_config :: wl_config where
  "sample_log_config = \<lparr>wg_lib = sample_lib, wg_zone = ''UTC'', wg_repo_zone = ''UTC''\<rparr>"

definition sample_log_env :: wl_env where
  "sample_log_env = \<lparr>lv_now = 6000000, lv_draws = [(replicate 32 CHR ''1'', None, None)], lv_io = None, lv_io2 = None,
     lv_again = None, lv_again2 = None, lv_report = []\<rparr>"

definition empty_logs :: wl_store where
  "empty_logs = \<lparr>wr_rows = [], wr_table = True, wr_initialized = True\<rparr>"

definition desk :: workspace_key where
  "desk = plain_key ''acme'' ''main'' ''default'' []"

definition other_desk :: workspace_key where
  "other_desk = plain_key ''rival'' ''main'' ''default'' []"

definition sample_entry :: dict where
  "sample_entry = [(''subject'', JStr '' met Ann''), (''raw_text'', JStr ''talked about the plan''),
     (''tags'', JArr [JStr ''Ann'', JStr ''ann'']), (''source'', JStr ''cli'')]"

lemma sample_lib_simps [simp]: "wg_lib sample_log_config = sample_lib" "wg_zone sample_log_config = ''UTC''"
  "lv_now sample_log_env = 6000000" "lv_io sample_log_env = None" "lv_io2 sample_log_env = None" "lv_again sample_log_env = None"
  "wr_rows empty_logs = []" "wr_table empty_logs"
  by (simp_all add: sample_log_config_def sample_log_env_def empty_logs_def)

lemma sample_named: "named (key_identity desk)" "named (key_identity other_desk)" "key_identity desk \<noteq> key_identity other_desk"
  by code_simp+

text \<open>C32: rows are never changed or removed, and requests for other workspaces add nothing that a
  workspace sees, provided the names of those workspaces do not consist of spaces.\<close>

theorem wl_isolation:
  assumes "list_all (\<lambda>rq. case log_acts_for rq of None \<Rightarrow> True | Some other \<Rightarrow> other \<noteq> ident \<and> named other) rqs"
  shows "filter (visible_row strict ident) (wr_rows (fold (wl_run cfg) rqs s)) = filter (visible_row strict ident) (wr_rows s) \<and>
    take (length (wr_rows s)) (wr_rows (fold (wl_run cfg) rqs s)) = wr_rows s"
  using assms
proof (induction rqs arbitrary: s)
  case (Cons rq rqs)
  have "filter (visible_row strict ident) (wr_rows (wl_run cfg rq s)) = filter (visible_row strict ident) (wr_rows s)"
    using wl_run_adds [of cfg rq s] Cons(2) by (cases "log_acts_for rq") (auto dest: log_added_foreign)
  moreover obtain new where "wr_rows (wl_run cfg rq s) = wr_rows s @ new"
    using wl_run_adds [of cfg rq s] by (auto simp: log_added_def split: option.splits)
  moreover have "take (length xs) ys = xs" if "take (length (xs @ zs)) ys = xs @ zs" for xs zs ys :: "wl_row list"
    using arg_cong [OF that, of "take (length xs)"] by simp
  ultimately show ?case using Cons(1) [of "wl_run cfg rq s"] Cons(2) by (auto simp del: take_append)
qed simp

theorem wl_isolation_witness:
  "filter (visible_row False (key_identity desk)) (wr_rows (fold (wl_run sample_log_config)
     [Log_Input sample_log_env other_desk sample_entry, Log_Close] empty_logs)) = []"
  using wl_isolation [of "key_identity desk" "[Log_Input sample_log_env other_desk sample_entry, Log_Close]" False sample_log_config empty_logs]
    sample_named by (simp del: fold_simps)

section \<open>A command is stored and read back\<close>

lemma strip_plain:
  assumes "s \<noteq> []" "hd s \<notin> hd ` set py_spaces" "last s \<notin> last ` set py_spaces"
  shows "py_strip s = s"
proof -
  have none: "find (\<lambda>w. w \<noteq> [] \<and> starts_with w u) ws = None" if "u \<noteq> []" "hd u \<notin> hd ` set ws" for u and ws :: "string list"
  proof -
    have "\<not> starts_with w u" if "w \<in> set ws" "w \<noteq> []" for w
    proof
      assume "starts_with w u"
      then have "hd w = hd u" using \<open>w \<noteq> []\<close> \<open>u \<noteq> []\<close> by (cases w; cases u) (auto simp: starts_with_def)
      with that \<open>hd u \<notin> hd ` set ws\<close> show False by (metis imageI)
    qed
    then show ?thesis by (auto simp: find_None_iff)
  qed
  have "hd (rev s) \<notin> hd ` set (map rev py_spaces)"
    using assms(3) by (auto simp: image_iff hd_rev)
  then have "chop (map rev py_spaces) (rev s) = rev s" using assms(1) by (intro chop_id none) auto
  moreover have "chop py_spaces s = s" using assms(1,2) by (intro chop_id none) auto
  ultimately show ?thesis by (simp add: py_strip_def py_lstrip_def py_rstrip_def)
qed

lemma hex_plain: "hex_digit c \<Longrightarrow> c \<notin> last ` set py_spaces"
  by (auto simp: hex_digit_def py_spaces_def)

lemma hex_id_strip:
  assumes "hex_id prefix (Suc n) s" "prefix \<noteq> []" "hd prefix \<notin> hd ` set py_spaces"
  shows "py_strip s = s"
proof (rule strip_plain)
  have s: "s = prefix @ drop (length prefix) s" "length (drop (length prefix) s) = Suc n" "list_all hex_digit (drop (length prefix) s)"
    using assms(1) append_take_drop_id [of "length prefix" s] by (auto simp: hex_id_def starts_with_def)
  then show "s \<noteq> []" by auto
  from s(1) assms(2) have "hd s = hd prefix" by (metis hd_append2)
  with assms(3) show "hd s \<notin> hd ` set py_spaces" by simp
  from s have "drop (length prefix) s \<noteq> []" by auto
  then have "last (drop (length prefix) s) \<in> set (drop (length prefix) s)" "last s = last (drop (length prefix) s)"
    by (rule last_in_set) (metis last_appendR s(1) \<open>drop (length prefix) s \<noteq> []\<close>)
  then have "hex_digit (last (drop (length prefix) s))" "last s = last (drop (length prefix) s)"
    using s(3) by (simp_all only: list_all_iff)
  then show "last s \<notin> last ` set py_spaces" using hex_plain by simp
qed

lemma canonical_id_strip: "canonical_id i \<Longrightarrow> py_strip i = i"
  unfolding canonical_id_def by (rule hex_id_strip [where n = 31]) (auto simp: py_spaces_def)

lemma parse_values [simp]:
  "parse_kind (wl_kind_value k) = Some k" "parse_resolution (wl_resolution_value res) = Some res"
  "parse_wl_status (wl_status_value st) = Some st" "parse_wl_source (wl_source_value src) = Some src"
  subgoal by (cases k) (simp_all add: parse_kind_def all_kinds_def)
  subgoal by (cases res) (simp_all add: parse_resolution_def)
  subgoal by (cases st) (simp_all add: parse_wl_status_def)
  subgoal by (cases src) (simp_all add: parse_wl_source_def)
  done

text \<open>A context reference that was validated.\<close>

definition ref_valid :: "wl_ref \<Rightarrow> bool" where
  "ref_valid r = (validate_ref (rf_kind r) (rf_target r) (rf_relation r) (rf_resolution r) = Some r)"

lemma validated_ref_valid: "validate_ref k t rel res = Some r \<Longrightarrow> ref_valid r"
  by (auto simp: ref_valid_def validate_ref_def Let_def opt_len_text_or_none split: if_splits)

lemma read_ref_json: "ref_valid r \<Longrightarrow> read_ref (ref_json r) = Some r"
  by (cases "rf_relation r") (auto simp: ref_valid_def read_ref_def ref_json_def entry_def)

lemma read_refs_json: "list_all ref_valid rs \<Longrightarrow> read_refs (JArr (map ref_json rs)) = Some rs"
  by (induction rs) (auto simp: read_refs_def read_ref_json)

lemma read_ref_valid: "read_ref v = Some r \<Longrightarrow> ref_valid r"
  by (auto simp: read_ref_def split: json.splits if_splits option.splits dest: validated_ref_valid)

lemma read_refs_valid: "read_refs v = Some rs \<Longrightarrow> list_all ref_valid rs"
proof -
  have "those (map read_ref xs) = Some rs \<Longrightarrow> list_all ref_valid rs" for xs
    by (induction xs arbitrary: rs) (auto split: option.splits dest: read_ref_valid)
  then show "read_refs v = Some rs \<Longrightarrow> list_all ref_valid rs" by (auto simp: read_refs_def split: json.splits)
qed

definition reads_instant :: "wl_lib \<Rightarrow> instant \<Rightarrow> bool" where
  "reads_instant lib t = (lb_datetime lib (JStr (isoformat t)) = Some (Aware t 0))"

text \<open>The key a row gives back.\<close>

definition row_key :: "workspace_key \<Rightarrow> workspace_key" where
  "row_key k = plain_key (tenant_id k) (workspace_id k) (namespace k) []"

lemma identity_row_key [simp]: "identity_of (row_key k) = identity_of k"
  by (simp add: row_key_def plain_key_def identity_of_def)

lemma tag_texts_JArr: "tag_texts lib (JArr (map JStr ts)) = Some ts"
  by (simp add: tag_texts_def str_of_def comp_def)

lemma starts_with_split: "starts_with p s \<Longrightarrow> \<exists>u. s = p @ u"
  by (metis append_take_drop_id starts_with_def)

lemma canonical_not_legacy: "canonical_id i \<Longrightarrow> \<not> starts_with ''wl_legacy_'' i"
proof
  assume i: "canonical_id i" and "starts_with ''wl_legacy_'' i"
  then obtain u where "i = ''wl_legacy_'' @ u" using starts_with_split by blast
  with i show False by (simp add: canonical_id_def hex_id_def hex_digit_def)
qed

lemma canonical_schema: "canonical_id i \<Longrightarrow> schema_ok i 1"
  by (simp add: schema_ok_def canonical_not_legacy)

lemma row_key_canonical: "canonical_workspace k = k \<Longrightarrow> canonical_workspace (row_key k) = row_key k"
  by (cases k) (auto simp: row_key_def plain_key_def canonical_workspace_def str_or_def split: if_splits)

lemma wl_valid_rekey:
  assumes "wl_valid lib w" "canonical_id i" "wl_schema w = 1"
  shows "wl_valid lib (w\<lparr>wl_id := i, wl_key := row_key (wl_key w)\<rparr>)"
  using assms canonical_schema by (simp add: wl_valid_iff row_key_canonical)

text \<open>A record in the present form is read back from its row, but for the context of the request in its key.\<close>

lemma canonical_row_back:
  assumes valid: "wl_valid lib w" and i: "canonical_id i" "wl_schema w = 1" and refs: "list_all ref_valid (wl_refs w)"
    and reads: "reads_instant lib (wl_occurred_at w)" "reads_instant lib (wl_created_at w)" "lb_int lib (JInt 1) = Some 1"
    and plain: "wl_legacy_id w = None" "wl_legacy_status w = None" "wl_legacy_source w = None" "wl_notes w = []"
      "wl_item w \<noteq> Some []"
  shows "project_row lib def (row_of_record w i) = Inr (w\<lparr>wl_id := i, wl_key := row_key (wl_key w)\<rparr>)"
proof -
  let ?w = "w\<lparr>wl_id := i, wl_key := row_key (wl_key w)\<rparr>"
  have "canonical_values lib (row_of_record w i) (canonical_content w) = Some (record_values ?w)"
    using reads refs plain i(2)
    by (cases "wl_item w"; cases "wl_target w")
       (simp_all add: canonical_values_def canonical_content_def row_of_record_def needed_def entry_def tag_texts_JArr
          read_refs_json reads_instant_def record_values_def row_key_def)
  moreover have "validate_record lib (record_values ?w) = Inr ?w"
    using wl_valid_rekey [OF valid i] by (simp add: wl_valid_def)
  ultimately show ?thesis using i(1) by (simp add: project_row_def decode_canonical_def) (simp add: row_of_record_def)
qed

lemma command_facts:
  assumes "validate_command lib vs = Inr c"
  shows "text_valid 500 (wlc_subject c)" "text_valid 4000 (wlc_text c)" "opt_len 200 (wlc_target c)"
    "py_strip (wlc_subject c) = wlc_subject c" "py_strip (wlc_text c) = wlc_text c" "text_or_none (wlc_target c) = wlc_target c"
    "normalize_tags (lb_fold lib) (wlc_tags c) = Some (wlc_tags c)" "refs_ok (wlc_refs c)" "list_all ref_valid (wlc_refs c)"
    "wlc_timezone c = Some z \<Longrightarrow> zone_valid lib z"
proof -
  have faults: "command_faults lib vs = []" and c: "c = command_of lib vs"
    using assms by (auto simp: validate_command_def split: if_splits)
  have "text_valid hi (py_strip s)" if "text_valid hi s" for hi s using that by (rule text_valid_strip)
  moreover obtain s where "read_text 500 (entry vs ''subject'') = Some s" using faults by (auto simp: command_faults_def)
  moreover obtain s' where "read_text 4000 (entry vs ''raw_text'') = Some s'" using faults by (auto simp: command_faults_def)
  ultimately show "text_valid 500 (wlc_subject c)" "text_valid 4000 (wlc_text c)"
    "py_strip (wlc_subject c) = wlc_subject c" "py_strip (wlc_text c) = wlc_text c"
    by (auto simp: c command_of_def read_text_def split: json.splits if_splits)
  obtain t where "read_target (entry vs ''target'') = Some t" using faults by (auto simp: command_faults_def)
  then show "opt_len 200 (wlc_target c)" "text_or_none (wlc_target c) = wlc_target c"
    by (auto simp: c command_of_def read_target_def opt_len_text_or_none split: option.splits if_splits)
  obtain ts where "defaulted [] (read_tags lib) vs ''tags'' = Some ts" using faults by (auto simp: command_faults_def)
  then show "normalize_tags (lb_fold lib) (wlc_tags c) = Some (wlc_tags c)"
    by (auto simp: c command_of_def defaulted_def read_tags_def bind_eq_Some_conv normalize_tags_idem split: option.splits)
       (simp add: normalize_tags_def)
  obtain rs where "defaulted [] checked_refs vs ''context_refs'' = Some rs" using faults by (auto simp: command_faults_def)
  then show "refs_ok (wlc_refs c)" "list_all ref_valid (wlc_refs c)"
    by (auto simp: c command_of_def defaulted_def checked_refs_def refs_ok_def dest: read_refs_valid split: option.splits if_splits)
  obtain zo where "read_zone lib (entry vs ''timezone'') = Some zo" using faults by (auto simp: command_faults_def)
  then show "wlc_timezone c = Some z \<Longrightarrow> zone_valid lib z"
    by (auto simp: c command_of_def read_zone_def zone_valid_def split: json.splits if_splits)
qed

definition occurred :: "wl_env \<Rightarrow> wl_command \<Rightarrow> instant" where
  "occurred env c = (case wlc_occurred_at c of None \<Rightarrow> lv_now env | Some t \<Rightarrow> t)"

text \<open>The record that a command becomes.\<close>

definition created_log :: "wl_config \<Rightarrow> wl_env \<Rightarrow> workspace_key \<Rightarrow> wl_command \<Rightarrow> string \<Rightarrow> wl_record" where
  "created_log cfg env key c uuid =
    \<lparr>wl_id = ''wl_'' @ uuid, wl_key = row_key (canonical_workspace key), wl_occurred_at = occurred env c,
     wl_timezone = py_strip (case wlc_timezone c of None \<Rightarrow> wg_zone cfg | Some z \<Rightarrow> str_or z (wg_zone cfg)),
     wl_subject = wlc_subject c, wl_text = wlc_text c, wl_target = wlc_target c, wl_status = wlc_status c,
     wl_tags = wlc_tags c, wl_source = wlc_source c, wl_refs = wlc_refs c, wl_created_at = lv_now env,
     wl_legacy_id = None, wl_legacy_status = None, wl_legacy_source = None, wl_notes = [], wl_schema = 1, wl_item = None\<rparr>"

lemma command_validates:
  assumes "validate_command (wg_lib cfg) vs = Inr c" "zone_valid (wg_lib cfg) (wg_zone cfg)" "canonical_id (''wl_'' @ uuid)"
  shows "validate_record (wg_lib cfg) (log_values cfg env (canonical_workspace key) c uuid) =
    Inr (created_log cfg env key c uuid\<lparr>wl_key := canonical_workspace key\<rparr>)"
  using command_facts [OF assms(1)] assms(2,3) canonical_schema [OF assms(3)]
  by (auto simp: validate_record_Inr record_faults_def log_values_def record_of_values_def created_log_def occurred_def str_or_def
      split: option.split)

lemma find_new: "\<forall>x \<in> set xs. \<not> P x \<Longrightarrow> find P (xs @ [y]) = (if P y then Some y else None)"
  by (induction xs) auto

lemma row_of_record_simps [simp]: "er_id (row_of_record w i) = i" "er_type (row_of_record w i) = ''episodic''"
  by (simp_all add: row_of_record_def)

lemma row_by_new_id [simp]:
  assumes "i \<notin> er_id ` set (wr_rows s)"
  shows "row_by_storage_id i (s\<lparr>wr_rows := wr_rows s @ [row_of_record w i]\<rparr>) = Some (row_of_record w i)"
  using assms find_new [of "wr_rows s" "\<lambda>r. er_id r = i \<and> er_type r = ''episodic''" "row_of_record w i"]
  by (auto simp: row_by_storage_id_def)

lemma insert_new:
  assumes "wr_table s" "i \<notin> er_id ` set (wr_rows s)"
  shows "insert_row None w i s = (Inr (), s\<lparr>wr_rows := wr_rows s @ [row_of_record w i]\<rparr>)"
  using assms by (auto simp: insert_row_def list_ex_iff image_iff)

lemma repo_create_new:
  assumes "canonical_id (wl_id w)" "wl_schema w = 1" "wr_table s" "wl_id w \<notin> er_id ` set (wr_rows s)"
  shows "repo_create_log lib def None None w s =
    (project_row lib def (row_of_record w (wl_id w)), s\<lparr>wr_rows := wr_rows s @ [row_of_record w (wl_id w)]\<rparr>)"
  using assms by (simp add: repo_create_log_def bindS_run insert_new read_back_def)

lemma visible_new_id:
  assumes "i \<notin> er_id ` set (wr_rows s)" "named (identity_of (wl_key w))"
  shows "visible_identity_row ident i (s\<lparr>wr_rows := wr_rows s @ [row_of_record w i]\<rparr>) =
    (if ident = identity_of (wl_key w) then Some (row_of_record w i) else None)"
proof -
  have "\<forall>r \<in> set (wr_rows s). \<not> (visible_row True ident r \<and> er_id r = i)" using assms(1) by auto
  from find_new [OF this, of "row_of_record w i"] visible_new_row [OF assms(2), of True ident i]
  show ?thesis by (simp add: visible_identity_row_def)
qed

lemma scoped_new_id:
  assumes "named (identity_of (wl_key w))"
  shows "scoped_identity_exists i (s\<lparr>wr_rows := wr_rows s @ [row_of_record w i]\<rparr>)"
  using content_workspace_canonical [OF assms] by (simp add: scoped_identity_exists_def)

lemma get_canonical:
  assumes "canonical_id i" "lv_io env = None" "lv_io2 env = None" "wr_table s" "i \<notin> er_id ` set (wr_rows s)"
    "named (identity_of (wl_key w))" "project_row (wg_lib cfg) (wg_repo_zone cfg) (row_of_record w i) = Inr w'"
  defines "s' \<equiv> s\<lparr>wr_rows := wr_rows s @ [row_of_record w i]\<rparr>"
  shows "wl_get cfg env key i s' =
    (if key_identity key = identity_of (wl_key w) then Inr w'
     else Inl (wl_failure ''work_log.workspace_mismatch'' PERMISSION_DENIED ''get'' (trace_id key) ''WorkLogWorkspaceMismatchError'' [] False), s')"
  using assms scoped_new_id [OF assms(6), of i s] visible_new_id [OF assms(5,6), of "key_identity key"]
  by (simp add: wl_get_def Let_def canonical_id_strip catchS_def failS_def repo_get_log_def find_scoped_log_def key_identity_def)
     (simp add: canonical_workspace_def)

text \<open>C33: a command that validates is stored under the first identifier that is free, answered with the
  record it describes, and read back by the same workspace as answered; any other workspace is told
  that the record is not its own.\<close>

theorem wl_create_then_get:
  assumes "validate_command (wg_lib cfg) vs = Inr c" "zone_valid (wg_lib cfg) (wg_zone cfg)" "canonical_id (''wl_'' @ uuid)"
    and "reads_instant (wg_lib cfg) (lv_now env)" "reads_instant (wg_lib cfg) (occurred env c)" "lb_int (wg_lib cfg) (JInt 1) = Some 1"
    and "lv_draws env = (uuid, None, None) # later" "wr_table s" "''wl_'' @ uuid \<notin> er_id ` set (wr_rows s)"
    and "named (key_identity key)" "lv_io again = None" "lv_io2 again = None"
  shows "\<exists>s'. wl_create_from_input cfg env key vs s = (Inr (created_log cfg env key c uuid), s') \<and>
    length (wr_rows s') = Suc (length (wr_rows s)) \<and>
    wl_get cfg again other (''wl_'' @ uuid) s' =
      (if key_identity other = key_identity key then Inr (created_log cfg env key c uuid)
       else Inl (wl_failure ''work_log.workspace_mismatch'' PERMISSION_DENIED ''get'' (trace_id other)
         ''WorkLogWorkspaceMismatchError'' [] False), s')"
proof -
  let ?i = "''wl_'' @ uuid"
  let ?w = "created_log cfg env key c uuid\<lparr>wl_key := canonical_workspace key\<rparr>"
  let ?s = "s\<lparr>wr_rows := wr_rows s @ [row_of_record ?w ?i]\<rparr>"
  have v: "validate_record (wg_lib cfg) (log_values cfg env (canonical_workspace key) c uuid) = Inr ?w"
    by (rule command_validates [OF assms(1-3)])
  have id: "identity_of (wl_key ?w) = key_identity key" by (simp add: key_identity_def)
  have stored: "project_row (wg_lib cfg) (wg_repo_zone cfg) (row_of_record ?w ?i) = Inr (created_log cfg env key c uuid)"
    using canonical_row_back [OF validated_log_valid [OF v] assms(3), of "wg_repo_zone cfg"] command_facts(9) [OF assms(1)] assms(4-6)
    by (simp add: created_log_def)
  have "repo_create_log (wg_lib cfg) (wg_repo_zone cfg) None None ?w s = (Inr (created_log cfg env key c uuid), ?s)"
    using assms(3,8,9) stored repo_create_new [of ?w s "wg_lib cfg" "wg_repo_zone cfg"] by (simp add: created_log_def)
  then have "wl_create_from_input cfg env key vs s = (Inr (created_log cfg env key c uuid), ?s)"
    using assms(1,7) v by (simp add: wl_create_from_input_def wl_create_def catchS_def)
  moreover have "named (identity_of (wl_key ?w))" using assms(10) id by simp
  note get_canonical [OF assms(3,11,12,8,9) this stored, of other]
  ultimately show ?thesis using id by simp
qed

definition sample_command :: wl_command where
  "sample_command = \<lparr>wlc_subject = ''met Ann'', wlc_text = ''talked about the plan'', wlc_occurred_at = None, wlc_timezone = None,
     wlc_target = None, wlc_status = WL_COMPLETED, wlc_tags = [''Ann''], wlc_source = WL_CLI, wlc_refs = []\<rparr>"

lemma sample_texts: "py_len '' met Ann'' = 8" "py_strip '' met Ann'' = ''met Ann''"
  "py_len ''talked about the plan'' = 21" "py_strip ''talked about the plan'' = ''talked about the plan''"
  by code_simp+

lemma sample_read: "read_text 500 (JStr '' met Ann'') = Some ''met Ann''"
  "read_text 4000 (JStr ''talked about the plan'') = Some ''talked about the plan''"
  using sample_texts by (simp_all add: read_text_def text_valid_def len_between_def)

lemma sample_lib_fields [simp]:
  "lb_fold sample_lib = py_lower" "lb_zone_ok sample_lib = (\<lambda>z. z = ''UTC'')" "lb_int sample_lib (JInt n) = Some n"
  "lb_sha sample_lib s = replicate 64 CHR ''a''" "reads_instant sample_lib 6000000"
  by (simp_all add: sample_lib_def reads_instant_def)

lemma sample_parts: "normalize_tags py_lower [''Ann'', ''ann''] = Some [''Ann'']" "parse_wl_source ''cli'' = Some WL_CLI"
    "py_strip ''UTC'' = ''UTC''"
  by code_simp+

lemma sample_tags: "read_tags sample_lib (JArr [JStr ''Ann'', JStr ''ann'']) = Some [''Ann'']"
  "tag_texts sample_lib (JArr [JStr ''Ann'', JStr ''ann'']) = Some [''Ann'', ''ann'']"
  by (simp_all add: read_tags_def tag_texts_def str_of_def sample_parts)

lemma sample_faults: "command_faults sample_lib sample_entry = []"
  by (simp add: command_faults_def sample_entry_def entry_def sample_read sample_tags sample_parts
        defaulted_def read_instant_def read_zone_def read_target_def command_fields_def opt_len_def)

lemma sample_validates: "validate_command sample_lib sample_entry = Inr sample_command" "zone_valid sample_lib ''UTC''"
  subgoal
    by (simp add: validate_command_def tags_raise_def command_of_def sample_faults [unfolded sample_entry_def] sample_entry_def entry_def sample_read sample_tags sample_parts
        defaulted_def read_instant_def read_zone_def read_target_def sample_command_def opt_len_def text_or_none_def)
  subgoal by (simp add: zone_valid_def sample_parts)
  done

theorem wl_create_then_get_witness:
  "\<exists>s'. wl_create_from_input sample_log_config sample_log_env desk sample_entry empty_logs =
      (Inr (created_log sample_log_config sample_log_env desk sample_command (replicate 32 CHR ''1'')), s') \<and>
    length (wr_rows s') = 1 \<and>
    fst (wl_get sample_log_config sample_log_env desk (''wl_'' @ replicate 32 CHR ''1'') s') =
      Inr (created_log sample_log_config sample_log_env desk sample_command (replicate 32 CHR ''1''))"
proof -
  have "canonical_id (''wl_'' @ replicate 32 CHR ''1'')" by code_simp
  moreover have "occurred sample_log_env sample_command = 6000000" by (simp add: occurred_def sample_command_def)
  moreover have "lv_draws sample_log_env = [(replicate 32 CHR ''1'', None, None)]" by (simp add: sample_log_env_def)
  ultimately obtain s' where
    "wl_create_from_input sample_log_config sample_log_env desk sample_entry empty_logs =
      (Inr (created_log sample_log_config sample_log_env desk sample_command (replicate 32 CHR ''1'')), s')"
    "length (wr_rows s') = 1"
    "wl_get sample_log_config sample_log_env desk (''wl_'' @ replicate 32 CHR ''1'') s' =
      (Inr (created_log sample_log_config sample_log_env desk sample_command (replicate 32 CHR ''1'')), s')"
    using wl_create_then_get [of sample_log_config sample_entry sample_command "replicate 32 CHR ''1''" sample_log_env "[]" empty_logs
        desk sample_log_env desk] sample_validates sample_named(1) by auto
  then show ?thesis by (intro exI [of _ s']) simp
qed

end
