(* ===== verification/Inbox_WorkLogs.thy ===== *)
theory Inbox_WorkLogs
  imports Inbox_Properties WorkLog_Properties
begin

text \<open>
  The inbox over the work log service: \<open>resolve_to_work_log\<close> of \<open>core/inbox/service.py\<close> with
  \<open>create_from_inbox\<close> of \<open>core/work_log/service.py\<close> as the function that makes the target.  The work
  logs are the further part of the state of the inbox.
\<close>

section \<open>The service as a maker of targets\<close>

definition log_target :: "wl_config \<Rightarrow> wl_env \<Rightarrow> work_log_request \<Rightarrow> wl_store \<Rightarrow> (exn + string) \<times> wl_store" where
  "log_target cfg env rq =
    bindS (wl_create_from_inbox cfg env (wq_key rq) (wq_item rq) (wq_subject rq) (wq_text rq) (Some (wq_reserved rq)))
      (\<lambda>w. retS (wl_id w))"

definition with_logs :: "wl_config \<Rightarrow> wl_env \<Rightarrow> wl_store inbox_config \<Rightarrow> wl_store inbox_config" where
  "with_logs cfg env icfg = icfg\<lparr>if_work_logs := Some (log_target cfg env)\<rparr>"

text \<open>The record made of an item.\<close>

definition inbox_log :: "wl_config \<Rightarrow> wl_env \<Rightarrow> workspace_key \<Rightarrow> string \<Rightarrow> string \<Rightarrow> string \<Rightarrow> wl_record" where
  "inbox_log cfg env key item subject txt =
    record_of_values (wg_lib cfg)
      (inbox_log_values cfg env (row_key (canonical_workspace key)) (inbox_log_id (wg_lib cfg) item) item subject txt)"

text \<open>What a conversion needs of the item, of the texts and of the surroundings.\<close>

definition log_fits :: "wl_config \<Rightarrow> wl_env \<Rightarrow> workspace_key \<Rightarrow> string \<Rightarrow> string \<Rightarrow> string \<Rightarrow> bool" where
  "log_fits cfg env key item subject txt =
    (starts_with ''inbox_'' item \<and> py_strip item = item \<and> canonical_id (inbox_log_id (wg_lib cfg) item) \<and>
     text_valid 500 subject \<and> text_valid 4000 txt \<and> zone_valid (wg_lib cfg) (wg_zone cfg) \<and>
     reads_instant (wg_lib cfg) (lv_now env) \<and> lb_int (wg_lib cfg) (JInt 1) = Some 1 \<and> named (key_identity key))"

lemma canonical_not_alias: "canonical_id i \<Longrightarrow> \<not> inbox_alias i \<and> \<not> starts_with ''inbox_wl_'' i"
proof -
  assume i: "canonical_id i"
  then obtain u where "i = ''wl_'' @ u" using starts_with_split unfolding canonical_id_def hex_id_def by blast
  then show ?thesis by (simp add: inbox_alias_def hex_id_def starts_with_def)
qed

lemma inbox_tag: "normalize_tags cf [''inbox''] = Some [''inbox'']"
proof -
  have "py_strip ''inbox'' = ''inbox''" "py_len ''inbox'' = 5" by code_simp+
  then show ?thesis by (simp add: normalize_tags_def)
qed

lemma inbox_log_validates:
  assumes "log_fits cfg env key item subject txt"
  shows "validate_record (wg_lib cfg)
      (inbox_log_values cfg env (canonical_workspace key) (inbox_log_id (wg_lib cfg) item) item subject txt) =
    Inr (inbox_log cfg env key item subject txt\<lparr>wl_key := canonical_workspace key\<rparr>)"
  using assms canonical_schema
  by (auto simp: validate_record_Inr record_faults_def inbox_log_def inbox_log_values_def record_of_values_def log_fits_def
      inbox_tag fault_def refs_ok_def opt_len_def)

lemma inbox_log_fields [simp]:
  "wl_id (inbox_log cfg env key item subject txt) = inbox_log_id (wg_lib cfg) item"
  "wl_source (inbox_log cfg env key item subject txt) = WL_INBOX" "wl_item (inbox_log cfg env key item subject txt) = Some item"
  "wl_key (inbox_log cfg env key item subject txt) = row_key (canonical_workspace key)"
  "wl_schema (inbox_log cfg env key item subject txt) = 1" "wl_refs (inbox_log cfg env key item subject txt) = []"
  "wl_occurred_at (inbox_log cfg env key item subject txt) = lv_now env"
  "wl_created_at (inbox_log cfg env key item subject txt) = lv_now env"
  "wl_legacy_id (inbox_log cfg env key item subject txt) = None"
  "wl_legacy_status (inbox_log cfg env key item subject txt) = None"
  "wl_legacy_source (inbox_log cfg env key item subject txt) = None" "wl_notes (inbox_log cfg env key item subject txt) = []"
  by (simp_all add: inbox_log_def record_of_values_def inbox_log_values_def row_key_canonical)

lemma inbox_row_back:
  assumes "log_fits cfg env key item subject txt"
  shows "project_row (wg_lib cfg) def
      (row_of_record (inbox_log cfg env key item subject txt\<lparr>wl_key := canonical_workspace key\<rparr>) (inbox_log_id (wg_lib cfg) item)) =
    Inr (inbox_log cfg env key item subject txt)"
proof -
  let ?w = "inbox_log cfg env key item subject txt"
  have "wl_valid (wg_lib cfg) (?w\<lparr>wl_key := canonical_workspace key\<rparr>)"
    by (rule validated_log_valid [OF inbox_log_validates [OF assms]])
  moreover have "item \<noteq> []" using assms by (auto simp: log_fits_def starts_with_def)
  moreover have "?w\<lparr>wl_key := canonical_workspace key\<rparr>\<lparr>wl_id := inbox_log_id (wg_lib cfg) item, wl_key := row_key (canonical_workspace key)\<rparr> = ?w"
    by (intro wl_record.equality) simp_all
  ultimately show ?thesis
    using canonical_row_back [of "wg_lib cfg" "?w\<lparr>wl_key := canonical_workspace key\<rparr>" "inbox_log_id (wg_lib cfg) item" def] assms
    by (simp add: log_fits_def)
qed


section \<open>The first attempt\<close>

text \<open>The row is stored; the read after the insert fails, which nothing handles.\<close>

lemma log_target_interrupted:
  assumes fits: "log_fits cfg env key item subject txt" and io: "lv_io env = None" "lv_io2 env = Some (Raise k m)"
    and free: "wr_table s" "inbox_log_id (wg_lib cfg) item \<notin> er_id ` set (wr_rows s)"
  shows "log_target cfg env \<lparr>wq_key = key, wq_item = item, wq_subject = subject, wq_text = txt,
      wq_reserved = inbox_log_id (wg_lib cfg) item\<rparr> s =
    (Inl (Raise k m), s\<lparr>wr_rows := wr_rows s @
       [row_of_record (inbox_log cfg env key item subject txt\<lparr>wl_key := canonical_workspace key\<rparr>) (inbox_log_id (wg_lib cfg) item)]\<rparr>)"
proof -
  let ?i = "inbox_log_id (wg_lib cfg) item"
  let ?w = "inbox_log cfg env key item subject txt\<lparr>wl_key := canonical_workspace key\<rparr>"
  have i: "canonical_id ?i" "\<not> inbox_alias ?i" "str_or ?i ?i = ?i" "item \<noteq> []"
    using fits canonical_not_alias by (auto simp: log_fits_def str_or_def starts_with_def)
  have "repo_create_from_inbox (wg_lib cfg) (wg_repo_zone cfg) None (Some (Raise k m)) ?w ?i s =
      (Inl (Wl_Other (Raise k m)), s\<lparr>wr_rows := wr_rows s @ [row_of_record ?w ?i]\<rparr>)"
    using i by (simp add: repo_create_from_inbox_def bindS_run insert_new [OF free] read_back_def)
  then show ?thesis
    using fits i io inbox_log_validates [OF fits]
    by (simp add: log_target_def wl_create_from_inbox_def Let_def log_fits_def bindS_run catchS_def failS_def)
qed

section \<open>The next attempt\<close>

text \<open>The row of an earlier attempt is there.\<close>

definition log_there ::
  "wl_config \<Rightarrow> wl_env \<Rightarrow> workspace_key \<Rightarrow> string \<Rightarrow> string \<Rightarrow> inbox_item \<Rightarrow> inbox_claim \<Rightarrow> wl_store inbox_system \<Rightarrow> bool" where
  "log_there cfg env key title description r c s =
    (claim_key c = Some (inbox_log_id (wg_lib cfg) (ii_id r)) \<and>
     log_fits cfg env key (ii_id r) title (str_or description (ii_content r)) \<and> lv_io env = None \<and> lv_again env = None \<and>
     wr_table (sy_other s) \<and>
     (\<exists>row w. visible_identity_row (key_identity key) (inbox_log_id (wg_lib cfg) (ii_id r)) (sy_other s) = Some row \<and>
        project_row (wg_lib cfg) (wg_repo_zone cfg) row = Inr w \<and> wl_source w = WL_INBOX \<and> wl_item w = Some (ii_id r) \<and>
        wl_id w = inbox_log_id (wg_lib cfg) (ii_id r)))"

lemma log_target_again:
  assumes fits: "log_fits cfg env key item subject txt" and io: "lv_io env = None" "lv_again env = None" "wr_table s"
    and row: "visible_identity_row (key_identity key) (inbox_log_id (wg_lib cfg) item) s = Some row"
      "project_row (wg_lib cfg) (wg_repo_zone cfg) row = Inr w"
    and w: "wl_source w = WL_INBOX" "wl_item w = Some item" "wl_id w = inbox_log_id (wg_lib cfg) item"
  shows "log_target cfg env \<lparr>wq_key = key, wq_item = item, wq_subject = subject, wq_text = txt,
      wq_reserved = inbox_log_id (wg_lib cfg) item\<rparr> s = (Inr (inbox_log_id (wg_lib cfg) item), s)"
proof -
  let ?i = "inbox_log_id (wg_lib cfg) item"
  let ?w = "inbox_log cfg env key item subject txt\<lparr>wl_key := canonical_workspace key\<rparr>"
  have i: "canonical_id ?i" "\<not> inbox_alias ?i" "str_or ?i ?i = ?i" "item \<noteq> []"
    using fits canonical_not_alias by (auto simp: log_fits_def str_or_def starts_with_def)
  have "row \<in> set (wr_rows s)" "er_id row = ?i"
    using row(1) by (auto simp: visible_identity_row_def find_Some_iff)
  then have "repo_create_from_inbox (wg_lib cfg) (wg_repo_zone cfg) None io' ?w ?i s = (Inl (Wl_Conflict ''Work Log id already exists''), s)" for io'
    using i io(3) by (auto simp: repo_create_from_inbox_def bindS_run insert_row_def list_ex_iff)
  moreover have "recover_inbox_target cfg env (canonical_workspace key) ?i item s = (Inr w, s)"
    using i io row w
    by (simp add: recover_inbox_target_def bindS_run catchS_def repo_get_log_def find_scoped_log_def key_identity_def retS_def)
  ultimately show ?thesis
    using fits i io inbox_log_validates [OF fits] w
    by (simp add: log_target_def wl_create_from_inbox_def Let_def log_fits_def bindS_run catchS_def retS_def)
qed

lemma make_log_again:
  assumes "log_there cfg env key title description r c s"
  shows "\<exists>u. (\<forall>X. make_work_log (with_logs cfg env icfg) key title description r c (s\<lparr>sy_inbox := X\<rparr>) =
      (Inr (the (claim_key c)), u\<lparr>sy_inbox := X\<rparr>)) \<and> sy_other u = sy_other s"
proof -
  let ?i = "inbox_log_id (wg_lib cfg) (ii_id r)"
  let ?rq = "\<lparr>wq_key = key, wq_item = ii_id r, wq_subject = title, wq_text = str_or description (ii_content r), wq_reserved = ?i\<rparr>"
  have again: "log_target cfg env ?rq (sy_other s) = (Inr ?i, sy_other s)" and key: "claim_key c = Some ?i"
    and "canonical_id ?i"
    using assms log_target_again by (auto simp: log_there_def) (auto simp: log_fits_def)
  then have "make_work_log (with_logs cfg env icfg) key title description r c (s\<lparr>sy_inbox := X\<rparr>) = (Inr ?i, s\<lparr>sy_inbox := X\<rparr>)" for X
    using canonical_not_alias [of ?i]
    by (simp add: make_work_log_def with_logs_def bindS_run on_other_def retS_def)
  with key show ?thesis by (intro exI [of _ s]) simp
qed

interpretation log_maker: conversion_target
  "make_work_log (with_logs cfg env icfg) key title description" "log_there cfg env key title description"
  "\<lambda>c. the (claim_key c)" sy_other
  for cfg env icfg key title description
  by unfold_locales (use make_log_again in blast, simp)


section \<open>One work log\<close>

lemma resolve_with_log_id: "resolve_to_work_log (lb_sha (wg_lib cfg)) icfg env key i title description =
    ib_resolve env key i TO_WORK_LOG (Some (inbox_log_id (wg_lib cfg) i)) (Some (inbox_log_id (wg_lib cfg) i))
      (Some (make_work_log icfg key title description)) True"
  by (simp add: resolve_to_work_log_def inbox_log_id_def Let_def)

text \<open>C34: a conversion to a work log whose row is stored but cannot be read back is reported as an internal
  error that must not be retried; a retry all the same resolves the item, with exactly one row, the one
  first stored, which then reads as the record of the item.\<close>

theorem ib_work_log_exactly_once:
  fixes s :: "wl_store inbox_system"
  assumes ok: "inbox_ok (tabs_of (sy_inbox s))"
    and row: "row_of ii_id (ii_id r) (ib_items (sy_inbox s)) = Some r" "ii_workspace r = key_identity key" "ii_status r = INBOX_PENDING"
    and free: "row_of ic_item (ii_id r) (ib_claims (sy_inbox s)) = None" "wr_table (sy_other s)"
      "inbox_log_id (wg_lib cfg) (ii_id r) \<notin> er_id ` set (wr_rows (sy_other s))"
    and first: "calm_env env" "no_raise (ie_bus_failed env)" "log_fits cfg lenv key (ii_id r) title (str_or description (ii_content r))"
      "lv_io lenv = None" "lv_io2 lenv = Some (Raise SqliteError m)"
    and retry: "calm_env env'" "log_fits cfg lenv' key (ii_id r) title (str_or description (ii_content r))" "lv_io lenv' = None" "lv_again lenv' = None"
    and times: "ii_created_at r \<le> ie_complete_now env'" "ie_now env \<le> ie_record_now env'" "sql_int (ii_revision r + 1)"
    and read: "lv_io again = None" "lv_io2 again = None"
  shows "\<exists>f s' item s''.
    resolve_to_work_log (lb_sha (wg_lib cfg)) (with_logs cfg lenv icfg) env key (ii_id r) title description s = (Inl (Failed f), s') \<and>
    fi_category f = INTERNAL \<and> \<not> fi_retryable f \<and>
    resolve_to_work_log (lb_sha (wg_lib cfg)) (with_logs cfg lenv' icfg) env' key (ii_id r) title description s' = (Inr item, s'') \<and>
    ii_status item = INBOX_RESOLVED \<and> ii_target item = Some (inbox_log_id (wg_lib cfg) (ii_id r)) \<and>
    length (wr_rows (sy_other s'')) = Suc (length (wr_rows (sy_other s))) \<and>
    fst (wl_get cfg again key (inbox_log_id (wg_lib cfg) (ii_id r)) (sy_other s'')) = Inr (inbox_log cfg lenv key (ii_id r) title (str_or description (ii_content r)))"
proof -
  let ?i = "inbox_log_id (wg_lib cfg) (ii_id r)"
  let ?c = "new_claim (key_identity key) (ii_id r) TO_WORK_LOG (Some ?i) (Some ?i) (ie_now env)"
  let ?w = "inbox_log cfg lenv key (ii_id r) title (str_or description (ii_content r))"
  let ?w' = "?w\<lparr>wl_key := canonical_workspace key\<rparr>"
  let ?logs = "(sy_other s)\<lparr>wr_rows := wr_rows (sy_other s) @ [row_of_record ?w' ?i]\<rparr>"
  let ?make = "\<lambda>lenv. make_work_log (with_logs cfg lenv icfg) key title description"
  have i: "canonical_id ?i" using first(3) by (simp add: log_fits_def)
  then have len: "?i \<noteq> []" "py_len ?i \<le> 160"
    using py_len_length [of ?i] by (auto simp: canonical_id_def hex_id_def)
  have key: "claim_key ?c = Some ?i" using len by (simp add: claim_key_def new_claim_def)
  have "valid_item r" using inbox_okD(3) [OF ok] row_of_Some [OF row(1)] by simp
  then have claim: "claim_ok ?c" using len by (intro new_claim_ok) (simp_all add: external_type_def)
  have make: "?make lenv r ?c (s\<lparr>sy_inbox := X\<rparr>) = (Inl (Raise SqliteError m), s\<lparr>sy_other := ?logs\<rparr>\<lparr>sy_inbox := X\<rparr>)" for X
    using log_target_interrupted [OF first(3-5) free(2)] free(3) key
    by (simp add: make_work_log_def with_logs_def bindS_run on_other_def)
  obtain s' where s':
    "ib_resolve env key (ii_id r) TO_WORK_LOG (Some ?i) (Some ?i) (Some (?make lenv)) True s =
      (Inl (inbox_failure ''inbox.resolve_failed'' INTERNAL ''resolve'' (Some (Raise SqliteError m)) (trace_id key) [] False), s')"
    "sy_other s' = ?logs" "claimed_for TO_WORK_LOG key r ?c (sy_inbox s')"
    using ib_resolve_stops(2) [OF ok first(1,2) row free(1) _ refl claim, where f = "?make lenv", OF _ make, of True]
    by (auto simp: inbox_classes_def is_value_error_def)
  have ident: "identity_of (wl_key ?w') = key_identity key" by (simp add: key_identity_def)
  then have named: "named (identity_of (wl_key ?w'))" using first(3) by (simp add: log_fits_def)
  have stored: "project_row (wg_lib cfg) (wg_repo_zone cfg) (row_of_record ?w' ?i) = Inr ?w"
    by (rule inbox_row_back [OF first(3)])
  have "log_there cfg lenv' key title description r ?c s'"
    using key retry(2-4) free(2,3) visible_new_id [OF _ named, of ?i "sy_other s" "key_identity key"] ident stored
    by (auto simp: log_there_def s'(2))
  from log_maker.retry_completes [OF this retry(1) s'(3), where icfg = icfg and tkey = "Some ?i" and reserved = "Some ?i" and b = True] obtain s'' where
    s'': "ib_resolve env' key (ii_id r) TO_WORK_LOG (Some ?i) (Some ?i) (Some (?make lenv')) True s' =
      (Inr ((closed_item TO_WORK_LOG (Some ?i) (ie_complete_now env') r)\<lparr>ii_revision := ii_revision r + 1\<rparr>), s'')"
    "sy_other s'' = ?logs"
    using key times len s'(2) by (auto simp: resolution_fits_def external_type_def new_claim_def sql_int_def)
  have "fst (wl_get cfg again key ?i (sy_other s'')) = Inr ?w"
    using get_canonical [OF i read free(2) _ named stored, of key] free(3) ident s''(2) by simp
  then show ?thesis
    using s'(1) s''
    by (auto simp: resolve_with_log_id inbox_failure_def closed_item_def final_status_def)
qed

definition logging_system :: "wl_store inbox_system" where
  "logging_system = \<lparr>sy_inbox = sample_inbox, sy_tasks = initial_tasks, sy_waiting = initial_service, sy_other = empty_logs,
     sy_published = []\<rparr>"

definition logging_config :: "wl_store inbox_config" where
  "logging_config = \<lparr>if_tasks = True, if_waiting = True, if_reminders = None, if_work_logs = None, if_timezone = ''UTC''\<rparr>"

definition lost_read_env :: wl_env where
  "lost_read_env = sample_log_env\<lparr>lv_io2 := Some (Raise SqliteError [])\<rparr>"

lemma sample_fits: "log_fits sample_log_config sample_log_env acme ''inbox_1'' ''call Ann'' (str_or [] (ii_content sample_item))"
  "log_fits sample_log_config lost_read_env acme ''inbox_1'' ''call Ann'' (str_or [] (ii_content sample_item))"
proof -
  have "starts_with ''inbox_'' ''inbox_1''" "py_strip ''inbox_1'' = ''inbox_1''" "canonical_id (''wl_'' @ replicate 32 CHR ''a'')"
    "py_len ''call Ann'' = 8" "py_strip ''call Ann'' \<noteq> []" "ii_content sample_item = ''call Ann''" "named (key_identity acme)"
    by code_simp+
  moreover from this have "text_valid 500 ''call Ann''" "text_valid 4000 (str_or [] (ii_content sample_item))"
    by (simp_all add: text_valid_def len_between_def str_or_def)
  ultimately show "log_fits sample_log_config sample_log_env acme ''inbox_1'' ''call Ann'' (str_or [] (ii_content sample_item))"
    "log_fits sample_log_config lost_read_env acme ''inbox_1'' ''call Ann'' (str_or [] (ii_content sample_item))"
    using sample_validates(2) by (simp_all add: log_fits_def lost_read_env_def inbox_log_id_def)
qed

theorem ib_work_log_exactly_once_witness:
  "\<exists>f s' item s''.
    resolve_to_work_log (lb_sha sample_lib) (with_logs sample_log_config lost_read_env logging_config) inbox_sample_env acme ''inbox_1''
      ''call Ann'' [] logging_system = (Inl (Failed f), s') \<and> \<not> fi_retryable f \<and>
    resolve_to_work_log (lb_sha sample_lib) (with_logs sample_log_config sample_log_env logging_config) inbox_sample_env acme ''inbox_1''
      ''call Ann'' [] s' = (Inr item, s'') \<and>
    ii_status item = INBOX_RESOLVED \<and> length (wr_rows (sy_other s'')) = 1"
proof -
  have calm: "calm_env inbox_sample_env" "no_raise (ie_bus_failed inbox_sample_env)"
    by (simp_all add: calm_env_def inbox_sample_env_def no_raise_def)
  have times: "ii_created_at sample_item \<le> ie_complete_now inbox_sample_env" "ie_now inbox_sample_env \<le> ie_record_now inbox_sample_env"
    "sql_int (ii_revision sample_item + 1)"
    by (simp_all add: inbox_sample_env_def sql_int_def)
  have io: "lv_io lost_read_env = None" "lv_io2 lost_read_env = Some (Raise SqliteError [])"
    by (simp_all add: lost_read_env_def)
  have state: "inbox_ok (tabs_of (sy_inbox logging_system))" "sy_other logging_system = empty_logs"
    "row_of ii_id (ii_id sample_item) (ib_items (sy_inbox logging_system)) = Some sample_item"
    "row_of ic_item (ii_id sample_item) (ib_claims (sy_inbox logging_system)) = None"
    using sample_inbox_ok by (simp_all add: logging_system_def) (simp_all add: sample_inbox_def)
  show ?thesis
    using ib_work_log_exactly_once [of logging_system sample_item acme sample_log_config inbox_sample_env lost_read_env "''call Ann''" "[]"
        "[]" inbox_sample_env sample_log_env sample_log_env logging_config] calm times io state sample_fits
    by (simp del: ex_simps) blast
qed

end
