(* ===== verification/Reminder_Store.thy ===== *)
theory Reminder_Store
  imports UserTask_Service
begin

text \<open>
  \<open>core/reminders/models.py\<close> and \<open>repository.py\<close>: reminders and their occurrences, and the statements
  over the two tables.  Every call is one transaction.  Rows hold decoded values, except that what a
  read validates is validated again; timestamp columns are compared as the texts \<open>isoformat\<close> gives.
\<close>

section \<open>Surroundings\<close>

text \<open>
  What one call takes from its surroundings: the exception of SQLite, two readings of the clock, the
  UUID it draws, what the bus does, and the surroundings of a call of the user task service.
\<close>

record rem_env =
  re_io :: "exn option"
  re_now :: instant
  re_later :: instant
  re_uuid :: string
  re_bus :: bus_mode
  re_task :: ut_env

section \<open>Reminders\<close>

datatype rem_status =
    REM_PENDING_SCHEDULE | REM_SCHEDULED | REM_PENDING_RESCHEDULE | REM_PENDING_CANCEL | REM_TRIGGERED
  | REM_CANCELLED | REM_FAILED

fun rem_status_value :: "rem_status \<Rightarrow> string" where
  "rem_status_value REM_PENDING_SCHEDULE = ''pending_schedule''"
| "rem_status_value REM_SCHEDULED = ''scheduled''"
| "rem_status_value REM_PENDING_RESCHEDULE = ''pending_reschedule''"
| "rem_status_value REM_PENDING_CANCEL = ''pending_cancel''"
| "rem_status_value REM_TRIGGERED = ''triggered''"
| "rem_status_value REM_CANCELLED = ''cancelled''"
| "rem_status_value REM_FAILED = ''failed''"

datatype occ_status = OCC_PROCESSING | OCC_TRIGGERED | OCC_FAILED

fun occ_status_value :: "occ_status \<Rightarrow> string" where
  "occ_status_value OCC_PROCESSING = ''processing''"
| "occ_status_value OCC_TRIGGERED = ''triggered''"
| "occ_status_value OCC_FAILED = ''failed''"

record reminder =
  rd_id :: string
  rd_task :: string
  rd_at :: instant
  rd_zone :: string
  rd_status :: rem_status
  rd_job :: "string option"
  rd_created :: instant
  rd_updated :: instant
  rd_cancelled :: "instant option"
  rd_failure :: "failure_info option"
  rd_trace :: string
  rd_meta :: dict
  rd_revision :: int

record occurrence =
  oc_id :: string
  oc_reminder :: string
  oc_task :: string
  oc_at :: instant
  oc_triggered :: "instant option"
  oc_status :: occ_status
  oc_trace :: string
  oc_failure :: "failure_info option"
  oc_key :: string
  oc_attempt :: int

text \<open>\<open>san\<close> is \<open>sanitize_text\<close>; metadata that it would change is refused.\<close>

definition reminder_ok :: "(string \<Rightarrow> bool) \<Rightarrow> (string \<Rightarrow> string) \<Rightarrow> reminder \<Rightarrow> bool" where
  "reminder_ok zone_ok san r =
    (zone_ok (rd_zone r) \<and> sanitize_dict san (rd_meta r) = rd_meta r \<and> dumpable_dict (rd_meta r) \<and> 1 \<le> rd_revision r)"

definition validate_reminder :: "(string \<Rightarrow> bool) \<Rightarrow> (string \<Rightarrow> string) \<Rightarrow> reminder \<Rightarrow> exn + reminder" where
  "validate_reminder zone_ok san r =
    (if reminder_ok zone_ok san r then Inr r else Inl (Raise ValidationError ''Reminder''))"

text \<open>The time as given, which must be aware.\<close>

definition reminder_at :: "datetime \<Rightarrow> (instant \<Rightarrow> reminder) \<Rightarrow> exn + reminder" where
  "reminder_at d f = (if is_naive d then Inl (Raise ValidationError ''Reminder'') else Inr (f (utc_instant d)))"

definition validate_occurrence :: "occurrence \<Rightarrow> exn + occurrence" where
  "validate_occurrence c = (if 1 \<le> oc_attempt c then Inr c else Inl (Raise ValidationError ''ReminderOccurrence''))"

section \<open>Exceptions\<close>

abbreviation RemNotFound :: exn_class where
  "RemNotFound \<equiv> OtherError ''ReminderNotFoundError''"

abbreviation RemConflict :: exn_class where
  "RemConflict \<equiv> OtherError ''ReminderConflictError''"

abbreviation RemPersistence :: exn_class where
  "RemPersistence \<equiv> OtherError ''ReminderPersistenceError''"

abbreviation RemUnavailable :: exn_class where
  "RemUnavailable \<equiv> OtherError ''ReminderUnavailableError''"

section \<open>Columns\<close>

definition rem_detail_keys :: "string list" where
  "rem_detail_keys = [''reminder_id'', ''recovery_state'', ''attempt'', ''job_id'']"

text \<open>\<open>_failure_json\<close> and \<open>_failure\<close>\<close>

definition rem_failure_column :: "failure_info \<Rightarrow> failure_info" where
  "rem_failure_column f = f\<lparr>fi_message := [], fi_cause_type := [],
     fi_details := filter (\<lambda>(k, v). k \<in> set rem_detail_keys) (fi_details f)\<rparr>"

definition rem_column_failure :: "(string \<Rightarrow> string) \<Rightarrow> failure_info \<Rightarrow> failure_info" where
  "rem_column_failure san c = c\<lparr>fi_message := ''Reminder operation failed'', fi_details := sanitize_dict san (fi_details c)\<rparr>"

definition reminder_row :: "reminder \<Rightarrow> reminder" where
  "reminder_row r = r\<lparr>rd_failure := map_option rem_failure_column (rd_failure r)\<rparr>"

text \<open>\<open>_values\<close>: metadata that is no JSON raises.\<close>

definition reminder_values :: "reminder \<Rightarrow> exn + reminder" where
  "reminder_values r =
    (if dumpable_dict (rd_meta r) then Inr (reminder_row r) else Inl (Raise TypeError ''Object is not JSON serializable''))"

definition row_reminder :: "(string \<Rightarrow> bool) \<Rightarrow> (string \<Rightarrow> string) \<Rightarrow> reminder \<Rightarrow> exn + reminder" where
  "row_reminder zone_ok san r = validate_reminder zone_ok san (r\<lparr>rd_failure := map_option (rem_column_failure san) (rd_failure r)\<rparr>)"

definition row_occurrence :: "(string \<Rightarrow> string) \<Rightarrow> occurrence \<Rightarrow> exn + occurrence" where
  "row_occurrence san c = validate_occurrence (c\<lparr>oc_failure := map_option (rem_column_failure san) (oc_failure c)\<rparr>)"

section \<open>The repository\<close>

record rem_store =
  rs_reminders :: "reminder list"
  rs_occurrences :: "occurrence list"
  rs_initialized :: bool
  rs_last_error :: "string option"
  rs_unobserved :: "string option"

type_synonym 'a rem_call = "rem_store \<Rightarrow> (exn + 'a) \<times> rem_store"

text \<open>The handler of every other exception.\<close>

definition rem_error :: "string \<Rightarrow> exn \<Rightarrow> 'a rem_call" where
  "rem_error m e s = (Inl (Raise RemPersistence m), s\<lparr>rs_last_error := Some (exn_name e)\<rparr>)"

definition rem_done :: "'a \<Rightarrow> 'a rem_call" where
  "rem_done x s = (Inr x, s\<lparr>rs_last_error := None\<rparr>)"

text \<open>What was read, or the handler.\<close>

definition rem_read :: "string \<Rightarrow> exn + 'a \<Rightarrow> 'a rem_call" where
  "rem_read m v = (case v of Inl e \<Rightarrow> rem_error m e | Inr x \<Rightarrow> rem_done x)"

definition rem_initialize :: "rem_env \<Rightarrow> unit rem_call" where
  "rem_initialize env s =
    (if rs_initialized s then (Inr (), s)
     else case re_io env of
       Some e \<Rightarrow> rem_error ''Reminder repository initialization failed'' e s
     | None \<Rightarrow> rem_done () (s\<lparr>rs_initialized := True\<rparr>))"

definition rem_create :: "rem_env \<Rightarrow> reminder \<Rightarrow> reminder rem_call" where
  "rem_create env r s =
    (case reminder_values r of
       Inl e \<Rightarrow> rem_error ''Reminder create failed'' e s
     | Inr row \<Rightarrow>
         (case re_io env of
            Some e \<Rightarrow>
              if has_class [SqliteIntegrityError] e then (Inl (Raise RemConflict ''Reminder already exists''), s)
              else rem_error ''Reminder create failed'' e s
          | None \<Rightarrow>
              if row_of rd_id (rd_id r) (rs_reminders s) \<noteq> None
              then (Inl (Raise RemConflict ''Reminder already exists''), s)
              else rem_done r (s\<lparr>rs_reminders := rs_reminders s @ [row]\<rparr>)))"

definition rem_get :: "(string \<Rightarrow> bool) \<Rightarrow> (string \<Rightarrow> string) \<Rightarrow> rem_env \<Rightarrow> string \<Rightarrow> reminder rem_call" where
  "rem_get zone_ok san env i s =
    (case re_io env of
       Some e \<Rightarrow> rem_error ''Reminder query failed'' e s
     | None \<Rightarrow>
         (case row_of rd_id i (rs_reminders s) of
            None \<Rightarrow> (Inl (Raise RemNotFound ''Reminder not found''), s\<lparr>rs_last_error := None\<rparr>)
          | Some r \<Rightarrow> rem_read ''Reminder query failed'' (row_reminder zone_ok san r) s))"

definition rem_list ::
  "(string \<Rightarrow> bool) \<Rightarrow> (string \<Rightarrow> string) \<Rightarrow> rem_env \<Rightarrow> (reminder \<Rightarrow> bool) \<Rightarrow> reminder list rem_call" where
  "rem_list zone_ok san env hit s =
    (case re_io env of
       Some e \<Rightarrow> rem_error ''Reminder list failed'' e s
     | None \<Rightarrow> rem_read ''Reminder list failed''
         (decode_rows (row_reminder zone_ok san)
           (sort_key (\<lambda>r. (isoformat (rd_created r), rd_id r)) (filter hit (rs_reminders s)))) s)"

definition rem_list_for_task ::
  "(string \<Rightarrow> bool) \<Rightarrow> (string \<Rightarrow> string) \<Rightarrow> rem_env \<Rightarrow> string \<Rightarrow> reminder list rem_call" where
  "rem_list_for_task zone_ok san env task = rem_list zone_ok san env (\<lambda>r. rd_task r = task)"

definition rem_list_by_statuses ::
  "(string \<Rightarrow> bool) \<Rightarrow> (string \<Rightarrow> string) \<Rightarrow> rem_env \<Rightarrow> rem_status list \<Rightarrow> reminder list rem_call" where
  "rem_list_by_statuses zone_ok san env statuses =
    (if statuses = [] then retS [] else rem_list zone_ok san env (\<lambda>r. rd_status r \<in> set statuses))"

definition rem_page_rows :: "instant option \<Rightarrow> instant option \<Rightarrow> nat \<Rightarrow> nat \<Rightarrow> reminder list \<Rightarrow> reminder list" where
  "rem_page_rows lower upper limit offset rows =
    sql_page limit offset
      (sort_key (\<lambda>r. (isoformat (rd_at r), rd_id r))
        (filter (\<lambda>r. opt_clause (\<lambda>t. isoformat t \<le> isoformat (rd_at r)) lower \<and>
                     opt_clause (\<lambda>t. isoformat (rd_at r) < isoformat t) upper) rows))"

definition rem_list_page ::
  "(string \<Rightarrow> bool) \<Rightarrow> (string \<Rightarrow> string) \<Rightarrow> rem_env \<Rightarrow> instant option \<Rightarrow> instant option \<Rightarrow> nat \<Rightarrow> nat \<Rightarrow>
   reminder list rem_call" where
  "rem_list_page zone_ok san env lower upper limit offset s =
    (case re_io env of
       Some e \<Rightarrow> rem_error ''Reminder page query failed'' e s
     | None \<Rightarrow> rem_read ''Reminder page query failed''
         (decode_rows (row_reminder zone_ok san) (rem_page_rows lower upper limit offset (rs_reminders s))) s)"

text \<open>The values are made outside the handler.\<close>

definition rem_update :: "rem_env \<Rightarrow> reminder \<Rightarrow> int \<Rightarrow> reminder rem_call" where
  "rem_update env r expected s =
    (let updated = r\<lparr>rd_revision := expected + 1, rd_updated := re_now env\<rparr>;
         hits = (\<lambda>x. rd_id x = rd_id r \<and> rd_revision x = expected) in
     case reminder_values updated of
       Inl e \<Rightarrow> (Inl e, s)
     | Inr row \<Rightarrow>
         (case re_io env of
            Some e \<Rightarrow> rem_error ''Reminder update failed'' e s
          | None \<Rightarrow>
              if rowcount hits (rs_reminders s) \<noteq> 1
              then (if row_of rd_id (rd_id r) (rs_reminders s) = None
                    then (Inl (Raise RemNotFound ''Reminder not found''), s)
                    else (Inl (Raise RemConflict ''Reminder was modified concurrently''), s))
              else rem_done updated (s\<lparr>rs_reminders := update_where hits (\<lambda>_. row) (rs_reminders s)\<rparr>)))"

section \<open>Occurrences\<close>

definition occ_key :: "string \<Rightarrow> instant \<Rightarrow> string" where
  "occ_key i t = i @ '':'' @ isoformat t"

text \<open>\<open>INSERT OR IGNORE\<close>: nothing happens when one of the three unique keys is taken.\<close>

definition insert_occurrence :: "occurrence \<Rightarrow> occurrence list \<Rightarrow> occurrence list" where
  "insert_occurrence c rows =
    (if list_ex (\<lambda>x. oc_id x = oc_id c \<or> oc_key x = oc_key c \<or> oc_reminder x = oc_reminder c \<and> oc_at x = oc_at c) rows
     then rows else rows @ [c])"

definition new_occurrence :: "rem_env \<Rightarrow> occ_status \<Rightarrow> reminder \<Rightarrow> instant \<Rightarrow> string \<Rightarrow> failure_info option \<Rightarrow> occurrence" where
  "new_occurrence env st r t tr f =
    \<lparr>oc_id = ''occ_'' @ re_uuid env, oc_reminder = rd_id r, oc_task = rd_task r, oc_at = t, oc_triggered = None,
     oc_status = st, oc_trace = tr, oc_failure = f, oc_key = occ_key (rd_id r) t, oc_attempt = 1\<rparr>"

definition triggered_occurrence :: "instant \<Rightarrow> string \<Rightarrow> occurrence \<Rightarrow> occurrence" where
  "triggered_occurrence now tr c = c
    \<lparr>oc_status := OCC_TRIGGERED, oc_triggered := Some now, oc_trace := tr, oc_failure := None,
     oc_attempt := oc_attempt c + (if oc_status c = OCC_PROCESSING then 0 else 1)\<rparr>"

definition triggered_reminder :: "instant \<Rightarrow> string \<Rightarrow> reminder \<Rightarrow> reminder" where
  "triggered_reminder now tr r = r
    \<lparr>rd_status := REM_TRIGGERED, rd_updated := now, rd_failure := None, rd_trace := tr, rd_revision := rd_revision r + 1\<rparr>"

text \<open>The writes of \<open>trigger\<close>, once its checks have passed.\<close>

definition store_trigger ::
  "(string \<Rightarrow> bool) \<Rightarrow> (string \<Rightarrow> string) \<Rightarrow> rem_env \<Rightarrow> reminder \<Rightarrow> reminder \<Rightarrow> instant \<Rightarrow> string \<Rightarrow>
   (reminder \<times> occurrence \<times> bool) rem_call" where
  "store_trigger zone_ok san env row r t tr s =
    (let key = occ_key (rd_id r) t; failed = ''Reminder trigger failed'';
         occs = insert_occurrence (new_occurrence env OCC_PROCESSING r t tr None) (rs_occurrences s) in
     case row_of oc_key key occs of
       None \<Rightarrow> rem_error failed (Raise TypeError ''object is not subscriptable'') s
     | Some c \<Rightarrow>
         (let existing = (oc_status c = OCC_TRIGGERED);
              c' = (if existing then c else triggered_occurrence (re_now env) tr c);
              row' = triggered_reminder (re_now env) tr row in
          case (row_reminder zone_ok san row', row_occurrence san c') of
            (Inr r', Inr o') \<Rightarrow> rem_done (r', o', existing)
              (s\<lparr>rs_occurrences := update_where (\<lambda>x. oc_key x = key) (\<lambda>_. c') occs,
                 rs_reminders := update_where (\<lambda>x. rd_id x = rd_id r) (\<lambda>_. row') (rs_reminders s)\<rparr>)
          | (Inl e, _) \<Rightarrow> rem_error failed e s
          | (_, Inl e) \<Rightarrow> rem_error failed e s))"

text \<open>A repeated trigger returns from inside the transaction and leaves the last error as it is.\<close>

definition rem_trigger ::
  "(string \<Rightarrow> bool) \<Rightarrow> (string \<Rightarrow> string) \<Rightarrow> rem_env \<Rightarrow> string \<Rightarrow> instant \<Rightarrow> string \<Rightarrow>
   (reminder \<times> occurrence \<times> bool) rem_call" where
  "rem_trigger zone_ok san env i t tr s =
    (let failed = ''Reminder trigger failed''; conflict = (\<lambda>m. (Inl (Raise RemConflict m), s)) in
     case re_io env of
       Some e \<Rightarrow> rem_error failed e s
     | None \<Rightarrow>
         (case row_of rd_id i (rs_reminders s) of
            None \<Rightarrow> (Inl (Raise RemNotFound ''Reminder not found''), s)
          | Some row \<Rightarrow>
              (case row_reminder zone_ok san row of
                 Inl e \<Rightarrow> rem_error failed e s
               | Inr r \<Rightarrow>
                   if rd_status r \<in> {REM_CANCELLED, REM_PENDING_CANCEL}
                   then conflict ''Cancelled Reminder cannot trigger''
                   else if rd_status r = REM_TRIGGERED
                   then (case row_of oc_key (occ_key i t) (rs_occurrences s) of
                           None \<Rightarrow> conflict ''Triggered Reminder has no matching occurrence''
                         | Some c \<Rightarrow>
                             if oc_status c \<noteq> OCC_TRIGGERED then conflict ''Triggered Reminder has no matching occurrence''
                             else case row_occurrence san c of
                                    Inl e \<Rightarrow> rem_error failed e s
                                  | Inr x \<Rightarrow> (Inr (r, x, True), s))
                   else if rd_status r \<notin> {REM_SCHEDULED, REM_FAILED}
                   then conflict ''Reminder transition prevents this trigger''
                   else if rd_at r \<noteq> t then conflict ''Reminder schedule changed before trigger''
                   else store_trigger zone_ok san env row r t tr s)))"

definition rem_list_occurrences :: "(string \<Rightarrow> string) \<Rightarrow> rem_env \<Rightarrow> string \<Rightarrow> occurrence list rem_call" where
  "rem_list_occurrences san env i s =
    (case re_io env of
       Some e \<Rightarrow> rem_error ''Reminder occurrence query failed'' e s
     | None \<Rightarrow> rem_read ''Reminder occurrence query failed''
         (decode_rows (row_occurrence san)
           (sort_key (\<lambda>c. (isoformat (oc_at c), oc_id c)) (filter (\<lambda>c. oc_reminder c = i) (rs_occurrences s)))) s)"

definition failed_occurrence :: "string \<Rightarrow> failure_info \<Rightarrow> occurrence \<Rightarrow> occurrence" where
  "failed_occurrence tr f c = c
    \<lparr>oc_status := OCC_FAILED, oc_failure := Some (rem_failure_column f), oc_trace := tr, oc_attempt := oc_attempt c + 1\<rparr>"

definition failed_reminder :: "instant \<Rightarrow> string \<Rightarrow> failure_info \<Rightarrow> reminder \<Rightarrow> reminder" where
  "failed_reminder now tr f r = r
    \<lparr>rd_status := REM_FAILED, rd_failure := Some (rem_failure_column f), rd_trace := tr, rd_updated := now,
     rd_revision := rd_revision r + 1\<rparr>"

definition rem_record_failure ::
  "(string \<Rightarrow> bool) \<Rightarrow> (string \<Rightarrow> string) \<Rightarrow> rem_env \<Rightarrow> string \<Rightarrow> instant \<Rightarrow> string \<Rightarrow> failure_info \<Rightarrow> unit rem_call" where
  "rem_record_failure zone_ok san env i t tr f s =
    (let failed = ''Reminder trigger failure save failed'' in
     case re_io env of
       Some e \<Rightarrow> rem_error failed e s
     | None \<Rightarrow>
         (case row_of rd_id i (rs_reminders s) of
            None \<Rightarrow> (Inl (Raise RemNotFound ''Reminder not found''), s)
          | Some row \<Rightarrow>
              (case row_reminder zone_ok san row of
                 Inl e \<Rightarrow> rem_error failed e s
               | Inr r \<Rightarrow>
                   (let c = new_occurrence env OCC_FAILED r t tr (Some (rem_failure_column f));
                        occs = insert_occurrence c (rs_occurrences s);
                        occs' = (if length occs = length (rs_occurrences s)
                                 then update_where (\<lambda>x. oc_key x = occ_key i t \<and> oc_status x \<noteq> OCC_TRIGGERED)
                                        (failed_occurrence tr f) occs
                                 else occs)
                    in rem_done () (s\<lparr>rs_occurrences := occs',
                         rs_reminders := update_where
                           (\<lambda>x. rd_id x = i \<and> rd_status x \<notin> {REM_TRIGGERED, REM_CANCELLED, REM_PENDING_CANCEL})
                           (failed_reminder (re_now env) tr f) (rs_reminders s)\<rparr>)))))"

section \<open>Health\<close>

definition rem_mark :: "string \<Rightarrow> rem_store \<Rightarrow> rem_store" where
  "rem_mark reason s = s\<lparr>rs_unobserved := Some (concat (take 100 (py_chars reason)))\<rparr>"

definition rem_clear :: "rem_store \<Rightarrow> rem_store" where
  "rem_clear s = s\<lparr>rs_unobserved := None\<rparr>"

text \<open>With the status \<open>degraded\<close> the reason is told.\<close>

definition rem_health :: "bool \<Rightarrow> rem_store \<Rightarrow> (runtime_status \<times> string option) \<times> rem_store" where
  "rem_health connection_ok s =
    (if \<not> rs_initialized s then ((NOT_INITIALIZED, None), s)
     else if \<not> connection_ok then ((STATUS_FAILED, None), s\<lparr>rs_last_error := Some ''health_check_failed''\<rparr>)
     else case (rs_last_error s, rs_unobserved s) of
       (None, None) \<Rightarrow> ((OK, None), s)
     | (None, Some r) \<Rightarrow> (if r = [] then (OK, None) else (DEGRADED, Some r), s)
     | (Some r, u) \<Rightarrow> ((DEGRADED, Some r), s))"

definition rem_close :: "rem_store \<Rightarrow> rem_store" where
  "rem_close s = s\<lparr>rs_initialized := False\<rparr>"

end
