(* ===== verification/Reminder_Service.thy ===== *)
theory Reminder_Service
  imports Reminder_Store Scheduler_Runtime
begin

text \<open>
  \<open>core/reminders/service.py\<close>, \<open>events.py\<close> and \<open>handler.py\<close>: the domain service over the repository and the
  user task service, and the action that a due job runs.  Every primitive call draws its own
  surroundings from a supply, by the number of calls made before it.
\<close>

section \<open>The system\<close>

record rem_message =
  mg_type :: string
  mg_reminder :: string
  mg_task :: string
  mg_occurrence :: string
  mg_status :: string
  mg_trace :: string

record reconciliation =
  rc_repaired :: nat
  rc_skipped :: nat
  rc_failed :: nat

text \<open>
  \<open>rw_shown\<close> is \<open>str\<close> on a value that is no string, \<open>rw_parse\<close> is \<open>datetime.fromisoformat\<close>, \<open>rw_jobs\<close> the
  surroundings of the calls of the scheduler runtime, if there is one.
\<close>

record rem_world =
  rw_zone_ok :: "string \<Rightarrow> bool"
  rw_san :: "string \<Rightarrow> string"
  rw_shown :: "json \<Rightarrow> string"
  rw_parse :: "string \<Rightarrow> exn + datetime"
  rw_env :: "nat \<Rightarrow> rem_env"
  rw_jobs :: "(nat \<Rightarrow> sched_env) option"

record rem_system =
  rm_store :: rem_store
  rm_tasks :: ut_service
  rm_jobs :: "runtime \<times> sched_store"
  rm_sent :: "rem_message list"
  rm_calls :: nat
  rm_started :: bool
  rm_reconciled :: "reconciliation option"

type_synonym 'a rem_op = "rem_system \<Rightarrow> (exn + 'a) \<times> rem_system"

definition rem_draw :: "rem_world \<Rightarrow> rem_env rem_op" where
  "rem_draw w s = (Inr (rw_env w (rm_calls s)), s\<lparr>rm_calls := Suc (rm_calls s)\<rparr>)"

definition on_rem :: "rem_world \<Rightarrow> (rem_env \<Rightarrow> 'a rem_call) \<Rightarrow> 'a rem_op" where
  "on_rem w m s =
    (case m (rw_env w (rm_calls s)) (rm_store s) of
       (r, st) \<Rightarrow> (r, s\<lparr>rm_store := st, rm_calls := Suc (rm_calls s)\<rparr>))"

definition on_user_tasks :: "rem_world \<Rightarrow> (ut_env \<Rightarrow> 'a ut_call) \<Rightarrow> 'a rem_op" where
  "on_user_tasks w m s =
    (case m (re_task (rw_env w (rm_calls s))) (rm_tasks s) of
       (r, ts) \<Rightarrow> (r, s\<lparr>rm_tasks := ts, rm_calls := Suc (rm_calls s)\<rparr>))"

definition on_jobs :: "(nat \<Rightarrow> sched_env) \<Rightarrow> (sched_env \<Rightarrow> 'a sched_call) \<Rightarrow> 'a rem_op" where
  "on_jobs js m s =
    (case m (js (rm_calls s)) (rm_jobs s) of
       (r, js') \<Rightarrow> (r, s\<lparr>rm_jobs := js', rm_calls := Suc (rm_calls s)\<rparr>))"

definition rem_lift :: "exn + 'a \<Rightarrow> 'a rem_op" where
  "rem_lift v s = (v, s)"

definition mark_store :: "string \<Rightarrow> unit rem_op" where
  "mark_store reason s = (Inr (), s\<lparr>rm_store := rem_mark reason (rm_store s)\<rparr>)"

definition clear_store :: "unit rem_op" where
  "clear_store s = (Inr (), s\<lparr>rm_store := rem_clear (rm_store s)\<rparr>)"

text \<open>\<open>try: m except Exception:\<close> a warning\<close>

definition unless_raised :: "'a rem_op \<Rightarrow> unit rem_op" where
  "unless_raised m = catchS (bindS m (\<lambda>_. retS ())) (\<lambda>_. retS ())"

section \<open>Events\<close>

definition publish_reminder_event :: "rem_world \<Rightarrow> rem_message \<Rightarrow> unit rem_op" where
  "publish_reminder_event w m =
    bindS (rem_draw w) (\<lambda>env. case re_bus env of
        Bus_Off \<Rightarrow> retS ()
      | Bus_Accepts \<Rightarrow> (\<lambda>s. (Inr (), s\<lparr>rm_sent := rm_sent s @ [m]\<rparr>))
      | Bus_Raises e \<Rightarrow> failS e)"

definition reminder_message :: "string \<Rightarrow> string \<Rightarrow> string \<Rightarrow> reminder \<Rightarrow> rem_message" where
  "reminder_message ty occ tr r =
    \<lparr>mg_type = ty, mg_reminder = rd_id r, mg_task = rd_task r, mg_occurrence = occ,
     mg_status = rem_status_value (rd_status r), mg_trace = tr\<rparr>"

text \<open>\<open>_publish\<close> does nothing at all without a running bus.\<close>

definition rem_publish :: "rem_world \<Rightarrow> string \<Rightarrow> reminder \<Rightarrow> unit rem_op" where
  "rem_publish w ty r s =
    (if re_bus (rw_env w (rm_calls s)) = Bus_Off then (Inr (), s)
     else catchS
       (bindS (publish_reminder_event w (reminder_message ty [] (rd_trace r) r)) (\<lambda>_. clear_store))
       (\<lambda>_. mark_store ''event_publish_failed'') s)"

section \<open>The service\<close>

text \<open>\<open>_raise\<close>\<close>

definition rem_category :: "exn \<Rightarrow> error_category" where
  "rem_category e =
    (if has_class [RemNotFound] e then NOT_FOUND
     else if has_class [RemConflict] e then CONFLICT
     else if is_value_error e then VALIDATION
     else if has_class [RemUnavailable] e then NOT_CONFIGURED
     else PERSISTENCE_FAILURE)"

definition given_details :: "(string \<times> string) list \<Rightarrow> dict" where
  "given_details d = map (\<lambda>(k, v). (k, JStr v)) (filter (\<lambda>(k, v). v \<noteq> []) d)"

definition rem_raised :: "rem_world \<Rightarrow> string \<Rightarrow> string \<Rightarrow> string \<Rightarrow> string \<Rightarrow> exn \<Rightarrow> exn" where
  "rem_raised w operation tr i recovery e =
    (case e of
       Failed f \<Rightarrow> Failed f
     | Raise c m \<Rightarrow>
         (let k = rem_category e in
          Failed ((failure_from_exception (rw_san w) e ''reminders'' operation tr
             (Some (''reminders.'' @ operation @ ''.'' @ category_value k)) (Some k)
             (Some (k \<in> {PERSISTENCE_FAILURE, NOT_CONFIGURED}))
             (given_details [(''reminder_id'', i), (''recovery_state'', recovery)]))
             \<lparr>fi_message := ''Reminder '' @ operation @ '' failed''\<rparr>)))"

definition rem_raise :: "rem_world \<Rightarrow> string \<Rightarrow> string \<Rightarrow> string \<Rightarrow> string \<Rightarrow> exn \<Rightarrow> 'a rem_op" where
  "rem_raise w operation tr i recovery e = failS (rem_raised w operation tr i recovery e)"

definition service_initialize :: "rem_world \<Rightarrow> unit rem_op" where
  "service_initialize w = catchS (on_rem w rem_initialize) (rem_raise w ''initialize'' [] [] [])"

definition service_close :: "rem_system \<Rightarrow> rem_system" where
  "service_close s = s\<lparr>rm_store := rem_close (rm_store s)\<rparr>"

definition pending_reminder :: "rem_env \<Rightarrow> workspace_key \<Rightarrow> string \<Rightarrow> string \<Rightarrow> string \<Rightarrow> dict option \<Rightarrow> instant \<Rightarrow> reminder" where
  "pending_reminder env key task tz tr meta at =
    \<lparr>rd_id = ''rem_'' @ re_uuid env, rd_task = task, rd_at = at, rd_zone = tz, rd_status = REM_PENDING_SCHEDULE,
     rd_job = None, rd_created = re_now env, rd_updated = re_later env, rd_cancelled = None, rd_failure = None,
     rd_trace = tr,
     rd_meta = workspace_metadata key (case meta of None \<Rightarrow> [] | Some d \<Rightarrow> d), rd_revision = 1\<rparr>"

text \<open>The check against the clock, as a candidate is about to be written.\<close>

definition in_future :: "rem_world \<Rightarrow> reminder \<Rightarrow> unit rem_op" where
  "in_future w r =
    bindS (rem_draw w) (\<lambda>env.
      if rd_at r \<le> re_now env then failS (Raise ValueError ''remind_at must be in the future'') else retS ())"

definition create_pending ::
  "rem_world \<Rightarrow> workspace_key \<Rightarrow> string \<Rightarrow> datetime \<Rightarrow> string \<Rightarrow> string \<Rightarrow> dict option \<Rightarrow> reminder rem_op" where
  "create_pending w key task at tz tr meta =
    catchS
      (bindS (on_user_tasks w (\<lambda>e. ut_get (rw_zone_ok w) (rw_san w) e key task tr)) (\<lambda>t.
       if ut_status t \<noteq> UT_ACTIVE then failS (Raise RemConflict ''Terminal UserTask cannot receive a Reminder'')
       else
         bindS (rem_draw w) (\<lambda>env.
         bindS (rem_lift (bindR (reminder_at at (pending_reminder env key task tz tr meta))
                  (validate_reminder (rw_zone_ok w) (rw_san w)))) (\<lambda>r.
         bindS (in_future w r) (\<lambda>_.
         bindS (on_rem w (\<lambda>e. rem_create e r)) (\<lambda>r'.
         bindS (rem_publish w ''reminder.created'' r') (\<lambda>_. retS r')))))))
      (rem_raise w ''create'' tr [] [])"

definition service_get :: "rem_world \<Rightarrow> string \<Rightarrow> string \<Rightarrow> reminder rem_op" where
  "service_get w i tr =
    catchS (on_rem w (\<lambda>e. rem_get (rw_zone_ok w) (rw_san w) e i)) (rem_raise w ''get'' tr i [])"

definition service_list_for_task :: "rem_world \<Rightarrow> workspace_key \<Rightarrow> string \<Rightarrow> string \<Rightarrow> reminder list rem_op" where
  "service_list_for_task w key task tr =
    catchS
      (bindS (on_user_tasks w (\<lambda>e. ut_get (rw_zone_ok w) (rw_san w) e key task tr)) (\<lambda>_.
       on_rem w (\<lambda>e. rem_list_for_task (rw_zone_ok w) (rw_san w) e task)))
      (rem_raise w ''list'' tr [] [])"

definition service_list_page ::
  "rem_world \<Rightarrow> instant option \<Rightarrow> instant option \<Rightarrow> nat \<Rightarrow> nat \<Rightarrow> string \<Rightarrow> reminder list rem_op" where
  "service_list_page w lower upper limit offset tr =
    catchS (on_rem w (\<lambda>e. rem_list_page (rw_zone_ok w) (rw_san w) e lower upper limit offset))
      (rem_raise w ''list'' tr [] [])"

definition service_list_occurrences :: "rem_world \<Rightarrow> string \<Rightarrow> string \<Rightarrow> occurrence list rem_op" where
  "service_list_occurrences w i tr =
    bindS (service_get w i tr) (\<lambda>_.
      catchS (on_rem w (\<lambda>e. rem_list_occurrences (rw_san w) e i)) (rem_raise w ''list_occurrences'' tr i []))"

text \<open>An argument that was not given is \<open>None\<close>.\<close>

definition transition_of ::
  "rem_status \<Rightarrow> string option option \<Rightarrow> failure_info option option \<Rightarrow> string \<Rightarrow> instant \<Rightarrow> reminder \<Rightarrow> reminder" where
  "transition_of st job failure tr now r = r
    \<lparr>rd_status := st, rd_trace := str_or tr (rd_trace r), rd_job := or_old job (rd_job r),
     rd_failure := or_old failure (rd_failure r),
     rd_cancelled := (if st = REM_CANCELLED then Some now else rd_cancelled r)\<rparr>"

fun transition_event :: "rem_status \<Rightarrow> string option" where
  "transition_event REM_SCHEDULED = Some ''reminder.scheduled''"
| "transition_event REM_PENDING_RESCHEDULE = Some ''reminder.reschedule.pending''"
| "transition_event REM_PENDING_CANCEL = Some ''reminder.cancel.pending''"
| "transition_event REM_CANCELLED = Some ''reminder.cancelled''"
| "transition_event REM_FAILED = Some ''reminder.failed''"
| "transition_event _ = None"

definition transition ::
  "rem_world \<Rightarrow> reminder \<Rightarrow> rem_status \<Rightarrow> string option option \<Rightarrow> failure_info option option \<Rightarrow> string \<Rightarrow> reminder rem_op" where
  "transition w r st job failure tr =
    bindS (rem_draw w) (\<lambda>env.
      catchS
        (bindS (on_rem w (\<lambda>e. rem_update e (transition_of st job failure tr (re_now env) r) (rd_revision r))) (\<lambda>r'.
         bindS (case transition_event st of None \<Rightarrow> retS () | Some ty \<Rightarrow> rem_publish w ty r') (\<lambda>_. retS r')))
        (rem_raise w ''transition'' tr (rd_id r) (rem_status_value st)))"

definition rescheduled_reminder :: "instant \<Rightarrow> string \<Rightarrow> string \<Rightarrow> dict option \<Rightarrow> reminder \<Rightarrow> reminder" where
  "rescheduled_reminder at tz tr management r = r
    \<lparr>rd_at := at, rd_zone := tz, rd_status := REM_PENDING_RESCHEDULE, rd_failure := None,
     rd_trace := str_or tr (rd_trace r),
     rd_meta := (case management of None \<Rightarrow> rd_meta r
                 | Some d \<Rightarrow> dict_set ''management_reschedule'' (JObj d) (rd_meta r))\<rparr>"

definition prepare_reschedule ::
  "rem_world \<Rightarrow> string \<Rightarrow> datetime \<Rightarrow> string \<Rightarrow> int option \<Rightarrow> string \<Rightarrow> dict option \<Rightarrow> reminder rem_op" where
  "prepare_reschedule w i at tz expected tr management =
    bindS (service_get w i tr) (\<lambda>r.
      if rd_status r \<in> {REM_TRIGGERED, REM_CANCELLED}
      then rem_raise w ''reschedule'' tr i [] (Raise RemConflict ''Terminal Reminder cannot be rescheduled'')
      else if expected \<noteq> None \<and> expected \<noteq> Some (rd_revision r)
      then rem_raise w ''reschedule'' tr i [] (Raise RemConflict ''Reminder was modified concurrently'')
      else catchS
        (bindS (rem_lift (bindR (reminder_at at (\<lambda>t. rescheduled_reminder t tz tr management r))
                 (validate_reminder (rw_zone_ok w) (rw_san w)))) (\<lambda>c.
         bindS (in_future w c) (\<lambda>_. on_rem w (\<lambda>e. rem_update e c (rd_revision r)))))
        (rem_raise w ''reschedule'' tr i []))"

definition service_health :: "bool \<Rightarrow> rem_system \<Rightarrow> (runtime_status \<times> string option) \<times> rem_system" where
  "service_health connection_ok s =
    (case rem_health connection_ok (rm_store s) of (r, st) \<Rightarrow> (r, s\<lparr>rm_store := st\<rparr>))"

section \<open>The action of a due job\<close>

record rem_answer =
  an_reminder :: string
  an_occurrence :: "string option"
  an_status :: string
  an_idempotent :: bool

text \<open>\<open>str(job.action_payload.get(key, ""))\<close>\<close>

definition payload_text :: "rem_world \<Rightarrow> string \<Rightarrow> dict \<Rightarrow> string" where
  "payload_text w key d =
    (case map_of d key of None \<Rightarrow> [] | Some (JStr t) \<Rightarrow> t | Some v \<Rightarrow> rw_shown w v)"

definition trigger_failure :: "rem_world \<Rightarrow> string \<Rightarrow> job_run \<Rightarrow> exn \<Rightarrow> failure_info" where
  "trigger_failure w i run e =
    (failure_from_exception (rw_san w) e ''reminder_handler'' ''trigger'' (jr_trace run)
       (Some ''reminders.trigger.failed'') (Some PERSISTENCE_FAILURE) (Some True)
       [(''reminder_id'', JStr i), (''attempt'', JInt (jr_attempt run))])
    \<lparr>fi_message := ''Reminder trigger failed''\<rparr>"

text \<open>The two handlers around the call of \<open>trigger\<close>; each answers, or raises in the end.\<close>

definition not_triggered :: "rem_world \<Rightarrow> string \<Rightarrow> exn \<Rightarrow> rem_answer rem_op" where
  "not_triggered w i e =
    bindS (on_rem w (\<lambda>env. rem_get (rw_zone_ok w) (rw_san w) env i)) (\<lambda>r.
      if rd_status r \<notin> {REM_CANCELLED, REM_PENDING_CANCEL} then failS e
      else retS \<lparr>an_reminder = rd_id r, an_occurrence = None, an_status = rem_status_value (rd_status r), an_idempotent = True\<rparr>)"

definition trigger_failed :: "rem_world \<Rightarrow> string \<Rightarrow> instant \<Rightarrow> job_run \<Rightarrow> exn \<Rightarrow> rem_answer rem_op" where
  "trigger_failed w i at run e =
    bindS (on_rem w (\<lambda>env. rem_record_failure (rw_zone_ok w) (rw_san w) env i at (jr_trace run) (trigger_failure w i run e))) (\<lambda>_.
    bindS (catchS
        (bindS (on_rem w (\<lambda>env. rem_get (rw_zone_ok w) (rw_san w) env i)) (\<lambda>r.
           publish_reminder_event w (reminder_message ''reminder.failed'' [] (jr_trace run) r)))
        (\<lambda>_. mark_store ''failure_event_unavailable'')) (\<lambda>_.
    failS e))"

definition announce_trigger :: "rem_world \<Rightarrow> reminder \<Rightarrow> occurrence \<Rightarrow> string \<Rightarrow> unit rem_op" where
  "announce_trigger w r c tr =
    catchS
      (bindS (publish_reminder_event w (reminder_message ''reminder.triggered'' (oc_id c) tr r)) (\<lambda>_. clear_store))
      (\<lambda>e. mark_store (exn_name e))"

text \<open>The call of \<open>trigger\<close> with its two handlers answers for itself, or tells what was triggered.\<close>

definition attempt_trigger ::
  "rem_world \<Rightarrow> string \<Rightarrow> instant \<Rightarrow> job_run \<Rightarrow> (rem_answer + (reminder \<times> occurrence \<times> bool)) rem_op" where
  "attempt_trigger w i at run =
    catchS
      (bindS (on_rem w (\<lambda>env. rem_trigger (rw_zone_ok w) (rw_san w) env i at (jr_trace run))) (\<lambda>x. retS (Inr x)))
      (\<lambda>e. bindS (if has_class [RemConflict] e then not_triggered w i e else trigger_failed w i at run e)
             (\<lambda>a. retS (Inl a)))"

definition handler_execute :: "rem_world \<Rightarrow> dict \<Rightarrow> job_run \<Rightarrow> rem_answer rem_op" where
  "handler_execute w payload run =
    (let i = payload_text w ''reminder_id'' payload; raw = payload_text w ''scheduled_at'' payload in
     if i = [] \<or> raw = [] then failS (Raise ValueError ''Reminder action requires reminder_id and scheduled_at'')
     else bindS (rem_lift (rw_parse w raw)) (\<lambda>d.
       if is_naive d then failS (Raise ValueError ''Reminder scheduled_at must include timezone information'')
       else bindS (attempt_trigger w i (utc_instant d) run) (\<lambda>v. case v of
           Inl a \<Rightarrow> retS a
         | Inr (r, c, again) \<Rightarrow>
             bindS (announce_trigger w r c (jr_trace run)) (\<lambda>_.
             retS \<lparr>an_reminder = rd_id r, an_occurrence = Some (oc_id c), an_status = rem_status_value (rd_status r),
                   an_idempotent = again\<rparr>))))"

end
