(* ===== verification/Reminder_Bridge.thy ===== *)
theory Reminder_Bridge
  imports Reminder_Service
begin

text \<open>
  \<open>core/reminders/bridge.py\<close> and \<open>lifecycle.py\<close>: the coordination of the reminders with the jobs of the scheduler
  runtime, two databases without a common transaction, and the repair of what a crash left.
\<close>

section \<open>Jobs of a reminder\<close>

text \<open>A truthy \<open>scheduler_job_id\<close>\<close>

definition job_ref :: "reminder \<Rightarrow> string option" where
  "job_ref r = (case rd_job r of None \<Rightarrow> None | Some i \<Rightarrow> if i = [] then None else Some i)"

definition no_scheduler :: exn where
  "no_scheduler = Raise RemUnavailable ''Scheduler is disabled or not configured''"

definition require_scheduler :: "rem_world \<Rightarrow> (nat \<Rightarrow> sched_env) rem_op" where
  "require_scheduler w = (case rw_jobs w of None \<Rightarrow> failS no_scheduler | Some js \<Rightarrow> retS js)"

definition rem_payload :: "reminder \<Rightarrow> dict" where
  "rem_payload r = [(''reminder_id'', JStr (rd_id r)), (''scheduled_at'', JStr (isoformat (rd_at r)))]"

definition rem_request :: "reminder \<Rightarrow> schedule_request" where
  "rem_request r =
    \<lparr>rq_name = ''reminder:'' @ rd_id r, rq_workflow = [],
     rq_trigger = \<lparr>tg_type = ONE_SHOT, tg_cron = [], tg_interval = 0, tg_run_at = Some (rd_at r), tg_event = [],
                   tg_timezone = rd_zone r, tg_next = None\<rparr>,
     rq_variables = [], rq_tags = [''reminder''], rq_action = ''reminder'', rq_payload = rem_payload r,
     rq_trace = rd_trace r\<rparr>"

text \<open>The model of the trigger refuses an unknown time zone.\<close>

definition create_job :: "rem_world \<Rightarrow> reminder \<Rightarrow> job rem_op" where
  "create_job w r =
    bindS (require_scheduler w) (\<lambda>js.
      if rw_zone_ok w (rd_zone r) then on_jobs js (\<lambda>e. schedule e (rem_request r))
      else failS (Raise ValidationError ''Trigger''))"

definition find_job :: "(nat \<Rightarrow> sched_env) \<Rightarrow> string \<Rightarrow> job option rem_op" where
  "find_job js i = on_jobs js (\<lambda>e. get_job e i)"

definition move_job :: "(nat \<Rightarrow> sched_env) \<Rightarrow> string \<Rightarrow> reminder \<Rightarrow> bool rem_op" where
  "move_job js i r = on_jobs js (\<lambda>e. reschedule_one_shot e i (rd_at r) (rd_zone r) (rem_payload r))"

definition ensure_job :: "rem_world \<Rightarrow> reminder \<Rightarrow> job option rem_op" where
  "ensure_job w r =
    (let fresh = bindS (create_job w r) (\<lambda>j. retS (Some j)) in
     bindS (require_scheduler w) (\<lambda>js.
       case job_ref r of
         None \<Rightarrow> fresh
       | Some i \<Rightarrow>
           bindS (find_job js i) (\<lambda>existing. case existing of
               None \<Rightarrow> fresh
             | Some j \<Rightarrow>
                 bindS (move_job js (jb_id j) r) (\<lambda>changed.
                   if changed then find_job js (jb_id j) else fresh))))"

text \<open>\<open>job.info.id\<close> of what may be no job\<close>

definition job_id :: "job option \<Rightarrow> exn + string" where
  "job_id v = (case v of Some j \<Rightarrow> Inr (jb_id j)
     | None \<Rightarrow> Inl (Raise (OtherError ''AttributeError'') ''NoneType object has no attribute info''))"

section \<open>Failures\<close>

definition bridge_details :: "reminder \<Rightarrow> dict" where
  "bridge_details r = [(''reminder_id'', JStr (rd_id r)), (''recovery_state'', JStr (rem_status_value (rd_status r)))]"

definition bridge_failure :: "rem_world \<Rightarrow> string \<Rightarrow> reminder \<Rightarrow> exn \<Rightarrow> failure_info" where
  "bridge_failure w operation r e =
    (let code = ''reminders.bridge.'' @ operation @ ''_failed''; message = ''Reminder '' @ operation @ '' failed'' in
     case e of
       Failed f \<Rightarrow>
         \<lparr>fi_code = code, fi_category = fi_category f, fi_message = rw_san w message,
          fi_component = ''reminder_bridge'', fi_operation = operation, fi_retryable = fi_retryable f,
          fi_trace_id = str_or (rd_trace r) (fi_trace_id f),
          fi_cause_type = [],
          fi_details = sanitize_dict (rw_san w) (bridge_details r)\<rparr>
     | Raise c m \<Rightarrow>
         (let k = (if has_class [RemUnavailable] e then NOT_CONFIGURED
                   else if has_class [RemConflict] e then CONFLICT else DEPENDENCY_FAILURE) in
          (failure_from_exception (rw_san w) e ''reminder_bridge'' operation (rd_trace r) (Some code) (Some k)
             (Some (k \<noteq> CONFLICT)) (bridge_details r))
          \<lparr>fi_message := message\<rparr>))"

section \<open>Operations\<close>

text \<open>
  The body of the \<open>try\<close> in \<open>create\<close>: its exception comes with the job that exists by then.
  The handler undoes the job, tries to save the failure, and raises it.
\<close>

definition schedule_failed :: "rem_world \<Rightarrow> reminder \<Rightarrow> string \<Rightarrow> exn \<times> job option \<Rightarrow> reminder rem_op" where
  "schedule_failed w r tr x =
    (case x of (e, made) \<Rightarrow>
      (let f = bridge_failure w ''schedule'' r e in
       bindS (case (made, rw_jobs w) of
                (Some j, Some js) \<Rightarrow> unless_raised (on_jobs js (\<lambda>se. cancel_job se (jb_id j)))
              | _ \<Rightarrow> retS ()) (\<lambda>_.
       bindS (catchS (transition w r REM_FAILED (Some (map_option jb_id made)) (Some (Some f)) tr) (\<lambda>_. retS r)) (\<lambda>r'.
       failS (Failed (f\<lparr>fi_details := bridge_details r'\<rparr>))))))"

definition bridge_create ::
  "rem_world \<Rightarrow> workspace_key \<Rightarrow> string \<Rightarrow> datetime \<Rightarrow> string \<Rightarrow> string \<Rightarrow> dict option \<Rightarrow> reminder rem_op" where
  "bridge_create w key task at tz tr meta =
    bindS (create_pending w key task at tz tr meta) (\<lambda>r.
      catchS
        (bindS (tagS None (create_job w r)) (\<lambda>j.
         tagS (Some j) (transition w r REM_SCHEDULED (Some (Some (jb_id j))) (Some None) tr)))
        (schedule_failed w r tr))"

text \<open>The handler of \<open>reschedule\<close> and of \<open>cancel\<close>: save the failure, then raise it.\<close>

definition recovery_failed :: "rem_world \<Rightarrow> string \<Rightarrow> rem_status \<Rightarrow> string \<Rightarrow> reminder \<Rightarrow> exn \<Rightarrow> 'a rem_op" where
  "recovery_failed w operation st tr r e =
    (let f = bridge_failure w operation r e in
     bindS (unless_raised (transition w r st None (Some (Some f)) tr)) (\<lambda>_. failS (Failed f)))"

definition running_elsewhere :: "rem_world \<Rightarrow> (nat \<Rightarrow> sched_env) \<Rightarrow> reminder \<Rightarrow> unit rem_op" where
  "running_elsewhere w js r =
    (case job_ref r of
       None \<Rightarrow> retS ()
     | Some i \<Rightarrow> bindS (find_job js i) (\<lambda>j.
         if map_option jb_status j = Some J_RUNNING
         then failS (Failed (bridge_failure w ''reschedule'' r (Raise RemConflict ''Running Reminder Job cannot be rescheduled'')))
         else retS ()))"

text \<open>Whether the job of a reminder was moved; if it exists all the same, it changed meanwhile.\<close>

definition try_move :: "(nat \<Rightarrow> sched_env) \<Rightarrow> reminder \<Rightarrow> bool rem_op" where
  "try_move js r =
    (case job_ref r of
       None \<Rightarrow> retS False
     | Some i \<Rightarrow> bindS (move_job js i r) (\<lambda>changed.
         if changed then retS True
         else bindS (find_job js i) (\<lambda>latest.
           if latest \<noteq> None
           then failS (Raise RemConflict ''Reminder Job changed concurrently and cannot be rescheduled'')
           else retS False)))"

definition bridge_reschedule ::
  "rem_world \<Rightarrow> string \<Rightarrow> datetime \<Rightarrow> string \<Rightarrow> int option \<Rightarrow> string \<Rightarrow> dict option \<Rightarrow> reminder rem_op" where
  "bridge_reschedule w i at tz expected tr management =
    bindS (require_scheduler w) (\<lambda>js.
    bindS (service_get w i tr) (\<lambda>current.
    bindS (running_elsewhere w js current) (\<lambda>_.
    bindS (prepare_reschedule w i at tz expected tr management) (\<lambda>r.
      catchS
        (bindS (tagS r (try_move js r)) (\<lambda>changed.
         bindS (if changed then retS r
                else tagS r (bindS (create_job w r) (\<lambda>j. retS (r\<lparr>rd_job := Some (jb_id j)\<rparr>)))) (\<lambda>r'.
         tagS r' (transition w r' REM_SCHEDULED (Some (rd_job r')) (Some None) tr))))
        (\<lambda>(e, r'). recovery_failed w ''reschedule'' REM_PENDING_RESCHEDULE tr r' e)))))"

definition stop_job :: "(nat \<Rightarrow> sched_env) \<Rightarrow> string \<Rightarrow> unit rem_op" where
  "stop_job js i =
    bindS (on_jobs js (\<lambda>e. cancel_job e i)) (\<lambda>cancelled.
    bindS (find_job js i) (\<lambda>found. case found of
        None \<Rightarrow> retS ()
      | Some j \<Rightarrow>
          if \<not> cancelled \<and> jb_status j \<notin> {J_CANCELLED, J_COMPLETED}
          then failS (Raise RemUnavailable ''Scheduler Job is currently running'') else retS ()))"

definition stop_job_of :: "rem_world \<Rightarrow> reminder \<Rightarrow> unit rem_op" where
  "stop_job_of w r = (case (job_ref r, rw_jobs w) of (Some i, Some js) \<Rightarrow> stop_job js i | _ \<Rightarrow> retS ())"

definition bridge_cancel :: "rem_world \<Rightarrow> string \<Rightarrow> string \<Rightarrow> reminder rem_op" where
  "bridge_cancel w i tr =
    bindS (service_get w i tr) (\<lambda>r.
      if rd_status r = REM_CANCELLED then retS r
      else if rd_status r = REM_TRIGGERED
      then failS (Failed ((bridge_failure w ''cancel'' r (Raise RemConflict ''Triggered Reminder cannot be cancelled''))
             \<lparr>fi_category := CONFLICT, fi_retryable := False\<rparr>))
      else bindS (transition w r REM_PENDING_CANCEL None None tr) (\<lambda>pending.
        catchS
          (bindS (stop_job_of w pending) (\<lambda>_. transition w pending REM_CANCELLED None (Some None) tr))
          (recovery_failed w ''cancel'' REM_PENDING_CANCEL tr pending)))"

section \<open>The end of a task\<close>

definition save_cancel_failure :: "rem_world \<Rightarrow> string \<Rightarrow> string \<Rightarrow> exn \<Rightarrow> unit rem_op" where
  "save_cancel_failure w i tr e = unless_raised
    (bindS (on_rem w (\<lambda>env. rem_get (rw_zone_ok w) (rw_san w) env i)) (\<lambda>c.
       if rd_status c \<in> {REM_TRIGGERED, REM_CANCELLED} then retS ()
       else bindS (transition w c REM_PENDING_CANCEL None (Some (Some (bridge_failure w ''cancel'' c e))) tr) (\<lambda>_. retS ())))"

text \<open>The loop, with the reminders whose cancellation failed.\<close>

fun cancel_each :: "rem_world \<Rightarrow> string \<Rightarrow> reminder list \<Rightarrow> string list rem_op" where
  "cancel_each w tr [] = retS []"
| "cancel_each w tr (r # rs) =
     (if rd_status r \<in> {REM_TRIGGERED, REM_CANCELLED} then cancel_each w tr rs
      else bindS (catchS (bindS (bridge_cancel w (rd_id r) tr) (\<lambda>_. retS []))
             (\<lambda>e. bindS (save_cancel_failure w (rd_id r) tr e) (\<lambda>_. retS [rd_id r]))) (\<lambda>bad.
           bindS (cancel_each w tr rs) (\<lambda>worse. retS (bad @ worse))))"

definition lifecycle_failure :: "rem_world \<Rightarrow> string \<Rightarrow> string \<Rightarrow> exn" where
  "lifecycle_failure w tr first = Failed
    ((failure_from_exception (rw_san w) (Raise RemUnavailable ''One or more Reminder cancellations require recovery'')
        ''reminder_bridge'' ''user_task_terminal'' tr (Some ''reminders.lifecycle.reconciliation_required'')
        (Some DEPENDENCY_FAILURE) (Some True)
        [(''reminder_id'', JStr first), (''recovery_state'', JStr (rem_status_value REM_PENDING_CANCEL))])
     \<lparr>fi_message := ''Reminder lifecycle reconciliation required''\<rparr>)"

text \<open>\<open>first_failed_id or reminder.id\<close> keeps the first identifier that is not empty.\<close>

definition first_failed :: "string list \<Rightarrow> string" where
  "first_failed ids = (case find (\<lambda>i. i \<noteq> []) ids of None \<Rightarrow> [] | Some i \<Rightarrow> i)"

definition cancel_for_task :: "rem_world \<Rightarrow> string \<Rightarrow> string \<Rightarrow> unit rem_op" where
  "cancel_for_task w task tr =
    bindS (on_rem w (\<lambda>e. rem_list_for_task (rw_zone_ok w) (rw_san w) e task)) (\<lambda>rs.
    bindS (cancel_each w tr rs) (\<lambda>bad.
      if bad = [] then retS () else failS (lifecycle_failure w tr (first_failed bad))))"

definition after_user_task_terminal :: "rem_world \<Rightarrow> user_task \<Rightarrow> string \<Rightarrow> unit rem_op" where
  "after_user_task_terminal w t tr = cancel_for_task w (ut_id t) tr"

section \<open>Reconciliation\<close>

text \<open>One reminder: whether something was repaired, or nothing had to be.\<close>

definition recoverable_failed :: "reminder \<Rightarrow> bool" where
  "recoverable_failed r =
    (rd_status r = REM_FAILED \<and> (case rd_failure r of None \<Rightarrow> False | Some f \<Rightarrow> fi_component f = ''reminder_bridge''))"

definition needs_job :: "reminder \<Rightarrow> job option \<Rightarrow> bool" where
  "needs_job r found =
    (rd_status r = REM_PENDING_SCHEDULE \<or> recoverable_failed r \<or>
     rd_status r = REM_SCHEDULED \<and> found = None \<or>
     rd_status r = REM_SCHEDULED \<and> (case found of None \<Rightarrow> False | Some j \<Rightarrow> jb_status j \<in> {J_FAILED, J_CANCELLED}))"

definition give_job :: "rem_world \<Rightarrow> reminder \<Rightarrow> bool rem_op" where
  "give_job w r =
    bindS (ensure_job w r) (\<lambda>v.
    bindS (rem_lift (job_id v)) (\<lambda>i.
    bindS (transition w r REM_SCHEDULED (Some (Some i)) (Some None) (rd_trace r)) (\<lambda>_. retS True)))"

definition repair_triggered :: "rem_world \<Rightarrow> reminder \<Rightarrow> job option \<Rightarrow> bool rem_op" where
  "repair_triggered w r found =
    (case found of
       None \<Rightarrow>
         bindS (create_job w r) (\<lambda>j.
         bindS (transition w r REM_TRIGGERED (Some (Some (jb_id j))) (Some None) (rd_trace r)) (\<lambda>_. retS True))
     | Some j \<Rightarrow>
         if jb_status j = J_COMPLETED then retS False
         else bindS (require_scheduler w) (\<lambda>js. bindS (move_job js (jb_id j) r) (\<lambda>changed.
           if changed then retS True
           else failS (Raise RemUnavailable ''Triggered Reminder Job could not be recovered''))))"

definition repair_active :: "rem_world \<Rightarrow> reminder \<Rightarrow> job option \<Rightarrow> bool rem_op" where
  "repair_active w r found =
    (if needs_job r found then give_job w r
     else case rd_status r of
       REM_PENDING_RESCHEDULE \<Rightarrow>
         bindS (bridge_reschedule w (rd_id r) (Aware (rd_at r) 0) (rd_zone r) (Some (rd_revision r)) (rd_trace r) None)
           (\<lambda>_. retS True)
     | REM_PENDING_CANCEL \<Rightarrow> bindS (bridge_cancel w (rd_id r) (rd_trace r)) (\<lambda>_. retS True)
     | REM_CANCELLED \<Rightarrow>
         (case (found, rw_jobs w) of
            (Some j, Some js) \<Rightarrow>
              if jb_status j \<in> {J_CANCELLED, J_COMPLETED} then retS False
              else bindS (on_jobs js (\<lambda>e. cancel_job e (jb_id j))) (\<lambda>_. retS True)
          | _ \<Rightarrow> retS False)
     | REM_TRIGGERED \<Rightarrow> repair_triggered w r found
     | _ \<Rightarrow> retS False)"

definition repair :: "rem_world \<Rightarrow> reminder \<Rightarrow> bool rem_op" where
  "repair w r =
    bindS (on_user_tasks w (\<lambda>e. ut_get (rw_zone_ok w) (rw_san w) e
        (workspace_key_from_evidence (map_of (rd_meta r) ''workspace'') (rd_trace r)) (rd_task r) (rd_trace r))) (\<lambda>t.
    if ut_status t \<in> {UT_COMPLETED, UT_CANCELLED}
    then (if rd_status r \<in> {REM_TRIGGERED, REM_CANCELLED} then retS False
          else bindS (bridge_cancel w (rd_id r) (rd_trace r)) (\<lambda>_. retS True))
    else bindS (case (rw_jobs w, job_ref r) of (Some js, Some i) \<Rightarrow> find_job js i | _ \<Rightarrow> retS None)
      (repair_active w r))"

fun count_repair :: "exn + bool \<Rightarrow> reconciliation \<Rightarrow> reconciliation" where
  "count_repair (Inr True) c = c\<lparr>rc_repaired := Suc (rc_repaired c)\<rparr>"
| "count_repair (Inr False) c = c\<lparr>rc_skipped := Suc (rc_skipped c)\<rparr>"
| "count_repair (Inl e) c = c\<lparr>rc_failed := Suc (rc_failed c)\<rparr>"

fun repair_each :: "rem_world \<Rightarrow> reminder list \<Rightarrow> reconciliation \<Rightarrow> rem_system \<Rightarrow> reconciliation \<times> rem_system" where
  "repair_each w [] c s = (c, s)"
| "repair_each w (r # rs) c s = (case repair w r s of (v, s') \<Rightarrow> repair_each w rs (count_repair v c) s')"

definition every_status :: "rem_status list" where
  "every_status =
    [REM_PENDING_SCHEDULE, REM_SCHEDULED, REM_PENDING_RESCHEDULE, REM_PENDING_CANCEL, REM_TRIGGERED, REM_CANCELLED,
     REM_FAILED]"

definition no_repairs :: reconciliation where
  "no_repairs = \<lparr>rc_repaired = 0, rc_skipped = 0, rc_failed = 0\<rparr>"

definition reconcile :: "rem_world \<Rightarrow> reconciliation rem_op" where
  "reconcile w =
    bindS (on_rem w (\<lambda>e. rem_list_by_statuses (rw_zone_ok w) (rw_san w) e every_status)) (\<lambda>rs s.
      case repair_each w rs no_repairs s of
        (c, s') \<Rightarrow>
          (Inr c, (if rc_failed c \<noteq> 0 then snd (mark_store ''reconciliation_partial_failure'' s') else s')
             \<lparr>rm_reconciled := Some c\<rparr>))"

definition bridge_initialize :: "rem_world \<Rightarrow> reconciliation rem_op" where
  "bridge_initialize w s =
    (let s' = s\<lparr>rm_started := True\<rparr> in
     case rw_jobs w of
       None \<Rightarrow> (Inr no_repairs, s'\<lparr>rm_reconciled := Some no_repairs\<rparr>)
     | Some js \<Rightarrow> reconcile w s')"

text \<open>With the status \<open>degraded\<close> the counts are told.\<close>

definition bridge_health :: "rem_world \<Rightarrow> rem_system \<Rightarrow> runtime_status \<times> reconciliation option" where
  "bridge_health w s =
    (if \<not> rm_started s then (NOT_INITIALIZED, None)
     else if rw_jobs w = None then (STATUS_FAILED, None)
     else case rm_reconciled s of
       None \<Rightarrow> (OK, None)
     | Some c \<Rightarrow> if rc_failed c \<noteq> 0 then (DEGRADED, Some c) else (OK, None))"

end
