(* ===== verification/Reminder_Views.thy ===== *)
theory Reminder_Views
  imports Reminder_Bridge
begin

text \<open>
  \<open>core/reminders/orchestration.py\<close>, \<open>inbox.py\<close> and \<open>management.py\<close>: the status of a reminder as its user
  sees it, the pages of the reminder inbox, the operations by title or identifier, and the creation
  of a reminder with its task under an idempotency key.
\<close>

section \<open>Surroundings\<close>

text \<open>
  \<open>vw_offset\<close> is the offset of a zone at an instant, in minutes; \<open>vw_wall\<close> and \<open>vw_from_wall\<close> convert
  between instants and wall times of the zone of the service, \<open>vw_local\<close> takes a naive datetime for one
  of the zone of the process; \<open>vw_fold\<close> is \<open>str.casefold\<close>, \<open>vw_sha\<close> the hexadecimal SHA-256 digest.
\<close>

record view_world =
  vw_rem :: rem_world
  vw_offset :: "string \<Rightarrow> instant \<Rightarrow> int"
  vw_wall :: "instant \<Rightarrow> int"
  vw_from_wall :: "int \<Rightarrow> instant"
  vw_local :: "int \<Rightarrow> instant"
  vw_fold :: "string \<Rightarrow> string"
  vw_sha :: "string \<Rightarrow> string"

section \<open>Status views\<close>

datatype shown_status = SHOWN_SCHEDULED | SHOWN_RETRYING | SHOWN_TRIGGERED | SHOWN_FAILED | SHOWN_CANCELLED

fun shown_value :: "shown_status \<Rightarrow> string" where
  "shown_value SHOWN_SCHEDULED = ''scheduled''"
| "shown_value SHOWN_RETRYING = ''retrying''"
| "shown_value SHOWN_TRIGGERED = ''triggered''"
| "shown_value SHOWN_FAILED = ''failed''"
| "shown_value SHOWN_CANCELLED = ''cancelled''"

fun job_status_value :: "job_status \<Rightarrow> string" where
  "job_status_value J_ACTIVE = ''active''"
| "job_status_value J_RETRYING = ''retrying''"
| "job_status_value J_PAUSED = ''paused''"
| "job_status_value J_RUNNING = ''running''"
| "job_status_value J_COMPLETED = ''completed''"
| "job_status_value J_FAILED = ''failed''"
| "job_status_value J_CANCELLED = ''cancelled''"

definition aggregate_reminder_status :: "reminder \<Rightarrow> job option \<Rightarrow> occurrence option \<Rightarrow> shown_status" where
  "aggregate_reminder_status r j c =
    (if rd_status r = REM_CANCELLED then SHOWN_CANCELLED
     else if rd_status r = REM_TRIGGERED \<or> map_option oc_status c = Some OCC_TRIGGERED then SHOWN_TRIGGERED
     else if rd_status r \<in> {REM_PENDING_CANCEL, REM_PENDING_RESCHEDULE} \<and> rd_failure r \<noteq> None then SHOWN_FAILED
     else if map_option jb_status j = Some J_RETRYING then SHOWN_RETRYING
     else if rd_status r = REM_FAILED \<or> map_option jb_status j = Some J_FAILED then SHOWN_FAILED
     else SHOWN_SCHEDULED)"

record status_view =
  sv_status :: shown_status
  sv_task :: string
  sv_title :: string
  sv_task_status :: string
  sv_reminder :: string
  sv_reminder_status :: string
  sv_for :: datetime
  sv_zone :: string
  sv_job :: "string option"
  sv_job_status :: "string option"
  sv_occurrence :: "string option"
  sv_occurrence_status :: "string option"
  sv_triggered :: "instant option"
  sv_failure :: "failure_info option"
  sv_retryable :: bool
  sv_revision :: int

definition shown_failure :: "reminder \<Rightarrow> job option \<Rightarrow> occurrence option \<Rightarrow> failure_info option" where
  "shown_failure r j c =
    (case Option.bind c oc_failure of
       Some f \<Rightarrow> Some f
     | None \<Rightarrow> (case rd_failure r of Some f \<Rightarrow> Some f | None \<Rightarrow> Option.bind j jb_last_error))"

definition build_reminder_status_view :: "view_world \<Rightarrow> reminder \<Rightarrow> user_task \<Rightarrow> job option \<Rightarrow> occurrence option \<Rightarrow> status_view" where
  "build_reminder_status_view vw r t j c =
    \<lparr>sv_status = aggregate_reminder_status r j c, sv_task = ut_id t, sv_title = ut_title t,
     sv_task_status = ut_status_value (ut_status t), sv_reminder = rd_id r,
     sv_reminder_status = rem_status_value (rd_status r), sv_for = Aware (rd_at r) (vw_offset vw (rd_zone r) (rd_at r)),
     sv_zone = rd_zone r, sv_job = rd_job r, sv_job_status = map_option (\<lambda>j. job_status_value (jb_status j)) j,
     sv_occurrence = map_option oc_id c, sv_occurrence_status = map_option (\<lambda>c. occ_status_value (oc_status c)) c,
     sv_triggered = Option.bind c oc_triggered, sv_failure = shown_failure r j c,
     sv_retryable = (case shown_failure r j c of None \<Rightarrow> False | Some f \<Rightarrow> fi_retryable f), sv_revision = rd_revision r\<rparr>"

definition no_attribute :: "string \<Rightarrow> exn" where
  "no_attribute m = Raise (OtherError ''AttributeError'') m"

definition reminder_job :: "rem_world \<Rightarrow> reminder \<Rightarrow> job option rem_op" where
  "reminder_job w r =
    (case job_ref r of
       None \<Rightarrow> retS None
     | Some i \<Rightarrow> (case rw_jobs w of None \<Rightarrow> failS (no_attribute ''get_job'') | Some js \<Rightarrow> find_job js i))"

definition last_occurrence :: "rem_world \<Rightarrow> reminder \<Rightarrow> string \<Rightarrow> occurrence option rem_op" where
  "last_occurrence w r tr =
    bindS (service_list_occurrences w (rd_id r) tr) (\<lambda>cs. retS (if cs = [] then None else Some (last cs)))"

definition view_of :: "view_world \<Rightarrow> reminder \<Rightarrow> user_task \<Rightarrow> string \<Rightarrow> status_view rem_op" where
  "view_of vw r t tr =
    bindS (reminder_job (vw_rem vw) r) (\<lambda>j.
    bindS (last_occurrence (vw_rem vw) r tr) (\<lambda>c. retS (build_reminder_status_view vw r t j c)))"

definition visible_task :: "rem_world \<Rightarrow> workspace_key \<Rightarrow> string \<Rightarrow> string \<Rightarrow> user_task rem_op" where
  "visible_task w key i tr = on_user_tasks w (\<lambda>e. ut_get (rw_zone_ok w) (rw_san w) e key i tr)"

definition orchestrated_status :: "view_world \<Rightarrow> workspace_key \<Rightarrow> string \<Rightarrow> string \<Rightarrow> status_view rem_op" where
  "orchestrated_status vw key i tr =
    bindS (service_get (vw_rem vw) i tr) (\<lambda>r.
    bindS (visible_task (vw_rem vw) key (rd_task r) tr) (\<lambda>t. view_of vw r t tr))"

section \<open>The inbox of reminders\<close>

record inbox_entry =
  en_reminder :: string
  en_task :: string
  en_title :: string
  en_status :: shown_status
  en_for :: datetime
  en_zone :: string
  en_job :: "string option"
  en_job_status :: "string option"
  en_occurrence :: "string option"
  en_occurrence_status :: "string option"
  en_triggered :: "instant option"
  en_failure_code :: "string option"

definition entry_of_view :: "status_view \<Rightarrow> inbox_entry" where
  "entry_of_view v =
    \<lparr>en_reminder = sv_reminder v, en_task = sv_task v, en_title = sv_title v, en_status = sv_status v, en_for = sv_for v,
     en_zone = sv_zone v, en_job = sv_job v, en_job_status = sv_job_status v, en_occurrence = sv_occurrence v,
     en_occurrence_status = sv_occurrence_status v, en_triggered = sv_triggered v,
     en_failure_code = map_option fi_code (sv_failure v)\<rparr>"

datatype time_scope = TODAY | UPCOMING

fun time_scope_value :: "time_scope \<Rightarrow> string" where
  "time_scope_value TODAY = ''today''"
| "time_scope_value UPCOMING = ''upcoming''"

record inbox_query =
  iq_statuses :: "shown_status list"
  iq_scope :: "time_scope option"
  iq_pending :: bool

record inbox_page =
  pg_items :: "inbox_entry list"
  pg_limit :: nat
  pg_offset :: nat
  pg_count :: nat
  pg_more :: bool
  pg_statuses :: "string list"
  pg_scope :: "string option"
  pg_view :: "string option"

text \<open>The view \<open>pending\<close> replaces the other filters.\<close>

definition effective_query :: "inbox_query \<Rightarrow> inbox_query" where
  "effective_query q =
    (if iq_pending q then q\<lparr>iq_statuses := [SHOWN_SCHEDULED, SHOWN_RETRYING], iq_scope := Some UPCOMING\<rparr> else q)"

text \<open>Midnight of the wall clock, and the next one.\<close>

definition time_bounds :: "view_world \<Rightarrow> time_scope option \<Rightarrow> (instant option \<times> instant option) rem_op" where
  "time_bounds vw scope =
    (case scope of
       None \<Rightarrow> retS (None, None)
     | Some sc \<Rightarrow> bindS (rem_draw (vw_rem vw)) (\<lambda>env. retS (case sc of
           UPCOMING \<Rightarrow> (Some (re_now env), None)
         | TODAY \<Rightarrow>
             let start = vw_wall vw (re_now env) - vw_wall vw (re_now env) mod us_per_day
             in (Some (vw_from_wall vw start), Some (vw_from_wall vw (start + us_per_day))))))"

text \<open>What the loop makes of one reminder: nothing when its task is not visible or its status is filtered out.\<close>

definition reminder_inbox_item :: "view_world \<Rightarrow> workspace_key \<Rightarrow> shown_status list \<Rightarrow> string \<Rightarrow> reminder \<Rightarrow> inbox_entry option rem_op" where
  "reminder_inbox_item vw key sts tr r =
    (let w = vw_rem vw in
     bindS (on_user_tasks w (\<lambda>e. ut_find_visible (rw_zone_ok w) (rw_san w) e key (rd_task r) tr)) (\<lambda>found. case found of
         None \<Rightarrow> retS None
       | Some t \<Rightarrow> bindS (view_of vw r t tr) (\<lambda>v.
           retS (if sts \<noteq> [] \<and> sv_status v \<notin> set sts then None else Some (entry_of_view v)))))"

text \<open>The reminders of one batch: how many matched so far, and the items; it stops one item past the limit.\<close>

fun scan_batch ::
  "view_world \<Rightarrow> workspace_key \<Rightarrow> shown_status list \<Rightarrow> string \<Rightarrow> nat \<Rightarrow> nat \<Rightarrow> reminder list \<Rightarrow> nat \<Rightarrow> inbox_entry list \<Rightarrow>
   (nat \<times> inbox_entry list) rem_op" where
  "scan_batch vw key sts tr limit offset [] n items = retS (n, items)"
| "scan_batch vw key sts tr limit offset (r # rs) n items =
     bindS (reminder_inbox_item vw key sts tr r) (\<lambda>v. case v of
         None \<Rightarrow> scan_batch vw key sts tr limit offset rs n items
       | Some x \<Rightarrow>
           if n < offset then scan_batch vw key sts tr limit offset rs (Suc n) items
           else if length items + 1 > limit then retS (Suc n, items @ [x])
           else scan_batch vw key sts tr limit offset rs (Suc n) (items @ [x]))"

definition scan_batch_size :: nat where
  "scan_batch_size = 100"

text \<open>The loop over the batches, with fuel.\<close>

fun scan_pages ::
  "nat \<Rightarrow> view_world \<Rightarrow> workspace_key \<Rightarrow> shown_status list \<Rightarrow> instant option \<times> instant option \<Rightarrow> string \<Rightarrow> nat \<Rightarrow> nat \<Rightarrow>
   nat \<Rightarrow> nat \<Rightarrow> inbox_entry list \<Rightarrow> inbox_entry list rem_op" where
  "scan_pages 0 vw key sts bounds tr limit offset at n items = failS (Raise (OtherError ''OutOfFuel'') [])"
| "scan_pages (Suc fuel) vw key sts bounds tr limit offset at n items =
     (if length items > limit then retS items
      else bindS (service_list_page (vw_rem vw) (fst bounds) (snd bounds) scan_batch_size at tr) (\<lambda>batch.
        if batch = [] then retS items
        else bindS (scan_batch vw key sts tr limit offset batch n items) (\<lambda>(n', items').
          if length items' > limit \<or> length batch < scan_batch_size then retS items'
          else scan_pages fuel vw key sts bounds tr limit offset (at + length batch) n' items')))"

definition list_reminder_inbox ::
  "nat \<Rightarrow> view_world \<Rightarrow> workspace_key \<Rightarrow> inbox_query \<Rightarrow> nat \<Rightarrow> nat \<Rightarrow> string \<Rightarrow> inbox_page rem_op" where
  "list_reminder_inbox fuel vw key q0 limit offset tr =
    (let q = effective_query q0 in
     bindS (time_bounds vw (iq_scope q)) (\<lambda>bounds.
     bindS (scan_pages fuel vw key (iq_statuses q) bounds tr limit offset 0 0 []) (\<lambda>items.
       if \<not> (1 \<le> limit \<and> limit \<le> 100) then failS (Raise ValidationError ''ReminderInboxPage'')
       else retS \<lparr>pg_items = take limit items, pg_limit = limit, pg_offset = offset, pg_count = length (take limit items),
         pg_more = (length items > limit), pg_statuses = sort (remdups (map shown_value (iq_statuses q))),
         pg_scope = map_option time_scope_value (iq_scope q),
         pg_view = (if iq_pending q0 then Some ''pending'' else None)\<rparr>)))"

end
