(* ===== verification/Reminder_Management.thy ===== *)
theory Reminder_Management
  imports Reminder_Views
begin

text \<open>
  \<open>core/reminders/management.py\<close> and the creation of \<open>orchestration.py\<close>: finding a reminder by identifier or
  title, cancelling and rescheduling it, and creating a task with its reminder under an idempotency key.
\<close>

section \<open>Resolution\<close>

definition plain_failure ::
  "rem_world \<Rightarrow> string \<Rightarrow> error_category \<Rightarrow> string \<Rightarrow> string \<Rightarrow> string \<Rightarrow> bool \<Rightarrow> string \<Rightarrow> dict \<Rightarrow> failure_info" where
  "plain_failure w code category message component operation retryable tr details =
    \<lparr>fi_code = code, fi_category = category, fi_message = rw_san w message, fi_component = component,
     fi_operation = operation, fi_retryable = retryable, fi_trace_id = tr, fi_cause_type = [],
     fi_details = sanitize_dict (rw_san w) details\<rparr>"

text \<open>\<open>_raise\<close>\<close>

definition mg_raise ::
  "rem_world \<Rightarrow> string \<Rightarrow> error_category \<Rightarrow> string \<Rightarrow> string \<Rightarrow> string \<Rightarrow> bool \<Rightarrow> dict \<Rightarrow> 'a rem_op" where
  "mg_raise w code category message operation tr retryable details =
    failS (Failed (plain_failure w code category message ''reminder.management'' operation retryable tr details))"

definition reminder_not_found :: "rem_world \<Rightarrow> string \<Rightarrow> 'a rem_op" where
  "reminder_not_found w tr = mg_raise w ''reminder.not_found'' NOT_FOUND ''Reminder was not found'' ''resolve'' tr False []"

definition is_failure_of :: "error_category \<Rightarrow> exn \<Rightarrow> bool" where
  "is_failure_of c e = (case e of Failed f \<Rightarrow> fi_category f = c | Raise k m \<Rightarrow> False)"

definition by_id :: "view_world \<Rightarrow> string \<Rightarrow> workspace_key \<Rightarrow> string \<Rightarrow> (reminder \<times> user_task \<times> status_view) rem_op" where
  "by_id vw i key tr =
    (let w = vw_rem vw in
     bindS (catchS
       (bindS (service_get w i tr) (\<lambda>r. bindS (visible_task w key (rd_task r) tr) (\<lambda>t. retS (r, t))))
       (\<lambda>e. if is_failure_of NOT_FOUND e then reminder_not_found w tr else failS e)) (\<lambda>(r, t).
     bindS (view_of vw r t tr) (\<lambda>v. retS (r, t, v))))"

text \<open>All pages of the inbox, with the items that match; the loop has fuel.\<close>

definition title_hit :: "view_world \<Rightarrow> shown_status list \<Rightarrow> string \<Rightarrow> inbox_entry \<Rightarrow> bool" where
  "title_hit vw allowed query x =
    ((allowed = [] \<or> en_status x \<in> set allowed) \<and> has_substring query (vw_fold vw (en_title x)))"

definition every_reminder :: inbox_query where
  "every_reminder = \<lparr>iq_statuses = [], iq_scope = None, iq_pending = False\<rparr>"

fun collect_candidates ::
  "nat \<Rightarrow> view_world \<Rightarrow> workspace_key \<Rightarrow> shown_status list \<Rightarrow> string \<Rightarrow> string \<Rightarrow> nat \<Rightarrow> inbox_entry list \<Rightarrow> inbox_entry list rem_op" where
  "collect_candidates 0 vw key allowed query tr offset found = failS (Raise (OtherError ''OutOfFuel'') [])"
| "collect_candidates (Suc fuel) vw key allowed query tr offset found =
     bindS (list_reminder_inbox fuel vw key every_reminder 100 offset tr) (\<lambda>page.
       let found' = found @ filter (title_hit vw allowed query) (pg_items page) in
       if \<not> pg_more page then retS found'
       else collect_candidates fuel vw key allowed query tr (offset + pg_count page) found')"

definition candidate_json :: "inbox_entry \<Rightarrow> json" where
  "candidate_json x = JObj [(''reminder_id'', JStr (en_reminder x)), (''task_title'', JStr (en_title x)),
     (''scheduled_for'', JStr (datetime_text (en_for x))), (''status'', JStr (shown_value (en_status x)))]"

definition exact_or_all :: "view_world \<Rightarrow> string \<Rightarrow> inbox_entry list \<Rightarrow> inbox_entry list" where
  "exact_or_all vw query found =
    (let exact = filter (\<lambda>x. vw_fold vw (py_strip (en_title x)) = query) found in if exact = [] then found else exact)"

definition mg_resolve ::
  "nat \<Rightarrow> view_world \<Rightarrow> workspace_key \<Rightarrow> string option \<Rightarrow> string option \<Rightarrow> shown_status list \<Rightarrow> string \<Rightarrow>
   (reminder \<times> user_task \<times> status_view) rem_op" where
  "mg_resolve fuel vw key i title allowed tr =
    (let w = vw_rem vw; query = vw_fold vw (py_strip (case title of None \<Rightarrow> [] | Some t \<Rightarrow> t)) in
     if i \<noteq> None \<and> i \<noteq> Some []
     then bindS (by_id vw (the i) key tr) (\<lambda>(r, t, v).
       if allowed \<noteq> [] \<and> sv_status v \<notin> set allowed then reminder_not_found w tr else retS (r, t, v))
     else if query = [] then reminder_not_found w tr
     else bindS (collect_candidates fuel vw key allowed query tr 0 []) (\<lambda>found.
       case exact_or_all vw query found of
         [] \<Rightarrow> reminder_not_found w tr
       | [x] \<Rightarrow> by_id vw (en_reminder x) key tr
       | xs \<Rightarrow> mg_raise w ''reminder.ambiguous'' CONFLICT ''Multiple reminders matched; specify a Reminder ID'' ''resolve'' tr False
             [(''candidates'', JArr (map candidate_json (take 20 xs)))]))"

definition mg_status ::
  "nat \<Rightarrow> view_world \<Rightarrow> workspace_key \<Rightarrow> string option \<Rightarrow> string option \<Rightarrow> string \<Rightarrow> status_view rem_op" where
  "mg_status fuel vw key i title tr =
    bindS (mg_resolve fuel vw key i title [] tr) (\<lambda>(r, t, v). retS v)"

section \<open>Cancelling and rescheduling\<close>

record management_result =
  mr_action :: string
  mr_previous_status :: shown_status
  mr_previous_for :: datetime
  mr_current :: status_view

definition about_reminder :: "reminder \<Rightarrow> dict" where
  "about_reminder r = [(''reminder_id'', JStr (rd_id r))]"

text \<open>\<open>except FailureException\<close>: the failure of the bridge under another code.\<close>

definition retold :: "rem_world \<Rightarrow> string \<Rightarrow> string \<Rightarrow> string \<Rightarrow> string \<Rightarrow> reminder \<Rightarrow> exn \<Rightarrow> 'a rem_op" where
  "retold w code message operation tr r e =
    (case e of
       Raise c m \<Rightarrow> failS e
     | Failed f \<Rightarrow> mg_raise w code (fi_category f) message operation tr (fi_retryable f) (about_reminder r))"

definition mg_cancel ::
  "nat \<Rightarrow> view_world \<Rightarrow> workspace_key \<Rightarrow> string option \<Rightarrow> string option \<Rightarrow> string \<Rightarrow> management_result rem_op" where
  "mg_cancel fuel vw key i title tr =
    (let w = vw_rem vw in
     bindS (mg_resolve fuel vw key i title [] tr) (\<lambda>(r, t, v).
       if rd_status r \<in> {REM_TRIGGERED, REM_FAILED}
       then mg_raise w ''reminder.terminal_state'' CONFLICT ''Terminal Reminder cannot be cancelled'' ''cancel'' tr False (about_reminder r)
       else bindS (catchS (bridge_cancel w (rd_id r) tr)
           (retold w ''reminder.cancellation_failed'' ''Reminder cancellation failed'' ''cancel'' tr r)) (\<lambda>r'.
         bindS (by_id vw (rd_id r') key tr) (\<lambda>(r'', t', v').
           retS \<lparr>mr_action = ''cancel'', mr_previous_status = sv_status v, mr_previous_for = sv_for v, mr_current = v'\<rparr>))))"

text \<open>The instant a datetime means, a naive one in the zone of the process.\<close>

fun instant_of :: "view_world \<Rightarrow> datetime \<Rightarrow> instant" where
  "instant_of vw (Naive t) = vw_local vw t"
| "instant_of vw (Aware t off) = t"

definition previous_code :: "reminder \<Rightarrow> string" where
  "previous_code r = (case rd_failure r of None \<Rightarrow> [] | Some f \<Rightarrow> fi_code f)"

definition previous_reschedule :: "reminder \<Rightarrow> dict option" where
  "previous_reschedule r = (case map_of (rd_meta r) ''management_reschedule'' of Some (JObj d) \<Rightarrow> Some d | _ \<Rightarrow> None)"

definition mg_reschedule ::
  "nat \<Rightarrow> view_world \<Rightarrow> workspace_key \<Rightarrow> datetime \<Rightarrow> string \<Rightarrow> string option \<Rightarrow> string option \<Rightarrow> int option \<Rightarrow> string \<Rightarrow> string \<Rightarrow>
   management_result rem_op" where
  "mg_reschedule fuel vw key at tz i title expected idempotency tr =
    (let w = vw_rem vw in
     bindS (mg_resolve fuel vw key i title [] tr) (\<lambda>(r, t, v).
       let target = isoformat (instant_of vw at); given = py_strip idempotency; hash = vw_sha vw given;
           meta = [(''target'', JStr target), (''previous_failure_code'', JStr (previous_code r))];
           meta' = (if given = [] then meta else meta @ [(''key_hash'', JStr hash)]);
           answer = (\<lambda>current. \<lparr>mr_action = ''reschedule'', mr_previous_status = sv_status v, mr_previous_for = sv_for v,
             mr_current = current\<rparr>);
           known = (case previous_reschedule r of
               None \<Rightarrow> None | Some d \<Rightarrow> if given \<noteq> [] \<and> map_of d ''key_hash'' = Some (JStr hash) then Some d else None);
           proceed = bindS (catchS (bridge_reschedule w (rd_id r) at tz expected tr (Some meta'))
               (retold w ''reminder.rescheduling_failed'' ''Reminder rescheduling failed'' ''reschedule'' tr r)) (\<lambda>r'.
             bindS (by_id vw (rd_id r') key tr) (\<lambda>(r'', t', v'). retS (answer v')))
       in if rd_status r \<in> {REM_TRIGGERED, REM_CANCELLED}
       then mg_raise w ''reminder.terminal_state'' CONFLICT ''Terminal Reminder cannot be rescheduled'' ''reschedule'' tr False (about_reminder r)
       else case known of
         None \<Rightarrow> proceed
       | Some d \<Rightarrow>
           if map_of d ''target'' \<noteq> Some (JStr target)
           then mg_raise w ''reminder.idempotency_conflict'' CONFLICT ''Idempotency key was already used for another schedule''
                  ''reschedule'' tr False []
           else if rd_status r = REM_SCHEDULED \<and> isoformat (rd_at r) = target then retS (answer v)
           else proceed))"

section \<open>Creation under an idempotency key\<close>

record schedule_wish =
  wi_title :: string
  wi_due :: datetime
  wi_zone :: string
  wi_priority :: ut_priority
  wi_description :: string
  wi_session :: string
  wi_trace :: string
  wi_key :: string

record schedule_result =
  sc_task :: string
  sc_reminder :: string
  sc_job :: string
  sc_task_status :: string
  sc_reminder_status :: string
  sc_for :: datetime
  sc_zone :: string

definition workspace_scope :: "workspace_key \<Rightarrow> string" where
  "workspace_scope key = (case workspace_identity key of (t, ws, n) \<Rightarrow> t @ ''|'' @ ws @ ''|'' @ n)"

definition wish_key_hash :: "view_world \<Rightarrow> schedule_wish \<Rightarrow> string" where
  "wish_key_hash vw q = vw_sha vw (wi_key q)"

definition wish_task_id :: "view_world \<Rightarrow> workspace_key \<Rightarrow> schedule_wish \<Rightarrow> string" where
  "wish_task_id vw key q = ''ut_nlr_'' @ take 24 (vw_sha vw (workspace_scope key @ ''|'' @ wish_key_hash vw q))"

definition wish_intent_hash :: "view_world \<Rightarrow> workspace_key \<Rightarrow> schedule_wish \<Rightarrow> string" where
  "wish_intent_hash vw key q =
    vw_sha vw (workspace_scope key @ ''|'' @ wi_title q @ ''|'' @ datetime_text (wi_due q) @ ''|'' @ wi_zone q)"

definition wish_task :: "view_world \<Rightarrow> workspace_key \<Rightarrow> schedule_wish \<Rightarrow> ut_new" where
  "wish_task vw key q =
    \<lparr>un_key = key, un_title = wi_title q, un_description = wi_description q, un_priority = wi_priority q,
     un_due_at = Some (wi_due q), un_timezone = wi_zone q, un_status = UT_ACTIVE, un_created_at = None,
     un_completed_at = None, un_cancelled_at = None, un_source = ''ceo_assistant'', un_session_id = wi_session q,
     un_agent_id = ''ceo-assistant'', un_trace_id = wi_trace q,
     un_metadata = Some [(''intent'', JStr ''reminder''), (''idempotency_hash'', JStr (wish_key_hash vw q)),
       (''intent_hash'', JStr (wish_intent_hash vw key q)), (''scheduling_status'', JStr ''pending'')],
     un_id = Some (wish_task_id vw key q), un_legacy_source_id = None\<rparr>"

definition wish_failure :: "view_world \<Rightarrow> schedule_wish \<Rightarrow> string \<Rightarrow> error_category \<Rightarrow> string \<Rightarrow> bool \<Rightarrow> dict \<Rightarrow> failure_info" where
  "wish_failure vw q code category message retryable details =
    plain_failure (vw_rem vw) code category message ''reminder.orchestration'' ''create_natural_language_reminder'' retryable
      (wi_trace q) details"

text \<open>The task is created, or taken over when it was created for the same intent.\<close>

definition wished_task :: "view_world \<Rightarrow> workspace_key \<Rightarrow> schedule_wish \<Rightarrow> user_task rem_op" where
  "wished_task vw key q =
    (let w = vw_rem vw in
     catchS (on_user_tasks w (\<lambda>e. ut_create (rw_zone_ok w) (rw_san w) e (wish_task vw key q)))
       (\<lambda>e. if \<not> is_failure_of CONFLICT e then failS e
         else bindS (visible_task w key (wish_task_id vw key q) (wi_trace q)) (\<lambda>t.
           if map_of (ut_metadata t) ''intent_hash'' \<noteq> Some (JStr (wish_intent_hash vw key q))
           then failS (Failed (wish_failure vw q ''reminder.idempotency_conflict'' CONFLICT
                  ''Idempotency key was already used for another reminder'' False []))
           else retS t)))"

definition matching_reminder :: "reminder list \<Rightarrow> string \<Rightarrow> reminder option" where
  "matching_reminder rs hash = find (\<lambda>r. map_of (rd_meta r) ''intent_hash'' = Some (JStr hash)) rs"

text \<open>\<open>_record_scheduled\<close> and \<open>_record_failure\<close> update the metadata of the task.\<close>

definition record_on_task :: "view_world \<Rightarrow> workspace_key \<Rightarrow> schedule_wish \<Rightarrow> user_task \<Rightarrow> dict \<Rightarrow> user_task rem_op" where
  "record_on_task vw key q t changes =
    (let w = vw_rem vw; meta = fold (\<lambda>(k, v). dict_set k v) changes (ut_metadata t) in
     on_user_tasks w (\<lambda>e. ut_update (rw_zone_ok w) (rw_san w) e key (ut_id t)
       \<lparr>uc_title = None, uc_description = None, uc_priority = None, uc_due_at = None, uc_timezone = None,
        uc_metadata = Some meta\<rparr> (Some (ut_revision t)) (wi_trace q)))"

definition record_scheduled :: "view_world \<Rightarrow> workspace_key \<Rightarrow> schedule_wish \<Rightarrow> user_task \<Rightarrow> reminder \<Rightarrow> user_task rem_op" where
  "record_scheduled vw key q t r =
    record_on_task vw key q t [(''scheduling_status'', JStr ''scheduled''), (''reminder_id'', JStr (rd_id r)),
      (''scheduler_job_id'', (case rd_job r of None \<Rightarrow> JNull | Some i \<Rightarrow> JStr i))]"

definition record_failure :: "view_world \<Rightarrow> workspace_key \<Rightarrow> schedule_wish \<Rightarrow> user_task \<Rightarrow> failure_info \<Rightarrow> user_task rem_op" where
  "record_failure vw key q t f =
    record_on_task vw key q t [(''scheduling_status'', JStr ''failed''), (''scheduling_failure_code'', JStr (fi_code f)),
      (''reminder_id'', (case map_of (fi_details f) ''reminder_id'' of None \<Rightarrow> JNull | Some v \<Rightarrow> v))]"

definition wish_metadata :: "view_world \<Rightarrow> workspace_key \<Rightarrow> schedule_wish \<Rightarrow> dict" where
  "wish_metadata vw key q = [(''intent_hash'', JStr (wish_intent_hash vw key q)), (''idempotency_hash'', JStr (wish_key_hash vw q)),
     (''workspace'', JObj (canonical_workspace_metadata key))]"

text \<open>The reminder is found, created, or recovered by a reconciliation.\<close>

definition wished_reminder :: "view_world \<Rightarrow> workspace_key \<Rightarrow> schedule_wish \<Rightarrow> user_task \<Rightarrow> reminder option \<Rightarrow> reminder rem_op" where
  "wished_reminder vw key q t found =
    (let w = vw_rem vw in
     case found of
       None \<Rightarrow>
         catchS (bridge_create w key (ut_id t) (wi_due q) (wi_zone q) (wi_trace q) (Some (wish_metadata vw key q)))
           (\<lambda>e. case e of
              Raise c m \<Rightarrow> failS e
            | Failed f \<Rightarrow> bindS (record_failure vw key q t f) (\<lambda>_.
                failS (Failed (wish_failure vw q ''reminder.scheduling_failed'' (fi_category f) ''Reminder scheduling failed''
                  (fi_retryable f) (fi_details f)))))
     | Some r \<Rightarrow>
         if rd_status r \<noteq> REM_FAILED then retS r
         else bindS (reconcile w) (\<lambda>_. bindS (service_get w (rd_id r) (wi_trace q)) (\<lambda>r'.
           if rd_status r' \<noteq> REM_FAILED then retS r'
           else failS (Failed (case rd_failure r' of Some f \<Rightarrow> f
             | None \<Rightarrow> wish_failure vw q ''reminder.scheduling_failed'' DEPENDENCY_FAILURE ''Reminder scheduling failed'' True [])))))"

text \<open>Calls with the same key come one after another: the lock of the task identifier is held throughout.\<close>

definition create_for_task :: "view_world \<Rightarrow> workspace_key \<Rightarrow> schedule_wish \<Rightarrow> schedule_result rem_op" where
  "create_for_task vw key0 q =
    (let w = vw_rem vw; key = normalize_workspace_key key0 in
     bindS (wished_task vw key q) (\<lambda>t.
     bindS (service_list_for_task w key (ut_id t) (wi_trace q)) (\<lambda>rs.
     bindS (wished_reminder vw key q t (matching_reminder rs (wish_intent_hash vw key q))) (\<lambda>r.
     case job_ref r of
       None \<Rightarrow> failS (Failed (wish_failure vw q ''reminder.scheduling_failed'' DEPENDENCY_FAILURE
                 ''Reminder scheduling did not produce a job'' True [(''reminder_id'', JStr (rd_id r))]))
     | Some j \<Rightarrow> bindS (record_scheduled vw key q t r) (\<lambda>t'.
         retS \<lparr>sc_task = ut_id t', sc_reminder = rd_id r, sc_job = j, sc_task_status = ut_status_value (ut_status t'),
           sc_reminder_status = rem_status_value (rd_status r),
           sc_for = Aware (rd_at r) (vw_offset vw (rd_zone r) (rd_at r)), sc_zone = rd_zone r\<rparr>)))))"

end
