(* ===== verification/Reminder_Rows.thy ===== *)
theory Reminder_Rows
  imports Reminder_Bridge
begin

text \<open>
  What the statements of the reminder repository never undo, and what a caller that has read a reminder
  may rely on: whoever writes a reminder has read it, and the write passes only when its revision is
  still the same.  \<open>kept\<close> is the triple in which the operations of the service and of the bridge are
  then followed call by call.
\<close>

section \<open>What was read of a reminder\<close>

definition rem_final :: "rem_status \<Rightarrow> bool" where
  "rem_final st = (st = REM_TRIGGERED \<or> st = REM_CANCELLED)"

type_synonym row_stamp = "string \<times> string \<times> int \<times> rem_status"

definition stamp :: "reminder \<Rightarrow> row_stamp" where
  "stamp r = (rd_id r, rd_task r, rd_revision r, rd_status r)"

text \<open>A row of the table is what was read, or a later revision of it.\<close>

definition later_than :: "row_stamp \<Rightarrow> reminder \<Rightarrow> bool" where
  "later_than k x =
    (case k of (i, task, n, st) \<Rightarrow>
       rd_id x = i \<and> rd_task x = task \<and> (n < rd_revision x \<or> n = rd_revision x \<and> rd_status x = st) \<and>
       (rem_final st \<longrightarrow> rd_status x = st))"

definition seen :: "rem_store \<Rightarrow> row_stamp \<Rightarrow> bool" where
  "seen st k = (\<exists>x\<in>set (rs_reminders st). later_than k x)"

definition rem_keys :: "rem_store \<Rightarrow> bool" where
  "rem_keys st = (keyed rd_id (rs_reminders st) \<and> keyed oc_key (rs_occurrences st))"

definition evolves :: "rem_store \<Rightarrow> rem_store \<Rightarrow> bool" where
  "evolves st st' =
    ((\<forall>x\<in>set (rs_reminders st). seen st' (stamp x)) \<and>
     (\<forall>c\<in>set (rs_occurrences st). oc_status c = OCC_TRIGGERED \<longrightarrow> c \<in> set (rs_occurrences st')))"

lemma later_than_stamp [simp]: "later_than (stamp x) x"
  by (simp add: later_than_def stamp_def)

lemma later_than_trans: "later_than k x \<Longrightarrow> later_than (stamp x) y \<Longrightarrow> later_than k y"
  by (cases k) (auto simp: later_than_def stamp_def)

lemma seen_row: "x \<in> set (rs_reminders st) \<Longrightarrow> seen st (stamp x)"
  unfolding seen_def using later_than_stamp by blast

lemma seen_evolves: "evolves st st' \<Longrightarrow> seen st k \<Longrightarrow> seen st' k"
  unfolding evolves_def seen_def using later_than_trans by blast

lemma evolves_refl [simp]: "evolves st st"
  by (simp add: evolves_def seen_row)

lemma evolves_trans: "evolves st st' \<Longrightarrow> evolves st' st'' \<Longrightarrow> evolves st st''"
  unfolding evolves_def [of st st'] evolves_def [of st st'']
  by (meson seen_evolves evolves_def)

text \<open>Only the two tables matter.\<close>

lemma tables_only [simp]:
  "seen (st\<lparr>rs_last_error := e\<rparr>) k = seen st k" "rem_keys (st\<lparr>rs_last_error := e\<rparr>) = rem_keys st"
  "evolves st' (st\<lparr>rs_last_error := e\<rparr>) = evolves st' st"
  "seen (st\<lparr>rs_unobserved := u\<rparr>) k = seen st k" "rem_keys (st\<lparr>rs_unobserved := u\<rparr>) = rem_keys st"
  "evolves st' (st\<lparr>rs_unobserved := u\<rparr>) = evolves st' st"
  "seen (st\<lparr>rs_initialized := b\<rparr>) k = seen st k" "rem_keys (st\<lparr>rs_initialized := b\<rparr>) = rem_keys st"
  "evolves st' (st\<lparr>rs_initialized := b\<rparr>) = evolves st' st"
  by (simp_all add: seen_def rem_keys_def evolves_def)

section \<open>Calls that keep what was read\<close>

text \<open>
  From the stamps \<open>X\<close> on, a call \<open>m\<close> on a state with the store \<open>g s\<close> lets the store evolve, and what it
  returns adds the stamps \<open>Y\<close>, what it raises the stamps \<open>E\<close>.
\<close>

definition kept ::
  "('s \<Rightarrow> rem_store) \<Rightarrow> row_stamp set \<Rightarrow> ('s \<Rightarrow> ('e + 'a) \<times> 's) \<Rightarrow> ('a \<Rightarrow> row_stamp set) \<Rightarrow> ('e \<Rightarrow> row_stamp set) \<Rightarrow> bool" where
  "kept g X m Y E =
    (\<forall>s. rem_keys (g s) \<and> (\<forall>k\<in>X. seen (g s) k) \<longrightarrow>
       (case m s of (v, s') \<Rightarrow>
          rem_keys (g s') \<and> evolves (g s) (g s') \<and>
          (\<forall>k \<in> (case v of Inl e \<Rightarrow> E e | Inr x \<Rightarrow> Y x). seen (g s') k)))"

lemma keptI:
  assumes "\<And>s v s'. rem_keys (g s) \<Longrightarrow> \<forall>k\<in>X. seen (g s) k \<Longrightarrow> m s = (v, s') \<Longrightarrow>
     rem_keys (g s') \<and> evolves (g s) (g s') \<and> (\<forall>k \<in> (case v of Inl e \<Rightarrow> E e | Inr x \<Rightarrow> Y x). seen (g s') k)"
  shows "kept g X m Y E"
  unfolding kept_def using assms by (auto split: prod.split)

lemma keptD:
  assumes "kept g X m Y E" "rem_keys (g s)" "\<forall>k\<in>X. seen (g s) k" "m s = (v, s')"
  shows "rem_keys (g s')" "evolves (g s) (g s')" "v = Inr x \<Longrightarrow> k \<in> Y x \<Longrightarrow> seen (g s') k"
    "v = Inl e \<Longrightarrow> k \<in> E e \<Longrightarrow> seen (g s') k"
  using assms unfolding kept_def by fastforce+

lemma kept_bind:
  assumes m: "kept g X m Y E" and f: "\<And>x s s'. m s = (Inr x, s') \<Longrightarrow> kept g (X \<union> Y x) (f x) Z E"
  shows "kept g X (bindS m f) Z E"
proof (rule keptI)
  fix s v t assume s: "rem_keys (g s)" "\<forall>k\<in>X. seen (g s) k" and run: "bindS m f s = (v, t)"
  obtain r s1 where ms: "m s = (r, s1)" by (cases "m s")
  note k = keptD [OF m s ms]
  show "rem_keys (g t) \<and> evolves (g s) (g t) \<and> (\<forall>k \<in> (case v of Inl e \<Rightarrow> E e | Inr x \<Rightarrow> Z x). seen (g t) k)"
  proof (cases r)
    case (Inl e)
    with run ms k show ?thesis by (auto simp: bindS_def)
  next
    case (Inr x)
    with run ms have fx: "f x s1 = (v, t)" by (simp add: bindS_def)
    have "\<forall>k\<in>X \<union> Y x. seen (g s1) k"
      using s(2) seen_evolves [OF k(2)] k(3) Inr by blast
    from keptD [OF f [OF ms [unfolded Inr]] k(1) this fx] k(2) show ?thesis
      by (auto intro: evolves_trans split: sum.split)
  qed
qed

lemma kept_catch:
  assumes m: "kept g X m Y E" and h: "\<And>e s s'. m s = (Inl e, s') \<Longrightarrow> kept g (X \<union> E e) (h e) Y F"
  shows "kept g X (catchS m h) Y F"
proof (rule keptI)
  fix s v t assume s: "rem_keys (g s)" "\<forall>k\<in>X. seen (g s) k" and run: "catchS m h s = (v, t)"
  obtain r s1 where ms: "m s = (r, s1)" by (cases "m s")
  note k = keptD [OF m s ms]
  show "rem_keys (g t) \<and> evolves (g s) (g t) \<and> (\<forall>k \<in> (case v of Inl e \<Rightarrow> F e | Inr x \<Rightarrow> Y x). seen (g t) k)"
  proof (cases r)
    case (Inr x)
    with run ms k show ?thesis by (auto simp: catchS_def)
  next
    case (Inl e)
    with run ms have he: "h e s1 = (v, t)" by (simp add: catchS_def)
    have "\<forall>k\<in>X \<union> E e. seen (g s1) k"
      using s(2) seen_evolves [OF k(2)] k(4) Inl by blast
    from keptD [OF h [OF ms [unfolded Inl]] k(1) this he] k(2) show ?thesis
      by (auto intro: evolves_trans split: sum.split)
  qed
qed

lemma kept_ret: "Y x \<subseteq> X \<Longrightarrow> kept g X (retS x) Y E"
  by (auto simp: kept_def retS_def)

lemma kept_fail: "E e \<subseteq> X \<Longrightarrow> kept g X (failS e) Y E"
  by (auto simp: kept_def failS_def)

lemma kept_weaken:
  "kept g X m Y E \<Longrightarrow> X \<subseteq> X' \<Longrightarrow> (\<And>x. Y' x \<subseteq> Y x) \<Longrightarrow> (\<And>e. E' e \<subseteq> E e) \<Longrightarrow> kept g X' m Y' E'"
proof (rule keptI)
  fix s v s' assume k: "kept g X m Y E" and sub: "X \<subseteq> X'" "\<And>x. Y' x \<subseteq> Y x" "\<And>e. E' e \<subseteq> E e"
    and s: "rem_keys (g s)" "\<forall>k\<in>X'. seen (g s) k" "m s = (v, s')"
  have "\<forall>k\<in>X. seen (g s) k" using s(2) sub(1) by blast
  note d = keptD [OF k s(1) this s(3)]
  show "rem_keys (g s') \<and> evolves (g s) (g s') \<and> (\<forall>k \<in> (case v of Inl e \<Rightarrow> E' e | Inr x \<Rightarrow> Y' x). seen (g s') k)"
    using d sub(2,3) by (cases v) (simp_all, blast+)
qed

lemma kept_if: "(b \<Longrightarrow> kept g X m Y E) \<Longrightarrow> (\<not> b \<Longrightarrow> kept g X n Y E) \<Longrightarrow> kept g X (if b then m else n) Y E"
  by simp

lemma kept_option:
  "(v = None \<Longrightarrow> kept g X m Y E) \<Longrightarrow> (\<And>x. v = Some x \<Longrightarrow> kept g X (f x) Y E) \<Longrightarrow>
   kept g X (case v of None \<Rightarrow> m | Some x \<Rightarrow> f x) Y E"
  by (cases v) simp_all

lemma kept_pair: "(\<And>a b. p = (a, b) \<Longrightarrow> kept g X (f a b) Y E) \<Longrightarrow> kept g X (case p of (a, b) \<Rightarrow> f a b) Y E"
  by (cases p) simp

lemma kept_still: "(\<And>s. g (snd (m s)) = g s) \<Longrightarrow> kept g X m (\<lambda>_. {}) (\<lambda>_. {})"
  unfolding kept_def by (auto split: prod.split sum.split) (metis evolves_refl snd_conv)+

lemma kept_tag:
  assumes "kept g X m Y (\<lambda>_. {})" "E t \<subseteq> X"
  shows "kept g X (tagS t m) Y (\<lambda>(e, t). E t)"
  unfolding tagS_def by (rule kept_catch [OF assms(1)]) (rule kept_fail, use assms(2) in auto)

section \<open>The repository\<close>

lemma replaced_row:
  assumes keys: "keyed rd_id (rs_reminders st)" and new: "later_than (stamp x) y" "x \<in> set (rs_reminders st)"
    and k: "rd_id x = i"
    and rows: "rs_reminders st' = update_where p (\<lambda>_. y) (rs_reminders st)"
    and p: "\<And>z. p z \<Longrightarrow> rd_id z = i"
  shows "keyed rd_id (rs_reminders st')" "z \<in> set (rs_reminders st) \<Longrightarrow> seen st' (stamp z)"
    "p x \<Longrightarrow> y \<in> set (rs_reminders st')"
proof -
  have y: "rd_id y = i" using new(1) k by (auto simp: later_than_def stamp_def)
  show "keyed rd_id (rs_reminders st')"
    unfolding rows by (rule keyed_update_where [OF _ keys]) (simp add: y p)
  show "p x \<Longrightarrow> y \<in> set (rs_reminders st')" using new(2) by (auto simp: rows set_update_where)
  assume z: "z \<in> set (rs_reminders st)"
  show "seen st' (stamp z)"
  proof (cases "p z")
    case True
    then have "z = x" using keyed_unique [OF keys z new(2)] p k by simp
    with True z new(1) show ?thesis by (auto simp: seen_def rows set_update_where)
  next
    case False
    with z have "z \<in> set (rs_reminders st')" by (auto simp: rows set_update_where)
    then show ?thesis by (rule seen_row)
  qed
qed

abbreviation at_revision :: "reminder \<Rightarrow> int \<Rightarrow> reminder \<Rightarrow> bool" where
  "at_revision c n \<equiv> \<lambda>x. rd_id x = rd_id c \<and> rd_revision x = n"

abbreviation next_revision :: "rem_env \<Rightarrow> reminder \<Rightarrow> int \<Rightarrow> reminder" where
  "next_revision env c n \<equiv> c\<lparr>rd_revision := n + 1, rd_updated := re_now env\<rparr>"

lemma update_cases:
  assumes "rem_update env c n s = (v, s')"
  obtains (written) "v = Inr (next_revision env c n)" "rowcount (at_revision c n) (rs_reminders s) = 1"
      "s' = s\<lparr>rs_reminders := update_where (at_revision c n) (\<lambda>_. reminder_row (next_revision env c n)) (rs_reminders s),
              rs_last_error := None\<rparr>"
  | (refused) e x where "v = Inl e" "s' = s \<or> s' = s\<lparr>rs_last_error := x\<rparr>"
proof -
  have "v = Inr (next_revision env c n) \<and> rowcount (at_revision c n) (rs_reminders s) = 1 \<and>
      s' = s\<lparr>rs_reminders := update_where (at_revision c n) (\<lambda>_. reminder_row (next_revision env c n)) (rs_reminders s),
              rs_last_error := None\<rparr> \<or>
     (\<exists>e x. v = Inl e \<and> (s' = s \<or> s' = s\<lparr>rs_last_error := x\<rparr>))"
    using assms by (auto simp: rem_update_def reminder_values_def rem_error_def rem_done_def Let_def
        split: if_splits option.splits)
  then show thesis using that by blast
qed

lemma kept_update:
  assumes X: "(rd_id c, rd_task c, n, st) \<in> X" and final: "rem_final st \<Longrightarrow> rd_status c = st"
  shows "kept id X (rem_update env c n) (\<lambda>u. {stamp u}) (\<lambda>_. {})"
proof (rule keptI)
  fix s v s' assume keys: "rem_keys (id s)" and seen: "\<forall>k\<in>X. seen (id s) k" and run: "rem_update env c n s = (v, s')"
  show "rem_keys (id s') \<and> evolves (id s) (id s') \<and>
      (\<forall>k \<in> (case v of Inl e \<Rightarrow> {} | Inr u \<Rightarrow> {stamp u}). seen (id s') k)"
    using run
  proof (cases rule: update_cases)
    case refused
    with keys show ?thesis by auto
  next
    case written
    define u where "u = next_revision env c n"
    define hits where "hits = at_revision c n"
    note v = written(1) [folded u_def] and one = written(2) [folded hits_def] and s' = written(3) [folded u_def hits_def]
    from one obtain x where x: "x \<in> set (rs_reminders s)" "hits x"
      using rowcount_0 [of hits "rs_reminders s"] by fastforce
    from seen X obtain y where y: "y \<in> set (rs_reminders s)" "later_than (rd_id c, rd_task c, n, st) y"
      by (auto simp: seen_def)
    have "y = x" using keyed_unique [of rd_id "rs_reminders s" y x] keys x y
      by (auto simp: hits_def later_than_def rem_keys_def)
    with y x have st: "rd_task x = rd_task c" "rd_status x = st" "rd_revision x = n" "rd_id x = rd_id c"
      by (auto simp: later_than_def hits_def)
    have later: "later_than (stamp x) (reminder_row u)"
      using st final by (simp add: later_than_def stamp_def u_def reminder_row_def)
    have keyed: "keyed rd_id (rs_reminders s)" "keyed oc_key (rs_occurrences s)" using keys by (simp_all add: rem_keys_def)
    have rows: "rs_reminders s' = update_where hits (\<lambda>_. reminder_row u) (rs_reminders s)"
      and occs: "rs_occurrences s' = rs_occurrences s" by (simp_all add: s')
    note r = replaced_row [OF keyed(1) later x(1) st(4) rows]
    have "seen s' (stamp (reminder_row u))" by (rule seen_row, rule r(3)) (simp_all add: x(2), simp add: hits_def)
    then have "seen s' (stamp u)" by (simp add: stamp_def reminder_row_def)
    moreover have "keyed rd_id (rs_reminders s')" by (rule r(1)) (simp add: hits_def)
    moreover have "\<forall>z\<in>set (rs_reminders s). seen s' (stamp z)"
      using r(2) by (simp add: hits_def)
    ultimately show ?thesis by (simp add: v rem_keys_def evolves_def occs keyed(2))
  qed
qed

lemma kept_rem_create: "kept id X (rem_create env r) (\<lambda>u. {stamp u}) (\<lambda>_. {})"
proof (rule keptI)
  fix s v s' assume keys: "rem_keys (id s)" and run: "rem_create env r s = (v, s')"
  have "v = Inr r \<and> s' = s\<lparr>rs_reminders := rs_reminders s @ [reminder_row r], rs_last_error := None\<rparr> \<and>
       row_of rd_id (rd_id r) (rs_reminders s) = None \<or> (\<exists>e x. v = Inl e \<and> (s' = s \<or> s' = s\<lparr>rs_last_error := x\<rparr>))"
    using run by (auto simp: rem_create_def reminder_values_def rem_error_def rem_done_def Let_def split: if_splits option.splits)
  moreover have "stamp (reminder_row r) = stamp r" by (simp add: stamp_def reminder_row_def)
  moreover have "rd_id (reminder_row r) = rd_id r" by (simp add: reminder_row_def)
  ultimately show "rem_keys (id s') \<and> evolves (id s) (id s') \<and>
      (\<forall>k \<in> (case v of Inl e \<Rightarrow> {} | Inr u \<Rightarrow> {stamp u}). seen (id s') k)"
    using keys seen_row [of _ s'] by (auto simp: rem_keys_def evolves_def) (metis UnCI in_set_conv_decomp set_append)+
qed

lemma stamp_decoded: "row_reminder zone_ok san x = Inr r \<Longrightarrow> stamp r = stamp x"
  by (auto simp: row_reminder_def validate_reminder_def stamp_def split: if_splits)

lemma kept_rem_get: "kept id X (rem_get zone_ok san env i) (\<lambda>r. {stamp r}) (\<lambda>_. {})"
  by (rule keptI)
    (auto simp: rem_get_def rem_error_def rem_read_def rem_done_def dest!: row_of_Some stamp_decoded
      intro: seen_row split: option.splits sum.splits)

lemma decoded_seen:
  assumes "decode_rows (row_reminder zone_ok san) xs = Inr rs" "set xs \<subseteq> set (rs_reminders s)" "r \<in> set rs"
  shows "seen s (stamp r)"
proof -
  from assms(1,3) obtain x where "x \<in> set xs" "row_reminder zone_ok san x = Inr r"
    unfolding decode_rows_Inr by (metis (no_types, opaque_lifting) image_iff list.set_map)
  then show ?thesis using seen_row [of x s] stamp_decoded assms(2) by fastforce
qed

lemma kept_rem_list: "kept id X (rem_list zone_ok san env hit) (\<lambda>rs. stamp ` set rs) (\<lambda>_. {})"
  by (rule keptI)
    (auto simp: rem_list_def rem_error_def rem_read_def rem_done_def split: option.splits sum.splits
      elim!: decoded_seen)

lemma kept_rem_list_for_task: "kept id X (rem_list_for_task zone_ok san env task) (\<lambda>rs. stamp ` set rs) (\<lambda>_. {})"
  unfolding rem_list_for_task_def by (rule kept_rem_list)

lemma kept_rem_list_by_statuses:
  "kept id X (rem_list_by_statuses zone_ok san env sts) (\<lambda>rs. stamp ` set rs) (\<lambda>_. {})"
  unfolding rem_list_by_statuses_def by (auto intro: kept_rem_list kept_ret)

text \<open>A trigger leaves the tables alone, or writes both.\<close>

definition same_tables :: "rem_store \<Rightarrow> rem_store \<Rightarrow> bool" where
  "same_tables s s' = (rs_reminders s' = rs_reminders s \<and> rs_occurrences s' = rs_occurrences s)"

lemma same_tables_refl [simp]: "same_tables s s" "same_tables s (s\<lparr>rs_last_error := x\<rparr>)"
  by (simp_all add: same_tables_def)

lemma same_tables_kept: "same_tables s s' \<Longrightarrow> rem_keys s \<Longrightarrow> rem_keys s' \<and> evolves s s'"
  by (auto simp: same_tables_def rem_keys_def evolves_def seen_def intro: later_than_stamp)

lemma trigger_cases:
  assumes run: "rem_trigger zone_ok san env i t tr s = (v, s')"
  obtains (quiet) "same_tables s s'" "\<And>r c. v \<noteq> Inr (r, c, False)"
  | (written) row r where "row_of rd_id i (rs_reminders s) = Some row" "row_reminder zone_ok san row = Inr r"
      "rd_status row = REM_SCHEDULED \<or> rd_status row = REM_FAILED" "rd_at row = t"
      "store_trigger zone_ok san env row r t tr s = (v, s')"
proof (cases "re_io env = None \<and> (\<exists>row r. row_of rd_id i (rs_reminders s) = Some row \<and> row_reminder zone_ok san row = Inr r \<and>
    rd_status r \<in> {REM_SCHEDULED, REM_FAILED} \<and> rd_at r = t)")
  case True
  then obtain row r where r: "row_of rd_id i (rs_reminders s) = Some row" "row_reminder zone_ok san row = Inr r"
    "rd_status r \<in> {REM_SCHEDULED, REM_FAILED}" "rd_at r = t" by blast
  from r(2-4) have "rd_status row = REM_SCHEDULED \<or> rd_status row = REM_FAILED" "rd_at row = t"
    by (auto simp: row_reminder_def validate_reminder_def split: if_splits)
  moreover have "store_trigger zone_ok san env row r t tr s = (v, s')"
    using run True r by (auto simp: rem_trigger_def)
  ultimately show thesis using r(1,2) written by blast
next
  case False
  have "same_tables s s' \<and> (\<forall>r c. v \<noteq> Inr (r, c, False))"
  proof (cases "re_io env = None \<and> row_of rd_id i (rs_reminders s) \<noteq> None")
    case True
    then obtain row where row: "row_of rd_id i (rs_reminders s) = Some row" by blast
    show ?thesis
    proof (cases "row_reminder zone_ok san row")
      case (Inl e)
      with True row run show ?thesis by (auto simp: rem_trigger_def rem_error_def)
    next
      case (Inr r)
      with False True row have "rd_status r \<notin> {REM_SCHEDULED, REM_FAILED} \<or> rd_at r \<noteq> t" by blast
      with True row run Inr show ?thesis
        by (auto simp: rem_trigger_def rem_error_def split: option.splits sum.splits if_splits)
    qed
  qed (use run in \<open>auto simp: rem_trigger_def rem_error_def Let_def split: option.splits\<close>)
  then show thesis using quiet by blast
qed

lemma store_trigger_cases:
  assumes "store_trigger zone_ok san env row r t tr s = (v, s')"
  obtains (quiet) "same_tables s s'" "\<And>r c. v \<noteq> Inr (r, c, False)"
  | (written) c r' o' where
      "row_of oc_key (occ_key (rd_id r) t)
         (insert_occurrence (new_occurrence env OCC_PROCESSING r t tr None) (rs_occurrences s)) = Some c"
      "rs_occurrences s' = update_where (\<lambda>x. oc_key x = occ_key (rd_id r) t)
         (\<lambda>_. if oc_status c = OCC_TRIGGERED then c else triggered_occurrence (re_now env) tr c)
         (insert_occurrence (new_occurrence env OCC_PROCESSING r t tr None) (rs_occurrences s))"
      "rs_reminders s' = update_where (\<lambda>x. rd_id x = rd_id r) (\<lambda>_. triggered_reminder (re_now env) tr row) (rs_reminders s)"
      "v = Inr (r', o', oc_status c = OCC_TRIGGERED)"
      "row_reminder zone_ok san (triggered_reminder (re_now env) tr row) = Inr r'"
      "row_occurrence san (if oc_status c = OCC_TRIGGERED then c else triggered_occurrence (re_now env) tr c) = Inr o'"
  using assms
  by (auto simp: store_trigger_def Let_def rem_error_def rem_done_def split: option.splits sum.splits if_splits)

lemma keyed_insert: "keyed oc_key rows \<Longrightarrow> keyed oc_key (insert_occurrence c rows)"
  by (auto simp: insert_occurrence_def list_ex_iff row_of_None)

lemma set_insert_occurrence: "set rows \<subseteq> set (insert_occurrence c rows)"
  by (auto simp: insert_occurrence_def)

lemma kept_rem_trigger: "kept id X (rem_trigger zone_ok san env i t tr) (\<lambda>_. {}) (\<lambda>_. {})"
proof (rule keptI)
  fix s v s' assume keys: "rem_keys (id s)" and run: "rem_trigger zone_ok san env i t tr s = (v, s')"
  have "rem_keys s' \<and> evolves s s'"
    using run
  proof (cases rule: trigger_cases)
    case quiet
    with same_tables_kept keys show ?thesis by simp
  next
    case (written row r)
    have row: "row \<in> set (rs_reminders s)" "rd_id row = i" using row_of_Some [OF written(1)] by simp_all
    have r: "rd_id r = i" using stamp_decoded [OF written(2)] row(2) by (simp add: stamp_def)
    show ?thesis using written(5)
    proof (cases rule: store_trigger_cases)
      case quiet
      with same_tables_kept keys show ?thesis by simp
    next
      case w: (written c r' o')
      define occs where "occs = insert_occurrence (new_occurrence env OCC_PROCESSING r t tr None) (rs_occurrences s)"
      have ko: "keyed oc_key occs" using keys by (simp add: occs_def rem_keys_def keyed_insert)
      have c: "c \<in> set occs" "oc_key c = occ_key (rd_id r) t" using row_of_Some [OF w(1)] by (simp_all add: occs_def)
      have later: "later_than (stamp row) (triggered_reminder (re_now env) tr row)"
        using written(3) by (auto simp: later_than_def stamp_def triggered_reminder_def rem_final_def)
      note rr = replaced_row [OF _ later row w(3)]
      have "keyed rd_id (rs_reminders s')" "\<forall>z\<in>set (rs_reminders s). seen s' (stamp z)"
        using rr(1,2) keys r by (simp_all add: rem_keys_def)
      moreover have "keyed oc_key (rs_occurrences s')"
        unfolding w(2) occs_def [symmetric] by (rule keyed_update_where [OF _ ko]) (simp add: c(2) triggered_occurrence_def)
      moreover have "x \<in> set (rs_occurrences s')" if x: "x \<in> set (rs_occurrences s)" "oc_status x = OCC_TRIGGERED" for x
      proof -
        have "x \<in> set occs" using x(1) set_insert_occurrence by (auto simp: occs_def)
        moreover have "x = c" if "oc_key x = occ_key (rd_id r) t"
          using keyed_unique [OF ko \<open>x \<in> set occs\<close> c(1)] that c(2) by simp
        ultimately show ?thesis unfolding w(2) occs_def [symmetric] set_update_where using x(2) by auto
      qed
      ultimately show ?thesis by (simp add: rem_keys_def evolves_def)
    qed
  qed
  then show "rem_keys (id s') \<and> evolves (id s) (id s') \<and> (\<forall>k \<in> (case v of Inl e \<Rightarrow> {} | Inr u \<Rightarrow> {}). seen (id s') k)"
    by (auto split: sum.split)
qed

lemma moved_rows:
  assumes keys: "keyed rd_id (rs_reminders st)" and f: "\<And>x. p x \<Longrightarrow> later_than (stamp x) (f x)"
    and rows: "rs_reminders st' = update_where p f (rs_reminders st)"
  shows "keyed rd_id (rs_reminders st')" "x \<in> set (rs_reminders st) \<Longrightarrow> seen st' (stamp x)"
proof -
  have "rd_id (f x) = rd_id x" if "p x" for x using f [OF that] by (auto simp: later_than_def stamp_def)
  then show "keyed rd_id (rs_reminders st')" unfolding rows by (rule keyed_update_where [OF _ keys])
  assume x: "x \<in> set (rs_reminders st)"
  show "seen st' (stamp x)"
  proof (cases "p x")
    case True
    then have "f x \<in> set (rs_reminders st')" using x by (auto simp: rows set_update_where)
    with f [OF True] show ?thesis by (auto simp: seen_def)
  next
    case False
    with x have "x \<in> set (rs_reminders st')" by (auto simp: rows set_update_where)
    then show ?thesis by (rule seen_row)
  qed
qed

lemma kept_rem_record_failure: "kept id X (rem_record_failure zone_ok san env i t tr f) (\<lambda>_. {}) (\<lambda>_. {})"
proof (rule keptI)
  fix s v s' assume keys: "rem_keys (id s)" and run: "rem_record_failure zone_ok san env i t tr f s = (v, s')"
  define p where "p = (\<lambda>x::reminder. rd_id x = i \<and> rd_status x \<notin> {REM_TRIGGERED, REM_CANCELLED, REM_PENDING_CANCEL})"
  define hit where "hit = (\<lambda>x::occurrence. oc_key x = occ_key i t \<and> oc_status x \<noteq> OCC_TRIGGERED)"
  have "rem_keys s' \<and> evolves s s'"
  proof (cases "same_tables s s'")
    case True
    with same_tables_kept keys show ?thesis by simp
  next
    case False
    then obtain c where rows: "rs_reminders s' = update_where p (failed_reminder (re_now env) tr f) (rs_reminders s)"
      and occs: "rs_occurrences s' = insert_occurrence c (rs_occurrences s) \<or>
        rs_occurrences s' = update_where hit (failed_occurrence tr f) (insert_occurrence c (rs_occurrences s))"
    proof -
      define after where "after = (\<lambda>q. s\<lparr>rs_occurrences :=
          (let occs = insert_occurrence (new_occurrence env OCC_FAILED q t tr (Some (rem_failure_column f))) (rs_occurrences s)
           in if length occs = length (rs_occurrences s) then update_where hit (failed_occurrence tr f) occs else occs),
          rs_reminders := update_where p (failed_reminder (re_now env) tr f) (rs_reminders s), rs_last_error := None\<rparr>)"
      have "rem_record_failure zone_ok san env i t tr f s = (Inr (), after q)"
        if "re_io env = None" "row_of rd_id i (rs_reminders s) = Some row" "row_reminder zone_ok san row = Inr q" for row q
        using that by (simp add: rem_record_failure_def Let_def rem_done_def p_def hit_def after_def)
      moreover obtain row q where "re_io env = None" "row_of rd_id i (rs_reminders s) = Some row" "row_reminder zone_ok san row = Inr q"
        using run False by (auto simp: rem_record_failure_def Let_def rem_error_def split: option.splits sum.splits)
      ultimately have "s' = after q" using run by simp
      then show thesis
        by (intro that [of "new_occurrence env OCC_FAILED q t tr (Some (rem_failure_column f))"]) (simp_all add: after_def Let_def)
    qed
    have later: "later_than (stamp x) (failed_reminder (re_now env) tr f x)" if "p x" for x
      using that by (auto simp: p_def later_than_def stamp_def failed_reminder_def rem_final_def)
    have ko: "keyed oc_key (insert_occurrence c (rs_occurrences s))" using keys by (simp add: rem_keys_def keyed_insert)
    have "keyed oc_key (rs_occurrences s')"
      using occs ko keyed_update_where [OF _ ko] by (auto simp: failed_occurrence_def)
    moreover have "x \<in> set (rs_occurrences s')" if "x \<in> set (rs_occurrences s)" "oc_status x = OCC_TRIGGERED" for x
      using occs that set_insert_occurrence [of "rs_occurrences s" c] by (auto simp: set_update_where hit_def image_iff)
    moreover note moved_rows [OF _ later rows]
    ultimately show ?thesis using keys by (simp add: rem_keys_def evolves_def)
  qed
  then show "rem_keys (id s') \<and> evolves (id s) (id s') \<and> (\<forall>k \<in> (case v of Inl e \<Rightarrow> {} | Inr u \<Rightarrow> {}). seen (id s') k)"
    by (auto split: sum.split)
qed

end
