(* ===== verification/Reminder_Finality.thy ===== *)
theory Reminder_Finality
  imports Reminder_Rows
begin

text \<open>
  A reminder that is triggered or cancelled stays so through every operation of the service, the
  handler and the bridge, and a run of them fires it at most once; after the end of a task its
  reminders are settled.
\<close>

section \<open>The operations\<close>

abbreviation keeps :: "row_stamp set \<Rightarrow> (rem_system \<Rightarrow> ('e + 'a) \<times> rem_system) \<Rightarrow> ('a \<Rightarrow> row_stamp set) \<Rightarrow> ('e \<Rightarrow> row_stamp set) \<Rightarrow> bool" where
  "keeps \<equiv> kept rm_store"

lemma keeps_on_rem: "(\<And>env. kept id X (m env) Y E) \<Longrightarrow> keeps X (on_rem w m) Y E"
proof (rule keptI)
  fix s v s' assume m: "\<And>env. kept id X (m env) Y E" and s: "rem_keys (rm_store s)" "\<forall>k\<in>X. seen (rm_store s) k"
    and run: "on_rem w m s = (v, s')"
  obtain st where st: "m (rw_env w (rm_calls s)) (rm_store s) = (v, st)" "rm_store s' = st"
    using run by (auto simp: on_rem_def split: prod.splits)
  show "rem_keys (rm_store s') \<and> evolves (rm_store s) (rm_store s') \<and>
      (\<forall>k \<in> (case v of Inl e \<Rightarrow> E e | Inr x \<Rightarrow> Y x). seen (rm_store s') k)"
    using keptD [OF m, of "rm_store s"] s st by (cases v) auto
qed

lemma keeps_still:
  "keeps X (rem_draw w) (\<lambda>_. {}) (\<lambda>_. {})" "keeps X (on_user_tasks w tm) (\<lambda>_. {}) (\<lambda>_. {})"
  "keeps X (on_jobs js jm) (\<lambda>_. {}) (\<lambda>_. {})" "keeps X (rem_lift v) (\<lambda>_. {}) (\<lambda>_. {})"
  by (rule kept_still, simp add: rem_draw_def on_user_tasks_def on_jobs_def rem_lift_def split: prod.split)+

lemma keeps_marks:
  "keeps X (mark_store reason) (\<lambda>_. {}) (\<lambda>_. {})" "keeps X clear_store (\<lambda>_. {}) (\<lambda>_. {})"
  by (simp_all add: kept_def mark_store_def clear_store_def rem_mark_def rem_clear_def)

lemma kept_unit: "kept g X m Y E \<Longrightarrow> kept g X m (\<lambda>_. {}) (\<lambda>_. {})"
  by (erule kept_weaken) simp_all

lemma kept_then:
  assumes m: "kept g X m (\<lambda>_. {}) E" and f: "\<And>x s s'. m s = (Inr x, s') \<Longrightarrow> kept g X (f x) Z E"
  shows "kept g X (bindS m f) Z E"
  by (rule kept_bind [OF m], subst Un_empty_right, rule f)

lemma kept_or:
  assumes m: "kept g X m Y (\<lambda>_. {})" and h: "\<And>e s s'. m s = (Inl e, s') \<Longrightarrow> kept g X (h e) Y F"
  shows "kept g X (catchS m h) Y F"
  by (rule kept_catch [OF m], subst Un_empty_right, rule h)

lemma keeps_unless: "keeps X m Y E \<Longrightarrow> keeps X (unless_raised m) (\<lambda>_. {}) (\<lambda>_. {})"
  unfolding unless_raised_def
  by (rule kept_or) (rule kept_bind [OF kept_weaken [where Y' = Y and E' = "\<lambda>_. {}"]], auto intro: kept_ret)

lemma keeps_publish_event: "keeps X (publish_reminder_event w m) (\<lambda>_. {}) (\<lambda>_. {})"
  by (rule kept_still)
    (simp add: publish_reminder_event_def rem_draw_def bindS_def retS_def failS_def split: bus_mode.split)

lemma keeps_publish: "keeps X (rem_publish w ty r) (\<lambda>_. {}) (\<lambda>_. {})"
proof -
  have "keeps X (catchS (bindS (publish_reminder_event w (reminder_message ty [] (rd_trace r) r)) (\<lambda>_. clear_store))
       (\<lambda>_. mark_store ''event_publish_failed'')) (\<lambda>_. {}) (\<lambda>_. {})"
    by (intro kept_or kept_then keeps_publish_event keeps_marks)
  then show ?thesis unfolding kept_def rem_publish_def by (auto split: prod.split sum.split)
qed

lemma keeps_raise: "keeps X (rem_raise w op tr i rec e) Y (\<lambda>_. {})"
  by (simp add: rem_raise_def kept_fail)

text \<open>A call that the next step does not look at, or that leaves the reminders alone.\<close>

lemma kept_ret0: "kept g X (retS x) (\<lambda>_. {}) E"
  by (rule kept_ret) simp

lemma kept_fail0: "kept g X (failS e) Y (\<lambda>_. {})"
  by (rule kept_fail) simp

lemmas rem_kept_steps = kept_ret0 kept_fail0 keeps_still keeps_marks keeps_publish keeps_publish_event keeps_raise

lemma keeps_service_get: "keeps X (service_get w i tr) (\<lambda>r. {stamp r}) (\<lambda>_. {})"
  unfolding service_get_def by (intro kept_or keeps_on_rem kept_rem_get keeps_raise)

lemma keeps_in_future: "keeps X (in_future w r) (\<lambda>_. {}) (\<lambda>_. {})"
  unfolding in_future_def by (intro kept_then keeps_still kept_if rem_kept_steps)

lemma keeps_announced:
  assumes m: "keeps X m (\<lambda>u. {stamp u}) E" and p: "\<And>Z u. keeps Z (p u) (\<lambda>_. {}) E"
  shows "keeps X (bindS m (\<lambda>u. bindS (p u) (\<lambda>_. retS u))) (\<lambda>u. {stamp u}) E"
  by (rule kept_bind [OF m], rule kept_then [OF p], rule kept_ret) simp

lemma keeps_create_pending: "keeps X (create_pending w key task at tz tr meta) (\<lambda>r. {stamp r}) (\<lambda>_. {})"
  unfolding create_pending_def
  by (rule keeps_announced keeps_on_rem kept_rem_create kept_or kept_then kept_if rem_kept_steps keeps_in_future)+

lemma keeps_transition:
  assumes "stamp r \<in> X" "rem_final (rd_status r) \<Longrightarrow> st = rd_status r"
  shows "keeps X (transition w r st job f tr) (\<lambda>u. {stamp u}) (\<lambda>_. {})"
proof -
  have up: "kept id X (rem_update e (transition_of st job f tr now r) (rd_revision r)) (\<lambda>u. {stamp u}) (\<lambda>_. {})" for e now
    by (rule kept_update [where st = "rd_status r"])
      (use assms in \<open>simp_all add: transition_of_def stamp_def\<close>)
  show ?thesis unfolding transition_def
    by (rule keeps_announced kept_then kept_or kept_option rem_kept_steps keeps_on_rem up)+
qed

lemma updated_value:
  "rem_update e c n s = (Inr u, s') \<Longrightarrow> rd_status u = rd_status c \<and> rd_id u = rd_id c \<and> rd_task u = rd_task c"
  by (auto simp: rem_update_def rem_error_def rem_done_def Let_def split: sum.splits option.splits if_splits)

lemma on_rem_run:
  "on_rem w m s = (v, s') \<longleftrightarrow>
     (\<exists>st. m (rw_env w (rm_calls s)) (rm_store s) = (v, st) \<and> s' = s\<lparr>rm_store := st, rm_calls := Suc (rm_calls s)\<rparr>)"
  by (auto simp: on_rem_def split: prod.split)

lemma transition_value:
  assumes "transition w r st job f tr s = (Inr u, s')"
  shows "rd_status u = st \<and> rd_id u = rd_id r \<and> rd_task u = rd_task r"
proof -
  from assms obtain e now s1 s2 where "rem_update e (transition_of st job f tr now r) (rd_revision r) s1 = (Inr u, s2)"
    by (auto simp: transition_def bindS_Inr catchS_Inr rem_raise_def failS_def on_rem_run retS_def)
  from updated_value [OF this] show ?thesis by (simp add: transition_of_def)
qed

lemma keeps_prepare: "keeps X (prepare_reschedule w i at tz expected tr meta) (\<lambda>u. {stamp u}) (\<lambda>_. {})"
proof -
  have up: "kept id (X \<union> {stamp r}) (rem_update e c (rd_revision r)) (\<lambda>u. {stamp u}) (\<lambda>_. {})"
    if "rd_status r \<notin> {REM_TRIGGERED, REM_CANCELLED}" "rd_id c = rd_id r" "rd_task c = rd_task r" for e c r
    by (rule kept_update [where st = "rd_status r"])
      (use that in \<open>simp_all add: rem_final_def stamp_def\<close>)
  have cand: "rd_id c = rd_id r \<and> rd_task c = rd_task r"
    if "rem_lift (bindR (reminder_at at (\<lambda>t. rescheduled_reminder t tz tr meta r)) (validate_reminder z sn)) s = (Inr c, s')"
    for r c s s' z sn
    using that by (auto simp: rem_lift_def bindR_Inr_iff reminder_at_def validate_reminder_def rescheduled_reminder_def
        split: if_splits)
  show ?thesis unfolding prepare_reschedule_def
    by (rule kept_bind, rule keeps_service_get, intro kept_if kept_or kept_then rem_kept_steps keeps_in_future)
      (rule keeps_on_rem, rule up, (use cand in \<open>blast\<close>)+)
qed

lemma prepared_value:
  assumes "prepare_reschedule w i at tz expected tr meta s = (Inr u, s')"
  shows "rd_status u = REM_PENDING_RESCHEDULE"
proof -
  from assms obtain e c n s1 s2 where "rem_update e c n s1 = (Inr u, s2)" "rd_status c = REM_PENDING_RESCHEDULE"
    by (auto simp: prepare_reschedule_def bindS_Inr catchS_Inr rem_raise_def failS_def on_rem_run rem_lift_def bindR_Inr_iff
        reminder_at_def validate_reminder_def rescheduled_reminder_def split: if_splits)
  then show ?thesis using updated_value by metis
qed

lemma keeps_handler: "keeps X (handler_execute w payload run) (\<lambda>_. {}) (\<lambda>_. {})"
proof -
  note get = kept_bind [OF keeps_on_rem [OF kept_rem_get]] kept_or [OF kept_then]
  have announce: "keeps Z (announce_trigger w r c tr) (\<lambda>_. {}) (\<lambda>_. {})" for Z r c tr
    unfolding announce_trigger_def by (rule kept_or kept_then rem_kept_steps)+
  have conflict: "keeps Z (not_triggered w i e) (\<lambda>_. {}) (\<lambda>_. {})" for Z i e
    unfolding not_triggered_def by (rule get(1)) (rule kept_if rem_kept_steps)+
  have failed: "keeps Z (trigger_failed w i at run e) (\<lambda>_. {}) (\<lambda>_. {})" for Z i at e
    unfolding trigger_failed_def
    by (rule kept_then, rule keeps_on_rem, rule kept_rem_record_failure, rule kept_then, rule kept_or, rule get(1))
      (rule rem_kept_steps)+
  have attempt: "keeps Z (attempt_trigger w i at run) (\<lambda>_. {}) (\<lambda>_. {})" for Z i at
    unfolding attempt_trigger_def
    by (rule kept_or kept_then keeps_on_rem kept_rem_trigger kept_if conflict failed rem_kept_steps)+
  show ?thesis unfolding handler_execute_def Let_def
    by (rule kept_if kept_then attempt announce rem_kept_steps | (simp split: sum.split, safe))+
qed

section \<open>The bridge\<close>

lemma keeps_require: "keeps X (require_scheduler w) (\<lambda>_. {}) (\<lambda>_. {})"
  unfolding require_scheduler_def by (rule kept_option rem_kept_steps)+

lemma keeps_create_job: "keeps X (create_job w r) (\<lambda>_. {}) (\<lambda>_. {})"
  unfolding create_job_def by (rule kept_then keeps_require kept_if rem_kept_steps)+

lemma keeps_find: "keeps X (find_job js i) (\<lambda>_. {}) (\<lambda>_. {})" "keeps X (move_job js i r) (\<lambda>_. {}) (\<lambda>_. {})"
  unfolding find_job_def move_job_def by (rule rem_kept_steps)+

lemma keeps_ensure: "keeps X (ensure_job w r) (\<lambda>_. {}) (\<lambda>_. {})"
  unfolding ensure_job_def Let_def
  by (rule kept_then keeps_require kept_option kept_if keeps_find keeps_create_job rem_kept_steps)+

lemma keeps_stop: "keeps X (stop_job_of w r) (\<lambda>_. {}) (\<lambda>_. {})"
  unfolding stop_job_of_def stop_job_def
  by (rule kept_option kept_then keeps_find kept_if rem_kept_steps | (simp split: option.split prod.split, safe))+

lemma keeps_schedule_failed:
  assumes "stamp r \<in> X" "\<not> rem_final (rd_status r)"
  shows "keeps X (schedule_failed w r tr x) (\<lambda>_. {}) (\<lambda>_. {})"
proof -
  have undo: "keeps X (case (made, rw_jobs w) of (Some j, Some js) \<Rightarrow> unless_raised (on_jobs js (\<lambda>se. cancel_job se (jb_id j)))
      | _ \<Rightarrow> retS ()) (\<lambda>_. {}) (\<lambda>_. {})" for made
    by (auto split: option.split intro: rem_kept_steps keeps_unless)
  have save: "keeps X (catchS (transition w r REM_FAILED i f tr) (\<lambda>_. retS r)) (\<lambda>_. {}) (\<lambda>_. {})" for i f
    by (rule kept_or, rule kept_unit, rule keeps_transition) (use assms in \<open>auto intro: rem_kept_steps\<close>)
  show ?thesis unfolding schedule_failed_def Let_def
    by (rule kept_pair) (rule kept_then undo save rem_kept_steps)+
qed

lemma kept_tagged: "kept g X m Y (\<lambda>_. {}) \<Longrightarrow> kept g X (tagS t m) Y (\<lambda>_. {})"
  unfolding tagS_def by (erule kept_or) (rule kept_fail0)

lemma tagged: "tagS t m s = (Inl x, s') \<Longrightarrow> snd x = t"
  by (auto simp: tagS_def catchS_def failS_def split: prod.splits sum.splits)

lemma bindS_Inl:
  "bindS m f s = (Inl e, t) \<longleftrightarrow> m s = (Inl e, t) \<or> (\<exists>x s'. m s = (Inr x, s') \<and> f x s' = (Inl e, t))"
  by (auto simp: bindS_def split: prod.split sum.split)

lemma created_value: "rem_create env r s = (Inr u, s') \<Longrightarrow> u = r"
  by (auto simp: rem_create_def rem_error_def rem_done_def split: sum.splits option.splits if_splits)

lemma keeps_bridge_create: "keeps X (bridge_create w key task at tz tr meta) (\<lambda>_. {}) (\<lambda>_. {})"
  unfolding bridge_create_def
proof (rule kept_bind [OF keeps_create_pending])
  fix r s s' assume made: "create_pending w key task at tz tr meta s = (Inr r, s')"
  have open': "rd_status r = REM_PENDING_SCHEDULE"
    using made
    by (auto simp: create_pending_def bindS_Inr catchS_Inr rem_raise_def failS_def retS_def on_rem_run rem_lift_def
        bindR_Inr_iff reminder_at_def validate_reminder_def pending_reminder_def split: if_splits dest!: created_value)
  have r: "stamp r \<in> X \<union> {stamp r}" by simp
  show "keeps (X \<union> {stamp r}) (catchS (bindS (tagS None (create_job w r))
      (\<lambda>j. tagS (Some j) (transition w r REM_SCHEDULED (Some (Some (jb_id j))) (Some None) tr))) (schedule_failed w r tr))
      (\<lambda>_. {}) (\<lambda>_. {})"
    by (rule kept_or kept_then kept_tagged keeps_create_job keeps_schedule_failed kept_unit [OF keeps_transition] r
      | simp add: open' rem_final_def)+
qed

lemma keeps_recovery:
  assumes "stamp r \<in> X" "rem_final (rd_status r) \<Longrightarrow> st = rd_status r"
  shows "keeps X (recovery_failed w op st tr r e) Y (\<lambda>_. {})"
  unfolding recovery_failed_def Let_def
  by (rule kept_then keeps_unless keeps_transition rem_kept_steps assms | assumption)+

lemma keeps_try_move: "keeps X (try_move js r) (\<lambda>_. {}) (\<lambda>_. {})"
  unfolding try_move_def by (rule kept_option kept_then keeps_find kept_if rem_kept_steps)+

lemma keeps_running_elsewhere: "keeps X (running_elsewhere w js r) (\<lambda>_. {}) (\<lambda>_. {})"
  unfolding running_elsewhere_def by (rule kept_option kept_then keeps_find kept_if rem_kept_steps)+

lemma keeps_bridge_reschedule: "keeps X (bridge_reschedule w i at tz expected tr meta) (\<lambda>_. {}) (\<lambda>_. {})"
proof -
  have body: "keeps (Z \<union> {stamp r}) (catchS
        (bindS (tagS r (try_move js r)) (\<lambda>changed.
         bindS (if changed then retS r
                else tagS r (bindS (create_job w r) (\<lambda>j. retS (r\<lparr>rd_job := Some (jb_id j)\<rparr>)))) (\<lambda>r'.
         tagS r' (transition w r' REM_SCHEDULED (Some (rd_job r')) (Some None) tr))))
        (\<lambda>(e, r'). recovery_failed w ''reschedule'' REM_PENDING_RESCHEDULE tr r' e)) (\<lambda>_. {}) (\<lambda>_. {})"
    (is "keeps _ (catchS ?m ?h) _ _")
    if r: "rd_status r = REM_PENDING_RESCHEDULE" for Z js r
  proof (rule kept_or)
    have job: "stamp q = stamp r \<and> rd_status q = rd_status r"
      if "tagS r (bindS (create_job w r) (\<lambda>j. retS (r\<lparr>rd_job := Some (jb_id j)\<rparr>))) s = (Inr q, s')" for q s s'
      using that by (auto simp: retS_def tagS_def catchS_Inr failS_def bindS_Inr stamp_def)
    have same: "stamp q = stamp r \<and> rd_status q = rd_status r"
      if "(if b then retS r else tagS r (bindS (create_job w r) (\<lambda>j. retS (r\<lparr>rd_job := Some (jb_id j)\<rparr>)))) s = (Inr q, s')"
      for b q s s'
      using that job by (auto simp: retS_def split: if_splits)
    show "keeps (Z \<union> {stamp r}) ?m (\<lambda>_. {}) (\<lambda>_. {})"
    proof (rule kept_then [OF kept_tagged [OF keeps_try_move]], rule kept_then)
      show "keeps (Z \<union> {stamp r}) (if b then retS r else tagS r (bindS (create_job w r) (\<lambda>j. retS (r\<lparr>rd_job := Some (jb_id j)\<rparr>))))
          (\<lambda>_. {}) (\<lambda>_. {})" for b
        by (rule kept_if kept_then kept_tagged keeps_create_job rem_kept_steps)+
      fix b q s s'
      assume "(if b then retS r else tagS r (bindS (create_job w r) (\<lambda>j. retS (r\<lparr>rd_job := Some (jb_id j)\<rparr>)))) s = (Inr q, s')"
      from same [OF this]
      show "keeps (Z \<union> {stamp r}) (tagS q (transition w q REM_SCHEDULED (Some (rd_job q)) (Some None) tr)) (\<lambda>_. {}) (\<lambda>_. {})"
        by (intro kept_tagged kept_unit [OF keeps_transition]) (simp_all add: r rem_final_def)
    qed
    fix x s s' assume "?m s = (Inl x, s')"
    then have "stamp (snd x) = stamp r \<and> rd_status (snd x) = rd_status r"
      by (auto simp: bindS_Inl dest!: tagged job simp: retS_def split: if_splits)
    then show "keeps (Z \<union> {stamp r}) (?h x) (\<lambda>_. {}) (\<lambda>_. {})"
      by (cases x) (simp, rule keeps_recovery, simp_all add: r rem_final_def)
  qed
  show ?thesis unfolding bridge_reschedule_def
    by (rule kept_then, rule keeps_require, rule kept_bind, rule keeps_service_get, rule kept_then, rule keeps_running_elsewhere,
        rule kept_bind, rule keeps_prepare, rule body, erule prepared_value)
qed

lemma keeps_bridge_cancel_row: "keeps X (bridge_cancel w i tr) (\<lambda>u. {stamp u}) (\<lambda>_. {})"
proof -
  have r: "stamp r \<in> Z \<union> {stamp r}" for r Z by simp
  show ?thesis unfolding bridge_cancel_def
  proof (rule kept_bind [OF keeps_service_get], intro kept_if)
    fix x :: reminder assume x: "rd_status x \<noteq> REM_CANCELLED" "rd_status x \<noteq> REM_TRIGGERED"
    show "keeps (X \<union> {stamp x}) (bindS (transition w x REM_PENDING_CANCEL None None tr) (\<lambda>pending. catchS
        (bindS (stop_job_of w pending) (\<lambda>_. transition w pending REM_CANCELLED None (Some None) tr))
        (recovery_failed w ''cancel'' REM_PENDING_CANCEL tr pending))) (\<lambda>u. {stamp u}) (\<lambda>_. {})"
    proof (rule kept_bind [OF keeps_transition [OF r]])
      fix u s s' assume "transition w x REM_PENDING_CANCEL None None tr s = (Inr u, s')"
      then have u: "rd_status u = REM_PENDING_CANCEL" by (simp add: transition_value)
      show "keeps (X \<union> {stamp x} \<union> {stamp u}) (catchS
          (bindS (stop_job_of w u) (\<lambda>_. transition w u REM_CANCELLED None (Some None) tr))
          (recovery_failed w ''cancel'' REM_PENDING_CANCEL tr u)) (\<lambda>u. {stamp u}) (\<lambda>_. {})"
        by (rule kept_or kept_then keeps_stop keeps_recovery keeps_transition r | simp add: u rem_final_def)+
    qed (use x in \<open>simp add: rem_final_def\<close>)
  qed (rule kept_ret kept_fail0 | simp)+
qed

lemmas keeps_bridge_cancel = kept_unit [OF keeps_bridge_cancel_row]

lemma keeps_save_cancel_failure: "keeps X (save_cancel_failure w i tr e) (\<lambda>_. {}) (\<lambda>_. {})"
  unfolding save_cancel_failure_def
  by (rule keeps_unless, rule kept_bind [OF keeps_on_rem [OF kept_rem_get]])
    (rule kept_if kept_then kept_unit [OF keeps_transition] rem_kept_steps | simp add: rem_final_def)+

lemma keeps_cancel_each: "keeps X (cancel_each w tr rs) (\<lambda>_. {}) (\<lambda>_. {})"
proof (induction rs)
  case (Cons r rs)
  show ?case
    unfolding cancel_each.simps
    by (rule kept_if kept_then kept_or Cons keeps_bridge_cancel keeps_save_cancel_failure rem_kept_steps)+
qed (simp add: kept_ret0)

lemma keeps_cancel_for_task: "keeps X (cancel_for_task w task tr) (\<lambda>_. {}) (\<lambda>_. {})"
  unfolding cancel_for_task_def
  by (rule kept_bind [OF keeps_on_rem [OF kept_rem_list_for_task]])
    (rule kept_then keeps_cancel_each kept_if rem_kept_steps)+

lemma keeps_give_job:
  assumes "stamp r \<in> X" "\<not> rem_final (rd_status r)"
  shows "keeps X (give_job w r) (\<lambda>_. {}) (\<lambda>_. {})"
  unfolding give_job_def
  by (rule kept_then keeps_ensure kept_unit [OF keeps_transition] rem_kept_steps | simp add: assms)+

lemma keeps_repair_triggered:
  assumes "stamp r \<in> X" "rd_status r = REM_TRIGGERED"
  shows "keeps X (repair_triggered w r found) (\<lambda>_. {}) (\<lambda>_. {})"
  unfolding repair_triggered_def
  by (rule kept_option kept_then kept_if keeps_create_job keeps_require keeps_find kept_unit [OF keeps_transition] rem_kept_steps
    | simp add: assms)+

lemma needs_job_open: "needs_job r found \<Longrightarrow> \<not> rem_final (rd_status r)"
  by (auto simp: needs_job_def recoverable_failed_def rem_final_def)

lemma keeps_repair:
  assumes "stamp r \<in> X"
  shows "keeps X (repair w r) (\<lambda>_. {}) (\<lambda>_. {})"
proof -
  have cancelled: "keeps X (case (found, rw_jobs w) of
        (Some j, Some js) \<Rightarrow>
          if jb_status j \<in> {J_CANCELLED, J_COMPLETED} then retS False
          else bindS (on_jobs js (\<lambda>e. cancel_job e (jb_id j))) (\<lambda>_. retS True)
      | _ \<Rightarrow> retS False) (\<lambda>_. {}) (\<lambda>_. {})" for found
    by (auto split: option.split intro!: kept_then rem_kept_steps)
  have active: "keeps X (repair_active w r found) (\<lambda>_. {}) (\<lambda>_. {})" for found
    unfolding repair_active_def
    using cancelled keeps_repair_triggered [OF assms]
    by (cases "rd_status r")
      (auto intro!: kept_if kept_then keeps_give_job assms rem_kept_steps keeps_bridge_reschedule keeps_bridge_cancel
        dest: needs_job_open)
  have job: "keeps X (case (rw_jobs w, job_ref r) of (Some js, Some i) \<Rightarrow> find_job js i | _ \<Rightarrow> retS None) (\<lambda>_. {}) (\<lambda>_. {})"
    by (auto split: option.split intro: keeps_find rem_kept_steps)
  show ?thesis unfolding repair_def
    by (rule kept_then kept_if active job keeps_bridge_cancel rem_kept_steps)+
qed

lemma repair_each_keeps:
  assumes "rem_keys (rm_store s)" "\<forall>r\<in>set rs. seen (rm_store s) (stamp r)" "repair_each w rs c s = (d, s')"
  shows "rem_keys (rm_store s') \<and> evolves (rm_store s) (rm_store s')"
  using assms
proof (induction rs arbitrary: c s)
  case (Cons r rs)
  obtain v t where run: "repair w r s = (v, t)" by (cases "repair w r s")
  note k = keptD [OF keeps_repair [of r "stamp ` set (r # rs)"] Cons.prems(1) _ run]
  from k Cons.prems(2) have t: "rem_keys (rm_store t)" "evolves (rm_store s) (rm_store t)" by simp_all
  have "\<forall>q\<in>set rs. seen (rm_store t) (stamp q)"
    using Cons.prems(2) seen_evolves [OF t(2)] by simp
  from Cons.IH [OF t(1) this] Cons.prems(3) run t(2) show ?case by (auto intro: evolves_trans)
qed simp

lemma marked: "\<exists>u. rm_store (snd (mark_store reason t)) = rm_store t\<lparr>rs_unobserved := u\<rparr>"
  by (auto simp: mark_store_def rem_mark_def)

lemma keeps_reconcile: "keeps X (reconcile w) (\<lambda>_. {}) (\<lambda>_. {})"
  unfolding reconcile_def
proof (rule kept_bind [OF keeps_on_rem [OF kept_rem_list_by_statuses]], rule keptI)
  fix rs s and v :: "exn + reconciliation" and s'
  assume s: "rem_keys (rm_store s)" "\<forall>k\<in>X \<union> stamp ` set rs. seen (rm_store s) k"
    and run: "(case repair_each w rs no_repairs s of (c, s') \<Rightarrow>
          (Inr c, (if rc_failed c \<noteq> 0 then snd (mark_store ''reconciliation_partial_failure'' s') else s')
             \<lparr>rm_reconciled := Some c\<rparr>)) = (v, s')"
  obtain c t where each: "repair_each w rs no_repairs s = (c, t)" by (cases "repair_each w rs no_repairs s")
  have "rem_keys (rm_store t) \<and> evolves (rm_store s) (rm_store t)"
    by (rule repair_each_keeps [OF s(1) _ each]) (use s(2) in simp)
  moreover have "rm_store s' = rm_store t \<or> (\<exists>u. rm_store s' = rm_store t\<lparr>rs_unobserved := u\<rparr>)"
  proof -
    obtain u where u: "rm_store (snd (mark_store ''reconciliation_partial_failure'' t)) = rm_store t\<lparr>rs_unobserved := u\<rparr>"
      using marked by blast
    have "rm_store s' = (if rc_failed c \<noteq> 0 then rm_store t\<lparr>rs_unobserved := u\<rparr> else rm_store t)"
      using run u by (auto simp: each)
    then show ?thesis by metis
  qed
  ultimately show "rem_keys (rm_store s') \<and> evolves (rm_store s) (rm_store s') \<and>
      (\<forall>k \<in> (case v of Inl e \<Rightarrow> {} | Inr u \<Rightarrow> {}). seen (rm_store s') k)"
    by (auto split: sum.split)
qed

section \<open>Runs\<close>

text \<open>The calls of the other parts of the program, and of the scheduler, in the order they are made.\<close>

datatype reminder_ask =
    Ask_Create workspace_key string datetime string string "dict option"
  | Ask_Reschedule string datetime string "int option" string "dict option"
  | Ask_Cancel string string
  | Ask_Cancel_Task string string
  | Ask_Reconcile
  | Ask_Execute dict job_run

definition no_answer :: "'a rem_op \<Rightarrow> rem_answer option rem_op" where
  "no_answer m = bindS m (\<lambda>_. retS None)"

fun ask :: "rem_world \<Rightarrow> reminder_ask \<Rightarrow> rem_answer option rem_op" where
  "ask w (Ask_Create key task at tz tr meta) = no_answer (bridge_create w key task at tz tr meta)"
| "ask w (Ask_Reschedule i at tz expected tr meta) = no_answer (bridge_reschedule w i at tz expected tr meta)"
| "ask w (Ask_Cancel i tr) = no_answer (bridge_cancel w i tr)"
| "ask w (Ask_Cancel_Task task tr) = no_answer (cancel_for_task w task tr)"
| "ask w Ask_Reconcile = no_answer (reconcile w)"
| "ask w (Ask_Execute payload run) = bindS (handler_execute w payload run) (\<lambda>a. retS (Some a))"

text \<open>The answers of the handler in a run, oldest first; a call that raises gives none.\<close>

fun rem_run :: "rem_world \<Rightarrow> reminder_ask list \<Rightarrow> rem_system \<Rightarrow> rem_answer list \<times> rem_system" where
  "rem_run w [] s = ([], s)"
| "rem_run w (q # qs) s =
     (case ask w q s of (v, s') \<Rightarrow>
        (case rem_run w qs s' of (as, t) \<Rightarrow> ((case v of Inr (Some a) \<Rightarrow> [a] | _ \<Rightarrow> []) @ as, t)))"

lemma keeps_ask: "keeps X (ask w q) (\<lambda>_. {}) (\<lambda>_. {})"
  by (cases q)
    (simp_all add: no_answer_def, (rule kept_then keeps_bridge_create keeps_bridge_reschedule keeps_bridge_cancel
      keeps_cancel_for_task keeps_reconcile keeps_handler kept_ret0)+)

lemma rem_run_keeps:
  "rem_keys (rm_store s) \<Longrightarrow> rem_run w qs s = (as, t) \<Longrightarrow> rem_keys (rm_store t) \<and> evolves (rm_store s) (rm_store t)"
proof (induction qs arbitrary: s as t)
  case (Cons q qs)
  obtain v s1 where run: "ask w q s = (v, s1)" by (cases "ask w q s")
  note k = keptD [OF keeps_ask [of "{}"] Cons.prems(1) _ run]
  obtain as' where rest: "rem_run w qs s1 = (as', t)"
    using Cons.prems(2) run by (auto split: prod.splits)
  from Cons.IH [OF k(1) rest] k(2) show ?case by (auto intro: evolves_trans)
qed simp

text \<open>What fires a reminder: an answer that tells of a trigger and does not repeat one.\<close>

definition fires :: "string \<Rightarrow> rem_answer \<Rightarrow> bool" where
  "fires i a = (an_reminder a = i \<and> \<not> an_idempotent a)"

definition final_in :: "rem_store \<Rightarrow> string \<Rightarrow> bool" where
  "final_in st i = (\<exists>x\<in>set (rs_reminders st). rd_id x = i \<and> rem_final (rd_status x))"

lemma final_evolves: "evolves st st' \<Longrightarrow> final_in st i \<Longrightarrow> final_in st' i"
  unfolding final_in_def evolves_def seen_def by (fastforce simp: later_than_def stamp_def)

lemma published_tables:
  "publish_reminder_event w m s = (v, s') \<Longrightarrow> rm_store s' = rm_store s"
  by (auto simp: publish_reminder_event_def rem_draw_def bindS_def retS_def failS_def split: bus_mode.splits)

lemma announced_tables: "announce_trigger w r c tr s = (v, s') \<Longrightarrow> same_tables (rm_store s) (rm_store s')"
  by (auto simp: announce_trigger_def catchS_def bindS_def mark_store_def clear_store_def rem_mark_def rem_clear_def
      same_tables_def split: prod.splits sum.splits dest!: published_tables)

text \<open>Only a trigger that was written fires, and it finds the reminder open and leaves it triggered.\<close>

lemma trigger_fires:
  assumes keys: "rem_keys s" and run: "rem_trigger zone_ok san env i t tr s = (Inr (r, c, False), s')"
  shows "rd_id r = i \<and> \<not> final_in s i \<and> final_in s' i"
  using run
proof (cases rule: trigger_cases)
  case (written row q)
  note row = row_of_Some [OF written(1)]
  have q: "rd_id q = i" using stamp_decoded [OF written(2)] row by (simp add: stamp_def)
  show ?thesis using written(5)
  proof (cases rule: store_trigger_cases)
    case w: (written x r' o')
    have "rd_id r = i" using stamp_decoded [OF w(5)] w(4) row by (simp add: stamp_def triggered_reminder_def)
    moreover have "\<not> final_in s i"
    proof
      assume "final_in s i"
      then obtain y where y: "y \<in> set (rs_reminders s)" "rd_id y = i" "rem_final (rd_status y)" by (auto simp: final_in_def)
      have "y = row" by (rule keyed_unique [of rd_id "rs_reminders s"]) (use y row keys in \<open>auto simp: rem_keys_def\<close>)
      with y(3) written(3) show False by (auto simp: rem_final_def)
    qed
    moreover have "triggered_reminder (re_now env) tr row \<in> set (rs_reminders s')"
      using row q by (auto simp: w(3) set_update_where image_iff)
    then have "final_in s' i" unfolding final_in_def
      by (rule bexI [rotated]) (use row in \<open>simp add: rem_final_def triggered_reminder_def\<close>)
    ultimately show ?thesis by simp
  qed blast
qed blast

lemma same_final: "same_tables s s' \<Longrightarrow> final_in s' i = final_in s i"
  by (simp add: same_tables_def final_in_def)

lemma attempt_cases:
  assumes "attempt_trigger w i at run s = (Inr v, s')"
  obtains (here) x where "v = Inr x" "on_rem w (\<lambda>env. rem_trigger (rw_zone_ok w) (rw_san w) env i at (jr_trace run)) s = (Inr x, s')"
  | (there) a where "v = Inl a" "an_idempotent a"
  using assms
  by (auto simp: attempt_trigger_def catchS_Inr bindS_Inr retS_def not_triggered_def trigger_failed_def failS_def
      split: if_splits)

lemma execute_fires:
  assumes keys: "rem_keys (rm_store s)" and run: "handler_execute w payload run s = (Inr a, s')" and a: "fires i a"
  shows "\<not> final_in (rm_store s) i \<and> final_in (rm_store s') i"
proof -
  from run obtain d s1 v s2 where d: "rw_parse w (payload_text w ''scheduled_at'' payload) = Inr d"
    and att: "attempt_trigger w (payload_text w ''reminder_id'' payload) (utc_instant d) run s = (Inr v, s2)"
    and rest: "(case v of Inl a \<Rightarrow> retS a | Inr (r, c, again) \<Rightarrow>
             bindS (announce_trigger w r c (jr_trace run)) (\<lambda>_.
             retS \<lparr>an_reminder = rd_id r, an_occurrence = Some (oc_id c), an_status = rem_status_value (rd_status r),
                   an_idempotent = again\<rparr>)) s2 = (Inr a, s')"
    by (auto simp: handler_execute_def Let_def bindS_Inr rem_lift_def failS_def split: if_splits)
  show ?thesis using att
  proof (cases rule: attempt_cases)
    case (here x)
    then obtain r c again where x: "x = (r, c, again)" by (cases x) auto
    from rest here(1) x a obtain u where an: "announce_trigger w r c (jr_trace run) s2 = (u, s')"
      and r: "again = False" "rd_id r = i"
      by (auto simp: bindS_Inr retS_def fires_def)
    from here(2) x r(1) obtain st where st:
      "rem_trigger (rw_zone_ok w) (rw_san w) (rw_env w (rm_calls s)) (payload_text w ''reminder_id'' payload) (utc_instant d)
         (jr_trace run) (rm_store s) = (Inr (r, c, False), st)" "rm_store s2 = st"
      by (auto simp: on_rem_run)
    from trigger_fires [OF keys st(1)] st(2) r(2) same_final [OF announced_tables [OF an]] show ?thesis by simp
  next
    case (there b)
    with rest a show ?thesis by (auto simp: fires_def retS_def)
  qed
qed

lemma run_fires:
  "rem_keys (rm_store s) \<Longrightarrow> rem_run w qs s = (as, t) \<Longrightarrow>
   length (filter (fires i) as) \<le> (if final_in (rm_store s) i then 0 else 1)"
proof (induction qs arbitrary: s as t)
  case (Cons q qs)
  obtain v s1 where run: "ask w q s = (v, s1)" by (cases "ask w q s")
  note k = keptD [OF keeps_ask [of "{}"] Cons.prems(1) _ run]
  from k have s1: "rem_keys (rm_store s1)" "evolves (rm_store s) (rm_store s1)" by simp_all
  obtain as' where rest: "rem_run w qs s1 = (as', t)" and as: "as = (case v of Inr (Some a) \<Rightarrow> [a] | _ \<Rightarrow> []) @ as'"
    using Cons.prems(2) run by (auto split: prod.splits)
  note IH = Cons.IH [OF s1(1) rest]
  show ?case
  proof (cases "\<exists>a. v = Inr (Some a) \<and> fires i a")
    case True
    then obtain a where a: "v = Inr (Some a)" "fires i a" by blast
    from run a(1) obtain payload jr where "handler_execute w payload jr s = (Inr a, s1)"
      by (cases q) (auto simp: no_answer_def bindS_Inr retS_def)
    from execute_fires [OF Cons.prems(1) this a(2)] IH show ?thesis by (simp add: as a)
  next
    case False
    then have "filter (fires i) as = filter (fires i) as'" by (auto simp: as split: sum.split option.split)
    with IH show ?thesis using final_evolves [OF s1(2), of i] by (auto split: if_splits)
  qed
qed simp

section \<open>The end of a task\<close>

definition rem_ids :: "rem_store \<Rightarrow> string list" where
  "rem_ids st = map rd_id (rs_reminders st)"

lemma update_ids: "rem_update env c n s = (v, s') \<Longrightarrow> rem_ids s' = rem_ids s"
  by (auto simp: rem_update_def update_where_def rem_ids_def reminder_values_def reminder_row_def rem_error_def rem_done_def Let_def
      split: if_splits option.splits sum.splits)

lemma get_same: "rem_get zone_ok san env i s = (v, s') \<Longrightarrow> same_tables s s'"
  by (auto simp: rem_get_def rem_error_def rem_read_def rem_done_def same_tables_def split: option.splits sum.splits)

lemma list_same: "rem_list zone_ok san env hit s = (v, s') \<Longrightarrow> same_tables s s'"
  by (auto simp: rem_list_def rem_error_def rem_read_def rem_done_def same_tables_def split: option.splits sum.splits)

abbreviation stays :: "string list \<Rightarrow> (rem_system \<Rightarrow> ('e + 'a) \<times> rem_system) \<Rightarrow> bool" where
  "stays ids \<equiv> keepsS (\<lambda>s. rem_ids (rm_store s) = ids)"

lemma stays_on_rem: "(\<And>env s v s'. m env s = (v, s') \<Longrightarrow> rem_ids s' = rem_ids s) \<Longrightarrow> stays ids (on_rem w m)"
  by (auto simp: keepsS_def on_rem_def split: prod.split)

lemma stays_quiet:
  "stays ids (rem_draw w)" "stays ids (on_jobs js jm)" "stays ids (mark_store reason)" "stays ids clear_store"
  by (auto simp: keepsS_def rem_draw_def on_jobs_def mark_store_def clear_store_def rem_mark_def rem_clear_def rem_ids_def
      split: prod.split)

lemma stays_publish: "stays ids (rem_publish w ty r)"
proof -
  have "stays ids (publish_reminder_event w m)" for m
    by (auto simp: keepsS_def rem_ids_def dest!: published_tables intro: prod.collapse)
      (metis prod.collapse published_tables)
  then have "stays ids (catchS (bindS (publish_reminder_event w (reminder_message ty [] (rd_trace r) r)) (\<lambda>_. clear_store))
       (\<lambda>_. mark_store ''event_publish_failed''))"
    by (intro wf_rules stays_quiet)
  then show ?thesis by (auto simp: keepsS_def rem_publish_def)
qed

lemma stays_get: "stays ids (service_get w i tr)"
  unfolding service_get_def rem_raise_def
  by (intro wf_rules stays_on_rem) (auto dest!: get_same simp: same_tables_def rem_ids_def)

lemma stays_transition: "stays ids (transition w r st job f tr)"
  unfolding transition_def rem_raise_def
  by (intro wf_rules stays_on_rem stays_quiet stays_publish) (erule update_ids)

lemma stays_unless: "stays ids m \<Longrightarrow> stays ids (unless_raised m)"
  unfolding unless_raised_def by (intro wf_rules)

lemma stays_cancel: "stays ids (bridge_cancel w i tr)"
proof -
  have stop: "stays ids (stop_job_of w r)" for r
    unfolding stop_job_of_def stop_job_def find_job_def
    by (auto split: option.split intro!: wf_rules stays_quiet)
  show ?thesis unfolding bridge_cancel_def recovery_failed_def Let_def
    by (intro wf_rules stays_get stays_transition stop stays_unless)
qed

lemma stays_cancel_each: "stays ids (cancel_each w tr rs)"
proof (induction rs)
  case (Cons r rs)
  have save: "stays ids (save_cancel_failure w i tr e)" for i e
    unfolding save_cancel_failure_def
    by (intro stays_unless wf_rules stays_transition stays_on_rem) (auto dest!: get_same simp: same_tables_def rem_ids_def)
  show ?case unfolding cancel_each.simps by (intro wf_rules Cons stays_cancel save)
qed (simp add: wf_rules)

lemma cancelled_value:
  assumes "bridge_cancel w i tr s = (Inr u, s')"
  shows "rd_status u = REM_CANCELLED \<and> rd_id u = i"
proof -
  have got: "rd_id r = i" if "service_get w i tr s = (Inr r, s')" for r s s'
    using that
    by (auto simp: service_get_def catchS_Inr rem_raise_def failS_def on_rem_run rem_get_def rem_error_def rem_read_def
        rem_done_def row_reminder_def validate_reminder_def split: option.splits sum.splits if_splits dest!: row_of_Some)
  show ?thesis using assms
    by (auto simp: bridge_cancel_def bindS_Inr catchS_Inr retS_def failS_def recovery_failed_def Let_def
        split: if_splits dest!: got transition_value)
qed

lemma cancel_final:
  assumes "rem_keys (rm_store s)" "bridge_cancel w i tr s = (Inr u, s')"
  shows "final_in (rm_store s') i"
proof -
  have "seen (rm_store s') (stamp u)"
    using keptD(3) [OF keeps_bridge_cancel_row [of "{}"] assms(1) _ assms(2), of u "stamp u"] by simp
  with cancelled_value [OF assms(2)] show ?thesis
    by (auto simp: seen_def later_than_def stamp_def final_in_def rem_final_def)
qed

lemma cancel_each_final:
  assumes "rem_keys (rm_store s)" "\<forall>r\<in>set rs. seen (rm_store s) (stamp r)" "cancel_each w tr rs s = (Inr [], s')"
  shows "\<forall>r\<in>set rs. final_in (rm_store s') (rd_id r)"
  using assms
proof (induction rs arbitrary: s)
  case (Cons r rs)
  show ?case
  proof (cases "rd_status r \<in> {REM_TRIGGERED, REM_CANCELLED}")
    case True
    with Cons.prems(3) have rest: "cancel_each w tr rs s = (Inr [], s')" by simp
    from True Cons.prems(2) have "final_in (rm_store s) (rd_id r)"
      by (auto simp: seen_def later_than_def stamp_def final_in_def rem_final_def)
    moreover have "evolves (rm_store s) (rm_store s')"
      using keptD(2) [OF keeps_cancel_each [of "{}"] Cons.prems(1) _ rest] by simp
    ultimately show ?thesis using Cons.IH [OF Cons.prems(1) _ rest] Cons.prems(2) final_evolves by auto
  next
    case False
    with Cons.prems(3) obtain u s1 where c: "bridge_cancel w (rd_id r) tr s = (Inr u, s1)"
      and rest: "cancel_each w tr rs s1 = (Inr [], s')"
      by (auto simp: bindS_Inr catchS_Inr retS_def)
    have s1: "rem_keys (rm_store s1)" "evolves (rm_store s) (rm_store s1)"
      using keptD(1,2) [OF keeps_bridge_cancel [of "{}"] Cons.prems(1) _ c] by simp_all
    have "evolves (rm_store s1) (rm_store s')"
      using keptD(2) [OF keeps_cancel_each [of "{}"] s1(1) _ rest] by simp
    moreover have "\<forall>r\<in>set rs. seen (rm_store s1) (stamp r)" using Cons.prems(2) seen_evolves [OF s1(2)] by simp
    ultimately show ?thesis
      using Cons.IH [OF s1(1) _ rest] cancel_final [OF Cons.prems(1) c] final_evolves by auto
  qed
qed simp

lemma listed:
  assumes "rem_list zone_ok san env hit s = (Inr rs, s')"
  shows "\<forall>y\<in>set (rs_reminders s). hit y \<longrightarrow> (\<exists>r\<in>set rs. stamp r = stamp y)"
proof (intro ballI impI)
  fix y assume y: "y \<in> set (rs_reminders s)" "hit y"
  define xs where "xs = sort_key (\<lambda>r. (isoformat (rd_created r), rd_id r)) (filter hit (rs_reminders s))"
  have "set xs = set (filter hit (rs_reminders s))" by (simp add: xs_def)
  moreover have "map (row_reminder zone_ok san) xs = map Inr rs"
    using assms unfolding rem_list_def xs_def [symmetric]
    by (auto simp: rem_error_def rem_read_def rem_done_def decode_rows_Inr split: option.splits sum.splits)
  ultimately have "row_reminder zone_ok san y \<in> set (map Inr rs)"
    using y by (metis (mono_tags, lifting) filter_set image_eqI list.set_map mem_Collect_eq set_filter)
  then show "\<exists>r\<in>set rs. stamp r = stamp y" by (auto dest: stamp_decoded)
qed

lemma cancel_task_final:
  assumes keys: "rem_keys (rm_store s)" and run: "cancel_for_task w task tr s = (Inr (), s')"
    and x: "x \<in> set (rs_reminders (rm_store s'))" "rd_task x = task"
  shows "rem_final (rd_status x)"
proof -
  from run obtain rs s1 where l: "on_rem w (\<lambda>e. rem_list_for_task (rw_zone_ok w) (rw_san w) e task) s = (Inr rs, s1)"
    and each: "cancel_each w tr rs s1 = (Inr [], s')"
    by (auto simp: cancel_for_task_def bindS_Inr retS_def failS_def split: if_splits)
  from l have same: "same_tables (rm_store s) (rm_store s1)"
    by (auto simp: on_rem_run rem_list_for_task_def dest: list_same)
  have seen1: "\<forall>r\<in>set rs. seen (rm_store s1) (stamp r)" and keys1: "rem_keys (rm_store s1)"
    using keptD(1,3) [OF keeps_on_rem [OF kept_rem_list_for_task, of "{}"] keys _ l] by simp_all
  from keptD(1,2) [OF keeps_cancel_each [of "{}"] keys1 _ each]
  have keys': "rem_keys (rm_store s')" and ev: "evolves (rm_store s1) (rm_store s')" by simp_all
  have "rem_ids (rm_store s') = rem_ids (rm_store s1)"
    using keepsSD [OF stays_cancel_each refl each] by simp
  with x(1) obtain y where y: "y \<in> set (rs_reminders (rm_store s1))" "rd_id y = rd_id x"
    unfolding rem_ids_def by (metis image_iff list.set_map)
  from ev y(1) obtain z where z: "z \<in> set (rs_reminders (rm_store s'))" "later_than (stamp y) z"
    by (auto simp: evolves_def seen_def)
  have "z = x" using keyed_unique [of rd_id _ z x] keys' z x(1) y(2) by (auto simp: rem_keys_def later_than_def stamp_def)
  with z(2) x(2) have "rd_task y = task" by (simp add: later_than_def stamp_def)
  with l y(1) same obtain r where "r \<in> set rs" "rd_id r = rd_id y"
    by (auto simp: on_rem_run rem_list_for_task_def same_tables_def stamp_def dest!: listed)
  with cancel_each_final [OF keys1 seen1 each] y(2) have "final_in (rm_store s') (rd_id x)" by auto
  then obtain q where q: "q \<in> set (rs_reminders (rm_store s'))" "rd_id q = rd_id x" "rem_final (rd_status q)"
    by (auto simp: final_in_def)
  have "q = x" by (rule keyed_unique [of rd_id "rs_reminders (rm_store s')"]) (use q x(1) keys' in \<open>auto simp: rem_keys_def\<close>)
  with q(3) show ?thesis by simp
qed

end
