(* ===== verification/Reminder_Jobs.thy ===== *)
theory Reminder_Jobs
  imports Reminder_Finality
begin

text \<open>
  A reminder and its job: what the scheduler runtime keeps after a request was accepted, what the
  bridge has written when a creation returns, and what executing the job then does.
\<close>

section \<open>The job of a request\<close>

lemma store_save_row: "jb_last_error j = None \<Longrightarrow> store_save io j s = (Inr u, s') \<Longrightarrow> row_of jb_id (jb_id j) (ss_jobs s') = Some j"
  by (auto simp: store_save_def job_values_def on_open_def run_sql_def split: if_splits option.splits)

lemma three_calls:
  "bindS a (\<lambda>_. bindS b (\<lambda>_. bindS c (\<lambda>_. retS j))) x = (Inr i, x') \<Longrightarrow>
   \<exists>u v w x1 x2. i = j \<and> a x = (Inr u, x1) \<and> b x1 = (Inr v, x2) \<and> c x2 = (Inr w, x')"
  by (auto simp: bindS_Inr retS_def)

lemma scheduled_parts:
  assumes run: "schedule e q x = (Inr j, x')"
  obtains next_at x1 x2 u where
    "(if tg_type (rq_trigger q) \<noteq> MANUAL then compute_next (rq_trigger q) (se_now e) else Inr (tg_next (rq_trigger q))) = Inr next_at"
    "j = new_job e q ((rq_trigger q)\<lparr>tg_next := next_at\<rparr>)" "change_registry (reg_register j) x = (Inr (), x1)"
    "(if persistent e
       then (case on_store (store_save (se_write_io e) j) x1 of
               (Inl e, (rt, st)) \<Rightarrow> (Inl e, (rt\<lparr>rt_registry := pop (jb_id j) (rt_registry rt)\<rparr>, st))
             | (Inr u, y) \<Rightarrow> (Inr u, y))
       else (Inr (), x1)) = (Inr u, x2)"
    "publish_event e ''scheduler.created'' (jb_id j) x2 = (Inr (), x')"
proof (cases "if tg_type (rq_trigger q) \<noteq> MANUAL then compute_next (rq_trigger q) (se_now e) else Inr (tg_next (rq_trigger q))")
  case (Inl b)
  have "schedule e q x = (Inr j, x') \<Longrightarrow> False"
    unfolding schedule_def Inl by (auto simp: bindS_run read_runtime_def failS_def split: if_splits)
  with run show thesis by blast
next
  case (Inr next_at)
  define k where "k = new_job e q ((rq_trigger q)\<lparr>tg_next := next_at\<rparr>)"
  have "(bindS (change_registry (reg_register k)) (\<lambda>_.
             bindS (\<lambda>x. if persistent e
                     then (case on_store (store_save (se_write_io e) k) x of
                             (Inl e, (rt, st)) \<Rightarrow>
                               (Inl e, (rt\<lparr>rt_registry := pop (jb_id k) (rt_registry rt)\<rparr>, st))
                           | (Inr u, y) \<Rightarrow> (Inr u, y))
                     else (Inr (), x)) (\<lambda>_.
             bindS (publish_event e ''scheduler.created'' (jb_id k)) (\<lambda>_. retS k)))) x = (Inr j, x')"
    using run unfolding schedule_def Inr Let_def k_def [symmetric] sum.case
    by (simp only: bindS_run [of "read_runtime f" for f] read_runtime_def prod.case sum.case failS_def split: if_splits) simp_all
  from three_calls [OF this] that [OF Inr] show thesis unfolding k_def by fastforce
qed

lemma scheduled_job:
  assumes "schedule e q x = (Inr j, x')"
  shows "map_of (rt_registry (fst x')) (jb_id j) = Some j \<and> jb_name j = rq_name q \<and> jb_payload j = rq_payload q \<and>
    jb_status j = J_ACTIVE \<and> (tg_type (rq_trigger q) = ONE_SHOT \<longrightarrow> tg_next (jb_trigger j) = tg_run_at (rq_trigger q)) \<and>
    (persistent e \<longrightarrow> row_of jb_id (jb_id j) (ss_jobs (snd x')) = Some j)"
proof -
  from assms obtain next_at x1 x2 u where
    nx: "(if tg_type (rq_trigger q) \<noteq> MANUAL then compute_next (rq_trigger q) (se_now e) else Inr (tg_next (rq_trigger q))) = Inr next_at"
    and j: "j = new_job e q ((rq_trigger q)\<lparr>tg_next := next_at\<rparr>)"
    and reg: "change_registry (reg_register j) x = (Inr (), x1)"
    and save: "(if persistent e
       then (case on_store (store_save (se_write_io e) j) x1 of
               (Inl e, (rt, st)) \<Rightarrow> (Inl e, (rt\<lparr>rt_registry := pop (jb_id j) (rt_registry rt)\<rparr>, st))
             | (Inr u, y) \<Rightarrow> (Inr u, y))
       else (Inr (), x1)) = (Inr u, x2)"
    and pub: "publish_event e ''scheduler.created'' (jb_id j) x2 = (Inr (), x')"
    by (rule scheduled_parts)
  have jf: "jb_last_error j = None" "jb_name j = rq_name q" "jb_payload j = rq_payload q" "jb_status j = J_ACTIVE"
    "tg_next (jb_trigger j) = next_at" by (simp_all add: j new_job_def)
  from reg have "map_of (rt_registry (fst x1)) (jb_id j) = Some j"
    by (auto simp: change_registry_def reg_register_def split: prod.splits if_splits)
  moreover from save have "fst x2 = fst x1" "persistent e \<longrightarrow> row_of jb_id (jb_id j) (ss_jobs (snd x2)) = Some j"
    by (auto simp: on_store_def split: if_splits prod.splits sum.splits dest!: store_save_row [OF jf(1)])
  moreover from pub have "rt_registry (fst x') = rt_registry (fst x2)" "snd x' = snd x2"
    by (auto simp: publish_event_def change_runtime_def split: bus_mode.split)
  moreover from nx have "tg_type (rq_trigger q) = ONE_SHOT \<longrightarrow> next_at = tg_run_at (rq_trigger q)"
    by (auto simp: compute_next_def)
  ultimately show ?thesis using jf by simp
qed

lemma created_job:
  assumes "create_job w r s = (Inr j, s')"
  shows "map_of (rt_registry (fst (rm_jobs s'))) (jb_id j) = Some j \<and> jb_payload j = rem_payload r \<and> jb_status j = J_ACTIVE \<and>
    tg_next (jb_trigger j) = Some (rd_at r) \<and> jb_name j = ''reminder:'' @ rd_id r \<and> rm_store s' = rm_store s"
    "rw_jobs w = Some js \<Longrightarrow> persistent (js (rm_calls s)) \<Longrightarrow> row_of jb_id (jb_id j) (ss_jobs (snd (rm_jobs s'))) = Some j"
proof -
  from assms obtain js' x' where js': "rw_jobs w = Some js'" and run: "schedule (js' (rm_calls s)) (rem_request r) (rm_jobs s) = (Inr j, x')"
    and s': "s' = s\<lparr>rm_jobs := x', rm_calls := Suc (rm_calls s)\<rparr>"
    by (auto simp: create_job_def require_scheduler_def bindS_Inr failS_def retS_def on_jobs_def split: option.splits if_splits prod.splits)
  have q: "tg_type (rq_trigger (rem_request r)) = ONE_SHOT" "tg_run_at (rq_trigger (rem_request r)) = Some (rd_at r)"
    "rq_payload (rem_request r) = rem_payload r" "rq_name (rem_request r) = ''reminder:'' @ rd_id r"
    by (simp_all add: rem_request_def)
  from scheduled_job [OF run] q
  show "map_of (rt_registry (fst (rm_jobs s'))) (jb_id j) = Some j \<and> jb_payload j = rem_payload r \<and> jb_status j = J_ACTIVE \<and>
    tg_next (jb_trigger j) = Some (rd_at r) \<and> jb_name j = ''reminder:'' @ rd_id r \<and> rm_store s' = rm_store s"
    by (simp add: s')
  from scheduled_job [OF run] js'
  show "rw_jobs w = Some js \<Longrightarrow> persistent (js (rm_calls s)) \<Longrightarrow> row_of jb_id (jb_id j) (ss_jobs (snd (rm_jobs s'))) = Some j"
    by (simp add: s')
qed

section \<open>What a transition writes\<close>

lemma mark_frame:
  "mark_store reason s = (v, s') \<Longrightarrow> same_tables (rm_store s) (rm_store s') \<and> rm_jobs s' = rm_jobs s"
  "clear_store s = (u, s') \<Longrightarrow> same_tables (rm_store s) (rm_store s') \<and> rm_jobs s' = rm_jobs s"
  by (auto simp: mark_store_def clear_store_def rem_mark_def rem_clear_def same_tables_def)

lemma publish_event_frame:
  "publish_reminder_event w m s = (v, s') \<Longrightarrow> rm_store s' = rm_store s \<and> rm_jobs s' = rm_jobs s"
  by (auto simp: publish_reminder_event_def rem_draw_def bindS_def retS_def failS_def split: bus_mode.splits)

lemma rem_publish_frame:
  "rem_publish w ty r s = (v, s') \<Longrightarrow> same_tables (rm_store s) (rm_store s') \<and> rm_jobs s' = rm_jobs s"
  by (auto simp: rem_publish_def catchS_def bindS_def split: if_splits prod.splits sum.splits
      dest!: publish_event_frame mark_frame) (simp_all add: same_tables_def)

lemma updated_row:
  assumes keys: "rem_keys s" and run: "rem_update e c n s = (Inr u, s')"
  shows "u = c\<lparr>rd_revision := n + 1, rd_updated := re_now e\<rparr> \<and> row_of rd_id (rd_id c) (rs_reminders s') = Some (reminder_row u) \<and>
    rs_occurrences s' = rs_occurrences s"
proof -
  define hits where "hits = at_revision c n"
  define v where "v = next_revision e c n"
  have "u = v \<and> rowcount hits (rs_reminders s) = 1 \<and>
      s' = s\<lparr>rs_reminders := update_where hits (\<lambda>_. reminder_row v) (rs_reminders s), rs_last_error := None\<rparr>"
    using run
  proof (cases rule: update_cases)
    case written
    from written(1) have "u = v" unfolding v_def by (rule sum.inject(2) [THEN iffD1])
    with written(2,3) show ?thesis unfolding v_def hits_def by blast
  next
    case refused
    from refused(1) show ?thesis by (rule Inr_not_Inl [THEN notE, rotated])
  qed
  then have u: "u = v" and one: "rowcount hits (rs_reminders s) = 1"
    and s': "s' = s\<lparr>rs_reminders := update_where hits (\<lambda>_. reminder_row v) (rs_reminders s), rs_last_error := None\<rparr>"
    by blast+
  have keyed: "keyed rd_id (rs_reminders s)" using keys by (simp add: rem_keys_def)
  have vid: "rd_id (reminder_row v) = rd_id c" by (simp add: v_def reminder_row_def)
  have count: "rowcount hits (rs_reminders s) =
      (case row_of rd_id (rd_id c) (rs_reminders s) of None \<Rightarrow> 0 | Some r \<Rightarrow> if hits r then 1 else 0)"
    by (rule rowcount_keyed [OF keyed]) (simp add: hits_def)
  have some: "(case row_of rd_id (rd_id c) (rs_reminders s) of None \<Rightarrow> 0 | Some r \<Rightarrow> if hits r then 1 else 0) = (1::nat)"
    by (rule trans [OF count [symmetric] one])
  obtain r where r: "row_of rd_id (rd_id c) (rs_reminders s) = Some r" "hits r"
  proof (cases "row_of rd_id (rd_id c) (rs_reminders s)")
    case (Some r)
    with some that show thesis by (cases "hits r") simp_all
  qed (use some in simp)
  from r have "row_of rd_id (rd_id c) (update_where hits (\<lambda>_. reminder_row v) (rs_reminders s)) = Some (reminder_row v)"
    by (subst row_of_update_where) (auto simp: hits_def vid)
  with u s' show ?thesis by (simp add: v_def)
qed

lemma transition_result:
  assumes keys: "rem_keys (rm_store s)" and run: "transition w r st job f tr s = (Inr u, s')"
  shows "\<exists>now now'. u = (transition_of st job f tr now r)\<lparr>rd_revision := rd_revision r + 1, rd_updated := now'\<rparr> \<and>
    row_of rd_id (rd_id r) (rs_reminders (rm_store s')) = Some (reminder_row u) \<and>
    rs_occurrences (rm_store s') = rs_occurrences (rm_store s) \<and> rm_jobs s' = rm_jobs s"
proof -
  define now where "now = re_now (rw_env w (rm_calls s))"
  define env where "env = rw_env w (Suc (rm_calls s))"
  from run obtain st1 where
    up: "rem_update env (transition_of st job f tr now r) (rd_revision r) (rm_store s) = (Inr u, st1)"
    and pub: "(case transition_event st of None \<Rightarrow> retS () | Some ty \<Rightarrow> rem_publish w ty u)
      (s\<lparr>rm_store := st1, rm_calls := Suc (Suc (rm_calls s))\<rparr>) = (Inr (), s')"
    unfolding now_def env_def by (auto simp: transition_def bindS_Inr catchS_Inr rem_raise_def failS_def on_rem_run rem_draw_def retS_def)
  have "same_tables st1 (rm_store s') \<and> rm_jobs s' = rm_jobs s"
    using pub by (cases "transition_event st") (auto simp: retS_def dest!: rem_publish_frame)
  moreover have "rd_id (transition_of st job f tr now r) = rd_id r" by (simp add: transition_of_def)
  moreover note updated_row [OF keys up]
  ultimately show ?thesis by (auto simp: same_tables_def)
qed

section \<open>Executing the job\<close>

definition no_such_occurrence :: "string \<Rightarrow> reminder \<Rightarrow> occurrence list \<Rightarrow> bool" where
  "no_such_occurrence i r occs =
    (\<not> list_ex (\<lambda>x. oc_id x = i \<or> oc_key x = occ_key (rd_id r) (rd_at r) \<or> oc_reminder x = rd_id r \<and> oc_at x = rd_at r) occs)"

lemma payload_texts:
  "payload_text w ''reminder_id'' (rem_payload r) = rd_id r"
  "payload_text w ''scheduled_at'' (rem_payload r) = isoformat (rd_at r)"
  by (simp_all add: payload_text_def rem_payload_def)

lemma isoformat_nonempty [simp]: "isoformat t \<noteq> []"
  by (simp add: isoformat_def)

text \<open>A row without a failure is read as it is.\<close>

lemma read_row: "reminder_ok zone_ok san r \<Longrightarrow> rd_failure r = None \<Longrightarrow> row_reminder zone_ok san r = Inr r"
  by (cases r) (simp add: row_reminder_def validate_reminder_def)

lemma triggered_ok: "reminder_ok zone_ok san r \<Longrightarrow> row_reminder zone_ok san (triggered_reminder now tr r) = Inr (triggered_reminder now tr r)"
  by (rule read_row) (simp_all add: reminder_ok_def triggered_reminder_def)

definition fresh_occurrence :: "rem_env \<Rightarrow> reminder \<Rightarrow> string \<Rightarrow> occurrence" where
  "fresh_occurrence env r tr =
    triggered_occurrence (re_now env) tr (new_occurrence env OCC_PROCESSING r (rd_at r) tr None)"

lemma first_trigger:
  assumes r: "row_of rd_id (rd_id r) (rs_reminders s) = Some r" "reminder_ok zone_ok san r" "rd_failure r = None"
      "rd_status r = REM_SCHEDULED"
    and env: "re_io env = None" "no_such_occurrence (''occ_'' @ re_uuid env) r (rs_occurrences s)"
  shows "\<exists>s'. rem_trigger zone_ok san env (rd_id r) (rd_at r) tr s =
      (Inr (triggered_reminder (re_now env) tr r, fresh_occurrence env r tr, False), s') \<and>
    row_of rd_id (rd_id r) (rs_reminders s') = Some (triggered_reminder (re_now env) tr r) \<and>
    row_of oc_key (occ_key (rd_id r) (rd_at r)) (rs_occurrences s') = Some (fresh_occurrence env r tr)"
proof -
  define c where "c = new_occurrence env OCC_PROCESSING r (rd_at r) tr None"
  define key where "key = occ_key (rd_id r) (rd_at r)"
  have cf: "oc_id c = ''occ_'' @ re_uuid env" "oc_key c = key" "oc_reminder c = rd_id r" "oc_at c = rd_at r"
    "oc_status c = OCC_PROCESSING" "oc_attempt c = 1" by (simp_all add: c_def key_def new_occurrence_def)
  have ins: "insert_occurrence c (rs_occurrences s) = rs_occurrences s @ [c]"
    using env(2) by (simp add: insert_occurrence_def no_such_occurrence_def cf key_def)
  have none: "row_of oc_key key (rs_occurrences s) = None"
    using env(2) by (auto simp: no_such_occurrence_def list_ex_iff row_of_None key_def)
  have fo: "fresh_occurrence env r tr = triggered_occurrence (re_now env) tr c" by (simp add: fresh_occurrence_def c_def)
  have rc: "row_occurrence san (triggered_occurrence (re_now env) tr c) = Inr (triggered_occurrence (re_now env) tr c)"
    by (simp add: row_occurrence_def validate_occurrence_def triggered_occurrence_def cf)
  have key': "oc_key (triggered_occurrence (re_now env) tr c) = key" by (simp add: triggered_occurrence_def cf)
  have id': "rd_id (triggered_reminder (re_now env) tr r) = rd_id r" by (simp add: triggered_reminder_def)
  have "store_trigger zone_ok san env r r (rd_at r) tr s =
      (Inr (triggered_reminder (re_now env) tr r, fresh_occurrence env r tr, False),
       s\<lparr>rs_occurrences := update_where (\<lambda>x. oc_key x = key) (\<lambda>_. triggered_occurrence (re_now env) tr c) (rs_occurrences s @ [c]),
         rs_reminders := update_where (\<lambda>x. rd_id x = rd_id r) (\<lambda>_. triggered_reminder (re_now env) tr r) (rs_reminders s),
         rs_last_error := None\<rparr>)"
    by (simp add: store_trigger_def Let_def c_def [symmetric] key_def [symmetric] ins none cf rc triggered_ok r(2) rem_done_def fo)
  moreover have "rem_trigger zone_ok san env (rd_id r) (rd_at r) tr s = store_trigger zone_ok san env r r (rd_at r) tr s"
    using r env(1) by (simp add: rem_trigger_def read_row)
  moreover have "row_of rd_id (rd_id r) (update_where (\<lambda>x. rd_id x = rd_id r) (\<lambda>_. triggered_reminder (re_now env) tr r) (rs_reminders s)) =
      Some (triggered_reminder (re_now env) tr r)"
    using r(1) by (subst row_of_replace) (simp_all add: id')
  moreover have "row_of oc_key key (update_where (\<lambda>x. oc_key x = key) (\<lambda>_. triggered_occurrence (re_now env) tr c) (rs_occurrences s @ [c])) =
      Some (triggered_occurrence (re_now env) tr c)"
    using none cf(2) by (subst row_of_replace) (simp_all add: key')
  ultimately show ?thesis by (simp add: fo key_def)
qed

lemma again_trigger:
  assumes r: "row_of rd_id (rd_id r) (rs_reminders s) = Some r" "reminder_ok zone_ok san r" "rd_failure r = None"
      "rd_status r = REM_TRIGGERED"
    and c: "row_of oc_key (occ_key (rd_id r) (rd_at r)) (rs_occurrences s) = Some c" "oc_status c = OCC_TRIGGERED"
      "row_occurrence san c = Inr c"
    and env: "re_io env = None"
  shows "rem_trigger zone_ok san env (rd_id r) (rd_at r) tr s = (Inr (r, c, True), s)"
  using assms by (simp add: rem_trigger_def read_row)

text \<open>The handler on the payload of a reminder, once the repository has answered.\<close>

lemma execute_answers:
  assumes "rd_id r \<noteq> []" "rw_parse w (isoformat (rd_at r)) = Inr (Aware (rd_at r) 0)"
    and "rem_trigger (rw_zone_ok w) (rw_san w) (rw_env w (rm_calls s)) (rd_id r) (rd_at r) (jr_trace run) (rm_store s) =
      (Inr (q, c, again), st)"
  shows "\<exists>s'. handler_execute w (rem_payload r) run s =
      (Inr \<lparr>an_reminder = rd_id q, an_occurrence = Some (oc_id c), an_status = rem_status_value (rd_status q),
           an_idempotent = again\<rparr>, s') \<and> same_tables st (rm_store s') \<and> rm_calls s < rm_calls s'"
proof -
  define s1 where "s1 = s\<lparr>rm_store := st, rm_calls := Suc (rm_calls s)\<rparr>"
  have att: "attempt_trigger w (rd_id r) (rd_at r) run s = (Inr (Inr (q, c, again)), s1)"
    using assms(3) by (simp add: attempt_trigger_def catchS_def bindS_def on_rem_def retS_def s1_def)
  obtain u s2 where an: "announce_trigger w q c (jr_trace run) s1 = (u, s2)" by (cases "announce_trigger w q c (jr_trace run) s1")
  have u: "u = Inr ()" and n: "rm_calls s1 \<le> rm_calls s2"
    using an by (auto simp: announce_trigger_def catchS_def bindS_def publish_reminder_event_def rem_draw_def clear_store_def
        mark_store_def retS_def failS_def split: bus_mode.splits)
  have "handler_execute w (rem_payload r) run s =
      (Inr \<lparr>an_reminder = rd_id q, an_occurrence = Some (oc_id c), an_status = rem_status_value (rd_status q),
           an_idempotent = again\<rparr>, s2)"
    using assms(1,2) att an u
    by (simp add: handler_execute_def payload_texts bindS_run rem_lift_def retS_def)
  moreover have "same_tables st (rm_store s2)" using announced_tables [OF an] by (simp add: s1_def)
  ultimately show ?thesis using n by (auto simp: s1_def)
qed

section \<open>A creation that returns\<close>

lemma pending_result:
  assumes "create_pending w key task at tz tr meta s = (Inr r, s')"
  shows "rd_status r = REM_PENDING_SCHEDULE \<and> rd_job r = None \<and> rd_failure r = None \<and> rd_id r \<noteq> [] \<and>
    reminder_ok (rw_zone_ok w) (rw_san w) r"
  using assms
  by (auto simp: create_pending_def bindS_Inr catchS_Inr rem_raise_def failS_def retS_def on_rem_run rem_lift_def
      bindR_Inr_iff reminder_at_def validate_reminder_def pending_reminder_def split: if_splits dest!: created_value)

lemma create_result:
  assumes keys: "rem_keys (rm_store s)" and run: "bridge_create w key task at tz tr meta s = (Inr r, s1)"
  shows "\<exists>j. rd_job r = Some (jb_id j) \<and> rd_status r = REM_SCHEDULED \<and> rd_failure r = None \<and> rd_id r \<noteq> [] \<and>
    reminder_ok (rw_zone_ok w) (rw_san w) r \<and> row_of rd_id (rd_id r) (rs_reminders (rm_store s1)) = Some r \<and>
    map_of (rt_registry (fst (rm_jobs s1))) (jb_id j) = Some j \<and> jb_payload j = rem_payload r \<and>
    jb_status j = J_ACTIVE \<and> tg_next (jb_trigger j) = Some (rd_at r)"
proof -
  have never: "schedule_failed w p tr x t \<noteq> (Inr r, t')" for p x t t'
    by (auto simp: schedule_failed_def Let_def bindS_Inr failS_def split: prod.splits)
  from run obtain p s0 j s2 where p: "create_pending w key task at tz tr meta s = (Inr p, s0)"
    and j: "tagS (None :: job option) (create_job w p) s0 = (Inr j, s2)"
    and r: "tagS (Some j) (transition w p REM_SCHEDULED (Some (Some (jb_id j))) (Some None) tr) s2 = (Inr r, s1)"
    by (simp add: bridge_create_def bindS_Inr catchS_Inr never) blast
  from j r have j: "create_job w p s0 = (Inr j, s2)"
    and r: "transition w p REM_SCHEDULED (Some (Some (jb_id j))) (Some None) tr s2 = (Inr r, s1)"
    by (auto simp: tagS_def catchS_Inr failS_def)
  note pf = pending_result [OF p] and jf = created_job(1) [OF j]
  have "rem_keys (rm_store s0)" using keptD(1) [OF keeps_create_pending [of "{}"] keys _ p] by simp
  with jf have "rem_keys (rm_store s2)" by simp
  from transition_result [OF this r] obtain now now' where
    u: "r = (transition_of REM_SCHEDULED (Some (Some (jb_id j))) (Some None) tr now p)\<lparr>rd_revision := rd_revision p + 1, rd_updated := now'\<rparr>"
    and row: "row_of rd_id (rd_id p) (rs_reminders (rm_store s1)) = Some (reminder_row r)" and jobs: "rm_jobs s1 = rm_jobs s2"
    by blast
  have rf: "rd_failure r = None" "rd_id r = rd_id p" "rd_at r = rd_at p" "rd_status r = REM_SCHEDULED"
    "rd_job r = Some (jb_id j)" by (simp_all add: u transition_of_def or_old_def)
  have "reminder_row r = r" using rf(1) by (cases r) (simp add: reminder_row_def)
  moreover have "rem_payload r = rem_payload p" by (simp add: rem_payload_def rf)
  moreover have "reminder_ok (rw_zone_ok w) (rw_san w) r"
    using pf by (simp add: u reminder_ok_def transition_of_def)
  ultimately show ?thesis using row jf pf jobs rf by (intro exI [of _ j]) simp
qed

end
