(* ===== verification/Reminder_Properties.thy ===== *)
theory Reminder_Properties
  imports Reminder_Jobs UserTask_Properties Scheduler_Properties
begin

text \<open>
  What the reminders promise: a reminder fires at most once, the end of a task silences its reminders, a
  created reminder has a job that fires it; and where the code falls short: a job that was scheduled
  just before a crash is never found again.
\<close>

section \<open>Sample data\<close>

definition sample_rem_env :: "nat \<Rightarrow> rem_env" where
  "sample_rem_env n = \<lparr>re_io = None, re_now = 7000000, re_later = 7000001, re_uuid = replicate (Suc n) CHR ''a'',
     re_bus = Bus_Accepts, re_task = calm\<rparr>"

definition sample_rem_world :: rem_world where
  "sample_rem_world = \<lparr>rw_zone_ok = utc_zone, rw_san = id, rw_shown = (\<lambda>_. []), rw_parse = (\<lambda>_. Inr (Aware 9000000 0)),
     rw_env = sample_rem_env, rw_jobs = Some (\<lambda>n. at_second 7 CHR ''j'')\<rparr>"

definition empty_reminders :: rem_system where
  "empty_reminders = \<lparr>rm_store = \<lparr>rs_reminders = [], rs_occurrences = [], rs_initialized = True, rs_last_error = None,
       rs_unobserved = None\<rparr>,
     rm_tasks = sample_tasks, rm_jobs = (new_runtime, empty_sched\<lparr>ss_open := True\<rparr>), rm_sent = [], rm_calls = 0,
     rm_started = True, rm_reconciled = None\<rparr>"

definition sample_reminder :: reminder where
  "sample_reminder = \<lparr>rd_id = ''rem_aa'', rd_task = ''ut_1'', rd_at = 9000000, rd_zone = ''UTC'', rd_status = REM_SCHEDULED,
     rd_job = Some ''j'', rd_created = 7000000, rd_updated = 7000000, rd_cancelled = None, rd_failure = None, rd_trace = ''t'',
     rd_meta = [(''workspace'', JObj (canonical_workspace_metadata acme))], rd_revision = 2\<rparr>"

definition sample_reminder_job :: job where
  "sample_reminder_job = \<lparr>jb_id = ''j'', jb_name = ''reminder:rem_aa'', jb_description = [], jb_version = ''1.0.0'',
     jb_tags = [''reminder''], jb_metadata = [], jb_created = 7000001,
     jb_trigger = \<lparr>tg_type = ONE_SHOT, tg_cron = [], tg_interval = 0, tg_run_at = Some 9000000, tg_event = [],
       tg_timezone = ''UTC'', tg_next = Some 9000000\<rparr>,
     jb_workflow = [], jb_variables = [], jb_action = ''reminder'', jb_payload = rem_payload sample_reminder,
     jb_trace = ''t'', jb_status = J_ACTIVE, jb_max_retries = 3, jb_timeout = 300, jb_max_concurrent = 1, jb_retry_count = 0,
     jb_run_count = 0, jb_last_run = None, jb_last_result = [], jb_last_error = None, jb_claim = None, jb_expires = None,
     jb_updated = 7000001, jb_revision = 1\<rparr>"

definition told :: "string \<Rightarrow> rem_status \<Rightarrow> rem_message" where
  "told ty st = reminder_message ty [] ''t'' (sample_reminder\<lparr>rd_status := st\<rparr>)"

definition scheduled_reminders :: rem_system where
  "scheduled_reminders = empty_reminders
     \<lparr>rm_store := (rm_store empty_reminders)\<lparr>rs_reminders := [sample_reminder]\<rparr>,
      rm_jobs := (new_runtime\<lparr>rt_registry := [(''j'', sample_reminder_job)],
          rt_published := [\<lparr>sm_type = ''scheduler.created'', sm_job = ''j''\<rparr>]\<rparr>,
        empty_sched\<lparr>ss_open := True, ss_jobs := [sample_reminder_job]\<rparr>),
      rm_sent := [told ''reminder.created'' REM_PENDING_SCHEDULE, told ''reminder.scheduled'' REM_SCHEDULED],
      rm_calls := 9\<rparr>"

definition sample_job_run :: job_run where
  "sample_job_run = \<lparr>jr_id = ''run'', jr_job = ''j'', jr_name = [], jr_status = R_RUNNING, jr_started = 9000000, jr_finished = None,
     jr_result = JNull, jr_error = None, jr_trace = ''t'', jr_failure = None, jr_attempt = 1, jr_token = ''tok''\<rparr>"

lemma sample_creation_returns:
  "bridge_create sample_rem_world acme ''ut_1'' (Aware 9000000 0) ''UTC'' ''t'' None empty_reminders =
    (Inr sample_reminder, scheduled_reminders)"
  by code_simp

lemma empty_reminders_keys: "rem_keys (rm_store empty_reminders)"
  by (simp add: empty_reminders_def rem_keys_def)

section \<open>At most once\<close>

text \<open>C35: in any sequence of creations, reschedules, cancellations, reconciliations and executions of
  jobs, whatever SQLite, the scheduler and the bus do, a reminder fires at most once, and not at all
  when it was already triggered or cancelled; a reminder that is triggered or cancelled stays so, and
  the record of a triggered occurrence is never changed.\<close>

theorem rem_fires_at_most_once:
  assumes "rem_keys (rm_store s)" "rem_run w qs s = (as, t)"
  shows "length (filter (fires i) as) \<le> (if final_in (rm_store s) i then 0 else 1) \<and>
    (final_in (rm_store s) i \<longrightarrow> final_in (rm_store t) i) \<and>
    {c \<in> set (rs_occurrences (rm_store s)). oc_status c = OCC_TRIGGERED} \<subseteq> set (rs_occurrences (rm_store t))"
proof -
  from rem_run_keeps [OF assms] have "evolves (rm_store s) (rm_store t)" by simp
  with run_fires [OF assms] show ?thesis using final_evolves by (auto simp: evolves_def)
qed

definition sample_asks :: "reminder_ask list" where
  "sample_asks = [Ask_Execute (rem_payload sample_reminder) sample_job_run,
     Ask_Execute (rem_payload sample_reminder) sample_job_run]"

lemma scheduled_keys: "rem_keys (rm_store scheduled_reminders)"
  using keptD(1) [OF keeps_bridge_create [of "{}"] empty_reminders_keys _ sample_creation_returns] by simp

lemma sample_fires: "filter (fires (rd_id sample_reminder)) (fst (rem_run sample_rem_world sample_asks scheduled_reminders)) \<noteq> []"
  by code_simp

theorem rem_fires_at_most_once_witness:
  "length (filter (fires (rd_id sample_reminder)) (fst (rem_run sample_rem_world sample_asks scheduled_reminders))) = 1"
proof -
  obtain as t where run: "rem_run sample_rem_world sample_asks scheduled_reminders = (as, t)"
    by (cases "rem_run sample_rem_world sample_asks scheduled_reminders")
  have "length (filter (fires (rd_id sample_reminder)) as) \<le> 1"
    using rem_fires_at_most_once [OF scheduled_keys run, of "rd_id sample_reminder"] by (simp split: if_splits)
  moreover have "filter (fires (rd_id sample_reminder)) as \<noteq> []" using sample_fires by (simp add: run)
  ultimately show ?thesis by (simp add: run) (simp add: le_Suc_eq)
qed

section \<open>The end of a task\<close>

text \<open>C36: when the cancellation of the reminders of a task returns, every reminder of the task is
  triggered or cancelled, stays so, and does not fire in whatever runs afterwards.\<close>

theorem rem_task_end_silences:
  assumes "rem_keys (rm_store s)" "cancel_for_task w task tr s = (Inr (), s')" "rem_run w qs s' = (as, t)"
    and "x \<in> set (rs_reminders (rm_store s'))" "rd_task x = task"
  shows "rem_final (rd_status x) \<and> final_in (rm_store t) (rd_id x) \<and> filter (fires (rd_id x)) as = []"
proof -
  have keys: "rem_keys (rm_store s')" using keptD(1) [OF keeps_cancel_for_task [of "{}"] assms(1) _ assms(2)] by simp
  have x: "rem_final (rd_status x)" by (rule cancel_task_final [OF assms(1,2,4,5)])
  then have "final_in (rm_store s') (rd_id x)" using assms(4) by (auto simp: final_in_def)
  with run_fires [OF keys assms(3), of "rd_id x"] rem_run_keeps [OF keys assms(3)] x show ?thesis
    using final_evolves by auto
qed

text \<open>The scheduler is switched off between the creation and the end of the task.\<close>

definition idle_world :: rem_world where
  "idle_world = sample_rem_world\<lparr>rw_jobs := None\<rparr>"

definition listed_reminders :: rem_system where
  "listed_reminders = scheduled_reminders\<lparr>rm_calls := Suc (rm_calls scheduled_reminders)\<rparr>"

lemma scheduled_table: "rs_reminders (rm_store scheduled_reminders) = [sample_reminder]"
  "rs_last_error (rm_store scheduled_reminders) = None" "rd_task sample_reminder = ''ut_1''"
  "reminder_ok utc_zone id sample_reminder" "rd_failure sample_reminder = None"
  by code_simp+

lemma sample_listed:
  "on_rem idle_world (\<lambda>e. rem_list_for_task (rw_zone_ok idle_world) (rw_san idle_world) e ''ut_1'') scheduled_reminders =
     (Inr [sample_reminder], listed_reminders)"
proof -
  have "(rm_store scheduled_reminders)\<lparr>rs_last_error := None\<rparr> = rm_store scheduled_reminders"
    using scheduled_table(2) by (cases "rm_store scheduled_reminders") simp
  then show ?thesis
    by (simp add: on_rem_def rem_list_for_task_def rem_list_def rem_read_def rem_done_def scheduled_table read_row
        idle_world_def sample_rem_world_def sample_rem_env_def listed_reminders_def)
qed

definition settled_reminders :: rem_system where
  "settled_reminders = snd (cancel_each idle_world ''t'' [sample_reminder] listed_reminders)"

text \<open>The outcome of the cancellation, evaluated once.\<close>

definition settled_as :: "(exn + string list) \<times> rem_system \<Rightarrow> bool" where
  "settled_as x \<longleftrightarrow> fst x = Inr [] \<and> map rd_task (rs_reminders (rm_store (snd x))) = [''ut_1''] \<and>
     map rd_id (rs_reminders (rm_store (snd x))) = [''rem_aa'']"

lemma idle_settled: "settled_as (cancel_each idle_world ''t'' [sample_reminder] listed_reminders)"
  by code_simp

lemma idle_each: "fst (cancel_each idle_world ''t'' [sample_reminder] listed_reminders) = Inr []"
  using idle_settled by (simp add: settled_as_def del: cancel_each.simps)

lemma settled_row: "map rd_task (rs_reminders (rm_store settled_reminders)) = [''ut_1'']"
  "map rd_id (rs_reminders (rm_store settled_reminders)) = [rd_id sample_reminder]"
  using idle_settled by (simp_all add: settled_as_def settled_reminders_def sample_reminder_def del: cancel_each.simps)

theorem rem_task_end_silences_witness:
  "filter (fires (rd_id sample_reminder)) (fst (rem_run idle_world sample_asks settled_reminders)) = []"
proof -
  obtain as t where run: "rem_run idle_world sample_asks settled_reminders = (as, t)"
    by (cases "rem_run idle_world sample_asks settled_reminders")
  have each: "cancel_each idle_world ''t'' [sample_reminder] listed_reminders = (Inr [], settled_reminders)"
    using idle_each by (auto simp: settled_reminders_def intro: prod_eqI)
  have "cancel_for_task idle_world ''ut_1'' ''t'' scheduled_reminders = (Inr (), settled_reminders)"
    using sample_listed each by (simp add: cancel_for_task_def bindS_run retS_def del: cancel_each.simps)
  note ended = rem_task_end_silences [OF scheduled_keys this run]
  obtain x where "x \<in> set (rs_reminders (rm_store settled_reminders))" "rd_task x = ''ut_1''" "rd_id x = rd_id sample_reminder"
    using settled_row by auto
  with ended [of x] show ?thesis by (simp add: run)
qed

section \<open>Firing\<close>

text \<open>C37: a creation that returns has scheduled a job for the time of the reminder; executing this job
  triggers the reminder, and executing it again only tells of the same occurrence.\<close>

theorem rem_create_fires:
  assumes "rem_keys (rm_store s)" "bridge_create w key task at tz tr meta s = (Inr r, s1)"
    and parse: "rw_parse w (isoformat (rd_at r)) = Inr (Aware (rd_at r) 0)"
    and fresh: "no_such_occurrence (''occ_'' @ re_uuid (rw_env w (rm_calls s1))) r (rs_occurrences (rm_store s1))"
    and calm: "\<And>n. re_io (rw_env w n) = None"
  shows "\<exists>j a s2 s3. rd_job r = Some (jb_id j) \<and> map_of (rt_registry (fst (rm_jobs s1))) (jb_id j) = Some j \<and>
    tg_next (jb_trigger j) = Some (rd_at r) \<and> jb_status j = J_ACTIVE \<and>
    handler_execute w (jb_payload j) run s1 = (Inr a, s2) \<and> fires (rd_id r) a \<and> an_status a = ''triggered'' \<and>
    handler_execute w (jb_payload j) run' s2 = (Inr (a\<lparr>an_idempotent := True\<rparr>), s3)"
proof -
  obtain j where j: "rd_job r = Some (jb_id j)" "map_of (rt_registry (fst (rm_jobs s1))) (jb_id j) = Some j"
    "jb_payload j = rem_payload r" "jb_status j = J_ACTIVE" "tg_next (jb_trigger j) = Some (rd_at r)"
    and r: "rd_status r = REM_SCHEDULED" "rd_failure r = None" "rd_id r \<noteq> []" "reminder_ok (rw_zone_ok w) (rw_san w) r"
    "row_of rd_id (rd_id r) (rs_reminders (rm_store s1)) = Some r"
    using create_result [OF assms(1,2)] by blast
  define env where "env = rw_env w (rm_calls s1)"
  define q where "q = triggered_reminder (re_now env) (jr_trace run) r"
  define c where "c = fresh_occurrence env r (jr_trace run)"
  have q: "rd_id q = rd_id r" "rd_at q = rd_at r" "rd_status q = REM_TRIGGERED" "rd_failure q = None"
    "reminder_ok (rw_zone_ok w) (rw_san w) q"
    using r(4) by (simp_all add: q_def triggered_reminder_def reminder_ok_def)
  have c: "oc_status c = OCC_TRIGGERED" "row_occurrence (rw_san w) c = Inr c"
    by (simp_all add: c_def fresh_occurrence_def triggered_occurrence_def new_occurrence_def row_occurrence_def
        validate_occurrence_def)
  obtain st where st: "rem_trigger (rw_zone_ok w) (rw_san w) env (rd_id r) (rd_at r) (jr_trace run) (rm_store s1) = (Inr (q, c, False), st)"
    and row: "row_of rd_id (rd_id r) (rs_reminders st) = Some q"
    and occ: "row_of oc_key (occ_key (rd_id r) (rd_at r)) (rs_occurrences st) = Some c"
    using first_trigger [OF r(5,4,2,1) calm fresh] unfolding env_def q_def c_def by blast
  obtain s2 where one: "handler_execute w (rem_payload r) run s1 = (Inr \<lparr>an_reminder = rd_id r, an_occurrence = Some (oc_id c),
      an_status = ''triggered'', an_idempotent = False\<rparr>, s2)" and s2: "same_tables st (rm_store s2)"
    using execute_answers [OF r(3) parse st [unfolded env_def]] q by auto
  have row2: "row_of rd_id (rd_id q) (rs_reminders (rm_store s2)) = Some q"
    and occ2: "row_of oc_key (occ_key (rd_id q) (rd_at q)) (rs_occurrences (rm_store s2)) = Some c"
    using row occ s2 q by (simp_all add: same_tables_def)
  have two: "rem_trigger (rw_zone_ok w) (rw_san w) (rw_env w (rm_calls s2)) (rd_id r) (rd_at r) (jr_trace run') (rm_store s2) =
      (Inr (q, c, True), rm_store s2)"
    using again_trigger [OF row2 q(5,4,3) occ2 c calm] q by simp
  obtain s3 where "handler_execute w (rem_payload r) run' s2 = (Inr \<lparr>an_reminder = rd_id r, an_occurrence = Some (oc_id c),
      an_status = ''triggered'', an_idempotent = True\<rparr>, s3)"
    using execute_answers [OF r(3) parse two] q by auto
  with one j show ?thesis
    by (intro exI [of _ j] exI [of _ "\<lparr>an_reminder = rd_id r, an_occurrence = Some (oc_id c),
      an_status = ''triggered'', an_idempotent = False\<rparr>"] exI [of _ s2] exI [of _ s3]) (simp add: fires_def)
qed

theorem rem_create_fires_witness:
  "\<exists>(j::job) a s. rd_job sample_reminder = Some (jb_id j) \<and>
    handler_execute sample_rem_world (jb_payload j) sample_job_run scheduled_reminders = (Inr a, s) \<and>
    fires (rd_id sample_reminder) a"
proof -
  have at: "rd_at sample_reminder = 9000000" by code_simp
  have parse: "rw_parse sample_rem_world (isoformat (rd_at sample_reminder)) = Inr (Aware (rd_at sample_reminder) 0)"
    by (simp add: sample_rem_world_def at)
  have none: "no_such_occurrence (''occ_'' @ re_uuid (rw_env sample_rem_world (rm_calls scheduled_reminders))) sample_reminder
      (rs_occurrences (rm_store scheduled_reminders))"
    by code_simp
  have calm: "re_io (rw_env sample_rem_world n) = None" for n
    by (simp add: sample_rem_world_def sample_rem_env_def)
  show ?thesis
    using rem_create_fires [OF empty_reminders_keys sample_creation_returns parse none calm, of sample_job_run sample_job_run]
    by blast
qed

section \<open>A crash between the two databases\<close>

text \<open>C38: when the process stops after the job of a new reminder was scheduled and before the reminder says
  so, the reminder is lost: reconciliation only raises, because the name of the job is taken, and the
  job itself, when it is due, only raises; neither changes the reminder, which stays pending.\<close>

theorem rem_lost_job:
  assumes row: "row_of rd_id (rd_id r) (rs_reminders (rm_store s)) = Some r" "reminder_ok (rw_zone_ok w) (rw_san w) r"
      "rd_failure r = None" "rd_status r = REM_PENDING_SCHEDULE" "rd_job r = None" "rd_id r \<noteq> []"
    and job: "rw_jobs w = Some js" "reg_by_name (''reminder:'' @ rd_id r) (rt_registry (fst (rm_jobs s))) \<noteq> None"
    and task: "ut_get (rw_zone_ok w) (rw_san w) (re_task (rw_env w (rm_calls s)))
        (workspace_key_from_evidence (map_of (rd_meta r) ''workspace'') (rd_trace r)) (rd_task r) (rd_trace r) (rm_tasks s) =
        (Inr t, ts)" "ut_status t = UT_ACTIVE"
    and parse: "rw_parse w (isoformat (rd_at r)) = Inr (Aware (rd_at r) 0)"
    and calm: "\<And>n. re_io (rw_env w n) = None"
  shows "(\<exists>s'. repair w r s = (Inl (Raise JobAlreadyExistsError (''Job already exists: reminder:'' @ rd_id r)), s') \<and>
       rm_store s' = rm_store s \<and> rm_jobs s' = rm_jobs s) \<and>
    (\<exists>s'. handler_execute w (rem_payload r) run s =
         (Inl (Raise RemConflict ''Reminder transition prevents this trigger''), s') \<and>
       same_tables (rm_store s) (rm_store s'))"
proof
  define s1 where "s1 = s\<lparr>rm_tasks := ts, rm_calls := Suc (rm_calls s)\<rparr>"
  have "rw_zone_ok w (rd_zone r)" using row(2) by (simp add: reminder_ok_def)
  moreover have "schedule (js (rm_calls s1)) (rem_request r) (rm_jobs s1) =
      (Inl (Raise JobAlreadyExistsError (''Job already exists: reminder:'' @ rd_id r)), rm_jobs s1)"
    using job(2) by (simp add: schedule_def bindS_run read_runtime_def failS_def rem_request_def s1_def)
  ultimately have "create_job w r s1 =
      (Inl (Raise JobAlreadyExistsError (''Job already exists: reminder:'' @ rd_id r)), s1\<lparr>rm_calls := Suc (rm_calls s1)\<rparr>)"
    using job(1) by (simp add: create_job_def require_scheduler_def bindS_run retS_def on_jobs_def)
  then have "repair_active w r None s1 =
      (Inl (Raise JobAlreadyExistsError (''Job already exists: reminder:'' @ rd_id r)), s1\<lparr>rm_calls := Suc (rm_calls s1)\<rparr>)"
    using row(4,5) job(1)
    by (simp add: repair_active_def needs_job_def give_job_def ensure_job_def job_ref_def require_scheduler_def bindS_run retS_def)
  moreover have "repair w r s = repair_active w r None s1"
    using task row(5) job(1)
    by (simp add: repair_def bindS_run on_user_tasks_def s1_def job_ref_def retS_def)
  ultimately show "\<exists>s'. repair w r s = (Inl (Raise JobAlreadyExistsError (''Job already exists: reminder:'' @ rd_id r)), s') \<and>
       rm_store s' = rm_store s \<and> rm_jobs s' = rm_jobs s"
    by (simp add: s1_def)
next
  define e where "e = Raise RemConflict ''Reminder transition prevents this trigger''"
  have "rem_trigger (rw_zone_ok w) (rw_san w) (rw_env w (rm_calls s)) (rd_id r) (rd_at r) (jr_trace run) (rm_store s) =
      (Inl e, rm_store s)"
    using row calm by (simp add: rem_trigger_def read_row e_def)
  moreover have "rem_get (rw_zone_ok w) (rw_san w) (rw_env w (Suc (rm_calls s))) (rd_id r) (rm_store s) =
      (Inr r, (rm_store s)\<lparr>rs_last_error := None\<rparr>)"
    using row calm by (simp add: rem_get_def read_row rem_read_def rem_done_def)
  ultimately have "attempt_trigger w (rd_id r) (rd_at r) run s =
      (Inl e, s\<lparr>rm_store := (rm_store s)\<lparr>rs_last_error := None\<rparr>, rm_calls := Suc (Suc (rm_calls s))\<rparr>)"
    using row(4)
    by (simp add: attempt_trigger_def catchS_def bindS_run on_rem_def not_triggered_def failS_def) (simp add: e_def)
  then show "\<exists>s'. handler_execute w (rem_payload r) run s =
       (Inl (Raise RemConflict ''Reminder transition prevents this trigger''), s') \<and> same_tables (rm_store s) (rm_store s')"
    using row(6) parse by (simp add: handler_execute_def payload_texts bindS_run rem_lift_def e_def)
qed

definition lost_reminder :: reminder where
  "lost_reminder = sample_reminder\<lparr>rd_status := REM_PENDING_SCHEDULE, rd_job := None, rd_revision := 1, rd_updated := 7000001\<rparr>"

text \<open>The job is in the table of the scheduler; the reminder was not updated.\<close>

definition crashed_reminders :: rem_system where
  "crashed_reminders = scheduled_reminders\<lparr>rm_store := (rm_store empty_reminders)\<lparr>rs_reminders := [lost_reminder]\<rparr>\<rparr>"

definition still_pending :: "reminder \<Rightarrow> bool" where
  "still_pending r \<longleftrightarrow> reminder_ok utc_zone id r \<and> rd_failure r = None \<and> rd_status r = REM_PENDING_SCHEDULE \<and> rd_job r = None \<and>
     rd_id r \<noteq> [] \<and> rd_at r = 9000000"

lemma lost_pending: "still_pending lost_reminder"
  by code_simp

lemma lost_row: "row_of rd_id (rd_id lost_reminder) (rs_reminders (rm_store crashed_reminders)) = Some lost_reminder"
  by code_simp

lemma lost_facts:
  "reminder_ok utc_zone id lost_reminder" "rd_failure lost_reminder = None" "rd_status lost_reminder = REM_PENDING_SCHEDULE"
  "rd_job lost_reminder = None" "rd_id lost_reminder \<noteq> []" "rd_at lost_reminder = 9000000"
  using lost_pending by (simp_all add: still_pending_def)

lemma lost_name: "reg_by_name (''reminder:'' @ rd_id lost_reminder) (rt_registry (fst (rm_jobs crashed_reminders))) \<noteq> None"
  by code_simp

lemma lost_owner: "rd_task lost_reminder = ''ut_1''" "rd_trace lost_reminder = ''t''"
  "rd_meta lost_reminder = [(''workspace'', JObj (canonical_workspace_metadata acme))]"
  "rm_tasks crashed_reminders = sample_tasks"
  by code_simp+

lemma lost_evidence:
  "workspace_key_from_evidence (Some (JObj (canonical_workspace_metadata acme))) ''t'' = acme\<lparr>trace_id := ''t''\<rparr>"
  by code_simp

definition owner_of_lost :: "(exn + user_task) \<times> ut_service" where
  "owner_of_lost = ut_get utc_zone id calm (acme\<lparr>trace_id := ''t''\<rparr>) ''ut_1'' ''t'' sample_tasks"

lemma lost_task: "succeeds (fst owner_of_lost)" "ut_status (projr (fst owner_of_lost)) = UT_ACTIVE"
  by code_simp+

theorem rem_lost_job_witness:
  "\<exists>e s. repair sample_rem_world lost_reminder crashed_reminders = (Inl e, s) \<and> rm_store s = rm_store crashed_reminders"
proof -
  have w: "rw_zone_ok sample_rem_world = utc_zone" "rw_san sample_rem_world = id"
    "rw_jobs sample_rem_world = Some (\<lambda>n. at_second 7 CHR ''j'')" "rw_parse sample_rem_world x = Inr (Aware 9000000 0)"
    "re_io (rw_env sample_rem_world n) = None" for x n
    by (simp_all add: sample_rem_world_def sample_rem_env_def)
  have "owner_of_lost = (Inr (projr (fst owner_of_lost)), snd owner_of_lost)"
    using lost_task(1) by (auto simp: succeeds_iff intro: prod_eqI)
  moreover have "re_task (rw_env sample_rem_world n) = calm" for n
    by (simp add: sample_rem_world_def sample_rem_env_def)
  ultimately have task: "ut_get (rw_zone_ok sample_rem_world) (rw_san sample_rem_world) (re_task (rw_env sample_rem_world (rm_calls crashed_reminders)))
      (workspace_key_from_evidence (map_of (rd_meta lost_reminder) ''workspace'') (rd_trace lost_reminder))
      (rd_task lost_reminder) (rd_trace lost_reminder) (rm_tasks crashed_reminders) =
      (Inr (projr (fst owner_of_lost)), snd owner_of_lost)"
    by (simp add: w(1,2) lost_owner lost_evidence flip: owner_of_lost_def)
  have ok: "reminder_ok (rw_zone_ok sample_rem_world) (rw_san sample_rem_world) lost_reminder"
    unfolding w by (rule lost_facts(1))
  have parse: "rw_parse sample_rem_world (isoformat (rd_at lost_reminder)) = Inr (Aware (rd_at lost_reminder) 0)"
    unfolding w lost_facts(6) by (rule refl)
  show ?thesis
    using rem_lost_job [OF lost_row ok lost_facts(2-5) w(3) lost_name task lost_task(2) parse w(5)] by blast
qed

end
