(* ===== verification/Reminder_Pages.thy ===== *)
theory Reminder_Pages
  imports Reminder_Management Reminder_Properties
begin

text \<open>
  What the pages of the reminder inbox hold: the entries of the visible reminders in the order of their
  times, filtered, whatever the batches they were read in; the search by title reads all of them.
\<close>

section \<open>Reads\<close>

text \<open>A call reads when, over the same tables, it gives the same answer and leaves the tables as they are.\<close>

definition same_rows :: "rem_system \<Rightarrow> rem_system \<Rightarrow> bool" where
  "same_rows s t \<longleftrightarrow>
    rs_reminders (rm_store t) = rs_reminders (rm_store s) \<and> rs_occurrences (rm_store t) = rs_occurrences (rm_store s) \<and>
    us_rows (us_store (rm_tasks t)) = us_rows (us_store (rm_tasks s)) \<and> snd (rm_jobs t) = snd (rm_jobs s)"

definition reads :: "rem_system \<Rightarrow> 'a rem_op \<Rightarrow> 'a \<Rightarrow> bool" where
  "reads s0 m x \<longleftrightarrow> (\<forall>s. same_rows s0 s \<longrightarrow> (\<exists>t. m s = (Inr x, t) \<and> same_rows s0 t))"

named_theorems read_rules \<open>calls that read\<close>

lemma readsD: "reads s0 m x \<Longrightarrow> same_rows s0 s \<Longrightarrow> \<exists>t. m s = (Inr x, t) \<and> same_rows s0 t"
  by (simp add: reads_def)

lemma reads_ret [read_rules]: "reads s0 (retS x) x"
  by (simp add: reads_def retS_def)

lemma reads_bind: "reads s0 m x \<Longrightarrow> reads s0 (f x) y \<Longrightarrow> reads s0 (bindS m f) y"
  by (fastforce simp: reads_def bindS_run)

lemma reads_catch: "reads s0 m x \<Longrightarrow> reads s0 (catchS m h) x"
  by (fastforce simp: reads_def catchS_def)

section \<open>Tables that can be read\<close>

text \<open>Nothing fails, the scheduler keeps its jobs in its table, and every row can be decoded.\<close>

definition calm_reads :: "rem_world \<Rightarrow> bool" where
  "calm_reads w \<longleftrightarrow>
    (\<forall>n. re_io (rw_env w n) = None \<and> ue_read_io (re_task (rw_env w n)) = None) \<and>
    (\<exists>js. rw_jobs w = Some js \<and> (\<forall>n. persistent (js n) \<and> se_io (js n) = None \<and> se_san (js n) = rw_san w \<and>
       se_zone_ok (js n) = rw_zone_ok w))"

definition readable :: "rem_world \<Rightarrow> rem_system \<Rightarrow> bool" where
  "readable w s \<longleftrightarrow>
    keyed rd_id (rs_reminders (rm_store s)) \<and>
    (\<forall>r \<in> set (rs_reminders (rm_store s)). succeeds (row_reminder (rw_zone_ok w) (rw_san w) r)) \<and>
    (\<forall>c \<in> set (rs_occurrences (rm_store s)). succeeds (row_occurrence (rw_san w) c)) \<and>
    tasks_ok (rw_zone_ok w) (us_rows (us_store (rm_tasks s))) \<and>
    ss_open (snd (rm_jobs s)) \<and>
    (\<forall>j \<in> set (ss_jobs (snd (rm_jobs s))). succeeds (row_to_job (rw_san w) (rw_zone_ok w) j))"

lemma readable_same: "same_rows s t \<Longrightarrow> readable w t = readable w s"
  by (simp add: readable_def same_rows_def)

section \<open>The entries\<close>

definition task_shown :: "rem_world \<Rightarrow> workspace_key \<Rightarrow> rem_system \<Rightarrow> string \<Rightarrow> user_task option" where
  "task_shown w key s i =
    (case find (\<lambda>x. ur_id x = i \<and> owned_by (normalize_workspace_key key) x) (us_rows (us_store (rm_tasks s))) of
       None \<Rightarrow> None
     | Some x \<Rightarrow> (case task_of_row (rw_zone_ok w) x of Inl e \<Rightarrow> None | Inr t \<Rightarrow> Some t))"

definition job_shown :: "rem_world \<Rightarrow> rem_system \<Rightarrow> reminder \<Rightarrow> job option" where
  "job_shown w s r =
    Option.bind (Option.bind (job_ref r) (\<lambda>i. row_of jb_id i (ss_jobs (snd (rm_jobs s)))))
      (\<lambda>x. case row_to_job (rw_san w) (rw_zone_ok w) x of Inl e \<Rightarrow> None | Inr j \<Rightarrow> Some j)"

definition occurrence_rows :: "rem_system \<Rightarrow> string \<Rightarrow> occurrence list" where
  "occurrence_rows s i =
    sort_key (\<lambda>c. (isoformat (oc_at c), oc_id c)) (filter (\<lambda>c. oc_reminder c = i) (rs_occurrences (rm_store s)))"

definition occurrence_shown :: "rem_world \<Rightarrow> rem_system \<Rightarrow> reminder \<Rightarrow> occurrence option" where
  "occurrence_shown w s r =
    (case decode_rows (row_occurrence (rw_san w)) (occurrence_rows s (rd_id r)) of
       Inl e \<Rightarrow> None
     | Inr cs \<Rightarrow> if cs = [] then None else Some (last cs))"

definition view_shown :: "view_world \<Rightarrow> rem_system \<Rightarrow> reminder \<Rightarrow> user_task \<Rightarrow> status_view" where
  "view_shown vw s r t =
    build_reminder_status_view vw r t (job_shown (vw_rem vw) s r) (occurrence_shown (vw_rem vw) s r)"

definition entry_shown ::
  "view_world \<Rightarrow> workspace_key \<Rightarrow> shown_status list \<Rightarrow> rem_system \<Rightarrow> reminder \<Rightarrow> inbox_entry option" where
  "entry_shown vw key sts s r =
    (case task_shown (vw_rem vw) key s (rd_task r) of
       None \<Rightarrow> None
     | Some t \<Rightarrow>
         if sts \<noteq> [] \<and> sv_status (view_shown vw s r t) \<notin> set sts then None
         else Some (entry_of_view (view_shown vw s r t)))"

text \<open>The rows between two times in the order of time and identifier, as reminders.\<close>

definition rows_shown :: "instant option \<times> instant option \<Rightarrow> rem_system \<Rightarrow> reminder list" where
  "rows_shown bounds s =
    sort_key (\<lambda>r. (isoformat (rd_at r), rd_id r))
      (filter (\<lambda>r. opt_clause (\<lambda>t. isoformat t \<le> isoformat (rd_at r)) (fst bounds) \<and>
                   opt_clause (\<lambda>t. isoformat (rd_at r) < isoformat t) (snd bounds)) (rs_reminders (rm_store s)))"

definition reminder_shown :: "rem_world \<Rightarrow> reminder \<Rightarrow> reminder" where
  "reminder_shown w r = (case row_reminder (rw_zone_ok w) (rw_san w) r of Inl e \<Rightarrow> r | Inr x \<Rightarrow> x)"

definition entries_shown ::
  "view_world \<Rightarrow> workspace_key \<Rightarrow> shown_status list \<Rightarrow> instant option \<times> instant option \<Rightarrow> rem_system \<Rightarrow> inbox_entry list" where
  "entries_shown vw key sts bounds s =
    List.map_filter (\<lambda>r. entry_shown vw key sts s (reminder_shown (vw_rem vw) r)) (rows_shown bounds s)"

section \<open>Every call of the loop reads\<close>

lemma reads_task:
  assumes "calm_reads w" "readable w s0"
  shows "reads s0 (on_user_tasks w (\<lambda>e. ut_find_visible (rw_zone_ok w) (rw_san w) e key i tr)) (task_shown w key s0 i)"
proof -
  have "\<exists>t. on_user_tasks w (\<lambda>e. ut_find_visible (rw_zone_ok w) (rw_san w) e key i tr) s = (Inr (task_shown w key s0 i), t) \<and>
      same_rows s0 t" if s: "same_rows s0 s" for s
  proof -
    let ?st = "us_store (rm_tasks s)"
    have ok: "tasks_ok (rw_zone_ok w) (us_rows ?st)" using assms(2) s by (simp add: readable_def same_rows_def)
    have rows: "us_rows ?st = us_rows (us_store (rm_tasks s0))" using s by (simp add: same_rows_def)
    have io: "ue_read_io (re_task (rw_env w (rm_calls s))) = None" using assms(1) by (simp add: calm_reads_def)
    show ?thesis
    proof (cases "find (\<lambda>x. ur_id x = i \<and> owned_by (normalize_workspace_key key) x) (us_rows ?st)")
      case None
      then show ?thesis using s tasks_ok_not_malformed [OF ok] io
        by (simp add: on_user_tasks_def ut_find_visible_def catchS_def bindS_run on_tasks_def task_get_def rows task_shown_def
            has_class_def retS_def same_rows_def)
    next
      case (Some x)
      then have "x \<in> set (us_rows ?st)" by (auto simp: find_Some_iff)
      with ok obtain t where "task_of_row (rw_zone_ok w) x = Inr t" by (meson tasks_ok_row)
      with Some show ?thesis using s tasks_ok_not_malformed [OF ok] io
        by (simp add: on_user_tasks_def ut_find_visible_def catchS_def bindS_run on_tasks_def task_get_def rows task_shown_def
            task_done_def retS_def same_rows_def)
    qed
  qed
  then show ?thesis by (simp add: reads_def)
qed

lemma reads_rem:
  assumes "\<And>n st. rs_reminders st = rs_reminders (rm_store s0) \<Longrightarrow> rs_occurrences st = rs_occurrences (rm_store s0) \<Longrightarrow>
      \<exists>st'. m (rw_env w n) st = (Inr x, st') \<and> rs_reminders st' = rs_reminders st \<and> rs_occurrences st' = rs_occurrences st"
  shows "reads s0 (on_rem w m) x"
  unfolding reads_def
proof (intro allI impI)
  fix s
  assume s: "same_rows s0 s"
  then obtain st where "m (rw_env w (rm_calls s)) (rm_store s) = (Inr x, st)" "rs_reminders st = rs_reminders (rm_store s)"
    "rs_occurrences st = rs_occurrences (rm_store s)"
    using assms [of "rm_store s" "rm_calls s"] by (auto simp: same_rows_def)
  with s show "\<exists>t. on_rem w m s = (Inr x, t) \<and> same_rows s0 t" by (simp add: on_rem_def same_rows_def)
qed

lemma reads_service_get:
  assumes "calm_reads w" "row_of rd_id i (rs_reminders (rm_store s0)) = Some r"
    "row_reminder (rw_zone_ok w) (rw_san w) r = Inr r'"
  shows "reads s0 (service_get w i tr) r'"
  unfolding service_get_def
  by (rule reads_catch, rule reads_rem)
    (use assms in \<open>simp add: rem_get_def calm_reads_def rem_read_def rem_done_def\<close>)

lemma decode_all: "\<forall>x \<in> set xs. succeeds (f x) \<Longrightarrow> \<exists>ys. decode_rows f xs = Inr ys"
  by (induction xs) (auto simp: succeeds_iff)

lemma row_reminder_id: "row_reminder zone_ok san x = Inr r \<Longrightarrow> rd_id r = rd_id x"
  by (auto simp: row_reminder_def validate_reminder_def split: if_splits)

lemma reads_last:
  assumes "calm_reads w" "readable w s0" "x \<in> set (rs_reminders (rm_store s0))" "row_reminder (rw_zone_ok w) (rw_san w) x = Inr r"
  shows "reads s0 (last_occurrence w r tr) (occurrence_shown w s0 r)"
proof -
  from assms(4) have id: "rd_id r = rd_id x" by (rule row_reminder_id)
  with assms(2,3) have row: "row_of rd_id (rd_id r) (rs_reminders (rm_store s0)) = Some x"
    by (simp add: readable_def row_of_member)
  obtain cs where cs: "decode_rows (row_occurrence (rw_san w)) (occurrence_rows s0 (rd_id r)) = Inr cs"
    using decode_all [of "occurrence_rows s0 (rd_id r)" "row_occurrence (rw_san w)"] assms(2)
    by (auto simp: readable_def occurrence_rows_def)
  have "reads s0 (service_list_occurrences w (rd_id r) tr) cs"
    unfolding service_list_occurrences_def
    by (rule reads_bind [OF reads_service_get [OF assms(1) row assms(4)]], rule reads_catch, rule reads_rem)
      (use assms(1) cs in \<open>simp add: rem_list_occurrences_def calm_reads_def rem_read_def rem_done_def occurrence_rows_def\<close>)
  then show ?thesis
    unfolding last_occurrence_def by (rule reads_bind) (simp add: occurrence_shown_def cs reads_ret)
qed

lemma get_job_row:
  assumes "persistent e" "store_get (se_san e) (se_zone_ok e) (se_io e) i st = Inr (Some j)" "jb_id j = i"
  shows "\<exists>rt'. get_job e i (rt, st) = (Inr (Some j), (rt', st))"
proof -
  have read: "get_job e i (rt, st) =
      bindS (if reg_exists i (rt_registry rt) then change_registry (reg_replace j) else retS ()) (\<lambda>_. retS (Some j)) (rt, st)"
    using assms(1,2,3) by (simp add: get_job_def bindS_run read_store_def read_runtime_def)
  show ?thesis
  proof (cases "reg_exists i (rt_registry rt)")
    case True
    with assms(3) obtain reg where "reg_replace j (rt_registry rt) = Inr reg" by (auto simp: reg_exists_def reg_replace_def)
    with True show ?thesis unfolding read by (simp add: bindS_run change_registry_def retS_def)
  next
    case False
    then show ?thesis unfolding read by (simp add: bindS_run retS_def)
  qed
qed

lemma reads_job:
  assumes "calm_reads w" "readable w s0"
  shows "reads s0 (reminder_job w r) (job_shown w s0 r)"
proof (cases "job_ref r")
  case None
  then show ?thesis by (simp add: reminder_job_def job_shown_def reads_ret)
next
  case (Some i)
  obtain js where js: "rw_jobs w = Some js" "\<And>n. persistent (js n) \<and> se_io (js n) = None \<and> se_san (js n) = rw_san w \<and>
      se_zone_ok (js n) = rw_zone_ok w"
    using assms(1) by (auto simp: calm_reads_def)
  have "\<exists>t. find_job js i s = (Inr (job_shown w s0 r), t) \<and> same_rows s0 t" if s: "same_rows s0 s" for s
  proof -
    obtain rt st where x: "rm_jobs s = (rt, st)" by (cases "rm_jobs s")
    have st: "snd (rm_jobs s0) = st" using s x by (simp add: same_rows_def)
    have opened: "ss_open st" using assms(2) st by (simp add: readable_def)
    show ?thesis
    proof (cases "row_of jb_id i (ss_jobs st)")
      case None
      then have "get_job (js (rm_calls s)) i (rt, st) = (Inr None, (rt, st))"
        using js(2) opened by (simp add: get_job_def bindS_run read_store_def store_get_def retS_def)
      moreover have "job_shown w s0 r = None" using Some None by (simp add: job_shown_def st)
      ultimately show ?thesis using s x by (auto simp: find_job_def on_jobs_def same_rows_def)
    next
      case row: (Some y)
      from row_of_Some [OF row] have "y \<in> set (ss_jobs st)" and id: "jb_id y = i" by blast+
      then obtain j where j: "row_to_job (rw_san w) (rw_zone_ok w) y = Inr j"
        using assms(2) st by (auto simp: readable_def succeeds_iff)
      then have "jb_id j = i" using id by (auto simp: row_to_job_def Let_def split: if_splits)
      then have "\<exists>rt'. get_job (js (rm_calls s)) i (rt, st) = (Inr (Some j), (rt', st))"
        using js(2) opened row j by (intro get_job_row) (simp_all add: store_get_def)
      moreover have "job_shown w s0 r = Some j" using Some row j by (simp add: job_shown_def st)
      ultimately show ?thesis using s x by (auto simp: find_job_def on_jobs_def same_rows_def)
    qed
  qed
  with Some js(1) show ?thesis by (simp add: reminder_job_def reads_def)
qed

lemma reads_view:
  assumes "calm_reads (vw_rem vw)" "readable (vw_rem vw) s0" "x \<in> set (rs_reminders (rm_store s0))"
    "row_reminder (rw_zone_ok (vw_rem vw)) (rw_san (vw_rem vw)) x = Inr r"
  shows "reads s0 (view_of vw r t tr) (view_shown vw s0 r t)"
  unfolding view_of_def view_shown_def
  by (rule reads_bind [OF reads_job [OF assms(1,2)]], rule reads_bind [OF reads_last [OF assms]], rule reads_ret)

lemma reads_item:
  assumes "calm_reads (vw_rem vw)" "readable (vw_rem vw) s0" "x \<in> set (rs_reminders (rm_store s0))"
    "row_reminder (rw_zone_ok (vw_rem vw)) (rw_san (vw_rem vw)) x = Inr r"
  shows "reads s0 (reminder_inbox_item vw key sts tr r) (entry_shown vw key sts s0 r)"
  unfolding reminder_inbox_item_def Let_def
proof (rule reads_bind [OF reads_task [OF assms(1,2)]])
  show "reads s0 (case task_shown (vw_rem vw) key s0 (rd_task r) of None \<Rightarrow> retS None
      | Some t \<Rightarrow> bindS (view_of vw r t tr) (\<lambda>v.
          retS (if sts \<noteq> [] \<and> sv_status v \<notin> set sts then None else Some (entry_of_view v)))) (entry_shown vw key sts s0 r)"
  proof (cases "task_shown (vw_rem vw) key s0 (rd_task r)")
    case None
    then show ?thesis by (simp add: entry_shown_def reads_ret)
  next
    case (Some t)
    show ?thesis unfolding Some option.case
      by (rule reads_bind [OF reads_view [OF assms]]) (simp add: entry_shown_def Some reads_ret)
  qed
qed

section \<open>The loops\<close>

text \<open>The items of a page and the one after it, of the entries found so far.\<close>

abbreviation window :: "nat \<Rightarrow> nat \<Rightarrow> 'a list \<Rightarrow> 'a list" where
  "window limit offset xs \<equiv> take (Suc limit) (drop offset xs)"

lemma window_append: "length (drop offset xs) > limit \<Longrightarrow> window limit offset (xs @ ys) = window limit offset xs"
  by simp

lemma reads_batch:
  assumes "calm_reads (vw_rem vw)" "readable (vw_rem vw) s0"
    and "\<forall>r \<in> set rs. \<exists>x \<in> set (rs_reminders (rm_store s0)). row_reminder (rw_zone_ok (vw_rem vw)) (rw_san (vw_rem vw)) x = Inr r"
    and "length found - offset \<le> limit"
  shows "\<exists>n. reads s0 (scan_batch vw key sts tr limit offset rs (length found) (drop offset found))
      (n, window limit offset (found @ List.map_filter (entry_shown vw key sts s0) rs)) \<and>
    (length found + length (List.map_filter (entry_shown vw key sts s0) rs) - offset \<le> limit \<longrightarrow>
       n = length (found @ List.map_filter (entry_shown vw key sts s0) rs))"
  using assms(3,4)
proof (induction rs arbitrary: found)
  case Nil
  then show ?case by (auto simp: reads_ret List.map_filter_def)
next
  case (Cons r rs)
  let ?e = "entry_shown vw key sts s0"
  from Cons.prems(1) obtain x where "x \<in> set (rs_reminders (rm_store s0))"
    "row_reminder (rw_zone_ok (vw_rem vw)) (rw_san (vw_rem vw)) x = Inr r" by auto
  note item = reads_item [OF assms(1,2) this, of key sts tr]
  note step = Cons.IH [OF _ , simplified]
  show ?case
  proof (cases "?e r")
    case None
    then have mf: "List.map_filter ?e (r # rs) = List.map_filter ?e rs" by (simp add: List.map_filter_def)
    obtain n where n: "reads s0 (scan_batch vw key sts tr limit offset rs (length found) (drop offset found))
        (n, window limit offset (found @ List.map_filter ?e rs))"
      "length found + length (List.map_filter ?e rs) - offset \<le> limit \<longrightarrow> n = length (found @ List.map_filter ?e rs)"
      using Cons.IH [of found] Cons.prems by auto
    have "reads s0 (scan_batch vw key sts tr limit offset (r # rs) (length found) (drop offset found))
        (n, window limit offset (found @ List.map_filter ?e rs))"
      unfolding scan_batch.simps by (rule reads_bind [OF item]) (simp add: None n(1) del: take_append drop_append)
    with n(2) show ?thesis unfolding mf by blast
  next
    case (Some y)
    then have mf: "List.map_filter ?e (r # rs) = y # List.map_filter ?e rs" by (simp add: List.map_filter_def)
    let ?found = "found @ [y]"
    show ?thesis
    proof (cases "length ?found - offset \<le> limit")
      case True
      then obtain n where n: "reads s0 (scan_batch vw key sts tr limit offset rs (length ?found) (drop offset ?found))
          (n, window limit offset (?found @ List.map_filter ?e rs))"
        "length ?found + length (List.map_filter ?e rs) - offset \<le> limit \<longrightarrow> n = length (?found @ List.map_filter ?e rs)"
        using Cons.IH [of ?found] Cons.prems by auto
      have "reads s0 (scan_batch vw key sts tr limit offset (r # rs) (length found) (drop offset found))
          (n, window limit offset (?found @ List.map_filter ?e rs))"
        unfolding scan_batch.simps by (rule reads_bind [OF item]) (use n(1) True Some in \<open>auto simp: not_less\<close>)
      with n(2) show ?thesis unfolding mf by auto
    next
      case False
      have "reads s0 (scan_batch vw key sts tr limit offset (r # rs) (length found) (drop offset found))
          (Suc (length found), drop offset found @ [y])"
        unfolding scan_batch.simps by (rule reads_bind [OF item]) (use False Some in \<open>auto simp: reads_ret\<close>)
      moreover have "drop offset found @ [y] = window limit offset (found @ List.map_filter ?e (r # rs))"
      proof -
        have "Suc limit - (length found - offset) = Suc 0" "offset - length found = 0" using False Cons.prems(2) by auto
        then show ?thesis unfolding mf by simp
      qed
      ultimately have "reads s0 (scan_batch vw key sts tr limit offset (r # rs) (length found) (drop offset found))
          (Suc (length found), window limit offset (found @ List.map_filter ?e (r # rs)))" by metis
      moreover have "\<not> length found + length (List.map_filter ?e (r # rs)) - offset \<le> limit" using False unfolding mf by simp
      ultimately show ?thesis by blast
    qed
  qed
qed

lemma decode_page: "decode_rows f xs = Inr ys \<Longrightarrow> decode_rows f (sql_page n k xs) = Inr (sql_page n k ys)"
  by (simp add: decode_rows_Inr sql_page_def take_map [symmetric] drop_map [symmetric])

lemma reads_page:
  assumes "calm_reads w" "decode_rows (row_reminder (rw_zone_ok w) (rw_san w)) (rows_shown bounds s0) = Inr rs"
  shows "reads s0 (service_list_page w (fst bounds) (snd bounds) n k tr) (sql_page n k rs)"
  unfolding service_list_page_def
  by (rule reads_catch, rule reads_rem)
    (use assms(1) decode_page [OF assms(2), of n k] in
      \<open>simp add: rem_list_page_def rem_page_rows_def calm_reads_def rem_read_def rem_done_def rows_shown_def\<close>)

lemma map_filter_split: "List.map_filter f (take k xs) @ List.map_filter f (take n (drop k xs)) = List.map_filter f (take (k + n) xs)"
  by (simp add: take_add List.map_filter_def)

text \<open>After \<open>at\<close> rows; each turn of the loop reads at least one more.\<close>

lemma reads_pages:
  assumes "calm_reads (vw_rem vw)" "readable (vw_rem vw) s0"
    and rs: "decode_rows (row_reminder (rw_zone_ok (vw_rem vw)) (rw_san (vw_rem vw))) (rows_shown bounds s0) = Inr rs"
    and "length rs - at < fuel" "at \<le> length rs" "found = List.map_filter (entry_shown vw key sts s0) (take at rs)"
    and "length found - offset \<le> limit"
  shows "reads s0 (scan_pages fuel vw key sts bounds tr limit offset at (length found) (drop offset found))
    (window limit offset (List.map_filter (entry_shown vw key sts s0) rs))"
  using assms(4-)
proof (induction fuel arbitrary: at found)
  case 0
  then show ?case by simp
next
  case (Suc fuel)
  let ?e = "entry_shown vw key sts s0" and ?batch = "sql_page scan_batch_size at rs"
  let ?next = "found @ List.map_filter ?e ?batch"
  have rows: "\<forall>r \<in> set ?batch. \<exists>x \<in> set (rs_reminders (rm_store s0)).
      row_reminder (rw_zone_ok (vw_rem vw)) (rw_san (vw_rem vw)) x = Inr r"
  proof
    fix r
    assume "r \<in> set ?batch"
    then have "Inr r \<in> set (map Inr rs)" by (auto simp: sql_page_def dest: in_set_takeD in_set_dropD)
    with rs have "Inr r \<in> set (map (row_reminder (rw_zone_ok (vw_rem vw)) (rw_san (vw_rem vw))) (rows_shown bounds s0))"
      by (simp only: decode_rows_Inr)
    then show "\<exists>x \<in> set (rs_reminders (rm_store s0)). row_reminder (rw_zone_ok (vw_rem vw)) (rw_san (vw_rem vw)) x = Inr r"
      by (auto simp: rows_shown_def)
  qed
  have next_found: "?next = List.map_filter ?e (take (at + length ?batch) rs)"
    using map_filter_split [of ?e at rs scan_batch_size] Suc.prems(2,3) by (simp add: sql_page_def min_def)
  have rest: "List.map_filter ?e rs = List.map_filter ?e (take k rs) @ List.map_filter ?e (drop k rs)" for k
    by (simp add: List.map_filter_def flip: filter_append map_append)
  obtain n where n: "reads s0 (scan_batch vw key sts tr limit offset ?batch (length found) (drop offset found))
      (n, window limit offset ?next)"
    "length ?next - offset \<le> limit \<longrightarrow> n = length ?next"
    using reads_batch [OF assms(1,2) rows Suc.prems(4)] by force
  have page: "reads s0 (service_list_page (vw_rem vw) (fst bounds) (snd bounds) scan_batch_size at tr) ?batch"
    by (rule reads_page [OF assms(1) rs])
  have answer: "reads s0 (if ?batch = [] then retS (drop offset found)
      else bindS (scan_batch vw key sts tr limit offset ?batch (length found) (drop offset found)) (\<lambda>(n', items').
        if length items' > limit \<or> length ?batch < scan_batch_size then retS items'
        else scan_pages fuel vw key sts bounds tr limit offset (at + length ?batch) n' items'))
      (window limit offset (List.map_filter ?e rs))"
  proof (cases "?batch = []")
    case True
    then have "at = length rs" using Suc.prems(2) by (auto simp: sql_page_def scan_batch_size_def)
    with True Suc.prems(3,4) show ?thesis by (simp add: reads_ret)
  next
    case False
    have step: "reads s0 (if length (window limit offset ?next) > limit \<or> length ?batch < scan_batch_size
        then retS (window limit offset ?next)
        else scan_pages fuel vw key sts bounds tr limit offset (at + length ?batch) n (window limit offset ?next))
        (window limit offset (List.map_filter ?e rs))"
    proof (cases "length ?next - offset \<le> limit")
      case long: False
      then have "window limit offset ?next = window limit offset (List.map_filter ?e rs)"
        unfolding rest [of "at + length ?batch"] next_found by (intro window_append [symmetric]) simp
      moreover have "length (window limit offset ?next) > limit" using long by simp
      ultimately show ?thesis by (simp only: reads_ret if_True simp_thms)
    next
      case True
      then have all: "window limit offset ?next = drop offset ?next" by simp
      show ?thesis
      proof (cases "length ?batch < scan_batch_size")
        case short: True
        then have "at + length ?batch = length rs" using Suc.prems(2) by (simp add: sql_page_def min_def split: if_splits)
        then have "?next = List.map_filter ?e rs" unfolding next_found by simp
        with short show ?thesis by (simp only: reads_ret if_True simp_thms)
      next
        case full: False
        have "length rs - (at + length ?batch) < fuel" using Suc.prems(1) False by (auto simp: sql_page_def)
        moreover have "at + length ?batch \<le> length rs" using Suc.prems(2) by (simp add: sql_page_length)
        ultimately have "reads s0 (scan_pages fuel vw key sts bounds tr limit offset (at + length ?batch) (length ?next)
            (drop offset ?next)) (window limit offset (List.map_filter ?e rs))"
          using Suc.IH [OF _ _ next_found True] by blast
        moreover have "\<not> length (drop offset ?next) > limit" using True by simp
        ultimately show ?thesis unfolding all using full n(2) True by (simp only: if_False simp_thms)
      qed
    qed
    show ?thesis unfolding if_not_P [OF False] by (rule reads_bind [OF n(1)]) (simp only: prod.case step)
  qed
  have "\<not> length (drop offset found) > limit" using Suc.prems(4) by simp
  then show ?case unfolding scan_pages.simps by (simp only: if_False) (rule reads_bind [OF page], rule answer)
qed

lemma rows_decode:
  assumes "readable w s"
  shows "decode_rows (row_reminder (rw_zone_ok w) (rw_san w)) (rows_shown bounds s) = Inr (map (reminder_shown w) (rows_shown bounds s))"
proof -
  have "row_reminder (rw_zone_ok w) (rw_san w) r = Inr (reminder_shown w r)" if "r \<in> set (rows_shown bounds s)" for r
    using assms that by (auto simp: readable_def rows_shown_def reminder_shown_def succeeds_iff)
  then show ?thesis by (simp add: decode_rows_Inr)
qed

lemma entries_map: "List.map_filter f (map g xs) = List.map_filter (\<lambda>x. f (g x)) xs"
  by (induction xs) (auto simp: List.map_filter_def split: option.splits)

lemma length_rows_shown: "length (rows_shown bounds s) \<le> length (rs_reminders (rm_store s))"
  by (simp add: rows_shown_def)

lemma reads_all_pages:
  assumes "calm_reads (vw_rem vw)" "readable (vw_rem vw) s" "length (rs_reminders (rm_store s)) < fuel"
  shows "reads s (scan_pages fuel vw key sts bounds tr limit offset 0 0 []) (window limit offset (entries_shown vw key sts bounds s))"
proof -
  have "length (map (reminder_shown (vw_rem vw)) (rows_shown bounds s)) - 0 < fuel"
    using assms(3) length_rows_shown [of bounds s] by simp
  moreover have "[] = List.map_filter (entry_shown vw key sts s) (take 0 (map (reminder_shown (vw_rem vw)) (rows_shown bounds s)))"
    by (simp add: List.map_filter_def)
  ultimately show ?thesis
    using reads_pages [OF assms(1,2) rows_decode [OF assms(2)], of bounds 0 fuel "[]" key sts offset limit tr]
    by (simp add: entries_shown_def entries_map)
qed

text \<open>What a page says of the entries, given the times it looks between.\<close>

definition page_shown :: "view_world \<Rightarrow> workspace_key \<Rightarrow> inbox_query \<Rightarrow> nat \<Rightarrow> nat \<Rightarrow> instant option \<times> instant option \<Rightarrow> rem_system \<Rightarrow> inbox_page" where
  "page_shown vw key q limit offset bounds s =
    (let entries = entries_shown vw key (iq_statuses (effective_query q)) bounds s; items = take limit (drop offset entries) in
     \<lparr>pg_items = items, pg_limit = limit, pg_offset = offset, pg_count = length items,
      pg_more = (offset + limit < length entries),
      pg_statuses = sort (remdups (map shown_value (iq_statuses (effective_query q)))),
      pg_scope = map_option time_scope_value (iq_scope (effective_query q)),
      pg_view = (if iq_pending q then Some ''pending'' else None)\<rparr>)"

lemma inbox_page_after:
  assumes "calm_reads (vw_rem vw)" "readable (vw_rem vw) s" "length (rs_reminders (rm_store s)) < fuel"
    "1 \<le> limit" "limit \<le> 100" "same_rows s s'" "time_bounds vw (iq_scope (effective_query q)) s' = (Inr bounds, s1)" "same_rows s s1"
  shows "\<exists>t. list_reminder_inbox fuel vw key q limit offset tr s' = (Inr (page_shown vw key q limit offset bounds s), t) \<and>
    same_rows s t"
proof -
  obtain t where t: "scan_pages fuel vw key (iq_statuses (effective_query q)) bounds tr limit offset 0 0 [] s1 =
      (Inr (window limit offset (entries_shown vw key (iq_statuses (effective_query q)) bounds s)), t)" "same_rows s t"
    using readsD [OF reads_all_pages [OF assms(1-3)] assms(8)] by blast
  have "limit < length (window limit offset xs) \<longleftrightarrow> offset + limit < length xs" for xs :: "inbox_entry list"
    by auto
  then show ?thesis using t assms(4,5,7)
    by (simp add: list_reminder_inbox_def Let_def bindS_run retS_def page_shown_def min_absorb1)
qed

section \<open>The search by title\<close>

definition all_entries :: "view_world \<Rightarrow> workspace_key \<Rightarrow> rem_system \<Rightarrow> inbox_entry list" where
  "all_entries vw key s = entries_shown vw key [] (None, None) s"

lemma length_all_entries: "length (all_entries vw key s) \<le> length (rs_reminders (rm_store s))"
proof -
  have "length (all_entries vw key s) \<le> length (rows_shown (None, None) s)"
    by (simp add: all_entries_def entries_shown_def List.map_filter_def)
  with length_rows_shown [of "(None, None)" s] show ?thesis by simp
qed

lemma every_page:
  assumes "calm_reads (vw_rem vw)" "readable (vw_rem vw) s" "length (rs_reminders (rm_store s)) < fuel"
  shows "reads s (list_reminder_inbox fuel vw key every_reminder 100 offset tr) (page_shown vw key every_reminder 100 offset (None, None) s)"
  unfolding reads_def
proof (intro allI impI)
  fix s'
  assume "same_rows s s'"
  moreover have "time_bounds vw (iq_scope (effective_query every_reminder)) s' = (Inr (None, None), s')"
    by (simp add: effective_query_def every_reminder_def time_bounds_def retS_def)
  ultimately show "\<exists>t. list_reminder_inbox fuel vw key every_reminder 100 offset tr s' =
      (Inr (page_shown vw key every_reminder 100 offset (None, None) s), t) \<and> same_rows s t"
    using inbox_page_after [OF assms, of 100 s' every_reminder "(None, None)" s'] by simp
qed

lemma reads_candidates:
  assumes "calm_reads (vw_rem vw)" "readable (vw_rem vw) s"
    and "length (rs_reminders (rm_store s)) + (length (all_entries vw key s) - offset) + 1 < fuel"
    and "found = filter (title_hit vw allowed query) (take offset (all_entries vw key s))"
  shows "reads s (collect_candidates fuel vw key allowed query tr offset found) (filter (title_hit vw allowed query) (all_entries vw key s))"
  using assms(3,4)
proof (induction fuel arbitrary: offset found)
  case 0
  then show ?case by simp
next
  case (Suc fuel)
  let ?all = "all_entries vw key s" and ?hit = "title_hit vw allowed query"
  let ?page = "page_shown vw key every_reminder 100 offset (None, None) s"
  have page: "pg_items ?page = take 100 (drop offset ?all)" "pg_count ?page = length (take 100 (drop offset ?all))"
    "pg_more ?page \<longleftrightarrow> offset + 100 < length ?all"
    by (simp_all add: page_shown_def Let_def all_entries_def effective_query_def every_reminder_def)
  have next_found: "found @ filter ?hit (take 100 (drop offset ?all)) = filter ?hit (take (offset + 100) ?all)"
    using Suc.prems(2) by (simp add: take_add)
  have "reads s (if \<not> pg_more ?page then retS (found @ filter ?hit (pg_items ?page))
      else collect_candidates fuel vw key allowed query tr (offset + pg_count ?page) (found @ filter ?hit (pg_items ?page)))
      (filter ?hit ?all)"
  proof (cases "offset + 100 < length ?all")
    case True
    then have "pg_count ?page = 100" by (simp add: page)
    moreover have "reads s (collect_candidates fuel vw key allowed query tr (offset + 100) (filter ?hit (take (offset + 100) ?all)))
        (filter ?hit ?all)"
      by (rule Suc.IH) (use Suc.prems(1) True in simp_all)
    ultimately show ?thesis using True by (simp add: page(1,3) next_found)
  next
    case False
    moreover have "found @ filter ?hit (drop offset ?all) = filter ?hit ?all"
      using Suc.prems(2) by (metis append_take_drop_id filter_append)
    ultimately show ?thesis by (simp add: page reads_ret)
  qed
  then show ?case unfolding collect_candidates.simps Let_def
    by (intro reads_bind [OF every_page [OF assms(1,2)]]) (use Suc.prems(1) in simp_all)
qed

lemma reads_get_task:
  assumes "calm_reads w" "readable w s0" "task_shown w key s0 i = Some t"
  shows "reads s0 (visible_task w key i tr) t"
proof -
  have "\<exists>u. visible_task w key i tr s = (Inr t, u) \<and> same_rows s0 u" if s: "same_rows s0 s" for s
  proof -
    let ?st = "us_store (rm_tasks s)"
    have ok: "tasks_ok (rw_zone_ok w) (us_rows ?st)" using assms(2) s by (simp add: readable_def same_rows_def)
    have rows: "us_rows ?st = us_rows (us_store (rm_tasks s0))" using s by (simp add: same_rows_def)
    have io: "ue_read_io (re_task (rw_env w (rm_calls s))) = None" using assms(1) by (simp add: calm_reads_def)
    from assms(3) show ?thesis using s tasks_ok_not_malformed [OF ok] io
      by (simp add: task_shown_def visible_task_def on_user_tasks_def ut_get_def catchS_def bindS_run on_tasks_def task_get_def rows
          task_done_def retS_def same_rows_def split: option.splits sum.splits)
  qed
  then show ?thesis by (simp add: reads_def)
qed

lemma reads_by_id:
  assumes "calm_reads (vw_rem vw)" "readable (vw_rem vw) s" "x \<in> set (all_entries vw key s)"
  shows "\<exists>r t v. reads s (by_id vw (en_reminder x) key tr) (r, t, v) \<and> rd_id r = en_reminder x \<and> entry_of_view v = x"
proof -
  let ?w = "vw_rem vw"
  obtain y where y: "y \<in> set (rs_reminders (rm_store s))" "entry_shown vw key [] s (reminder_shown ?w y) = Some x"
    using assms(3) by (auto simp: all_entries_def entries_shown_def rows_shown_def List.map_filter_def)
  let ?r = "reminder_shown ?w y"
  have row: "row_reminder (rw_zone_ok ?w) (rw_san ?w) y = Inr ?r"
    using assms(2) y(1) by (auto simp: readable_def reminder_shown_def succeeds_iff)
  then have id: "rd_id ?r = rd_id y" by (rule row_reminder_id)
  obtain t where t: "task_shown ?w key s (rd_task ?r) = Some t" "x = entry_of_view (view_shown vw s ?r t)"
    using y(2) by (auto simp: entry_shown_def split: option.splits)
  have x: "en_reminder x = rd_id ?r" by (simp add: t(2) entry_of_view_def view_shown_def build_reminder_status_view_def)
  have found: "row_of rd_id (rd_id ?r) (rs_reminders (rm_store s)) = Some y"
    using assms(2) y(1) id by (simp add: readable_def row_of_member)
  have "reads s (by_id vw (rd_id ?r) key tr) (?r, t, view_shown vw s ?r t)"
    unfolding by_id_def Let_def
    by (rule reads_bind [OF reads_catch, where x = "(?r, t)"])
      (rule reads_bind [OF reads_service_get [OF assms(1) found row]], rule reads_bind [OF reads_get_task [OF assms(1,2) t(1)]],
        rule reads_ret, simp, rule reads_bind [OF reads_view [OF assms(1,2) y(1) row]], rule reads_ret)
  with x t(2) show ?thesis by metis
qed

section \<open>Properties\<close>

text \<open>C39: a page of the reminder inbox holds the entries of the visible reminders between the times asked
  for, in the order of time and identifier and filtered by status, from the offset to the limit, and
  says that there are more exactly when there are; the batches it is read in do not show.\<close>

theorem rem_inbox_page:
  assumes "calm_reads (vw_rem vw)" "readable (vw_rem vw) s" "length (rs_reminders (rm_store s)) < fuel"
    "1 \<le> limit" "limit \<le> 100" "time_bounds vw (iq_scope (effective_query q)) s = (Inr bounds, s1)"
  shows "\<exists>t. list_reminder_inbox fuel vw key q limit offset tr s = (Inr (page_shown vw key q limit offset bounds s), t)"
proof -
  have "same_rows s s1" using assms(6)
    by (auto simp: time_bounds_def same_rows_def bindS_run rem_draw_def retS_def split: option.splits)
  moreover have "same_rows s s" by (simp add: same_rows_def)
  ultimately show ?thesis using inbox_page_after [OF assms(1-5) _ assms(6)] by blast
qed

text \<open>C40: the search for a reminder by title looks at all reminders of the workspace, however many pages
  they fill: it answers the one whose title is the text, or else the only one whose title contains
  it; it refuses when there is none, and when there are several.\<close>

theorem rem_title_search:
  assumes "calm_reads (vw_rem vw)" "readable (vw_rem vw) s" "2 * length (rs_reminders (rm_store s)) + 1 < fuel"
    and "i = None \<or> i = Some []" and query: "query = vw_fold vw (py_strip title)" "query \<noteq> []"
    and found: "found = exact_or_all vw query (filter (title_hit vw allowed query) (all_entries vw key s))"
  shows "(found = [] \<longrightarrow> fst (mg_resolve fuel vw key i (Some title) allowed tr s) = fst (reminder_not_found (vw_rem vw) tr s)) \<and>
    (\<forall>x. found = [x] \<longrightarrow> (\<exists>r t v. fst (mg_resolve fuel vw key i (Some title) allowed tr s) = Inr (r, t, v) \<and>
       rd_id r = en_reminder x \<and> entry_of_view v = x)) \<and>
    (2 \<le> length found \<longrightarrow> (\<exists>f. fst (mg_resolve fuel vw key i (Some title) allowed tr s) = Inl (Failed f) \<and>
       fi_code f = ''reminder.ambiguous''))"
proof -
  let ?all = "all_entries vw key s" and ?hit = "title_hit vw allowed query"
  have same: "same_rows s s" by (simp add: same_rows_def)
  have "reads s (collect_candidates fuel vw key allowed query tr 0 []) (filter ?hit ?all)"
    by (rule reads_candidates [OF assms(1,2)]) (use assms(3) length_all_entries [of vw key s] in simp_all)
  then obtain u where u: "collect_candidates fuel vw key allowed query tr 0 [] s = (Inr (filter ?hit ?all), u)" "same_rows s u"
    using readsD [OF _ same] by metis
  have run: "mg_resolve fuel vw key i (Some title) allowed tr s =
      (case found of [] \<Rightarrow> reminder_not_found (vw_rem vw) tr u | [x] \<Rightarrow> by_id vw (en_reminder x) key tr u
       | xs \<Rightarrow> mg_raise (vw_rem vw) ''reminder.ambiguous'' CONFLICT ''Multiple reminders matched; specify a Reminder ID''
           ''resolve'' tr False [(''candidates'', JArr (map candidate_json (take 20 xs)))] u)"
  proof -
    have "\<not> (i \<noteq> None \<and> i \<noteq> Some [])" "vw_fold vw (py_strip title) \<noteq> []" using assms(4) query by auto
    then show ?thesis
      unfolding mg_resolve_def Let_def option.case if_not_P [OF \<open>\<not> (i \<noteq> None \<and> i \<noteq> Some [])\<close>] if_not_P [OF \<open>vw_fold vw (py_strip title) \<noteq> []\<close>]
      by (simp only: bindS_run query(1) [symmetric] u(1) prod.case sum.case found split: list.split) simp
  qed
  have one: "\<exists>r t v. fst (by_id vw (en_reminder x) key tr u) = Inr (r, t, v) \<and> rd_id r = en_reminder x \<and> entry_of_view v = x"
    if "found = [x]" for x
  proof -
    have "x \<in> set found" using that by simp
    then have "x \<in> set ?all" unfolding found by (auto simp: exact_or_all_def Let_def split: if_splits)
    from reads_by_id [OF assms(1,2) this, of tr] show ?thesis using readsD [OF _ u(2)] by (metis fst_conv)
  qed
  have "\<exists>f. fst (mg_resolve fuel vw key i (Some title) allowed tr s) = Inl (Failed f) \<and> fi_code f = ''reminder.ambiguous''"
    if long: "2 \<le> length found"
  proof -
    obtain x y zs where "found = x # y # zs" using long by (cases found rule: remdups_adj.cases) auto
    then show ?thesis by (simp add: run mg_raise_def failS_def plain_failure_def)
  qed
  moreover have "fst (mg_resolve fuel vw key i (Some title) allowed tr s) = fst (reminder_not_found (vw_rem vw) tr s)" if "found = []"
    using that by (simp add: run reminder_not_found_def mg_raise_def failS_def)
  ultimately show ?thesis using one by (simp add: run)
qed

section \<open>Witnesses\<close>

definition sample_views :: view_world where
  "sample_views = \<lparr>vw_rem = sample_rem_world, vw_offset = (\<lambda>z t. 0), vw_wall = id, vw_from_wall = id, vw_local = id,
     vw_fold = id, vw_sha = id\<rparr>"

lemma sample_calm: "calm_reads (vw_rem sample_views)"
proof -
  have "persistent (at_second 7 CHR ''j'')" by code_simp
  moreover have "se_san (at_second 7 CHR ''j'') = id" "se_zone_ok (at_second 7 CHR ''j'') = utc_zone"
    "se_io (at_second 7 CHR ''j'') = None"
    by (simp_all add: at_second_def fun_eq_iff utc_zone_def)
  ultimately show ?thesis by (simp add: calm_reads_def sample_views_def sample_rem_world_def sample_rem_env_def calm_def)
qed

lemma scheduled_rest: "rs_occurrences (rm_store scheduled_reminders) = []"
  "us_rows (us_store (rm_tasks scheduled_reminders)) = [task_row sample_task]"
  "ss_open (snd (rm_jobs scheduled_reminders))"
  "list_all (\<lambda>j. succeeds (row_to_job id utc_zone j)) (ss_jobs (snd (rm_jobs scheduled_reminders)))"
proof -
  show "us_rows (us_store (rm_tasks scheduled_reminders)) = [task_row sample_task]"
    using sample_table by (simp add: scheduled_reminders_def empty_reminders_def)
  have "succeeds (row_to_job id utc_zone sample_reminder_job)"
    by (simp add: row_to_job_def sample_reminder_job_def utc_zone_def succeeds_iff str_or_def)
  then show "list_all (\<lambda>j. succeeds (row_to_job id utc_zone j)) (ss_jobs (snd (rm_jobs scheduled_reminders)))"
    by (simp add: scheduled_reminders_def)
qed (simp_all add: scheduled_reminders_def empty_reminders_def)

lemma sample_readable: "readable (vw_rem sample_views) scheduled_reminders"
proof -
  have "tasks_ok utc_zone [task_row sample_task]" using sample_tasks_ok by (simp add: sample_table)
  moreover have "succeeds (row_reminder utc_zone id sample_reminder)" using scheduled_table(4,5) by (simp add: read_row succeeds_iff)
  ultimately show ?thesis
    using scheduled_rest by (simp add: readable_def sample_views_def sample_rem_world_def scheduled_table keyed_def list_all_iff)
qed

definition sample_inbox_entry :: inbox_entry where
  "sample_inbox_entry = entry_of_view (view_shown sample_views scheduled_reminders sample_reminder sample_task)"

lemma sample_inbox_entry_title: "en_title sample_inbox_entry = ut_title sample_task"
  by (simp add: sample_inbox_entry_def entry_of_view_def view_shown_def build_reminder_status_view_def)

lemma sample_task_shown: "task_shown sample_rem_world acme scheduled_reminders ''ut_1'' = Some sample_task"
proof -
  have "ur_id (task_row sample_task) = ''ut_1'' \<and> owned_by (normalize_workspace_key acme) (task_row sample_task)" by code_simp
  moreover have "task_of_row utc_zone (task_row sample_task) = Inr sample_task" by code_simp
  ultimately show ?thesis by (simp add: task_shown_def scheduled_rest(2) sample_rem_world_def)
qed

lemma sample_entries: "all_entries sample_views acme scheduled_reminders = [sample_inbox_entry]"
proof -
  have "entry_shown sample_views acme [] scheduled_reminders sample_reminder = Some sample_inbox_entry"
    using sample_task_shown by (simp add: entry_shown_def sample_inbox_entry_def sample_views_def scheduled_table(3))
  moreover have "reminder_shown (vw_rem sample_views) sample_reminder = sample_reminder"
    using scheduled_table(4,5) by (simp add: reminder_shown_def sample_views_def sample_rem_world_def read_row)
  ultimately show ?thesis
    by (auto simp: all_entries_def entries_shown_def rows_shown_def scheduled_table(1) List.map_filter_def opt_clause_def)
qed

theorem rem_inbox_page_witness:
  "\<exists>p t. list_reminder_inbox 2 sample_views acme every_reminder 20 0 ''t'' scheduled_reminders = (Inr p, t) \<and>
     pg_items p = [sample_inbox_entry] \<and> \<not> pg_more p"
proof -
  have "time_bounds sample_views (iq_scope (effective_query every_reminder)) scheduled_reminders = (Inr (None, None), scheduled_reminders)"
    by (simp add: effective_query_def every_reminder_def time_bounds_def retS_def)
  from rem_inbox_page [OF sample_calm sample_readable _ _ _ this, of 2 20 acme 0 "''t''"]
  have "\<exists>t. list_reminder_inbox 2 sample_views acme every_reminder 20 0 ''t'' scheduled_reminders =
      (Inr (page_shown sample_views acme every_reminder 20 0 (None, None) scheduled_reminders), t)"
    by (simp add: scheduled_table(1))
  moreover have "entries_shown sample_views acme [] (None, None) scheduled_reminders = [sample_inbox_entry]"
    using sample_entries by (simp add: all_entries_def)
  ultimately show ?thesis by (auto simp: page_shown_def Let_def effective_query_def every_reminder_def)
qed

theorem rem_title_search_witness:
  "\<exists>r t v. fst (mg_resolve 4 sample_views acme None (Some (en_title sample_inbox_entry)) [] ''t'' scheduled_reminders) = Inr (r, t, v) \<and>
     rd_id r = en_reminder sample_inbox_entry"
proof -
  have fold: "vw_fold sample_views = id" by (simp add: sample_views_def)
  have title: "py_strip (en_title sample_inbox_entry) = en_title sample_inbox_entry" "en_title sample_inbox_entry \<noteq> []"
    unfolding sample_inbox_entry_title by code_simp+
  have "has_substring (ut_title sample_task) (ut_title sample_task)" by code_simp
  then have "title_hit sample_views [] (en_title sample_inbox_entry) sample_inbox_entry"
    by (simp add: title_hit_def sample_views_def sample_inbox_entry_title)
  then have "exact_or_all sample_views (en_title sample_inbox_entry)
      (filter (title_hit sample_views [] (en_title sample_inbox_entry)) (all_entries sample_views acme scheduled_reminders)) = [sample_inbox_entry]"
    using title fold by (simp add: sample_entries exact_or_all_def)
  with rem_title_search [OF sample_calm sample_readable, of 4 None "en_title sample_inbox_entry" "en_title sample_inbox_entry" "[sample_inbox_entry]" "[]" acme "''t''"]
  show ?thesis using title fold by (auto simp: scheduled_table(1))
qed

end
