(* ===== verification/Spec2Isabelle.thy ===== *)
theory Spec2Isabelle
  imports WaitingFor_Properties Scheduler_Board UserTask_Properties Chunking_Properties Inbox_Conversion Workflow_Properties Task_Properties
    WorkLog_Properties Inbox_WorkLogs Reminder_Pages
begin

text \<open>
  A verification development of the core of AI Lab OS, the Python program under \<open>src/core\<close>: a
  personal assistant's records of what its user has to do, waits for and captures, the reminders it sends, the
  scheduler that runs work in the background, and the runtimes through which agents work.

  \<^bold>\<open>The parts of the program.\<close>  Every domain service (\<open>waiting_for\<close>, \<open>user_tasks\<close>, \<open>inbox\<close>, \<open>work_log\<close>) sits on a
  repository over SQLite.  Each record belongs to a workspace, whose key (\<open>core/workspace\<close>) is part of
  every statement, and carries a revision that a writer must name.  A service validates, calls its
  repository, turns every exception into a failure of one contract (\<open>core/errors\<close>) and publishes an
  event on the bus.  The inbox converts captured text into a task, a reminder, a work log or a waiting-for
  item by calling the other services under a durable claim.  A reminder (\<open>core/reminders\<close>) belongs to a user
  task; its bridge gives it a one-shot job of the scheduler, whose action triggers the reminder, and a
  reconciliation repairs what a failure left between the two.  The scheduler is run by any number of
  processes over two shared tables; a job is claimed by a token with an expiry.  A task
  (\<open>core/task\<close>) runs workflows in order, a workflow (\<open>core/workflow\<close>) runs steps, a step calls an agent or
  a tool, and every tool call goes through the executor of \<open>core/tools\<close>.  The knowledge base cuts documents
  into chunks.

  \<^bold>\<open>Theories.\<close>
  \<^item> \<open>Prelude\<close>: association lists, results, the state-and-error operations (\<open>bindS\<close>, \<open>catchS\<close>,
    \<open>finallyS\<close>), UTF-8 texts with Python's \<open>strip\<close>, \<open>lower\<close> and \<open>len\<close>, JSON.
  \<^item> \<open>Timestamps\<close>: instants and \<open>datetime.isoformat\<close>; text order is time order (used by every table that
    compares text columns).  \<open>Domain_Base\<close>: checks of text lengths and metadata keys, timestamp columns.
  \<^item> \<open>Failures\<close>: \<open>core/errors\<close>.  \<open>Workspaces\<close>: \<open>core/workspace\<close>, \<open>core/user_tasks/workspace.py\<close>.
  \<^item> \<open>Store_Contracts\<close>: the locale of repositories with revisions, interpreted by the repositories.
  \<^item> \<open>WaitingFor_Model\<close>, \<open>_Store\<close>, \<open>_Service\<close>, \<open>_Properties\<close>: \<open>core/waiting_for\<close>.
  \<^item> \<open>UserTask_Model\<close>, \<open>_Store\<close>, \<open>_Service\<close>, \<open>_Properties\<close>: \<open>core/user_tasks\<close>.
  \<^item> \<open>Inbox_Model\<close>, \<open>_Store\<close>, \<open>_Service\<close>: \<open>core/inbox\<close>; \<open>Inbox_Saga\<close>: the abstract state machine of a
    resolution; \<open>Inbox_Calls\<close>, \<open>Inbox_Runs\<close>: every call that the service makes of the repository is a step
    of it; \<open>Inbox_Properties\<close>; \<open>Inbox_Conversion\<close>: any number of attempts to convert an item to a task.
  \<^item> \<open>WorkLog_Model\<close>, \<open>_Store\<close>, \<open>_Service\<close>, \<open>_Properties\<close>: \<open>core/work_log\<close>; \<open>Inbox_WorkLogs\<close>: the inbox
    over the work log service.
  \<^item> \<open>Scheduler_Trigger\<close>, \<open>_Store\<close>, \<open>_Runtime\<close>: \<open>core/scheduler\<close>; \<open>Scheduler_Claims\<close>,
    \<open>_Refinement\<close>, \<open>_System\<close>: the abstract steps over the tables, the refinement of every operation to
    them, and the states that several processes reach; \<open>Scheduler_Properties\<close>; \<open>Scheduler_Board\<close>: the
    management of jobs against a board with one card per job.
  \<^item> \<open>Reminder_Store\<close>, \<open>_Service\<close>, \<open>_Bridge\<close>: the repository, the service with its events and handler, the
    bridge to the scheduler with its reconciliation and the hook of the user tasks; \<open>Reminder_Views\<close>,
    \<open>_Management\<close>: status views, the reminder inbox, the operations by title and the creation under an
    idempotency key; \<open>Reminder_Rows\<close>, \<open>_Finality\<close>: how rows evolve under any operation; \<open>_Jobs\<close>: what a creation
    leaves in the scheduler; \<open>_Properties\<close>; \<open>_Pages\<close>: the pages of the reminder inbox and the search by title.
  \<^item> \<open>Chunking\<close>, \<open>Chunking_Properties\<close>: \<open>core/knowledge/chunking.py\<close>.
  \<^item> \<open>Engine_Base\<close>, \<open>Tools\<close>, \<open>Workflows\<close>, \<open>Task_Runtime\<close>: \<open>core/tools\<close>, \<open>core/workflow\<close>, \<open>core/task\<close>;
    \<open>Workflow_Properties\<close> and \<open>Task_Properties\<close>: what they promise.

  \<^bold>\<open>How state and effects are modelled.\<close>  A table is the list of its rows, and a statement is a function on
  it; every repository call is one transaction.  Columns that hold timestamps hold texts, and are compared
  as texts, as SQLite does.  A service operation threads its state through \<open>bindS\<close>; exceptions are the left
  side of a sum, with class and message, so that \<open>try\<close> and \<open>except\<close> are \<open>catchS\<close>.  What an operation takes
  from its surroundings is an argument: the readings of the clock, the UUIDs it draws, whether SQLite or the
  bus fails, the lookup of a time zone, \<open>sanitize_text\<close> (two regular expressions), SHA-256; the work log
  takes those of pydantic, the Unicode tables and \<open>zoneinfo\<close> as one record, \<open>wl_lib\<close>.  Objects that
  the code shares between a running operation and another (the state machines of workflows and tasks) live
  under addresses.  The operations that the engine runtimes await are operations on their whole state:
  whatever else runs in the meantime is part of them, so the theorems hold for every interleaving.
  A handler of the scheduler may end with \<open>CancelledError\<close>, which leaves the executor as it is: the worker
  then keeps its durable claim, for another process to take over.  A shutdown ends every worker, by
  cancelling it or, when the configuration says so, by waiting for it up to a timeout; how each one ends
  while it waits is part of its surroundings.

  \<^bold>\<open>What the properties show.\<close>  For the repositories: isolation of workspaces, no lost update, histories and
  tables that stay consistent over any sequence of requests, what a failed call leaves behind, reads that
  give back what was written.  For the scheduler: the tables stay consistent under any interleaving of any
  number of processes, claims exclude each other, a crashed worker's job is handed out again, retries are
  bounded, and every request of the management of jobs does to the tables, and answers, what an abstract
  board says.  For the inbox: one resolution per item over the calls that its service makes (the direct
  writes of the repository, \<open>update\<close>, \<open>resolve\<close> and \<open>dismiss\<close>, are modelled but go past the claim), exactly
  one task however often and wherever the attempts to convert an item fail, and exactly one work log for a
  conversion whose read-back fails and that is retried.  For work logs: every
  answer validates, rows are only added.  For reminders: none fires twice or after it was cancelled, none of an
  ended task fires, a created one has a job that fires it,
  and the pages and searches show all of them.  For the engines: a task runs once, its outcome as a
  function of the answers of its workflows, the figures of a workflow result, no tool without permission.
  For the chunkers: when they return, that nothing is lost, bounds.  Some properties state behaviour that
  differs from what the code means to do; the manifest lists them as findings.

  \<^bold>\<open>Bounds and termination.\<close>  Python's ints are \<open>int\<close>; revisions in SQLite are assumed below \<open>2^63\<close>.  Loops that
  need not end (the fixed-length chunker) are \<open>partial_function (option)\<close> and it is proved when they
  return; the search for the next cron time is bounded as in the code; all other loops are structural
  recursion or have a termination proof.  The loops over the pages of reminders have fuel, one unit per page:
  each page moves on by at least one row, and it is proved that twice the number of rows is enough.

  \<^bold>\<open>Not modelled.\<close>  Latencies and log lines; the migration of old tables; the import of legacy memories; the
  HTTP interface and the command line; language model providers, embeddings and vector search; the built-in
  tools; start-up and supervision.  Interactions, daily review, agenda, lifecycle
  coordination, memories, the bus, the agent runtime and the applications are not modelled yet; where a
  modelled component calls one of them it is an argument.
\<close>

end
